(* ===== verification/Prelude.thy ===== *)
theory Prelude
  imports Main "HOL-Library.Word" "HOL-Library.AList" "HOL-Library.Monad_Syntax"
begin

text \<open>
  Shared vocabulary of the development: the machine types, the Rust operations
  that can panic (a panic is the value None of the outer option), saturating
  arithmetic, the tables that model DashMap, HashMap and SQL tables, runs of a
  step function over a sequence of events, and the interface locales that the
  components instantiate.
\<close>

unbundle bit_operations_syntax

section \<open>Types\<close>

type_synonym u8 = "8 word"
type_synonym u16 = "16 word"
type_synonym u32 = "32 word"
type_synonym u64 = "64 word"
type_synonym u128 = "128 word"
type_synonym bytes = "8 word list"
type_synonym millis = int

named_theorems panic_simps \<open>evaluation of the reads that may panic\<close>
named_theorems table_simps \<open>lookup after the operations of a table\<close>
named_theorems invar_intros \<open>preservation of the table invariant\<close>

section \<open>Integer operations of the standard library\<close>

definition saturating_add :: "'a::len word \<Rightarrow> 'a word \<Rightarrow> 'a word" where
  "saturating_add a b = (if a + b < a then - 1 else a + b)"

definition saturating_sub :: "'a::len word \<Rightarrow> 'a word \<Rightarrow> 'a word" where
  "saturating_sub a b = (if b \<le> a then a - b else 0)"

lemma unat_saturating_sub:
  "unat (saturating_sub a b) = unat a - unat b"
  by (auto simp: saturating_sub_def unat_sub word_le_nat_alt)

lemma unat_saturating_add_le:
  fixes a b :: "'a::len word"
  assumes "unat a + unat b < 2 ^ LENGTH('a)"
  shows "unat (saturating_add a b) = unat a + unat b"
proof -
  have "unat (a + b) = unat a + unat b"
    using assms by (simp add: unat_word_ariths(1))
  then show ?thesis
    by (simp add: saturating_add_def word_less_nat_alt)
qed

section \<open>Reads that panic out of range\<close>

text \<open>
  b[i], \&b[i..], \&b[..j] and \&b[i..j] of the source: None is the panic.
\<close>

definition idx :: "'a list \<Rightarrow> nat \<Rightarrow> 'a option" where
  "idx b i = (if i < length b then Some (b ! i) else None)"

definition slice_from :: "'a list \<Rightarrow> nat \<Rightarrow> 'a list option" where
  "slice_from b i = (if i \<le> length b then Some (drop i b) else None)"

definition slice_to :: "'a list \<Rightarrow> nat \<Rightarrow> 'a list option" where
  "slice_to b j = (if j \<le> length b then Some (take j b) else None)"

definition slice :: "'a list \<Rightarrow> nat \<Rightarrow> nat \<Rightarrow> 'a list option" where
  "slice b i j = (if i \<le> j \<and> j \<le> length b then Some (take (j - i) (drop i b)) else None)"

lemma idx_Some [panic_simps]: "i < length b \<Longrightarrow> idx b i = Some (b ! i)"
  by (simp add: idx_def)

lemma idx_Some0 [panic_simps]: "b \<noteq> [] \<Longrightarrow> idx b 0 = Some (b ! 0)"
  by (simp add: idx_def)

lemma slice_from_Some [panic_simps]: "i \<le> length b \<Longrightarrow> slice_from b i = Some (drop i b)"
  by (simp add: slice_from_def)

lemma slice_to_Some [panic_simps]: "j \<le> length b \<Longrightarrow> slice_to b j = Some (take j b)"
  by (simp add: slice_to_def)

lemma slice_Some [panic_simps]:
  "i \<le> j \<Longrightarrow> j \<le> length b \<Longrightarrow> slice b i j = Some (take (j - i) (drop i b))"
  by (simp add: slice_def)

section \<open>Iterators\<close>

text \<open>position of the standard library: the first index that satisfies a test.\<close>

fun position :: "('a \<Rightarrow> bool) \<Rightarrow> 'a list \<Rightarrow> nat option" where
  "position P [] = None"
| "position P (x # xs) = (if P x then Some 0 else map_option Suc (position P xs))"

lemma position_None_iff: "position P xs = None \<longleftrightarrow> (\<forall>x\<in>set xs. \<not> P x)"
  by (induction xs) auto

lemma position_Some_iff:
  "position P xs = Some i \<longleftrightarrow> i < length xs \<and> P (xs ! i) \<and> (\<forall>j<i. \<not> P (xs ! j))"
proof (induction xs arbitrary: i)
  case (Cons x xs)
  show ?case
    by (cases i) (auto simp: Cons.IH nth_Cons less_Suc_eq_0_disj)
qed simp

section \<open>Tables\<close>

text \<open>
  A DashMap, HashMap or keyed SQL table is an association list whose keys are
  distinct; the invariant is tinv. Properties never depend on the order of the
  entries.
\<close>

type_synonym ('k, 'v) table = "('k \<times> 'v) list"

definition tinv :: "('k, 'v) table \<Rightarrow> bool" where
  "tinv t = distinct (map fst t)"

abbreviation tget :: "('k, 'v) table \<Rightarrow> 'k \<Rightarrow> 'v option" where
  "tget t \<equiv> map_of t"

abbreviation tput :: "'k \<Rightarrow> 'v \<Rightarrow> ('k, 'v) table \<Rightarrow> ('k, 'v) table" where
  "tput \<equiv> AList.update"

abbreviation tdel :: "'k \<Rightarrow> ('k, 'v) table \<Rightarrow> ('k, 'v) table" where
  "tdel \<equiv> AList.delete"

definition tkeep :: "('k \<Rightarrow> 'v \<Rightarrow> bool) \<Rightarrow> ('k, 'v) table \<Rightarrow> ('k, 'v) table" where
  "tkeep P t = filter (\<lambda>(k, v). P k v) t"

definition thas :: "('k, 'v) table \<Rightarrow> 'k \<Rightarrow> bool" where
  "thas t k = (map_of t k \<noteq> None)"

lemma tget_tput [table_simps]: "tget (tput k v t) k' = (if k' = k then Some v else tget t k')"
  by (simp add: update_conv')

lemma tget_tdel [table_simps]: "tget (tdel k t) k' = (if k' = k then None else tget t k')"
  by (simp add: delete_conv')

lemma tget_tkeep [table_simps]:
  "tinv t \<Longrightarrow> tget (tkeep P t) k
     = (case tget t k of Some v \<Rightarrow> if P k v then Some v else None | None \<Rightarrow> None)"
proof (induction t)
  case (Cons a t)
  moreover have "tget t k = None" if "k = fst a"
    using Cons.prems that by (auto simp: tinv_def map_of_eq_None_iff)
  ultimately show ?case
    by (auto simp: tkeep_def tinv_def split: prod.splits option.splits)
qed (simp add: tkeep_def)

lemma tinv_empty [simp, invar_intros]: "tinv []"
  by (simp add: tinv_def)

lemma tinv_tput [simp, invar_intros]: "tinv t \<Longrightarrow> tinv (tput k v t)"
  by (simp add: tinv_def distinct_update)

lemma tinv_tdel [simp, invar_intros]: "tinv t \<Longrightarrow> tinv (tdel k t)"
  by (simp add: tinv_def distinct_delete)

lemma tinv_tkeep [simp, invar_intros]: "tinv t \<Longrightarrow> tinv (tkeep P t)"
  by (induction t) (auto simp: tinv_def tkeep_def)

lemma tget_in_set: "tinv t \<Longrightarrow> (k, v) \<in> set t \<longleftrightarrow> tget t k = Some v"
  by (simp add: tinv_def)

lemma thas_iff: "thas t k \<longleftrightarrow> k \<in> fst ` set t"
  by (simp add: thas_def map_of_eq_None_iff)

lemma length_tdel_hit:
  "tinv t \<Longrightarrow> tget t k = Some v \<Longrightarrow> Suc (length (tdel k t)) = length t"
proof (induction t)
  case (Cons a t)
  show ?case
  proof (cases "fst a = k")
    case True
    then have "k \<notin> fst ` set t"
      using Cons.prems by (auto simp: tinv_def)
    then show ?thesis
      using True by (cases a) simp
  next
    case False
    then show ?thesis
      using Cons by (cases a) (auto simp: tinv_def)
  qed
qed simp

lemma length_tput:
  "length (tput k v t) = (if thas t k then length t else Suc (length t))"
  by (induction t) (auto simp: thas_def)

lemma tput_new: "tget t k = None \<Longrightarrow> tput k v t = t @ [(k, v)]"
  by (induction t) (auto split: if_splits)

lemma tdel_filter: "tdel k t = filter (\<lambda>e. fst e \<noteq> k) t"
  by (induction t) auto

lemma distinct_map_filter_keep: "distinct (map f t) \<Longrightarrow> distinct (map f (filter P t))"
  by (induction t) auto

lemma length_tkeep_le: "length (tkeep P t) \<le> length t"
  by (simp add: tkeep_def)

section \<open>Runs of a component\<close>

text \<open>
  An operation with a result in a component's state is a function of type
  \<open>'s \<Rightarrow> 'e \<Rightarrow> 'o \<times> 's\<close> on the requests \<open>'e\<close> it serves; a run is a sequence of
  requests served one after the other (the source serialises them by a lock).
\<close>

fun run :: "('s \<Rightarrow> 'e \<Rightarrow> 'o \<times> 's) \<Rightarrow> 's \<Rightarrow> 'e list \<Rightarrow> 'o list \<times> 's" where
  "run step s [] = ([], s)"
| "run step s (e # es) =
     (let (r, s1) = step s e; (rs, s2) = run step s1 es in (r # rs, s2))"

lemma length_run: "run step s es = (rs, s') \<Longrightarrow> length rs = length es"
  by (induction es arbitrary: s rs) (auto split: prod.splits)

lemma run_append:
  "run step s (es @ fs) =
     (let (rs, s1) = run step s es; (ts, s2) = run step s1 fs in (rs @ ts, s2))"
  by (induction es arbitrary: s) (auto simp: Let_def split: prod.splits)

text \<open>The requests of a run whose answer was true.\<close>

definition accepted :: "'e list \<Rightarrow> bool list \<Rightarrow> 'e list" where
  "accepted es rs = map fst (filter snd (zip es rs))"

lemma accepted_Nil [simp]: "accepted [] rs = []"
  by (simp add: accepted_def)

lemma accepted_Cons [simp]:
  "accepted (e # es) (r # rs) = (if r then e # accepted es rs else accepted es rs)"
  by (simp add: accepted_def)

section \<open>Interfaces\<close>

text \<open>A component whose operations keep an invariant.\<close>

locale machine =
  fixes step :: "'s \<Rightarrow> 'e \<Rightarrow> 'o \<times> 's"
    and inv :: "'s \<Rightarrow> bool"
  assumes step_inv: "inv s \<Longrightarrow> step s e = (r, s') \<Longrightarrow> inv s'"
begin

lemma run_inv: "inv s \<Longrightarrow> run step s es = (rs, s') \<Longrightarrow> inv s'"
proof (induction es arbitrary: s rs s')
  case (Cons e es)
  obtain r s1 where 1: "step s e = (r, s1)" by force
  obtain rs2 s2 where 2: "run step s1 es = (rs2, s2)" by force
  have "inv s1" using step_inv Cons.prems(1) 1 by blast
  then show ?case using Cons.IH [OF _ 2] Cons.prems(2) 1 2 by simp
qed simp

lemma run_snd_inv: "inv s \<Longrightarrow> inv (snd (run step s es))"
  by (cases "run step s es") (simp add: run_inv)

end

text \<open>
  A filter that admits a key at most once: \<open>R s K\<close> relates a state to the set of
  the keys it must no longer admit, \<open>good\<close> delimits the requests the promise
  covers.
\<close>

locale once_filter =
  fixes step :: "'s \<Rightarrow> 'e \<Rightarrow> bool \<times> 's"
    and key :: "'e \<Rightarrow> 'k"
    and good :: "'e \<Rightarrow> bool"
    and R :: "'s \<Rightarrow> 'k set \<Rightarrow> bool"
  assumes accept_fresh: "R s K \<Longrightarrow> good e \<Longrightarrow> step s e = (True, s') \<Longrightarrow> key e \<notin> K"
    and accept_R: "R s K \<Longrightarrow> good e \<Longrightarrow> step s e = (True, s') \<Longrightarrow> R s' (insert (key e) K)"
    and reject_R: "R s K \<Longrightarrow> good e \<Longrightarrow> step s e = (False, s') \<Longrightarrow> R s' K"
begin

lemma run_once:
  assumes "R s K" and "\<forall>e\<in>set es. good e" and "run step s es = (rs, s')"
  shows "distinct (map key (accepted es rs))
       \<and> set (map key (accepted es rs)) \<inter> K = {}
       \<and> R s' (K \<union> set (map key (accepted es rs)))"
  using assms
proof (induction es arbitrary: s K rs s')
  case (Cons e es)
  obtain r s1 where 1: "step s e = (r, s1)" by force
  obtain rs2 s2 where 2: "run step s1 es = (rs2, s2)" by force
  have rs: "rs = r # rs2" "s' = s2" using Cons.prems(3) 1 2 by auto
  have g: "good e" "\<forall>e\<in>set es. good e" using Cons.prems(2) by auto
  show ?case
  proof (cases r)
    case True
    have "R s1 (insert (key e) K)" "key e \<notin> K"
      using accept_R accept_fresh Cons.prems(1) g(1) 1 True by auto
    then show ?thesis using Cons.IH [OF _ g(2) 2] rs True by fastforce
  next
    case False
    then have "R s1 K" using reject_R Cons.prems(1) g(1) 1 by auto
    then show ?thesis using Cons.IH [OF _ g(2) 2] rs False by fastforce
  qed
qed simp

lemma run_distinct:
  "R s K \<Longrightarrow> \<forall>e\<in>set es. good e \<Longrightarrow> distinct (map key (accepted es (fst (run step s es))))"
  using run_once by (metis prod.collapse)

end

text \<open>
  An encoder and a decoder: on valid values the decoder inverts the encoder.
\<close>

locale codec =
  fixes enc :: "'a \<Rightarrow> 'b"
    and dec :: "'b \<Rightarrow> 'c option"
    and view :: "'a \<Rightarrow> 'c"
    and valid :: "'a \<Rightarrow> bool"
  assumes dec_enc: "valid x \<Longrightarrow> dec (enc x) = Some (view x)"
begin

lemma enc_inj: "valid x \<Longrightarrow> valid y \<Longrightarrow> enc x = enc y \<Longrightarrow> view x = view y"
  by (metis dec_enc option.inject)

lemma enc_inj_on: "inj_on view {x. valid x} \<Longrightarrow> inj_on enc {x. valid x}"
  by (auto simp: inj_on_def dest: enc_inj)

lemma map_dec_enc: "\<forall>x\<in>set xs. valid x \<Longrightarrow> map dec (map enc xs) = map (Some \<circ> view) xs"
  by (simp add: dec_enc)

end

end
