(* ===== verification/Endec.thy ===== *)
theory Endec
  imports Prelude
begin

text \<open>
  crates/skiff-core/src/endec.rs: little-endian integers on the wire. The reads
  index their argument, so a short slice is a panic (None).
\<close>

fun le_bytes :: "nat \<Rightarrow> nat \<Rightarrow> bytes" where
  "le_bytes 0 v = []"
| "le_bytes (Suc n) v = of_nat (v mod 256) # le_bytes n (v div 256)"

fun le_val :: "bytes \<Rightarrow> nat" where
  "le_val [] = 0"
| "le_val (b # bs) = unat b + 256 * le_val bs"

text \<open>to_le_bytes and from_le_bytes of the standard library at the three widths.\<close>

definition u16_to_le_bytes :: "u16 \<Rightarrow> bytes" where
  "u16_to_le_bytes v = le_bytes 2 (unat v)"

definition u32_to_le_bytes :: "u32 \<Rightarrow> bytes" where
  "u32_to_le_bytes v = le_bytes 4 (unat v)"

definition u64_to_le_bytes :: "u64 \<Rightarrow> bytes" where
  "u64_to_le_bytes v = le_bytes 8 (unat v)"

definition read_u16_le :: "bytes \<Rightarrow> u16 option" where
  "read_u16_le b = do {
     b0 \<leftarrow> idx b 0; b1 \<leftarrow> idx b 1;
     Some (of_nat (le_val [b0, b1])) }"

definition read_u32_le :: "bytes \<Rightarrow> u32 option" where
  "read_u32_le b = do {
     b0 \<leftarrow> idx b 0; b1 \<leftarrow> idx b 1; b2 \<leftarrow> idx b 2; b3 \<leftarrow> idx b 3;
     Some (of_nat (le_val [b0, b1, b2, b3])) }"

definition read_u64_le :: "bytes \<Rightarrow> u64 option" where
  "read_u64_le b = do {
     b0 \<leftarrow> idx b 0; b1 \<leftarrow> idx b 1; b2 \<leftarrow> idx b 2; b3 \<leftarrow> idx b 3;
     b4 \<leftarrow> idx b 4; b5 \<leftarrow> idx b 5; b6 \<leftarrow> idx b 6; b7 \<leftarrow> idx b 7;
     Some (of_nat (le_val [b0, b1, b2, b3, b4, b5, b6, b7])) }"

definition write_u16_le :: "bytes \<Rightarrow> u16 \<Rightarrow> bytes" where
  "write_u16_le out v = out @ u16_to_le_bytes v"

definition write_u32_le :: "bytes \<Rightarrow> u32 \<Rightarrow> bytes" where
  "write_u32_le out v = out @ u32_to_le_bytes v"

definition write_u64_le :: "bytes \<Rightarrow> u64 \<Rightarrow> bytes" where
  "write_u64_le out v = out @ u64_to_le_bytes v"

section \<open>The reads invert the writes\<close>

lemma length_le_bytes [simp]: "length (le_bytes n v) = n"
  by (induction n arbitrary: v) auto

lemma unat_byte_mod: "unat (of_nat (v mod 256) :: u8) = v mod 256"
  by (simp add: unat_of_nat)

lemma le_val_le_bytes: "le_val (le_bytes n v) = v mod 256 ^ n"
proof (induction n arbitrary: v)
  case (Suc n)
  have "v mod 256 + 256 * (v div 256 mod 256 ^ n) = v mod (256 * 256 ^ n)"
    by (metis add.commute mod_mult2_eq)
  then show ?case using Suc by (simp add: unat_byte_mod)
qed simp

lemma le_val_lt: "le_val bs < 256 ^ length bs"
proof (induction bs)
  case (Cons b bs)
  have "unat b < 256" using unsigned_less [of b, where ?'a = nat] by simp
  then have "unat b + 256 * le_val bs < 256 + 256 * le_val bs" by simp
  also have "\<dots> = 256 * Suc (le_val bs)" by simp
  also have "\<dots> \<le> 256 * 256 ^ length bs" using Cons by (intro mult_le_mono2) simp
  finally show ?case by simp
qed simp

lemma le_bytes_le_val: "le_bytes (length bs) (le_val bs) = bs"
proof (induction bs)
  case (Cons b bs)
  have "unat b < 256" using unsigned_less [of b, where ?'a = nat] by simp
  then show ?case using Cons by simp
qed simp

lemma length_to_le_bytes [simp]:
  "length (u16_to_le_bytes v) = 2"
  "length (u32_to_le_bytes w) = 4"
  "length (u64_to_le_bytes x) = 8"
  by (simp_all add: u16_to_le_bytes_def u32_to_le_bytes_def u64_to_le_bytes_def)

lemma read_u16_le_val: "2 \<le> length b \<Longrightarrow> read_u16_le b = Some (of_nat (le_val (take 2 b)))"
  by (cases b; cases "tl b") (auto simp: read_u16_le_def idx_def)

lemma read_u32_le_val:
  assumes "4 \<le> length b"
  shows "read_u32_le b = Some (of_nat (le_val (take 4 b)))"
proof -
  have "take 4 b = [b ! 0, b ! 1, b ! 2, b ! 3]"
    using assms by (auto intro!: nth_equalityI simp: less_Suc_eq numeral_eq_Suc)
  moreover have "b \<noteq> []" using assms by auto
  ultimately show ?thesis using assms by (simp add: read_u32_le_def panic_simps)
qed

lemma read_u64_le_val:
  assumes "8 \<le> length b"
  shows "read_u64_le b = Some (of_nat (le_val (take 8 b)))"
proof -
  have "take 8 b = [b ! 0, b ! 1, b ! 2, b ! 3, b ! 4, b ! 5, b ! 6, b ! 7]"
    using assms by (auto intro!: nth_equalityI simp: less_Suc_eq numeral_eq_Suc)
  moreover have "b \<noteq> []" using assms by auto
  ultimately show ?thesis using assms by (simp add: read_u64_le_def panic_simps)
qed

lemma read_u16_le_to [simp]: "read_u16_le (u16_to_le_bytes v @ r) = Some v"
  using unsigned_less [of v, where ?'a = nat] by (simp add: read_u16_le_val u16_to_le_bytes_def le_val_le_bytes)

lemma read_u32_le_to [simp]: "read_u32_le (u32_to_le_bytes v @ r) = Some v"
  using unsigned_less [of v, where ?'a = nat] by (simp add: read_u32_le_val u32_to_le_bytes_def le_val_le_bytes)

lemma read_u64_le_to [simp]: "read_u64_le (u64_to_le_bytes v @ r) = Some v"
  using unsigned_less [of v, where ?'a = nat] by (simp add: read_u64_le_val u64_to_le_bytes_def le_val_le_bytes)

lemma u64_to_le_bytes_val:
  assumes "length bs = 8"
  shows "u64_to_le_bytes (of_nat (le_val bs)) = bs"
proof -
  have "le_val bs < 2 ^ 64" using le_val_lt [of bs] assms by simp
  then have "unat (of_nat (le_val bs) :: u64) = le_val bs" by (simp add: unat_of_nat)
  then show ?thesis using le_bytes_le_val [of bs] assms by (simp add: u64_to_le_bytes_def)
qed

lemma u64_of_le_bytes [simp]: "of_nat (le_val (u64_to_le_bytes v)) = v"
  using read_u64_le_to [of v "[]"] by (simp add: read_u64_le_val)

lemma read_u32_le_panics_iff: "read_u32_le b = None \<longleftrightarrow> length b < 4"
  by (auto simp: read_u32_le_val not_less)
     (auto simp: read_u32_le_def idx_def split: Option.bind_splits if_splits)

interpretation le16: codec u16_to_le_bytes read_u16_le id "\<lambda>_. True"
  by unfold_locales (use read_u16_le_to [of _ "[]"] in simp)

interpretation le32: codec u32_to_le_bytes read_u32_le id "\<lambda>_. True"
  by unfold_locales (use read_u32_le_to [of _ "[]"] in simp)

interpretation le64: codec u64_to_le_bytes read_u64_le id "\<lambda>_. True"
  by unfold_locales (use read_u64_le_to [of _ "[]"] in simp)

lemma u64_to_le_bytes_inj [simp]: "u64_to_le_bytes a = u64_to_le_bytes b \<longleftrightarrow> a = b"
  using le64.enc_inj by auto

lemma u32_to_le_bytes_inj [simp]: "u32_to_le_bytes a = u32_to_le_bytes b \<longleftrightarrow> a = b"
  using le32.enc_inj by auto

lemma u16_to_le_bytes_inj [simp]: "u16_to_le_bytes a = u16_to_le_bytes b \<longleftrightarrow> a = b"
  using le16.enc_inj by auto

end
