(* ===== verification/Replay.thy ===== *)
theory Replay
  imports Prelude
begin

text \<open>
  crates/skiff-core/src/crypto/replay.rs: the 128-bit sliding window that
  rejects replayed packet counters, with its running estimate of lost frames.
  The specification is the set of the counters accepted so far; the bitmap
  refines it.
\<close>

definition WINDOW_BITS :: u32 where
  "WINDOW_BITS = 128"

record ReplayWindow =
  rw_bitmap :: u128
  rw_highest :: u64
  rw_initialized :: bool
  rw_seen_total :: u64
  rw_lost_total :: u64

definition rw_new :: ReplayWindow where
  "rw_new = \<lparr>rw_bitmap = 0, rw_highest = 0, rw_initialized = False, rw_seen_total = 0,
             rw_lost_total = 0\<rparr>"

definition rw_reset :: "ReplayWindow \<Rightarrow> ReplayWindow" where
  "rw_reset w = w\<lparr>rw_bitmap := 0, rw_highest := 0, rw_initialized := False,
                  rw_seen_total := 0, rw_lost_total := 0\<rparr>"

definition rw_stats :: "ReplayWindow \<Rightarrow> u64 \<times> u64" where
  "rw_stats w = (rw_seen_total w, rw_lost_total w)"

definition check_and_set :: "ReplayWindow \<Rightarrow> u64 \<Rightarrow> bool \<times> ReplayWindow" where
  "check_and_set w seq =
     (if \<not> rw_initialized w then
        (True, w\<lparr>rw_initialized := True, rw_highest := seq, rw_bitmap := 1,
                 rw_seen_total := rw_seen_total w + 1\<rparr>)
      else if rw_highest w < seq then
        (let delta = seq - rw_highest w;
             w1 = w\<lparr>rw_lost_total := saturating_add (rw_lost_total w) (delta - 1)\<rparr>;
             w2 = (if ucast WINDOW_BITS \<le> delta then w1\<lparr>rw_bitmap := 1\<rparr>
                   else w1\<lparr>rw_bitmap := push_bit (unat delta) (rw_bitmap w1) OR 1\<rparr>)
         in (True, w2\<lparr>rw_highest := seq, rw_seen_total := rw_seen_total w2 + 1\<rparr>))
      else
        (let offset = rw_highest w - seq in
         if ucast WINDOW_BITS \<le> offset then (False, w)
         else
           (let bit_mask = push_bit (unat offset) (1 :: u128) in
            if rw_bitmap w AND bit_mask \<noteq> 0 then (False, w)
            else (True, w\<lparr>rw_bitmap := rw_bitmap w OR bit_mask,
                          rw_lost_total := saturating_sub (rw_lost_total w) 1,
                          rw_seen_total := rw_seen_total w + 1\<rparr>))))"

section \<open>The specification: a set of counters\<close>

text \<open>
  A counter is admitted when it is the first one, newer than all, or new and
  less than 128 behind the newest.
\<close>

definition admits :: "nat set \<Rightarrow> nat \<Rightarrow> bool" where
  "admits S n = (S = {} \<or> Max S < n \<or> (n \<notin> S \<and> Max S - n < 128))"

definition window_of :: "ReplayWindow \<Rightarrow> nat set \<Rightarrow> bool" where
  "window_of w S =
     (finite S \<and> (rw_initialized w \<longleftrightarrow> S \<noteq> {}) \<and>
      (S \<noteq> {} \<longrightarrow> unat (rw_highest w) = Max S \<and>
         (\<forall>i<128. bit (rw_bitmap w) i \<longleftrightarrow> i \<le> Max S \<and> Max S - i \<in> S)))"

lemma window_of_new [simp]: "window_of rw_new {}"
  by (simp add: window_of_def rw_new_def)

lemma window_of_reset: "window_of (rw_reset w) {}"
  by (simp add: window_of_def rw_reset_def)

lemma mask_test:
  fixes w :: u128
  shows "w AND push_bit n 1 \<noteq> 0 \<longleftrightarrow> bit w n"
  by (simp add: bit_iff_and_push_bit_not_eq_0)

lemma window_bits_le: "ucast WINDOW_BITS \<le> d \<longleftrightarrow> 128 \<le> unat (d :: u64)"
  by (simp add: WINDOW_BITS_def word_le_nat_alt)

lemma window_first:
  assumes "\<not> rw_initialized w" and "window_of w S"
  shows "admits S (unat seq)" and "fst (check_and_set w seq)"
    and "window_of (snd (check_and_set w seq)) (insert (unat seq) S)"
  using assms by (auto simp: window_of_def admits_def check_and_set_def bit_1_iff)

lemma Max_insert_newer: "finite S \<Longrightarrow> S \<noteq> {} \<Longrightarrow> Max S < n \<Longrightarrow> Max (insert n S) = (n :: nat)"
  by simp

lemma window_advance:
  assumes i: "rw_initialized w" and w: "window_of w S" and n: "rw_highest w < seq"
  shows "admits S (unat seq)" and "fst (check_and_set w seq)"
    and "window_of (snd (check_and_set w seq)) (insert (unat seq) S)"
proof -
  have S: "S \<noteq> {}" "finite S" "unat (rw_highest w) = Max S"
    and B: "\<And>k. k < 128 \<Longrightarrow> bit (rw_bitmap w) k \<longleftrightarrow> k \<le> Max S \<and> Max S - k \<in> S"
    using i w by (auto simp: window_of_def)
  have lt: "Max S < unat seq" using n S by (simp add: word_less_nat_alt)
  have d: "unat (seq - rw_highest w) = unat seq - Max S"
    using unat_sub [OF order_less_imp_le [OF n]] S by simp
  have le: "\<And>x. x \<in> S \<Longrightarrow> x \<le> Max S" using S by auto
  show "admits S (unat seq)" using lt by (simp add: admits_def)
  show "fst (check_and_set w seq)" using i n by (simp add: check_and_set_def Let_def)
  have M: "Max (insert (unat seq) S) = unat seq" using Max_insert_newer S lt by simp
  have "bit (rw_bitmap (snd (check_and_set w seq))) k
        \<longleftrightarrow> k \<le> unat seq \<and> unat seq - k \<in> insert (unat seq) S" if k: "k < 128" for k
  proof (cases "128 \<le> unat seq - Max S")
    case True
    then have "rw_bitmap (snd (check_and_set w seq)) = 1"
      using i n d by (simp add: check_and_set_def Let_def window_bits_le)
    moreover have "unat seq - k \<notin> S" if "k \<le> unat seq"
      using le True k that by fastforce
    ultimately show ?thesis using lt by (auto simp: bit_1_iff)
  next
    case False
    then have "rw_bitmap (snd (check_and_set w seq))
        = push_bit (unat seq - Max S) (rw_bitmap w) OR 1"
      using i n d by (simp add: check_and_set_def Let_def window_bits_le)
    then have "bit (rw_bitmap (snd (check_and_set w seq))) k \<longleftrightarrow>
       k = 0 \<or> (unat seq - Max S \<le> k \<and> bit (rw_bitmap w) (k - (unat seq - Max S)))"
      using k by (auto simp: bit_or_iff bit_1_iff bit_push_bit_iff)
    also have "\<dots> \<longleftrightarrow> k \<le> unat seq \<and> unat seq - k \<in> insert (unat seq) S"
    proof (cases "unat seq - Max S \<le> k")
      case True
      have "k - (unat seq - Max S) \<le> Max S \<longleftrightarrow> k \<le> unat seq" using lt True by auto
      moreover have "Max S - (k - (unat seq - Max S)) = unat seq - k" using lt True by auto
      ultimately show ?thesis using B [of "k - (unat seq - Max S)"] k True lt by auto
    next
      case False
      then have "unat seq - k \<notin> S" using le by fastforce
      then show ?thesis using False lt by auto
    qed
    finally show ?thesis .
  qed
  moreover have "rw_highest (snd (check_and_set w seq)) = seq"
    "rw_initialized (snd (check_and_set w seq))"
    using i n by (simp_all add: check_and_set_def Let_def)
  ultimately show "window_of (snd (check_and_set w seq)) (insert (unat seq) S)"
    using S M by (simp add: window_of_def)
qed

lemma check_and_set_late:
  assumes "rw_initialized w" and "\<not> rw_highest w < seq"
  shows "check_and_set w seq =
     (let k = unat (rw_highest w - seq) in
      if 128 \<le> k \<or> bit (rw_bitmap w) k then (False, w)
      else (True, w\<lparr>rw_bitmap := rw_bitmap w OR push_bit k 1,
                    rw_lost_total := saturating_sub (rw_lost_total w) 1,
                    rw_seen_total := rw_seen_total w + 1\<rparr>))"
  using assms mask_test [of "rw_bitmap w" "unat (rw_highest w - seq)"]
  by (simp add: check_and_set_def window_bits_le Let_def)

lemma window_late:
  assumes i: "rw_initialized w" and w: "window_of w S" and n: "\<not> rw_highest w < seq"
  shows "fst (check_and_set w seq) \<longleftrightarrow> admits S (unat seq)"
    and "window_of (snd (check_and_set w seq))
           (if admits S (unat seq) then insert (unat seq) S else S)"
proof -
  have S: "S \<noteq> {}" "finite S" "unat (rw_highest w) = Max S"
    and B: "\<And>k. k < 128 \<Longrightarrow> bit (rw_bitmap w) k \<longleftrightarrow> k \<le> Max S \<and> Max S - k \<in> S"
    using i w by (auto simp: window_of_def)
  have ge: "unat seq \<le> Max S"
    using n S(3) by (metis not_less word_le_nat_alt)
  have o: "unat (rw_highest w - seq) = Max S - unat seq"
    using n S by (simp add: unat_sub not_less)
  have seen: "bit (rw_bitmap w) (Max S - unat seq) \<longleftrightarrow> unat seq \<in> S" if "Max S - unat seq < 128"
    using B [OF that] ge by simp
  show *: "fst (check_and_set w seq) \<longleftrightarrow> admits S (unat seq)"
    using o ge S(1) seen unfolding check_and_set_late [OF i n] Let_def admits_def
    by (cases "128 \<le> Max S - unat seq") (simp_all del: Max_less_iff Max_ge_iff)
  have M: "Max (insert (unat seq) S) = Max S" using ge S by simp
  show "window_of (snd (check_and_set w seq))
          (if admits S (unat seq) then insert (unat seq) S else S)"
  proof (cases "admits S (unat seq)")
    case True
    then have a: "Max S - unat seq < 128" "unat seq \<notin> S"
      using ge S(1) unfolding admits_def by (metis leD)+
    then have c: "snd (check_and_set w seq) =
       w\<lparr>rw_bitmap := rw_bitmap w OR push_bit (Max S - unat seq) 1,
         rw_lost_total := saturating_sub (rw_lost_total w) 1,
         rw_seen_total := rw_seen_total w + 1\<rparr>"
      using o seen unfolding check_and_set_late [OF i n] Let_def by simp
    have "bit (rw_bitmap w OR push_bit (Max S - unat seq) 1) k
        \<longleftrightarrow> k \<le> Max S \<and> Max S - k \<in> insert (unat seq) S" if "k < 128" for k
      using B [OF that] a ge that by (auto simp: bit_or_iff bit_exp_iff possible_bit_def)
    then show ?thesis using True c S M i by (simp add: window_of_def)
  next
    case False
    then have "snd (check_and_set w seq) = w"
      using * unfolding check_and_set_late [OF i n] Let_def by (auto split: if_splits)
    then show ?thesis using False w by simp
  qed
qed

lemma check_and_set_window:
  assumes "window_of w S" and "check_and_set w seq = (ok, w')"
  shows "ok = admits S (unat seq)"
    and "window_of w' (if ok then insert (unat seq) S else S)"
proof -
  have "ok = fst (check_and_set w seq)" "w' = snd (check_and_set w seq)"
    using assms(2) by auto
  moreover have "fst (check_and_set w seq) = admits S (unat seq)"
    "window_of (snd (check_and_set w seq))
       (if admits S (unat seq) then insert (unat seq) S else S)"
    using assms(1) window_first [of w S seq] window_advance [of w S seq] window_late [of w S seq]
    by (cases "rw_initialized w"; cases "rw_highest w < seq"; simp)+
  ultimately show "ok = admits S (unat seq)"
    "window_of w' (if ok then insert (unat seq) S else S)" by auto
qed

lemma admits_fresh: "finite S \<Longrightarrow> admits S n \<Longrightarrow> n \<notin> S"
  by (auto simp: admits_def not_le dest: Max_ge)

interpretation rw: once_filter check_and_set unat "\<lambda>_. True" "\<lambda>w K. window_of w K"
proof unfold_locales
  show "unat seq \<notin> K" if "window_of w K" "check_and_set w seq = (True, w')" for w K seq w'
    using check_and_set_window [OF that] admits_fresh that(1) by (auto simp: window_of_def)
qed (use check_and_set_window in fastforce)+

section \<open>Whole runs\<close>

definition admit_step :: "nat set \<Rightarrow> u64 \<Rightarrow> bool \<times> nat set" where
  "admit_step S seq =
     (admits S (unat seq), if admits S (unat seq) then insert (unat seq) S else S)"

lemma run_window:
  "window_of w S \<Longrightarrow> fst (run check_and_set w cs) = fst (run admit_step S cs)
     \<and> window_of (snd (run check_and_set w cs)) (snd (run admit_step S cs))"
proof (induction cs arbitrary: w S)
  case (Cons c cs)
  obtain ok w' where c: "check_and_set w c = (ok, w')" by force
  then have "admit_step S c = (ok, if ok then insert (unat c) S else S)"
    using check_and_set_window [OF Cons.prems c] by (simp add: admit_step_def)
  moreover have "window_of w' (if ok then insert (unat c) S else S)"
    using check_and_set_window [OF Cons.prems c] by simp
  ultimately show ?case using c Cons.IH [of w' "if ok then insert (unat c) S else S"]
    by (simp add: Let_def case_prod_beta)
qed simp

text \<open>
  C5 (refinement). On every sequence of counters the bitmap window gives exactly the
  answers of the set specification: the first counter is admitted, a newer one
  is admitted, an older one is admitted iff it is less than 128 behind the
  newest and was not admitted before.
\<close>
theorem replay_window_exact:
  "fst (run check_and_set rw_new cs) = fst (run admit_step {} cs)"
  using run_window [OF window_of_new] by simp

text \<open>
  No counter is admitted twice by one window, in any order of arrival.
\<close>
theorem replay_at_most_once:
  "distinct (accepted cs (fst (run check_and_set rw_new cs)))"
  using rw.run_distinct [OF window_of_new, of cs] by (simp add: distinct_map)

section \<open>The loss estimate\<close>

definition loss_inv :: "nat \<Rightarrow> ReplayWindow \<Rightarrow> nat set \<Rightarrow> bool" where
  "loss_inv f w S =
     (S \<noteq> {} \<and> f \<in> S \<and> (\<forall>n\<in>S. f \<le> n) \<and> unat (rw_seen_total w) = card S
      \<and> unat (rw_lost_total w) + card S = Max S - f + 1)"

lemma unat_Suc_word: "unat (w :: u64) + 1 < 2 ^ 64 \<Longrightarrow> unat (w + 1) = unat w + 1"
  by (simp add: unat_word_ariths(1))

lemma loss_inv_step:
  assumes w: "window_of w S" and l: "loss_inv f w S" and n: "f \<le> unat c"
    and b: "card S + 1 < 2 ^ 64" and c: "check_and_set w c = (ok, w')"
  shows "loss_inv f w' (if ok then insert (unat c) S else S)"
proof -
  have S: "finite S" "S \<noteq> {}" "rw_initialized w" "unat (rw_highest w) = Max S"
    using w l by (auto simp: window_of_def loss_inv_def)
  have ok: "ok = admits S (unat c)" using check_and_set_window [OF w c] by simp
  have L: "f \<in> S" "\<And>n. n \<in> S \<Longrightarrow> f \<le> n" "unat (rw_seen_total w) = card S"
    "unat (rw_lost_total w) + card S = Max S - f + 1" using l by (auto simp: loss_inv_def)
  have seen: "unat (rw_seen_total w + 1) = card S + 1" using b L(3) unat_Suc_word by simp
  have fM: "f \<le> Max S" using L S by auto
  consider "\<not> ok" | "ok" "rw_highest w < c" | "ok" "\<not> rw_highest w < c" by blast
  then show ?thesis
  proof cases
    case 1
    then have "w' = w" using c S(3)
      by (auto simp: check_and_set_def Let_def split: if_splits)
    then show ?thesis using 1 l by simp
  next
    case 2
    have lt: "Max S < unat c" using 2 S by (simp add: word_less_nat_alt)
    have d: "unat (c - rw_highest w) = unat c - Max S"
      using unat_sub [OF order_less_imp_le [OF 2(2)]] S by simp
    have "c - rw_highest w \<noteq> 0" using 2 by auto
    then have d1: "unat (c - rw_highest w - 1) = unat c - Max S - 1"
      using d unat_minus_one by metis
    have cn: "unat c \<notin> S" using lt S by (metis Max_ge not_le)
    have M: "Max (insert (unat c) S) = unat c" using Max_insert_newer S lt by simp
    have c1: "1 \<le> card S" using S by (simp add: card_gt_0_iff Suc_le_eq)
    have "unat (rw_lost_total w) + unat (c - rw_highest w - 1) < 2 ^ 64"
      using L(4) d1 fM lt unsigned_less [of c, where ?'a = nat] c1 by simp
    then have "unat (saturating_add (rw_lost_total w) (c - rw_highest w - 1))
        = unat (rw_lost_total w) + (unat c - Max S - 1)"
      using unat_saturating_add_le [of "rw_lost_total w" "c - rw_highest w - 1"] d1 by simp
    then have "unat (rw_lost_total w') = unat (rw_lost_total w) + (unat c - Max S - 1)"
      and "rw_seen_total w' = rw_seen_total w + 1"
      using c S(3) 2 by (auto simp: check_and_set_def Let_def split: if_splits)
    moreover have "unat (rw_lost_total w) + (unat c - Max S - 1) + (card S + 1) = unat c - f + 1"
      using L(4) lt fM by arith
    ultimately show ?thesis using 2 seen L M cn S n by (simp add: loss_inv_def)
  next
    case 3
    have cn: "unat c \<notin> S" using 3 ok admits_fresh S by simp
    have ge: "unat c \<le> Max S" using 3 S(4) by (metis not_less word_le_nat_alt)
    have "insert (unat c) S \<subseteq> {f..Max S}" using L n ge S by auto
    then have "card (insert (unat c) S) \<le> card {f..Max S}" by (rule card_mono [rotated]) simp
    then have "1 \<le> unat (rw_lost_total w)" using L(4) cn S fM by simp
    then have "unat (rw_lost_total w') = unat (rw_lost_total w) - 1"
      and "rw_seen_total w' = rw_seen_total w + 1"
      using c S(3) 3 unat_saturating_sub [of "rw_lost_total w" 1]
      by (auto simp: check_and_set_late Let_def split: if_splits)
    moreover have "Max (insert (unat c) S) = Max S" using ge S by simp
    ultimately show ?thesis using 3 seen L \<open>1 \<le> unat (rw_lost_total w)\<close> cn S n
      by (simp add: loss_inv_def)
  qed
qed

lemma loss_inv_run:
  "window_of w S \<Longrightarrow> loss_inv f w S \<Longrightarrow> \<forall>c\<in>set cs. f \<le> unat c
    \<Longrightarrow> card S + length cs < 2 ^ 64
    \<Longrightarrow> \<exists>S'. window_of (snd (run check_and_set w cs)) S'
          \<and> loss_inv f (snd (run check_and_set w cs)) S'"
proof (induction cs arbitrary: w S)
  case (Cons c cs)
  obtain ok w' where c: "check_and_set w c = (ok, w')" by force
  define S1 where "S1 = (if ok then insert (unat c) S else S)"
  have "card S1 \<le> card S + 1" by (simp add: S1_def card_insert_le_m1 card.insert_remove)
  then have "card S1 + length cs < 2 ^ 64" using Cons.prems(4) by simp
  moreover have "window_of w' S1"
    using check_and_set_window [OF Cons.prems(1) c] by (simp add: S1_def)
  moreover have "loss_inv f w' S1"
    using loss_inv_step [OF Cons.prems(1,2) _ _ c] Cons.prems(3,4) by (simp add: S1_def)
  ultimately have "\<exists>S'. window_of (snd (run check_and_set w' cs)) S'
          \<and> loss_inv f (snd (run check_and_set w' cs)) S'"
    using Cons.IH Cons.prems(3) by simp
  then show ?case using c by (simp add: Let_def case_prod_beta)
qed auto

text \<open>
  As long as no counter arrives that is older than the first one of
  the generation, received plus lost frames are exactly the span of the
  counters: the gap charged when the window advances is refunded once per
  late frame, without saturation or wrap-around.
\<close>
theorem replay_loss_exact:
  assumes "\<forall>c\<in>set cs. c0 \<le> c" and "length cs < 2 ^ 63"
    and "w = snd (run check_and_set rw_new (c0 # cs))"
  shows "unat (rw_seen_total w) + unat (rw_lost_total w)
           = unat (rw_highest w) - unat c0 + 1 \<and> c0 \<le> rw_highest w"
proof -
  define w1 where "w1 = snd (check_and_set rw_new c0)"
  have 1: "check_and_set rw_new c0 = (True, w1)"
    by (simp add: w1_def check_and_set_def rw_new_def)
  have "window_of w1 {unat c0}"
    using check_and_set_window(2) [OF window_of_new 1] by simp
  moreover have "loss_inv (unat c0) w1 {unat c0}"
    by (simp add: loss_inv_def w1_def check_and_set_def rw_new_def)
  moreover have "\<forall>c\<in>set cs. unat c0 \<le> unat c" using assms(1) by (simp add: word_le_nat_alt)
  moreover have "card {unat c0} + length cs < 2 ^ 64" using assms(2) by simp
  ultimately obtain S' where "window_of (snd (run check_and_set w1 cs)) S'"
    "loss_inv (unat c0) (snd (run check_and_set w1 cs)) S'"
    using loss_inv_run by blast
  moreover have "w = snd (run check_and_set w1 cs)"
    using assms(3) 1 by (simp add: Let_def case_prod_beta)
  ultimately show ?thesis
    by (auto simp: loss_inv_def window_of_def word_le_nat_alt add.commute)
qed

theorem replay_loss_exact_witness:
  "unat (rw_seen_total (snd (run check_and_set rw_new [3, 7, 5])))
     + unat (rw_lost_total (snd (run check_and_set rw_new [3, 7, 5]))) = 5"
proof -
  have "rw_highest (snd (run check_and_set rw_new [3, 7, 5])) = 7"
    by (simp add: check_and_set_def rw_new_def WINDOW_BITS_def Let_def)
  then show ?thesis using replay_loss_exact [of "[7, 5]" 3, OF _ _ refl] by simp
qed

text \<open>
  A frame older than the first one of the generation is refunded although its
  gap was never charged: after 3, 5 and the late 2 the estimate is no loss,
  while 4 is still missing.
\<close>
lemma replay_refund_never_charged:
  "fst (run check_and_set rw_new [3, 5, 2]) = [True, True, True]
   \<and> rw_stats (snd (run check_and_set rw_new [3, 5])) = (2, 1)
   \<and> rw_stats (snd (run check_and_set rw_new [3, 5, 2])) = (3, 0)"
  by (simp add: check_and_set_def rw_new_def WINDOW_BITS_def Let_def rw_stats_def
        saturating_add_def saturating_sub_def)

end
