(* ===== verification/Rust_Std.thy ===== *)
theory Rust_Std
  imports Prelude "HOL-Library.Char_ord"
begin

text \<open>
  The parts of the Rust standard library that the program's parsers rely on. A
  str or String is the list of its UTF-8 bytes, written as an Isabelle string;
  validity of UTF-8 is a predicate on bytes.
\<close>

section \<open>UTF-8\<close>

definition as_bytes :: "string \<Rightarrow> bytes" where
  "as_bytes s = map (\<lambda>c. of_nat (of_char c)) s"

definition chars_of :: "bytes \<Rightarrow> string" where
  "chars_of b = map (\<lambda>x. char_of (unat x)) b"

definition utf8_cont :: "u8 \<Rightarrow> bool" where
  "utf8_cont b = (0x80 \<le> b \<and> b \<le> 0xBF)"

text \<open>
  The next character: whether the sequence that starts with byte a is valid, and
  how many of the following bytes it takes (for an invalid one, the maximal
  prefix that is replaced by one replacement character).
\<close>

definition utf8_next :: "u8 \<Rightarrow> bytes \<Rightarrow> bool \<times> nat" where
  "utf8_next a s =
     (let at = (\<lambda>i. if i < length s then s ! i else 0); b = at 0; c = at 1; d = at 2 in
      if a < 0x80 then (True, 0)
      else if 0xC2 \<le> a \<and> a \<le> 0xDF then (if utf8_cont b then (True, 1) else (False, 0))
      else if 0xE0 \<le> a \<and> a \<le> 0xEF then
        (if \<not> ((if a = 0xE0 then 0xA0 else 0x80) \<le> b \<and> b \<le> (if a = 0xED then 0x9F else 0xBF))
         then (False, 0) else if utf8_cont c then (True, 2) else (False, 1))
      else if 0xF0 \<le> a \<and> a \<le> 0xF4 then
        (if \<not> ((if a = 0xF0 then 0x90 else 0x80) \<le> b \<and> b \<le> (if a = 0xF4 then 0x8F else 0xBF))
         then (False, 0) else if \<not> utf8_cont c then (False, 1)
         else if utf8_cont d then (True, 3) else (False, 2))
      else (False, 0))"

function utf8_valid :: "bytes \<Rightarrow> bool" where
  "utf8_valid [] = True"
| "utf8_valid (a # s) = (fst (utf8_next a s) \<and> utf8_valid (drop (snd (utf8_next a s)) s))"
  by pat_completeness auto
termination by (relation "measure length") auto

function utf8_lossy :: "bytes \<Rightarrow> bytes" where
  "utf8_lossy [] = []"
| "utf8_lossy (a # s) =
     (let (ok, k) = utf8_next a s
      in (if ok then a # take k s else [0xEF, 0xBF, 0xBD]) @ utf8_lossy (drop k s))"
  by pat_completeness auto
termination by (relation "measure length") auto

definition from_utf8 :: "bytes \<Rightarrow> string option" where
  "from_utf8 b = (if utf8_valid b then Some (chars_of b) else None)"

definition from_utf8_lossy :: "bytes \<Rightarrow> string" where
  "from_utf8_lossy b = chars_of (utf8_lossy b)"

definition wf_str :: "string \<Rightarrow> bool" where
  "wf_str s = utf8_valid (as_bytes s)"

lemma length_as_bytes [simp]: "length (as_bytes s) = length s"
  by (simp add: as_bytes_def)

lemma as_bytes_append [simp]: "as_bytes (s @ t) = as_bytes s @ as_bytes t"
  by (simp add: as_bytes_def)

lemma as_bytes_Nil [simp]: "as_bytes [] = []"
  by (simp add: as_bytes_def)

lemma byte_of_char_inverse [simp]: "char_of (unat (of_nat (of_char c) :: u8)) = c"
proof -
  have "(of_char c :: nat) < 256" by simp
  then have "unat (of_nat (of_char c) :: u8) = of_char c" by (simp add: unat_of_nat)
  then show ?thesis by simp
qed

lemma chars_of_as_bytes [simp]: "chars_of (as_bytes s) = s"
  by (simp add: chars_of_def as_bytes_def comp_def)

lemma from_utf8_as_bytes: "wf_str s \<Longrightarrow> from_utf8 (as_bytes s) = Some s"
  by (simp add: from_utf8_def wf_str_def)

lemma utf8_lossy_valid: "utf8_valid b \<Longrightarrow> utf8_lossy b = b"
  by (induction b rule: utf8_valid.induct) (auto simp: Let_def split: prod.splits)

lemma from_utf8_lossy_as_bytes: "wf_str s \<Longrightarrow> from_utf8_lossy (as_bytes s) = s"
  by (simp add: from_utf8_lossy_def wf_str_def utf8_lossy_valid)

lemma utf8_next_ascii: "a < 0x80 \<Longrightarrow> utf8_next a s = (True, 0)"
  by (simp add: utf8_next_def Let_def)

lemma utf8_valid_ascii: "\<forall>a\<in>set b. a < 0x80 \<Longrightarrow> utf8_valid b"
  by (induction b) (auto simp: utf8_next_ascii)

lemma as_bytes_inj [simp]: "as_bytes s = as_bytes t \<longleftrightarrow> s = t"
  by (metis chars_of_as_bytes)

section \<open>Splitting\<close>

text \<open>split, split\_once and rsplit\_once on one character.\<close>

fun split_once :: "char \<Rightarrow> string \<Rightarrow> (string \<times> string) option" where
  "split_once c [] = None"
| "split_once c (x # xs) =
     (if x = c then Some ([], xs) else map_option (\<lambda>(a, b). (x # a, b)) (split_once c xs))"

definition rsplit_once :: "char \<Rightarrow> string \<Rightarrow> (string \<times> string) option" where
  "rsplit_once c s = map_option (\<lambda>(a, b). (rev b, rev a)) (split_once c (rev s))"

fun split_on :: "char \<Rightarrow> string \<Rightarrow> string list" where
  "split_on c [] = [[]]"
| "split_on c (x # xs) =
     (if x = c then [] # split_on c xs
      else (case split_on c xs of [] \<Rightarrow> [[x]] | w # ws \<Rightarrow> (x # w) # ws))"

definition strip_prefix :: "string \<Rightarrow> string \<Rightarrow> string option" where
  "strip_prefix p s = (if take (length p) s = p then Some (drop (length p) s) else None)"

definition starts_with :: "string \<Rightarrow> string \<Rightarrow> bool" where
  "starts_with p s = (strip_prefix p s \<noteq> None)"

text \<open>trim\_end\_matches('/')\<close>

definition trim_end_slash :: "string \<Rightarrow> string" where
  "trim_end_slash s = rev (dropWhile (\<lambda>c. c = CHR ''/'') (rev s))"

lemma trim_end_slash_idem [simp]: "trim_end_slash (trim_end_slash s) = trim_end_slash s"
proof -
  have "dropWhile P (dropWhile P xs) = dropWhile P xs" for P and xs :: string
    by (induction xs) auto
  then show ?thesis by (simp add: trim_end_slash_def)
qed

lemma starts_with_take: "starts_with p s = (take (length p) s = p)"
  by (simp add: starts_with_def strip_prefix_def)

lemma split_once_append: "c \<notin> set a \<Longrightarrow> split_once c (a @ c # b) = Some (a, b)"
  by (induction a) auto

lemma split_once_Some: "split_once c s = Some (a, b) \<longleftrightarrow> s = a @ c # b \<and> c \<notin> set a"
proof (induction s arbitrary: a)
  case (Cons x s)
  show ?case by (cases a) (auto simp: Cons.IH)
qed simp

lemma split_once_None: "split_once c s = None \<longleftrightarrow> c \<notin> set s"
  by (induction s) auto

lemma rsplit_once_append: "c \<notin> set b \<Longrightarrow> rsplit_once c (a @ c # b) = Some (a, b)"
  by (simp add: rsplit_once_def split_once_append)

lemma rsplit_once_Some: "rsplit_once c s = Some (a, b) \<longleftrightarrow> s = a @ c # b \<and> c \<notin> set b"
proof
  assume "rsplit_once c s = Some (a, b)"
  then have "split_once c (rev s) = Some (rev b, rev a)" by (auto simp: rsplit_once_def)
  then have "rev s = rev b @ c # rev a" "c \<notin> set b" by (auto simp: split_once_Some)
  then show "s = a @ c # b \<and> c \<notin> set b"
    by (metis append.assoc append_Cons append_Nil rev.simps(2) rev_append rev_swap)
qed (simp add: rsplit_once_append)

lemma split_on_no: "c \<notin> set a \<Longrightarrow> split_on c a = [a]"
  by (induction a) auto

lemma split_on_append: "c \<notin> set a \<Longrightarrow> split_on c (a @ c # b) = a # split_on c b"
  by (induction a) auto

lemma strip_prefix_append [simp]: "strip_prefix p (p @ s) = Some s"
  by (simp add: strip_prefix_def)

lemma strip_prefix_Some: "strip_prefix p s = Some t \<longleftrightarrow> s = p @ t"
  by (auto simp: strip_prefix_def) (metis append_take_drop_id)

section \<open>Decimal numbers\<close>

definition digit_val :: "char \<Rightarrow> nat option" where
  "digit_val c = (let n = of_char c in if 48 \<le> n \<and> n \<le> 57 then Some (n - 48) else None)"

definition digit_char :: "nat \<Rightarrow> char" where
  "digit_char d = char_of (48 + d)"

fun digits_val :: "nat \<Rightarrow> string \<Rightarrow> nat option" where
  "digits_val acc [] = Some acc"
| "digits_val acc (c # cs) =
     (case digit_val c of None \<Rightarrow> None | Some d \<Rightarrow> digits_val (10 * acc + d) cs)"

fun dec_of_nat :: "nat \<Rightarrow> string" where
  "dec_of_nat n = (if n < 10 then [digit_char n] else dec_of_nat (n div 10) @ [digit_char (n mod 10)])"

declare dec_of_nat.simps [simp del]

text \<open>str::parse at an unsigned type of maximum \<open>mx\<close>: an optional plus sign, digits, no overflow.\<close>

definition parse_unsigned :: "nat \<Rightarrow> string \<Rightarrow> nat option" where
  "parse_unsigned mx s =
     (let body = (case s of CHR ''+'' # t \<Rightarrow> t | _ \<Rightarrow> s) in
      if body = [] then None
      else (case digits_val 0 body of None \<Rightarrow> None | Some n \<Rightarrow> if n \<le> mx then Some n else None))"

definition parse_u8 :: "string \<Rightarrow> u8 option" where
  "parse_u8 s = map_option of_nat (parse_unsigned 255 s)"

definition parse_u16 :: "string \<Rightarrow> u16 option" where
  "parse_u16 s = map_option of_nat (parse_unsigned 65535 s)"

definition parse_u32 :: "string \<Rightarrow> u32 option" where
  "parse_u32 s = map_option of_nat (parse_unsigned 4294967295 s)"

definition parse_u64 :: "string \<Rightarrow> u64 option" where
  "parse_u64 s = map_option of_nat (parse_unsigned 18446744073709551615 s)"

lemma of_char_digit_char: "d < 10 \<Longrightarrow> of_char (digit_char d) = 48 + d"
  by (simp add: digit_char_def)

lemma digit_val_digit_char [simp]: "d < 10 \<Longrightarrow> digit_val (digit_char d) = Some d"
  by (simp add: digit_val_def of_char_digit_char Let_def)

lemma digits_val_append:
  "digits_val acc (s @ t) = Option.bind (digits_val acc s) (\<lambda>a. digits_val a t)"
  by (induction s arbitrary: acc) (auto split: option.splits)

lemma digits_val_dec: "digits_val 0 (dec_of_nat n) = Some n"
proof (induction n rule: dec_of_nat.induct)
  case (1 n)
  then show ?case by (subst dec_of_nat.simps) (auto simp: digits_val_append)
qed

lemma dec_of_nat_neq_Nil [simp]: "dec_of_nat n \<noteq> []"
  by (subst dec_of_nat.simps) simp

lemma dec_of_nat_digits: "c \<in> set (dec_of_nat n) \<Longrightarrow> \<exists>d<10. c = digit_char d"
proof (induction n rule: dec_of_nat.induct)
  case (1 n)
  have "dec_of_nat n = (if n < 10 then [digit_char n]
      else dec_of_nat (n div 10) @ [digit_char (n mod 10)])" by (rule dec_of_nat.simps)
  moreover have "\<exists>d<10. digit_char (n mod 10) = digit_char d"
    by (rule exI [of _ "n mod 10"]) simp
  ultimately show ?case using 1 by (auto split: if_splits)
qed

lemma digit_char_neq:
  assumes "d < 10"
  shows "digit_char d \<noteq> CHR ''.''" "digit_char d \<noteq> CHR ''+''" "digit_char d \<noteq> CHR '':''"
    "digit_char d \<noteq> CHR ''/''"
  using of_char_digit_char [OF assms] assms by auto

lemma dec_of_nat_clean:
  "CHR ''.'' \<notin> set (dec_of_nat n)" "CHR ''+'' \<notin> set (dec_of_nat n)"
  "CHR '':'' \<notin> set (dec_of_nat n)" "CHR ''/'' \<notin> set (dec_of_nat n)"
  using dec_of_nat_digits digit_char_neq by metis+

lemma parse_unsigned_dec: "n \<le> mx \<Longrightarrow> parse_unsigned mx (dec_of_nat n) = Some n"
proof -
  assume "n \<le> mx"
  moreover have "(case dec_of_nat n of CHR ''+'' # t \<Rightarrow> t | _ \<Rightarrow> dec_of_nat n) = dec_of_nat n"
    using dec_of_nat_clean(2) [of n] by (auto split: list.splits char.splits bool.splits)
  ultimately show ?thesis by (simp add: parse_unsigned_def digits_val_dec Let_def)
qed

section \<open>IPv4 addresses\<close>

text \<open>
  Ipv4Addr::from\_str: four decimal octets of at most three digits, without a
  leading zero. Addresses are u32 values, most significant octet first.
\<close>

definition parse_octet :: "string \<Rightarrow> nat option" where
  "parse_octet s =
     (if s = [] \<or> 3 < length s \<or> (1 < length s \<and> hd s = CHR ''0'') then None
      else (case digits_val 0 s of None \<Rightarrow> None | Some n \<Rightarrow> if n \<le> 255 then Some n else None))"

definition ipv4_of_octets :: "nat \<Rightarrow> nat \<Rightarrow> nat \<Rightarrow> nat \<Rightarrow> u32" where
  "ipv4_of_octets a b c d = of_nat (((a * 256 + b) * 256 + c) * 256 + d)"

definition parse_ipv4 :: "string \<Rightarrow> u32 option" where
  "parse_ipv4 s =
     (case split_on CHR ''.'' s of
        [a, b, c, d] \<Rightarrow> do {
          a \<leftarrow> parse_octet a; b \<leftarrow> parse_octet b; c \<leftarrow> parse_octet c; d \<leftarrow> parse_octet d;
          Some (ipv4_of_octets a b c d) }
      | _ \<Rightarrow> None)"

definition octet :: "u32 \<Rightarrow> nat \<Rightarrow> nat" where
  "octet a i = unat a div 256 ^ i mod 256"

definition show_ipv4 :: "u32 \<Rightarrow> string" where
  "show_ipv4 a = dec_of_nat (octet a 3) @ ''.'' @ dec_of_nat (octet a 2) @ ''.''
                 @ dec_of_nat (octet a 1) @ ''.'' @ dec_of_nat (octet a 0)"

lemma octet_lt: "octet a i \<le> 255"
  using mod_less_divisor [of 256 "unat a div 256 ^ i"] by (simp add: octet_def)

lemma dec_of_nat_small:
  "n < 10 \<Longrightarrow> dec_of_nat n = [digit_char n]"
  "10 \<le> n \<Longrightarrow> n < 100 \<Longrightarrow> dec_of_nat n = [digit_char (n div 10), digit_char (n mod 10)]"
  "100 \<le> n \<Longrightarrow> n < 1000 \<Longrightarrow> dec_of_nat n =
     [digit_char (n div 10 div 10), digit_char (n div 10 mod 10), digit_char (n mod 10)]"
proof -
  assume "100 \<le> n" "n < 1000"
  then have "\<not> n < 10" "\<not> n div 10 < 10" "n div 10 div 10 < 10" by auto
  then show "dec_of_nat n =
     [digit_char (n div 10 div 10), digit_char (n div 10 mod 10), digit_char (n mod 10)]"
    by (simp add: dec_of_nat.simps [of n] dec_of_nat.simps [of "n div 10"]
        dec_of_nat.simps [of "n div 10 div 10"])
qed (simp_all add: dec_of_nat.simps [of n] dec_of_nat.simps [of "n div 10"])

lemma digit_char_nonzero: "1 \<le> d \<Longrightarrow> d < 10 \<Longrightarrow> digit_char d \<noteq> CHR ''0''"
  using of_char_digit_char [of d] by auto

lemma dec_of_octet:
  assumes "n \<le> 255"
  shows "length (dec_of_nat n) \<le> 3 \<and> (1 < length (dec_of_nat n) \<longrightarrow> hd (dec_of_nat n) \<noteq> CHR ''0'')"
proof -
  consider "n < 10" | "10 \<le> n" "n < 100" | "100 \<le> n" "n < 1000" using assms by linarith
  then show ?thesis
  proof cases
    case 2
    then have "1 \<le> n div 10" "n div 10 < 10" by auto
    then show ?thesis using 2 digit_char_nonzero by (simp add: dec_of_nat_small)
  next
    case 3
    then have "1 \<le> n div 10 div 10" "n div 10 div 10 < 10" by auto
    then show ?thesis using 3 digit_char_nonzero by (simp add: dec_of_nat_small)
  qed (simp add: dec_of_nat_small)
qed

lemma parse_octet_dec: "n \<le> 255 \<Longrightarrow> parse_octet (dec_of_nat n) = Some n"
  using dec_of_octet [of n] by (auto simp: parse_octet_def digits_val_dec)

lemma ipv4_octets: "ipv4_of_octets (octet a 3) (octet a 2) (octet a (Suc 0)) (octet a 0) = a"
proof -
  define v where "v = unat a"
  have "v < 256 * 256 ^ 3" using unsigned_less [of a, where ?'a = nat] by (simp add: v_def)
  then have o3: "octet a 3 = v div 256 ^ 2 div 256"
    by (simp add: octet_def flip: v_def div_mult2_eq)
  have o: "octet a 2 = v div 256 ^ 2 mod 256" "octet a (Suc 0) = v div 256 mod 256"
    "octet a 0 = v mod 256" by (simp_all add: octet_def v_def)
  have "octet a 3 * 256 + octet a 2 = v div 256 div 256"
    unfolding o3 o using div_mult_mod_eq [of "v div 256 ^ 2" 256]
    by (simp add: power2_eq_square div_mult2_eq [symmetric])
  then have "(octet a 3 * 256 + octet a 2) * 256 + octet a (Suc 0) = v div 256"
    unfolding o by simp
  then have "((octet a 3 * 256 + octet a 2) * 256 + octet a (Suc 0)) * 256 + octet a 0 = v"
    unfolding o(3) by simp
  then show ?thesis by (simp add: ipv4_of_octets_def v_def)
qed

lemma parse_show_ipv4: "parse_ipv4 (show_ipv4 a) = Some a"
  using dec_of_nat_clean(1)
  by (simp add: parse_ipv4_def show_ipv4_def split_on_append split_on_no parse_octet_dec octet_lt
      ipv4_octets)

interpretation ipv4: codec show_ipv4 parse_ipv4 id "\<lambda>_. True"
  by unfold_locales (simp add: parse_show_ipv4)

text \<open>The parser accepts only the text that Display produces.\<close>

lemma digit_step:
  fixes k r m :: nat
  assumes "r < m"
  shows "(k * m + r) div m = k" "(k * m + r) mod m = r" "(m * k + r) div m = k" "(m * k + r) mod m = r"
  using assms by simp_all

lemma digit_val_Some: "digit_val c = Some d \<Longrightarrow> c = digit_char d \<and> d < 10"
  by (auto simp: digit_val_def digit_char_def Let_def split: if_splits)

lemma parse_octet_canonical:
  assumes "parse_octet s = Some n"
  shows "s = dec_of_nat n \<and> n \<le> 255"
proof -
  have v: "digits_val 0 s = Some n" "n \<le> 255" "s \<noteq> []" "length s \<le> 3" "1 < length s \<Longrightarrow> hd s \<noteq> CHR ''0''"
    using assms by (auto simp: parse_octet_def split: if_splits option.splits)
  have "digit_char 0 = CHR ''0''" by code_simp
  then have z: "d \<noteq> 0" if "digit_char d \<noteq> CHR ''0''" for d
    using that by metis
  consider c where "s = [c]" | c d where "s = [c, d]" | c d e where "s = [c, d, e]"
    using v(3,4) by (cases s; cases "tl s"; cases "tl (tl s)"; cases "tl (tl (tl s))") auto
  then have "s = dec_of_nat n"
  proof cases
    case 1
    then show ?thesis using v(1) digit_val_Some [of c n] by (auto simp: dec_of_nat_small split: option.splits)
  next
    case (2 c d)
    then obtain x y where "digit_val c = Some x" "digit_val d = Some y" "n = 10 * x + y"
      using v(1) by (auto split: option.splits)
    moreover from this have "x < 10" "y < 10" "c = digit_char x" "d = digit_char y"
      using digit_val_Some by auto
    moreover have "x \<noteq> 0" using calculation v(5) 2 z by auto
    ultimately show ?thesis using 2 by (subst dec_of_nat_small(2)) auto
  next
    case (3 c d e)
    then obtain x y w where "digit_val c = Some x" "digit_val d = Some y" "digit_val e = Some w"
      "n = 10 * (10 * x + y) + w"
      using v(1) by (auto split: option.splits)
    moreover from this have "x < 10" "y < 10" "w < 10" "c = digit_char x" "d = digit_char y" "e = digit_char w"
      using digit_val_Some by auto
    moreover have "x \<noteq> 0" using calculation v(5) 3 z by auto
    moreover have "n div 10 = 10 * x + y" "n mod 10 = w" "(10 * x + y) div 10 = x" "(10 * x + y) mod 10 = y"
      using calculation by (simp_all only: digit_step)
    ultimately show ?thesis using 3 by (subst dec_of_nat_small(3)) auto
  qed
  then show ?thesis using v(2) by simp
qed

lemma split_on_join: "split_on c s = x # y # r \<Longrightarrow> \<exists>t. s = x @ c # t \<and> split_on c t = y # r"
proof (induction s arbitrary: x)
  case (Cons a s)
  show ?case
  proof (cases "a = c")
    case False
    then obtain x' where "split_on c s = x' # y # r" "x = a # x'"
      using Cons.prems by (cases "split_on c s") auto
    with Cons.IH show ?thesis by auto
  qed (use Cons.prems in auto)
qed simp

lemma split_on_neq_Nil [simp]: "split_on c s \<noteq> []"
  by (cases s) (auto split: list.split)

lemma split_on_single: "split_on c s = [x] \<Longrightarrow> s = x"
proof (induction s arbitrary: x)
  case (Cons a s)
  then show ?case using split_on_neq_Nil [of c s]
    by (cases "split_on c s") (auto split: if_splits simp del: split_on_neq_Nil)
qed simp

lemma ipv4_octet_of:
  assumes "a \<le> 255" "b \<le> 255" "c \<le> 255" "d \<le> 255"
  shows "octet (ipv4_of_octets a b c d) 3 = a" "octet (ipv4_of_octets a b c d) 2 = b"
    "octet (ipv4_of_octets a b c d) 1 = c" "octet (ipv4_of_octets a b c d) 0 = d"
proof -
  define v where "v = ((a * 256 + b) * 256 + c) * 256 + d"
  have "v < 2 ^ 32" unfolding v_def using assms by simp
  then have u: "unat (ipv4_of_octets a b c d) = v"
    unfolding ipv4_of_octets_def v_def [symmetric] by (simp add: unat_of_nat)
  have lt: "d < 256" "c < 256" "b < 256" using assms by auto
  have "v div 256 = (a * 256 + b) * 256 + c" "v mod 256 = d"
    unfolding v_def by (rule digit_step [OF lt(1)])+
  moreover have "((a * 256 + b) * 256 + c) div 256 = a * 256 + b" "((a * 256 + b) * 256 + c) mod 256 = c"
    "(a * 256 + b) div 256 = a" "(a * 256 + b) mod 256 = b"
    by (rule digit_step [OF lt(2)] digit_step [OF lt(3)])+
  moreover have "v div 256 ^ 2 = v div 256 div 256" "v div 256 ^ 3 = v div 256 div 256 div 256"
    by (simp_all add: div_mult2_eq [symmetric] power2_eq_square power3_eq_cube)
  ultimately show "octet (ipv4_of_octets a b c d) 3 = a" "octet (ipv4_of_octets a b c d) 2 = b"
    "octet (ipv4_of_octets a b c d) 1 = c" "octet (ipv4_of_octets a b c d) 0 = d"
    using assms(1) unfolding octet_def u by simp_all
qed

lemma parse_ipv4_canonical:
  assumes "parse_ipv4 s = Some x"
  shows "s = show_ipv4 x"
proof -
  obtain a b c d where sp: "split_on CHR ''.'' s = [a, b, c, d]"
    using assms by (auto simp: parse_ipv4_def split: list.splits)
  obtain na nb nc nd where n: "parse_octet a = Some na" "parse_octet b = Some nb" "parse_octet c = Some nc"
    "parse_octet d = Some nd" "x = ipv4_of_octets na nb nc nd"
    using assms by (auto simp: parse_ipv4_def sp bind_eq_Some_conv)
  have "s = a @ ''.'' @ b @ ''.'' @ c @ ''.'' @ d"
    using split_on_join [OF sp] by (auto dest!: split_on_join split_on_single)
  then show ?thesis
    using n(1-4) [THEN parse_octet_canonical] by (simp add: n(5) show_ipv4_def ipv4_octet_of [simplified])
qed

lemma parse_ipv4_iff: "parse_ipv4 s = Some a \<longleftrightarrow> s = show_ipv4 a"
  using parse_ipv4_canonical parse_show_ipv4 by blast

section \<open>Socket addresses\<close>

text \<open>
  SocketAddr::from\_str. The parser of the standard library consumes a prefix of
  the text; each step returns what it read and the rest.
\<close>

datatype SocketAddr =
    SocketAddrV4 u32 u16
  | SocketAddrV6 "u16 list" u32 u16

definition hex_val :: "char \<Rightarrow> nat option" where
  "hex_val c = (let n = of_char c in
     if 48 \<le> n \<and> n \<le> 57 then Some (n - 48)
     else if 97 \<le> n \<and> n \<le> 102 then Some (n - 87)
     else if 65 \<le> n \<and> n \<le> 70 then Some (n - 55) else None)"

definition read_number :: "nat \<Rightarrow> nat option \<Rightarrow> bool \<Rightarrow> nat \<Rightarrow> string \<Rightarrow> (nat \<times> string) option" where
  "read_number radix max_digits allow_zero_prefix mx s =
     (let digit = (if radix = 16 then hex_val else digit_val);
          ds = takeWhile (\<lambda>c. digit c \<noteq> None) s;
          v = fold (\<lambda>c acc. radix * acc + the (digit c)) ds 0 in
      if ds = [] then None
      else if (case max_digits of None \<Rightarrow> False | Some m \<Rightarrow> m < length ds) then None
      else if mx < v then None
      else if \<not> allow_zero_prefix \<and> hd ds = CHR ''0'' \<and> 1 < length ds then None
      else Some (v, drop (length ds) s))"

definition read_given_char :: "char \<Rightarrow> string \<Rightarrow> string option" where
  "read_given_char c s = (case s of [] \<Rightarrow> None | x # t \<Rightarrow> if x = c then Some t else None)"

definition read_octet :: "string \<Rightarrow> (nat \<times> string) option" where
  "read_octet s = read_number 10 (Some 3) False 255 s"

definition read_ipv4_addr :: "string \<Rightarrow> (u32 \<times> string) option" where
  "read_ipv4_addr s = do {
     (a, s) \<leftarrow> read_octet s; s \<leftarrow> read_given_char CHR ''.'' s;
     (b, s) \<leftarrow> read_octet s; s \<leftarrow> read_given_char CHR ''.'' s;
     (c, s) \<leftarrow> read_octet s; s \<leftarrow> read_given_char CHR ''.'' s;
     (d, s) \<leftarrow> read_octet s;
     Some (ipv4_of_octets a b c d, s) }"

text \<open>
  read\_groups: up to \<open>limit\<close> groups of an IPv6 address, from group i on, with an
  embedded IPv4 address in place of the last two; the groups, whether they
  ended in an IPv4 address, and the rest.
\<close>

function read_groups :: "nat \<Rightarrow> nat \<Rightarrow> string \<Rightarrow> u16 list \<times> bool \<times> string" where
  "read_groups limit i s =
     (if limit \<le> i then ([], False, s)
      else
        (let sep = (if 0 < i then read_given_char CHR '':'' s else Some s);
             v4 = (if i < limit - 1 then Option.bind sep read_ipv4_addr else None) in
         case v4 of
           Some (a, s') \<Rightarrow> ([ucast (drop_bit 16 a), ucast a], True, s')
         | None \<Rightarrow>
             (case Option.bind sep (read_number 16 (Some 4) True 65535) of
                None \<Rightarrow> ([], False, s)
              | Some (g, s') \<Rightarrow>
                  (let (gs, b, r) = read_groups limit (Suc i) s' in (of_nat g # gs, b, r)))))"
  by pat_completeness auto
termination by (relation "measure (\<lambda>(limit, i, _). limit - i)") auto

definition read_ipv6_addr :: "string \<Rightarrow> (u16 list \<times> string) option" where
  "read_ipv6_addr s =
     (let (head, head_ipv4, s) = read_groups 8 0 s in
      if length head = 8 then Some (head, s)
      else if head_ipv4 then None
      else do {
        s \<leftarrow> read_given_char CHR '':'' s;
        s \<leftarrow> read_given_char CHR '':'' s;
        let (tail, _, s) = read_groups (8 - (length head + 1)) 0 s;
        Some (head @ replicate (8 - length head - length tail) 0 @ tail, s) })"

definition read_port :: "string \<Rightarrow> (u16 \<times> string) option" where
  "read_port s = do {
     s \<leftarrow> read_given_char CHR '':'' s;
     (p, s) \<leftarrow> read_number 10 None True 65535 s;
     Some (of_nat p, s) }"

definition read_scope_id :: "string \<Rightarrow> (u32 \<times> string) option" where
  "read_scope_id s = do {
     s \<leftarrow> read_given_char CHR ''%'' s;
     (n, s) \<leftarrow> read_number 10 None True 4294967295 s;
     Some (of_nat n, s) }"

definition read_socket_addr_v4 :: "string \<Rightarrow> (SocketAddr \<times> string) option" where
  "read_socket_addr_v4 s = do {
     (a, s) \<leftarrow> read_ipv4_addr s; (p, s) \<leftarrow> read_port s; Some (SocketAddrV4 a p, s) }"

definition read_socket_addr_v6 :: "string \<Rightarrow> (SocketAddr \<times> string) option" where
  "read_socket_addr_v6 s = do {
     s \<leftarrow> read_given_char CHR ''['' s;
     (a, s) \<leftarrow> read_ipv6_addr s;
     let (scope, s) = (case read_scope_id s of None \<Rightarrow> (0, s) | Some r \<Rightarrow> r);
     s \<leftarrow> read_given_char CHR '']'' s;
     (p, s) \<leftarrow> read_port s;
     Some (SocketAddrV6 a scope p, s) }"

definition parse_socket_addr :: "string \<Rightarrow> SocketAddr option" where
  "parse_socket_addr s =
     (case (case read_socket_addr_v4 s of None \<Rightarrow> read_socket_addr_v6 s | r \<Rightarrow> r) of
        Some (a, []) \<Rightarrow> Some a
      | _ \<Rightarrow> None)"

definition show_sockaddr_v4 :: "u32 \<Rightarrow> u16 \<Rightarrow> string" where
  "show_sockaddr_v4 a p = show_ipv4 a @ '':'' @ dec_of_nat (unat p)"

text \<open>Reading back what is written.\<close>

lemma takeWhile_dec:
  assumes "r = [] \<or> digit_val (hd r) = None"
  shows "takeWhile (\<lambda>c. digit_val c \<noteq> None) (dec_of_nat n @ r) = dec_of_nat n"
proof -
  have "\<forall>c\<in>set (dec_of_nat n). digit_val c \<noteq> None" using dec_of_nat_digits by fastforce
  then show ?thesis using assms
    by (cases r) (auto simp: takeWhile_append)
qed

lemma fold_digits_val:
  "digits_val acc s = Some v \<Longrightarrow> fold (\<lambda>c acc. 10 * acc + the (digit_val c)) s acc = v"
  by (induction s arbitrary: acc) (auto split: option.splits)

lemma read_number_dec:
  assumes "r = [] \<or> digit_val (hd r) = None" and "n \<le> mx"
    and "case m of None \<Rightarrow> True | Some k \<Rightarrow> length (dec_of_nat n) \<le> k"
    and "z \<or> (1 < length (dec_of_nat n) \<longrightarrow> hd (dec_of_nat n) \<noteq> CHR ''0'')"
  shows "read_number 10 m z mx (dec_of_nat n @ r) = Some (n, r)"
  using assms takeWhile_dec [OF assms(1), of n] fold_digits_val [OF digits_val_dec, of n]
  by (auto simp: read_number_def Let_def split: option.splits)

lemma read_octet_dec:
  "r = [] \<or> digit_val (hd r) = None \<Longrightarrow> n \<le> 255 \<Longrightarrow> read_octet (dec_of_nat n @ r) = Some (n, r)"
  unfolding read_octet_def using dec_of_octet [of n] by (intro read_number_dec) auto

lemma read_ipv4_show:
  assumes "r = [] \<or> digit_val (hd r) = None"
  shows "read_ipv4_addr (show_ipv4 a @ r) = Some (a, r)"
proof -
  have "digit_val CHR ''.'' = None" by (simp add: digit_val_def)
  then show ?thesis
    using assms read_octet_dec [OF _ octet_lt]
    by (simp add: read_ipv4_addr_def show_ipv4_def read_given_char_def ipv4_octets)
qed

lemma parse_show_sockaddr_v4: "parse_socket_addr (show_sockaddr_v4 a p) = Some (SocketAddrV4 a p)"
proof -
  have "unat p \<le> 65535" using unsigned_less [of p, where ?'a = nat] by simp
  then have "read_number 10 None True 65535 (dec_of_nat (unat p)) = Some (unat p, [])"
    using read_number_dec [of "[]" "unat p" 65535 None True] by simp
  moreover have "digit_val CHR '':'' = None" by (simp add: digit_val_def)
  ultimately show ?thesis
    using read_ipv4_show [of "CHR '':'' # dec_of_nat (unat p)" a]
    by (simp add: parse_socket_addr_def read_socket_addr_v4_def show_sockaddr_v4_def read_port_def
        read_given_char_def)
qed

interpretation sockaddr_v4: codec "\<lambda>(a, p). show_sockaddr_v4 a p" parse_socket_addr
  "\<lambda>(a, p). SocketAddrV4 a p" "\<lambda>_. True"
  by unfold_locales (auto simp: parse_show_sockaddr_v4)

section \<open>Characters\<close>

text \<open>The characters of a text as the byte sequences that encode them: str::chars.\<close>

function utf8_chars :: "bytes \<Rightarrow> bytes list" where
  "utf8_chars [] = []"
| "utf8_chars (a # s) =
     (let k = snd (utf8_next a s) in (a # take k s) # utf8_chars (drop k s))"
  by pat_completeness auto
termination by (relation "measure length") auto

lemma concat_utf8_chars [simp]: "concat (utf8_chars b) = b"
  by (induction b rule: utf8_chars.induct) (simp_all add: Let_def)

lemma length_utf8_chars: "length (utf8_chars b) \<le> length b"
proof (induction b rule: utf8_chars.induct)
  case (2 a s)
  then show ?case by (simp add: Let_def)
qed simp

definition char_count :: "string \<Rightarrow> nat" where
  "char_count s = length (utf8_chars (as_bytes s))"

text \<open>chars().take(n).collect()\<close>

definition take_chars :: "nat \<Rightarrow> string \<Rightarrow> string" where
  "take_chars n s = chars_of (concat (take n (utf8_chars (as_bytes s))))"

text \<open>char::is\_whitespace, the Unicode property White\_Space.\<close>

definition is_whitespace :: "bytes \<Rightarrow> bool" where
  "is_whitespace c =
     (c \<in> set [[9], [10], [11], [12], [13], [32], [0xC2, 0x85], [0xC2, 0xA0], [0xE1, 0x9A, 0x80],
               [0xE2, 0x80, 0xA8], [0xE2, 0x80, 0xA9], [0xE2, 0x80, 0xAF], [0xE2, 0x81, 0x9F],
               [0xE3, 0x80, 0x80]]
      \<or> (case c of [a, b, d] \<Rightarrow> a = 0xE2 \<and> b = 0x80 \<and> 0x80 \<le> d \<and> d \<le> 0x8A | _ \<Rightarrow> False))"

definition str_trim :: "string \<Rightarrow> string" where
  "str_trim s = chars_of (concat (rev (dropWhile is_whitespace (rev (dropWhile is_whitespace
                 (utf8_chars (as_bytes s)))))))"

text \<open>is\_ascii\_alphanumeric\<close>

definition is_ascii_alnum :: "char \<Rightarrow> bool" where
  "is_ascii_alnum c =
     (let n = (of_char c :: nat) in
      48 \<le> n \<and> n \<le> 57 \<or> 65 \<le> n \<and> n \<le> 90 \<or> 97 \<le> n \<and> n \<le> 122)"

end
