(* ===== verification/SessionKeys.thy ===== *)
theory SessionKeys
  imports Rust_Std
begin

text \<open>
  crates/skiff-core/src/crypto/session_keys.rs: derivation of the two directional
  keys of a session. X25519 and HKDF-SHA256 are parameters: \<open>dh priv pub\<close> is the
  shared secret (all zero exactly when the exchange was not contributory),
  \<open>hkdf salt ikm info len\<close> the output keying material.
\<close>

definition KDF_INFO_PREFIX :: bytes where
  "KDF_INFO_PREFIX = as_bytes ''starskiff/session/v1''"

definition OKM_LEN :: nat where
  "OKM_LEN = 64"

datatype KdfError = DegenerateSharedSecret

record SessionKeys =
  send_key :: bytes
  recv_key :: bytes

text \<open>The lexicographic order of byte arrays.\<close>

fun bytes_less :: "bytes \<Rightarrow> bytes \<Rightarrow> bool" where
  "bytes_less _ [] = False"
| "bytes_less [] (_ # _) = True"
| "bytes_less (a # as) (b # bs) = (a < b \<or> (a = b \<and> bytes_less as bs))"

definition was_contributory :: "bytes \<Rightarrow> bool" where
  "was_contributory shared = (\<exists>b\<in>set shared. b \<noteq> 0)"

definition derive ::
  "(bytes \<Rightarrow> bytes \<Rightarrow> bytes) \<Rightarrow> (bytes \<Rightarrow> bytes \<Rightarrow> bytes \<Rightarrow> nat \<Rightarrow> bytes) \<Rightarrow>
   bytes \<Rightarrow> bytes \<Rightarrow> bytes \<Rightarrow> bytes \<Rightarrow> KdfError + SessionKeys" where
  "derive dh hkdf my_dh_priv my_dh_pub peer_dh_pub network_id =
     (let shared = dh my_dh_priv peer_dh_pub in
      if \<not> was_contributory shared then Inl DegenerateSharedSecret
      else
        (let (low, high, mine_is_low) =
               (if bytes_less my_dh_pub peer_dh_pub then (my_dh_pub, peer_dh_pub, True)
                else (peer_dh_pub, my_dh_pub, False));
             info = KDF_INFO_PREFIX @ low @ high;
             okm = hkdf network_id shared info OKM_LEN;
             front = take 32 okm;
             back = drop 32 okm;
             (sk, rk) = (if mine_is_low then (front, back) else (back, front))
         in Inr \<lparr>send_key = sk, recv_key = rk\<rparr>))"

section \<open>The two ends agree\<close>

lemma bytes_less_irrefl [simp]: "\<not> bytes_less a a"
  by (induction a) auto

lemma bytes_less_asym: "bytes_less a b \<Longrightarrow> \<not> bytes_less b a"
  by (induction a b rule: bytes_less.induct) auto

lemma bytes_less_linear: "a \<noteq> b \<Longrightarrow> bytes_less a b \<or> bytes_less b a"
proof (induction a b rule: bytes_less.induct)
  case (1 a)
  then show ?case by (cases a) auto
qed (auto simp: neq_iff)

lemma bytes_less_trans: "bytes_less a b \<Longrightarrow> bytes_less b c \<Longrightarrow> bytes_less a c"
proof (induction a b arbitrary: c rule: bytes_less.induct)
  case (2 b bs)
  then show ?case by (cases c) auto
next
  case (3 a as b bs)
  then show ?case by (cases c) auto
qed simp

text \<open>
  Two devices with different public keys whose Diffie-Hellman
  exchange yields the same secret derive mirrored keys: what one sends with,
  the other receives with; both reject the exchange, or neither does.
\<close>
theorem derive_mirrored:
  assumes "dh a_priv b_pub = dh b_priv a_pub" and "a_pub \<noteq> b_pub"
  shows "derive dh hkdf b_priv b_pub a_pub net =
         (case derive dh hkdf a_priv a_pub b_pub net of
            Inl e \<Rightarrow> Inl e
          | Inr k \<Rightarrow> Inr \<lparr>send_key = recv_key k, recv_key = send_key k\<rparr>)"
  using assms bytes_less_asym [of a_pub b_pub] bytes_less_linear [of a_pub b_pub]
  by (auto simp: derive_def Let_def)

theorem derive_mirrored_witness:
  "derive (\<lambda>a p. map2 (+) a p) (\<lambda>s i f n. take n (f @ i @ s)) [2] [2] [1] [9] =
     (case derive (\<lambda>a p. map2 (+) a p) (\<lambda>s i f n. take n (f @ i @ s)) [1] [1] [2] [9] of
            Inl e \<Rightarrow> Inl e
          | Inr k \<Rightarrow> Inr \<lparr>send_key = recv_key k, recv_key = send_key k\<rparr>)"
  by (rule derive_mirrored) simp_all

text \<open>
  The receiving half for equal public keys is the front half: the code takes
  the branch where the own key is not the lower one.
\<close>
lemma derive_self_high_branch:
  assumes "derive dh hkdf p q q net = Inr k"
  shows "send_key k = drop 32 (hkdf net (dh p q) (KDF_INFO_PREFIX @ q @ q) OKM_LEN)"
    and "recv_key k = take 32 (hkdf net (dh p q) (KDF_INFO_PREFIX @ q @ q) OKM_LEN)"
  using assms by (auto simp: derive_def Let_def split: if_splits)

lemma derive_rejects_zero:
  "derive dh hkdf p q r net = Inl DegenerateSharedSecret \<longleftrightarrow> (\<forall>b\<in>set (dh p r). b = 0)"
  by (auto simp: derive_def Let_def was_contributory_def split: prod.splits)

end
