(* ===== verification/Wire.thy ===== *)
theory Wire
  imports Endec Replay SessionKeys
begin

text \<open>
  crates/skiff-core/src/protocol/wire.rs: the encrypted data-plane frame and its
  AEAD codec. XChaCha20-Poly1305 is a parameter: \<open>aenc key nonce aad msg\<close> and
  \<open>adec key nonce aad ct\<close>; the random boot nonce is an argument of \<open>codec_new\<close>.
  The receive state (the generations of boot nonces with their replay windows)
  is guarded by a mutex in the source, so packets are opened one at a time.
\<close>

definition WIRE_MAGIC :: u8 where "WIRE_MAGIC = 0x0A"
definition WIRE_VERSION :: u8 where "WIRE_VERSION = 2"
definition BOOT_NONCE_SIZE :: nat where "BOOT_NONCE_SIZE = 16"
definition NONCE_SIZE :: nat where "NONCE_SIZE = 24"
definition TAG_SIZE :: nat where "TAG_SIZE = 16"
definition FIXED_HEADER :: nat where "FIXED_HEADER = 1 + 1 + 8 + 1 + NONCE_SIZE"
definition AAD_HEADER :: nat where "AAD_HEADER = 11"
definition BOOT_NONCE_GENERATIONS :: nat where "BOOT_NONCE_GENERATIONS = 32"
definition FRAME_PING :: u8 where "FRAME_PING = 1"
definition FRAME_PONG :: u8 where "FRAME_PONG = 2"
definition FRAME_DATA :: u8 where "FRAME_DATA = 3"
definition FRAME_FLOW :: u8 where "FRAME_FLOW = 4"

lemmas wire_consts =
  WIRE_MAGIC_def WIRE_VERSION_def BOOT_NONCE_SIZE_def NONCE_SIZE_def TAG_SIZE_def
  FIXED_HEADER_def AAD_HEADER_def BOOT_NONCE_GENERATIONS_def
  FRAME_PING_def FRAME_PONG_def FRAME_DATA_def FRAME_FLOW_def

definition frame_type_is_valid :: "u8 \<Rightarrow> bool" where
  "frame_type_is_valid t = (FRAME_PING \<le> t \<and> t \<le> FRAME_FLOW)"

record RawFrame =
  rf_sender_id :: u64
  rf_frame_type :: u8
  rf_nonce :: bytes
  rf_ciphertext :: bytes

definition rf_counter :: "RawFrame \<Rightarrow> u64 option" where
  "rf_counter f = do { b \<leftarrow> slice_from (rf_nonce f) BOOT_NONCE_SIZE; read_u64_le b }"

text \<open>The outer option is the panic of an out-of-range read.\<close>

definition try_parse :: "bytes \<Rightarrow> RawFrame option option" where
  "try_parse packet =
     (if length packet < FIXED_HEADER + TAG_SIZE then Some None
      else do {
        p0 \<leftarrow> idx packet 0;
        p1 \<leftarrow> (if p0 \<noteq> WIRE_MAGIC then Some WIRE_VERSION else idx packet 1);
        if p0 \<noteq> WIRE_MAGIC \<or> p1 \<noteq> WIRE_VERSION then Some None
        else do {
          frame_type \<leftarrow> idx packet 10;
          if \<not> frame_type_is_valid frame_type then Some None
          else do {
            b2 \<leftarrow> slice_from packet 2;
            sender_id \<leftarrow> read_u64_le b2;
            nonce \<leftarrow> slice packet 11 FIXED_HEADER;
            if length nonce \<noteq> NONCE_SIZE then Some None
            else do {
              ct \<leftarrow> slice_from packet FIXED_HEADER;
              Some (Some \<lparr>rf_sender_id = sender_id, rf_frame_type = frame_type,
                          rf_nonce = nonce, rf_ciphertext = ct\<rparr>) } } } })"

record PacketCodec =
  pc_keys :: SessionKeys
  pc_boot_nonce :: bytes
  pc_send_counter :: u64
  pc_generations :: "(bytes \<times> ReplayWindow) list"
  pc_retired_seen :: u64
  pc_retired_lost :: u64

definition codec_new :: "SessionKeys \<Rightarrow> bytes \<Rightarrow> PacketCodec" where
  "codec_new keys boot_nonce =
     \<lparr>pc_keys = keys, pc_boot_nonce = boot_nonce, pc_send_counter = 0,
      pc_generations = [], pc_retired_seen = 0, pc_retired_lost = 0\<rparr>"

type_synonym aenc = "bytes \<Rightarrow> bytes \<Rightarrow> bytes \<Rightarrow> bytes \<Rightarrow> bytes"
type_synonym adec = "bytes \<Rightarrow> bytes \<Rightarrow> bytes \<Rightarrow> bytes \<Rightarrow> bytes option"

definition seal :: "aenc \<Rightarrow> PacketCodec \<Rightarrow> u64 \<Rightarrow> u8 \<Rightarrow> bytes \<Rightarrow> bytes \<times> PacketCodec" where
  "seal aenc c sender_id frame_type payload =
     (let c1 = c\<lparr>pc_send_counter := pc_send_counter c + 1\<rparr>;
          out = write_u64_le [WIRE_MAGIC, WIRE_VERSION] sender_id @ [frame_type] @ pc_boot_nonce c1;
          out1 = write_u64_le out (pc_send_counter c1);
          nonce = take (FIXED_HEADER - 11) (drop 11 out1);
          sealed = aenc (send_key (pc_keys c1)) nonce (take AAD_HEADER out1) payload
      in (out1 @ sealed, c1))"

definition open_generation :: "PacketCodec \<Rightarrow> bytes \<Rightarrow> bool \<times> PacketCodec" where
  "open_generation c peer_boot =
     (case position (\<lambda>g. fst g = peer_boot) (pc_generations c) of
        Some i \<Rightarrow> (i + 1 = length (pc_generations c), c)
      | None \<Rightarrow>
          (let gs = pc_generations c @ [(peer_boot, rw_new)] in
           if BOOT_NONCE_GENERATIONS < length gs then
             (let (seen, lost) = rw_stats (snd (hd gs)) in
              (True, c\<lparr>pc_generations := tl gs,
                       pc_retired_seen := pc_retired_seen c + seen,
                       pc_retired_lost := pc_retired_lost c + lost\<rparr>))
           else (True, c\<lparr>pc_generations := gs\<rparr>)))"

definition try_open ::
  "adec \<Rightarrow> PacketCodec \<Rightarrow> bytes \<Rightarrow> ((u64 \<times> u8 \<times> bytes) option \<times> PacketCodec) option" where
  "try_open adec c packet = do {
     parsed \<leftarrow> try_parse packet;
     case parsed of
       None \<Rightarrow> Some (None, c)
     | Some frame \<Rightarrow> do {
         peer_boot \<leftarrow> slice_to (rf_nonce frame) BOOT_NONCE_SIZE;
         counter \<leftarrow> rf_counter frame;
         aad \<leftarrow> slice_to packet AAD_HEADER;
         case adec (recv_key (pc_keys c)) (rf_nonce frame) aad (rf_ciphertext frame) of
           None \<Rightarrow> Some (None, c)
         | Some plain \<Rightarrow>
             (let (is_current, c1) = open_generation c peer_boot in
              if \<not> is_current then Some (None, c1)
              else if pc_generations c1 = [] then None
              else
                (let (nb, window) = last (pc_generations c1);
                     (ok, window1) = check_and_set window counter;
                     c2 = c1\<lparr>pc_generations := butlast (pc_generations c1) @ [(nb, window1)]\<rparr>
                 in if \<not> ok then Some (None, c2)
                    else Some (Some (rf_sender_id frame, rf_frame_type frame, plain), c2))) } }"

definition codec_stats :: "PacketCodec \<Rightarrow> u64 \<times> u64" where
  "codec_stats c =
     fold (\<lambda>(_, w) (seen, lost). (let (s, l) = rw_stats w in (seen + s, lost + l)))
       (pc_generations c) (pc_retired_seen c, pc_retired_lost c)"

section \<open>Parsing\<close>

text \<open>The fields of a frame by position, and the test that a packet is one.\<close>

definition is_frame :: "bytes \<Rightarrow> bool" where
  "is_frame p = (51 \<le> length p \<and> p ! 0 = WIRE_MAGIC \<and> p ! 1 = WIRE_VERSION
                 \<and> frame_type_is_valid (p ! 10))"

definition pkt_nonce :: "bytes \<Rightarrow> bytes" where "pkt_nonce p = take 24 (drop 11 p)"
definition pkt_boot :: "bytes \<Rightarrow> bytes" where "pkt_boot p = take 16 (drop 11 p)"
definition pkt_counter :: "bytes \<Rightarrow> u64" where "pkt_counter p = of_nat (le_val (take 8 (drop 27 p)))"
definition pkt_sender :: "bytes \<Rightarrow> u64" where "pkt_sender p = of_nat (le_val (take 8 (drop 2 p)))"

lemma try_parse_eq:
  "try_parse p = Some (if is_frame p then
     Some \<lparr>rf_sender_id = pkt_sender p, rf_frame_type = p ! 10, rf_nonce = pkt_nonce p,
           rf_ciphertext = drop 35 p\<rparr> else None)"
proof (cases "51 \<le> length p")
  case True
  have c: "FIXED_HEADER = 35" "TAG_SIZE = 16" "NONCE_SIZE = 24" by (simp_all add: wire_consts)
  have r: "idx p 0 = Some (p ! 0)" "idx p (Suc 0) = Some (p ! Suc 0)" "idx p 10 = Some (p ! 10)"
    "slice_from p 2 = Some (drop 2 p)" "slice p 11 35 = Some (pkt_nonce p)"
    "slice_from p 35 = Some (drop 35 p)" "read_u64_le (drop 2 p) = Some (pkt_sender p)"
    "length (pkt_nonce p) = 24"
    using True
    by (auto simp add: idx_def slice_from_def slice_def pkt_nonce_def pkt_sender_def read_u64_le_val)
  show ?thesis using True by (simp add: try_parse_def c r is_frame_def)
next
  case False
  have "FIXED_HEADER + TAG_SIZE = 51" by (simp add: wire_consts)
  then show ?thesis using False by (simp add: try_parse_def is_frame_def)
qed

lemma rf_counter_eq:
  assumes "try_parse p = Some (Some f)"
  shows "rf_counter f = Some (pkt_counter p)"
proof -
  have f: "is_frame p" "rf_nonce f = pkt_nonce p" using assms by (auto simp: try_parse_eq split: if_splits)
  then have l: "51 \<le> length p" by (simp add: is_frame_def)
  have "drop 16 (pkt_nonce p) = take 8 (drop 27 p)" by (simp add: pkt_nonce_def drop_take)
  moreover have "length (pkt_nonce p) = 24" using l by (simp add: pkt_nonce_def)
  ultimately show ?thesis using f l
    by (simp add: rf_counter_def BOOT_NONCE_SIZE_def slice_from_def read_u64_le_val pkt_counter_def)
qed

section \<open>Opening\<close>

text \<open>The receive state after an authentic frame, and whether it is delivered.\<close>

definition admit_frame :: "PacketCodec \<Rightarrow> bytes \<Rightarrow> u64 \<Rightarrow> bool \<times> PacketCodec" where
  "admit_frame c boot ctr =
     (let (cur, c1) = open_generation c boot in
      if \<not> cur then (False, c1)
      else
        (let (nb, w) = last (pc_generations c1); (ok, w1) = check_and_set w ctr
         in (ok, c1\<lparr>pc_generations := butlast (pc_generations c1) @ [(nb, w1)]\<rparr>)))"

definition opened :: "adec \<Rightarrow> SessionKeys \<Rightarrow> bytes \<Rightarrow> bytes option" where
  "opened adec ks p =
     (if is_frame p then adec (recv_key ks) (pkt_nonce p) (take 11 p) (drop 35 p) else None)"

lemma open_generation_current_nonempty:
  "open_generation c b = (True, c') \<Longrightarrow> pc_generations c' \<noteq> []"
  by (cases "pc_generations c")
     (auto simp: open_generation_def Let_def BOOT_NONCE_GENERATIONS_def
       split: option.splits if_splits prod.splits)

lemma try_open_eq:
  "try_open adec c p = Some
     (case opened adec (pc_keys c) p of
        None \<Rightarrow> (None, c)
      | Some m \<Rightarrow>
          (let (ok, c') = admit_frame c (pkt_boot p) (pkt_counter p)
           in (if ok then Some (pkt_sender p, p ! 10, m) else None, c')))"
proof (cases "is_frame p")
  case True
  define f where "f = \<lparr>rf_sender_id = pkt_sender p, rf_frame_type = p ! 10,
     rf_nonce = pkt_nonce p, rf_ciphertext = drop 35 p\<rparr>"
  have l: "51 \<le> length p" using True by (simp add: is_frame_def)
  have f: "try_parse p = Some (Some f)" using True by (simp add: try_parse_eq f_def)
  have b: "slice_to (pkt_nonce p) BOOT_NONCE_SIZE = Some (pkt_boot p)"
    "slice_to p AAD_HEADER = Some (take 11 p)"
    using l by (auto simp add: f_def BOOT_NONCE_SIZE_def AAD_HEADER_def slice_to_def
        pkt_nonce_def pkt_boot_def min_def)
  have fs: "rf_sender_id f = pkt_sender p" "rf_frame_type f = p ! 10"
    "rf_nonce f = pkt_nonce p" "rf_ciphertext f = drop 35 p" by (simp_all add: f_def)
  show ?thesis
    unfolding try_open_def
    using open_generation_current_nonempty [of c "pkt_boot p"] True
    by (auto simp: f b fs rf_counter_eq [OF f] opened_def admit_frame_def Let_def
        split: option.splits prod.splits)
qed (simp add: try_open_def try_parse_eq opened_def)

lemma admit_frame_keys [simp]: "pc_keys (snd (admit_frame c b n)) = pc_keys c"
  by (simp add: admit_frame_def open_generation_def Let_def split: option.splits prod.splits)

text \<open>One received packet, as a request of a run.\<close>

definition open_step :: "adec \<Rightarrow> PacketCodec \<Rightarrow> bytes \<Rightarrow> (u64 \<times> u8 \<times> bytes) option \<times> PacketCodec" where
  "open_step adec c p = (case try_open adec c p of Some r \<Rightarrow> r | None \<Rightarrow> (None, c))"

definition delivers :: "adec \<Rightarrow> PacketCodec \<Rightarrow> bytes \<Rightarrow> bool \<times> PacketCodec" where
  "delivers adec c p = (let (r, c') = open_step adec c p in (r \<noteq> None, c'))"

text \<open>
  Opening never panics, on any bytes; and a packet that is not a
  well-formed frame authenticated under the receive key leaves the codec
  untouched (no window and no generation moves) and delivers nothing.
\<close>
theorem try_open_total_and_clean:
  "\<exists>r c'. try_open adec c p = Some (r, c')
     \<and> (opened adec (pc_keys c) p = None \<longrightarrow> r = None \<and> c' = c)
     \<and> pc_keys c' = pc_keys c \<and> pc_send_counter c' = pc_send_counter c"
  by (auto simp: try_open_eq admit_frame_def open_generation_def Let_def
      split: option.splits prod.splits)

theorem try_open_total_and_clean_witness:
  "\<exists>r c'. try_open (\<lambda>_ _ _ _. None) (codec_new \<lparr>send_key = [], recv_key = []\<rparr> []) [1, 2, 3] = Some (r, c')
     \<and> r = None \<and> c' = codec_new \<lparr>send_key = [], recv_key = []\<rparr> []"
proof -
  have "opened (\<lambda>_ _ _ _. None) (pc_keys (codec_new \<lparr>send_key = [], recv_key = []\<rparr> [])) [1, 2, 3] = None"
    by (auto simp: opened_def split: option.split)
  then show ?thesis
    using try_open_total_and_clean [of "\<lambda>_ _ _ _. None" "codec_new \<lparr>send_key = [], recv_key = []\<rparr> []" "[1, 2, 3]"]
    by auto
qed

section \<open>At most once\<close>

text \<open>
  The codec has accepted exactly the (boot nonce, counter) pairs of K: every
  generation's window represents its counters, and every boot nonce of K still
  has its generation.
\<close>

definition codec_of :: "bytes set \<Rightarrow> PacketCodec \<Rightarrow> (bytes \<times> u64) set \<Rightarrow> bool" where
  "codec_of B c K =
     (distinct (map fst (pc_generations c)) \<and> fst ` K \<subseteq> fst ` set (pc_generations c)
      \<and> fst ` set (pc_generations c) \<subseteq> B
      \<and> (\<forall>(b, w)\<in>set (pc_generations c). window_of w {unat n | n. (b, n) \<in> K}))"

lemma counters_insert:
  "{unat n | n. (b, n) \<in> insert (b', m) K}
     = (if b = b' then insert (unat m) {unat n | n. (b, n) \<in> K} else {unat n | n. (b, n) \<in> K})"
  by auto

lemma open_generation_codec_of:
  assumes c: "codec_of B c K" and b: "b \<in> B" and B: "finite B" "card B \<le> 32"
    and o: "open_generation c b = (cur, c1)"
  shows "codec_of B c1 K" and "cur \<Longrightarrow> pc_generations c1 \<noteq> [] \<and> fst (last (pc_generations c1)) = b"
    and "\<not> cur \<Longrightarrow> c1 = c"
proof -
  have "codec_of B c1 K \<and> (cur \<longrightarrow> pc_generations c1 \<noteq> [] \<and> fst (last (pc_generations c1)) = b)
      \<and> (\<not> cur \<longrightarrow> c1 = c)"
  proof (cases "position (\<lambda>g. fst g = b) (pc_generations c)")
    case None
    then have n: "b \<notin> fst ` set (pc_generations c)" by (auto simp: position_None_iff)
    have "insert b (fst ` set (pc_generations c)) \<subseteq> B" using c b by (auto simp: codec_of_def)
    then have "card (insert b (fst ` set (pc_generations c))) \<le> 32"
      using B by (meson card_mono le_trans)
    then have "length (pc_generations c) + 1 \<le> 32"
      using n c distinct_card [of "map fst (pc_generations c)"] by (simp add: codec_of_def)
    then have c1: "cur" "c1 = c\<lparr>pc_generations := pc_generations c @ [(b, rw_new)]\<rparr>"
      using o None by (auto simp: open_generation_def Let_def BOOT_NONCE_GENERATIONS_def)
    have "{unat m | m. (b, m) \<in> K} = {}" using n c by (force simp: codec_of_def)
    then have "codec_of B c1 K" using c c1 n b by (auto simp: codec_of_def)
    then show ?thesis using c1 by simp
  next
    case (Some i)
    then have i: "i < length (pc_generations c)" "fst (pc_generations c ! i) = b"
      by (auto simp: position_Some_iff)
    have "c1 = c" "cur \<longleftrightarrow> Suc i = length (pc_generations c)"
      using o Some by (auto simp: open_generation_def)
    moreover have "fst (last (pc_generations c)) = b" if "Suc i = length (pc_generations c)"
    proof -
      have "length (pc_generations c) - 1 = i" "pc_generations c \<noteq> []" using that by auto
      then show ?thesis using i by (simp add: last_conv_nth)
    qed
    ultimately show ?thesis using i c by auto
  qed
  then show "codec_of B c1 K" "cur \<Longrightarrow> pc_generations c1 \<noteq> [] \<and> fst (last (pc_generations c1)) = b"
    "\<not> cur \<Longrightarrow> c1 = c" by auto
qed

lemma admit_frame_codec_of:
  assumes c: "codec_of B c K" and b: "b \<in> B" and B: "finite B" "card B \<le> 32"
    and a: "admit_frame c b n = (ok, c')"
  shows "codec_of B c' (if ok then insert (b, n) K else K)" and "ok \<Longrightarrow> (b, n) \<notin> K"
proof -
  obtain cur c1 where o: "open_generation c b = (cur, c1)" by force
  note g = open_generation_codec_of [OF c b B o]
  have "codec_of B c' (if ok then insert (b, n) K else K) \<and> (ok \<longrightarrow> (b, n) \<notin> K)"
  proof (cases cur)
    case False
    then show ?thesis using a o g(1) by (simp add: admit_frame_def)
  next
    case True
    obtain gs w where gs: "pc_generations c1 = gs @ [(b, w)]"
      using g(2) [OF True] by (cases "pc_generations c1" rule: rev_cases) auto
    obtain w1 where w: "check_and_set w n = (ok, w1)"
      and c': "c' = c1\<lparr>pc_generations := gs @ [(b, w1)]\<rparr>"
      using a o True by (auto simp: admit_frame_def gs split: prod.splits)
    have W: "window_of w {unat n | n. (b, n) \<in> K}" and d: "b \<notin> fst ` set gs"
      using g(1) by (auto simp: codec_of_def gs)
    have w': "window_of w1 (if ok then insert (unat n) {unat n | n. (b, n) \<in> K}
                            else {unat n | n. (b, n) \<in> K})"
      using check_and_set_window [OF W w] by simp
    have all: "\<forall>(b', v)\<in>set gs. window_of v {unat n | n. (b', n) \<in> K}"
      using g(1) unfolding codec_of_def gs by simp
    have old: "b' \<noteq> b \<and> window_of v {unat n | n. (b', n) \<in> K}" if "(b', v) \<in> set gs" for b' v
      using bspec [OF all that] image_eqI [of b' fst, OF _ that] d by auto
    have "ok \<longrightarrow> (b, n) \<notin> K"
      using check_and_set_window(1) [OF W w] admits_fresh [of "{unat n | n. (b, n) \<in> K}"] W
      by (auto simp: window_of_def)
    moreover have "codec_of B c' (if ok then insert (b, n) K else K)"
    proof -
      define K' where "K' = (if ok then insert (b, n) K else K)"
      have s: "distinct (map fst gs)" "fst ` K \<subseteq> insert b (fst ` set gs)"
        "insert b (fst ` set gs) \<subseteq> B"
        using g(1) by (simp_all add: codec_of_def gs)
      have "{unat m | m. (b', m) \<in> K'} = {unat m | m. (b', m) \<in> K}" if "b' \<noteq> b" for b'
        using that by (auto simp: K'_def)
      then have "\<forall>(b', v)\<in>set gs. window_of v {unat m | m. (b', m) \<in> K'}"
        using old by (metis (no_types, lifting) case_prodI2)
      moreover have "window_of w1 {unat m | m. (b, m) \<in> K'}"
        using w' by (cases ok) (simp_all add: K'_def counters_insert del: insert_iff)
      moreover have "fst ` K' \<subseteq> insert b (fst ` set gs)" using s(2) by (auto simp: K'_def)
      ultimately show ?thesis using s d by (simp add: codec_of_def c' flip: K'_def)
    qed
    ultimately show ?thesis by simp
  qed
  then show "codec_of B c' (if ok then insert (b, n) K else K)" "ok \<Longrightarrow> (b, n) \<notin> K" by auto
qed

definition pkt_id :: "bytes \<Rightarrow> bytes \<times> u64" where
  "pkt_id p = (pkt_boot p, pkt_counter p)"

lemma delivers_eq:
  "delivers adec c p = (case opened adec (pc_keys c) p of None \<Rightarrow> (False, c)
     | Some m \<Rightarrow> admit_frame c (pkt_boot p) (pkt_counter p))"
  by (auto simp: delivers_def open_step_def try_open_eq split: option.splits prod.splits)

text \<open>The packets under these keys are authentic only with boot nonces of B.\<close>

definition boots_in :: "adec \<Rightarrow> SessionKeys \<Rightarrow> bytes set \<Rightarrow> bytes \<Rightarrow> bool" where
  "boots_in adec ks B p = (opened adec ks p = None \<or> pkt_boot p \<in> B)"

interpretation codec: once_filter "delivers adec" pkt_id "boots_in adec ks B"
  "\<lambda>c K. codec_of B c K \<and> finite B \<and> card B \<le> 32 \<and> pc_keys c = ks"
  for adec ks B
proof
  fix c K p c'
  assume c: "codec_of B c K \<and> finite B \<and> card B \<le> 32 \<and> pc_keys c = ks" and p: "boots_in adec ks B p"
  have k: "pc_keys c' = pc_keys c" if "admit_frame c (pkt_boot p) (pkt_counter p) = (ok, c')" for ok
    using admit_frame_keys [of c "pkt_boot p" "pkt_counter p"] unfolding that by simp
  show "pkt_id p \<notin> K" if "delivers adec c p = (True, c')"
    using that admit_frame_codec_of [of B c K _ "pkt_counter p" True c'] c p
    by (auto simp: delivers_eq pkt_id_def boots_in_def split: option.splits)
  show "codec_of B c' (insert (pkt_id p) K) \<and> finite B \<and> card B \<le> 32 \<and> pc_keys c' = ks"
    if "delivers adec c p = (True, c')"
    using that admit_frame_codec_of [of B c K _ "pkt_counter p" True c'] k c p
    by (auto simp: delivers_eq pkt_id_def boots_in_def split: option.splits)
  show "codec_of B c' K \<and> finite B \<and> card B \<le> 32 \<and> pc_keys c' = ks" if "delivers adec c p = (False, c')"
    using that c p admit_frame_codec_of [of B c K _ "pkt_counter p" False c'] k
    by (auto simp: delivers_eq boots_in_def split: option.splits)
qed

text \<open>
  C11 (safety). Whatever packets arrive, in whatever order, forged ones included, a codec delivers a frame
  (identified by boot nonce and counter) at most once, as long as the packets that
  authenticate carry at most the 32 boot nonces whose windows the codec keeps. With more the
  codec forgets the oldest window.
\<close>
theorem codec_at_most_once:
  assumes "card (pkt_boot ` {p \<in> set ps. opened adec ks p \<noteq> None}) \<le> 32"
  shows "distinct (map pkt_id (accepted ps (fst (run (delivers adec) (codec_new ks b) ps))))"
  by (rule codec.run_distinct [of "pkt_boot ` {p \<in> set ps. opened adec ks p \<noteq> None}" _ "{}" ks])
     (use assms in \<open>auto simp: codec_of_def codec_new_def boots_in_def\<close>)

section \<open>Round trip and authenticity\<close>

text \<open>
  What the development relies on of XChaCha20-Poly1305: decryption accepts
  exactly the ciphertexts of the encryption under the same key, nonce and
  associated data, and a ciphertext is 16 bytes longer than its plaintext.
\<close>

definition aead :: "aenc \<Rightarrow> adec \<Rightarrow> bool" where
  "aead aenc adec =
     ((\<forall>k n a c m. adec k n a c = Some m \<longleftrightarrow> c = aenc k n a m)
      \<and> (\<forall>k n a m. length (aenc k n a m) = length m + 16))"

definition frame_bytes :: "aenc \<Rightarrow> bytes \<Rightarrow> u64 \<Rightarrow> u8 \<Rightarrow> bytes \<Rightarrow> u64 \<Rightarrow> bytes \<Rightarrow> bytes" where
  "frame_bytes aenc k sender t boot ctr m =
     (let hdr = [WIRE_MAGIC, WIRE_VERSION] @ u64_to_le_bytes sender @ [t];
          nonce = boot @ u64_to_le_bytes ctr
      in hdr @ nonce @ aenc k nonce hdr m)"

lemma seal_eq:
  assumes "length (pc_boot_nonce c) = 16"
  shows "seal aenc c s t m =
     (frame_bytes aenc (send_key (pc_keys c)) s t (pc_boot_nonce c) (pc_send_counter c + 1) m,
      c\<lparr>pc_send_counter := pc_send_counter c + 1\<rparr>)"
  using assms
  by (simp add: seal_def frame_bytes_def Let_def write_u64_le_def FIXED_HEADER_def AAD_HEADER_def
      NONCE_SIZE_def)

lemma frame_fields:
  assumes "length boot = 16" and "aead aenc adec" and "frame_type_is_valid t"
    and p_def: "p = frame_bytes aenc k s t boot ctr m"
  shows "is_frame p" and "pkt_boot p = boot" and "pkt_counter p = ctr" and "pkt_sender p = s"
    and "p ! 10 = t"
    and "adec k (pkt_nonce p) (take 11 p) (drop 35 p) = Some m"
proof -
  have l: "length (aenc k n a m) = length m + 16" for n a using assms by (simp add: aead_def)
  have d: "drop 8 (u64_to_le_bytes v) = []" "take 8 (u64_to_le_bytes v) = u64_to_le_bytes v" for v
    by simp_all
  show t: "p ! 10 = t"
    by (simp add: p_def frame_bytes_def Let_def nth_append nth_Cons')
  show "is_frame p" using assms(1,3) t
    by (simp add: is_frame_def p_def frame_bytes_def Let_def l)
  show "pkt_boot p = boot" "pkt_counter p = ctr" "pkt_sender p = s"
    using assms(1)
    by (simp_all add: p_def frame_bytes_def Let_def pkt_boot_def pkt_counter_def pkt_sender_def d)
  have "pkt_nonce p = boot @ u64_to_le_bytes ctr" using assms(1)
    by (simp add: p_def frame_bytes_def Let_def pkt_nonce_def)
  moreover have "take 11 p = [WIRE_MAGIC, WIRE_VERSION] @ u64_to_le_bytes s @ [t]"
    by (simp add: p_def frame_bytes_def Let_def)
  moreover have "drop 35 p = aenc k (boot @ u64_to_le_bytes ctr)
      ([WIRE_MAGIC, WIRE_VERSION] @ u64_to_le_bytes s @ [t]) m"
    using assms(1) by (simp add: p_def frame_bytes_def Let_def)
  ultimately show "adec k (pkt_nonce p) (take 11 p) (drop 35 p) = Some m"
    using assms(2) by (simp add: aead_def)
qed

lemma frame_of_fields:
  assumes f: "is_frame p" and a: "aead aenc adec"
    and d: "adec k (pkt_nonce p) (take 11 p) (drop 35 p) = Some m"
  shows "p = frame_bytes aenc k (pkt_sender p) (p ! 10) (pkt_boot p) (pkt_counter p) m"
proof -
  have l: "51 \<le> length p" and h: "p ! 0 = WIRE_MAGIC" "p ! 1 = WIRE_VERSION"
    using f by (auto simp: is_frame_def)
  have s: "u64_to_le_bytes (pkt_sender p) = take 8 (drop 2 p)"
    "u64_to_le_bytes (pkt_counter p) = take 8 (drop 27 p)"
    using l by (simp_all add: pkt_sender_def pkt_counter_def u64_to_le_bytes_val)
  have "take 2 p = [p ! 0, p ! 1]"
    using l by (auto intro!: nth_equalityI simp: less_Suc_eq numeral_2_eq_2)
  moreover have "take 10 p = take 2 p @ take 8 (drop 2 p)" by (simp flip: take_add)
  moreover have "take 11 p = take 10 p @ [p ! 10]"
    using take_Suc_conv_app_nth [of 10 p] l by simp
  ultimately have hdr: "take 11 p = [WIRE_MAGIC, WIRE_VERSION] @ u64_to_le_bytes (pkt_sender p) @ [p ! 10]"
    using h s by simp
  have n: "pkt_nonce p = pkt_boot p @ u64_to_le_bytes (pkt_counter p)"
    using take_add [of 16 8 "drop 11 p"] s by (simp add: pkt_nonce_def pkt_boot_def)
  have "drop 35 p = aenc k (pkt_nonce p) (take 11 p) m" using a d by (simp add: aead_def)
  moreover have "p = take 11 p @ pkt_nonce p @ drop 35 p"
    using append_take_drop_id [of 11 p] append_take_drop_id [of 24 "drop 11 p"]
    by (simp add: pkt_nonce_def)
  ultimately show ?thesis using hdr n by (simp add: frame_bytes_def Let_def)
qed

text \<open>
  C16 (safety). Nothing is delivered that was not sealed: a delivered packet is, byte
  for byte, the frame of the delivered sender, type and payload under the
  receive key, so no bit of the clear header can have been altered.
\<close>
theorem try_open_authentic:
  assumes "aead aenc adec" and "try_open adec c p = Some (Some (s, t, m), c')"
  shows "p = frame_bytes aenc (recv_key (pc_keys c)) s t (pkt_boot p) (pkt_counter p) m
         \<and> frame_type_is_valid t"
proof -
  have "is_frame p" "s = pkt_sender p" "t = p ! 10"
    "adec (recv_key (pc_keys c)) (pkt_nonce p) (take 11 p) (drop 35 p) = Some m"
    using assms(2) by (auto simp: try_open_eq opened_def split: option.splits prod.splits if_splits)
  then show ?thesis using frame_of_fields [OF _ assms(1)] by (auto simp: is_frame_def)
qed

text \<open>The receiver that has seen, of one boot nonce, the counters of S.\<close>

definition recv_at :: "bytes \<Rightarrow> PacketCodec \<Rightarrow> nat set \<Rightarrow> bool" where
  "recv_at boot c S =
     (case pc_generations c of
        [] \<Rightarrow> S = {}
      | (b, w) # gs \<Rightarrow> gs = [] \<and> b = boot \<and> window_of w S)"

lemma admit_newer:
  assumes "recv_at boot c S" and "\<forall>x\<in>S. x < unat n"
  shows "fst (admit_frame c boot n)" and "recv_at boot (snd (admit_frame c boot n)) (insert (unat n) S)"
proof -
  have ad: "window_of w S \<Longrightarrow> admits S (unat n)" for w
    using assms(2) by (cases "S = {}") (simp_all add: admits_def window_of_def)
  obtain w where w: "window_of w S"
    and a: "admit_frame c boot n = (let (ok, w1) = check_and_set w n
              in (ok, c\<lparr>pc_generations := [(boot, w1)]\<rparr>))"
  proof (cases "pc_generations c")
    case Nil
    then have "S = {}" using assms(1) by (simp add: recv_at_def)
    then show ?thesis using Nil
      by (intro that [of rw_new])
         (auto simp: admit_frame_def open_generation_def BOOT_NONCE_GENERATIONS_def Let_def
           split: prod.splits)
  next
    case (Cons g gs)
    then show ?thesis using assms(1)
      by (cases g; intro that [of "snd g"])
         (auto simp: recv_at_def admit_frame_def open_generation_def Let_def split: prod.splits)
  qed
  obtain ok w1 where c: "check_and_set w n = (ok, w1)" by force
  then have "ok" "window_of w1 (insert (unat n) S)"
    using check_and_set_window [OF w c] ad [OF w] by auto
  then show "fst (admit_frame c boot n)"
    "recv_at boot (snd (admit_frame c boot n)) (insert (unat n) S)"
    using a c by (simp_all add: recv_at_def)
qed

lemma open_run_increasing:
  assumes "aead aenc adec" and "length boot = 16" and "recv_key (pc_keys c) = k"
    and "\<forall>(n, t, m)\<in>set fs. frame_type_is_valid t"
    and "sorted_wrt (<) (map fst fs)" and "\<forall>x\<in>S. \<forall>(n, t, m)\<in>set fs. x < unat n"
    and "recv_at boot c S"
  shows "fst (run (open_step adec) c (map (\<lambda>(n, t, m). frame_bytes aenc k s t boot n m) fs))
           = map (\<lambda>(n, t, m). Some (s, t, m)) fs"
  using assms(3-)
proof (induction fs arbitrary: c S)
  case (Cons f fs)
  obtain n t m where f: "f = (n, t, m)" by (cases f)
  define p where "p = frame_bytes aenc k s t boot n m"
  have t: "frame_type_is_valid t" using Cons.prems(2) f by simp
  note ff = frame_fields [OF assms(2,1) t p_def]
  obtain c' where a: "admit_frame c boot n = (True, c')" and r: "recv_at boot c' (insert (unat n) S)"
    using admit_newer [OF Cons.prems(5), of n] Cons.prems(4) f by (cases "admit_frame c boot n") auto
  have o: "open_step adec c p = (Some (s, t, m), c')"
    using ff Cons.prems(1) a by (simp add: open_step_def try_open_eq opened_def)
  have k: "recv_key (pc_keys c') = k" using admit_frame_keys [of c boot n] a Cons.prems(1) by simp
  have new: "\<forall>x\<in>insert (unat n) S. \<forall>(n', t, m)\<in>set fs. x < unat n'"
    using Cons.prems(3,4) f by (fastforce simp: word_less_nat_alt)
  have "fst (run (open_step adec) c' (map (\<lambda>(n, t, m). frame_bytes aenc k s t boot n m) fs))
           = map (\<lambda>(n, t, m). Some (s, t, m)) fs"
    using Cons.prems(2,3) by (intro Cons.IH [OF k _ _ new r]) simp_all
  then show ?case using o f
    by (cases "run (open_step adec) c' (map (\<lambda>(n, t, m). frame_bytes aenc k s t boot n m) fs)")
       (auto simp flip: p_def)
qed simp

definition seal_req :: "aenc \<Rightarrow> u64 \<Rightarrow> PacketCodec \<Rightarrow> u8 \<times> bytes \<Rightarrow> bytes \<times> PacketCodec" where
  "seal_req aenc s c r = seal aenc c s (fst r) (snd r)"

fun numbered :: "nat \<Rightarrow> 'a list \<Rightarrow> (u64 \<times> 'a) list" where
  "numbered k [] = []"
| "numbered k (x # xs) = (of_nat k, x) # numbered (Suc k) xs"

lemma map_snd_numbered [simp]: "map snd (numbered k xs) = xs"
  by (induction xs arbitrary: k) auto

lemma in_set_numberedD: "(n, x) \<in> set (numbered k xs) \<Longrightarrow> x \<in> set xs"
  by (induction xs arbitrary: k) auto

lemma map_fst_numbered: "map fst (numbered k xs) = map of_nat [k..<k + length xs]"
proof (induction xs arbitrary: k)
  case (Cons x xs)
  then show ?case using upt_conv_Cons [of k "k + length (x # xs)"] by simp
qed simp

lemma seal_run:
  assumes "length (pc_boot_nonce c) = 16" and "pc_send_counter c = of_nat k"
  shows "fst (run (seal_req aenc s) c ms)
     = map (\<lambda>(n, t, m). frame_bytes aenc (send_key (pc_keys c)) s t (pc_boot_nonce c) n m)
         (numbered (Suc k) ms)"
  using assms
proof (induction ms arbitrary: c k)
  case (Cons r ms)
  then show ?case
    using Cons.IH [of "c\<lparr>pc_send_counter := pc_send_counter c + 1\<rparr>" "Suc k"]
    by (cases r) (simp add: seal_req_def seal_eq Let_def case_prod_beta add.commute)
qed simp

lemma numbered_increasing:
  assumes "k + length ms \<le> 2 ^ 64"
  shows "sorted_wrt (<) (map fst (numbered k ms))"
proof -
  have "sorted_wrt (<) (map (of_nat :: nat \<Rightarrow> u64) [k..<k + length ms])"
    unfolding sorted_wrt_map
    by (rule sorted_wrt_mono_rel [OF _ sorted_wrt_upt])
       (use assms in \<open>auto simp: word_less_nat_alt unat_of_nat\<close>)
  then show ?thesis by (simp add: map_fst_numbered)
qed

lemma sorted_wrt_nths: "sorted_wrt P xs \<Longrightarrow> sorted_wrt P (nths xs I)"
proof (induction xs arbitrary: I)
  case (Cons x xs)
  then show ?case by (auto simp: nths_Cons dest: in_set_nthsD)
qed simp

text \<open>
  C12 (roundtrip). Packets sealed by one end and received in order by a fresh peer codec
  with the mirrored key, whatever subset I of them the network delivers, open
  to exactly the sender id, types and payloads that were sealed.
\<close>
theorem seal_open_stream:
  assumes "aead aenc adec" and "send_key ka = recv_key kb" and "length boot = 16"
    and "\<forall>(t, m)\<in>set ms. frame_type_is_valid t" and "length ms < 2 ^ 64"
  shows "fst (run (open_step adec) (codec_new kb boot')
            (nths (fst (run (seal_req aenc s) (codec_new ka boot) ms)) I))
         = nths (map (\<lambda>(t, m). Some (s, t, m)) ms) I"
proof -
  let ?fs = "numbered (Suc 0) ms"
  have sealed: "fst (run (seal_req aenc s) (codec_new ka boot) ms)
     = map (\<lambda>(n, t, m). frame_bytes aenc (recv_key kb) s t boot n m) ?fs"
    using seal_run [of "codec_new ka boot" 0 aenc s ms] assms(2,3) by (simp add: codec_new_def)
  have v: "\<forall>(n, t, m)\<in>set (nths ?fs I). frame_type_is_valid t"
    using assms(4) by (fastforce dest: in_set_nthsD in_set_numberedD)
  have "sorted_wrt (<) (nths (map fst ?fs) I)"
    using numbered_increasing [of "Suc 0" ms] assms(5) by (intro sorted_wrt_nths) simp
  then have so: "sorted_wrt (<) (map fst (nths ?fs I))" by (simp add: nths_map)
  have "fst (run (open_step adec) (codec_new kb boot')
          (map (\<lambda>(n, t, m). frame_bytes aenc (recv_key kb) s t boot n m) (nths ?fs I)))
      = map (\<lambda>(n, t, m). Some (s, t, m)) (nths ?fs I)"
    by (rule open_run_increasing [OF assms(1,3) _ v so, where S = "{}"])
       (simp_all add: codec_new_def recv_at_def)
  moreover have "map (\<lambda>(n, t, m). Some (s, t, m)) ?fs = map (\<lambda>(t, m). Some (s, t, m)) ms"
    using map_map [of "\<lambda>(t, m). Some (s, t, m)" snd ?fs]
    by (simp add: comp_def case_prod_beta del: map_map)
  ultimately show ?thesis by (simp add: sealed nths_map [symmetric])
qed

section \<open>Witnesses\<close>

text \<open>
  A toy cipher that meets the contract: the plaintext followed by a 16-byte
  checksum of key, nonce, associated data and plaintext.
\<close>

definition toy_enc :: aenc where
  "toy_enc k n a m = m @ replicate 16 (sum_list (k @ n @ a @ m))"

definition toy_dec :: adec where
  "toy_dec k n a c = (let m = take (length c - 16) c in
     if c = toy_enc k n a m then Some m else None)"

lemma toy_aead: "aead toy_enc toy_dec"
  by (auto simp: aead_def toy_dec_def toy_enc_def Let_def)

definition toy_keys :: SessionKeys where
  "toy_keys = \<lparr>send_key = [1], recv_key = [1]\<rparr>"

definition toy_boot :: bytes where
  "toy_boot = replicate 16 7"

theorem seal_open_stream_witness:
  "fst (run (open_step toy_dec) (codec_new toy_keys [])
      (nths (fst (run (seal_req toy_enc 5) (codec_new toy_keys toy_boot) [(3, [8, 9]), (1, [4])])) {1}))
   = [Some (5, 1, [4])]"
  using seal_open_stream [OF toy_aead, of toy_keys toy_keys toy_boot "[(3, [8, 9]), (1, [4])]" "[]" 5 "{1}"]
  by (simp add: toy_keys_def toy_boot_def frame_type_is_valid_def wire_consts nths_Cons)

theorem try_open_authentic_witness:
  "fst (seal toy_enc (codec_new toy_keys toy_boot) 5 3 [8, 9])
     = frame_bytes toy_enc [1] 5 3 toy_boot 1 [8, 9] \<and> frame_type_is_valid 3"
proof -
  define p where "p = frame_bytes toy_enc [1] 5 3 toy_boot 1 [8, 9]"
  have t: "frame_type_is_valid 3" by (simp add: frame_type_is_valid_def wire_consts)
  have ff: "is_frame p" "pkt_boot p = toy_boot" "pkt_counter p = 1" "pkt_sender p = 5" "p ! 10 = 3"
    "toy_dec [1] (pkt_nonce p) (take 11 p) (drop 35 p) = Some [8, 9]"
    using frame_fields [OF _ toy_aead t p_def] by (simp_all add: toy_boot_def)
  have "try_open toy_dec (codec_new toy_keys []) p
      = Some (Some (5, 3, [8, 9]), snd (admit_frame (codec_new toy_keys []) toy_boot 1))"
    using ff admit_newer(1) [of toy_boot "codec_new toy_keys []" "{}" 1]
    by (auto simp: try_open_eq opened_def codec_new_def toy_keys_def recv_at_def
        split: prod.splits)
  from try_open_authentic [OF toy_aead this] show ?thesis
    using ff by (simp add: seal_eq codec_new_def toy_keys_def toy_boot_def p_def)
qed

theorem codec_at_most_once_witness:
  "let p = fst (seal toy_enc (codec_new toy_keys toy_boot) 5 3 [8, 9])
   in distinct (map pkt_id (accepted [p, p] (fst (run (delivers toy_dec) (codec_new toy_keys []) [p, p]))))"
  unfolding Let_def
proof (rule codec_at_most_once)
  fix p :: bytes
  have "card (pkt_boot ` {q \<in> set [p, p]. opened toy_dec toy_keys q \<noteq> None}) \<le> card {pkt_boot p}"
    by (rule card_mono) auto
  then show "card (pkt_boot ` {q \<in> set [p, p]. opened toy_dec toy_keys q \<noteq> None}) \<le> 32" by simp
qed

end
