(* ===== verification/FlowProto.thy ===== *)
theory FlowProto
  imports Endec Rust_Std
begin

text \<open>
  crates/skiff-core/src/protocol/flow.rs: the payload of a FLOW frame. The outer
  option of the parsers is the panic of an out-of-range read.
\<close>

definition FLOW_HEADER :: nat where "FLOW_HEADER = 9"
definition FLAG_OPEN :: u8 where "FLAG_OPEN = 1"
definition FLAG_OPENED_OK :: u8 where "FLAG_OPENED_OK = 2"
definition FLAG_OPENED_FAIL :: u8 where "FLAG_OPENED_FAIL = 3"
definition FLAG_CLOSE :: u8 where "FLAG_CLOSE = 4"
definition FLAG_DATA :: u8 where "FLAG_DATA = 5"
definition FLAG_DATAGRAM :: u8 where "FLAG_DATAGRAM = 6"
definition PROTO_TCP :: u8 where "PROTO_TCP = 1"
definition PROTO_UDP :: u8 where "PROTO_UDP = 2"
definition REASON_MAX :: nat where "REASON_MAX = 200"

lemmas flow_consts =
  FLOW_HEADER_def FLAG_OPEN_def FLAG_OPENED_OK_def FLAG_OPENED_FAIL_def FLAG_CLOSE_def
  FLAG_DATA_def FLAG_DATAGRAM_def PROTO_TCP_def PROTO_UDP_def REASON_MAX_def

record FlowMsg =
  fm_flow_id :: u32
  fm_seq :: u32
  fm_flags :: u8
  fm_payload :: bytes

definition flow_encode :: "u32 \<Rightarrow> u32 \<Rightarrow> u8 \<Rightarrow> bytes \<Rightarrow> bytes" where
  "flow_encode flow_id seq flags payload =
     write_u32_le (write_u32_le [] flow_id) seq @ [flags] @ payload"

definition flow_flags_valid :: "u8 \<Rightarrow> bool" where
  "flow_flags_valid flags = (FLAG_OPEN \<le> flags \<and> flags \<le> FLAG_DATAGRAM)"

definition flow_decode :: "bytes \<Rightarrow> FlowMsg option option" where
  "flow_decode buf =
     (if length buf < FLOW_HEADER then Some None
      else do {
        flags \<leftarrow> idx buf 8;
        if \<not> flow_flags_valid flags then Some None
        else do {
          flow_id \<leftarrow> read_u32_le buf;
          b4 \<leftarrow> slice_from buf 4;
          seq \<leftarrow> read_u32_le b4;
          payload \<leftarrow> slice_from buf 9;
          Some (Some \<lparr>fm_flow_id = flow_id, fm_seq = seq, fm_flags = flags,
                      fm_payload = payload\<rparr>) } })"

definition build_open :: "u8 \<Rightarrow> string \<Rightarrow> bytes" where
  "build_open proto addr = [proto, of_nat (length addr)] @ as_bytes addr"

definition parse_open :: "bytes \<Rightarrow> (u8 \<times> string) option option" where
  "parse_open payload =
     (if length payload < 3 then Some None
      else do {
        proto \<leftarrow> idx payload 0;
        if proto \<noteq> PROTO_TCP \<and> proto \<noteq> PROTO_UDP then Some None
        else do {
          addr_len \<leftarrow> idx payload 1;
          if length payload \<noteq> 2 + unat addr_len then Some None
          else do {
            rest \<leftarrow> slice_from payload 2;
            (case from_utf8 rest of
               None \<Rightarrow> Some None
             | Some addr \<Rightarrow>
                 if CHR '':'' \<notin> set addr then Some None else Some (Some (proto, addr))) } } })"

definition build_opened_fail :: "string \<Rightarrow> bytes" where
  "build_opened_fail reason =
     (let b = as_bytes reason; len = min (length b) REASON_MAX in of_nat len # take len b)"

definition build_datagram :: "string \<Rightarrow> bytes \<Rightarrow> bytes" where
  "build_datagram addr data = of_nat (length addr) # as_bytes addr @ data"

definition parse_datagram :: "bytes \<Rightarrow> (string \<times> bytes) option option" where
  "parse_datagram payload =
     (case payload of
        [] \<Rightarrow> Some None
      | l # _ \<Rightarrow>
          (let addr_len = unat l in
           if length payload < 1 + addr_len then Some None
           else do {
             a \<leftarrow> slice payload 1 (1 + addr_len);
             (case from_utf8 a of
                None \<Rightarrow> Some None
              | Some addr \<Rightarrow>
                  if CHR '':'' \<notin> set addr then Some None
                  else do {
                    data \<leftarrow> slice_from payload (1 + addr_len);
                    Some (Some (addr, data)) }) }))"

section \<open>Round trips and totality\<close>

lemma unat_of_nat_u8: "n < 256 \<Longrightarrow> unat (of_nat n :: u8) = n"
  by (simp add: unat_of_nat)

lemma flow_decode_encode:
  "flow_flags_valid flags \<Longrightarrow>
   flow_decode (flow_encode i s flags p) =
     Some (Some \<lparr>fm_flow_id = i, fm_seq = s, fm_flags = flags, fm_payload = p\<rparr>)"
  by (simp add: flow_decode_def flow_encode_def write_u32_le_def FLOW_HEADER_def idx_def
      slice_from_def nth_append)

lemma flow_decode_total: "\<exists>r. flow_decode buf = Some r"
  by (auto simp: flow_decode_def FLOW_HEADER_def idx_def slice_from_def read_u32_le_val)

lemma parse_open_build:
  assumes "proto = PROTO_TCP \<or> proto = PROTO_UDP" and "wf_str addr" and "CHR '':'' \<in> set addr"
    and "length addr < 256"
  shows "parse_open (build_open proto addr) = Some (Some (proto, addr))"
proof -
  have "addr \<noteq> []" using assms(3) by auto
  then have "\<not> length (build_open proto addr) < 3" by (cases addr) (simp_all add: build_open_def)
  then show ?thesis
    using assms by (auto simp: parse_open_def build_open_def idx_def slice_from_def
        unat_of_nat_u8 from_utf8_as_bytes)
qed

lemma parse_open_total: "\<exists>r. parse_open p = Some r"
  by (auto simp: parse_open_def idx_def slice_from_def split: option.splits)

lemma parse_open_Some:
  assumes "parse_open p = Some (Some (proto, addr))"
  shows "proto \<in> {PROTO_TCP, PROTO_UDP} \<and> CHR '':'' \<in> set addr"
  using assms
  by (auto simp: parse_open_def split: option.splits if_splits Option.bind_splits)

lemma parse_datagram_build:
  assumes "wf_str addr" and "CHR '':'' \<in> set addr" and "length addr < 256"
  shows "parse_datagram (build_datagram addr data) = Some (Some (addr, data))"
  using assms
  by (simp add: parse_datagram_def build_datagram_def slice_def slice_from_def unat_of_nat_u8
      from_utf8_as_bytes)

lemma parse_datagram_total: "\<exists>r. parse_datagram p = Some r"
  by (auto simp: parse_datagram_def slice_def slice_from_def Let_def split: list.splits option.splits)

interpretation flow_frame: codec "\<lambda>(i, s, f, p). flow_encode i s f p"
  "\<lambda>b. Option.bind (flow_decode b) id"
  "\<lambda>(i, s, f, p). \<lparr>fm_flow_id = i, fm_seq = s, fm_flags = f, fm_payload = p\<rparr>"
  "\<lambda>(i, s, f, p). flow_flags_valid f"
  by unfold_locales (auto simp: flow_decode_encode)

interpretation flow_open: codec "\<lambda>(p, a). build_open p a" "\<lambda>b. Option.bind (parse_open b) id" id
  "\<lambda>(p, a). (p = PROTO_TCP \<or> p = PROTO_UDP) \<and> wf_str a \<and> CHR '':'' \<in> set a \<and> length a < 256"
  by unfold_locales (auto simp: parse_open_build)

interpretation flow_datagram: codec "\<lambda>(a, d). build_datagram a d"
  "\<lambda>b. Option.bind (parse_datagram b) id" id
  "\<lambda>(a, d). wf_str a \<and> CHR '':'' \<in> set a \<and> length a < 256"
  by unfold_locales (auto simp: parse_datagram_build)

text \<open>
  Every FLOW message, OPEN payload and DATAGRAM payload that the
  builders make from legal fields parses back to exactly those fields; and on any
  bytes at all the three parsers return without a panic.
\<close>
theorem flow_protocol_roundtrip:
  "(flow_flags_valid f \<longrightarrow> flow_decode (flow_encode i s f p) =
      Some (Some \<lparr>fm_flow_id = i, fm_seq = s, fm_flags = f, fm_payload = p\<rparr>))
   \<and> (wf_str addr \<and> CHR '':'' \<in> set addr \<and> length addr < 256 \<longrightarrow>
        parse_datagram (build_datagram addr data) = Some (Some (addr, data))
        \<and> (proto = PROTO_TCP \<or> proto = PROTO_UDP \<longrightarrow>
             parse_open (build_open proto addr) = Some (Some (proto, addr))))
   \<and> flow_decode b \<noteq> None \<and> parse_open b \<noteq> None \<and> parse_datagram b \<noteq> None"
  using flow_decode_encode parse_open_build parse_datagram_build
    flow_decode_total [of b] parse_open_total [of b] parse_datagram_total [of b]
  by auto

theorem flow_protocol_roundtrip_witness:
  "parse_open (build_open 1 ''10.0.0.1:80'') = Some (Some (1, ''10.0.0.1:80''))
   \<and> parse_datagram (build_datagram ''10.0.0.1:80'' [7, 8]) = Some (Some (''10.0.0.1:80'', [7, 8]))
   \<and> flow_decode (flow_encode 5 0 6 [1]) =
      Some (Some \<lparr>fm_flow_id = 5, fm_seq = 0, fm_flags = 6, fm_payload = [1]\<rparr>)"
proof -
  have "wf_str ''10.0.0.1:80''"
    unfolding wf_str_def by (rule utf8_valid_ascii) (simp add: as_bytes_def)
  then show ?thesis
    using flow_protocol_roundtrip [of 6 5 0 "[1]" "''10.0.0.1:80''" "[7, 8]" 1]
    by (simp add: flow_flags_valid_def flow_consts)
qed

end
