(* ===== verification/Ipam.thy ===== *)
theory Ipam
  imports Rust_Std
begin

text \<open>
  crates/skiff-core/src/ipam.rs: IPv4 subnet arithmetic on u32 and the address
  pool of a network.
\<close>

record Cidr =
  ci_network :: u32
  ci_prefix :: u32

datatype CidrError =
    CidrExpectedSlash string
  | CidrBadAddress string
  | CidrBadPrefix string
  | CidrPrefixRange u32

definition mask_of :: "u32 \<Rightarrow> u32" where
  "mask_of p = (if p = 0 then 0 else push_bit (unat (32 - p)) (- 1))"

definition cidr_new :: "u32 \<Rightarrow> u32 \<Rightarrow> Cidr" where
  "cidr_new net p = \<lparr>ci_network = net AND mask_of p, ci_prefix = p\<rparr>"

definition cidr_parse :: "string \<Rightarrow> CidrError + Cidr" where
  "cidr_parse text =
     (case split_once CHR ''/'' text of
        None \<Rightarrow> Inl (CidrExpectedSlash text)
      | Some (addr_part, prefix_part) \<Rightarrow>
          (case parse_ipv4 addr_part of
             None \<Rightarrow> Inl (CidrBadAddress addr_part)
           | Some addr \<Rightarrow>
               (case parse_u32 prefix_part of
                  None \<Rightarrow> Inl (CidrBadPrefix prefix_part)
                | Some p \<Rightarrow> if 32 < p then Inl (CidrPrefixRange p) else Inr (cidr_new addr p))))"

definition netmask :: "Cidr \<Rightarrow> u32" where
  "netmask c = mask_of (ci_prefix c)"

definition broadcast :: "Cidr \<Rightarrow> u32" where
  "broadcast c = ci_network c OR NOT (netmask c)"

definition host_count :: "Cidr \<Rightarrow> u64" where
  "host_count c =
     (if 31 \<le> ci_prefix c then push_bit (unat (32 - ci_prefix c)) 1
      else push_bit (unat (32 - ci_prefix c)) 1 - 2)"

definition first_host :: "Cidr \<Rightarrow> u32" where
  "first_host c = (if 31 \<le> ci_prefix c then ci_network c else ci_network c + 1)"

definition last_host :: "Cidr \<Rightarrow> u32" where
  "last_host c = (if 31 \<le> ci_prefix c then broadcast c else broadcast c - 1)"

definition cidr_contains :: "Cidr \<Rightarrow> u32 \<Rightarrow> bool" where
  "cidr_contains c addr = (addr AND netmask c = ci_network c)"

definition cidr_display :: "Cidr \<Rightarrow> string" where
  "cidr_display c = show_ipv4 (ci_network c) @ ''/'' @ dec_of_nat (unat (ci_prefix c))"

text \<open>The loop of IpPool::allocate, from a candidate to the exclusive end.\<close>

function allocate_from :: "u32 \<Rightarrow> u32 \<Rightarrow> u32 set \<Rightarrow> u32 option" where
  "allocate_from candidate stop used =
     (if candidate < stop then
        (if candidate \<notin> used then Some candidate else allocate_from (candidate + 1) stop used)
      else None)"
  by pat_completeness auto

lemma unat_Suc_u32: "(c :: u32) < e \<Longrightarrow> unat (c + 1) = unat c + 1"
  using unsigned_less [of e, where ?'a = nat]
  by (simp add: unat_word_ariths(1) word_less_nat_alt)

termination allocate_from
  by (relation "measure (\<lambda>(c, e, _). unat e - unat c)")
     (auto simp: unat_Suc_u32 word_less_nat_alt)

declare allocate_from.simps [simp del]

definition allocate :: "Cidr \<Rightarrow> u32 set \<Rightarrow> u32 option" where
  "allocate c used =
     (if 31 \<le> ci_prefix c then None else allocate_from (ci_network c + 1) (broadcast c) used)"

datatype IpError =
    IpNotAnAddress string
  | IpOutside u32 u32 u32
  | IpIsNetwork u32
  | IpIsBroadcast u32
  | IpTaken u32

definition validate_manual :: "string \<Rightarrow> Cidr \<Rightarrow> u32 set \<Rightarrow> u32 option \<Rightarrow> IpError + u32" where
  "validate_manual ip_text c used current =
     (case parse_ipv4 ip_text of
        None \<Rightarrow> Inl (IpNotAnAddress ip_text)
      | Some bits \<Rightarrow>
          if \<not> cidr_contains c bits then Inl (IpOutside bits (ci_network c) (ci_prefix c))
          else if bits = ci_network c then Inl (IpIsNetwork bits)
          else if ci_prefix c < 31 \<and> bits = broadcast c then Inl (IpIsBroadcast bits)
          else if Some bits \<noteq> current \<and> bits \<in> used then Inl (IpTaken bits)
          else Inr bits)"

section \<open>A block as an interval of numbers\<close>

definition wf_cidr :: "Cidr \<Rightarrow> bool" where
  "wf_cidr c = (ci_prefix c \<le> 32 \<and> ci_network c AND mask_of (ci_prefix c) = ci_network c)"

definition host_bits :: "Cidr \<Rightarrow> nat" where
  "host_bits c = 32 - unat (ci_prefix c)"

lemma mask_of_eq: "p \<le> 32 \<Longrightarrow> mask_of p = push_bit (32 - unat p) (- 1)"
  by (cases "p = 0")
     (auto simp: mask_of_def unat_sub bit_not_iff bit_mask_iff intro!: bit_word_eqI)

lemma unat_take_bit: "unat (take_bit h (a :: u32)) = unat a mod 2 ^ h"
  by (metis take_bit_eq_mod unsigned_take_bit_eq)

lemma unat_mask_u32:
  assumes "h \<le> 32"
  shows "unat (mask h :: u32) = 2 ^ h - 1"
proof -
  have "(2 :: nat) ^ h \<le> 2 ^ 32" using assms by (intro power_increasing) auto
  moreover have "0 < (2 :: nat) ^ h" by simp
  ultimately have "(2 :: nat) ^ h - 1 < 2 ^ 32" by linarith
  then have "unat (of_nat (2 ^ h - 1) :: u32) = 2 ^ h - 1" unfolding unat_of_nat by simp
  moreover have "(mask h :: u32) = of_nat (2 ^ h - 1)"
    by (simp add: mask_eq_exp_minus_1)
  ultimately show ?thesis by metis
qed

lemma wf_cidr_new [simp]: "p \<le> 32 \<Longrightarrow> wf_cidr (cidr_new net p)"
  by (simp add: wf_cidr_def cidr_new_def and.assoc)

lemma unat_and_mask_of:
  assumes "p \<le> 32"
  shows "unat (a AND mask_of p) = unat a - unat a mod 2 ^ (32 - unat p)"
proof -
  let ?h = "32 - unat p"
  have "a AND mask_of p = push_bit ?h (drop_bit ?h a)"
    by (rule bit_word_eqI) (auto simp: mask_of_eq [OF assms] bit_and_iff bit_push_bit_iff bit_drop_bit_eq
          bit_not_iff bit_mask_iff)
  also have "\<dots> = a - take_bit ?h a" by (metis add_diff_cancel_right' bits_ident)
  finally have "a AND mask_of p = a - take_bit ?h a" .
  moreover have "unat (take_bit ?h a) = unat a mod 2 ^ ?h" by (rule unat_take_bit)
  moreover have "take_bit ?h a \<le> a"
    using calculation(2) by (simp add: word_le_nat_alt)
  ultimately show ?thesis by (simp add: unat_sub)
qed

lemma wf_cidr_network:
  assumes "wf_cidr c"
  shows "unat (ci_network c) mod 2 ^ host_bits c = 0"
proof -
  have "unat (ci_network c) - unat (ci_network c) mod 2 ^ host_bits c = unat (ci_network c)"
    using assms unat_and_mask_of [of "ci_prefix c" "ci_network c"] by (simp add: wf_cidr_def host_bits_def)
  moreover have "unat (ci_network c) mod 2 ^ host_bits c \<le> unat (ci_network c)" by simp
  ultimately show ?thesis by linarith
qed

lemma host_bits_le: "host_bits c \<le> 32"
  by (simp add: host_bits_def)

lemma cidr_contains_iff_div:
  assumes "wf_cidr c"
  shows "cidr_contains c a \<longleftrightarrow>
     unat a div 2 ^ host_bits c = unat (ci_network c) div 2 ^ host_bits c"
proof -
  define m where "m = (2 :: nat) ^ host_bits c"
  have n0: "unat (ci_network c) mod m = 0" using wf_cidr_network [OF assms] by (simp add: m_def)
  have "cidr_contains c a \<longleftrightarrow> unat (a AND netmask c) = unat (ci_network c)"
    by (simp add: cidr_contains_def word_unat_eq_iff)
  also have "\<dots> \<longleftrightarrow> unat a - unat a mod m = unat (ci_network c)"
    using assms by (simp add: netmask_def unat_and_mask_of wf_cidr_def m_def host_bits_def)
  also have "\<dots> \<longleftrightarrow> unat a div m * m = unat (ci_network c) div m * m"
    using n0 div_mult_mod_eq [of "unat (ci_network c)" m] by (simp add: minus_mod_eq_div_mult)
  also have "\<dots> \<longleftrightarrow> unat a div m = unat (ci_network c) div m" by (simp add: m_def)
  finally show ?thesis by (simp add: m_def)
qed

lemma unat_broadcast:
  assumes "wf_cidr c"
  shows "unat (broadcast c) = unat (ci_network c) + 2 ^ host_bits c - 1"
proof -
  let ?h = "host_bits c"
  have nm: "NOT (netmask c) = mask ?h"
    using assms
    by (intro bit_word_eqI) (auto simp: netmask_def mask_of_eq wf_cidr_def host_bits_def bit_not_iff
        bit_push_bit_iff bit_mask_iff)
  have t: "take_bit ?h (ci_network c) = 0"
    using wf_cidr_network [OF assms] unat_take_bit [of ?h "ci_network c"] by (metis unat_eq_zero)
  have "broadcast c = ci_network c + mask ?h"
    unfolding broadcast_def nm
  proof (rule disjunctive_add_eq_or [symmetric])
    show "ci_network c AND mask ?h = 0" using t by (simp add: take_bit_eq_mask)
  qed
  moreover have "unat (ci_network c) div 2 ^ ?h * 2 ^ ?h = unat (ci_network c)"
    using wf_cidr_network [OF assms] by auto
  moreover have um: "unat (mask ?h :: u32) = 2 ^ ?h - 1"
    using host_bits_le [of c] by (rule unat_mask_u32)
  moreover have "unat (ci_network c) + (2 ^ ?h - 1) < 2 ^ 32"
  proof -
    define m where "m = (2 :: nat) ^ ?h"
    have m: "2 ^ 32 = m * 2 ^ (32 - ?h)" "0 < m"
      using host_bits_le [of c] by (simp_all add: m_def flip: power_add)
    have "unat (ci_network c) < m * 2 ^ (32 - ?h)"
      using unsigned_less [of "ci_network c", where ?'a = nat] m(1) by simp
    then have "unat (ci_network c) div m < 2 ^ (32 - ?h)"
      by (simp add: less_mult_imp_div_less mult.commute)
    then have "unat (ci_network c) div m * m + m \<le> m * 2 ^ (32 - ?h)"
      by (metis Suc_leI mult_Suc mult.commute add.commute mult_le_mono1)
    then show ?thesis using m calculation(2) by (simp add: m_def)
  qed
  ultimately show ?thesis by (simp add: unat_word_ariths(1))
qed

lemma cidr_contains_range:
  assumes "wf_cidr c"
  shows "(cidr_contains c a \<longleftrightarrow> ci_network c \<le> a \<and> a \<le> broadcast c)
       \<and> unat (broadcast c) = unat (ci_network c) + 2 ^ (32 - unat (ci_prefix c)) - 1"
proof -
  define m n where "m = (2 :: nat) ^ host_bits c" and "n = unat (ci_network c)"
  have n: "n mod m = 0" "0 < m" using wf_cidr_network [OF assms] by (auto simp: m_def n_def)
  then have q: "n = m * (n div m)" by auto
  have "unat a div m = n div m \<longleftrightarrow> n \<le> unat a \<and> unat a \<le> n + m - 1"
  proof
    assume "unat a div m = n div m"
    then have "unat a = n + unat a mod m"
      using q div_mult_mod_eq [of "unat a" m] by (simp add: mult.commute)
    then show "n \<le> unat a \<and> unat a \<le> n + m - 1" using mod_less_divisor [OF n(2), of "unat a"] by simp
  next
    assume "n \<le> unat a \<and> unat a \<le> n + m - 1"
    then have "m * (n div m) \<le> unat a" "unat a < m * Suc (n div m)" using q n(2) by auto
    then show "unat a div m = n div m" by (simp add: div_nat_eqI mult.commute)
  qed
  then show ?thesis
    using assms
    by (simp add: cidr_contains_iff_div unat_broadcast word_le_nat_alt m_def n_def host_bits_def)
qed

text \<open>
  A well-formed block contains exactly the addresses from its network
  address to its broadcast address, and these are \<open>2 ^ (32 - prefix)\<close> many.
\<close>
theorem cidr_contains_iff:
  assumes "wf_cidr c"
  shows "(cidr_contains c a \<longleftrightarrow> ci_network c \<le> a \<and> a \<le> broadcast c)
       \<and> unat (broadcast c) = unat (ci_network c) + 2 ^ (32 - unat (ci_prefix c)) - 1"
  using assms by (rule cidr_contains_range)

section \<open>Allocation\<close>

lemma allocate_from_spec:
  "case allocate_from c e used of
     Some a \<Rightarrow> c \<le> a \<and> a < e \<and> a \<notin> used \<and> (\<forall>b. c \<le> b \<and> b < a \<longrightarrow> b \<in> used)
   | None \<Rightarrow> \<forall>b. c \<le> b \<and> b < e \<longrightarrow> b \<in> used"
proof (induction c e used rule: allocate_from.induct)
  case (1 c e used)
  consider "\<not> c < e" | "c < e" "c \<notin> used" | "c < e" "c \<in> used" by blast
  then show ?case
  proof cases
    case 3
    have nxt: "c + 1 \<le> b \<longleftrightarrow> c \<le> b \<and> c \<noteq> b" for b
      using unat_Suc_u32 [OF 3(1)] by (auto simp: word_le_nat_alt word_unat_eq_iff)
    have "allocate_from c e used = allocate_from (c + 1) e used"
      using 3 by (subst allocate_from.simps) simp
    then show ?thesis using 1 3 nxt by (auto split: option.splits)
  qed (auto simp: allocate_from.simps [of c])
qed

lemma wf_cidr_range: "wf_cidr c \<Longrightarrow> ci_network c \<le> broadcast c"
  using zero_less_power [of "2 :: nat" "host_bits c"] unat_broadcast [of c]
  unfolding word_le_nat_alt by linarith

text \<open>
  The allocator returns the lowest host address that is not in use; it
  returns none exactly when the block has no host range (/31 and longer) or every
  host address is in use. The network and broadcast addresses are never handed out.
\<close>
theorem allocate_lowest_free:
  assumes "wf_cidr c"
  shows "case allocate c used of
           Some a \<Rightarrow> ci_network c < a \<and> a < broadcast c \<and> cidr_contains c a \<and> a \<notin> used
              \<and> (\<forall>b. ci_network c < b \<and> b < a \<longrightarrow> b \<in> used)
         | None \<Rightarrow> 31 \<le> ci_prefix c \<or> (\<forall>b. ci_network c < b \<and> b < broadcast c \<longrightarrow> b \<in> used)"
proof (cases "31 \<le> ci_prefix c")
  case False
  then have h: "2 \<le> host_bits c" by (simp add: host_bits_def word_le_nat_alt)
  then have "(2 :: nat) ^ 2 \<le> 2 ^ host_bits c" by (rule power_increasing) simp
  then have "ci_network c < broadcast c"
    using unat_broadcast [OF assms] by (simp add: word_less_nat_alt)
  then have "ci_network c + 1 \<le> b \<longleftrightarrow> ci_network c < b" for b
    using unat_Suc_u32 by (simp add: word_le_nat_alt word_less_nat_alt Suc_le_eq)
  then show ?thesis
    using allocate_from_spec [of "ci_network c + 1" "broadcast c" used] False
      cidr_contains_range [OF assms]
    by (auto simp: allocate_def split: option.splits)
qed (simp add: allocate_def)

definition example_cidr :: Cidr where
  "example_cidr = \<lparr>ci_network = 0x0A0A0000, ci_prefix = 24\<rparr>"

lemma wf_example_cidr: "wf_cidr example_cidr"
  by (simp add: wf_cidr_def example_cidr_def mask_of_def mask_eq_exp_minus_1)

theorem cidr_contains_iff_witness:
  "(cidr_contains example_cidr 0x0A0A0080 \<longleftrightarrow>
      ci_network example_cidr \<le> 0x0A0A0080 \<and> 0x0A0A0080 \<le> broadcast example_cidr)
   \<and> unat (broadcast example_cidr) = 0x0A0A00FF"
  using cidr_contains_iff [OF wf_example_cidr, of "0x0A0A0080"]
  by (simp add: example_cidr_def)

theorem allocate_lowest_free_witness:
  "allocate example_cidr {0x0A0A0001} = Some 0x0A0A0002 \<and> cidr_contains example_cidr 0x0A0A0002"
proof -
  have "allocate example_cidr {0x0A0A0001} = Some 0x0A0A0002"
    by (simp add: allocate_def example_cidr_def broadcast_def netmask_def mask_of_def
        allocate_from.simps mask_eq_exp_minus_1)
  then show ?thesis using allocate_lowest_free [OF wf_example_cidr, of "{0x0A0A0001}"] by simp
qed

section \<open>Manual assignment\<close>

text \<open>
  A manually requested address is accepted iff it parses, lies in the
  block, is not the network address, is not the broadcast address of a block
  with one, and is free or already the device's own.
\<close>
theorem validate_manual_iff:
  "validate_manual s c used current = Inr a \<longleftrightarrow>
     parse_ipv4 s = Some a \<and> cidr_contains c a \<and> a \<noteq> ci_network c
     \<and> (ci_prefix c < 31 \<longrightarrow> a \<noteq> broadcast c) \<and> (current = Some a \<or> a \<notin> used)"
  by (auto simp: validate_manual_def split: option.splits)

section \<open>Text form\<close>

lemma cidr_parse_wf: "cidr_parse s = Inr c \<Longrightarrow> wf_cidr c"
  by (auto simp: cidr_parse_def not_less split: option.splits if_splits)

lemma cidr_new_wf [simp]: "wf_cidr c \<Longrightarrow> cidr_new (ci_network c) (ci_prefix c) = c"
  by (simp add: cidr_new_def wf_cidr_def)

lemma slash_notin_show_ipv4: "CHR ''/'' \<notin> set (show_ipv4 a)"
  using dec_of_nat_clean(4) by (auto simp: show_ipv4_def)

lemma cidr_parse_display_aux:
  assumes "wf_cidr c"
  shows "cidr_parse (cidr_display c) = Inr c"
proof -
  have "unat (ci_prefix c) \<le> 4294967295"
    using unsigned_less [of "ci_prefix c", where ?'a = nat] by simp
  then have "parse_u32 (dec_of_nat (unat (ci_prefix c))) = Some (ci_prefix c)"
    by (simp add: parse_u32_def parse_unsigned_dec)
  then show ?thesis
    using assms slash_notin_show_ipv4
    by (auto simp: cidr_parse_def cidr_display_def split_once_append parse_show_ipv4 wf_cidr_def
        cidr_new_def)
qed

interpretation cidr_text: codec cidr_display
  "\<lambda>s. case cidr_parse s of Inr c \<Rightarrow> Some c | Inl _ \<Rightarrow> None" id wf_cidr
  by unfold_locales (simp add: cidr_parse_display_aux)

text \<open>
  Parsing the text form of a well-formed block gives the block back,
  and every block that parses is well-formed, so the text form loses nothing.
\<close>
theorem cidr_text_roundtrip:
  assumes "cidr_parse s = Inr c"
  shows "wf_cidr c \<and> cidr_parse (cidr_display c) = Inr c
         \<and> (\<forall>d. wf_cidr d \<and> cidr_display d = cidr_display c \<longrightarrow> d = c)"
  using cidr_parse_wf [OF assms] cidr_text.enc_inj cidr_parse_display_aux by auto

theorem cidr_text_roundtrip_witness:
  "wf_cidr example_cidr \<and> cidr_parse (cidr_display example_cidr) = Inr example_cidr"
  using cidr_text_roundtrip [OF cidr_parse_display_aux [OF wf_example_cidr]] by blast

section \<open>The interface to the address pool\<close>

text \<open>
  What an address book asks of a pool: automatic and manual choices are host
  addresses of the block that nobody uses.
\<close>

locale address_pool =
  fixes wf :: "'c \<Rightarrow> bool"
    and host :: "'c \<Rightarrow> 'a \<Rightarrow> bool"
    and auto_pick :: "'c \<Rightarrow> 'a set \<Rightarrow> 'a option"
    and manual_pick :: "string \<Rightarrow> 'c \<Rightarrow> 'a set \<Rightarrow> 'e + 'a"
  assumes auto_ok: "wf c \<Longrightarrow> auto_pick c used = Some a \<Longrightarrow> host c a \<and> a \<notin> used"
    and manual_ok: "wf c \<Longrightarrow> manual_pick s c used = Inr a \<Longrightarrow> host c a \<and> a \<notin> used"
begin

lemma pick_ok:
  assumes "wf c" and "(case req of Some s \<Rightarrow> manual_pick s c used
                        | None \<Rightarrow> (case auto_pick c used of None \<Rightarrow> Inl e | Some a \<Rightarrow> Inr a)) = Inr a"
  shows "host c a \<and> a \<notin> used"
  using assms auto_ok manual_ok by (auto split: option.splits)

end

definition host_ok :: "Cidr \<Rightarrow> u32 \<Rightarrow> bool" where
  "host_ok c a = (cidr_contains c a \<and> a \<noteq> ci_network c \<and> (ci_prefix c < 31 \<longrightarrow> a \<noteq> broadcast c))"

lemma allocate_host:
  assumes "wf_cidr c" "allocate c used = Some a"
  shows "host_ok c a \<and> a \<notin> used"
proof -
  have "ci_prefix c < 31" using assms(2) by (auto simp: allocate_def split: if_splits)
  then have "allocate_from (ci_network c + 1) (broadcast c) used = Some a"
    using assms(2) by (simp add: allocate_def split: if_splits)
  then have a: "ci_network c + 1 \<le> a" "a < broadcast c" "a \<notin> used"
    using allocate_from_spec [of "ci_network c + 1" "broadcast c" used] by simp_all
  have h: "1 \<le> host_bits c"
    using \<open>ci_prefix c < 31\<close> by (simp add: host_bits_def word_less_nat_alt)
  then have "(2 :: nat) ^ 1 \<le> 2 ^ host_bits c" by (intro power_increasing) auto
  then have "ci_network c < broadcast c"
    using unat_broadcast [OF assms(1)] by (simp add: word_less_nat_alt)
  then have "unat (ci_network c + 1) = unat (ci_network c) + 1" by (rule unat_Suc_u32)
  then have "ci_network c < a" using a(1) by (simp add: word_less_nat_alt word_le_nat_alt)
  then have "host_ok c a"
    using a(2) cidr_contains_range [OF assms(1), of a] by (auto simp: host_ok_def)
  then show ?thesis using a(3) by simp
qed

interpretation ipv4_pool: address_pool wf_cidr host_ok allocate "\<lambda>s c used. validate_manual s c used None"
  by unfold_locales (use allocate_host in \<open>auto simp: validate_manual_def host_ok_def split: option.splits if_splits\<close>)

end
