(* ===== verification/Consts.thy ===== *)
theory Consts
  imports Prelude
begin

text \<open>
  Constants the server and the node share: crates/skiff-core/src/consts.rs and the
  event names of models.rs (ws\_events).
\<close>

definition HEARTBEAT_SLOW_SECS :: u32 where "HEARTBEAT_SLOW_SECS = 15"
definition DEFAULT_MTU :: u32 where "DEFAULT_MTU = 1300"
definition HEARTBEAT_FAST_SECS :: u32 where "HEARTBEAT_FAST_SECS = 5"
definition ADMIN_OBSERVER_TTL_MS :: millis where "ADMIN_OBSERVER_TTL_MS = 12000"
definition HEARTBEAT_MIN_SECS :: u32 where "HEARTBEAT_MIN_SECS = 5"
definition HEARTBEAT_MAX_SECS :: u32 where "HEARTBEAT_MAX_SECS = 60"
definition PROTOCOL_VERSION :: u32 where "PROTOCOL_VERSION = 1"

definition PEERS_CHANGED :: string where "PEERS_CHANGED = ''peers_changed''"
definition DEVICE_ONLINE :: string where "DEVICE_ONLINE = ''device_online''"
definition DEVICE_OFFLINE :: string where "DEVICE_OFFLINE = ''device_offline''"
definition CONFIG_CHANGED :: string where "CONFIG_CHANGED = ''config_changed''"
definition SETTINGS_CHANGED :: string where "SETTINGS_CHANGED = ''settings_changed''"
definition RESTART_REQUESTED :: string where "RESTART_REQUESTED = ''restart_requested''"
definition RECONNECT_REQUESTED :: string where "RECONNECT_REQUESTED = ''reconnect_requested''"
definition NETWORKS_CHANGED :: string where "NETWORKS_CHANGED = ''networks_changed''"
definition CONNECTED :: string where "CONNECTED = ''connected''"

end
