(* ===== verification/Models.thy ===== *)
theory Models
  imports Rust_Std Consts
begin

text \<open>
  crates/skiff-core/src/models.rs: the data shared by server and node, and the
  validation of server-managed device settings. Hexadecimal coding of network
  ids is a third-party crate and a parameter where it is used; JSON
  (de)serialisation is not modelled.
\<close>

type_synonym NetId = bytes

datatype PathPolicy = Auto | RelayUdp | RelayTcp | DirectAny | DirectUdp | DirectTcp

datatype ClientMode = Tun | Proxy

datatype ProtoKind = Udp | Tcp

datatype ListenProto = ListenTcp | ListenUdp

definition client_mode_str :: "ClientMode \<Rightarrow> string" where
  "client_mode_str m = (case m of Tun \<Rightarrow> ''tun'' | Proxy \<Rightarrow> ''proxy'')"

definition proto_kind_str :: "ProtoKind \<Rightarrow> string" where
  "proto_kind_str m = (case m of Tcp \<Rightarrow> ''tcp'' | Udp \<Rightarrow> ''udp'')"

text \<open>The serde rule of ProtoKind: any unknown text reads as Tcp.\<close>

definition proto_kind_of_str :: "string \<Rightarrow> ProtoKind" where
  "proto_kind_of_str s = (if s = ''udp'' then Udp else Tcp)"

record PeerPolicy =
  pp_device_id :: string
  pp_policy :: PathPolicy

record ForwardRule =
  fr_listen :: string
  fr_proto :: ProtoKind
  fr_dest :: string

record ExposeRule =
  er_port :: u16
  er_proto :: ProtoKind
  er_dest :: string

record NetworkExposes =
  ne_network_id :: NetId
  ne_rules :: "ExposeRule list"

record DeviceSettings =
  ds_revision :: int
  ds_path_policy :: "PathPolicy option"
  ds_peer_policies :: "PeerPolicy list option"
  ds_mode :: "ClientMode option"
  ds_listen :: "string list option"
  ds_mtu :: "u32 option"
  ds_socks_listen :: "string option"
  ds_forwards :: "ForwardRule list option"
  ds_exposes :: "NetworkExposes list option"

record PeerPathReport =
  pr_device_id :: string
  pr_path :: string
  pr_rtt_ms :: "int option"
  pr_tx_bps :: "u64 option"
  pr_rx_bps :: "u64 option"
  pr_rx_loss :: "u16 option"

record HeartbeatRequest =
  hb_local_addrs :: "string list"
  hb_listen_udp_port :: "u16 option"
  hb_listen_tcp_port :: "u16 option"
  hb_paths :: "PeerPathReport list option"
  hb_settings_revision :: "int option"
  hb_restart_pending :: "bool option"
  hb_mode :: "ClientMode option"
  hb_proto_version :: "u32 option"
  hb_node_version :: "string option"

record WsEvent =
  ev_type :: string
  ev_network_id :: "NetId option"
  ev_device_id :: "u64 option"
  ev_message :: "string option"

record PeerInfo =
  pi_device_id :: u64
  pi_name :: string
  pi_network_id :: NetId
  pi_ip :: string
  pi_sign_pubkey :: string
  pi_dh_pubkey :: string
  pi_udp_endpoints :: "string list"
  pi_tcp_listen_port :: "u16 option"
  pi_online :: bool

record ConfigResponse =
  cr_device_id :: u64
  cr_name :: string
  cr_network_id :: NetId
  cr_network_name :: string
  cr_cidr :: string
  cr_ip :: string
  cr_mtu :: u32
  cr_relay_udp_port :: u16
  cr_relay_tcp_port :: u16

record MembershipInfo =
  mi_network_id :: NetId
  mi_network_name :: string
  mi_cidr :: string
  mi_ip :: string

record HeartbeatResponse =
  hr_observed_udp_endpoint :: "string option"
  hr_heartbeat_secs :: u32

definition netid_from_hex :: "(string \<Rightarrow> bytes option) \<Rightarrow> string \<Rightarrow> NetId option" where
  "netid_from_hex hexdec s = do {
     b \<leftarrow> hexdec s;
     if length b \<noteq> 16 then None else Some b }"

section \<open>Listen URLs\<close>

fun split_once_str :: "string \<Rightarrow> string \<Rightarrow> (string \<times> string) option" where
  "split_once_str p [] = (if p = [] then Some ([], []) else None)"
| "split_once_str p (x # xs) =
     (if take (length p) (x # xs) = p then Some ([], drop (length p) (x # xs))
      else map_option (\<lambda>(a, b). (x # a, b)) (split_once_str p xs))"

datatype ListenError = MissingScheme | BadScheme string | BadListenAddr string

definition parse_listen_url :: "string \<Rightarrow> ListenError + ListenProto \<times> SocketAddr" where
  "parse_listen_url s =
     (case split_once_str ''://'' s of
        None \<Rightarrow> Inl MissingScheme
      | Some (scheme, rest) \<Rightarrow>
          (let proto = (if scheme = ''tcp'' then Some ListenTcp
                        else if scheme = ''udp'' then Some ListenUdp else None) in
           case proto of
             None \<Rightarrow> Inl (BadScheme scheme)
           | Some p \<Rightarrow>
               (case parse_socket_addr rest of
                  None \<Rightarrow> Inl (BadListenAddr s)
                | Some addr \<Rightarrow> Inr (p, addr))))"

definition DEFAULT_LISTEN_PORT :: u16 where "DEFAULT_LISTEN_PORT = 24933"

definition default_listen :: "string list" where
  "default_listen =
     (let p = dec_of_nat (unat DEFAULT_LISTEN_PORT)
      in [''udp://0.0.0.0:'' @ p, ''tcp://0.0.0.0:'' @ p])"

definition parse_virtual_dest :: "string \<Rightarrow> (string \<times> u16) option" where
  "parse_virtual_dest dest = do {
     (host, port) \<leftarrow> rsplit_once CHR '':'' dest;
     port \<leftarrow> parse_u16 port;
     if host = [] \<or> port = 0 then None else Some (host, port) }"

section \<open>Validation of settings\<close>

datatype SettingsError =
    ListenTooMany
  | ListenInvalid nat ListenError
  | ListenDuplicate nat nat
  | MtuRange
  | SocksInvalid string
  | ForwardsTooMany
  | ForwardListenInvalid nat string
  | ForwardDestInvalid nat string
  | ExposesTooMany
  | ExposeRulesTooMany nat
  | ExposePortInvalid nat nat
  | ExposeDestInvalid nat nat string
  | ExposesDuplicate
  | PeerPoliciesTooMany
  | PeerPolicyDuplicate string

text \<open>A loop over a list with its index that returns at the first error.\<close>

fun first_error :: "(nat \<Rightarrow> 'a \<Rightarrow> 'e option) \<Rightarrow> nat \<Rightarrow> 'a list \<Rightarrow> 'e option" where
  "first_error f i [] = None"
| "first_error f i (x # xs) = (case f i x of Some e \<Rightarrow> Some e | None \<Rightarrow> first_error f (Suc i) xs)"

text \<open>The double loop that looks for two equal elements, i before j.\<close>

fun first_dup :: "nat \<Rightarrow> 'a list \<Rightarrow> (nat \<times> nat) option" where
  "first_dup i [] = None"
| "first_dup i (x # xs) =
     (case position (\<lambda>y. x = y) xs of Some k \<Rightarrow> Some (i, i + 1 + k) | None \<Rightarrow> first_dup (Suc i) xs)"

definition validate_listen :: "string list \<Rightarrow> SettingsError option" where
  "validate_listen list =
     (if 8 < length list then Some ListenTooMany
      else (case first_error (\<lambda>i item. case parse_listen_url item of
                    Inl e \<Rightarrow> Some (ListenInvalid i e) | Inr _ \<Rightarrow> None) 0 list of
              Some e \<Rightarrow> Some e
            | None \<Rightarrow> map_option (\<lambda>(i, j). ListenDuplicate i j) (first_dup 0 list)))"

definition validate_forwards :: "ForwardRule list \<Rightarrow> SettingsError option" where
  "validate_forwards forwards =
     (if 64 < length forwards then Some ForwardsTooMany
      else first_error (\<lambda>i f.
             if parse_socket_addr (fr_listen f) = None then Some (ForwardListenInvalid i (fr_listen f))
             else if parse_virtual_dest (fr_dest f) = None then Some (ForwardDestInvalid i (fr_dest f))
             else None) 0 forwards)"

definition validate_exposes :: "NetworkExposes list \<Rightarrow> SettingsError option" where
  "validate_exposes list =
     (if 32 < length list then Some ExposesTooMany
      else (case first_error (\<lambda>i ne.
                    if 64 < length (ne_rules ne) then Some (ExposeRulesTooMany i)
                    else first_error (\<lambda>j r.
                           if er_port r = 0 then Some (ExposePortInvalid i j)
                           else if parse_socket_addr (er_dest r) = None
                                then Some (ExposeDestInvalid i j (er_dest r))
                           else None) 0 (ne_rules ne)) 0 list of
              Some e \<Rightarrow> Some e
            | None \<Rightarrow> map_option (\<lambda>_. ExposesDuplicate) (first_dup 0 (map ne_network_id list))))"

definition validate_peer_policies :: "PeerPolicy list \<Rightarrow> SettingsError option" where
  "validate_peer_policies list =
     (if 64 < length list then Some PeerPoliciesTooMany
      else map_option (\<lambda>(i, _). PeerPolicyDuplicate (pp_device_id (list ! i)))
             (first_dup 0 (map pp_device_id list)))"

definition validate_mtu :: "u32 \<Rightarrow> SettingsError option" where
  "validate_mtu mtu = (if \<not> (576 \<le> mtu \<and> mtu \<le> 65500) then Some MtuRange else None)"

definition validate_socks :: "string \<Rightarrow> SettingsError option" where
  "validate_socks socks =
     (if socks \<noteq> [] \<and> parse_socket_addr socks = None then Some (SocksInvalid socks) else None)"

fun first_some :: "'e option list \<Rightarrow> 'e option" where
  "first_some [] = None"
| "first_some (r # rs) = (case r of Some e \<Rightarrow> Some e | None \<Rightarrow> first_some rs)"

definition validate_settings :: "DeviceSettings \<Rightarrow> SettingsError + unit" where
  "validate_settings s =
     (case first_some
             [Option.bind (ds_listen s) validate_listen,
              Option.bind (ds_mtu s) validate_mtu,
              Option.bind (ds_socks_listen s) validate_socks,
              Option.bind (ds_forwards s) validate_forwards,
              Option.bind (ds_exposes s) validate_exposes,
              Option.bind (ds_peer_policies s) validate_peer_policies] of
        Some e \<Rightarrow> Inl e
      | None \<Rightarrow> Inr ())"

definition settings_is_empty :: "DeviceSettings \<Rightarrow> bool" where
  "settings_is_empty s =
     (ds_path_policy s = None \<and> ds_peer_policies s = None \<and> ds_mode s = None \<and> ds_listen s = None
      \<and> ds_mtu s = None \<and> ds_socks_listen s = None \<and> ds_forwards s = None \<and> ds_exposes s = None)"

definition default_settings :: DeviceSettings where
  "default_settings =
     \<lparr>ds_revision = 0, ds_path_policy = None, ds_peer_policies = None, ds_mode = None,
      ds_listen = None, ds_mtu = None, ds_socks_listen = None, ds_forwards = None,
      ds_exposes = None\<rparr>"

section \<open>What validation guarantees\<close>

lemma first_error_None_all: "(\<And>x i. x \<in> set xs \<Longrightarrow> f i x = None \<longleftrightarrow> P x) \<Longrightarrow>
   first_error f j xs = None \<longleftrightarrow> (\<forall>x\<in>set xs. P x)"
proof (induction xs arbitrary: j)
  case (Cons x xs)
  have "f j x = None \<longleftrightarrow> P x" using Cons.prems by simp
  moreover have "first_error f (Suc j) xs = None \<longleftrightarrow> (\<forall>x\<in>set xs. P x)"
    using Cons by simp
  ultimately show ?case by (auto split: option.splits)
qed simp

lemma position_eq_None: "position (\<lambda>y. x = y) xs = None \<longleftrightarrow> x \<notin> set xs"
  by (auto simp: position_None_iff)

lemma first_dup_None: "first_dup i xs = None \<longleftrightarrow> distinct xs"
proof (induction xs arbitrary: i)
  case (Cons x xs)
  then show ?case using position_eq_None [of x xs] by (cases "position (\<lambda>y. x = y) xs") auto
qed simp

lemma first_some_None: "first_some rs = None \<longleftrightarrow> (\<forall>r\<in>set rs. r = None)"
  by (induction rs) (auto split: option.splits)

lemma validate_listen_None:
  "validate_listen l = None \<longleftrightarrow>
     length l \<le> 8 \<and> (\<forall>x\<in>set l. \<exists>r. parse_listen_url x = Inr r) \<and> distinct l"
proof -
  have "first_error (\<lambda>i item. case parse_listen_url item of
        Inl e \<Rightarrow> Some (ListenInvalid i e) | Inr _ \<Rightarrow> None) 0 l = None
      \<longleftrightarrow> (\<forall>x\<in>set l. \<exists>r. parse_listen_url x = Inr r)"
    by (rule first_error_None_all) (auto split: sum.splits)
  then show ?thesis
    by (auto simp: validate_listen_def first_dup_None split: option.splits)
qed

lemma validate_forwards_None:
  "validate_forwards l = None \<longleftrightarrow>
     length l \<le> 64 \<and> (\<forall>f\<in>set l. parse_socket_addr (fr_listen f) \<noteq> None
                                 \<and> parse_virtual_dest (fr_dest f) \<noteq> None)"
proof -
  have "first_error (\<lambda>i f.
             if parse_socket_addr (fr_listen f) = None then Some (ForwardListenInvalid i (fr_listen f))
             else if parse_virtual_dest (fr_dest f) = None then Some (ForwardDestInvalid i (fr_dest f))
             else None) 0 l = None
      \<longleftrightarrow> (\<forall>f\<in>set l. parse_socket_addr (fr_listen f) \<noteq> None \<and> parse_virtual_dest (fr_dest f) \<noteq> None)"
    by (rule first_error_None_all) auto
  then show ?thesis by (auto simp: validate_forwards_def)
qed

definition expose_rule_ok :: "ExposeRule \<Rightarrow> bool" where
  "expose_rule_ok r = (er_port r \<noteq> 0 \<and> parse_socket_addr (er_dest r) \<noteq> None)"

lemma validate_exposes_None:
  "validate_exposes l = None \<longleftrightarrow>
     length l \<le> 32 \<and> (\<forall>ne\<in>set l. length (ne_rules ne) \<le> 64 \<and> (\<forall>r\<in>set (ne_rules ne). expose_rule_ok r))
     \<and> distinct (map ne_network_id l)"
proof -
  have inner: "first_error (\<lambda>j r.
                           if er_port r = 0 then Some (ExposePortInvalid i j)
                           else if parse_socket_addr (er_dest r) = None
                                then Some (ExposeDestInvalid i j (er_dest r))
                           else None) 0 rs = None \<longleftrightarrow> (\<forall>r\<in>set rs. expose_rule_ok r)" for i rs
    by (rule first_error_None_all) (auto simp: expose_rule_ok_def)
  have "first_error (\<lambda>i ne.
                    if 64 < length (ne_rules ne) then Some (ExposeRulesTooMany i)
                    else first_error (\<lambda>j r.
                           if er_port r = 0 then Some (ExposePortInvalid i j)
                           else if parse_socket_addr (er_dest r) = None
                                then Some (ExposeDestInvalid i j (er_dest r))
                           else None) 0 (ne_rules ne)) 0 l = None
     \<longleftrightarrow> (\<forall>ne\<in>set l. length (ne_rules ne) \<le> 64 \<and> (\<forall>r\<in>set (ne_rules ne). expose_rule_ok r))"
    by (rule first_error_None_all) (auto simp: inner)
  then show ?thesis
    by (auto simp: validate_exposes_def first_dup_None split: option.splits)
qed

lemma validate_peer_policies_None:
  "validate_peer_policies l = None \<longleftrightarrow> length l \<le> 64 \<and> distinct (map pp_device_id l)"
  by (auto simp: validate_peer_policies_def first_dup_None)

lemma bind_None_iff: "Option.bind x f = None \<longleftrightarrow> (\<forall>y. x = Some y \<longrightarrow> f y = None)"
  by (cases x) auto

text \<open>
  Validation accepts settings exactly when every managed field is legal:
  at most 8 distinct listen URLs that parse, an MTU from 576 to 65500, a SOCKS
  address that is empty or parses, at most 64 forwards whose two addresses
  parse, at most 32 networks of at most 64 exposes with non-zero ports and
  parsing targets and no network twice, and at most 64 peer policies with no
  device id twice.
\<close>
theorem validate_settings_iff:
  "validate_settings s = Inr () \<longleftrightarrow>
     (\<forall>l. ds_listen s = Some l \<longrightarrow> length l \<le> 8 \<and> (\<forall>x\<in>set l. \<exists>r. parse_listen_url x = Inr r) \<and> distinct l)
   \<and> (\<forall>m. ds_mtu s = Some m \<longrightarrow> 576 \<le> m \<and> m \<le> 65500)
   \<and> (\<forall>a. ds_socks_listen s = Some a \<longrightarrow> a = [] \<or> parse_socket_addr a \<noteq> None)
   \<and> (\<forall>l. ds_forwards s = Some l \<longrightarrow> length l \<le> 64 \<and> (\<forall>f\<in>set l.
          parse_socket_addr (fr_listen f) \<noteq> None \<and> parse_virtual_dest (fr_dest f) \<noteq> None))
   \<and> (\<forall>l. ds_exposes s = Some l \<longrightarrow> length l \<le> 32 \<and> distinct (map ne_network_id l)
          \<and> (\<forall>ne\<in>set l. length (ne_rules ne) \<le> 64 \<and> (\<forall>r\<in>set (ne_rules ne). expose_rule_ok r)))
   \<and> (\<forall>l. ds_peer_policies s = Some l \<longrightarrow> length l \<le> 64 \<and> distinct (map pp_device_id l))"
  (is "?v \<longleftrightarrow> ?r")
proof -
  have "?v \<longleftrightarrow> (\<forall>r\<in>set [Option.bind (ds_listen s) validate_listen,
              Option.bind (ds_mtu s) validate_mtu, Option.bind (ds_socks_listen s) validate_socks,
              Option.bind (ds_forwards s) validate_forwards, Option.bind (ds_exposes s) validate_exposes,
              Option.bind (ds_peer_policies s) validate_peer_policies]. r = None)"
    unfolding validate_settings_def first_some_None [symmetric] by (simp split: option.splits)
  also have "\<dots> \<longleftrightarrow> ?r"
    unfolding set_simps ball_simps bind_None_iff validate_listen_None validate_forwards_None
      validate_exposes_None validate_peer_policies_None
    by (auto simp: validate_mtu_def validate_socks_def)
  finally show ?thesis .
qed

theorem validate_settings_iff_witness:
  "validate_settings (default_settings\<lparr>ds_mtu := Some 1300\<rparr>) = Inr ()
   \<and> validate_settings (default_settings\<lparr>ds_mtu := Some 100\<rparr>) \<noteq> Inr ()"
  by (simp add: validate_settings_iff default_settings_def)

text \<open>An empty record of settings is valid.\<close>

lemma validate_empty: "settings_is_empty s \<Longrightarrow> validate_settings s = Inr ()"
  by (simp add: settings_is_empty_def validate_settings_def)

text \<open>
  The comment on ProtoKind leaves illegal protocol names of new settings to
  validate; reading has already turned them into Tcp, and validate never looks.
\<close>
lemma unknown_proto_passes:
  "proto_kind_of_str ''sctp'' = Tcp"
  "validate_forwards [\<lparr>fr_listen = l, fr_proto = p, fr_dest = d\<rparr>] =
   validate_forwards [\<lparr>fr_listen = l, fr_proto = q, fr_dest = d\<rparr>]"
  by (simp_all add: proto_kind_of_str_def validate_forwards_def)

end
