(* ===== verification/Presence.thy ===== *)
theory Presence
  imports Models
begin

text \<open>
  crates/skiff-server/src/presence.rs: the in-memory presence records and the
  online/offline transitions sent to the realtime hub. The clock reading of an
  operation is an argument; the channel is the list of the messages sent.
\<close>

definition PRESENCE_TIMEOUT_MS :: millis where "PRESENCE_TIMEOUT_MS = 45000"

record PresenceRecord =
  px_last_seen_ms :: millis
  px_observed_udp_endpoint :: "string option"
  px_local_addrs :: "string list"
  px_udp_port :: "u16 option"
  px_tcp_port :: "u16 option"
  px_ws_count :: int
  px_paths :: "PeerPathReport list"
  px_applied_settings_revision :: "int option"
  px_restart_pending :: bool
  px_mode :: "ClientMode option"
  px_node_version :: "string option"

definition default_presence :: PresenceRecord where
  "default_presence =
     \<lparr>px_last_seen_ms = 0, px_observed_udp_endpoint = None, px_local_addrs = [], px_udp_port = None,
      px_tcp_port = None, px_ws_count = 0, px_paths = [], px_applied_settings_revision = None,
      px_restart_pending = False, px_mode = None, px_node_version = None\<rparr>"

definition record_is_online :: "millis \<Rightarrow> PresenceRecord \<Rightarrow> bool" where
  "record_is_online now p = (0 < px_ws_count p \<or> now - px_last_seen_ms p < PRESENCE_TIMEOUT_MS)"

record PresenceStore =
  ps_map :: "(u64, PresenceRecord) table"
  ps_online_tx :: "(u64 \<times> bool) list"

definition presence_new :: PresenceStore where
  "presence_new = \<lparr>ps_map = [], ps_online_tx = []\<rparr>"

definition presence_apply ::
  "millis \<Rightarrow> u64 \<Rightarrow> (PresenceRecord \<Rightarrow> PresenceRecord) \<Rightarrow> PresenceStore \<Rightarrow> PresenceStore" where
  "presence_apply now d mutate s =
     (let entry = (case tget (ps_map s) d of None \<Rightarrow> default_presence | Some p \<Rightarrow> p);
          was = record_is_online now entry;
          entry1 = mutate entry;
          now_online = record_is_online now entry1;
          s1 = s\<lparr>ps_map := tput d entry1 (ps_map s)\<rparr>
      in if was \<noteq> now_online then s1\<lparr>ps_online_tx := ps_online_tx s1 @ [(d, now_online)]\<rparr> else s1)"

definition touch_relay_udp :: "millis \<Rightarrow> u64 \<Rightarrow> string \<Rightarrow> PresenceStore \<Rightarrow> PresenceStore" where
  "touch_relay_udp now d observed_endpoint =
     presence_apply now d (\<lambda>p. p\<lparr>px_last_seen_ms := now,
                                 px_observed_udp_endpoint := Some observed_endpoint\<rparr>)"

definition touch_relay_tcp :: "millis \<Rightarrow> u64 \<Rightarrow> PresenceStore \<Rightarrow> PresenceStore" where
  "touch_relay_tcp now d = presence_apply now d (\<lambda>p. p\<lparr>px_last_seen_ms := now\<rparr>)"

fun sanitize_addrs :: "string list \<Rightarrow> string list \<Rightarrow> string list" where
  "sanitize_addrs addrs [] = addrs"
| "sanitize_addrs addrs (a # rest) =
     (if parse_ipv4 a \<noteq> None \<and> a \<notin> set addrs then
        (let addrs1 = addrs @ [a] in if length addrs1 = 8 then addrs1 else sanitize_addrs addrs1 rest)
      else sanitize_addrs addrs rest)"

definition valid_port :: "u16 option \<Rightarrow> u16 option" where
  "valid_port p = (case p of Some x \<Rightarrow> if 1 \<le> x then Some x else None | None \<Rightarrow> None)"

text \<open>The record after a heartbeat; a field that was not reported keeps its value.\<close>

definition heartbeat_record ::
  "millis \<Rightarrow> string list \<Rightarrow> u16 option \<Rightarrow> u16 option \<Rightarrow> PeerPathReport list option \<Rightarrow>
   HeartbeatRequest \<Rightarrow> PresenceRecord \<Rightarrow> PresenceRecord" where
  "heartbeat_record now addrs udp tcp paths req p =
     p\<lparr>px_last_seen_ms := now,
       px_local_addrs := (if addrs \<noteq> [] then addrs else px_local_addrs p),
       px_udp_port := udp,
       px_tcp_port := tcp,
       px_paths := (case paths of Some ps \<Rightarrow> ps | None \<Rightarrow> px_paths p),
       px_applied_settings_revision :=
         (case hb_settings_revision req of Some r \<Rightarrow> Some r | None \<Rightarrow> px_applied_settings_revision p),
       px_restart_pending := (case hb_restart_pending req of Some b \<Rightarrow> b | None \<Rightarrow> px_restart_pending p),
       px_mode := (case hb_mode req of Some m \<Rightarrow> Some m | None \<Rightarrow> px_mode p),
       px_node_version := (case hb_node_version req of Some v \<Rightarrow> Some v | None \<Rightarrow> px_node_version p)\<rparr>"

definition touch_heartbeat :: "millis \<Rightarrow> u64 \<Rightarrow> HeartbeatRequest \<Rightarrow> PresenceStore \<Rightarrow> PresenceStore" where
  "touch_heartbeat now d req =
     (let addrs = sanitize_addrs [] (hb_local_addrs req);
          udp = valid_port (hb_listen_udp_port req);
          tcp = valid_port (hb_listen_tcp_port req);
          paths = map_option (take 64) (hb_paths req)
      in presence_apply now d (heartbeat_record now addrs udp tcp paths req))"

definition ws_connected :: "millis \<Rightarrow> u64 \<Rightarrow> PresenceStore \<Rightarrow> PresenceStore" where
  "ws_connected now d =
     presence_apply now d (\<lambda>p. p\<lparr>px_last_seen_ms := now, px_ws_count := px_ws_count p + 1\<rparr>)"

definition ws_disconnected :: "millis \<Rightarrow> u64 \<Rightarrow> PresenceStore \<Rightarrow> PresenceStore" where
  "ws_disconnected now d =
     presence_apply now d (\<lambda>p. p\<lparr>px_ws_count := max (px_ws_count p - 1) 0\<rparr>)"

definition presence_remove :: "u64 \<Rightarrow> PresenceStore \<Rightarrow> PresenceStore" where
  "presence_remove d s = s\<lparr>ps_map := tdel d (ps_map s)\<rparr>"

definition presence_is_online :: "millis \<Rightarrow> u64 \<Rightarrow> PresenceStore \<Rightarrow> bool" where
  "presence_is_online now d s =
     (case tget (ps_map s) d of Some p \<Rightarrow> record_is_online now p | None \<Rightarrow> False)"

definition observed_endpoint :: "u64 \<Rightarrow> PresenceStore \<Rightarrow> string option" where
  "observed_endpoint d s = Option.bind (tget (ps_map s) d) px_observed_udp_endpoint"

definition presence_record :: "u64 \<Rightarrow> PresenceStore \<Rightarrow> PresenceRecord option" where
  "presence_record d s = tget (ps_map s) d"

section \<open>Requests\<close>

datatype PresenceOp =
    RelayUdpSeen millis u64 string
  | RelayTcpSeen millis u64
  | Heartbeat millis u64 HeartbeatRequest
  | WsConnected millis u64
  | WsDisconnected millis u64
  | Removed u64

fun presence_step :: "PresenceStore \<Rightarrow> PresenceOp \<Rightarrow> unit \<times> PresenceStore" where
  "presence_step s (RelayUdpSeen now d ep) = ((), touch_relay_udp now d ep s)"
| "presence_step s (RelayTcpSeen now d) = ((), touch_relay_tcp now d s)"
| "presence_step s (Heartbeat now d req) = ((), touch_heartbeat now d req s)"
| "presence_step s (WsConnected now d) = ((), ws_connected now d s)"
| "presence_step s (WsDisconnected now d) = ((), ws_disconnected now d s)"
| "presence_step s (Removed d) = ((), presence_remove d s)"

section \<open>The records stay sanitised\<close>

definition record_ok :: "PresenceRecord \<Rightarrow> bool" where
  "record_ok p =
     (0 \<le> px_ws_count p \<and> distinct (px_local_addrs p) \<and> length (px_local_addrs p) \<le> 8
      \<and> (\<forall>a\<in>set (px_local_addrs p). parse_ipv4 a \<noteq> None) \<and> length (px_paths p) \<le> 64
      \<and> px_udp_port p \<noteq> Some 0 \<and> px_tcp_port p \<noteq> Some 0)"

definition presence_inv :: "PresenceStore \<Rightarrow> bool" where
  "presence_inv s = (tinv (ps_map s) \<and> (\<forall>d p. tget (ps_map s) d = Some p \<longrightarrow> record_ok p))"

lemma record_ok_default [simp]: "record_ok default_presence"
  by (simp add: record_ok_def default_presence_def)

definition addrs_ok :: "string list \<Rightarrow> bool" where
  "addrs_ok l = (distinct l \<and> length l \<le> 8 \<and> (\<forall>a\<in>set l. parse_ipv4 a \<noteq> None))"

lemma sanitize_addrs_ok: "addrs_ok acc \<Longrightarrow> length acc < 8 \<Longrightarrow> addrs_ok (sanitize_addrs acc as)"
proof (induction acc as rule: sanitize_addrs.induct)
  case (2 acc a rest)
  show ?case
  proof (cases "parse_ipv4 a \<noteq> None \<and> a \<notin> set acc")
    case True
    then have "addrs_ok (acc @ [a])" using "2.prems" by (simp add: addrs_ok_def)
    then show ?thesis using 2 True by (simp add: Let_def)
  next
    case False
    then have "sanitize_addrs acc (a # rest) = sanitize_addrs acc rest" by auto
    then show ?thesis using "2.IH"(2) [OF False "2.prems"] by simp
  qed
qed simp

lemma ps_map_apply [simp]:
  "ps_map (presence_apply now d f s) =
     tput d (f (case tget (ps_map s) d of None \<Rightarrow> default_presence | Some p \<Rightarrow> p)) (ps_map s)"
  by (simp add: presence_apply_def Let_def)

lemma presence_inv_apply:
  assumes "presence_inv s" and "\<And>p. record_ok p \<Longrightarrow> record_ok (f p)"
  shows "presence_inv (presence_apply now d f s)"
  using assms by (auto simp: presence_inv_def table_simps split: option.splits)

lemma valid_port_nonzero: "valid_port p \<noteq> Some 0"
  by (auto simp: valid_port_def word_le_nat_alt split: option.splits)

lemma heartbeat_record_ok:
  "record_ok p \<Longrightarrow> addrs_ok addrs \<Longrightarrow> udp \<noteq> Some 0 \<Longrightarrow> tcp \<noteq> Some 0 \<Longrightarrow>
   (\<forall>ps. paths = Some ps \<longrightarrow> length ps \<le> 64) \<Longrightarrow>
   record_ok (heartbeat_record now addrs udp tcp paths req p)"
  by (auto simp: record_ok_def heartbeat_record_def addrs_ok_def split: option.splits)

lemma heartbeat_ok: "presence_inv s \<Longrightarrow> presence_inv (touch_heartbeat now d req s)"
  unfolding touch_heartbeat_def Let_def
  by (intro presence_inv_apply heartbeat_record_ok sanitize_addrs_ok)
     (auto simp: valid_port_nonzero addrs_ok_def)

interpretation presence: machine presence_step presence_inv
proof
  fix s e r s'
  assume i: "presence_inv s" and e: "presence_step s e = (r, s')"
  have "presence_inv (presence_remove d s)" for d
    using i by (auto simp: presence_inv_def presence_remove_def table_simps)
  moreover have "presence_inv (touch_relay_udp now d ep s)" "presence_inv (touch_relay_tcp now d s)"
    "presence_inv (ws_connected now d s)" "presence_inv (ws_disconnected now d s)" for now d ep
    unfolding touch_relay_udp_def touch_relay_tcp_def ws_connected_def ws_disconnected_def
    by (rule presence_inv_apply [OF i], simp add: record_ok_def)+
  ultimately show "presence_inv s'" using e heartbeat_ok [OF i] by (cases e) auto
qed

text \<open>
  Whatever the nodes report, every presence record holds at most 8
  distinct local addresses, all of them IPv4, at most 64 path reports, no port 0
  and no negative socket count.
\<close>
theorem presence_sanitised:
  assumes "snd (run presence_step presence_new ops) = s" and "tget (ps_map s) d = Some p"
  shows "record_ok p"
  using presence.run_snd_inv [of presence_new ops] assms
  by (auto simp: presence_inv_def presence_new_def)

theorem presence_sanitised_witness:
  "record_ok (default_presence\<lparr>px_last_seen_ms := 7, px_ws_count := 1\<rparr>)"
  by (rule presence_sanitised [OF refl, of "[WsConnected 7 3]" 3])
     (simp add: presence_new_def ws_connected_def default_presence_def)

section \<open>The observed endpoint\<close>

lemma observed_endpoint_apply:
  "(\<And>p. px_observed_udp_endpoint (f p) = px_observed_udp_endpoint p) \<Longrightarrow>
   observed_endpoint d (presence_apply now d' f s) = observed_endpoint d s"
  by (auto simp: observed_endpoint_def table_simps default_presence_def split: option.splits)

fun writes_endpoint :: "u64 \<Rightarrow> PresenceOp \<Rightarrow> bool" where
  "writes_endpoint d (RelayUdpSeen _ d' _) = (d = d')"
| "writes_endpoint d (Removed d') = (d = d')"
| "writes_endpoint d _ = False"

lemma observed_endpoint_step:
  assumes "\<not> writes_endpoint d e"
  shows "observed_endpoint d (snd (presence_step s e)) = observed_endpoint d s"
proof (cases e)
  case (RelayUdpSeen now d' ep)
  then show ?thesis using assms
    by (auto simp: touch_relay_udp_def observed_endpoint_def table_simps)
next
  case (Removed d')
  then show ?thesis using assms
    by (auto simp: presence_remove_def observed_endpoint_def table_simps)
next
  case (Heartbeat now d' req)
  have "observed_endpoint d (touch_heartbeat now d' req s) = observed_endpoint d s"
    unfolding touch_heartbeat_def Let_def
    by (rule observed_endpoint_apply) (simp add: heartbeat_record_def)
  then show ?thesis using Heartbeat by simp
qed (simp_all add: touch_relay_tcp_def ws_connected_def ws_disconnected_def observed_endpoint_apply)

text \<open>
  The endpoint that peers receive as a device's first UDP endpoint is
  written only by the UDP relay: no TCP relay signal, heartbeat or socket event,
  in any number and order, changes it.
\<close>
theorem observed_endpoint_only_udp:
  "\<forall>e\<in>set es. \<not> writes_endpoint d e \<Longrightarrow>
   observed_endpoint d (snd (run presence_step s es)) = observed_endpoint d s"
proof (induction es arbitrary: s)
  case (Cons e es)
  then show ?case
    using observed_endpoint_step [of d e s]
    by (cases "presence_step s e") (simp add: Let_def case_prod_beta)
qed simp

theorem observed_endpoint_only_udp_witness:
  "observed_endpoint 7 (snd (run presence_step (touch_relay_udp 1 7 ''1.2.3.4:5000'' presence_new)
     [RelayTcpSeen 2 7, WsDisconnected 3 7])) = Some ''1.2.3.4:5000''"
  by (subst observed_endpoint_only_udp)
     (simp_all add: touch_relay_udp_def observed_endpoint_def presence_new_def)

section \<open>Transitions\<close>

lemma apply_sends:
  "ps_online_tx (presence_apply now d f s) =
     ps_online_tx s @
     (let was = presence_is_online now d s \<or> (tget (ps_map s) d = None \<and> record_is_online now default_presence);
          is = presence_is_online now d (presence_apply now d f s)
      in if was \<noteq> is then [(d, is)] else [])"
  by (auto simp: presence_apply_def presence_is_online_def Let_def table_simps split: option.splits)

text \<open>
  A socket that closes less than 45 seconds after the device was last
  seen sends no offline transition, although the device counts as offline from
  45 seconds on: the end of the timeout itself is never announced.
\<close>
theorem offline_by_timeout_not_announced:
  assumes "tget (ps_map s) d = Some p" and "px_ws_count p = 1"
    and "now - px_last_seen_ms p < PRESENCE_TIMEOUT_MS"
  shows "ps_online_tx (ws_disconnected now d s) = ps_online_tx s
       \<and> presence_is_online now d (ws_disconnected now d s)
       \<and> \<not> presence_is_online (px_last_seen_ms p + PRESENCE_TIMEOUT_MS) d (ws_disconnected now d s)"
  using assms
  by (simp add: ws_disconnected_def presence_apply_def presence_is_online_def record_is_online_def
      Let_def table_simps)

theorem offline_by_timeout_not_announced_witness:
  "ps_online_tx (ws_disconnected 100 3 (ws_connected 50 3 presence_new))
     = ps_online_tx (ws_connected 50 3 presence_new)"
  using offline_by_timeout_not_announced [of "ws_connected 50 3 presence_new" 3
      "default_presence\<lparr>px_last_seen_ms := 50, px_ws_count := 1\<rparr>" 100]
  by (simp add: ws_connected_def presence_new_def default_presence_def PRESENCE_TIMEOUT_MS_def)

end
