(* ===== verification/RelayUdpProto.thy ===== *)
theory RelayUdpProto
  imports Endec Rust_Std
begin

text \<open>
  crates/skiff-core/src/protocol/relay\_udp.rs: the control protocol of the UDP
  relay. HMAC-SHA256 is the parameter \<open>hmac key message\<close> and SHA-256 the
  parameter \<open>sha\<close>, both with 32-byte results; the random nonce of a REGISTER
  packet is an argument.
\<close>

definition RELAY_MAGIC :: u8 where "RELAY_MAGIC = 0x0B"
definition RELAY_VERSION :: u8 where "RELAY_VERSION = 1"
definition CMD_REGISTER :: u8 where "CMD_REGISTER = 1"
definition CMD_RELAY :: u8 where "CMD_RELAY = 2"
definition CMD_ACK :: u8 where "CMD_ACK = 3"
definition CMD_ERROR :: u8 where "CMD_ERROR = 4"
definition REGISTER_DOMAIN :: bytes where "REGISTER_DOMAIN = as_bytes ''starskiff-relay-register''"
definition REGISTER_BODY_SIZE :: nat where "REGISTER_BODY_SIZE = 8 + 16 + 32"
definition REGISTER_PACKET_SIZE :: nat where "REGISTER_PACKET_SIZE = 3 + REGISTER_BODY_SIZE"
definition ERROR_MSG_MAX :: nat where "ERROR_MSG_MAX = 200"

lemmas relay_consts =
  RELAY_MAGIC_def RELAY_VERSION_def CMD_REGISTER_def CMD_RELAY_def CMD_ACK_def CMD_ERROR_def

lemma register_sizes: "REGISTER_BODY_SIZE = 56" "REGISTER_PACKET_SIZE = 59"
  by (simp_all add: REGISTER_BODY_SIZE_def REGISTER_PACKET_SIZE_def)

type_synonym hmac = "bytes \<Rightarrow> bytes \<Rightarrow> bytes"

definition register_mac :: "hmac \<Rightarrow> bytes \<Rightarrow> bytes \<Rightarrow> bytes" where
  "register_mac hmac key mac_input = hmac key (REGISTER_DOMAIN @ mac_input)"

definition ct_eq :: "bytes \<Rightarrow> bytes \<Rightarrow> bool" where
  "ct_eq a b = (fold (\<lambda>(x, y) diff. diff OR (x XOR y)) (zip a b) 0 = 0)"

definition build_register :: "hmac \<Rightarrow> u64 \<Rightarrow> bytes \<Rightarrow> bytes \<Rightarrow> bytes" where
  "build_register hmac device_id relay_key nonce =
     (let body = write_u64_le [] device_id @ nonce;
          mac_input = [RELAY_MAGIC, RELAY_VERSION, CMD_REGISTER] @ body;
          mac = register_mac hmac relay_key mac_input
      in [RELAY_MAGIC, RELAY_VERSION, CMD_REGISTER] @ body @ mac)"

definition verify_register :: "hmac \<Rightarrow> bytes \<Rightarrow> bytes \<Rightarrow> bool" where
  "verify_register hmac packet key =
     (if length packet \<noteq> REGISTER_PACKET_SIZE \<or> packet ! 0 \<noteq> RELAY_MAGIC
         \<or> packet ! 1 \<noteq> RELAY_VERSION \<or> packet ! 2 \<noteq> CMD_REGISTER
      then False
      else
        (let expected = register_mac hmac key (take 27 packet);
             provided = take (59 - 27) (drop 27 packet)
         in ct_eq expected provided))"

definition verify_register_body :: "hmac \<Rightarrow> bytes \<Rightarrow> u64 \<Rightarrow> bytes \<Rightarrow> bool" where
  "verify_register_body hmac body device_id key =
     (if length body \<noteq> REGISTER_BODY_SIZE then False
      else
        (let mac_input = write_u64_le [RELAY_MAGIC, RELAY_VERSION, CMD_REGISTER] device_id
               @ take (24 - 8) (drop 8 body);
             expected = register_mac hmac key mac_input;
             provided = drop 24 body
         in ct_eq expected provided))"

definition register_nonce :: "bytes \<Rightarrow> bytes option" where
  "register_nonce packet =
     (if length packet \<noteq> REGISTER_PACKET_SIZE then None else Some (take (27 - 11) (drop 11 packet)))"

definition register_body_nonce :: "bytes \<Rightarrow> bytes option" where
  "register_body_nonce body =
     (if length body \<noteq> REGISTER_BODY_SIZE then None else Some (take (24 - 8) (drop 8 body)))"

definition build_relay :: "u64 \<Rightarrow> u64 \<Rightarrow> bytes \<Rightarrow> bytes" where
  "build_relay src_id dst_id frame =
     write_u64_le (write_u64_le [RELAY_MAGIC, RELAY_VERSION, CMD_RELAY] src_id) dst_id @ frame"

definition build_ack_payload :: "string \<Rightarrow> u16 \<Rightarrow> bytes" where
  "build_ack_payload ip port = write_u16_le ([of_nat (length ip)] @ as_bytes ip) port"

definition build_ack_packet :: "string \<Rightarrow> u16 \<Rightarrow> bytes" where
  "build_ack_packet ip port = [RELAY_MAGIC, RELAY_VERSION, CMD_ACK] @ build_ack_payload ip port"

definition build_error_packet :: "string \<Rightarrow> bytes" where
  "build_error_packet msg =
     (let b = as_bytes msg; len = min (length b) ERROR_MSG_MAX
      in [RELAY_MAGIC, RELAY_VERSION, CMD_ERROR, of_nat len] @ take len b)"

datatype RelayPacket =
    RegisterPkt u64
  | RelayPkt u64 u64 bytes
  | AckPkt string u16
  | ErrorPkt string

definition relay_udp_parse :: "bytes \<Rightarrow> RelayPacket option option" where
  "relay_udp_parse packet =
     (if length packet < 4 \<or> packet ! 0 \<noteq> RELAY_MAGIC \<or> packet ! 1 \<noteq> RELAY_VERSION then Some None
      else do {
        cmd \<leftarrow> idx packet 2;
        if cmd = CMD_REGISTER then
          (if length packet \<noteq> REGISTER_PACKET_SIZE then Some None
           else do {
             b \<leftarrow> slice_from packet 3; device_id \<leftarrow> read_u64_le b;
             Some (Some (RegisterPkt device_id)) })
        else if cmd = CMD_RELAY then
          (if length packet < 19 then Some None
           else do {
             b \<leftarrow> slice_from packet 3; src \<leftarrow> read_u64_le b;
             b \<leftarrow> slice_from packet 11; dst \<leftarrow> read_u64_le b;
             frame \<leftarrow> slice_from packet 19;
             Some (Some (RelayPkt src dst frame)) })
        else if cmd = CMD_ACK then do {
          l \<leftarrow> idx packet 3;
          let ip_len = unat l;
          if length packet < 4 + ip_len + 2 then Some None
          else do {
            b \<leftarrow> slice packet 4 (4 + ip_len);
            (case from_utf8 b of
               None \<Rightarrow> Some None
             | Some ip \<Rightarrow> do {
                 b \<leftarrow> slice_from packet (4 + ip_len); port \<leftarrow> read_u16_le b;
                 Some (Some (AckPkt ip port)) }) } }
        else if cmd = CMD_ERROR then do {
          l \<leftarrow> idx packet 3;
          let msg_len = unat l;
          if length packet < 4 + msg_len then Some None
          else do {
            b \<leftarrow> slice packet 4 (4 + msg_len);
            Some (Some (ErrorPkt (from_utf8_lossy b))) } }
        else Some None })"

definition relay_key_from_token :: "(bytes \<Rightarrow> bytes) \<Rightarrow> string \<Rightarrow> bytes" where
  "relay_key_from_token sha device_token = sha (as_bytes device_token)"

section \<open>Constant-time comparison\<close>

lemma fold_or_zero:
  "fold (\<lambda>(x, y) diff. diff OR (x XOR y)) ps d = (0 :: u8) \<longleftrightarrow> d = 0 \<and> (\<forall>(x, y)\<in>set ps. x = y)"
proof (induction ps arbitrary: d)
  case (Cons p ps)
  have "x XOR y = 0 \<longleftrightarrow> x = y" for x y :: u8 by (metis xor_self_eq xor.right_neutral xor.assoc)
  then show ?case using Cons by (cases p) (auto simp: or_eq_0_iff)
qed simp

lemma xor_zero_iff [simp]: "x XOR y = 0 \<longleftrightarrow> x = (y :: u8)"
  by (metis xor_self_eq xor.right_neutral xor.assoc)

lemma ct_eq_iff: "length a = length b \<Longrightarrow> ct_eq a b \<longleftrightarrow> a = b"
  by (induction a b rule: list_induct2) (auto simp: ct_eq_def fold_or_zero)

section \<open>Registration\<close>

text \<open>What the code relies on of HMAC-SHA256: a 32-byte tag.\<close>

definition hmac32 :: "hmac \<Rightarrow> bool" where
  "hmac32 h = (\<forall>k m. length (h k m) = 32)"

lemma take_3: "3 \<le> length p \<Longrightarrow> take 3 p = [p ! 0, p ! 1, p ! 2]"
  by (auto intro!: nth_equalityI simp: less_Suc_eq numeral_3_eq_3 numeral_2_eq_2)

lemma take_split3: "take 27 p = take 3 p @ take 8 (drop 3 p) @ take 16 (drop 11 p)"
  using take_add [of 3 24 p] take_add [of 8 16 "drop 3 p"] by simp

lemma length_59_split: "p = take 27 p @ drop 27 p"
  by simp

lemma verify_register_iff:
  assumes "hmac32 h"
  shows "verify_register h p k \<longleftrightarrow> (\<exists>dev n. length n = 16 \<and> p = build_register h dev k n)"
proof
  assume v: "verify_register h p k"
  then have l: "length p = 59" and hd: "p ! 0 = RELAY_MAGIC" "p ! 1 = RELAY_VERSION" "p ! 2 = CMD_REGISTER"
    by (auto simp: verify_register_def register_sizes split: if_splits)
  have m: "drop 27 p = register_mac h k (take 27 p)"
    using v l assms ct_eq_iff [of "register_mac h k (take 27 p)" "drop 27 p"]
    by (simp add: verify_register_def register_sizes Let_def register_mac_def hmac32_def split: if_splits)
  define dev n where "dev = (of_nat (le_val (take 8 (drop 3 p))) :: u64)" and "n = take 16 (drop 11 p)"
  have i: "u64_to_le_bytes dev = take 8 (drop 3 p)" using l by (simp add: dev_def u64_to_le_bytes_val)
  have t: "take 27 p = [RELAY_MAGIC, RELAY_VERSION, CMD_REGISTER] @ u64_to_le_bytes dev @ n"
    using take_split3 [of p] take_3 [of p] l hd i by (simp add: n_def)
  have "p = build_register h dev k n"
    using append_take_drop_id [of 27 p] m t
    by (simp add: build_register_def Let_def write_u64_le_def)
  moreover have "length n = 16" using l by (simp add: n_def)
  ultimately show "\<exists>dev n. length n = 16 \<and> p = build_register h dev k n" by blast
next
  assume "\<exists>dev n. length n = 16 \<and> p = build_register h dev k n"
  then show "verify_register h p k"
    using assms
    by (auto simp: verify_register_def build_register_def Let_def register_sizes write_u64_le_def
        register_mac_def hmac32_def ct_eq_iff)
qed

lemma build_register_fields:
  assumes "hmac32 h" and "length n = 16"
  shows "register_nonce (build_register h dev k n) = Some n"
    and "relay_udp_parse (build_register h dev k n) = Some (Some (RegisterPkt dev))"
    and "register_body_nonce (drop 3 (build_register h dev k n)) = Some n"
    and "verify_register_body h (drop 3 (build_register h dev k n)) dev k"
  using assms
  by (simp_all add: register_nonce_def register_body_nonce_def build_register_def Let_def
      register_sizes write_u64_le_def register_mac_def hmac32_def relay_udp_parse_def idx_def
      slice_from_def relay_consts verify_register_body_def ct_eq_iff)

text \<open>
  A REGISTER packet verifies under a device's relay key iff it is, byte
  for byte, a packet that the holder of that key builds for some device id and
  nonce; the id the server reads and the nonce it remembers are those of the packet.
\<close>
theorem verify_register_exact:
  assumes "hmac32 h"
  shows "verify_register h p k \<longleftrightarrow>
    (\<exists>dev n. length n = 16 \<and> p = build_register h dev k n
       \<and> relay_udp_parse p = Some (Some (RegisterPkt dev)) \<and> register_nonce p = Some n)"
  using verify_register_iff [OF assms] build_register_fields [OF assms] by metis

definition toy_hmac :: hmac where
  "toy_hmac k m = replicate 32 (sum_list (k @ m))"

lemma toy_hmac32: "hmac32 toy_hmac"
  by (simp add: hmac32_def toy_hmac_def)

theorem verify_register_exact_witness:
  "verify_register toy_hmac (build_register toy_hmac 41 [9] (replicate 16 3)) [9]"
  using verify_register_exact [OF toy_hmac32, of "build_register toy_hmac 41 [9] (replicate 16 3)" "[9]"]
    build_register_fields [OF toy_hmac32, of "replicate 16 3" 41 "[9]"]
  by auto

section \<open>Parsing\<close>

lemma relay_udp_parse_total: "\<exists>r. relay_udp_parse p = Some r"
  by (auto simp: relay_udp_parse_def idx_def slice_from_def slice_def read_u64_le_val read_u16_le_val
      register_sizes Let_def split: option.splits)

lemma relay_udp_parse_relay:
  "relay_udp_parse (build_relay s d f) = Some (Some (RelayPkt s d f))"
  by (simp add: relay_udp_parse_def build_relay_def write_u64_le_def idx_def slice_from_def
      relay_consts)

lemma unat_small_len: "n < 256 \<Longrightarrow> unat (of_nat n :: u8) = n"
  by (simp add: unat_of_nat)

lemma drop4: "drop (4 + n) (a # b # c # d # xs) = drop n xs"
  by (simp add: numeral_eq_Suc)

lemma relay_udp_parse_ack:
  "wf_str ip \<Longrightarrow> length ip < 256 \<Longrightarrow>
   relay_udp_parse (build_ack_packet ip port) = Some (Some (AckPkt ip port))"
  by (simp add: relay_udp_parse_def build_ack_packet_def build_ack_payload_def write_u16_le_def
      idx_def slice_from_def slice_def relay_consts from_utf8_as_bytes unat_small_len Let_def
      drop4 read_u16_le_to [of _ "[]", simplified])

lemma relay_udp_parse_error:
  "wf_str msg \<Longrightarrow> length msg \<le> 200 \<Longrightarrow>
   relay_udp_parse (build_error_packet msg) = Some (Some (ErrorPkt msg))"
  by (simp add: relay_udp_parse_def build_error_packet_def ERROR_MSG_MAX_def idx_def slice_def
      relay_consts from_utf8_lossy_as_bytes unat_small_len Let_def min_def)

interpretation relay_frame: codec "\<lambda>(s, d, f). build_relay s d f"
  "\<lambda>p. Option.bind (relay_udp_parse p) id" "\<lambda>(s, d, f). RelayPkt s d f" "\<lambda>_. True"
  by unfold_locales (auto simp: relay_udp_parse_relay)

interpretation relay_ack: codec "\<lambda>(ip, port). build_ack_packet ip port"
  "\<lambda>p. Option.bind (relay_udp_parse p) id" "\<lambda>(ip, port). AckPkt ip port"
  "\<lambda>(ip, port). wf_str ip \<and> length ip < 256"
  by unfold_locales (auto simp: relay_udp_parse_ack)

text \<open>
  The relay's packets parse back to the fields they were built from
  (source, destination and inner frame verbatim; the reflexive address; an error
  text of at most 200 bytes), and the parser returns on any bytes without a panic.
\<close>
theorem relay_udp_roundtrip:
  "relay_udp_parse (build_relay s d f) = Some (Some (RelayPkt s d f))
   \<and> (wf_str ip \<and> length ip < 256 \<longrightarrow>
        relay_udp_parse (build_ack_packet ip port) = Some (Some (AckPkt ip port)))
   \<and> (wf_str msg \<and> length msg \<le> 200 \<longrightarrow>
        relay_udp_parse (build_error_packet msg) = Some (Some (ErrorPkt msg)))
   \<and> relay_udp_parse p \<noteq> None"
  using relay_udp_parse_relay relay_udp_parse_ack relay_udp_parse_error relay_udp_parse_total [of p]
  by auto

theorem relay_udp_roundtrip_witness:
  "relay_udp_parse (build_ack_packet ''10.0.0.1'' 24931) = Some (Some (AckPkt ''10.0.0.1'' 24931))
   \<and> relay_udp_parse (build_error_packet ''no'') = Some (Some (ErrorPkt ''no''))"
proof -
  have "wf_str ''10.0.0.1''" "wf_str ''no''"
    unfolding wf_str_def by (rule utf8_valid_ascii, simp add: as_bytes_def)+
  then show ?thesis
    using relay_udp_roundtrip [of 0 0 "[]" "''10.0.0.1''" 24931 "''no''"] by simp
qed

end
