(* ===== verification/RegisterGuard.thy ===== *)
theory RegisterGuard
  imports Prelude
begin

text \<open>
  crates/skiff-server/src/relay/register\_guard.rs: the memory of used REGISTER
  nonces, shared by the two relays. The clock reading is an argument.
\<close>

definition NONCE_TTL_MS :: millis where
  "NONCE_TTL_MS = 10 * 60000"

type_synonym RegisterGuard = "(u64 \<times> bytes, millis) table"

definition guard_admit :: "millis \<Rightarrow> u64 \<Rightarrow> bytes \<Rightarrow> RegisterGuard \<Rightarrow> bool \<times> RegisterGuard" where
  "guard_admit now device_id nonce seen =
     (let key = (device_id, nonce) in
      case tget seen key of
        Some e \<Rightarrow> if now < e then (False, seen) else (True, tput key (now + NONCE_TTL_MS) seen)
      | None \<Rightarrow> (True, tput key (now + NONCE_TTL_MS) seen))"

definition guard_sweep :: "millis \<Rightarrow> RegisterGuard \<Rightarrow> RegisterGuard" where
  "guard_sweep now seen = tkeep (\<lambda>_ exp. now < exp) seen"

datatype GuardOp = Admit millis u64 bytes | Sweep millis

fun guard_step :: "RegisterGuard \<Rightarrow> GuardOp \<Rightarrow> bool \<times> RegisterGuard" where
  "guard_step g (Admit now d n) = guard_admit now d n g"
| "guard_step g (Sweep now) = (False, guard_sweep now g)"

fun guard_key :: "GuardOp \<Rightarrow> u64 \<times> bytes" where
  "guard_key (Admit now d n) = (d, n)"
| "guard_key (Sweep now) = (0, [])"

fun guard_time :: "GuardOp \<Rightarrow> millis" where
  "guard_time (Admit now d n) = now"
| "guard_time (Sweep now) = now"

text \<open>The guard remembers every key of K beyond the end of the window that starts at t0.\<close>

definition remembers :: "millis \<Rightarrow> RegisterGuard \<Rightarrow> (u64 \<times> bytes) set \<Rightarrow> bool" where
  "remembers t0 g K = (tinv g \<and> (\<forall>k\<in>K. \<exists>e. tget g k = Some e \<and> t0 + NONCE_TTL_MS \<le> e))"

lemma guard_admit_True:
  "guard_admit now d n g = (True, g') \<Longrightarrow>
     g' = tput (d, n) (now + NONCE_TTL_MS) g \<and> (\<forall>e. tget g (d, n) = Some e \<longrightarrow> e \<le> now)"
  by (auto simp: guard_admit_def Let_def split: option.splits if_splits)

lemma guard_admit_False: "guard_admit now d n g = (False, g') \<Longrightarrow> g' = g"
  by (auto simp: guard_admit_def Let_def split: option.splits if_splits)

interpretation guard: once_filter guard_step guard_key
  "\<lambda>e. t0 \<le> guard_time e \<and> guard_time e < t0 + NONCE_TTL_MS" "remembers t0" for t0
proof
  fix g K e g'
  assume r: "remembers t0 g K" and t: "t0 \<le> guard_time e \<and> guard_time e < t0 + NONCE_TTL_MS"
  show "guard_key e \<notin> K" if s: "guard_step g e = (True, g')"
  proof (cases e)
    case (Admit now d n)
    then show ?thesis using s r t guard_admit_True [of now d n g g'] by (auto simp: remembers_def)
  qed (use s in simp)
  show "remembers t0 g' (insert (guard_key e) K)" if s: "guard_step g e = (True, g')"
  proof (cases e)
    case (Admit now d n)
    then show ?thesis
      using s r t guard_admit_True [of now d n g g'] by (auto simp: remembers_def table_simps)
  qed (use s in simp)
  show "remembers t0 g' K" if s: "guard_step g e = (False, g')"
  proof (cases e)
    case (Admit now d n)
    then show ?thesis using s r guard_admit_False [of now d n g g'] by simp
  next
    case (Sweep now)
    then show ?thesis
      using s r t by (fastforce simp: remembers_def guard_sweep_def table_simps)
  qed
qed

text \<open>
  C36 (safety). Whatever the guard remembers at the start, within any ten minutes (any
  window of one TTL) no REGISTER (device id, nonce) is admitted twice, sweeps
  in between included.
\<close>
theorem guard_at_most_once:
  assumes "tinv g" and "\<forall>e\<in>set es. t0 \<le> guard_time e \<and> guard_time e < t0 + NONCE_TTL_MS"
  shows "distinct (map guard_key (accepted es (fst (run guard_step g es))))"
  by (rule guard.run_distinct [of t0 _ "{}"]) (use assms in \<open>auto simp: remembers_def\<close>)

theorem guard_at_most_once_witness:
  "distinct (map guard_key (accepted [Admit 5 1 [7], Sweep 9, Admit 100 1 [7]]
     (fst (run guard_step [] [Admit 5 1 [7], Sweep 9, Admit 100 1 [7]]))))"
  by (rule guard_at_most_once [of _ _ 0]) (auto simp: NONCE_TTL_MS_def)

text \<open>
  The memory is bounded in time: once the TTL of an admission has passed,
  the same REGISTER nonce is admitted again, so a captured packet is replayable.
\<close>
theorem guard_readmits_after_ttl:
  "\<exists>g1 g2. guard_admit now d n [] = (True, g1) \<and> guard_admit (now + NONCE_TTL_MS) d n g1 = (True, g2)
     \<and> fst (guard_admit (now + NONCE_TTL_MS - 1) d n g1) = False"
  by (simp add: guard_admit_def Let_def)

lemma tinv_guard_admit [simp]: "tinv g \<Longrightarrow> tinv (snd (guard_admit now d n g))"
  by (auto simp: guard_admit_def Let_def split: option.splits)

lemma tinv_guard_sweep [simp]: "tinv g \<Longrightarrow> tinv (guard_sweep now g)"
  by (simp add: guard_sweep_def)

end
