(* ===== verification/UdpRelay.thy ===== *)
theory UdpRelay
  imports RelayUdpProto RegisterGuard Presence
begin

text \<open>
  crates/skiff-server/src/relay/udp\_relay.rs: the UDP relay. A datagram is
  handled to completion before the next one; the clock reading of a handler is
  an argument, and its answer is the list of the datagrams it sends. The key
  lookup in the devices table is the parameter \<open>lookup\<close>, HMAC-SHA256 the
  parameter h. The server binds the socket on 0.0.0.0, so addresses are IPv4.
\<close>

definition KEY_CACHE_TTL_MS :: millis where "KEY_CACHE_TTL_MS = 300000"
definition REGISTRATION_TTL_MS :: millis where "REGISTRATION_TTL_MS = PRESENCE_TIMEOUT_MS + 15000"
definition KEY_NEG_CACHE_TTL_MS :: millis where "KEY_NEG_CACHE_TTL_MS = 10000"
definition KEY_NEG_CACHE_CAP :: nat where "KEY_NEG_CACHE_CAP = 100000"

type_synonym SockAddr = "u32 \<times> u16"

record Registration =
  rg_endpoint :: SockAddr
  rg_expires_ms :: millis

record KeyCacheEntry =
  kc_key :: bytes
  kc_expires_ms :: millis

record UdpRelay =
  ur_registrations :: "(u64, Registration) table"
  ur_key_cache :: "(u64, KeyCacheEntry) table"
  ur_key_neg_cache :: "(u64, millis) table"
  ur_presence :: PresenceStore
  ur_register_guard :: RegisterGuard
  ur_forwarded_bytes :: u64
  ur_forwarded_packets :: u64
  ur_dropped_packets :: u64
  ur_register_count :: u64

definition udp_relay_new :: "PresenceStore \<Rightarrow> RegisterGuard \<Rightarrow> UdpRelay" where
  "udp_relay_new presence guard =
     \<lparr>ur_registrations = [], ur_key_cache = [], ur_key_neg_cache = [], ur_presence = presence,
      ur_register_guard = guard, ur_forwarded_bytes = 0, ur_forwarded_packets = 0,
      ur_dropped_packets = 0, ur_register_count = 0\<rparr>"

definition relay_key_of ::
  "(u64 \<Rightarrow> bytes option) \<Rightarrow> millis \<Rightarrow> u64 \<Rightarrow> UdpRelay \<Rightarrow> bytes option \<times> UdpRelay" where
  "relay_key_of lookup now d r =
     (case (case tget (ur_key_cache r) d of
              Some hit \<Rightarrow> if now < kc_expires_ms hit then Some (kc_key hit) else None
            | None \<Rightarrow> None) of
        Some key \<Rightarrow> (Some key, r)
      | None \<Rightarrow>
          if (case tget (ur_key_neg_cache r) d of
                Some last_miss \<Rightarrow> now - last_miss < KEY_NEG_CACHE_TTL_MS | None \<Rightarrow> False)
          then (None, r)
          else (case lookup d of
                  Some key \<Rightarrow>
                    (Some key,
                     r\<lparr>ur_key_neg_cache := tdel d (ur_key_neg_cache r),
                       ur_key_cache := tput d \<lparr>kc_key = key, kc_expires_ms = now + KEY_CACHE_TTL_MS\<rparr>
                                         (ur_key_cache r)\<rparr>)
                | None \<Rightarrow>
                    (None,
                     if length (ur_key_neg_cache r) < KEY_NEG_CACHE_CAP
                     then r\<lparr>ur_key_neg_cache := tput d now (ur_key_neg_cache r)\<rparr> else r)))"

definition count_drop :: "UdpRelay \<Rightarrow> UdpRelay" where
  "count_drop r = r\<lparr>ur_dropped_packets := ur_dropped_packets r + 1\<rparr>"

definition unknown_device_error :: bytes where
  "unknown_device_error = build_error_packet ''unknown device or bad auth''"

definition handle_register ::
  "hmac \<Rightarrow> (u64 \<Rightarrow> bytes option) \<Rightarrow> millis \<Rightarrow> SockAddr \<Rightarrow> bytes \<Rightarrow> u64 \<Rightarrow> UdpRelay \<Rightarrow>
   (bytes \<times> SockAddr) list \<times> UdpRelay" where
  "handle_register h lookup now peer packet d r =
     (let (key, r) = relay_key_of lookup now d r in
      case key of
        None \<Rightarrow> ([(unknown_device_error, peer)], r)
      | Some key \<Rightarrow>
          if length packet \<noteq> REGISTER_PACKET_SIZE \<or> \<not> verify_register h packet key
          then ([(unknown_device_error, peer)], r)
          else (case register_nonce packet of
                  None \<Rightarrow> ([], r)
                | Some nonce \<Rightarrow>
                    (let (ok, g) = guard_admit now d nonce (ur_register_guard r);
                         r = r\<lparr>ur_register_guard := g\<rparr> in
                     if \<not> ok then ([], count_drop r)
                     else
                       ([(build_ack_packet (show_ipv4 (fst peer)) (snd peer), peer)],
                        r\<lparr>ur_registrations :=
                            tput d \<lparr>rg_endpoint = peer, rg_expires_ms = now + REGISTRATION_TTL_MS\<rparr>
                              (ur_registrations r),
                          ur_register_count := ur_register_count r + 1,
                          ur_presence :=
                            touch_relay_udp now d (show_sockaddr_v4 (fst peer) (snd peer))
                              (ur_presence r)\<rparr>))))"

definition handle_relay ::
  "millis \<Rightarrow> bool \<Rightarrow> SockAddr \<Rightarrow> u64 \<Rightarrow> u64 \<Rightarrow> bytes \<Rightarrow> UdpRelay \<Rightarrow> (bytes \<times> SockAddr) list \<times> UdpRelay" where
  "handle_relay now send_ok peer src dst frame r =
     (case tget (ur_registrations r) src of
        None \<Rightarrow> ([], count_drop r)
      | Some src_reg \<Rightarrow>
          if rg_expires_ms src_reg < now \<or> rg_endpoint src_reg \<noteq> peer then ([], count_drop r)
          else
            (let r = r\<lparr>ur_registrations :=
                        tput src (src_reg\<lparr>rg_expires_ms := now + REGISTRATION_TTL_MS\<rparr>)
                          (ur_registrations r)\<rparr> in
             case tget (ur_registrations r) dst of
               None \<Rightarrow> ([], count_drop r)
             | Some dreg \<Rightarrow>
                 if \<not> now < rg_expires_ms dreg then ([], count_drop r)
                 else
                   (let r = r\<lparr>ur_presence :=
                              touch_relay_udp now src (show_sockaddr_v4 (fst peer) (snd peer))
                                (ur_presence r)\<rparr> in
                    ([(frame, rg_endpoint dreg)],
                     if send_ok then
                       r\<lparr>ur_forwarded_packets := ur_forwarded_packets r + 1,
                         ur_forwarded_bytes := ur_forwarded_bytes r + of_nat (length frame)\<rparr>
                     else count_drop r))))"

definition udp_handle ::
  "hmac \<Rightarrow> (u64 \<Rightarrow> bytes option) \<Rightarrow> millis \<Rightarrow> bool \<Rightarrow> SockAddr \<Rightarrow> bytes \<Rightarrow> UdpRelay \<Rightarrow>
   (bytes \<times> SockAddr) list \<times> UdpRelay" where
  "udp_handle h lookup now send_ok peer packet r =
     (case Option.bind (relay_udp_parse packet) id of
        None \<Rightarrow> ([], count_drop r)
      | Some (RegisterPkt d) \<Rightarrow> handle_register h lookup now peer packet d r
      | Some (RelayPkt src dst frame) \<Rightarrow> handle_relay now send_ok peer src dst frame r
      | Some (AckPkt ip port) \<Rightarrow> ([], r)
      | Some (ErrorPkt msg) \<Rightarrow> ([], r))"

text \<open>The sweeper task, every two minutes.\<close>

definition udp_sweep :: "millis \<Rightarrow> UdpRelay \<Rightarrow> UdpRelay" where
  "udp_sweep now r =
     r\<lparr>ur_registrations := tkeep (\<lambda>_ reg. now < rg_expires_ms reg) (ur_registrations r),
       ur_key_cache := tkeep (\<lambda>_ k. now < kc_expires_ms k) (ur_key_cache r),
       ur_key_neg_cache := tkeep (\<lambda>_ t. now - t < KEY_NEG_CACHE_TTL_MS) (ur_key_neg_cache r),
       ur_register_guard := guard_sweep now (ur_register_guard r)\<rparr>"

definition udp_unregister :: "u64 \<Rightarrow> UdpRelay \<Rightarrow> UdpRelay" where
  "udp_unregister d r =
     r\<lparr>ur_registrations := tdel d (ur_registrations r), ur_key_cache := tdel d (ur_key_cache r)\<rparr>"

definition udp_observed_endpoint :: "u64 \<Rightarrow> UdpRelay \<Rightarrow> string option" where
  "udp_observed_endpoint d r =
     map_option (\<lambda>reg. show_sockaddr_v4 (fst (rg_endpoint reg)) (snd (rg_endpoint reg)))
       (tget (ur_registrations r) d)"

record RelayStats =
  st_forwarded_bytes :: u64
  st_forwarded_packets :: u64
  st_dropped_packets :: u64
  st_registers :: u64
  st_active :: nat

definition udp_stats :: "UdpRelay \<Rightarrow> RelayStats" where
  "udp_stats r =
     \<lparr>st_forwarded_bytes = ur_forwarded_bytes r, st_forwarded_packets = ur_forwarded_packets r,
      st_dropped_packets = ur_dropped_packets r, st_registers = ur_register_count r,
      st_active = length (ur_registrations r)\<rparr>"

section \<open>Runs\<close>

datatype UdpEvent =
    Datagram millis bool SockAddr bytes
  | SweepTick millis
  | UnregisterDevice u64

fun udp_step ::
  "hmac \<Rightarrow> (u64 \<Rightarrow> bytes option) \<Rightarrow> UdpRelay \<Rightarrow> UdpEvent \<Rightarrow> (bytes \<times> SockAddr) list \<times> UdpRelay" where
  "udp_step h lookup r (Datagram now ok peer p) = udp_handle h lookup now ok peer p r"
| "udp_step h lookup r (SweepTick now) = ([], udp_sweep now r)"
| "udp_step h lookup r (UnregisterDevice d) = ([], udp_unregister d r)"

text \<open>
  The history contains a REGISTER packet for device d from the address ep that was
  built with d's relay key.
\<close>

definition registered_in ::
  "hmac \<Rightarrow> (u64 \<Rightarrow> bytes option) \<Rightarrow> UdpEvent set \<Rightarrow> u64 \<Rightarrow> SockAddr \<Rightarrow> bool" where
  "registered_in h lookup hist d ep =
     (\<exists>now ok k n. Datagram now ok ep (build_register h d k n) \<in> hist \<and> lookup d = Some k \<and> length n = 16)"

definition udp_inv :: "hmac \<Rightarrow> (u64 \<Rightarrow> bytes option) \<Rightarrow> UdpEvent set \<Rightarrow> UdpRelay \<Rightarrow> bool" where
  "udp_inv h lookup hist r =
     (tinv (ur_registrations r) \<and> tinv (ur_key_cache r) \<and> tinv (ur_key_neg_cache r)
      \<and> tinv (ur_register_guard r) \<and> length (ur_key_neg_cache r) \<le> KEY_NEG_CACHE_CAP
      \<and> (\<forall>d e. tget (ur_key_cache r) d = Some e \<longrightarrow> lookup d = Some (kc_key e))
      \<and> (\<forall>d reg. tget (ur_registrations r) d = Some reg \<longrightarrow>
            registered_in h lookup hist d (rg_endpoint reg)))"

lemma registered_in_mono: "hist \<subseteq> hist' \<Longrightarrow> registered_in h l hist d ep \<Longrightarrow> registered_in h l hist' d ep"
  unfolding registered_in_def by blast

lemma udp_inv_mono: "hist \<subseteq> hist' \<Longrightarrow> udp_inv h l hist r \<Longrightarrow> udp_inv h l hist' r"
  unfolding udp_inv_def using registered_in_mono by blast

lemma relay_key_of_inv:
  assumes "udp_inv h l hist r" and "relay_key_of l now d r = (key, r')"
  shows "udp_inv h l hist r'" and "\<And>k. key = Some k \<Longrightarrow> l d = Some k"
    and "ur_registrations r' = ur_registrations r" and "ur_register_guard r' = ur_register_guard r"
    and "ur_presence r' = ur_presence r"
proof -
  have len: "length (tdel d (ur_key_neg_cache r)) \<le> KEY_NEG_CACHE_CAP"
    using assms(1) length_delete_le [of d "ur_key_neg_cache r"] by (simp add: udp_inv_def)
  show "udp_inv h l hist r'" "\<And>k. key = Some k \<Longrightarrow> l d = Some k"
    "ur_registrations r' = ur_registrations r" "ur_register_guard r' = ur_register_guard r"
    "ur_presence r' = ur_presence r"
    using assms len
    by (auto simp: relay_key_of_def udp_inv_def table_simps length_tput
        split: option.splits if_splits)
qed

lemma udp_inv_guard [simp]:
  "tinv g \<Longrightarrow> udp_inv h l hist r \<Longrightarrow> udp_inv h l hist (r\<lparr>ur_register_guard := g\<rparr>)"
  by (simp add: udp_inv_def)

lemma udp_inv_count_drop [simp]: "udp_inv h l hist (count_drop r) = udp_inv h l hist r"
  by (simp add: udp_inv_def count_drop_def)

lemma udp_inv_irrelevant [simp]:
  "udp_inv h l hist (r\<lparr>ur_presence := p\<rparr>) = udp_inv h l hist r"
  "udp_inv h l hist (r\<lparr>ur_forwarded_packets := a\<rparr>) = udp_inv h l hist r"
  "udp_inv h l hist (r\<lparr>ur_forwarded_bytes := a\<rparr>) = udp_inv h l hist r"
  "udp_inv h l hist (r\<lparr>ur_register_count := a\<rparr>) = udp_inv h l hist r"
  by (simp_all add: udp_inv_def)

lemma register_registers:
  assumes "hmac32 h" and "verify_register h p k" and "relay_udp_parse p = Some (Some (RegisterPkt d))"
    and "lookup d = Some k" and "Datagram now ok ep p \<in> hist"
  shows "registered_in h lookup hist d ep"
proof -
  obtain d' n where n: "length n = 16" "p = build_register h d' k n"
    using verify_register_iff [OF assms(1)] assms(2) by blast
  then have "d' = d" using build_register_fields(2) [OF assms(1) n(1), of d' k] assms(3) by simp
  then show ?thesis using n assms(4,5) by (auto simp: registered_in_def)
qed

lemma handle_register_inv:
  assumes "hmac32 h" and i: "udp_inv h l hist r" and p: "relay_udp_parse p = Some (Some (RegisterPkt d))"
    and s: "handle_register h l now peer p d r = (out, r')" and e: "Datagram now ok peer p \<in> hist"
  shows "udp_inv h l hist r'"
proof -
  obtain key r1 where k: "relay_key_of l now d r = (key, r1)" by force
  note ki = relay_key_of_inv [OF i k]
  obtain adm g where g: "guard_admit now d (the (register_nonce p)) (ur_register_guard r1) = (adm, g)"
    by force
  have tg: "tinv g" using tinv_guard_admit [of "ur_register_guard r1" now d "the (register_nonce p)"] g ki(1)
    by (simp add: udp_inv_def)
  have r: "registered_in h l hist d peer" if "key = Some kk" "verify_register h p kk" for kk
    by (rule register_registers [where lookup = l, OF assms(1) that(2) p ki(2) [OF that(1)] e])
  show ?thesis
    using s k ki(1) g tg r
    by (auto simp: handle_register_def Let_def udp_inv_def count_drop_def table_simps
        split: option.splits if_splits prod.splits)
qed

lemma handle_relay_inv:
  assumes i: "udp_inv h l hist r" and s: "handle_relay now ok peer src dst f r = (out, r')"
  shows "udp_inv h l hist r'"
proof -
  have "udp_inv h l hist (r\<lparr>ur_registrations :=
          tput src (reg\<lparr>rg_expires_ms := e\<rparr>) (ur_registrations r)\<rparr>)"
    if "tget (ur_registrations r) src = Some reg" for reg e
    using i that by (auto simp: udp_inv_def table_simps)
  then show ?thesis
    using s i by (auto simp: handle_relay_def Let_def split: option.splits if_splits)
qed

lemma udp_sweep_inv: "udp_inv h l hist r \<Longrightarrow> udp_inv h l hist (udp_sweep now r)"
  by (auto simp: udp_inv_def udp_sweep_def table_simps intro: order_trans [OF length_tkeep_le]
      split: option.splits if_splits)

lemma udp_unregister_inv: "udp_inv h l hist r \<Longrightarrow> udp_inv h l hist (udp_unregister d r)"
  by (auto simp: udp_inv_def udp_unregister_def table_simps split: if_splits)

lemma udp_step_inv:
  assumes "hmac32 h" and "udp_inv h l hist r" and "udp_step h l r e = (out, r')"
  shows "udp_inv h l (insert e hist) r'"
proof -
  have i: "udp_inv h l (insert e hist) r" using udp_inv_mono [OF _ assms(2)] by blast
  show ?thesis
  proof (cases e)
    case (Datagram now ok peer p)
    obtain q where q: "relay_udp_parse p = Some q" using relay_udp_parse_total by blast
    show ?thesis
    proof (cases q)
      case None
      then show ?thesis using assms(3) i Datagram q by (simp add: udp_handle_def) auto
    next
      case (Some pk)
      then show ?thesis
        using assms(3) i Datagram q
          handle_register_inv [OF assms(1) i, of p _ now peer out r' ok]
          handle_relay_inv [OF i, of now ok peer _ _ _ out r']
        by (cases pk) (auto simp: udp_handle_def)
    qed
  next
    case (SweepTick now)
    then show ?thesis using assms(3) udp_sweep_inv [OF i] by auto
  next
    case (UnregisterDevice d)
    then show ?thesis using assms(3) udp_unregister_inv [OF i] by auto
  qed
qed

lemma udp_run_inv:
  assumes "hmac32 h"
  shows "udp_inv h l hist r \<Longrightarrow> run (udp_step h l) r es = (outs, r') \<Longrightarrow> udp_inv h l (hist \<union> set es) r'"
proof (induction es arbitrary: hist r outs)
  case (Cons e es)
  obtain out r1 where 1: "udp_step h l r e = (out, r1)" by force
  obtain outs2 r2 where 2: "run (udp_step h l) r1 es = (outs2, r2)" by force
  have "udp_inv h l (insert e hist) r1" using udp_step_inv [OF assms Cons.prems(1) 1] .
  from Cons.IH [OF this] 2 Cons.prems(2) 1 show ?case by (auto simp: Un_commute insert_commute)
qed simp

lemma udp_inv_new: "tinv g \<Longrightarrow> udp_inv h l {} (udp_relay_new pr g)"
  by (simp add: udp_inv_def udp_relay_new_def)

text \<open>A genuine, fresh REGISTER is accepted.\<close>

lemma register_accepted:
  assumes "hmac32 h" and "lookup d = Some k" and "length n = 16"
    and "tget (ur_key_cache r) d = None" and "tget (ur_key_neg_cache r) d = None"
    and "tget (ur_register_guard r) (d, n) = None"
  shows "udp_step h lookup r (Datagram now ok peer (build_register h d k n)) =
     ([(build_ack_packet (show_ipv4 (fst peer)) (snd peer), peer)],
      r\<lparr>ur_key_neg_cache := tdel d (ur_key_neg_cache r),
        ur_key_cache := tput d \<lparr>kc_key = k, kc_expires_ms = now + KEY_CACHE_TTL_MS\<rparr> (ur_key_cache r),
        ur_register_guard := tput (d, n) (now + NONCE_TTL_MS) (ur_register_guard r),
        ur_registrations := tput d \<lparr>rg_endpoint = peer, rg_expires_ms = now + REGISTRATION_TTL_MS\<rparr>
          (ur_registrations r),
        ur_register_count := ur_register_count r + 1,
        ur_presence := touch_relay_udp now d (show_sockaddr_v4 (fst peer) (snd peer)) (ur_presence r)\<rparr>)"
proof -
  let ?p = "build_register h d k n"
  have "verify_register h ?p k" using verify_register_iff [OF assms(1)] assms(3) by blast
  moreover have "length ?p = REGISTER_PACKET_SIZE"
    using assms(1,3) by (simp add: build_register_def Let_def write_u64_le_def register_sizes
        register_mac_def hmac32_def)
  ultimately show ?thesis
    using assms build_register_fields [OF assms(1,3), of d k]
    by (simp add: udp_handle_def handle_register_def relay_key_of_def guard_admit_def)
qed

definition ex_lookup :: "u64 \<Rightarrow> bytes option" where
  "ex_lookup d = (if d = 7 then Some [9] else if d = 8 then Some [5] else None)"

definition ex_registers :: "UdpEvent list" where
  "ex_registers =
     [Datagram 0 True (1, 1) (build_register toy_hmac 7 [9] (replicate 16 3)),
      Datagram 5 True (2, 2) (build_register toy_hmac 8 [5] (replicate 16 3))]"

lemma ex_registers_run:
  "\<exists>outs r. run (udp_step toy_hmac ex_lookup) (udp_relay_new presence_new []) ex_registers = (outs, r)
     \<and> ur_registrations r = [(7, \<lparr>rg_endpoint = (1, 1), rg_expires_ms = 60000\<rparr>),
                              (8, \<lparr>rg_endpoint = (2, 2), rg_expires_ms = 60005\<rparr>)]
     \<and> tget (ur_register_guard r) (7, replicate 16 3) = Some 600000"
  by (simp add: ex_registers_def register_accepted toy_hmac32 ex_lookup_def udp_relay_new_def
      REGISTRATION_TTL_MS_def PRESENCE_TIMEOUT_MS_def NONCE_TTL_MS_def del: udp_step.simps)

text \<open>
  C18 (safety). Only traffic between registered endpoints is relayed: in every run, a frame
  is sent on only for a RELAY packet that came from the very address its source
  device registered from, only to the address the destination device registered
  from, and both registrations were REGISTER packets built with the device's
  own relay key; the inner frame goes out unchanged, in one copy.
\<close>
theorem udp_relay_anti_spoof:
  assumes "hmac32 h" and "tinv g"
    and "run (udp_step h lookup) (udp_relay_new pr g) es = (outs, r)"
    and "relay_udp_parse p = Some (Some (RelayPkt src dst frame))"
    and "udp_step h lookup r (Datagram now ok peer p) = (out, r')" and "out \<noteq> []"
  shows "\<exists>ep. out = [(frame, ep)] \<and> registered_in h lookup (set es) src peer
              \<and> registered_in h lookup (set es) dst ep"
proof -
  have i: "udp_inv h lookup (set es) r"
    using udp_run_inv [OF assms(1) udp_inv_new [OF assms(2)] assms(3)] by simp
  have s: "handle_relay now ok peer src dst frame r = (out, r')"
    using assms(4,5) by (simp add: udp_handle_def)
  then obtain sreg dreg where reg: "tget (ur_registrations r) src = Some sreg" "rg_endpoint sreg = peer"
    and d: "tget (ur_registrations r) dst = Some dreg \<or> dst = src" and
    out: "out = [(frame, if dst = src then peer else rg_endpoint dreg)]"
    using assms(6)
    by (auto simp: handle_relay_def Let_def table_simps split: option.splits if_splits)
  have "registered_in h lookup (set es) src peer" using i reg by (auto simp: udp_inv_def)
  moreover have "registered_in h lookup (set es) dst (if dst = src then peer else rg_endpoint dreg)"
    using i d calculation by (auto simp: udp_inv_def)
  ultimately show ?thesis using out by blast
qed

text \<open>
  Unknown ids cannot blow up the memory: in every run the negative key
  cache holds at most 100000 entries, and every cached key is the device's key.
\<close>
theorem udp_key_cache_sound:
  assumes "hmac32 h" and "tinv g"
    and "run (udp_step h lookup) (udp_relay_new pr g) es = (outs, r)"
  shows "length (ur_key_neg_cache r) \<le> 100000
       \<and> (\<forall>d e. tget (ur_key_cache r) d = Some e \<longrightarrow> lookup d = Some (kc_key e))"
  using udp_run_inv [OF assms(1) udp_inv_new [OF assms(2)] assms(3)]
  by (simp add: udp_inv_def KEY_NEG_CACHE_CAP_def)

text \<open>
  A REGISTER packet whose nonce the guard has seen within its TTL changes no
  registration, from whatever address it is replayed, and is not answered unless
  it fails authentication.
\<close>
theorem udp_replayed_register:
  assumes "tget (ur_register_guard r) (d, n) = Some e" and "now < e"
    and "relay_udp_parse p = Some (Some (RegisterPkt d))" and "register_nonce p = Some n"
    and "udp_step h lookup r (Datagram now ok peer p) = (out, r')"
  shows "ur_registrations r' = ur_registrations r \<and> ur_register_guard r' = ur_register_guard r
       \<and> set out \<subseteq> {(unknown_device_error, peer)}"
proof -
  obtain key r1 where k: "relay_key_of lookup now d r = (key, r1)" by force
  have same: "ur_registrations r1 = ur_registrations r" "ur_register_guard r1 = ur_register_guard r"
    using k by (auto simp: relay_key_of_def split: option.splits if_splits)
  then have "guard_admit now d n (ur_register_guard r1) = (False, ur_register_guard r)"
    using assms(1,2) by (simp add: guard_admit_def)
  then show ?thesis
    using assms(3-) k same
    by (auto simp: udp_handle_def handle_register_def count_drop_def Let_def split: option.splits if_splits)
qed

theorem udp_relay_anti_spoof_witness:
  "\<exists>ep. registered_in toy_hmac ex_lookup (set ex_registers) 7 (1, 1)
      \<and> registered_in toy_hmac ex_lookup (set ex_registers) 8 ep"
proof -
  obtain outs r where run: "run (udp_step toy_hmac ex_lookup) (udp_relay_new presence_new []) ex_registers = (outs, r)"
    and regs: "ur_registrations r = [(7, \<lparr>rg_endpoint = (1, 1), rg_expires_ms = 60000\<rparr>),
                              (8, \<lparr>rg_endpoint = (2, 2), rg_expires_ms = 60005\<rparr>)]"
    using ex_registers_run by blast
  obtain out r' where s: "udp_step toy_hmac ex_lookup r (Datagram 9 True (1, 1) (build_relay 7 8 [1])) = (out, r')"
    by force
  then have "out \<noteq> []"
    by (auto simp: udp_handle_def relay_udp_parse_relay handle_relay_def regs Let_def)
  then show ?thesis
    using udp_relay_anti_spoof [OF toy_hmac32 tinv_empty run relay_udp_parse_relay s] by blast
qed

theorem udp_key_cache_sound_witness:
  "\<exists>r :: UdpRelay. length (ur_key_neg_cache r) \<le> 100000 \<and> ur_registrations r \<noteq> []"
proof -
  obtain outs r where run: "run (udp_step toy_hmac ex_lookup) (udp_relay_new presence_new []) ex_registers = (outs, r)"
    and regs: "ur_registrations r = [(7, \<lparr>rg_endpoint = (1, 1), rg_expires_ms = 60000\<rparr>),
                              (8, \<lparr>rg_endpoint = (2, 2), rg_expires_ms = 60005\<rparr>)]"
    using ex_registers_run by blast
  show ?thesis
    using udp_key_cache_sound [OF toy_hmac32 tinv_empty run] regs by (intro exI [of _ r]) simp
qed

theorem udp_replayed_register_witness:
  "\<exists>r r' out. udp_step toy_hmac ex_lookup r
       (Datagram 70 True (6, 6) (build_register toy_hmac 7 [9] (replicate 16 3))) = (out, r')
     \<and> ur_registrations r' = ur_registrations r \<and> ur_registrations r \<noteq> []"
proof -
  obtain outs r where
    run: "run (udp_step toy_hmac ex_lookup) (udp_relay_new presence_new []) ex_registers = (outs, r)"
    and regs: "ur_registrations r = [(7, \<lparr>rg_endpoint = (1, 1), rg_expires_ms = 60000\<rparr>),
                              (8, \<lparr>rg_endpoint = (2, 2), rg_expires_ms = 60005\<rparr>)]"
    and g: "tget (ur_register_guard r) (7, replicate 16 3) = Some 600000"
    using ex_registers_run by blast
  obtain out r' where s: "udp_step toy_hmac ex_lookup r
       (Datagram 70 True (6, 6) (build_register toy_hmac 7 [9] (replicate 16 3))) = (out, r')" by force
  have "length (replicate 16 3 :: bytes) = 16" by simp
  note f = build_register_fields [OF toy_hmac32 this, of 7 "[9]"]
  have "ur_registrations r' = ur_registrations r"
    using udp_replayed_register [OF g _ f(2) f(1) s] by simp
  then show ?thesis using s regs by (intro exI [of _ r] exI [of _ r'] exI [of _ out]) simp
qed

end
