(* ===== verification/RelayTcpProto.thy ===== *)
theory RelayTcpProto
  imports RelayUdpProto
begin

text \<open>
  crates/skiff-core/src/protocol/relay\_tcp.rs: length-prefixed TCP framing, the
  commands of the TCP relay and the reassembly of frames from a byte stream.
\<close>

definition CMD_TCP_SEND :: u8 where "CMD_TCP_SEND = 5"
definition CMD_TCP_FRAME :: u8 where "CMD_TCP_FRAME = 6"
definition CMD_TCP_KEEPALIVE :: u8 where "CMD_TCP_KEEPALIVE = 7"
definition CMD_TCP_KEEPALIVE_RESP :: u8 where "CMD_TCP_KEEPALIVE_RESP = 8"
definition LENGTH_HEADER :: nat where "LENGTH_HEADER = 4"
definition TCP_MAX_PAYLOAD :: nat where "TCP_MAX_PAYLOAD = 512 * 1024"

lemmas relay_tcp_consts =
  CMD_TCP_SEND_def CMD_TCP_FRAME_def CMD_TCP_KEEPALIVE_def CMD_TCP_KEEPALIVE_RESP_def

definition write_length_prefixed :: "bytes \<Rightarrow> bytes \<Rightarrow> bytes" where
  "write_length_prefixed out inner = write_u32_le out (of_nat (length inner)) @ inner"

definition encode_cmd :: "u8 \<Rightarrow> bytes \<Rightarrow> bytes" where
  "encode_cmd cmd data = [RELAY_MAGIC, RELAY_VERSION, cmd] @ data"

definition build_send_body :: "u64 \<Rightarrow> bytes \<Rightarrow> bytes" where
  "build_send_body dst_id frame = write_u64_le [] dst_id @ frame"

definition parse_send_body :: "bytes \<Rightarrow> (u64 \<times> bytes) option option" where
  "parse_send_body body =
     (if length body < 8 then Some None
      else do {
        dst \<leftarrow> read_u64_le body; frame \<leftarrow> slice_from body 8;
        Some (Some (dst, frame)) })"

datatype RelayTcpMsg =
    TcpRegister bytes
  | TcpAck bytes
  | TcpError bytes
  | TcpSend u64 bytes
  | TcpFrame bytes
  | TcpKeepalive
  | TcpKeepaliveResp

definition relay_tcp_parse :: "bytes \<Rightarrow> RelayTcpMsg option option" where
  "relay_tcp_parse inner =
     (if length inner < 3 \<or> inner ! 0 \<noteq> RELAY_MAGIC \<or> inner ! 1 \<noteq> RELAY_VERSION then Some None
      else do {
        data \<leftarrow> slice_from inner 3;
        cmd \<leftarrow> idx inner 2;
        if cmd = CMD_REGISTER then Some (Some (TcpRegister data))
        else if cmd = CMD_ACK then Some (Some (TcpAck data))
        else if cmd = CMD_ERROR then Some (Some (TcpError data))
        else if cmd = CMD_TCP_SEND then do {
          r \<leftarrow> parse_send_body data;
          (case r of None \<Rightarrow> Some None
           | Some (dst, frame) \<Rightarrow> Some (Some (TcpSend dst frame))) }
        else if cmd = CMD_TCP_FRAME then Some (Some (TcpFrame data))
        else if cmd = CMD_TCP_KEEPALIVE then Some (Some TcpKeepalive)
        else if cmd = CMD_TCP_KEEPALIVE_RESP then Some (Some TcpKeepaliveResp)
        else Some None })"

section \<open>Reassembly\<close>

text \<open>
  The loop of FrameReassembler::feed on the buffered bytes: the frames taken
  out so far, in order, and what remains buffered. The outer option is a panic.
\<close>

function feed_loop :: "bytes \<Rightarrow> bytes list \<Rightarrow> ((string + bytes list) \<times> bytes) option" where
  "feed_loop buf frames =
     (if length buf < LENGTH_HEADER then Some (Inr frames, buf)
      else (case read_u32_le buf of
        None \<Rightarrow> None
      | Some w \<Rightarrow>
          (let len = unat w in
           if TCP_MAX_PAYLOAD < len then Some (Inl ''frame too large'', [])
           else if length buf < LENGTH_HEADER + len then Some (Inr frames, buf)
           else (case slice buf LENGTH_HEADER (LENGTH_HEADER + len) of
                   None \<Rightarrow> None
                 | Some frame \<Rightarrow>
                     feed_loop (drop (LENGTH_HEADER + len) buf) (frames @ [frame])))))"
  by pat_completeness auto

termination feed_loop
  by (relation "measure (\<lambda>(buf, _). length buf)") (auto simp: LENGTH_HEADER_def)

declare feed_loop.simps [simp del]

definition feed :: "bytes \<Rightarrow> bytes \<Rightarrow> ((string + bytes list) \<times> bytes) option" where
  "feed buf chunk = feed_loop (buf @ chunk) []"

section \<open>The stream contract\<close>

text \<open>One step of the loop, with the reads resolved.\<close>

definition head_len :: "bytes \<Rightarrow> nat" where
  "head_len buf = unat (of_nat (le_val (take 4 buf)) :: u32)"

lemma feed_loop_step:
  "feed_loop buf frames =
     (if length buf < 4 then Some (Inr frames, buf)
      else if TCP_MAX_PAYLOAD < head_len buf then Some (Inl ''frame too large'', [])
      else if length buf < 4 + head_len buf then Some (Inr frames, buf)
      else feed_loop (drop (4 + head_len buf) buf) (frames @ [take (head_len buf) (drop 4 buf)]))"
  by (subst feed_loop.simps)
     (auto simp: LENGTH_HEADER_def read_u32_le_val head_len_def slice_def Let_def)

lemma feed_loop_total: "\<exists>r b. feed_loop buf frames = Some (r, b)"
proof (induction "length buf" arbitrary: buf frames rule: less_induct)
  case less
  show ?case
    by (subst feed_loop_step) (use less in auto)
qed

lemma head_len_append: "4 \<le> length buf \<Longrightarrow> head_len (buf @ more) = head_len buf"
  by (simp add: head_len_def)

text \<open>Bytes that arrive later do not change the frames already cut off.\<close>

lemma feed_loop_append:
  "feed_loop buf frames = Some (Inr fs, rest) \<Longrightarrow>
   feed_loop (buf @ more) frames = feed_loop (rest @ more) fs"
proof (induction "length buf" arbitrary: buf frames rule: less_induct)
  case less
  consider "length buf < 4" | "4 \<le> length buf" "TCP_MAX_PAYLOAD < head_len buf"
    | "4 \<le> length buf" "\<not> TCP_MAX_PAYLOAD < head_len buf" "length buf < 4 + head_len buf"
    | "4 \<le> length buf" "\<not> TCP_MAX_PAYLOAD < head_len buf" "4 + head_len buf \<le> length buf"
    by linarith
  then show ?case
  proof cases
    case 4
    have "feed_loop (drop (4 + head_len buf) buf) (frames @ [take (head_len buf) (drop 4 buf)])
        = Some (Inr fs, rest)"
      using less.prems 4 by (subst (asm) feed_loop_step) simp
    then have "feed_loop (drop (4 + head_len buf) buf @ more) (frames @ [take (head_len buf) (drop 4 buf)])
        = feed_loop (rest @ more) fs"
      using less.hyps [of "drop (4 + head_len buf) buf"] 4 by simp
    moreover have "take (head_len buf) (drop 4 (buf @ more)) = take (head_len buf) (drop 4 buf)"
      using 4 by simp
    ultimately show ?thesis
      using 4 by (subst feed_loop_step) (simp add: head_len_append)
  qed (use less.prems in \<open>subst (asm) feed_loop_step, simp\<close>)+
qed

text \<open>A result of the loop with earlier frames put in front.\<close>

definition prepend :: "bytes list \<Rightarrow> (string + bytes list) \<times> bytes \<Rightarrow> (string + bytes list) \<times> bytes" where
  "prepend fs r = (case r of (Inl e, b) \<Rightarrow> (Inl e, b) | (Inr gs, b) \<Rightarrow> (Inr (fs @ gs), b))"

lemma prepend_simps [simp]:
  "prepend fs (Inl e, b) = (Inl e, b)" "prepend fs (Inr gs, b) = (Inr (fs @ gs), b)"
  "prepend fs (prepend gs r) = prepend (fs @ gs) r"
  by (auto simp: prepend_def split: prod.splits sum.splits)

lemma prepend_eq_Inr: "prepend fs r = (Inr ps, b) \<longleftrightarrow> (\<exists>qs. r = (Inr qs, b) \<and> ps = fs @ qs)"
  by (auto simp: prepend_def split: prod.splits sum.splits)

lemma feed_loop_frames: "feed_loop buf frames = map_option (prepend frames) (feed_loop buf [])"
proof (induction "length buf" arbitrary: buf frames rule: less_induct)
  case less
  let ?d = "drop (4 + head_len buf) buf" and ?f = "take (head_len buf) (drop 4 buf)"
  show ?case
  proof (cases "4 \<le> length buf \<and> \<not> TCP_MAX_PAYLOAD < head_len buf \<and> 4 + head_len buf \<le> length buf")
    case True
    then have "length ?d < length buf" unfolding length_drop by linarith
    then have "feed_loop ?d (frames @ [?f]) = map_option (prepend (frames @ [?f])) (feed_loop ?d [])"
      "feed_loop ?d [?f] = map_option (prepend [?f]) (feed_loop ?d [])"
      using less by blast+
    moreover have "feed_loop buf frames = feed_loop ?d (frames @ [?f])"
      "feed_loop buf [] = feed_loop ?d [?f]"
      using True by (subst feed_loop_step, simp)+
    ultimately show ?thesis by (simp add: option.map_comp comp_def)
  qed (subst (1 2) feed_loop_step, auto)
qed

lemma feed_loop_prefixed:
  assumes "length p \<le> TCP_MAX_PAYLOAD"
  shows "feed_loop (write_length_prefixed [] p @ more) frames = feed_loop more (frames @ [p])"
proof -
  let ?b = "write_length_prefixed [] p @ more"
  have l: "length p < 2 ^ 32" using assms by (simp add: TCP_MAX_PAYLOAD_def)
  have "head_len ?b = length p"
    using l by (simp add: head_len_def write_length_prefixed_def write_u32_le_def u32_to_le_bytes_def
        le_val_le_bytes unat_of_nat)
  moreover have "take (length p) (drop 4 ?b) = p" "drop (4 + length p) ?b = more"
    by (simp_all add: write_length_prefixed_def write_u32_le_def)
  moreover have "4 + length p \<le> length ?b"
    by (simp add: write_length_prefixed_def write_u32_le_def)
  ultimately show ?thesis using assms by (subst feed_loop_step) simp
qed

definition stream_of :: "bytes list \<Rightarrow> bytes" where
  "stream_of ps = concat (map (write_length_prefixed []) ps)"

lemma feed_loop_stream:
  "\<forall>p\<in>set ps. length p \<le> TCP_MAX_PAYLOAD \<Longrightarrow> feed_loop (stream_of ps) frames = Some (Inr (frames @ ps), [])"
proof (induction ps arbitrary: frames)
  case Nil
  then show ?case by (subst feed_loop_step) (simp add: stream_of_def)
next
  case (Cons p ps)
  then show ?case
    using feed_loop_prefixed [of p "stream_of ps" frames] by (simp add: stream_of_def)
qed

lemma feed_loop_error_append:
  "feed_loop buf frames = Some (Inl e, b) \<Longrightarrow> feed_loop (buf @ more) frames = Some (Inl e, b)"
proof (induction "length buf" arbitrary: buf frames rule: less_induct)
  case less
  let ?d = "drop (4 + head_len buf) buf" and ?f = "take (head_len buf) (drop 4 buf)"
  show ?case
  proof (cases "4 \<le> length buf \<and> \<not> TCP_MAX_PAYLOAD < head_len buf \<and> 4 + head_len buf \<le> length buf")
    case True
    have "feed_loop ?d (frames @ [?f]) = Some (Inl e, b)"
      using less.prems True by (subst (asm) feed_loop_step) simp
    moreover have "length ?d < length buf" using True unfolding length_drop by linarith
    ultimately have "feed_loop (?d @ more) (frames @ [?f]) = Some (Inl e, b)"
      using less.hyps by blast
    then show ?thesis using True by (subst feed_loop_step) (simp add: head_len_append)
  next
    case False
    then have "4 \<le> length buf" "TCP_MAX_PAYLOAD < head_len buf" "e = ''frame too large''" "b = []"
      using less.prems by (subst (asm) feed_loop_step, auto split: if_splits)+
    then show ?thesis by (subst feed_loop_step) (simp add: head_len_append)
  qed
qed

text \<open>The reassembler over a run of chunks, stopped at the first error.\<close>

fun feed_all :: "bytes \<Rightarrow> bytes list \<Rightarrow> ((string + bytes list) \<times> bytes) option" where
  "feed_all buf [] = Some (Inr [], buf)"
| "feed_all buf (c # cs) =
     (case feed buf c of
        None \<Rightarrow> None
      | Some (Inl e, b) \<Rightarrow> Some (Inl e, b)
      | Some (Inr fs, b) \<Rightarrow>
          map_option (prepend fs) (feed_all b cs))"

lemma feed_all_concat:
  assumes "feed_loop (buf @ concat cs) [] = Some (Inr ps, [])" and "cs = [] \<Longrightarrow> buf = []"
  shows "feed_all buf cs = Some (Inr ps, [])"
  using assms
proof (induction cs arbitrary: buf ps)
  case Nil
  then show ?case by (simp add: feed_loop_step [of "[]"])
next
  case (Cons c cs)
  obtain r b where f: "feed_loop (buf @ c) [] = Some (r, b)"
    using feed_loop_total [of "buf @ c" "[]"] by blast
  have "r \<noteq> Inl e" for e
    using feed_loop_error_append [of "buf @ c" "[]" e b "concat cs"] f Cons.prems by auto
  then obtain fs where r: "r = Inr fs" by (cases r) auto
  have "feed_loop (b @ concat cs) fs = Some (Inr ps, [])"
    using feed_loop_append [of "buf @ c" "[]" fs b "concat cs"] f r Cons.prems by simp
  then obtain qs where q: "feed_loop (b @ concat cs) [] = Some (Inr qs, [])" "ps = fs @ qs"
    by (subst (asm) feed_loop_frames) (auto simp: prepend_eq_Inr)
  moreover have "b = []" if "cs = []" using f r that Cons.prems by simp
  ultimately show ?case using Cons.IH [OF q(1)] f r by (simp add: feed_def)
qed

text \<open>
  However the byte stream of a connection is cut into chunks, the
  reassembler hands out exactly the framed payloads, in order, and nothing
  remains buffered.
\<close>
theorem reassembler_any_chunking:
  assumes "\<forall>p\<in>set ps. length p \<le> TCP_MAX_PAYLOAD" and "concat chunks = stream_of ps"
  shows "feed_all [] chunks = Some (Inr ps, [])"
  using feed_all_concat [of "[]" chunks ps] feed_loop_stream [OF assms(1), of "[]"] assms(2) by simp

theorem reassembler_any_chunking_witness:
  "feed_all [] [[2, 0], [0, 0, 8], [9, 1, 0, 0, 0, 5]] = Some (Inr [[8, 9], [5]], [])"
proof (rule reassembler_any_chunking)
  show "\<forall>p\<in>set [[8, 9], [5]]. length (p :: bytes) \<le> TCP_MAX_PAYLOAD" by (simp add: TCP_MAX_PAYLOAD_def)
  have "le_bytes 4 2 = [2, 0, 0, 0]" "le_bytes 4 (Suc 0) = [1, 0, 0, 0]"
    by code_simp+
  then show "concat [[2, 0], [0, 0, 8], [9, 1, 0, 0, 0, 5]] = stream_of [[8, 9], [5]]"
    by (simp add: stream_of_def write_length_prefixed_def write_u32_le_def u32_to_le_bytes_def)
qed

lemma feed_loop_error:
  "feed_loop buf frames = Some (Inl e, b) \<Longrightarrow> e = ''frame too large'' \<and> b = []"
proof (induction "length buf" arbitrary: buf frames rule: less_induct)
  case less
  let ?d = "drop (4 + head_len buf) buf" and ?f = "take (head_len buf) (drop 4 buf)"
  show ?case
  proof (cases "4 \<le> length buf \<and> \<not> TCP_MAX_PAYLOAD < head_len buf \<and> 4 + head_len buf \<le> length buf")
    case True
    have "feed_loop ?d (frames @ [?f]) = Some (Inl e, b)"
      using less.prems True by (subst (asm) feed_loop_step) simp
    moreover have "length ?d < length buf" using True unfolding length_drop by linarith
    ultimately show ?thesis using less.hyps by blast
  next
    case False
    then show ?thesis using less.prems by (subst (asm) feed_loop_step) (auto split: if_splits)
  qed
qed

text \<open>
  Feeding never panics; it fails exactly with the oversize error, and a length
  header above 512 KiB at the head of the buffer is such an error, after which
  the buffer is empty.
\<close>
theorem feed_error:
  "\<exists>r b. feed buf chunk = Some (r, b) \<and> (\<forall>e. r = Inl e \<longrightarrow> e = ''frame too large'' \<and> b = [])
     \<and> (4 \<le> length (buf @ chunk) \<and> TCP_MAX_PAYLOAD < head_len (buf @ chunk) \<longrightarrow> isl r)"
proof -
  obtain r b where f: "feed buf chunk = Some (r, b)"
    using feed_loop_total [of "buf @ chunk" "[]"] by (auto simp: feed_def)
  have "isl r" if "4 \<le> length (buf @ chunk)" "TCP_MAX_PAYLOAD < head_len (buf @ chunk)"
  proof -
    have "feed_loop (buf @ chunk) [] = Some (Inl ''frame too large'', [])"
      using that by (subst feed_loop_step) simp
    then show ?thesis using f by (auto simp: feed_def isl_def)
  qed
  then show ?thesis using f feed_loop_error by (auto simp: feed_def)
qed

section \<open>Commands\<close>

lemma relay_tcp_parse_total: "\<exists>r. relay_tcp_parse p = Some r"
  by (auto simp: relay_tcp_parse_def idx_def slice_from_def parse_send_body_def read_u64_le_val
      split: option.splits)

lemma relay_tcp_parse_encode:
  "relay_tcp_parse (encode_cmd CMD_REGISTER d) = Some (Some (TcpRegister d))"
  "relay_tcp_parse (encode_cmd CMD_ACK d) = Some (Some (TcpAck d))"
  "relay_tcp_parse (encode_cmd CMD_ERROR d) = Some (Some (TcpError d))"
  "relay_tcp_parse (encode_cmd CMD_TCP_FRAME d) = Some (Some (TcpFrame d))"
  "relay_tcp_parse (encode_cmd CMD_TCP_SEND (build_send_body dst f)) = Some (Some (TcpSend dst f))"
  "relay_tcp_parse (encode_cmd CMD_TCP_KEEPALIVE d) = Some (Some TcpKeepalive)"
  "relay_tcp_parse (encode_cmd CMD_TCP_KEEPALIVE_RESP d) = Some (Some TcpKeepaliveResp)"
  by (simp_all add: relay_tcp_parse_def encode_cmd_def idx_def slice_from_def relay_consts
      relay_tcp_consts build_send_body_def parse_send_body_def write_u64_le_def)

interpretation tcp_send: codec "\<lambda>(dst, f). encode_cmd CMD_TCP_SEND (build_send_body dst f)"
  "\<lambda>p. Option.bind (relay_tcp_parse p) id" "\<lambda>(dst, f). TcpSend dst f" "\<lambda>_. True"
  by unfold_locales (auto simp: relay_tcp_parse_encode)

end
