(* ===== verification/TcpRelay.thy ===== *)
theory TcpRelay
  imports RelayTcpProto RegisterGuard Presence "HOL-Library.Multiset"
begin

text \<open>
  crates/skiff-server/src/relay/tcp\_relay.rs: the TCP relay. A connection is a
  task with an id; its write queue is a bounded channel of the same id, present
  in \<open>tr_queues\<close> as long as its writer task receives. Operations are the code's
  sections between two awaits: accept and admission, authentication with the
  start of the session, one chunk of input, the end of the session, one step of
  the writer. HMAC-SHA256 and the key lookup are the parameters h and lookup.
\<close>

definition RELAY_TCP_QUEUE_FRAMES :: nat where "RELAY_TCP_QUEUE_FRAMES = 128"
definition MAX_CONNS_TOTAL :: int where "MAX_CONNS_TOTAL = 1024"
definition MAX_CONNS_PER_IP :: nat where "MAX_CONNS_PER_IP = 64"
definition PREAUTH_MAX_FRAME :: nat where "PREAUTH_MAX_FRAME = 4 * 1024"

datatype ConnPhase = PreAuth | Session | Draining

record Conn =
  cn_ip :: u32
  cn_port :: u16
  cn_phase :: ConnPhase
  cn_device :: u64
  cn_buf :: bytes

record TcpRelay =
  tr_connections :: "(u64, nat) table"
  tr_presence :: PresenceStore
  tr_register_guard :: RegisterGuard
  tr_forwarded_bytes :: u64
  tr_forwarded_packets :: u64
  tr_dropped_packets :: u64
  tr_conn_total :: int
  tr_conn_per_ip :: "(u32, nat) table"
  tr_last_reject_log_ms :: millis
  tr_conns :: "(nat, Conn) table"
  tr_queues :: "(nat, bytes list) table"

definition tcp_relay_new :: "PresenceStore \<Rightarrow> RegisterGuard \<Rightarrow> TcpRelay" where
  "tcp_relay_new presence guard =
     \<lparr>tr_connections = [], tr_presence = presence, tr_register_guard = guard,
      tr_forwarded_bytes = 0, tr_forwarded_packets = 0, tr_dropped_packets = 0, tr_conn_total = 0,
      tr_conn_per_ip = [], tr_last_reject_log_ms = 0, tr_conns = [], tr_queues = []\<rparr>"

section \<open>Admission\<close>

definition reject_log :: "millis \<Rightarrow> TcpRelay \<Rightarrow> TcpRelay" where
  "reject_log now r =
     (if 60000 < now - tr_last_reject_log_ms r then r\<lparr>tr_last_reject_log_ms := now\<rparr> else r)"

definition ip_count :: "u32 \<Rightarrow> TcpRelay \<Rightarrow> nat" where
  "ip_count ip r = (case tget (tr_conn_per_ip r) ip of None \<Rightarrow> 0 | Some n \<Rightarrow> n)"

definition tcp_admit :: "u32 \<Rightarrow> millis \<Rightarrow> TcpRelay \<Rightarrow> bool \<times> TcpRelay" where
  "tcp_admit ip now r =
     (if MAX_CONNS_TOTAL \<le> tr_conn_total r then (False, reject_log now r)
      else
        (let entry = ip_count ip r in
         if MAX_CONNS_PER_IP \<le> entry
         then (False, reject_log now (r\<lparr>tr_conn_per_ip := tput ip entry (tr_conn_per_ip r)\<rparr>))
         else (True, r\<lparr>tr_conn_per_ip := tput ip (entry + 1) (tr_conn_per_ip r),
                        tr_conn_total := tr_conn_total r + 1\<rparr>)))"

text \<open>Dropping the admission guard.\<close>

definition release_admission :: "u32 \<Rightarrow> TcpRelay \<Rightarrow> TcpRelay" where
  "release_admission ip r =
     (let r = r\<lparr>tr_conn_total := tr_conn_total r - 1\<rparr> in
      case tget (tr_conn_per_ip r) ip of
        None \<Rightarrow> r
      | Some n \<Rightarrow>
          (let e = n - 1;
               r = r\<lparr>tr_conn_per_ip := tput ip e (tr_conn_per_ip r)\<rparr> in
           if e = 0 then r\<lparr>tr_conn_per_ip := tdel ip (tr_conn_per_ip r)\<rparr> else r))"

section \<open>Channels\<close>

definition try_send :: "nat \<Rightarrow> bytes \<Rightarrow> TcpRelay \<Rightarrow> bool \<times> TcpRelay" where
  "try_send ch msg r =
     (case tget (tr_queues r) ch of
        Some q \<Rightarrow>
          if length q < RELAY_TCP_QUEUE_FRAMES
          then (True, r\<lparr>tr_queues := tput ch (q @ [msg]) (tr_queues r)\<rparr>) else (False, r)
      | None \<Rightarrow> (False, r))"

definition length_prefix :: "bytes \<Rightarrow> bytes" where
  "length_prefix inner = write_length_prefixed [] inner"

section \<open>Authentication\<close>

text \<open>The first frame, None when it did not arrive in time or was longer than 4 KiB.\<close>

definition authenticate ::
  "hmac \<Rightarrow> (u64 \<Rightarrow> bytes option) \<Rightarrow> millis \<Rightarrow> bytes option \<Rightarrow> TcpRelay \<Rightarrow> (string + u64) \<times> TcpRelay" where
  "authenticate h lookup now first_frame r =
     (case first_frame of
        None \<Rightarrow> (Inl ''register timeout'', r)
      | Some first \<Rightarrow>
          (case Option.bind (relay_tcp_parse first) id of
             None \<Rightarrow> (Inl ''bad register'', r)
           | Some (TcpRegister body) \<Rightarrow>
               if length body \<noteq> 56 then (Inl ''bad register body length'', r)
               else
                 (let device_id = of_nat (le_val (take 8 body)) in
                  case lookup device_id of
                    None \<Rightarrow> (Inl ''unknown device or bad auth'', r)
                  | Some key \<Rightarrow>
                      if \<not> verify_register_body h body device_id key
                      then (Inl ''unknown device or bad auth'', r)
                      else (case register_body_nonce body of
                              None \<Rightarrow> (Inl ''bad register body length'', r)
                            | Some nonce \<Rightarrow>
                                (let (ok, g) = guard_admit now device_id nonce (tr_register_guard r);
                                     r = r\<lparr>tr_register_guard := g\<rparr> in
                                 if ok then (Inr device_id, r) else (Inl ''replayed register'', r))))
           | Some _ \<Rightarrow> (Inl ''expected register'', r)))"

section \<open>The session\<close>

definition set_conn :: "nat \<Rightarrow> Conn \<Rightarrow> TcpRelay \<Rightarrow> TcpRelay" where
  "set_conn cid c r = r\<lparr>tr_conns := tput cid c (tr_conns r)\<rparr>"

text \<open>The end of a connection task: the admission guard is dropped.\<close>

definition conn_done :: "nat \<Rightarrow> Conn \<Rightarrow> TcpRelay \<Rightarrow> TcpRelay" where
  "conn_done cid c r = release_admission (cn_ip c) (r\<lparr>tr_conns := tdel cid (tr_conns r)\<rparr>)"

text \<open>
  handle\_connection after relay\_session has returned: the error frame, the removal of
  the table entry that only an Ok result performs, and the wait for the writer.
\<close>

definition session_end :: "nat \<Rightarrow> Conn \<Rightarrow> string + u64 \<Rightarrow> TcpRelay \<Rightarrow> TcpRelay" where
  "session_end cid c result r =
     (let r = (case result of
                 Inl msg \<Rightarrow> snd (try_send cid (length_prefix (encode_cmd CMD_ERROR (as_bytes msg))) r)
               | Inr d \<Rightarrow>
                   if tget (tr_connections r) d = Some cid
                   then r\<lparr>tr_connections := tdel d (tr_connections r)\<rparr> else r)
      in set_conn cid (c\<lparr>cn_phase := Draining\<rparr>) r)"

text \<open>The head of relay\_session: kick the old connection, register, acknowledge.\<close>

definition session_start :: "millis \<Rightarrow> nat \<Rightarrow> Conn \<Rightarrow> u64 \<Rightarrow> TcpRelay \<Rightarrow> TcpRelay" where
  "session_start now cid c d r =
     (let r = (case tget (tr_connections r) d of
                 Some old \<Rightarrow> snd (try_send old [] (r\<lparr>tr_connections := tdel d (tr_connections r)\<rparr>))
               | None \<Rightarrow> r);
          r = r\<lparr>tr_connections := tput d cid (tr_connections r),
                tr_presence := touch_relay_tcp now d (tr_presence r)\<rparr>;
          ack = encode_cmd CMD_ACK (build_ack_payload (show_ipv4 (cn_ip c)) (cn_port c));
          c = c\<lparr>cn_phase := Session, cn_device := d, cn_buf := []\<rparr>;
          r = set_conn cid c r;
          (ok, r) = try_send cid (length_prefix ack) r
      in if ok then r else session_end cid c (Inr d) r)"

text \<open>One inbound frame of a session: None continues, Some result ends the session.\<close>

definition session_frame :: "millis \<Rightarrow> nat \<Rightarrow> u64 \<Rightarrow> bytes \<Rightarrow> TcpRelay \<Rightarrow> (string + u64) option \<times> TcpRelay" where
  "session_frame now cid d frame r =
     (let r = r\<lparr>tr_presence := touch_relay_tcp now d (tr_presence r)\<rparr> in
      case Option.bind (relay_tcp_parse frame) id of
        Some TcpKeepalive \<Rightarrow>
          (let (ok, r) = try_send cid (length_prefix (encode_cmd CMD_TCP_KEEPALIVE_RESP [])) r
           in (if ok then None else Some (Inr d), r))
      | Some (TcpSend dst inner) \<Rightarrow>
          (let (sent, r) = (case tget (tr_connections r) dst of
                              Some target \<Rightarrow>
                                try_send target (length_prefix (encode_cmd CMD_TCP_FRAME inner)) r
                            | None \<Rightarrow> (False, r))
           in (None,
               if sent then
                 r\<lparr>tr_forwarded_packets := tr_forwarded_packets r + 1,
                   tr_forwarded_bytes := tr_forwarded_bytes r + of_nat (length inner)\<rparr>
               else r\<lparr>tr_dropped_packets := tr_dropped_packets r + 1\<rparr>))
      | _ \<Rightarrow> (Some (Inl ''unexpected command''), r))"

fun session_frames :: "millis \<Rightarrow> nat \<Rightarrow> u64 \<Rightarrow> bytes list \<Rightarrow> TcpRelay \<Rightarrow> (string + u64) option \<times> TcpRelay" where
  "session_frames now cid d [] r = (None, r)"
| "session_frames now cid d (f # fs) r =
     (let (res, r) = session_frame now cid d f r in
      case res of None \<Rightarrow> session_frames now cid d fs r | Some _ \<Rightarrow> (res, r))"

definition session_chunk :: "millis \<Rightarrow> nat \<Rightarrow> Conn \<Rightarrow> bytes \<Rightarrow> TcpRelay \<Rightarrow> TcpRelay" where
  "session_chunk now cid c chunk r =
     (case feed (cn_buf c) chunk of
        Some (Inr frames, buf) \<Rightarrow>
          (let c = c\<lparr>cn_buf := buf\<rparr>;
               (res, r) = session_frames now cid (cn_device c) frames (set_conn cid c r)
           in case res of None \<Rightarrow> r | Some result \<Rightarrow> session_end cid c result r)
      | _ \<Rightarrow> session_end cid c (Inl ''frame too large'') r)"

section \<open>Events\<close>

datatype TcpEvent =
    Accept nat u32 u16 millis
  | FirstFrame nat millis "bytes option"
  | Chunk nat millis bytes
  | IdleTimeout nat
  | ReadError nat string
  | WriterStep nat bool
  | WriterDone nat
  | TcpUnregister u64

text \<open>
  The writer ends when it takes an empty message, when a write fails, or when the
  queue is empty and no sender is left: the session task has dropped its own
  and the connections table holds none.
\<close>

definition has_sender :: "nat \<Rightarrow> TcpRelay \<Rightarrow> bool" where
  "has_sender cid r =
     (cid \<in> snd ` set (tr_connections r)
      \<or> (case tget (tr_conns r) cid of Some c \<Rightarrow> cn_phase c \<noteq> Draining | None \<Rightarrow> False))"

definition writer_step :: "nat \<Rightarrow> bool \<Rightarrow> TcpRelay \<Rightarrow> TcpRelay" where
  "writer_step cid write_ok r =
     (case tget (tr_queues r) cid of
        None \<Rightarrow> r
      | Some [] \<Rightarrow> if has_sender cid r then r else r\<lparr>tr_queues := tdel cid (tr_queues r)\<rparr>
      | Some (m # q) \<Rightarrow>
          if m = [] \<or> \<not> write_ok then r\<lparr>tr_queues := tdel cid (tr_queues r)\<rparr>
          else r\<lparr>tr_queues := tput cid q (tr_queues r)\<rparr>)"

fun tcp_step :: "hmac \<Rightarrow> (u64 \<Rightarrow> bytes option) \<Rightarrow> TcpRelay \<Rightarrow> TcpEvent \<Rightarrow> unit \<times> TcpRelay" where
  "tcp_step h lookup r (Accept cid ip port now) =
     ((), if thas (tr_conns r) cid \<or> thas (tr_queues r) cid then r
          else (let (ok, r) = tcp_admit ip now r in
            if ok then set_conn cid \<lparr>cn_ip = ip, cn_port = port, cn_phase = PreAuth, cn_device = 0,
                                     cn_buf = []\<rparr> r
            else r))"
| "tcp_step h lookup r (FirstFrame cid now frame) =
     ((), case tget (tr_conns r) cid of
            Some c \<Rightarrow>
              if cn_phase c = PreAuth then
                (let (res, r) = authenticate h lookup now frame r in
                 case res of
                   Inl msg \<Rightarrow> conn_done cid c r
                 | Inr d \<Rightarrow> session_start now cid c d (r\<lparr>tr_queues := tput cid [] (tr_queues r)\<rparr>))
              else r
          | None \<Rightarrow> r)"
| "tcp_step h lookup r (Chunk cid now chunk) =
     ((), case tget (tr_conns r) cid of
            Some c \<Rightarrow>
              if cn_phase c = Session then
                (if chunk = [] then session_end cid c (Inr (cn_device c)) r
                 else session_chunk now cid c chunk r)
              else r
          | None \<Rightarrow> r)"
| "tcp_step h lookup r (IdleTimeout cid) =
     ((), case tget (tr_conns r) cid of
            Some c \<Rightarrow> if cn_phase c = Session then session_end cid c (Inl ''idle timeout'') r else r
          | None \<Rightarrow> r)"
| "tcp_step h lookup r (ReadError cid msg) =
     ((), case tget (tr_conns r) cid of
            Some c \<Rightarrow> if cn_phase c = Session then session_end cid c (Inl msg) r else r
          | None \<Rightarrow> r)"
| "tcp_step h lookup r (WriterStep cid ok) = ((), writer_step cid ok r)"
| "tcp_step h lookup r (WriterDone cid) =
     ((), case tget (tr_conns r) cid of
            Some c \<Rightarrow>
              if cn_phase c = Draining \<and> \<not> thas (tr_queues r) cid then conn_done cid c r else r
          | None \<Rightarrow> r)"
| "tcp_step h lookup r (TcpUnregister d) = ((), r\<lparr>tr_connections := tdel d (tr_connections r)\<rparr>)"

section \<open>What the helper operations leave alone\<close>

lemma try_send_frame [simp]:
  "tr_connections (snd (try_send ch m r)) = tr_connections r"
  "tr_conns (snd (try_send ch m r)) = tr_conns r"
  "tr_conn_total (snd (try_send ch m r)) = tr_conn_total r"
  "tr_conn_per_ip (snd (try_send ch m r)) = tr_conn_per_ip r"
  by (simp_all add: try_send_def split: option.splits)

lemma try_send_queues:
  "tget (tr_queues (snd (try_send ch m r))) c =
     (case tget (tr_queues r) c of
        None \<Rightarrow> None
      | Some q \<Rightarrow> if c = ch \<and> length q < RELAY_TCP_QUEUE_FRAMES then Some (q @ [m]) else Some q)"
  by (auto simp: try_send_def table_simps split: option.splits)

lemma session_end_connections:
  "tget (tr_connections (session_end cid c res r)) d =
     (if res = Inr d \<and> tget (tr_connections r) d = Some cid then None else tget (tr_connections r) d)"
  by (auto simp: session_end_def set_conn_def table_simps Let_def split: sum.splits)

lemma session_end_frame [simp]:
  "tr_conns (session_end cid c res r) = tput cid (c\<lparr>cn_phase := Draining\<rparr>) (tr_conns r)"
  "tr_conn_total (session_end cid c res r) = tr_conn_total r"
  "tr_conn_per_ip (session_end cid c res r) = tr_conn_per_ip r"
  by (auto simp: session_end_def set_conn_def Let_def split: sum.splits)

lemma session_frame_frame [simp]:
  "tr_connections (snd (session_frame now cid d f r)) = tr_connections r"
  "tr_conns (snd (session_frame now cid d f r)) = tr_conns r"
  "tr_conn_total (snd (session_frame now cid d f r)) = tr_conn_total r"
  "tr_conn_per_ip (snd (session_frame now cid d f r)) = tr_conn_per_ip r"
  by (auto simp: session_frame_def Let_def case_prod_beta split: option.splits RelayTcpMsg.splits)

lemma session_frames_frame [simp]:
  "tr_connections (snd (session_frames now cid d fs r)) = tr_connections r"
  "tr_conns (snd (session_frames now cid d fs r)) = tr_conns r"
  "tr_conn_total (snd (session_frames now cid d fs r)) = tr_conn_total r"
  "tr_conn_per_ip (snd (session_frames now cid d fs r)) = tr_conn_per_ip r"
  by (induction fs arbitrary: r) (simp_all add: case_prod_beta Let_def split: option.splits)

lemma session_frames_result:
  "fst (session_frames now cid d fs r) = Some (Inr d') \<Longrightarrow> d' = d"
  by (induction fs arbitrary: r)
     (auto simp: case_prod_beta Let_def session_frame_def split: option.splits RelayTcpMsg.splits if_splits)

lemma authenticate_frame [simp]:
  "tr_connections (snd (authenticate h l now f r)) = tr_connections r"
  "tr_conns (snd (authenticate h l now f r)) = tr_conns r"
  "tr_queues (snd (authenticate h l now f r)) = tr_queues r"
  "tr_conn_total (snd (authenticate h l now f r)) = tr_conn_total r"
  "tr_conn_per_ip (snd (authenticate h l now f r)) = tr_conn_per_ip r"
  by (auto simp: authenticate_def Let_def case_prod_beta split: option.splits RelayTcpMsg.splits)

lemma writer_step_frame [simp]:
  "tr_connections (writer_step cid ok r) = tr_connections r"
  "tr_conns (writer_step cid ok r) = tr_conns r"
  "tr_conn_total (writer_step cid ok r) = tr_conn_total r"
  "tr_conn_per_ip (writer_step cid ok r) = tr_conn_per_ip r"
  by (auto simp: writer_step_def split: option.splits list.splits)

section \<open>Admission accounting\<close>

definition conn_ips :: "TcpRelay \<Rightarrow> u32 multiset" where
  "conn_ips r = image_mset (cn_ip \<circ> snd) (mset (tr_conns r))"

definition admission_inv :: "TcpRelay \<Rightarrow> bool" where
  "admission_inv r =
     (tinv (tr_conns r) \<and> tr_conn_total r = int (size (conn_ips r)) \<and> tr_conn_total r \<le> MAX_CONNS_TOTAL
      \<and> (\<forall>ip. ip_count ip r = count (conn_ips r) ip) \<and> (\<forall>ip. count (conn_ips r) ip \<le> MAX_CONNS_PER_IP))"

lemma image_mset_tput_same:
  "tget t k = Some v0 \<Longrightarrow> g v = g v0 \<Longrightarrow>
   image_mset (g \<circ> snd) (mset (tput k v t)) = image_mset (g \<circ> snd) (mset t)"
  by (induction t) auto

lemma image_mset_tput_new:
  "tget t k = None \<Longrightarrow>
   image_mset (g \<circ> snd) (mset (tput k v t)) = add_mset (g v) (image_mset (g \<circ> snd) (mset t))"
  by (induction t) auto

lemma image_mset_tdel:
  "tinv t \<Longrightarrow> tget t k = Some v \<Longrightarrow>
   image_mset (g \<circ> snd) (mset t) = add_mset (g v) (image_mset (g \<circ> snd) (mset (tdel k t)))"
proof (induction t)
  case (Cons a t)
  show ?case
  proof (cases "fst a = k")
    case True
    then have "k \<notin> fst ` set t" using Cons.prems(1) by (auto simp: tinv_def)
    then show ?thesis using True Cons.prems by (cases a) simp
  next
    case False
    then show ?thesis using Cons by (cases a) (auto simp: tinv_def)
  qed
qed simp

lemma admission_inv_cong:
  assumes "admission_inv r" and "tr_conn_total r' = tr_conn_total r"
    and "tr_conn_per_ip r' = tr_conn_per_ip r" and "conn_ips r' = conn_ips r" and "tinv (tr_conns r')"
  shows "admission_inv r'"
  using assms by (simp add: admission_inv_def ip_count_def)

lemma admission_inv_session_end:
  assumes "admission_inv r" and "tget (tr_conns r) cid = Some c0" and "cn_ip c = cn_ip c0"
  shows "admission_inv (session_end cid c res r)"
  using assms image_mset_tput_same [of "tr_conns r" cid c0 cn_ip "c\<lparr>cn_phase := Draining\<rparr>"]
  by (intro admission_inv_cong [OF assms(1)]) (auto simp: conn_ips_def admission_inv_def)

lemma admission_inv_accept:
  assumes i: "admission_inv r" and n: "tget (tr_conns r) cid = None"
    and a: "tcp_admit ip now r = (ok, r')"
    and that: "cn_ip c = ip"
  shows "admission_inv (if ok then set_conn cid c r' else r')"
proof (cases ok)
  case True
  then have t: "tr_conn_total r < MAX_CONNS_TOTAL" "ip_count ip r < MAX_CONNS_PER_IP"
    and r': "r' = r\<lparr>tr_conn_per_ip := tput ip (ip_count ip r + 1) (tr_conn_per_ip r),
                        tr_conn_total := tr_conn_total r + 1\<rparr>"
    using a by (auto simp: tcp_admit_def Let_def split: if_splits)
  have "conn_ips (set_conn cid c r') = add_mset ip (conn_ips r)"
    using image_mset_tput_new [OF n, of cn_ip c] that by (simp add: conn_ips_def set_conn_def r')
  moreover have "ip_count ip' (set_conn cid c r') = (if ip' = ip then ip_count ip r + 1 else ip_count ip' r)" for ip'
    by (simp add: ip_count_def set_conn_def r' table_simps)
  moreover have "tinv (tr_conns (set_conn cid c r'))" "tr_conn_total (set_conn cid c r') = tr_conn_total r + 1"
    using i by (simp_all add: set_conn_def r' admission_inv_def)
  ultimately show ?thesis using True i t unfolding admission_inv_def by (auto simp: Suc_le_eq)
next
  case False
  have "ip_count ip' r' = ip_count ip' r" for ip'
    using a False by (auto simp: tcp_admit_def Let_def reject_log_def ip_count_def table_simps split: if_splits option.splits)
  moreover have "tr_conns r' = tr_conns r" "tr_conn_total r' = tr_conn_total r"
    using a False by (auto simp: tcp_admit_def Let_def reject_log_def split: if_splits)
  ultimately show ?thesis using False i by (simp add: admission_inv_def conn_ips_def)
qed

lemma conn_done_fields:
  "tr_conns (conn_done cid c r) = tdel cid (tr_conns r)"
  "tr_conn_total (conn_done cid c r) = tr_conn_total r - 1"
  "ip_count ip (conn_done cid c r) = (if ip = cn_ip c then ip_count ip r - 1 else ip_count ip r)"
  by (auto simp: conn_done_def release_admission_def Let_def ip_count_def table_simps split: option.splits)

lemma admission_inv_done:
  assumes i: "admission_inv r" and c: "tget (tr_conns r) cid = Some c"
  shows "admission_inv (conn_done cid c r)"
proof -
  define M where "M = conn_ips (conn_done cid c r)"
  have ips: "conn_ips r = add_mset (cn_ip c) M"
    using image_mset_tdel [OF _ c, of cn_ip] i
    by (simp add: M_def conn_ips_def conn_done_fields admission_inv_def)
  have "count M ip \<le> MAX_CONNS_PER_IP" for ip
  proof -
    have "count (conn_ips r) ip \<le> MAX_CONNS_PER_IP" using i by (simp add: admission_inv_def)
    then show ?thesis using ips by (simp split: if_splits)
  qed
  then show ?thesis
    using i ips unfolding admission_inv_def M_def [symmetric] conn_done_fields by auto
qed

lemma admission_inv_start:
  assumes "admission_inv r" and "tget (tr_conns r) cid = Some c"
  shows "admission_inv (session_start now cid c d r)"
proof -
  define r1 where "r1 = (case tget (tr_connections r) d of
                 Some old \<Rightarrow> snd (try_send old [] (r\<lparr>tr_connections := tdel d (tr_connections r)\<rparr>))
               | None \<Rightarrow> r)"
  define c1 where "c1 = c\<lparr>cn_phase := Session, cn_device := d, cn_buf := []\<rparr>"
  define r2 where "r2 = set_conn cid c1 (r1\<lparr>tr_connections := tput d cid (tr_connections r1),
                tr_presence := touch_relay_tcp now d (tr_presence r1)\<rparr>)"
  define ack where "ack = length_prefix (encode_cmd CMD_ACK (build_ack_payload (show_ipv4 (cn_ip c)) (cn_port c)))"
  have e: "session_start now cid c d r =
     (let (ok, r) = try_send cid ack r2 in if ok then r else session_end cid c1 (Inr d) r)"
    unfolding session_start_def Let_def r1_def c1_def r2_def ack_def by (rule refl)
  have r1: "tr_conns r1 = tr_conns r" "tr_conn_total r1 = tr_conn_total r" "tr_conn_per_ip r1 = tr_conn_per_ip r"
    by (simp_all add: r1_def split: option.splits)
  have r2: "tr_conns r2 = tput cid c1 (tr_conns r)" "tr_conn_total r2 = tr_conn_total r"
    "tr_conn_per_ip r2 = tr_conn_per_ip r"
    by (simp_all add: r2_def set_conn_def r1)
  have "conn_ips r2 = conn_ips r"
    using image_mset_tput_same [OF assms(2), of cn_ip c1] by (simp add: conn_ips_def r2 c1_def)
  then have i2: "admission_inv r2"
    using assms(1) r2 by (intro admission_inv_cong [OF assms(1)]) (simp_all add: admission_inv_def)
  have i3: "admission_inv (snd (try_send cid ack r2))"
    using i2 by (intro admission_inv_cong [OF i2]) (simp_all add: conn_ips_def admission_inv_def)
  then show ?thesis
    using admission_inv_session_end [OF i3, of cid c1 c1] r2
    by (auto simp: e case_prod_beta table_simps)
qed

lemma admission_inv_chunk:
  assumes i: "admission_inv r" and c: "tget (tr_conns r) cid = Some c"
  shows "admission_inv (session_chunk now cid c chunk r)"
proof -
  have keep: "admission_inv (snd (session_frames now cid (cn_device c) fs (set_conn cid (c\<lparr>cn_buf := b\<rparr>) r)))" for fs b
    using i image_mset_tput_same [OF c, of cn_ip "c\<lparr>cn_buf := b\<rparr>"]
    by (intro admission_inv_cong [OF i]) (simp_all add: conn_ips_def set_conn_def admission_inv_def)
  have "tget (tr_conns (snd (session_frames now cid d fs (set_conn cid c' r)))) cid = Some c'" for d fs c'
    by (simp add: set_conn_def table_simps)
  then show ?thesis
    using keep admission_inv_session_end [OF keep] admission_inv_session_end [OF i c]
    by (auto simp: session_chunk_def Let_def case_prod_beta split: option.splits sum.splits)
qed

interpretation admission: machine "tcp_step h lookup" admission_inv for h lookup
proof
  fix r e u r'
  assume i: "admission_inv r" and s: "tcp_step h lookup r e = (u, r')"
  note cong = admission_inv_cong [OF i]
  show "admission_inv r'"
  proof (cases e)
    case (Accept cid ip port now)
    obtain ok r1 where a: "tcp_admit ip now r = (ok, r1)" by force
    show ?thesis
      using s i Accept a
        admission_inv_accept [OF i _ a, of cid "\<lparr>cn_ip = ip, cn_port = port, cn_phase = PreAuth,
                                                cn_device = 0, cn_buf = []\<rparr>"]
      by (auto simp: Let_def thas_def split: if_splits)
  next
    case (FirstFrame cid now frame)
    obtain res r1 where a: "authenticate h lookup now frame r = (res, r1)" by force
    have r1: "tr_conns r1 = tr_conns r" "tr_conn_total r1 = tr_conn_total r" "tr_conn_per_ip r1 = tr_conn_per_ip r"
      using authenticate_frame [of h lookup now frame r] a by auto
    have "admission_inv (r1\<lparr>tr_queues := q\<rparr>)" for q
      using i r1 by (intro cong) (simp_all add: conn_ips_def admission_inv_def)
    then have "admission_inv (session_start now cid c d (r1\<lparr>tr_queues := q\<rparr>))"
      if "tget (tr_conns r) cid = Some c" for c d q
      using that r1 by (intro admission_inv_start) auto
    moreover have "admission_inv r1"
      using i r1 by (intro cong) (simp_all add: conn_ips_def admission_inv_def)
    then have "admission_inv (conn_done cid c r1)" if "tget (tr_conns r) cid = Some c" for c
      using that r1 by (intro admission_inv_done) simp_all
    ultimately show ?thesis
      using s i FirstFrame a by (auto split: option.splits if_splits sum.splits)
  next
    case (Chunk cid now chunk)
    then show ?thesis
      using s i admission_inv_chunk [OF i] admission_inv_session_end [OF i]
      by (auto split: option.splits if_splits)
  next
    case (WriterStep cid ok)
    have "admission_inv (writer_step cid ok r)"
      using i by (intro cong) (simp_all add: conn_ips_def admission_inv_def)
    then show ?thesis using s WriterStep by simp
  next
    case (WriterDone cid)
    then show ?thesis using s i admission_inv_done [OF i] by (auto split: option.splits if_splits)
  next
    case (TcpUnregister d)
    have "admission_inv (r\<lparr>tr_connections := t\<rparr>)" for t
      using i by (intro cong) (simp_all add: conn_ips_def admission_inv_def)
    then show ?thesis using s TcpUnregister by auto
  qed (use s i admission_inv_session_end [OF i] in \<open>auto split: option.splits if_splits\<close>)
qed

text \<open>
  The admission counters are exact in every run: the total is the number
  of live connections and never exceeds 1024, each per-IP count is the number of
  live connections from that address and never exceeds 64.
\<close>
theorem tcp_admission_exact:
  "admission_inv (snd (run (tcp_step h lookup) (tcp_relay_new pr g) es))"
  by (rule admission.run_snd_inv)
     (simp add: admission_inv_def tcp_relay_new_def conn_ips_def MAX_CONNS_TOTAL_def ip_count_def)

section \<open>Only authenticated connections receive\<close>

definition auth_in ::
  "hmac \<Rightarrow> (u64 \<Rightarrow> bytes option) \<Rightarrow> TcpEvent set \<Rightarrow> nat \<Rightarrow> u64 \<Rightarrow> bool" where
  "auth_in h lookup hist cid d =
     (\<exists>now frame body k. FirstFrame cid now (Some frame) \<in> hist
        \<and> relay_tcp_parse frame = Some (Some (TcpRegister body))
        \<and> lookup d = Some k \<and> verify_register_body h body d k)"

definition owner_inv :: "hmac \<Rightarrow> (u64 \<Rightarrow> bytes option) \<Rightarrow> TcpEvent set \<Rightarrow> TcpRelay \<Rightarrow> bool" where
  "owner_inv h lookup hist r =
     ((\<forall>d cid. tget (tr_connections r) d = Some cid \<longrightarrow> auth_in h lookup hist cid d)
      \<and> (\<forall>cid c. tget (tr_conns r) cid = Some c \<and> cn_phase c = Session \<longrightarrow>
            auth_in h lookup hist cid (cn_device c)))"

lemma auth_in_mono: "hist \<subseteq> hist' \<Longrightarrow> auth_in h l hist cid d \<Longrightarrow> auth_in h l hist' cid d"
  unfolding auth_in_def by blast

lemma owner_inv_mono: "hist \<subseteq> hist' \<Longrightarrow> owner_inv h l hist r \<Longrightarrow> owner_inv h l hist' r"
  unfolding owner_inv_def using auth_in_mono by blast

lemma authenticate_ok:
  assumes "authenticate h l now frame r = (Inr d, r')"
  shows "\<exists>f body k. frame = Some f \<and> relay_tcp_parse f = Some (Some (TcpRegister body))
     \<and> l d = Some k \<and> verify_register_body h body d k"
  using assms
  by (auto simp: authenticate_def Let_def case_prod_beta bind_eq_Some_conv
      split: option.splits RelayTcpMsg.splits if_splits)

lemma owner_inv_cong:
  "owner_inv h l hist r \<Longrightarrow> tr_connections r' = tr_connections r \<Longrightarrow> tr_conns r' = tr_conns r \<Longrightarrow>
   owner_inv h l hist r'"
  by (simp add: owner_inv_def)

lemma owner_inv_session_end:
  "owner_inv h l hist r \<Longrightarrow> owner_inv h l hist (session_end cid c res r)"
  by (auto simp: owner_inv_def session_end_connections table_simps split: if_splits)

lemma owner_inv_start:
  assumes i: "owner_inv h l hist r" and a: "auth_in h l hist cid d"
  shows "owner_inv h l hist (session_start now cid c d r)"
proof -
  define r1 where "r1 = (case tget (tr_connections r) d of
                 Some old \<Rightarrow> snd (try_send old [] (r\<lparr>tr_connections := tdel d (tr_connections r)\<rparr>))
               | None \<Rightarrow> r)"
  have 1: "owner_inv h l hist r1"
    using i by (auto simp: r1_def owner_inv_def table_simps split: option.splits if_splits)
  show ?thesis
    unfolding session_start_def Let_def r1_def [symmetric]
    using 1 a
    by (auto simp: case_prod_beta intro!: owner_inv_session_end)
       (auto simp: owner_inv_def set_conn_def table_simps split: if_splits)
qed

lemma owner_inv_chunk:
  assumes i: "owner_inv h l hist r" and c: "tget (tr_conns r) cid = Some c" "cn_phase c = Session"
  shows "owner_inv h l hist (session_chunk now cid c chunk r)"
proof -
  have "owner_inv h l hist (snd (session_frames now cid d fs (set_conn cid (c\<lparr>cn_buf := b\<rparr>) r)))" for fs b d
    using i c by (auto simp: owner_inv_def set_conn_def table_simps split: if_splits)
  then show ?thesis
    using owner_inv_session_end [OF i]
    by (auto simp: session_chunk_def Let_def case_prod_beta intro!: owner_inv_session_end
        split: option.splits sum.splits)
qed

lemma owner_inv_step:
  assumes i0: "owner_inv h l hist r" and s: "tcp_step h l r e = (u, r')"
  shows "owner_inv h l (insert e hist) r'"
proof -
  have i: "owner_inv h l (insert e hist) r" using owner_inv_mono [OF _ i0] by blast
  show ?thesis
  proof (cases e)
    case (Accept cid ip port now)
    have "owner_inv h l (insert e hist) (snd (tcp_admit ip now r))"
      using i by (auto intro!: owner_inv_cong [OF i] simp: tcp_admit_def Let_def reject_log_def)
    then show ?thesis
      using s i Accept by (auto simp: Let_def case_prod_beta owner_inv_def set_conn_def table_simps split: if_splits)
  next
    case (FirstFrame cid now frame)
    obtain res r1 where a: "authenticate h l now frame r = (res, r1)" by force
    have r1: "tr_conns r1 = tr_conns r" "tr_connections r1 = tr_connections r"
      using authenticate_frame [of h l now frame r] a by auto
    have "owner_inv h l (insert e hist) (session_start now cid c d (r1\<lparr>tr_queues := q\<rparr>))"
      if "res = Inr d" for c d q
    proof (rule owner_inv_start)
      show "auth_in h l (insert e hist) cid d"
        using authenticate_ok [of h l now frame r d r1] a that FirstFrame by (auto simp: auth_in_def)
    qed (use i r1 in \<open>simp add: owner_inv_def\<close>)
    moreover have "owner_inv h l (insert e hist) (conn_done cid c r1)" for c
      using i r1 by (auto simp: owner_inv_def conn_done_def release_admission_def Let_def table_simps
          split: option.splits if_splits)
    ultimately show ?thesis
      using s i FirstFrame a by (auto split: option.splits if_splits sum.splits)
  next
    case (Chunk cid now chunk)
    then show ?thesis
      using s i owner_inv_chunk [OF i] owner_inv_session_end [OF i] by (auto split: option.splits if_splits)
  next
    case (WriterStep cid ok)
    have "owner_inv h l (insert e hist) (writer_step cid ok r)"
      by (rule owner_inv_cong [OF i]) simp_all
    then show ?thesis using s WriterStep by simp
  next
    case (WriterDone cid)
    have "owner_inv h l (insert e hist) (conn_done cid c r)" for c
      using i by (auto simp: owner_inv_def conn_done_def release_admission_def Let_def table_simps
          split: option.splits if_splits)
    then show ?thesis using s i WriterDone by (auto split: option.splits if_splits)
  next
    case (TcpUnregister d)
    then show ?thesis using s i by (auto simp: owner_inv_def table_simps split: if_splits)
  qed (use s i owner_inv_session_end [OF i] in \<open>auto split: option.splits if_splits\<close>)
qed

lemma owner_inv_run:
  "owner_inv h l hist r \<Longrightarrow> run (tcp_step h l) r es = (us, r') \<Longrightarrow> owner_inv h l (hist \<union> set es) r'"
proof (induction es arbitrary: hist r us)
  case (Cons e es)
  obtain u r1 where 1: "tcp_step h l r e = (u, r1)" by (cases "tcp_step h l r e")
  obtain us2 r2 where 2: "run (tcp_step h l) r1 es = (us2, r2)" by force
  have "owner_inv h l (insert e hist) r1" using owner_inv_step [OF Cons.prems(1) 1] .
  from Cons.IH [OF this] 2 Cons.prems(2) 1 show ?case by (auto simp: Un_commute insert_commute)
qed simp

section \<open>Every queued frame was sent by a session to a device\<close>

definition frame_msg :: "bytes \<Rightarrow> bytes" where
  "frame_msg inner = length_prefix (encode_cmd CMD_TCP_FRAME inner)"

definition carries :: "TcpRelay \<Rightarrow> nat \<Rightarrow> bytes \<Rightarrow> bool" where
  "carries r ch inner = (\<exists>q. tget (tr_queues r) ch = Some q \<and> frame_msg inner \<in> set q)"

text \<open>
  In the state r the event e completes, on the session cid of the device d, a frame
  that asks the relay to send inner to the device dst.
\<close>

definition asks_to_send :: "TcpRelay \<Rightarrow> TcpEvent \<Rightarrow> nat \<Rightarrow> u64 \<Rightarrow> u64 \<Rightarrow> bytes \<Rightarrow> bool" where
  "asks_to_send r e cid d dst inner =
     (\<exists>now chunk c frames buf f. e = Chunk cid now chunk
        \<and> tget (tr_conns r) cid = Some c \<and> cn_phase c = Session \<and> cn_device c = d
        \<and> feed (cn_buf c) chunk = Some (Inr frames, buf) \<and> f \<in> set frames
        \<and> relay_tcp_parse f = Some (Some (TcpSend dst inner)))"

lemma length_prefix_inj: "length_prefix m = length_prefix m' \<Longrightarrow> m = m'"
  by (simp add: length_prefix_def write_length_prefixed_def write_u32_le_def u32_to_le_bytes_def)

lemma frame_msg_eq:
  "length_prefix (encode_cmd k m) = frame_msg inner \<longleftrightarrow> k = CMD_TCP_FRAME \<and> m = inner"
  unfolding frame_msg_def using length_prefix_inj by (auto simp: encode_cmd_def)

lemma frame_msg_nonempty [simp]: "frame_msg inner \<noteq> []"
  by (simp add: frame_msg_def length_prefix_def write_length_prefixed_def write_u32_le_def u32_to_le_bytes_def
      flip: length_0_conv)

lemma carries_cong: "tr_queues r' = tr_queues r \<Longrightarrow> carries r' ch inner = carries r ch inner"
  by (simp add: carries_def)

lemma carries_try_send:
  "carries (snd (try_send ch' m r)) ch inner \<Longrightarrow> carries r ch inner \<or> ch' = ch \<and> m = frame_msg inner"
  by (auto simp: carries_def try_send_queues split: option.splits if_splits)

lemma carries_other:
  "m \<noteq> frame_msg inner \<Longrightarrow> carries (snd (try_send ch' m r)) ch inner \<Longrightarrow> carries r ch inner"
  using carries_try_send by blast

lemma carries_session_end:
  assumes "carries (session_end cid c res r) ch inner"
  shows "carries r ch inner"
proof (cases res)
  case (Inl msg)
  have "length_prefix (encode_cmd CMD_ERROR (as_bytes msg)) \<noteq> frame_msg inner"
    by (simp add: frame_msg_eq relay_consts relay_tcp_consts)
  then show ?thesis
    using assms carries_other
    by (auto simp: session_end_def Let_def set_conn_def Inl carries_cong [of "_\<lparr>tr_conns := _\<rparr>"])
next
  case (Inr d)
  then show ?thesis
    using assms by (simp add: session_end_def Let_def set_conn_def carries_def split: if_splits)
qed

lemma carries_session_start:
  assumes "carries (session_start now cid c d r) ch inner"
  shows "carries r ch inner"
proof -
  define r1 where "r1 = (case tget (tr_connections r) d of
                 Some old \<Rightarrow> snd (try_send old [] (r\<lparr>tr_connections := tdel d (tr_connections r)\<rparr>))
               | None \<Rightarrow> r)"
  define r2 where "r2 = set_conn cid (c\<lparr>cn_phase := Session, cn_device := d, cn_buf := []\<rparr>)
                (r1\<lparr>tr_connections := tput d cid (tr_connections r1),
                    tr_presence := touch_relay_tcp now d (tr_presence r1)\<rparr>)"
  define ack where "ack = length_prefix (encode_cmd CMD_ACK (build_ack_payload (show_ipv4 (cn_ip c)) (cn_port c)))"
  have "ack \<noteq> frame_msg inner" by (simp add: ack_def frame_msg_eq relay_consts relay_tcp_consts)
  moreover have "carries (snd (try_send cid ack r2)) ch inner"
    using assms carries_session_end
    unfolding session_start_def Let_def r1_def [symmetric] r2_def [symmetric] ack_def [symmetric] case_prod_beta
    by (auto split: if_splits)
  ultimately have "carries r2 ch inner" using carries_other by blast
  then have "carries r1 ch inner" by (simp add: r2_def set_conn_def carries_def)
  then show ?thesis
    using carries_other [of "[]" inner _ "r\<lparr>tr_connections := tdel d (tr_connections r)\<rparr>" ch]
    by (auto simp: r1_def carries_def frame_msg_nonempty [symmetric] split: option.splits)
qed

lemma carries_session_frame:
  assumes "carries (snd (session_frame now cid d f r)) ch inner"
  shows "carries r ch inner
    \<or> (\<exists>dst. relay_tcp_parse f = Some (Some (TcpSend dst inner)) \<and> tget (tr_connections r) dst = Some ch)"
proof -
  define r1 where "r1 = r\<lparr>tr_presence := touch_relay_tcp now d (tr_presence r)\<rparr>"
  have r1: "carries r1 ch inner = carries r ch inner" "tr_connections r1 = tr_connections r"
    by (simp_all add: r1_def carries_def)
  have resp: "length_prefix (encode_cmd CMD_TCP_KEEPALIVE_RESP []) \<noteq> frame_msg inner"
    by (simp add: frame_msg_eq relay_consts relay_tcp_consts)
  have sent: "carries (r'\<lparr>tr_dropped_packets := a\<rparr>) ch inner = carries r' ch inner"
    "carries (r'\<lparr>tr_forwarded_packets := a, tr_forwarded_bytes := b\<rparr>) ch inner = carries r' ch inner" for r' a b
    by (simp_all add: carries_def)
  show ?thesis
  proof (cases "Option.bind (relay_tcp_parse f) id")
    case (Some msg)
    show ?thesis
    proof (cases msg)
      case (TcpSend dst m)
      have p: "relay_tcp_parse f = Some (Some (TcpSend dst m))"
        using Some TcpSend by (simp add: bind_eq_Some_conv)
      show ?thesis
        using assms carries_try_send [of _ "length_prefix (encode_cmd CMD_TCP_FRAME m)" r1 ch inner]
        by (cases "tget (tr_connections r) dst")
           (auto simp: session_frame_def Let_def r1_def [symmetric] r1 p case_prod_beta sent frame_msg_eq
             split: if_splits)
    qed (use assms carries_other [OF resp, of cid r1 ch] in
          \<open>auto simp: session_frame_def Let_def r1_def [symmetric] r1 Some case_prod_beta\<close>)
  qed (use assms in \<open>simp add: session_frame_def Let_def r1_def [symmetric] r1\<close>)
qed

lemma carries_session_frames:
  "carries (snd (session_frames now cid d fs r)) ch inner \<Longrightarrow> carries r ch inner
    \<or> (\<exists>f\<in>set fs. \<exists>dst. relay_tcp_parse f = Some (Some (TcpSend dst inner)) \<and> tget (tr_connections r) dst = Some ch)"
proof (induction fs arbitrary: r)
  case (Cons f fs)
  obtain res r1 where f: "session_frame now cid d f r = (res, r1)" by fastforce
  have r1: "tr_connections r1 = tr_connections r" using session_frame_frame(1) [of now cid d f r] f by simp
  have "carries r1 ch inner \<or> (\<exists>f\<in>set fs. \<exists>dst. relay_tcp_parse f = Some (Some (TcpSend dst inner))
      \<and> tget (tr_connections r) dst = Some ch)"
    using Cons f r1 by (cases res) fastforce+
  then show ?case using carries_session_frame [of now cid d f r ch inner] f by auto
qed simp

text \<open>A frame appears in a queue only when a session asks for it, on the connection of its destination.\<close>

lemma carries_step:
  assumes "carries (snd (tcp_step h l r e)) ch inner"
  shows "carries r ch inner
    \<or> (\<exists>cid d dst. asks_to_send r e cid d dst inner \<and> tget (tr_connections r) dst = Some ch)"
proof (cases e)
  case (Accept cid ip port now)
  have "tr_queues (snd (tcp_admit ip now r)) = tr_queues r" by (simp add: tcp_admit_def Let_def reject_log_def)
  then show ?thesis
    using assms Accept by (simp add: Let_def case_prod_beta set_conn_def carries_def split: if_splits)
next
  case (FirstFrame cid now frame)
  obtain res r1 where a: "authenticate h l now frame r = (res, r1)" by fastforce
  have q: "tr_queues r1 = tr_queues r" using authenticate_frame(3) [of h l now frame r] a by simp
  have ended: "carries (conn_done cid c r1) ch inner = carries r ch inner" for c
    by (simp add: conn_done_def release_admission_def Let_def carries_def q split: option.split)
  have start: "carries r ch inner"
    if "carries (session_start now cid c d (r1\<lparr>tr_queues := tput cid [] (tr_queues r1)\<rparr>)) ch inner" for c d
    using carries_session_start [OF that] by (auto simp: carries_def q table_simps split: if_splits)
  show ?thesis
  proof (cases "tget (tr_conns r) cid")
    case (Some c)
    then show ?thesis
      using assms a ended start by (cases res; cases "cn_phase c = PreAuth") (simp_all add: FirstFrame Let_def)
  qed (use assms FirstFrame in simp)
next
  case (Chunk cid now chunk)
  show ?thesis
  proof (cases "\<exists>c frames buf. tget (tr_conns r) cid = Some c \<and> cn_phase c = Session \<and> chunk \<noteq> []
      \<and> feed (cn_buf c) chunk = Some (Inr frames, buf)")
    case True
    then obtain c frames buf where c: "tget (tr_conns r) cid = Some c" "cn_phase c = Session" "chunk \<noteq> []"
      "feed (cn_buf c) chunk = Some (Inr frames, buf)" by blast
    let ?r = "set_conn cid (c\<lparr>cn_buf := buf\<rparr>) r"
    have "carries (snd (session_frames now cid (cn_device c) frames ?r)) ch inner"
      using assms c carries_session_end
      by (auto simp: Chunk session_chunk_def Let_def case_prod_beta split: option.splits)
    from carries_session_frames [OF this] show ?thesis
    proof (elim disjE bexE exE conjE)
      fix f dst assume f: "f \<in> set frames" "relay_tcp_parse f = Some (Some (TcpSend dst inner))"
        "tget (tr_connections ?r) dst = Some ch"
      have "asks_to_send r e cid (cn_device c) dst inner" unfolding asks_to_send_def using Chunk c f by blast
      then show ?thesis using f(3) by (auto simp: set_conn_def)
    qed (simp add: set_conn_def carries_def)
  next
    case False
    have "session_chunk now cid c chunk r = session_end cid c (Inl ''frame too large'') r"
      if "tget (tr_conns r) cid = Some c" "cn_phase c = Session" "chunk \<noteq> []" for c
      using that False unfolding session_chunk_def by (fastforce split: option.split sum.split)
    then have "snd (tcp_step h l r e) = r \<or> (\<exists>c res. snd (tcp_step h l r e) = session_end cid c res r)"
      by (auto simp: Chunk split: option.split)
    then show ?thesis using assms carries_session_end by metis
  qed
next
  case (WriterStep cid ok)
  then show ?thesis
    using assms by (auto simp: writer_step_def carries_def table_simps split: option.splits list.splits if_splits)
next
  case (WriterDone cid)
  have "carries (conn_done cid c r) ch inner = carries r ch inner" for c
    by (simp add: conn_done_def release_admission_def Let_def carries_def split: option.split)
  then show ?thesis using assms WriterDone by (auto split: option.splits if_splits)
next
  case (TcpUnregister d)
  then show ?thesis using assms by (simp add: carries_def)
qed (use assms in \<open>auto dest: carries_session_end split: option.splits if_splits\<close>)

text \<open>
  C17 (safety). The TCP relay serves authenticated connections only. The connection that is
  the destination of a device, and every session, began with a REGISTER that
  verified under the relay key of its device. Every frame that waits in a write queue was
  asked for, word for word, by such a session earlier in the run, and the
  queue is that of the connection which was at that moment the authenticated
  destination of the addressed device.
\<close>
theorem tcp_relay_authenticated:
  fixes pr g
  defines "r0 \<equiv> tcp_relay_new pr g"
  assumes "run (tcp_step h lookup) r0 es = (us, r)"
  shows "(\<forall>d cid. tget (tr_connections r) d = Some cid \<longrightarrow> auth_in h lookup (set es) cid d)
       \<and> (\<forall>cid c. tget (tr_conns r) cid = Some c \<and> cn_phase c = Session \<longrightarrow>
            auth_in h lookup (set es) cid (cn_device c))
       \<and> (\<forall>ch q inner. tget (tr_queues r) ch = Some q \<and> frame_msg inner \<in> set q \<longrightarrow>
            (\<exists>pre e post cid d dst. es = pre @ e # post
               \<and> asks_to_send (snd (run (tcp_step h lookup) r0 pre)) e cid d dst inner
               \<and> auth_in h lookup (set pre) cid d
               \<and> tget (tr_connections (snd (run (tcp_step h lookup) r0 pre))) dst = Some ch
               \<and> auth_in h lookup (set pre) ch dst))"
proof -
  let ?at = "\<lambda>es. snd (run (tcp_step h lookup) r0 es)"
  have "owner_inv h lookup {} r0" by (simp add: owner_inv_def r0_def tcp_relay_new_def)
  from owner_inv_run [OF this] have own: "owner_inv h lookup (set es) (?at es)" for es
    by (metis prod.collapse sup_bot_left)
  have sent: "\<exists>pre e post cid d dst. es = pre @ e # post \<and> asks_to_send (?at pre) e cid d dst inner
      \<and> tget (tr_connections (?at pre)) dst = Some ch" if "carries (?at es) ch inner" for es ch inner
    using that
  proof (induction es rule: rev_induct)
    case Nil
    then show ?case by (simp add: r0_def tcp_relay_new_def carries_def)
  next
    case (snoc e es)
    have "carries (snd (tcp_step h lookup (?at es) e)) ch inner"
      using snoc.prems by (simp add: run_append case_prod_beta Let_def del: tcp_step.simps)
    from carries_step [OF this] show ?case
    proof
      assume "carries (?at es) ch inner"
      from snoc.IH [OF this] show ?thesis by (metis append.assoc append_Cons)
    qed blast
  qed
  have asker: "auth_in h lookup (set pre) cid d" if "asks_to_send (?at pre) e cid d dst inner" for pre e cid d dst inner
    using own [of pre] that by (auto simp: owner_inv_def asks_to_send_def)
  have at: "?at es = r" using assms(2) by simp
  have dest: "auth_in h lookup (set pre) ch dst" if "tget (tr_connections (?at pre)) dst = Some ch" for pre ch dst
    using own [of pre] that by (simp add: owner_inv_def)
  have "\<exists>pre e post cid d dst. es = pre @ e # post \<and> asks_to_send (?at pre) e cid d dst inner
      \<and> auth_in h lookup (set pre) cid d \<and> tget (tr_connections (?at pre)) dst = Some ch
      \<and> auth_in h lookup (set pre) ch dst"
    if "tget (tr_queues r) ch = Some q" "frame_msg inner \<in> set q" for ch q inner
  proof -
    have "carries (?at es) ch inner" using that at by (auto simp: carries_def)
    from sent [OF this] show ?thesis using asker dest by blast
  qed
  then show ?thesis using own [of es] at unfolding owner_inv_def by simp
qed

text \<open>An accepted connection that presents a REGISTER of device 0.\<close>

definition demo_events :: "TcpEvent list" where
  "demo_events = [Accept 7 1 2 3, FirstFrame 7 4 (Some ([RELAY_MAGIC, RELAY_VERSION, CMD_REGISTER] @ replicate 56 0))]"

definition demo_hmac :: hmac where "demo_hmac k b = replicate 32 0"

section \<open>Delivery\<close>

lemma session_frame_send:
  assumes "relay_tcp_parse f = Some (Some (TcpSend dst inner))"
    and "tget (tr_connections r) dst = Some t" and "tget (tr_queues r) t = Some q"
    and "length q < RELAY_TCP_QUEUE_FRAMES"
  shows "fst (session_frame now cid d f r) = None"
    and "tget (tr_queues (snd (session_frame now cid d f r))) t
         = Some (q @ [length_prefix (encode_cmd CMD_TCP_FRAME inner)])"
    and "tr_forwarded_packets (snd (session_frame now cid d f r)) = tr_forwarded_packets r + 1"
  using assms by (simp_all add: session_frame_def try_send_def Let_def table_simps)

lemma feed_one: "length p \<le> TCP_MAX_PAYLOAD \<Longrightarrow> feed [] (write_length_prefixed [] p) = Some (Inr [p], [])"
  using feed_loop_stream [of "[p]" "[]"] by (simp add: feed_def stream_of_def)

text \<open>A SEND frame that arrives in one piece on a session is queued on the target's connection.\<close>

lemma send_chunk_queues:
  assumes c: "tget (tr_conns r) cid = Some c" "cn_phase c = Session" "cn_buf c = []"
    and t: "tget (tr_connections r) dst = Some t" "tget (tr_queues r) t = Some q"
      "length q < RELAY_TCP_QUEUE_FRAMES"
    and len: "length inner + 11 \<le> TCP_MAX_PAYLOAD"
    and s: "s = encode_cmd CMD_TCP_SEND (build_send_body dst inner)"
  shows "snd (tcp_step h lookup r (Chunk cid now (write_length_prefixed [] s)))
       = snd (session_frame now cid (cn_device c) s (set_conn cid (c\<lparr>cn_buf := []\<rparr>) r))"
    and "tget (tr_queues (snd (tcp_step h lookup r (Chunk cid now (write_length_prefixed [] s))))) t
       = Some (q @ [length_prefix (encode_cmd CMD_TCP_FRAME inner)])"
proof -
  have ls: "length s \<le> TCP_MAX_PAYLOAD"
    using len by (simp add: s encode_cmd_def build_send_body_def write_u64_le_def)
  have "write_length_prefixed [] s \<noteq> []" by (simp add: s write_length_prefixed_def encode_cmd_def)
  then show 1: "snd (tcp_step h lookup r (Chunk cid now (write_length_prefixed [] s)))
       = snd (session_frame now cid (cn_device c) s (set_conn cid (c\<lparr>cn_buf := []\<rparr>) r))"
    using c session_frame_send(1) [of s dst inner "set_conn cid (c\<lparr>cn_buf := []\<rparr>) r" t q] t
    by (simp add: session_chunk_def feed_one [OF ls, unfolded s] relay_tcp_parse_encode set_conn_def
        case_prod_beta Let_def s)
  show "tget (tr_queues (snd (tcp_step h lookup r (Chunk cid now (write_length_prefixed [] s))))) t
       = Some (q @ [length_prefix (encode_cmd CMD_TCP_FRAME inner)])"
    unfolding 1 using t by (intro session_frame_send(2)) (simp_all add: s relay_tcp_parse_encode set_conn_def)
qed

text \<open>
  End to end over the relay: the bytes a node writes to send a frame
  to device dst are cut into a frame, addressed and queued on dst's connection as
  bytes that the receiving node reassembles and parses into exactly the frame that
  was sent, with the destination stripped.
\<close>
theorem tcp_relay_delivers:
  assumes c: "tget (tr_conns r) cid = Some c" "cn_phase c = Session" "cn_buf c = []"
    and t: "tget (tr_connections r) dst = Some t" "tget (tr_queues r) t = Some q"
      "length q < RELAY_TCP_QUEUE_FRAMES"
    and len: "length inner + 11 \<le> TCP_MAX_PAYLOAD"
  shows "\<exists>m f. tget (tr_queues (snd (tcp_step h lookup r
                  (Chunk cid now (write_length_prefixed [] (encode_cmd CMD_TCP_SEND (build_send_body dst inner))))))) t
             = Some (q @ [m])
          \<and> feed [] m = Some (Inr [f], []) \<and> relay_tcp_parse f = Some (Some (TcpFrame inner))"
proof -
  have "length (encode_cmd CMD_TCP_FRAME inner) \<le> TCP_MAX_PAYLOAD" using len by (simp add: encode_cmd_def)
  then show ?thesis
    using send_chunk_queues(2) [OF assms refl] feed_one relay_tcp_parse_encode(4)
    by (auto simp: length_prefix_def)
qed

text \<open>The connection registers and then sends a frame to its own device.\<close>

definition demo_send :: TcpEvent where
  "demo_send = Chunk 7 9 (write_length_prefixed [] (encode_cmd CMD_TCP_SEND (build_send_body 0 [1, 2, 3])))"

lemma session_start_fresh:
  assumes "tget (tr_queues r) cid = Some []" "tget (tr_connections r) d = None"
  shows "tget (tr_connections (session_start now cid c d r)) d = Some cid"
    and "tget (tr_conns (session_start now cid c d r)) cid
         = Some (c\<lparr>cn_phase := Session, cn_device := d, cn_buf := []\<rparr>)"
    and "\<exists>ack. tget (tr_queues (session_start now cid c d r)) cid = Some [ack]"
  using assms by (simp_all add: session_start_def Let_def try_send_def set_conn_def RELAY_TCP_QUEUE_FRAMES_def table_simps)

theorem tcp_relay_authenticated_witness:
  "let r0 = tcp_relay_new presence_new []; es = demo_events @ [demo_send]; step = tcp_step demo_hmac (\<lambda>_. Some []);
       r = snd (run step r0 es)
   in tget (tr_connections r) 0 = Some 7 \<and> auth_in demo_hmac (\<lambda>_. Some []) (set es) 7 0 \<and> carries r 7 [1, 2, 3]
      \<and> (\<exists>pre e post cid d dst. es = pre @ e # post \<and> asks_to_send (snd (run step r0 pre)) e cid d dst [1, 2, 3]
           \<and> auth_in demo_hmac (\<lambda>_. Some []) (set pre) cid d \<and> auth_in demo_hmac (\<lambda>_. Some []) (set pre) 7 dst)"
proof -
  let ?step = "tcp_step demo_hmac (\<lambda>_. Some [])"
  let ?c = "\<lparr>cn_ip = 1, cn_port = 2, cn_phase = PreAuth, cn_device = 0, cn_buf = []\<rparr>"
  let ?f = "Some ([RELAY_MAGIC, RELAY_VERSION, CMD_REGISTER] @ replicate 56 0)"
  define r1 where "r1 = snd (?step (tcp_relay_new presence_new []) (Accept 7 1 2 3))"
  define r2 where "r2 = snd (authenticate demo_hmac (\<lambda>_. Some []) 4 ?f r1)"
  have "fst (authenticate demo_hmac (\<lambda>_. Some []) 4 ?f r1) = Inr 0"
    unfolding r1_def by code_simp
  then have a: "authenticate demo_hmac (\<lambda>_. Some []) 4 ?f r1 = (Inr 0, r2)"
    by (simp add: r2_def prod_eq_iff)
  have c: "tget (tr_conns r1) 7 = Some ?c" "tr_connections r1 = []"
    by (simp_all add: r1_def tcp_relay_new_def tcp_admit_def ip_count_def set_conn_def thas_def
        MAX_CONNS_TOTAL_def MAX_CONNS_PER_IP_def)
  define r2' where "r2' = r2\<lparr>tr_queues := tput 7 [] (tr_queues r2)\<rparr>"
  define r3 where "r3 = session_start 4 7 ?c 0 r2'"
  have "tget (tr_queues r2') 7 = Some []" "tget (tr_connections r2') 0 = None"
    by (simp_all add: r2'_def r2_def c table_simps)
  from session_start_fresh [OF this, of 4 ?c, folded r3_def] obtain ack where r3: "tget (tr_connections r3) 0 = Some 7"
    "tget (tr_conns r3) 7 = Some (?c\<lparr>cn_phase := Session, cn_device := 0, cn_buf := []\<rparr>)"
    "tget (tr_queues r3) 7 = Some [ack]" by blast
  define r4 where "r4 = snd (?step r3 demo_send)"
  have "run ?step (tcp_relay_new presence_new []) demo_events = ([(), ()], r3)"
    by (simp add: demo_events_def r1_def [symmetric] c a [simplified] r3_def r2'_def case_prod_beta Let_def
        del: tcp_step.simps(1))
  then have r: "run ?step (tcp_relay_new presence_new []) (demo_events @ [demo_send]) = ([(), (), ()], r4)"
    by (simp add: run_append r4_def case_prod_beta Let_def del: tcp_step.simps)
  have q: "tget (tr_queues r4) 7 = Some [ack, frame_msg [1, 2, 3]]"
    using send_chunk_queues(2) [OF r3(2) _ _ r3(1,3) _ _ refl, of "[1, 2, 3]" demo_hmac "\<lambda>_. Some []" 9]
    by (simp add: r4_def demo_send_def frame_msg_def RELAY_TCP_QUEUE_FRAMES_def TCP_MAX_PAYLOAD_def)
  have t: "tget (tr_connections r4) 0 = Some 7"
    using send_chunk_queues(1) [OF r3(2) _ _ r3(1,3) _ _ refl, of "[1, 2, 3]" demo_hmac "\<lambda>_. Some []" 9] r3(1)
    by (simp add: r4_def demo_send_def RELAY_TCP_QUEUE_FRAMES_def TCP_MAX_PAYLOAD_def set_conn_def)
  have "carries r4 7 [1, 2, 3]" using q by (simp add: carries_def)
  moreover have "frame_msg [1, 2, 3] \<in> set [ack, frame_msg [1, 2, 3]]" by simp
  ultimately show ?thesis
    using tcp_relay_authenticated [OF r] t q unfolding Let_def r snd_conv by blast
qed

section \<open>Release of the slot of a session\<close>

text \<open>
  The connection's own task has finished its session, but the table still holds a
  sender of its queue, and no kick is queued.
\<close>

definition sender_left :: "nat \<Rightarrow> u64 \<Rightarrow> TcpRelay \<Rightarrow> bool" where
  "sender_left cid d r =
     ((\<exists>c. tget (tr_conns r) cid = Some c \<and> cn_phase c = Draining)
      \<and> tget (tr_connections r) d = Some cid
      \<and> (\<forall>d'. d' \<noteq> d \<longrightarrow> tget (tr_connections r) d' \<noteq> Some cid)
      \<and> (\<exists>q. tget (tr_queues r) cid = Some q \<and> [] \<notin> set q))"

text \<open>Events that neither write with an error on the connection nor concern its device.\<close>

fun quiet :: "nat \<Rightarrow> u64 \<Rightarrow> TcpEvent \<Rightarrow> bool" where
  "quiet cid d (FirstFrame _ _ frame) =
     (case frame of
        None \<Rightarrow> True
      | Some f \<Rightarrow> (case Option.bind (relay_tcp_parse f) id of
                    Some (TcpRegister body) \<Rightarrow> of_nat (le_val (take 8 body)) \<noteq> d
                  | _ \<Rightarrow> True))"
| "quiet cid d (WriterStep c ok) = (c = cid \<longrightarrow> ok)"
| "quiet cid d (TcpUnregister d') = (d' \<noteq> d)"
| "quiet cid d _ = True"


lemma sender_left_cong:
  "sender_left cid d r \<Longrightarrow> tr_connections r' = tr_connections r \<Longrightarrow>
   tget (tr_conns r') cid = tget (tr_conns r) cid \<Longrightarrow> tget (tr_queues r') cid = tget (tr_queues r) cid \<Longrightarrow>
   sender_left cid d r'"
  by (simp add: sender_left_def)

lemma sender_left_try_send:
  "sender_left cid d r \<Longrightarrow> m \<noteq> [] \<or> ch \<noteq> cid \<Longrightarrow> sender_left cid d (snd (try_send ch m r))"
  by (auto simp: sender_left_def try_send_queues split: option.splits)

lemma sender_left_set_conn:
  "sender_left cid d r \<Longrightarrow> cid' \<noteq> cid \<Longrightarrow> sender_left cid d (set_conn cid' c r)"
  by (auto simp: sender_left_def set_conn_def table_simps)

lemma sender_left_connections:
  "sender_left cid d r \<Longrightarrow> d' \<noteq> d \<Longrightarrow> sender_left cid d (r\<lparr>tr_connections := tdel d' (tr_connections r)\<rparr>)"
  "sender_left cid d r \<Longrightarrow> d' \<noteq> d \<Longrightarrow> cid' \<noteq> cid \<Longrightarrow>
   sender_left cid d (r\<lparr>tr_connections := tput d' cid' (tr_connections r)\<rparr>)"
  by (auto simp: sender_left_def table_simps)

lemma length_prefix_nonempty [simp]: "length_prefix m \<noteq> []"
  by (simp add: length_prefix_def write_length_prefixed_def write_u32_le_def u32_to_le_bytes_def
      flip: length_0_conv)

lemma sender_left_owner: "sender_left cid d r \<Longrightarrow> tget (tr_connections r) d = Some cid"
  unfolding sender_left_def by blast

lemma sender_left_end_err:
  assumes s: "sender_left cid d r" and n: "cid' \<noteq> cid"
  shows "sender_left cid d (session_end cid' c (Inl msg) r)"
  unfolding session_end_def Let_def sum.case
  by (rule sender_left_set_conn [OF sender_left_try_send [OF s disjI2 [OF n]] n])

lemma sender_left_end_ok:
  assumes s: "sender_left cid d r" and n: "cid' \<noteq> cid"
  shows "sender_left cid d (session_end cid' c (Inr d') r)"
proof (cases "tget (tr_connections r) d' = Some cid'")
  case True
  then have "d' \<noteq> d" using sender_left_owner [OF s] n by auto
  from sender_left_set_conn [OF sender_left_connections(1) [OF s this] n]
  show ?thesis unfolding session_end_def Let_def sum.case if_P [OF True] .
next
  case False
  show ?thesis
    unfolding session_end_def Let_def sum.case if_not_P [OF False]
    by (rule sender_left_set_conn [OF s n])
qed

lemma sender_left_session_end:
  "sender_left cid d r \<Longrightarrow> cid' \<noteq> cid \<Longrightarrow> sender_left cid d (session_end cid' c res r)"
  by (cases res) (simp_all add: sender_left_end_err sender_left_end_ok)

lemma sender_left_counters [intro]:
  "sender_left cid d r \<Longrightarrow> sender_left cid d (r\<lparr>tr_presence := p\<rparr>)"
  "sender_left cid d r \<Longrightarrow> sender_left cid d (r\<lparr>tr_dropped_packets := a\<rparr>)"
  "sender_left cid d r \<Longrightarrow> sender_left cid d (r\<lparr>tr_forwarded_packets := a, tr_forwarded_bytes := b\<rparr>)"
  by (simp_all add: sender_left_def)

lemma sender_left_session_frame:
  assumes "sender_left cid d r"
  shows "sender_left cid d (snd (session_frame now cid' d' f r))"
proof -
  define r1 where "r1 = r\<lparr>tr_presence := touch_relay_tcp now d' (tr_presence r)\<rparr>"
  have 1: "sender_left cid d r1" unfolding r1_def using assms by (rule sender_left_counters)
  then have 2: "sender_left cid d (snd (try_send ch (length_prefix m) r1))" for ch m
    by (simp add: sender_left_try_send)
  note counters = sender_left_counters(2,3)
  show ?thesis
  proof (cases "Option.bind (relay_tcp_parse f) id")
    case (Some msg)
    show ?thesis
    proof (cases msg)
      case (TcpSend dst inner)
      show ?thesis
        using counters [OF 1] counters [OF 2]
        by (cases "tget (tr_connections r1) dst")
           (simp_all add: session_frame_def Let_def r1_def [symmetric] Some TcpSend case_prod_beta)
    qed (use 1 2 in \<open>simp_all add: session_frame_def Let_def r1_def [symmetric] Some case_prod_beta\<close>)
  qed (use 1 in \<open>simp add: session_frame_def Let_def r1_def [symmetric]\<close>)
qed

lemma sender_left_session_frames:
  "sender_left cid d r \<Longrightarrow> sender_left cid d (snd (session_frames now cid' d' fs r))"
  by (induction fs arbitrary: r)
     (simp_all add: case_prod_beta Let_def sender_left_session_frame split: option.splits)

lemma sender_left_start:
  assumes s: "sender_left cid d r" and d': "d' \<noteq> d" and c': "cid' \<noteq> cid"
  shows "sender_left cid d (session_start now cid' c d' r)"
proof -
  have old: "old \<noteq> cid" if "tget (tr_connections r) d' = Some old" for old
    using that s d' by (auto simp: sender_left_def)
  have p: "sender_left cid d (x\<lparr>tr_connections := tput d' cid' (tr_connections x), tr_presence := p\<rparr>)"
    if "sender_left cid d x" for x p
    by (rule sender_left_cong [OF sender_left_connections(2) [OF that d' c']]) simp_all
  have "sender_left cid d (case tget (tr_connections r) d' of
       Some old \<Rightarrow> snd (try_send old [] (r\<lparr>tr_connections := tdel d' (tr_connections r)\<rparr>)) | None \<Rightarrow> r)"
    using s d' old by (auto split: option.splits intro!: sender_left_try_send sender_left_connections)
  then show ?thesis
    unfolding session_start_def Let_def
    using c' by (auto simp: case_prod_beta intro!: sender_left_session_end sender_left_try_send
        sender_left_set_conn p split del: if_split split: if_splits)
qed


lemma sender_left_step:
  assumes s: "sender_left cid d r" and q: "quiet cid d e"
  shows "sender_left cid d (snd (tcp_step h l r e))"
proof -
  obtain c qu where c: "tget (tr_conns r) cid = Some c" "cn_phase c = Draining"
    "tget (tr_queues r) cid = Some qu" "[] \<notin> set qu" "tget (tr_connections r) d = Some cid"
    using s by (auto simp: sender_left_def)
  show ?thesis
  proof (cases e)
    case (Accept cid' ip port now)
    have "sender_left cid d (snd (tcp_admit ip now r))"
      by (rule sender_left_cong [OF s]) (auto simp: tcp_admit_def reject_log_def Let_def)
    then show ?thesis
      using s c Accept sender_left_set_conn [of cid d "snd (tcp_admit ip now r)" cid']
      by (cases "cid' = cid") (simp_all add: Let_def case_prod_beta thas_def)
  next
    case (FirstFrame cid' now frame)
    obtain res r1 where a: "authenticate h l now frame r = (res, r1)" by force
    have r1: "tr_conns r1 = tr_conns r" "tr_connections r1 = tr_connections r" "tr_queues r1 = tr_queues r"
      using authenticate_frame [of h l now frame r] a by auto
    have "d' \<noteq> d" if "res = Inr d'" for d'
      using a that q FirstFrame
      by (auto simp: authenticate_def Let_def case_prod_beta split: option.splits RelayTcpMsg.splits if_splits)
    moreover have "sender_left cid d (r1\<lparr>tr_queues := tput cid' [] (tr_queues r1)\<rparr>)" if "cid' \<noteq> cid"
      using that by (intro sender_left_cong [OF s]) (simp_all add: r1 table_simps)
    moreover have "sender_left cid d (conn_done cid' c' r1)" if "cid' \<noteq> cid" for c'
      using that r1 by (intro sender_left_cong [OF s])
        (auto simp: conn_done_def release_admission_def Let_def table_simps split: option.split)
    ultimately show ?thesis
      using s FirstFrame a
      by (cases "cid' = cid") (auto simp: c split: option.splits sum.splits intro!: sender_left_start)
  next
    case (Chunk cid' now chunk)
    have "sender_left cid d (session_chunk now cid' c' chunk r)" if "cid' \<noteq> cid" for c'
      unfolding session_chunk_def Let_def case_prod_beta
      using that s by (auto split: option.splits sum.splits
          intro!: sender_left_session_end sender_left_session_frames sender_left_set_conn)
    then show ?thesis
      using s Chunk
      by (cases "cid' = cid") (auto simp: c split: option.splits intro!: sender_left_session_end)
  next
    case (WriterStep cid' ok)
    have "has_sender cid r"
      using c(5) by (auto simp: has_sender_def dest: map_of_SomeD intro: rev_image_eqI)
    then have "sender_left cid d (writer_step cid' ok r)"
      using s q c WriterStep
      by (auto simp: sender_left_def writer_step_def table_simps split: option.splits list.splits)
    then show ?thesis using WriterStep by simp
  next
    case (WriterDone cid')
    have "sender_left cid d (conn_done cid' c' r)" if "cid' \<noteq> cid" for c'
      using that by (intro sender_left_cong [OF s])
        (auto simp: conn_done_def release_admission_def Let_def table_simps split: option.split)
    then show ?thesis
      using s c WriterDone by (cases "cid' = cid") (auto simp: thas_def split: option.splits)
  next
    case (TcpUnregister d')
    then show ?thesis using s q by (simp add: sender_left_connections)
  qed (use s c in \<open>auto split: option.splits intro!: sender_left_session_end\<close>)
qed

lemma sender_left_run:
  "sender_left cid d r \<Longrightarrow> \<forall>e\<in>set es. quiet cid d e \<Longrightarrow> sender_left cid d (snd (run (tcp_step h l) r es))"
  by (induction es arbitrary: r) (simp_all add: case_prod_beta Let_def sender_left_step)

text \<open>
  A session that ends by the idle timeout keeps its admission slot: whatever
  then happens on the server, until the device connects again, is removed, or a
  write on the dead socket fails, the connection is still counted.
\<close>
theorem tcp_idle_timeout_keeps_slot:
  assumes "tget (tr_conns r) cid = Some c" "cn_phase c = Session"
    and "tget (tr_connections r) (cn_device c) = Some cid"
    and "\<forall>d'. d' \<noteq> cn_device c \<longrightarrow> tget (tr_connections r) d' \<noteq> Some cid"
    and "tget (tr_queues r) cid = Some q" "[] \<notin> set q"
    and "\<forall>e\<in>set es. quiet cid (cn_device c) e"
  shows "thas (tr_conns (snd (run (tcp_step h lookup) r (IdleTimeout cid # es)))) cid"
proof -
  define r1 where "r1 = session_end cid c (Inl ''idle timeout'') r"
  define m where "m = length_prefix (encode_cmd CMD_ERROR (as_bytes ''idle timeout''))"
  have "m \<noteq> []" unfolding m_def by (rule length_prefix_nonempty)
  moreover have "tr_queues r1 = tr_queues (snd (try_send cid m r))"
    unfolding r1_def session_end_def Let_def set_conn_def sum.case m_def by simp
  ultimately have "\<exists>q'. tget (tr_queues r1) cid = Some q' \<and> [] \<notin> set q'"
    using assms(5,6) by (auto simp: try_send_queues)
  moreover have "tget (tr_connections r1) = tget (tr_connections r)"
    by (simp add: fun_eq_iff r1_def session_end_connections)
  moreover have "tget (tr_conns r1) cid = Some (c\<lparr>cn_phase := Draining\<rparr>)"
    by (simp add: r1_def table_simps)
  ultimately have "sender_left cid (cn_device c) r1"
    unfolding sender_left_def using assms(3,4) by simp
  then have "sender_left cid (cn_device c) (snd (tcp_step h lookup r (IdleTimeout cid)))"
    using assms by (simp add: r1_def)
  from sender_left_run [OF this assms(7), of h lookup]
  show ?thesis by (auto simp: sender_left_def thas_def case_prod_beta Let_def)
qed


definition live_session :: TcpRelay where
  "live_session = (tcp_relay_new presence_new [])
     \<lparr>tr_conns := [(7, \<lparr>cn_ip = 1, cn_port = 2, cn_phase = Session, cn_device = 5, cn_buf = []\<rparr>)],
      tr_connections := [(5, 7)], tr_queues := [(7, [])], tr_conn_total := 1, tr_conn_per_ip := [(1, 1)]\<rparr>"

theorem tcp_idle_timeout_keeps_slot_witness:
  "thas (tr_conns (snd (run (tcp_step demo_hmac (\<lambda>_. None)) live_session
     (IdleTimeout 7 # replicate 1000 (WriterStep 7 True) @ [WriterDone 7])))) 7"
  by (rule tcp_idle_timeout_keeps_slot
        [where c = "\<lparr>cn_ip = 1, cn_port = 2, cn_phase = Session, cn_device = 5, cn_buf = []\<rparr>" and q = "[]"])
     (auto simp: live_session_def tcp_relay_new_def)

lemma writer_drains:
  "\<not> has_sender cid r \<Longrightarrow> (\<forall>q. tget (tr_queues r) cid = Some q \<longrightarrow> length q < n) \<Longrightarrow>
   (let r' = snd (run (tcp_step h l) r (replicate n (WriterStep cid True)))
    in tget (tr_queues r') cid = None \<and> tr_conns r' = tr_conns r \<and> tr_conn_total r' = tr_conn_total r)"
proof (induction n arbitrary: r)
  case 0
  then show ?case by (cases "tget (tr_queues r) cid") auto
next
  case (Suc n)
  let ?r = "writer_step cid True r"
  have "\<not> has_sender cid ?r" using Suc.prems by (simp add: has_sender_def)
  moreover have "\<forall>q. tget (tr_queues ?r) cid = Some q \<longrightarrow> length q < n"
    using Suc.prems by (auto simp: writer_step_def table_simps split: option.splits list.splits if_splits)
  ultimately show ?case using Suc.IH [of ?r] by (simp add: Let_def case_prod_beta)
qed

text \<open>
  A session whose peer closes the stream is released: once the writer has
  written what was queued, the connection is gone, its slot is free and its device
  is no longer a destination.
\<close>
theorem tcp_eof_releases_slot:
  assumes "tget (tr_conns r) cid = Some c" "cn_phase c = Session"
    and "tinv (tr_connections r)" "tget (tr_connections r) (cn_device c) = Some cid"
    and "\<forall>d'. d' \<noteq> cn_device c \<longrightarrow> tget (tr_connections r) d' \<noteq> Some cid"
    and "tget (tr_queues r) cid = Some q" "length q < n"
  shows "let r' = snd (run (tcp_step h lookup) r (Chunk cid now [] # replicate n (WriterStep cid True) @ [WriterDone cid]))
         in \<not> thas (tr_conns r') cid \<and> tr_conn_total r' = tr_conn_total r - 1
            \<and> tget (tr_connections r') (cn_device c) = None"
proof -
  let ?step = "tcp_step h lookup"
  define r1 where "r1 = session_end cid c (Inr (cn_device c)) r"
  define r2 where "r2 = snd (run ?step r1 (replicate n (WriterStep cid True)))"
  have r1: "tr_queues r1 = tr_queues r" "tr_conn_total r1 = tr_conn_total r"
    "tr_connections r1 = tdel (cn_device c) (tr_connections r)"
    "tget (tr_conns r1) cid = Some (c\<lparr>cn_phase := Draining\<rparr>)"
    using assms(4) by (simp_all add: r1_def session_end_def Let_def set_conn_def table_simps)
  have "cid \<notin> snd ` set (tr_connections r1)"
  proof
    assume "cid \<in> snd ` set (tr_connections r1)"
    then obtain d where "(d, cid) \<in> set (tr_connections r1)" by auto
    then have "tget (tr_connections r1) d = Some cid" using assms(3) by (simp add: r1 flip: tget_in_set)
    then show False using assms(5) by (auto simp: r1 table_simps split: if_splits)
  qed
  then have "\<not> has_sender cid r1" by (simp add: has_sender_def r1)
  then have r2: "tget (tr_queues r2) cid = None" "tr_conns r2 = tr_conns r1" "tr_conn_total r2 = tr_conn_total r1"
    using writer_drains [of cid r1 n h lookup] assms(6,7) by (simp_all add: Let_def r2_def r1)
  have "tr_connections (snd (run ?step x (replicate m (WriterStep cid True)))) = tr_connections x" for m x
    by (induction m arbitrary: x) (simp_all add: case_prod_beta Let_def)
  then have r2': "tr_connections r2 = tr_connections r1" by (simp add: r2_def)
  have "snd (run ?step r (Chunk cid now [] # replicate n (WriterStep cid True) @ [WriterDone cid]))
      = conn_done cid (c\<lparr>cn_phase := Draining\<rparr>) r2"
    using assms(1,2) r2(1,2) r1(4)
    by (simp add: run_append case_prod_beta Let_def r1_def [symmetric] r2_def [symmetric] thas_def)
  moreover have "tr_connections (conn_done cid c' x) = tr_connections x" for c' x
    by (simp add: conn_done_def release_admission_def Let_def split: option.split)
  ultimately show ?thesis
    using r2 r2' r1 by (simp add: Let_def conn_done_fields thas_def table_simps)
qed

theorem tcp_eof_releases_slot_witness:
  "let r' = snd (run (tcp_step demo_hmac (\<lambda>_. None)) live_session
     (Chunk 7 9 [] # replicate 1 (WriterStep 7 True) @ [WriterDone 7]))
   in \<not> thas (tr_conns r') 7 \<and> tr_conn_total r' = tr_conn_total live_session - 1
      \<and> tget (tr_connections r') (cn_device \<lparr>cn_ip = 1, cn_port = 2, cn_phase = Session, cn_device = 5, cn_buf = []\<rparr>) = None"
  by (rule tcp_eof_releases_slot [where q = "[]"])
     (auto simp: live_session_def tcp_relay_new_def tinv_def)

theorem tcp_relay_delivers_witness:
  "\<exists>m f. tget (tr_queues (snd (tcp_step demo_hmac (\<lambda>_. None) live_session
           (Chunk 7 9 (write_length_prefixed [] (encode_cmd CMD_TCP_SEND (build_send_body 5 [1, 2, 3]))))))) 7
         = Some ([] @ [m])
       \<and> feed [] m = Some (Inr [f], []) \<and> relay_tcp_parse f = Some (Some (TcpFrame [1, 2, 3]))"
  by (rule tcp_relay_delivers
        [where c = "\<lparr>cn_ip = 1, cn_port = 2, cn_phase = Session, cn_device = 5, cn_buf = []\<rparr>"])
     (simp_all add: live_session_def tcp_relay_new_def RELAY_TCP_QUEUE_FRAMES_def TCP_MAX_PAYLOAD_def)

end
