(* ===== verification/EventsHub.thy ===== *)
theory EventsHub
  imports Models
begin

text \<open>
  crates/skiff-server/src/events\_hub.rs: the hub of realtime sockets, one entry per
  (device, network). A channel is a number; \<open>eh_log\<close> holds what was sent on
  each channel, in order, and \<open>eh_next\<close> is the next unused channel. Operations
  run under the map's locks.
\<close>

type_synonym channel = nat

datatype HubMessage = Ws WsEvent | Close

record EventsHub =
  eh_map :: "(u64 \<times> NetId, channel) table"
  eh_log :: "channel \<Rightarrow> HubMessage list"
  eh_next :: channel

definition hub_new :: EventsHub where
  "hub_new = \<lparr>eh_map = [], eh_log = (\<lambda>_. []), eh_next = 0\<rparr>"

definition hub_send :: "channel \<Rightarrow> HubMessage \<Rightarrow> EventsHub \<Rightarrow> EventsHub" where
  "hub_send ch msg hub = hub\<lparr>eh_log := (eh_log hub)(ch := eh_log hub ch @ [msg])\<rparr>"

definition hub_register :: "u64 \<Rightarrow> NetId \<Rightarrow> EventsHub \<Rightarrow> channel \<times> EventsHub" where
  "hub_register device_id network_id hub =
     (let tx = eh_next hub in
      (tx, hub\<lparr>eh_map := tput (device_id, network_id) tx (eh_map hub), eh_next := tx + 1\<rparr>))"

definition unregister_if_current :: "u64 \<Rightarrow> NetId \<Rightarrow> channel \<Rightarrow> EventsHub \<Rightarrow> EventsHub" where
  "unregister_if_current device_id network_id tx hub =
     (if tget (eh_map hub) (device_id, network_id) = Some tx
      then hub\<lparr>eh_map := tdel (device_id, network_id) (eh_map hub)\<rparr> else hub)"

definition hub_remove_key :: "u64 \<times> NetId \<Rightarrow> EventsHub \<Rightarrow> EventsHub" where
  "hub_remove_key key hub =
     (case tget (eh_map hub) key of
        Some tx \<Rightarrow> hub_send tx Close (hub\<lparr>eh_map := tdel key (eh_map hub)\<rparr>)
      | None \<Rightarrow> hub)"

definition hub_unregister :: "u64 \<Rightarrow> NetId \<Rightarrow> EventsHub \<Rightarrow> EventsHub" where
  "hub_unregister device_id network_id hub = hub_remove_key (device_id, network_id) hub"

definition unregister_device :: "u64 \<Rightarrow> EventsHub \<Rightarrow> EventsHub" where
  "unregister_device device_id hub =
     (let keys = filter (\<lambda>k. fst k = device_id) (map fst (eh_map hub))
      in fold hub_remove_key keys hub)"

definition hub_send_where :: "(u64 \<times> NetId \<Rightarrow> bool) \<Rightarrow> WsEvent \<Rightarrow> EventsHub \<Rightarrow> EventsHub" where
  "hub_send_where P evt hub =
     fold (\<lambda>(k, tx) h. if P k then hub_send tx (Ws evt) h else h) (eh_map hub) hub"

definition send_to_device :: "u64 \<Rightarrow> WsEvent \<Rightarrow> EventsHub \<Rightarrow> EventsHub" where
  "send_to_device device_id evt hub = hub_send_where (\<lambda>k. fst k = device_id) evt hub"

definition broadcast_network :: "NetId \<Rightarrow> WsEvent \<Rightarrow> EventsHub \<Rightarrow> EventsHub" where
  "broadcast_network network_id evt hub = hub_send_where (\<lambda>k. snd k = network_id) evt hub"

datatype HubOp =
    HubRegister u64 NetId
  | HubTeardown u64 NetId channel
  | HubUnregister u64 NetId
  | HubUnregisterDevice u64
  | HubSend u64 WsEvent
  | HubBroadcast NetId WsEvent

fun hub_step :: "EventsHub \<Rightarrow> HubOp \<Rightarrow> channel option \<times> EventsHub" where
  "hub_step h (HubRegister d n) = (let (tx, h) = hub_register d n h in (Some tx, h))"
| "hub_step h (HubTeardown d n tx) = (None, unregister_if_current d n tx h)"
| "hub_step h (HubUnregister d n) = (None, hub_unregister d n h)"
| "hub_step h (HubUnregisterDevice d) = (None, unregister_device d h)"
| "hub_step h (HubSend d e) = (None, send_to_device d e h)"
| "hub_step h (HubBroadcast n e) = (None, broadcast_network n e h)"

section \<open>Invariant: an entry owns its channel\<close>

definition hub_inv :: "EventsHub \<Rightarrow> bool" where
  "hub_inv h = (tinv (eh_map h) \<and> inj_on (tget (eh_map h)) (dom (tget (eh_map h)))
     \<and> (\<forall>k tx. tget (eh_map h) k = Some tx \<longrightarrow> tx < eh_next h))"

lemma hub_send_fields [simp]:
  "eh_map (hub_send ch m h) = eh_map h" "eh_next (hub_send ch m h) = eh_next h"
  "eh_log (hub_send ch m h) = (eh_log h)(ch := eh_log h ch @ [m])"
  by (simp_all add: hub_send_def)

lemma hub_send_fold [simp]:
  "eh_map (fold (\<lambda>(k, tx) h. if P k then hub_send tx m h else h) es h) = eh_map h"
  "eh_next (fold (\<lambda>(k, tx) h. if P k then hub_send tx m h else h) es h) = eh_next h"
  by (induction es arbitrary: h) (simp_all add: case_prod_beta)

lemma hub_inv_cong:
  "hub_inv h \<Longrightarrow> eh_map h' = eh_map h \<Longrightarrow> eh_next h' = eh_next h \<Longrightarrow> hub_inv h'"
  by (simp add: hub_inv_def)

lemma hub_inv_tdel: "hub_inv h \<Longrightarrow> hub_inv (h\<lparr>eh_map := tdel k (eh_map h)\<rparr>)"
  by (auto simp: hub_inv_def table_simps inj_on_def dom_def split: if_splits)

lemma hub_inv_remove_key: "hub_inv h \<Longrightarrow> hub_inv (hub_remove_key k h)"
  using hub_inv_tdel [of h k]
  by (auto simp: hub_remove_key_def hub_inv_def split: option.splits)

lemma hub_inv_remove_keys: "hub_inv h \<Longrightarrow> hub_inv (fold hub_remove_key ks h)"
  by (induction ks arbitrary: h) (simp_all add: hub_inv_remove_key)

lemma hub_inv_register: "hub_inv h \<Longrightarrow> hub_inv (snd (hub_register d n h))"
  unfolding hub_inv_def hub_register_def Let_def
  by (auto simp: table_simps inj_on_def dom_def split: if_splits) (fastforce simp: less_Suc_eq)+

interpretation hub: machine hub_step hub_inv
proof
  fix h e r h'
  assume i: "hub_inv h" and s: "hub_step h e = (r, h')"
  show "hub_inv h'"
    using s hub_inv_register [OF i] hub_inv_tdel [OF i] hub_inv_remove_key [OF i] hub_inv_remove_keys [OF i] i
    by (cases e) (auto simp: unregister_if_current_def hub_unregister_def unregister_device_def
        send_to_device_def broadcast_network_def hub_send_where_def case_prod_beta Let_def
        intro: hub_inv_cong [OF i] split: if_splits)
qed

lemma hub_inv_new: "hub_inv hub_new"
  by (simp add: hub_inv_def hub_new_def)


section \<open>Delivery\<close>

lemma hub_fold_log:
  "distinct (map snd es) \<Longrightarrow>
   eh_log (fold (\<lambda>(k, tx) h. if P k then hub_send tx m h else h) es h) ch
     = eh_log h ch @ (if \<exists>k. (k, ch) \<in> set es \<and> P k then [m] else [])"
proof (induction es arbitrary: h)
  case (Cons a es)
  have "ch \<notin> snd ` set es" if "snd a = ch" using Cons.prems that by auto
  then show ?case using Cons by (cases a) (auto simp: image_iff split: if_splits)
qed simp

lemma hub_inv_channels:
  assumes "hub_inv h"
  shows "distinct (map snd (eh_map h))"
proof -
  have t: "tinv (eh_map h)" and i: "inj_on (tget (eh_map h)) (dom (tget (eh_map h)))"
    using assms by (simp_all add: hub_inv_def)
  have "inj_on snd (set (eh_map h))"
  proof (rule inj_onI)
    fix a b
    assume ab: "a \<in> set (eh_map h)" "b \<in> set (eh_map h)" "snd a = snd b"
    then have "tget (eh_map h) (fst a) = Some (snd a)" "tget (eh_map h) (fst b) = Some (snd a)"
      using tget_in_set [OF t] by (metis prod.collapse)+
    then show "a = b" using i ab(3) unfolding inj_on_def dom_def by (metis (mono_tags) mem_Collect_eq option.discI prod_eqI)
  qed
  then show ?thesis using t by (simp add: distinct_map tinv_def)
qed

lemma hub_send_where_log:
  assumes "hub_inv h"
  shows "eh_log (hub_send_where P evt h) ch
       = eh_log h ch @ (if \<exists>k. tget (eh_map h) k = Some ch \<and> P k then [Ws evt] else [])"
  using hub_fold_log [OF hub_inv_channels [OF assms], of P "Ws evt" h ch] assms
  by (simp add: hub_send_where_def tget_in_set hub_inv_def)

text \<open>
  After any history of the hub, an event for a device is sent exactly
  once on the current socket of each of its networks and on no other socket, and a
  broadcast exactly once on each socket of its network.
\<close>
theorem hub_delivery_exact:
  "let h = snd (run hub_step hub_new ops) in
     eh_log (send_to_device d evt h) ch
       = eh_log h ch @ (if \<exists>n. tget (eh_map h) (d, n) = Some ch then [Ws evt] else [])
   \<and> eh_log (broadcast_network n evt h) ch
       = eh_log h ch @ (if \<exists>d. tget (eh_map h) (d, n) = Some ch then [Ws evt] else [])"
  using hub_send_where_log [OF hub.run_snd_inv [OF hub_inv_new, of ops]]
  by (simp add: Let_def send_to_device_def broadcast_network_def conj_commute)

section \<open>Teardown\<close>

text \<open>Operations that may not remove the socket tx of (device, network).\<close>

fun hub_spares :: "u64 \<Rightarrow> NetId \<Rightarrow> channel \<Rightarrow> HubOp \<Rightarrow> bool" where
  "hub_spares d n tx (HubRegister d' n') = ((d', n') \<noteq> (d, n))"
| "hub_spares d n tx (HubTeardown d' n' tx') = (tx' \<noteq> tx)"
| "hub_spares d n tx (HubUnregister d' n') = ((d', n') \<noteq> (d, n))"
| "hub_spares d n tx (HubUnregisterDevice d') = (d' \<noteq> d)"
| "hub_spares d n tx _ = True"

lemma hub_remove_keys_tget:
  "k \<notin> set ks \<Longrightarrow> tget (eh_map (fold hub_remove_key ks h)) k = tget (eh_map h) k"
proof (induction ks arbitrary: h)
  case (Cons a ks)
  then show ?case by (simp add: hub_remove_key_def table_simps split: option.split)
qed simp

lemma hub_spares_step:
  assumes "tget (eh_map h) (d, n) = Some tx" and "hub_spares d n tx e"
  shows "tget (eh_map (snd (hub_step h e))) (d, n) = Some tx"
  using assms
  by (cases e) (auto simp: hub_register_def unregister_if_current_def hub_unregister_def
      hub_remove_key_def unregister_device_def hub_remove_keys_tget send_to_device_def
      broadcast_network_def hub_send_where_def table_simps Let_def split: option.split)

lemma hub_spares_run:
  "tget (eh_map h) (d, n) = Some tx \<Longrightarrow> \<forall>e\<in>set es. hub_spares d n tx e \<Longrightarrow>
   tget (eh_map (snd (run hub_step h es))) (d, n) = Some tx"
  by (induction es arbitrary: h) (simp_all add: case_prod_beta Let_def hub_spares_step)

text \<open>
  The teardown of an old socket task never removes the registration that
  replaced it: from its registration on, a socket stays the one of its
  (device, network) until it is itself torn down, replaced, or kicked, whatever
  other tasks do, and every event for the device still reaches it.
\<close>
theorem hub_teardown_only_own:
  assumes "hub_register d n (snd (run hub_step hub_new es)) = (tx, h)"
    and "\<forall>e\<in>set fs. hub_spares d n tx e"
  shows "let h' = snd (run hub_step h fs) in
     tget (eh_map h') (d, n) = Some tx
     \<and> eh_log (send_to_device d evt h') tx = eh_log h' tx @ [Ws evt]"
proof -
  have i: "hub_inv h"
    using hub_inv_register [OF hub.run_snd_inv [OF hub_inv_new, of es], of d n] assms(1) by simp
  have "tget (eh_map h) (d, n) = Some tx"
    using assms(1) by (auto simp: hub_register_def Let_def table_simps)
  then have t: "tget (eh_map (snd (run hub_step h fs))) (d, n) = Some tx"
    using assms(2) by (rule hub_spares_run)
  then show ?thesis
    using hub_send_where_log [OF hub.run_snd_inv [OF i, of fs]]
    by (auto simp: Let_def send_to_device_def)
qed

text \<open>The case of the crate's own test: the first task of (7, n) ends after the second registered.\<close>

definition demo_event :: WsEvent where
  "demo_event = \<lparr>ev_type = ''peers_changed'', ev_network_id = None, ev_device_id = None, ev_message = None\<rparr>"

theorem hub_teardown_only_own_witness:
  "let h = snd (hub_register 7 [1] (snd (run hub_step hub_new [HubRegister 7 [1]])));
       h' = snd (run hub_step h [HubTeardown 7 [1] 0])
   in tget (eh_map h') (7, [1]) = Some 1
      \<and> eh_log (send_to_device 7 demo_event h') 1 = eh_log h' 1 @ [Ws demo_event]"
  using hub_teardown_only_own [of 7 "[1]" "[HubRegister 7 [1]]" 1
      "snd (hub_register 7 [1] (snd (run hub_step hub_new [HubRegister 7 [1]])))" "[HubTeardown 7 [1] 0]" demo_event]
  by (simp add: hub_register_def hub_new_def Let_def)

end
