(* ===== verification/Session.thy ===== *)
theory Session
  imports Wire Models
begin

text \<open>
  crates/skiff-node/src/session.rs: the kinds of path to a peer, the gate that a
  peer's policy puts on path upgrades, and the per-peer session record with its
  counters. The mutexes and atomics of the record are its fields; a TCP
  connection is the number of its handle.
\<close>

datatype PathKind = RelayUdp | DirectUdp | RelayTcp | DirectTcp

fun path_kind_str :: "PathKind \<Rightarrow> string" where
  "path_kind_str RelayUdp = ''RelayUdp''"
| "path_kind_str DirectUdp = ''DirectUdp''"
| "path_kind_str RelayTcp = ''RelayTcp''"
| "path_kind_str DirectTcp = ''DirectTcp''"

fun policy_allows :: "PathPolicy \<Rightarrow> PathKind \<Rightarrow> bool" where
  "policy_allows PathPolicy.Auto kind = True"
| "policy_allows PathPolicy.RelayUdp kind = False"
| "policy_allows PathPolicy.RelayTcp kind = False"
| "policy_allows PathPolicy.DirectAny kind = (kind = DirectUdp \<or> kind = DirectTcp)"
| "policy_allows PathPolicy.DirectUdp kind = (kind = DirectUdp)"
| "policy_allows PathPolicy.DirectTcp kind = (kind = DirectTcp)"

record PeerSession =
  se_id :: u64
  se_network_id_hint :: NetId
  se_name :: string
  se_virtual_ip :: u32
  se_dh_pubkey :: bytes
  se_online :: bool
  se_tcp_listen_port :: "u16 option"
  se_endpoints :: "SocketAddr list"
  se_codec :: PacketCodec
  se_tcp_conn :: "nat option"
  se_current_path :: PathKind
  se_direct_endpoint :: "(SocketAddr \<times> SocketAddr) option"
  se_last_pong_ms :: int
  se_tcp_cooldown_until_ms :: int
  se_rtt_ms :: int
  se_tx_dropped :: u64
  se_last_diag_log_ms :: int
  se_tx_bytes :: u64
  se_rx_bytes :: u64
  se_tx_packets :: u64
  se_rx_packets :: u64

definition peer_session_new ::
  "u64 \<Rightarrow> NetId \<Rightarrow> string \<Rightarrow> u32 \<Rightarrow> bytes \<Rightarrow> SessionKeys \<Rightarrow> bytes \<Rightarrow> PeerSession" where
  "peer_session_new i network_id_hint name virtual_ip dh_pubkey keys boot_nonce =
     \<lparr>se_id = i, se_network_id_hint = network_id_hint, se_name = name, se_virtual_ip = virtual_ip,
      se_dh_pubkey = dh_pubkey, se_online = False, se_tcp_listen_port = None, se_endpoints = [],
      se_codec = codec_new keys boot_nonce, se_tcp_conn = None, se_current_path = RelayUdp,
      se_direct_endpoint = None, se_last_pong_ms = 0, se_tcp_cooldown_until_ms = 0, se_rtt_ms = -1,
      se_tx_dropped = 0, se_last_diag_log_ms = 0, se_tx_bytes = 0, se_rx_bytes = 0,
      se_tx_packets = 0, se_rx_packets = 0\<rparr>"

definition add_tx :: "nat \<Rightarrow> PeerSession \<Rightarrow> PeerSession" where
  "add_tx n s = s\<lparr>se_tx_bytes := se_tx_bytes s + of_nat n, se_tx_packets := se_tx_packets s + 1\<rparr>"

definition add_rx :: "nat \<Rightarrow> PeerSession \<Rightarrow> PeerSession" where
  "add_rx n s = s\<lparr>se_rx_bytes := se_rx_bytes s + of_nat n, se_rx_packets := se_rx_packets s + 1\<rparr>"

text \<open>A policy that pins a relay never upgrades; every other policy but Auto only goes direct.\<close>

lemma policy_allows_relay: "policy_allows p RelayUdp \<or> policy_allows p RelayTcp \<Longrightarrow> p = PathPolicy.Auto"
  by (cases p) auto

lemma policy_allows_mono_direct:
  "policy_allows p k \<Longrightarrow> p \<noteq> PathPolicy.Auto \<Longrightarrow> policy_allows PathPolicy.DirectAny k"
  by (cases p) auto

end
