(* ===== verification/Tokens.thy ===== *)
theory Tokens
  imports Rust_Std
begin

text \<open>
  crates/skiff-core/src/crypto/tokens.rs (token formats and the certificate
  fingerprint suffix), crates/skiff-core/src/secret.rs and secretbox.rs (sealing
  of secrets in the node file). SHA-256, hex, base64, the random bytes and the
  Windows data-protection calls are parameters.
\<close>

definition DEVICE_TOKEN_PREFIX :: string where "DEVICE_TOKEN_PREFIX = ''skd_''"
definition ADMIN_TOKEN_PREFIX :: string where "ADMIN_TOKEN_PREFIX = ''ska_''"
definition ENROLL_TOKEN_PREFIX :: string where "ENROLL_TOKEN_PREFIX = ''skk_''"

definition make_token :: "(bytes \<Rightarrow> string) \<Rightarrow> string \<Rightarrow> bytes \<Rightarrow> string" where
  "make_token b64url prefix raw = prefix @ b64url raw"

definition make_device_token :: "(bytes \<Rightarrow> string) \<Rightarrow> bytes \<Rightarrow> string" where
  "make_device_token b64url raw = make_token b64url DEVICE_TOKEN_PREFIX raw"

definition make_admin_token :: "(bytes \<Rightarrow> string) \<Rightarrow> bytes \<Rightarrow> string" where
  "make_admin_token b64url raw = make_token b64url ADMIN_TOKEN_PREFIX raw"

definition make_enroll_token :: "(bytes \<Rightarrow> string) \<Rightarrow> bytes \<Rightarrow> string" where
  "make_enroll_token b64url raw = make_token b64url ENROLL_TOKEN_PREFIX raw"

definition sha256_hex :: "(bytes \<Rightarrow> bytes) \<Rightarrow> (bytes \<Rightarrow> string) \<Rightarrow> string \<Rightarrow> string" where
  "sha256_hex sha hexenc s = hexenc (sha (as_bytes s))"

definition with_fingerprint :: "string \<Rightarrow> string \<Rightarrow> string" where
  "with_fingerprint bare fingerprint = bare @ ''.'' @ fingerprint"

definition is_ascii_hexdigit :: "char \<Rightarrow> bool" where
  "is_ascii_hexdigit c = (hex_val c \<noteq> None)"

definition is_hex64 :: "string \<Rightarrow> bool" where
  "is_hex64 s = (length s = 64 \<and> list_all is_ascii_hexdigit s)"

definition split_token :: "string \<Rightarrow> string \<times> string option" where
  "split_token token =
     (case rsplit_once CHR ''.'' token of
        Some (bare, suffix) \<Rightarrow> if is_hex64 suffix then (bare, Some suffix) else (token, None)
      | None \<Rightarrow> (token, None))"

definition ascii_lower :: "char \<Rightarrow> char" where
  "ascii_lower c = (let n = (of_char c :: nat) in if 65 \<le> n \<and> n \<le> 90 then char_of (n + 32) else c)"

definition eq_ignore_ascii_case :: "string \<Rightarrow> string \<Rightarrow> bool" where
  "eq_ignore_ascii_case a b = (map ascii_lower a = map ascii_lower b)"

lemma ascii_lower_idem: "ascii_lower (ascii_lower c) = ascii_lower c"
proof -
  have "of_char (char_of (n + 32) :: char) = n + 32" if "n \<le> 90" for n :: nat using that by simp
  then show ?thesis by (auto simp: ascii_lower_def Let_def)
qed

lemma eq_ignore_lower [simp]: "eq_ignore_ascii_case a (map ascii_lower b) = eq_ignore_ascii_case a b"
  by (simp add: eq_ignore_ascii_case_def ascii_lower_idem comp_def)

definition matches_pin :: "string \<Rightarrow> string \<Rightarrow> bool" where
  "matches_pin actual_hex pin = eq_ignore_ascii_case actual_hex pin"

lemma dot_notin_hex64: "is_hex64 s \<Longrightarrow> CHR ''.'' \<notin> set s"
  by (auto simp: is_hex64_def list_all_iff is_ascii_hexdigit_def hex_val_def Let_def)

text \<open>
  A token splits into a bare token and a fingerprint exactly when it is
  the bare token followed by a dot and 64 hexadecimal digits; every other token
  is returned whole. In particular the suffix put on by with\_fingerprint is
  found again, whatever dots the bare token has.
\<close>
theorem split_token_iff:
  "(split_token t = (b, Some f) \<longleftrightarrow> t = with_fingerprint b f \<and> is_hex64 f)
   \<and> (split_token t = (b, None) \<longleftrightarrow> b = t \<and> \<not> (\<exists>b' f'. t = with_fingerprint b' f' \<and> is_hex64 f'))"
proof -
  have 1: "rsplit_once CHR ''.'' t = Some (b, f) \<and> is_hex64 f \<longleftrightarrow> t = with_fingerprint b f \<and> is_hex64 f" for b f
    using dot_notin_hex64 by (auto simp: rsplit_once_Some with_fingerprint_def)
  have "split_token t = (b, Some f) \<longleftrightarrow> rsplit_once CHR ''.'' t = Some (b, f) \<and> is_hex64 f"
    "split_token t = (b, None) \<longleftrightarrow>
       b = t \<and> \<not> (\<exists>b' f'. rsplit_once CHR ''.'' t = Some (b', f') \<and> is_hex64 f')"
    by (auto simp: split_token_def split: option.splits)
  then show ?thesis unfolding 1 by simp
qed

theorem split_token_iff_witness:
  "split_token (with_fingerprint ''skk_a.b'' (replicate 64 CHR ''a'')) = (''skk_a.b'', Some (replicate 64 CHR ''a''))"
  using split_token_iff [of "with_fingerprint ''skk_a.b'' (replicate 64 CHR ''a'')" "''skk_a.b''" "replicate 64 CHR ''a''"]
  by (simp add: is_hex64_def list_all_iff is_ascii_hexdigit_def hex_val_def)

text \<open>The pin comparison is an equivalence that ignores ASCII case.\<close>

lemma matches_pin_equiv:
  "matches_pin a a" "matches_pin a b = matches_pin b a"
  "matches_pin a b \<Longrightarrow> matches_pin b c \<Longrightarrow> matches_pin a c"
  by (auto simp: matches_pin_def eq_ignore_ascii_case_def)

section \<open>Sealed secrets\<close>

datatype SecretBoxError = EncryptFailed | DecryptFailed | UnsupportedPlatform | Corrupt

datatype SecretError =
    SealFailed SecretBoxError
  | BadBase64
  | NotSealedBlob
  | UnsealFailed SecretBoxError
  | NotUtf8

definition SKF1 :: bytes where "SKF1 = as_bytes ''SKF1''"
definition SEALED_PREFIX :: string where "SEALED_PREFIX = ''sealed:''"

text \<open>The Windows half of secretbox.rs, over the protect and unprotect calls of the system.\<close>

definition win_is_sealed :: "bytes \<Rightarrow> bool" where
  "win_is_sealed blob = (4 < length blob \<and> take 4 blob = SKF1)"

definition win_seal :: "(bytes \<Rightarrow> bytes option) \<Rightarrow> bytes \<Rightarrow> SecretBoxError + bytes" where
  "win_seal protect plain =
     (case protect plain of None \<Rightarrow> Inl EncryptFailed | Some out \<Rightarrow> Inr (SKF1 @ out))"

definition win_unseal :: "(bytes \<Rightarrow> bytes option) \<Rightarrow> bytes \<Rightarrow> SecretBoxError + bytes" where
  "win_unseal unprotect blob =
     (if \<not> win_is_sealed blob then Inr blob
      else (case unprotect (drop 4 blob) of None \<Rightarrow> Inl DecryptFailed | Some out \<Rightarrow> Inr out))"

text \<open>The other platforms.\<close>

definition other_is_sealed :: "bytes \<Rightarrow> bool" where
  "other_is_sealed blob = False"

definition other_seal :: "bytes \<Rightarrow> SecretBoxError + bytes" where
  "other_seal plain = Inr plain"

definition other_unseal :: "bytes \<Rightarrow> SecretBoxError + bytes" where
  "other_unseal blob = (if other_is_sealed blob then Inl UnsupportedPlatform else Inr blob)"

definition secret_encode ::
  "(bytes \<Rightarrow> SecretBoxError + bytes) \<Rightarrow> (bytes \<Rightarrow> string) \<Rightarrow> string \<Rightarrow> SecretError + string" where
  "secret_encode sealf b64enc plain =
     (case sealf (as_bytes plain) of
        Inl e \<Rightarrow> Inl (SealFailed e)
      | Inr blob \<Rightarrow> Inr (SEALED_PREFIX @ b64enc blob))"

definition secret_decode ::
  "(bytes \<Rightarrow> SecretBoxError + bytes) \<Rightarrow> (string \<Rightarrow> bytes option) \<Rightarrow> string \<Rightarrow> SecretError + string" where
  "secret_decode unseal b64dec txt =
     (case strip_prefix SEALED_PREFIX txt of
        None \<Rightarrow> Inr txt
      | Some b64 \<Rightarrow>
          (case b64dec b64 of
             None \<Rightarrow> Inl BadBase64
           | Some blob \<Rightarrow>
               if length blob \<le> 4 \<or> take 4 blob \<noteq> SKF1 then Inl NotSealedBlob
               else (case unseal blob of
                       Inl e \<Rightarrow> Inl (UnsealFailed e)
                     | Inr plain \<Rightarrow>
                         (case from_utf8 plain of None \<Rightarrow> Inl NotUtf8 | Some s \<Rightarrow> Inr s))))"

text \<open>
  On Windows a secret that is written reads back, given that base64
  decodes what it encodes and that the system unprotects what it protected; the
  written text never is the plain form.
\<close>
theorem secret_roundtrip:
  assumes "\<forall>b. b64dec (b64enc b) = Some b"
    and "\<forall>b out. protect b = Some out \<longrightarrow> out \<noteq> [] \<and> unprotect out = Some b"
    and "wf_str s" and "secret_encode (win_seal protect) b64enc s = Inr t"
  shows "secret_decode (win_unseal unprotect) b64dec t = Inr s \<and> take 7 t = SEALED_PREFIX"
proof -
  obtain out where o: "protect (as_bytes s) = Some out" and t: "t = SEALED_PREFIX @ b64enc (SKF1 @ out)"
    using assms(4) by (auto simp: secret_encode_def win_seal_def split: option.splits)
  have l: "length SKF1 = 4" "length SEALED_PREFIX = 7" by (simp_all add: SKF1_def SEALED_PREFIX_def)
  have "out \<noteq> []" "unprotect out = Some (as_bytes s)" using assms(2) o by auto
  then show ?thesis
    using assms(1,3) l
    by (cases out) (simp_all add: t secret_decode_def win_unseal_def win_is_sealed_def from_utf8_as_bytes)
qed

theorem secret_roundtrip_witness:
  "secret_decode (win_unseal (\<lambda>b. Some (tl b))) (\<lambda>s. Some (as_bytes s)) (''sealed:SKF1!k'') = Inr ''k''"
proof -
  have wf: "wf_str ''k''" unfolding wf_str_def by (rule utf8_valid_ascii) (simp add: as_bytes_def)
  have bc: "as_bytes (chars_of b) = b" for b
  proof -
    have "of_nat (of_char (char_of (unat x) :: char)) = x" for x :: u8
      using unsigned_less [of x, where ?'a = nat] by simp
    then show ?thesis by (simp add: as_bytes_def chars_of_def comp_def)
  qed
  have "secret_encode (win_seal (\<lambda>b. Some (33 # b))) chars_of ''k'' = Inr ''sealed:SKF1!k''"
  proof -
    have "SKF1 @ 33 # as_bytes ''k'' = as_bytes ''SKF1!k''" by (simp add: SKF1_def as_bytes_def)
    then show ?thesis by (simp add: secret_encode_def win_seal_def SEALED_PREFIX_def)
  qed
  from secret_roundtrip [of "\<lambda>s. Some (as_bytes s)" chars_of _ "\<lambda>b. Some (tl b)", OF _ _ wf this]
  show ?thesis using bc by simp
qed

text \<open>
  Off Windows nothing is ever refused as sealed: every blob is returned as
  it is, so a sealed file written on Windows reads as garbage secrets instead of
  failing with UnsupportedPlatform.
\<close>
theorem sealed_not_refused_elsewhere:
  "other_unseal b = Inr b
   \<and> (b64dec t = Some (SKF1 @ as_bytes s) \<and> s \<noteq> [] \<and> wf_str (''SKF1'' @ s) \<longrightarrow>
        secret_decode other_unseal b64dec (SEALED_PREFIX @ t) = Inr (''SKF1'' @ s))"
proof -
  have l: "length SKF1 = 4" by (simp add: SKF1_def)
  have "SKF1 @ as_bytes s = as_bytes (''SKF1'' @ s)" by (simp add: SKF1_def as_bytes_def)
  then have f: "from_utf8 (SKF1 @ as_bytes s) = Some (''SKF1'' @ s)" if "wf_str (''SKF1'' @ s)"
    using from_utf8_as_bytes [OF that] by simp
  show ?thesis
    using l f
    by (cases s) (simp_all add: other_unseal_def other_is_sealed_def secret_decode_def del: append_Cons)
qed

theorem sealed_not_refused_elsewhere_witness:
  "secret_decode other_unseal (\<lambda>s. Some (SKF1 @ as_bytes ''x'')) ''sealed:AAAA'' = Inr ''SKF1x''"
proof -
  have "wf_str (''SKF1'' @ ''x'')"
    unfolding wf_str_def by (rule utf8_valid_ascii) (simp add: as_bytes_def)
  then show ?thesis
    using sealed_not_refused_elsewhere [of "[]" "\<lambda>s. Some (SKF1 @ as_bytes ''x'')" "''AAAA''" "''x''"]
    by (simp add: SEALED_PREFIX_def)
qed

end
