(* ===== verification/TlsVerifier.thy ===== *)
theory TlsVerifier
  imports Tokens
begin

text \<open>
  crates/skiff-node/src/tls\_verifier.rs: the three-tier trust decision on the
  server's certificate. SHA-256 with hex coding (\<open>fp\<close>) and the verifier of
  public certificate chains (\<open>ca_ok\<close>) are parameters. The decision reads the
  pin, releases its lock, and takes it again to record a first certificate:
  these two sections are \<open>verify_pinned\<close> and \<open>verify_unpinned\<close>.
\<close>

record TrustState =
  ts_pin :: "string option"
  ts_tofu_fingerprint :: "string option"

definition fingerprint_of :: "(bytes \<Rightarrow> string) \<Rightarrow> bytes \<Rightarrow> string" where
  "fingerprint_of fp cert = fp cert"

text \<open>The first section: Some answer when a pin is known, None otherwise.\<close>

definition verify_pinned :: "(bytes \<Rightarrow> string) \<Rightarrow> bytes \<Rightarrow> TrustState \<Rightarrow> bool option" where
  "verify_pinned fp cert s =
     (case ts_pin s of
        Some pin \<Rightarrow> Some (eq_ignore_ascii_case (fingerprint_of fp cert) pin)
      | None \<Rightarrow> None)"

definition verify_unpinned ::
  "(bytes \<Rightarrow> string) \<Rightarrow> (bytes \<Rightarrow> bool) \<Rightarrow> bytes \<Rightarrow> TrustState \<Rightarrow> bool \<times> TrustState" where
  "verify_unpinned fp ca_ok cert s =
     (if ca_ok cert then (True, s)
      else
        (let actual = fingerprint_of fp cert;
             s = (if ts_pin s = None then s\<lparr>ts_pin := Some actual\<rparr> else s);
             s = s\<lparr>ts_tofu_fingerprint := Some actual\<rparr>
         in (True, s)))"

definition verify_server_cert ::
  "(bytes \<Rightarrow> string) \<Rightarrow> (bytes \<Rightarrow> bool) \<Rightarrow> TrustState \<Rightarrow> bytes \<Rightarrow> bool \<times> TrustState" where
  "verify_server_cert fp ca_ok s cert =
     (case verify_pinned fp cert s of
        Some r \<Rightarrow> (r, s)
      | None \<Rightarrow> verify_unpinned fp ca_ok cert s)"

lemma eq_ignore_refl [simp]: "eq_ignore_ascii_case a a"
  by (simp add: eq_ignore_ascii_case_def)

lemma run_pinned:
  "ts_pin s = Some pin \<Longrightarrow>
   run (verify_server_cert fp ca_ok) s cs = (map (\<lambda>c. eq_ignore_ascii_case (fp c) pin) cs, s)"
  by (induction cs) (simp_all add: verify_server_cert_def verify_pinned_def fingerprint_of_def)

lemma run_ca:
  "ts_pin s = None \<Longrightarrow> \<forall>c\<in>set cs. ca_ok c \<Longrightarrow>
   run (verify_server_cert fp ca_ok) s cs = (map (\<lambda>_. True) cs, s)"
  by (induction cs) (simp_all add: verify_server_cert_def verify_pinned_def verify_unpinned_def)

text \<open>
  C37 (safety). Trust on first use: over any sequence of handshakes of a process without a
  pin, certificates of a public chain are accepted and pin nothing; the first
  other certificate is accepted, pinned and reported; from then on exactly the
  certificates with its fingerprint are accepted, whatever their chain.
\<close>
theorem tofu_consistent:
  assumes "ts_pin s = None" and "\<forall>c\<in>set cs. ca_ok c" and "\<not> ca_ok c0"
  shows "run (verify_server_cert fp ca_ok) s (cs @ c0 # ds)
       = (map (\<lambda>_. True) cs @ True # map (\<lambda>c. eq_ignore_ascii_case (fp c) (fp c0)) ds,
          s\<lparr>ts_pin := Some (fp c0), ts_tofu_fingerprint := Some (fp c0)\<rparr>)"
  using run_ca [OF assms(1,2), of fp]
    run_pinned [of "s\<lparr>ts_pin := Some (fp c0), ts_tofu_fingerprint := Some (fp c0)\<rparr>" "fp c0" fp ca_ok ds] assms
  by (simp add: run_append verify_server_cert_def verify_pinned_def verify_unpinned_def fingerprint_of_def Let_def)

theorem tofu_consistent_witness:
  "fst (run (verify_server_cert (\<lambda>c. if c = [] then ''a'' else ''b'') (\<lambda>c. length c = 2))
     \<lparr>ts_pin = None, ts_tofu_fingerprint = None\<rparr> ([[1, 2]] @ [] # [[], [7], [1, 2]]))
   = [True, True, True, False, False]"
  by (subst tofu_consistent) (auto simp: eq_ignore_ascii_case_def ascii_lower_def Let_def)

text \<open>
  Two first handshakes that overlap (both read the pin before either records one)
  are both accepted, whatever their certificates; the process then rejects the
  second server.
\<close>

lemma tofu_race:
  assumes "ts_pin s = None" "\<not> ca_ok c" "\<not> ca_ok c'" "\<not> eq_ignore_ascii_case (fp c') (fp c)"
  shows "verify_pinned fp c s = None" "verify_pinned fp c' s = None"
    and "fst (verify_unpinned fp ca_ok c' (snd (verify_unpinned fp ca_ok c s)))"
    and "ts_tofu_fingerprint (snd (verify_unpinned fp ca_ok c' (snd (verify_unpinned fp ca_ok c s)))) = Some (fp c')"
    and "\<not> fst (verify_server_cert fp ca_ok (snd (verify_unpinned fp ca_ok c' (snd (verify_unpinned fp ca_ok c s)))) c')"
  using assms by (simp_all add: verify_pinned_def verify_unpinned_def verify_server_cert_def
      fingerprint_of_def Let_def)

end
