(* ===== verification/Supervisor.thy ===== *)
theory Supervisor
  imports Prelude
begin

text \<open>
  crates/skiff-node/src/supervisor.rs: the master that restarts the worker
  process. Times are in milliseconds, back-offs too. The worker's behaviour is a
  sequence of rounds; the JSON of the configuration and the processes are outside.
\<close>

definition EXIT_OK :: int where "EXIT_OK = 0"
definition EXIT_ERROR :: int where "EXIT_ERROR = 1"
definition EXIT_RESTART :: int where "EXIT_RESTART = 3"

definition BACKOFF_STEPS :: "nat list" where
  "BACKOFF_STEPS = [1000, 2000, 5000, 10000, 30000]"

definition STABLE_AFTER :: nat where "STABLE_AFTER = 60000"
definition GRACEFUL_TIMEOUT :: nat where "GRACEFUL_TIMEOUT = 15000"

datatype WorkerExitAction = Stop | Restart nat

text \<open>None is the panic of the index, which never happens.\<close>

definition action_for_exit :: "int \<Rightarrow> u32 \<Rightarrow> nat \<Rightarrow> WorkerExitAction option" where
  "action_for_exit code consecutive_restarts uptime =
     (if code = EXIT_OK then Some Stop
      else
        (let rounds = (if STABLE_AFTER \<le> uptime then 1 else consecutive_restarts + 1);
             i = unat (min (saturating_sub rounds 1) (of_nat (length BACKOFF_STEPS) - 1))
         in map_option Restart (idx BACKOFF_STEPS i)))"

text \<open>
  One round of the loop: the worker could not be started, the master was told to
  stop while it ran, or it exited (with a code, None when killed by a signal) after
  an uptime, and the master was told to stop while backing off or not.
\<close>

datatype WorkerRun = SpawnFailed | StopRequested | Exited "int option" nat bool

text \<open>
  The exit code of the master (None: the rounds end with it still running) and
  the back-offs it waited; the outer option is a panic.
\<close>

fun run_inner :: "u32 \<Rightarrow> WorkerRun list \<Rightarrow> (int option \<times> nat list) option" where
  "run_inner consecutive [] = Some (None, [])"
| "run_inner consecutive (SpawnFailed # rest) = Some (Some EXIT_ERROR, [])"
| "run_inner consecutive (StopRequested # rest) = Some (Some EXIT_OK, [])"
| "run_inner consecutive (Exited status uptime stop # rest) =
     (let code = (case status of Some c \<Rightarrow> c | None \<Rightarrow> EXIT_ERROR) in
      case action_for_exit code consecutive uptime of
        None \<Rightarrow> None
      | Some Stop \<Rightarrow> Some (Some EXIT_OK, [])
      | Some (Restart backoff) \<Rightarrow>
          (let consecutive = (if STABLE_AFTER \<le> uptime then 1 else consecutive + 1) in
           if stop then Some (Some EXIT_OK, [])
           else map_option (\<lambda>(c, bs). (c, backoff # bs)) (run_inner consecutive rest)))"

text \<open>
  The wait of graceful\_stop: the worker's exit is polled every second until the
  deadline; the result is the time at which the loop ends.
\<close>

function graceful_wait :: "nat option \<Rightarrow> nat \<Rightarrow> nat \<Rightarrow> nat" where
  "graceful_wait exit_at now deadline =
     (case exit_at of
        Some t \<Rightarrow> if t \<le> now + 1000 then max now t
                  else if now + 1000 < deadline then graceful_wait exit_at (now + 1000) deadline
                  else now + 1000
      | None \<Rightarrow> if now + 1000 < deadline then graceful_wait exit_at (now + 1000) deadline
                else now + 1000)"
  by pat_completeness auto

termination graceful_wait
  by (relation "measure (\<lambda>(_, now, deadline). deadline - now)") auto

declare graceful_wait.simps [simp del]

text \<open>graceful\_stop: whether the worker had to be killed, and when it was over.\<close>

definition graceful_stop :: "nat option \<Rightarrow> nat \<Rightarrow> bool \<times> nat" where
  "graceful_stop exit_at now =
     (let deadline = now + GRACEFUL_TIMEOUT;
          over = graceful_wait exit_at now deadline
      in (deadline \<le> over, over))"

section \<open>Decisions\<close>

lemma action_for_exit_total: "\<exists>a. action_for_exit code n up = Some a"
proof -
  have "unat (min (saturating_sub r 1) (of_nat (length BACKOFF_STEPS) - 1)) < length BACKOFF_STEPS" for r :: u32
    by (simp add: BACKOFF_STEPS_def min_def word_le_nat_alt)
  then show ?thesis by (simp add: action_for_exit_def idx_def Let_def)
qed

lemma action_for_exit_fast:
  assumes "code \<noteq> EXIT_OK" "up < STABLE_AFTER" "n < 2 ^ 32 - 1"
  shows "action_for_exit code (of_nat n) up = Some (Restart (BACKOFF_STEPS ! min n 4))"
proof -
  have n: "of_nat n + 1 = (of_nat (Suc n) :: u32)" by simp
  have steps: "of_nat (length BACKOFF_STEPS) - 1 = (4 :: u32)" by (simp add: BACKOFF_STEPS_def)
  have "unat (of_nat (Suc n) :: u32) = Suc n"
    using assms(3) by (simp add: unat_of_nat del: of_nat_Suc)
  then have "unat (min (saturating_sub (of_nat (Suc n)) 1) (of_nat (length BACKOFF_STEPS) - 1 :: u32)) = min n 4"
    unfolding steps by (auto simp: min_def word_le_nat_alt unat_saturating_sub simp del: of_nat_Suc)
  then show ?thesis
    using assms by (simp add: action_for_exit_def Let_def n idx_def BACKOFF_STEPS_def del: of_nat_Suc)
qed

definition fast_failure :: "WorkerRun \<Rightarrow> bool" where
  "fast_failure w = (\<exists>st up. w = Exited st up False \<and> st \<noteq> Some EXIT_OK \<and> up < STABLE_AFTER)"

lemma run_inner_fast:
  assumes "\<forall>w\<in>set ws. fast_failure w" and "n + length ws < 2 ^ 32"
  shows "run_inner (of_nat n) ws = Some (None, map (\<lambda>i. BACKOFF_STEPS ! min i 4) [n..<n + length ws])"
  using assms
proof (induction ws arbitrary: n)
  case (Cons w ws)
  obtain st up where w: "w = Exited st up False" "st \<noteq> Some EXIT_OK" "up < STABLE_AFTER"
    using Cons.prems by (auto simp: fast_failure_def)
  have code: "(case st of Some c \<Rightarrow> c | None \<Rightarrow> EXIT_ERROR) \<noteq> EXIT_OK"
    using w(2) by (auto simp: EXIT_ERROR_def EXIT_OK_def split: option.split)
  have "run_inner (of_nat (Suc n)) ws = Some (None, map (\<lambda>i. BACKOFF_STEPS ! min i 4) [Suc n..<Suc n + length ws])"
    using Cons by (intro Cons.IH) auto
  moreover have "[n..<n + length (w # ws)] = n # [Suc n..<Suc n + length ws]"
    by (simp add: upt_conv_Cons del: upt_Suc)
  moreover have "of_nat n + 1 = (of_nat (Suc n) :: u32)" by simp
  ultimately show ?case
    using Cons.prems w action_for_exit_fast [OF code w(3), of n] by (simp add: Let_def del: upt_Suc of_nat_Suc)
qed simp

text \<open>
  A worker that keeps failing quickly after a stable run is restarted
  forever, with the back-offs 2 s, 5 s, 10 s and then 30 s; the stable run before it
  was followed by 1 s whatever had happened earlier.
\<close>
theorem restart_ladder_after_stable:
  assumes "\<forall>w\<in>set ws. fast_failure w" and "length ws < 2 ^ 32 - 1"
    and "st \<noteq> Some EXIT_OK" and "STABLE_AFTER \<le> up"
  shows "run_inner n (Exited st up False # ws)
       = Some (None, 1000 # map (\<lambda>i. BACKOFF_STEPS ! min i 4) [1..<1 + length ws])"
proof -
  have code: "(case st of Some c \<Rightarrow> c | None \<Rightarrow> EXIT_ERROR) \<noteq> EXIT_OK"
    using assms(3) by (auto simp: EXIT_ERROR_def EXIT_OK_def split: option.split)
  then have "action_for_exit (case st of Some c \<Rightarrow> c | None \<Rightarrow> EXIT_ERROR) n up = Some (Restart 1000)"
    using assms(4) by (simp add: action_for_exit_def Let_def saturating_sub_def idx_def BACKOFF_STEPS_def min_def)
  then show ?thesis
    using run_inner_fast [of ws 1] assms by (simp add: Let_def)
qed

theorem restart_ladder_after_stable_witness:
  "run_inner 9 (Exited (Some 3) 60000 False # replicate 5 (Exited (Some 1) 5 False))
   = Some (None, [1000, 2000, 5000, 10000, 30000, 30000])"
proof -
  have "\<forall>w\<in>set (replicate 5 (Exited (Some 1) 5 False)). fast_failure w"
    by (simp add: fast_failure_def EXIT_OK_def STABLE_AFTER_def)
  then show ?thesis
    using restart_ladder_after_stable [of "replicate 5 (Exited (Some 1) 5 False)" "Some 3" 60000 9]
    by (simp add: EXIT_OK_def STABLE_AFTER_def BACKOFF_STEPS_def upt_conv_Cons)
qed

text \<open>
  The master never panics; it ends with code 0 unless a worker could not be
  started, and every restart is preceded by a wait of one to thirty seconds, also
  a restart that the worker asked for.
\<close>
theorem supervisor_exit_and_waits:
  "\<exists>code bs. run_inner n ws = Some (code, bs) \<and> set bs \<subseteq> set BACKOFF_STEPS
     \<and> (SpawnFailed \<in> set ws \<or> code = None \<or> code = Some EXIT_OK)"
proof (induction n ws rule: run_inner.induct)
  case (4 n st up stop rest)
  let ?code = "case st of Some c \<Rightarrow> c | None \<Rightarrow> EXIT_ERROR"
  obtain a where a: "action_for_exit ?code n up = Some a" using action_for_exit_total by blast
  show ?case
  proof (cases a)
    case (Restart b)
    then have "b \<in> set BACKOFF_STEPS"
      using a by (auto simp: action_for_exit_def Let_def idx_def split: if_splits)
    then show ?thesis using 4 [OF refl a Restart refl] a Restart by (cases stop) auto
  qed (use a in simp)
qed auto

section \<open>Stopping\<close>

lemma graceful_wait_bounds:
  "now \<le> graceful_wait e now dl \<and> graceful_wait e now dl \<le> max (now + 1000) (dl + 1000)"
proof (induction e now dl rule: graceful_wait.induct)
  case (1 e now dl)
  then show ?case by (subst (1 2) graceful_wait.simps) (auto split: option.split)
qed

lemma graceful_wait_exit:
  "t < dl \<Longrightarrow> now \<le> t \<Longrightarrow> graceful_wait (Some t) now dl = t"
proof (induction "Some t" now dl rule: graceful_wait.induct)
  case (1 now dl)
  then show ?case by (subst graceful_wait.simps) auto
qed

text \<open>
  C38 (termination). Stopping always ends, at the latest one second after the fifteen second
  deadline; a worker that exits before the deadline is never killed and the stop
  ends with it.
\<close>
theorem graceful_stop_ends:
  "snd (graceful_stop e now) \<le> now + 16000
   \<and> (now \<le> t \<and> t < now + 15000 \<longrightarrow> graceful_stop (Some t) now = (False, t))"
  using graceful_wait_bounds [of now e "now + GRACEFUL_TIMEOUT"]
    graceful_wait_exit [of t "now + GRACEFUL_TIMEOUT" now]
  by (auto simp: graceful_stop_def GRACEFUL_TIMEOUT_def Let_def)

theorem graceful_stop_ends_witness: "graceful_stop (Some 5300) 1000 = (False, 5300)"
  using graceful_stop_ends [of None 1000 5300] by simp

end
