(* ===== verification/Repo.thy ===== *)
theory Repo
  imports Ipam Models Tokens "HOL-Library.List_Lexorder" "HOL-Library.Char_ord"
begin

text \<open>
  crates/skiff-server/src/repo.rs over the schema of db.rs. A table is the list of its
  rows in insertion order; PRIMARY KEY and UNIQUE constraints are the checks of the
  insertions. Every operation is one critical section (the connection's mutex) and
  the writing ones are transactions: an error leaves the state as it was.
  SHA-256, the random tokens and ids, the clock and the JSON coding of settings
  are arguments. Device ids are stored as i64; the cast is a bijection and the
  model keeps u64.
\<close>

section \<open>Rows and errors\<close>

record NetworkRow =
  nr_id :: NetId
  nr_name :: string
  nr_cidr :: string
  nr_created_at :: int

record DeviceRow =
  dr_id :: u64
  dr_name :: string
  dr_pubkey_sign :: string
  dr_pubkey_dh :: string
  dr_token_hash :: string
  dr_relay_key :: string
  dr_created_at :: int
  dr_last_seen :: int

record TokenRow =
  tk_token :: string
  tk_network_id :: NetId
  tk_uses_left :: int
  tk_expires_at :: int
  tk_requested_ip :: "string option"

record MembershipRow =
  mb_network_id :: NetId
  mb_device_id :: u64
  mb_ip :: string

record SettingsRow =
  sr_revision :: int
  sr_json :: string
  sr_updated_at :: int
  sr_last_good_json :: "string option"
  sr_last_error :: "string option"
  sr_failed_revision :: "int option"

datatype Conflict =
    TokenMissing
  | TokenExpired
  | TokenUsedUp
  | TokenNetworkGone
  | CidrInvalid string
  | IpInvalid IpError
  | PoolExhausted string string
  | NetworkMissing
  | TunSingleNetwork
  | IpTakenByOther
  | NoSuchMembership
  | NotMember
  | LastMembership
  | NetworkNameTaken
  | SettingsJsonInvalid
  | RollbackJsonInvalid

datatype RepoError = Sqlite | Conflict Conflict

record Repo =
  rp_settings :: "(string, string) table"
  rp_networks :: "NetworkRow list"
  rp_devices :: "DeviceRow list"
  rp_tokens :: "TokenRow list"
  rp_memberships :: "MembershipRow list"
  rp_device_settings :: "(u64, SettingsRow) table"

definition repo_empty :: Repo where
  "repo_empty = \<lparr>rp_settings = [], rp_networks = [], rp_devices = [], rp_tokens = [],
                 rp_memberships = [], rp_device_settings = []\<rparr>"

record EnrollResult =
  enr_device_id :: u64
  enr_device_token :: string
  enr_network :: NetworkRow
  enr_ip :: string

record JoinResult =
  jr_network :: NetworkRow
  jr_ip :: string
  jr_already_member :: bool

text \<open>new\_device\_id: the first non-zero draw; None when the draws given are all zero.\<close>

definition new_device_id :: "u64 list \<Rightarrow> u64 option" where
  "new_device_id draws = List.find (\<lambda>i. i \<noteq> 0) draws"

text \<open>Db::with\_tx: commit on success, roll back on error.\<close>

definition with_tx :: "(Repo \<Rightarrow> RepoError + 'a \<times> Repo) \<Rightarrow> Repo \<Rightarrow> (RepoError + 'a) \<times> Repo" where
  "with_tx f s = (case f s of Inl e \<Rightarrow> (Inl e, s) | Inr (x, s') \<Rightarrow> (Inr x, s'))"

section \<open>Settings\<close>

definition get_setting :: "string \<Rightarrow> Repo \<Rightarrow> string option" where
  "get_setting key s = tget (rp_settings s) key"

definition set_setting :: "string \<Rightarrow> string \<Rightarrow> Repo \<Rightarrow> Repo" where
  "set_setting key v s = s\<lparr>rp_settings := tput key v (rp_settings s)\<rparr>"

definition get_or_create_admin_token :: "string \<Rightarrow> Repo \<Rightarrow> (string \<times> bool) \<times> Repo" where
  "get_or_create_admin_token fresh s =
     (case get_setting ''admin_token'' s of
        Some existing \<Rightarrow> ((existing, False), s)
      | None \<Rightarrow> ((fresh, True), set_setting ''admin_token'' fresh s))"

definition admin_token :: "Repo \<Rightarrow> string option" where
  "admin_token s = get_setting ''admin_token'' s"

definition rotate_admin_token :: "string \<Rightarrow> Repo \<Rightarrow> string \<times> Repo" where
  "rotate_admin_token fresh s = (fresh, set_setting ''admin_token'' fresh s)"

section \<open>Networks\<close>

definition get_network :: "NetId \<Rightarrow> Repo \<Rightarrow> NetworkRow option" where
  "get_network i s = List.find (\<lambda>n. nr_id n = i) (rp_networks s)"

definition get_network_by_name :: "string \<Rightarrow> Repo \<Rightarrow> NetworkRow option" where
  "get_network_by_name name s = List.find (\<lambda>n. nr_name n = name) (rp_networks s)"

definition list_networks :: "Repo \<Rightarrow> NetworkRow list" where
  "list_networks s = sort_key nr_created_at (rp_networks s)"

definition create_network :: "NetId \<Rightarrow> millis \<Rightarrow> string \<Rightarrow> string \<Rightarrow> Repo \<Rightarrow> (RepoError + NetworkRow) \<times> Repo" where
  "create_network i now name cidr s =
     (if get_network i s \<noteq> None \<or> get_network_by_name name s \<noteq> None
      then (Inl (Conflict NetworkNameTaken), s)
      else (let row = \<lparr>nr_id = i, nr_name = name, nr_cidr = cidr, nr_created_at = now\<rparr>
            in (Inr row, s\<lparr>rp_networks := rp_networks s @ [row]\<rparr>)))"

definition delete_network :: "NetId \<Rightarrow> Repo \<Rightarrow> bool \<times> Repo" where
  "delete_network i s =
     (let s = s\<lparr>rp_memberships := filter (\<lambda>m. mb_network_id m \<noteq> i) (rp_memberships s)\<rparr>;
          s = s\<lparr>rp_tokens := filter (\<lambda>t. tk_network_id t \<noteq> i) (rp_tokens s)\<rparr>;
          deleted = length (filter (\<lambda>n. nr_id n = i) (rp_networks s));
          s = s\<lparr>rp_networks := filter (\<lambda>n. nr_id n \<noteq> i) (rp_networks s)\<rparr>
      in (0 < deleted, s))"

section \<open>Devices\<close>

definition get_device :: "u64 \<Rightarrow> Repo \<Rightarrow> DeviceRow option" where
  "get_device i s = List.find (\<lambda>d. dr_id d = i) (rp_devices s)"

definition insert_device :: "DeviceRow \<Rightarrow> Repo \<Rightarrow> RepoError + Repo" where
  "insert_device row s =
     (if get_device (dr_id row) s \<noteq> None then Inl Sqlite
      else Inr (s\<lparr>rp_devices := rp_devices s @ [row]\<rparr>))"

definition create_device ::
  "(string \<Rightarrow> string) \<Rightarrow> u64 \<Rightarrow> millis \<Rightarrow> string \<Rightarrow> string \<Rightarrow> string \<Rightarrow> string \<Rightarrow> Repo
     \<Rightarrow> (RepoError + (u64 \<times> millis)) \<times> Repo" where
  "create_device hash i now name sign_pub dh_pub device_token s =
     (let h = hash device_token in
      case insert_device \<lparr>dr_id = i, dr_name = name, dr_pubkey_sign = sign_pub, dr_pubkey_dh = dh_pub,
             dr_token_hash = h, dr_relay_key = h, dr_created_at = now, dr_last_seen = 0\<rparr> s of
        Inl e \<Rightarrow> (Inl e, s)
      | Inr s \<Rightarrow> (Inr (i, now), s))"

text \<open>ORDER BY id LIMIT 1, on the signed column.\<close>

definition find_device_by_token_hash :: "string \<Rightarrow> Repo \<Rightarrow> DeviceRow option" where
  "find_device_by_token_hash h s =
     (case sort_key (\<lambda>d. sint (dr_id d)) (filter (\<lambda>d. dr_token_hash d = h) (rp_devices s)) of
        [] \<Rightarrow> None | d # _ \<Rightarrow> Some d)"

definition list_devices :: "Repo \<Rightarrow> DeviceRow list" where
  "list_devices s = sort_key dr_created_at (rp_devices s)"

definition delete_device :: "u64 \<Rightarrow> Repo \<Rightarrow> bool \<times> Repo" where
  "delete_device i s =
     (let s = s\<lparr>rp_memberships := filter (\<lambda>m. mb_device_id m \<noteq> i) (rp_memberships s)\<rparr>;
          deleted = length (filter (\<lambda>d. dr_id d = i) (rp_devices s));
          s = s\<lparr>rp_devices := filter (\<lambda>d. dr_id d \<noteq> i) (rp_devices s)\<rparr>
      in (0 < deleted, s))"

definition touch_device :: "millis \<Rightarrow> u64 \<Rightarrow> Repo \<Rightarrow> Repo" where
  "touch_device now i s =
     s\<lparr>rp_devices := map (\<lambda>d. if dr_id d = i then d\<lparr>dr_last_seen := now\<rparr> else d) (rp_devices s)\<rparr>"

definition rename_device :: "u64 \<Rightarrow> string \<Rightarrow> Repo \<Rightarrow> bool \<times> Repo" where
  "rename_device i name s =
     (0 < length (filter (\<lambda>d. dr_id d = i) (rp_devices s)),
      s\<lparr>rp_devices := map (\<lambda>d. if dr_id d = i then d\<lparr>dr_name := name\<rparr> else d) (rp_devices s)\<rparr>)"

section \<open>Enrolment tokens\<close>

definition create_token ::
  "string \<Rightarrow> millis \<Rightarrow> NetId \<Rightarrow> int \<Rightarrow> millis \<Rightarrow> string option \<Rightarrow> Repo \<Rightarrow> (RepoError + TokenRow) \<times> Repo" where
  "create_token token now network_id uses ttl_ms requested_ip s =
     (let row = \<lparr>tk_token = token, tk_network_id = network_id, tk_uses_left = uses,
                 tk_expires_at = now + ttl_ms, tk_requested_ip = requested_ip\<rparr> in
      if List.find (\<lambda>t. tk_token t = token) (rp_tokens s) \<noteq> None then (Inl Sqlite, s)
      else (Inr row, s\<lparr>rp_tokens := rp_tokens s @ [row]\<rparr>))"

definition get_token :: "string \<Rightarrow> Repo \<Rightarrow> TokenRow option" where
  "get_token token_with_suffix s =
     (let (bare, _) = split_token token_with_suffix
      in List.find (\<lambda>t. tk_token t = bare) (rp_tokens s))"

definition list_tokens :: "Repo \<Rightarrow> TokenRow list" where
  "list_tokens s = rp_tokens s"

definition delete_token :: "string \<Rightarrow> Repo \<Rightarrow> bool \<times> Repo" where
  "delete_token token_with_suffix s =
     (let (bare, _) = split_token token_with_suffix
      in (0 < length (filter (\<lambda>t. tk_token t = bare) (rp_tokens s)),
          s\<lparr>rp_tokens := filter (\<lambda>t. tk_token t \<noteq> bare) (rp_tokens s)\<rparr>))"

definition consume_token_use :: "string \<Rightarrow> Repo \<Rightarrow> bool \<times> Repo" where
  "consume_token_use bare s =
     (0 < length (filter (\<lambda>t. tk_token t = bare \<and> 0 < tk_uses_left t) (rp_tokens s)),
      s\<lparr>rp_tokens := map (\<lambda>t. if tk_token t = bare \<and> 0 < tk_uses_left t
                              then t\<lparr>tk_uses_left := tk_uses_left t - 1\<rparr> else t) (rp_tokens s)\<rparr>)"

section \<open>Memberships\<close>

definition memberships_of_network :: "NetId \<Rightarrow> Repo \<Rightarrow> MembershipRow list" where
  "memberships_of_network net s = sort_key mb_ip (filter (\<lambda>m. mb_network_id m = net) (rp_memberships s))"

definition membership_of :: "NetId \<Rightarrow> u64 \<Rightarrow> Repo \<Rightarrow> MembershipRow option" where
  "membership_of net dev s =
     List.find (\<lambda>m. mb_network_id m = net \<and> mb_device_id m = dev) (rp_memberships s)"

definition memberships_of_device :: "u64 \<Rightarrow> Repo \<Rightarrow> MembershipRow list" where
  "memberships_of_device dev s =
     sort_key mb_network_id (filter (\<lambda>m. mb_device_id m = dev) (rp_memberships s))"

definition all_memberships :: "Repo \<Rightarrow> MembershipRow list" where
  "all_memberships s = rp_memberships s"

text \<open>INSERT INTO memberships, with its two constraints.\<close>

definition insert_member_row :: "MembershipRow \<Rightarrow> Repo \<Rightarrow> RepoError + Repo" where
  "insert_member_row row s =
     (if membership_of (mb_network_id row) (mb_device_id row) s \<noteq> None
         \<or> List.find (\<lambda>m. mb_network_id m = mb_network_id row \<and> mb_ip m = mb_ip row) (rp_memberships s) \<noteq> None
      then Inl Sqlite
      else Inr (s\<lparr>rp_memberships := rp_memberships s @ [row]\<rparr>))"

definition used_ips :: "(MembershipRow \<Rightarrow> bool) \<Rightarrow> Repo \<Rightarrow> u32 set" where
  "used_ips P s = set (List.map_filter (\<lambda>m. parse_ipv4 (mb_ip m)) (filter P (rp_memberships s)))"

text \<open>The choice of an address that enroll and insert\_membership share.\<close>

definition choose_ip :: "NetworkRow \<Rightarrow> string option \<Rightarrow> Repo \<Rightarrow> RepoError + u32" where
  "choose_ip network req s =
     (case cidr_parse (nr_cidr network) of
        Inl _ \<Rightarrow> Inl (Conflict (CidrInvalid (nr_name network)))
      | Inr cidr \<Rightarrow>
          (let used = used_ips (\<lambda>m. mb_network_id m = nr_id network) s in
           case req of
             Some r \<Rightarrow> (case validate_manual r cidr used None of
                          Inl e \<Rightarrow> Inl (Conflict (IpInvalid e)) | Inr a \<Rightarrow> Inr a)
           | None \<Rightarrow> (case allocate cidr used of
                        None \<Rightarrow> Inl (Conflict (PoolExhausted (nr_name network) (nr_cidr network)))
                      | Some a \<Rightarrow> Inr a)))"

text \<open>requested.or(fallback)\<close>

definition opt_or :: "'a option \<Rightarrow> 'a option \<Rightarrow> 'a option" where
  "opt_or a b = (case a of Some x \<Rightarrow> Some x | None \<Rightarrow> b)"

definition insert_membership ::
  "NetworkRow \<Rightarrow> u64 \<Rightarrow> string option \<Rightarrow> string option \<Rightarrow> Repo \<Rightarrow> RepoError + string \<times> Repo" where
  "insert_membership network device_id requested_ip fallback_ip s =
     (case choose_ip network (opt_or requested_ip fallback_ip) s of
        Inl e \<Rightarrow> Inl e
      | Inr chosen \<Rightarrow>
          (let ip_text = show_ipv4 chosen in
           case insert_member_row \<lparr>mb_network_id = nr_id network, mb_device_id = device_id, mb_ip = ip_text\<rparr> s of
             Inl e \<Rightarrow> Inl e
           | Inr s \<Rightarrow> Inr (ip_text, s)))"

text \<open>The checks of the token with which enroll and join\_network begin.\<close>

definition check_token :: "millis \<Rightarrow> string \<Rightarrow> Repo \<Rightarrow> RepoError + TokenRow \<times> NetworkRow" where
  "check_token now bare s =
     (case List.find (\<lambda>t. tk_token t = bare) (rp_tokens s) of
        None \<Rightarrow> Inl (Conflict TokenMissing)
      | Some token \<Rightarrow>
          if tk_expires_at token < now then Inl (Conflict TokenExpired)
          else if tk_uses_left token \<le> 0 then Inl (Conflict TokenUsedUp)
          else (case get_network (tk_network_id token) s of
                  None \<Rightarrow> Inl (Conflict TokenNetworkGone)
                | Some network \<Rightarrow> Inr (token, network)))"

definition enroll_tx ::
  "(string \<Rightarrow> string) \<Rightarrow> u64 \<Rightarrow> string \<Rightarrow> millis \<Rightarrow> string \<Rightarrow> string \<Rightarrow> string \<Rightarrow> string \<Rightarrow> string option
     \<Rightarrow> Repo \<Rightarrow> RepoError + EnrollResult \<times> Repo" where
  "enroll_tx hash device_id device_token now bare name sign_pubkey dh_pubkey requested_ip s =
     (case check_token now bare s of
        Inl e \<Rightarrow> Inl e
      | Inr (token, network) \<Rightarrow>
          (case choose_ip network (opt_or requested_ip (tk_requested_ip token)) s of
             Inl e \<Rightarrow> Inl e
           | Inr chosen \<Rightarrow>
               (let ip_text = show_ipv4 chosen; h = hash device_token in
                case insert_device \<lparr>dr_id = device_id, dr_name = name, dr_pubkey_sign = sign_pubkey,
                       dr_pubkey_dh = dh_pubkey, dr_token_hash = h, dr_relay_key = h,
                       dr_created_at = now, dr_last_seen = 0\<rparr> s of
                  Inl e \<Rightarrow> Inl e
                | Inr s \<Rightarrow>
                    (case insert_member_row \<lparr>mb_network_id = tk_network_id token, mb_device_id = device_id,
                                             mb_ip = ip_text\<rparr> s of
                       Inl e \<Rightarrow> Inl e
                     | Inr s \<Rightarrow>
                         (let (consumed, s) = consume_token_use bare s in
                          if \<not> consumed then Inl (Conflict TokenUsedUp)
                          else Inr (\<lparr>enr_device_id = device_id, enr_device_token = device_token,
                                     enr_network = network, enr_ip = ip_text\<rparr>, s))))))"

definition enroll ::
  "(string \<Rightarrow> string) \<Rightarrow> u64 \<Rightarrow> string \<Rightarrow> millis \<Rightarrow> string \<Rightarrow> string \<Rightarrow> string \<Rightarrow> string \<Rightarrow> string option
     \<Rightarrow> Repo \<Rightarrow> (RepoError + EnrollResult) \<times> Repo" where
  "enroll hash device_id device_token now enroll_token_with_suffix name sign_pubkey dh_pubkey requested_ip s =
     (let (bare, _) = split_token enroll_token_with_suffix
      in with_tx (enroll_tx hash device_id device_token now bare name sign_pubkey dh_pubkey requested_ip) s)"

definition join_network_tx ::
  "millis \<Rightarrow> u64 \<Rightarrow> string \<Rightarrow> string option \<Rightarrow> Repo \<Rightarrow> RepoError + JoinResult \<times> Repo" where
  "join_network_tx now device_id bare requested_ip s =
     (case check_token now bare s of
        Inl e \<Rightarrow> Inl e
      | Inr (token, network) \<Rightarrow>
          (case membership_of (tk_network_id token) device_id s of
             Some m \<Rightarrow> Inr (\<lparr>jr_network = network, jr_ip = mb_ip m, jr_already_member = True\<rparr>, s)
           | None \<Rightarrow>
               (case insert_membership network device_id requested_ip (tk_requested_ip token) s of
                  Inl e \<Rightarrow> Inl e
                | Inr (ip_text, s) \<Rightarrow>
                    (let (consumed, s) = consume_token_use bare s in
                     if \<not> consumed then Inl (Conflict TokenUsedUp)
                     else Inr (\<lparr>jr_network = network, jr_ip = ip_text, jr_already_member = False\<rparr>, s)))))"

definition join_network ::
  "millis \<Rightarrow> u64 \<Rightarrow> string \<Rightarrow> string option \<Rightarrow> Repo \<Rightarrow> (RepoError + JoinResult) \<times> Repo" where
  "join_network now device_id enroll_token_with_suffix requested_ip s =
     (let (bare, _) = split_token enroll_token_with_suffix
      in with_tx (join_network_tx now device_id bare requested_ip) s)"

definition admin_join_tx ::
  "u64 \<Rightarrow> NetId \<Rightarrow> string option \<Rightarrow> bool \<Rightarrow> Repo \<Rightarrow> RepoError + JoinResult \<times> Repo" where
  "admin_join_tx device_id network_id requested_ip single_network_required s =
     (case get_network network_id s of
        None \<Rightarrow> Inl (Conflict NetworkMissing)
      | Some network \<Rightarrow>
          (case membership_of network_id device_id s of
             Some m \<Rightarrow> Inr (\<lparr>jr_network = network, jr_ip = mb_ip m, jr_already_member = True\<rparr>, s)
           | None \<Rightarrow>
               if single_network_required \<and> 0 < length (filter (\<lambda>m. mb_device_id m = device_id) (rp_memberships s))
               then Inl (Conflict TunSingleNetwork)
               else (case insert_membership network device_id requested_ip None s of
                       Inl e \<Rightarrow> Inl e
                     | Inr (ip_text, s) \<Rightarrow>
                         Inr (\<lparr>jr_network = network, jr_ip = ip_text, jr_already_member = False\<rparr>, s))))"

definition admin_join_network ::
  "u64 \<Rightarrow> NetId \<Rightarrow> string option \<Rightarrow> bool \<Rightarrow> Repo \<Rightarrow> (RepoError + JoinResult) \<times> Repo" where
  "admin_join_network device_id network_id requested_ip single_network_required s =
     with_tx (admin_join_tx device_id network_id requested_ip single_network_required) s"

section \<open>Changing and removing memberships\<close>

text \<open>UPDATE memberships SET ip, which UNIQUE(network\_id, ip) may refuse.\<close>

definition update_ip_row :: "NetId \<Rightarrow> u64 \<Rightarrow> string \<Rightarrow> Repo \<Rightarrow> RepoError + Repo" where
  "update_ip_row net dev ip s =
     (if membership_of net dev s \<noteq> None
         \<and> List.find (\<lambda>m. mb_network_id m = net \<and> mb_device_id m \<noteq> dev \<and> mb_ip m = ip) (rp_memberships s) \<noteq> None
      then Inl Sqlite
      else Inr (s\<lparr>rp_memberships :=
             map (\<lambda>m. if mb_network_id m = net \<and> mb_device_id m = dev then m\<lparr>mb_ip := ip\<rparr> else m)
               (rp_memberships s)\<rparr>))"

definition update_membership_ip :: "NetId \<Rightarrow> u64 \<Rightarrow> string \<Rightarrow> Repo \<Rightarrow> (RepoError + unit) \<times> Repo" where
  "update_membership_ip net dev ip s =
     (case update_ip_row net dev ip s of Inl e \<Rightarrow> (Inl e, s) | Inr s \<Rightarrow> (Inr (), s))"

definition set_ip_tx :: "NetId \<Rightarrow> u64 \<Rightarrow> string \<Rightarrow> Cidr \<Rightarrow> Repo \<Rightarrow> RepoError + unit \<times> Repo" where
  "set_ip_tx net dev ip cidr s =
     (let used = used_ips (\<lambda>m. mb_network_id m = net \<and> mb_device_id m \<noteq> dev) s in
      case validate_manual ip cidr used None of
        Inl e \<Rightarrow> Inl (Conflict (IpInvalid e))
      | Inr _ \<Rightarrow>
          (case update_ip_row net dev ip s of
             Inl _ \<Rightarrow> Inl (Conflict IpTakenByOther)
           | Inr s \<Rightarrow> Inr ((), s)))"

definition set_membership_ip_atomic ::
  "NetId \<Rightarrow> u64 \<Rightarrow> string \<Rightarrow> Cidr \<Rightarrow> Repo \<Rightarrow> (RepoError + unit) \<times> Repo" where
  "set_membership_ip_atomic net dev ip cidr s = with_tx (set_ip_tx net dev ip cidr) s"

definition device_member_count :: "u64 \<Rightarrow> Repo \<Rightarrow> nat" where
  "device_member_count dev s = length (filter (\<lambda>m. mb_device_id m = dev) (rp_memberships s))"

definition remove_membership_tx :: "u64 \<Rightarrow> NetId \<Rightarrow> Repo \<Rightarrow> RepoError + unit \<times> Repo" where
  "remove_membership_tx dev net s =
     (let hit = (1 < device_member_count dev s \<and> membership_of net dev s \<noteq> None);
          s' = s\<lparr>rp_memberships :=
                  filter (\<lambda>m. \<not> (mb_network_id m = net \<and> mb_device_id m = dev)) (rp_memberships s)\<rparr>
      in if hit then Inr ((), s')
         else if membership_of net dev s = None then Inl (Conflict NotMember)
         else Inl (Conflict LastMembership))"

definition remove_membership_guarded :: "u64 \<Rightarrow> NetId \<Rightarrow> Repo \<Rightarrow> (RepoError + unit) \<times> Repo" where
  "remove_membership_guarded dev net s = with_tx (remove_membership_tx dev net) s"

definition admin_remove_membership :: "u64 \<Rightarrow> NetId \<Rightarrow> Repo \<Rightarrow> (RepoError + NetworkRow) \<times> Repo" where
  "admin_remove_membership dev net s =
     (case remove_membership_guarded dev net s of
        (Inl e, s) \<Rightarrow> (Inl e, s)
      | (Inr _, s) \<Rightarrow>
          (case get_network net s of
             None \<Rightarrow> (Inl (Conflict NetworkMissing), s)
           | Some n \<Rightarrow> (Inr n, s)))"

definition looks_like_netid :: "string \<Rightarrow> bool" where
  "looks_like_netid x =
     (length (as_bytes x) = 32 \<and> list_all (\<lambda>b. is_ascii_hexdigit (char_of (unat b))) (as_bytes x))"

definition leave_target ::
  "(bytes \<Rightarrow> string) \<Rightarrow> (string \<Rightarrow> bytes option) \<Rightarrow> u64 \<Rightarrow> string \<Rightarrow> Repo \<Rightarrow> NetId option" where
  "leave_target hexenc hexdec dev name_or_id s =
     (case List.find (\<lambda>m.
             (case get_network (mb_network_id m) s of
                Some n \<Rightarrow> eq_ignore_ascii_case (nr_name n) name_or_id | None \<Rightarrow> False)
             \<or> looks_like_netid name_or_id \<and> hexenc (mb_network_id m) = map ascii_lower name_or_id)
           (memberships_of_device dev s) of
        Some m \<Rightarrow> Some (mb_network_id m)
      | None \<Rightarrow> if looks_like_netid name_or_id then netid_from_hex hexdec name_or_id else None)"

definition leave_network ::
  "(bytes \<Rightarrow> string) \<Rightarrow> (string \<Rightarrow> bytes option) \<Rightarrow> u64 \<Rightarrow> string \<Rightarrow> Repo \<Rightarrow> (RepoError + NetworkRow) \<times> Repo" where
  "leave_network hexenc hexdec dev name_or_id s =
     (case leave_target hexenc hexdec dev name_or_id s of
        None \<Rightarrow> (Inl (Conflict NoSuchMembership), s)
      | Some net \<Rightarrow>
          (case remove_membership_guarded dev net s of
             (Inl e, s) \<Rightarrow> (Inl e, s)
           | (Inr _, s) \<Rightarrow>
               (case get_network net s of
                  None \<Rightarrow> (Inl (Conflict NetworkMissing), s)
                | Some n \<Rightarrow> (Inr n, s))))"

section \<open>Managed device settings\<close>

definition get_device_settings_full ::
  "(string \<Rightarrow> DeviceSettings option) \<Rightarrow> u64 \<Rightarrow> Repo
     \<Rightarrow> RepoError + DeviceSettings \<times> string option \<times> int option" where
  "get_device_settings_full dec dev s =
     (case tget (rp_device_settings s) dev of
        Some row \<Rightarrow>
          (case dec (sr_json row) of
             None \<Rightarrow> Inl (Conflict SettingsJsonInvalid)
           | Some d \<Rightarrow> Inr (d\<lparr>ds_revision := sr_revision row\<rparr>, sr_last_error row, sr_failed_revision row))
      | None \<Rightarrow> Inr (default_settings, None, None))"

definition get_device_settings :: "(string \<Rightarrow> DeviceSettings option) \<Rightarrow> u64 \<Rightarrow> Repo \<Rightarrow> RepoError + DeviceSettings" where
  "get_device_settings dec dev s =
     (case get_device_settings_full dec dev s of Inl e \<Rightarrow> Inl e | Inr (d, _) \<Rightarrow> Inr d)"

definition mark_settings_applied :: "u64 \<Rightarrow> int \<Rightarrow> Repo \<Rightarrow> Repo" where
  "mark_settings_applied dev applied s =
     (case tget (rp_device_settings s) dev of
        Some row \<Rightarrow>
          if 0 < sr_revision row \<and> sr_revision row \<le> applied
          then s\<lparr>rp_device_settings := tput dev
                   (row\<lparr>sr_last_good_json := Some (sr_json row), sr_last_error := None,
                        sr_failed_revision := None\<rparr>) (rp_device_settings s)\<rparr>
          else s
      | None \<Rightarrow> s)"

text \<open>The transaction of report\_settings\_fail: the text rolled back to and its revision.\<close>

definition report_fail_tx ::
  "(DeviceSettings \<Rightarrow> string) \<Rightarrow> millis \<Rightarrow> u64 \<Rightarrow> int \<Rightarrow> string \<Rightarrow> Repo
     \<Rightarrow> RepoError + (string \<times> int) option \<times> Repo" where
  "report_fail_tx enc now dev failed_revision error s =
     (case tget (rp_device_settings s) dev of
        None \<Rightarrow> Inr (None, s)
      | Some row \<Rightarrow>
          (let current = sr_revision row in
           if failed_revision \<noteq> current then Inr (None, s)
           else
             (let rollback_json = (case sr_last_good_json row of Some g \<Rightarrow> g | None \<Rightarrow> enc default_settings);
                  next_rev = current + 1
              in Inr (Some (rollback_json, next_rev),
                      s\<lparr>rp_device_settings := tput dev
                          (row\<lparr>sr_json := rollback_json, sr_revision := next_rev,
                               sr_last_error := Some (take_chars 500 error),
                               sr_failed_revision := Some failed_revision, sr_updated_at := now\<rparr>)
                          (rp_device_settings s)\<rparr>))))"

definition report_settings_fail ::
  "(DeviceSettings \<Rightarrow> string) \<Rightarrow> (string \<Rightarrow> DeviceSettings option) \<Rightarrow> millis \<Rightarrow> u64 \<Rightarrow> int \<Rightarrow> string \<Rightarrow> Repo
     \<Rightarrow> (RepoError + DeviceSettings option) \<times> Repo" where
  "report_settings_fail enc dec now dev failed_revision error s =
     (case with_tx (report_fail_tx enc now dev failed_revision error) s of
        (Inl e, s) \<Rightarrow> (Inl e, s)
      | (Inr None, s) \<Rightarrow> (Inr None, s)
      | (Inr (Some (rollback_json, next_rev)), s) \<Rightarrow>
          (case dec rollback_json of
             None \<Rightarrow> (Inl (Conflict RollbackJsonInvalid), s)
           | Some rolled \<Rightarrow> (Inr (Some (rolled\<lparr>ds_revision := next_rev\<rparr>)), s)))"

definition set_device_settings ::
  "(DeviceSettings \<Rightarrow> string) \<Rightarrow> millis \<Rightarrow> u64 \<Rightarrow> DeviceSettings \<Rightarrow> Repo \<Rightarrow> DeviceSettings \<times> Repo" where
  "set_device_settings enc now dev update s =
     (let stored = update\<lparr>ds_revision := 0\<rparr>;
          json = enc stored;
          current = (case tget (rp_device_settings s) dev of Some row \<Rightarrow> sr_revision row | None \<Rightarrow> 0);
          next_rev = current + 1;
          row = (case tget (rp_device_settings s) dev of
                   Some row \<Rightarrow> row\<lparr>sr_revision := next_rev, sr_json := json, sr_updated_at := now\<rparr>
                 | None \<Rightarrow> \<lparr>sr_revision = next_rev, sr_json = json, sr_updated_at = now,
                            sr_last_good_json = None, sr_last_error = None, sr_failed_revision = None\<rparr>)
      in (stored\<lparr>ds_revision := next_rev\<rparr>,
          s\<lparr>rp_device_settings := tput dev row (rp_device_settings s)\<rparr>))"

section \<open>The operations as one machine\<close>

text \<open>
  The writing operations as the handlers call them; random values and the clock
  are part of the request. SetIp takes the block of the stored network, as its
  handler does.
\<close>

datatype RepoOp =
    OpCreateNetwork NetId millis string Cidr
  | OpDeleteNetwork NetId
  | OpCreateToken string millis NetId int millis "string option"
  | OpDeleteToken string
  | OpEnroll u64 string millis string string string string "string option"
  | OpJoin millis u64 string "string option"
  | OpAdminJoin u64 NetId "string option" bool
  | OpSetIp NetId u64 string
  | OpAdminRemove u64 NetId
  | OpLeave u64 string
  | OpDeleteDevice u64
  | OpRename u64 string
  | OpTouch millis u64
  | OpSetSettings millis u64 DeviceSettings
  | OpApplied u64 int
  | OpFail millis u64 int string
  | OpRotateAdmin string

text \<open>The coders of third-party crates.\<close>

record Coders =
  cd_hash :: "string \<Rightarrow> string"
  cd_hexenc :: "bytes \<Rightarrow> string"
  cd_hexdec :: "string \<Rightarrow> bytes option"
  cd_json :: "DeviceSettings \<Rightarrow> string"
  cd_unjson :: "string \<Rightarrow> DeviceSettings option"

fun repo_step :: "Coders \<Rightarrow> Repo \<Rightarrow> RepoOp \<Rightarrow> bool \<times> Repo" where
  "repo_step cd s (OpCreateNetwork i now name cidr) =
     (let (r, s) = create_network i now name (cidr_display cidr) s in (\<not> isl r, s))"
| "repo_step cd s (OpDeleteNetwork i) = delete_network i s"
| "repo_step cd s (OpCreateToken t now net uses ttl req) =
     (let (r, s) = create_token t now net uses ttl req s in (\<not> isl r, s))"
| "repo_step cd s (OpDeleteToken t) = delete_token t s"
| "repo_step cd s (OpEnroll i tok now etok name spk dpk req) =
     (let (r, s) = enroll (cd_hash cd) i tok now etok name spk dpk req s in (\<not> isl r, s))"
| "repo_step cd s (OpJoin now dev etok req) =
     (let (r, s) = join_network now dev etok req s in (\<not> isl r, s))"
| "repo_step cd s (OpAdminJoin dev net req single) =
     (let (r, s) = admin_join_network dev net req single s in (\<not> isl r, s))"
| "repo_step cd s (OpSetIp net dev ip) =
     (case get_network net s of
        None \<Rightarrow> (False, s)
      | Some n \<Rightarrow>
          (case cidr_parse (nr_cidr n) of
             Inl _ \<Rightarrow> (False, s)
           | Inr cidr \<Rightarrow> (let (r, s) = set_membership_ip_atomic net dev ip cidr s in (\<not> isl r, s))))"
| "repo_step cd s (OpAdminRemove dev net) =
     (let (r, s) = admin_remove_membership dev net s in (\<not> isl r, s))"
| "repo_step cd s (OpLeave dev name) =
     (let (r, s) = leave_network (cd_hexenc cd) (cd_hexdec cd) dev name s in (\<not> isl r, s))"
| "repo_step cd s (OpDeleteDevice i) = delete_device i s"
| "repo_step cd s (OpRename i name) = rename_device i name s"
| "repo_step cd s (OpTouch now i) = (True, touch_device now i s)"
| "repo_step cd s (OpSetSettings now dev upd) =
     (let (r, s) = set_device_settings (cd_json cd) now dev upd s in (True, s))"
| "repo_step cd s (OpApplied dev r) = (True, mark_settings_applied dev r s)"
| "repo_step cd s (OpFail now dev fr error) =
     (let (r, s) = report_settings_fail (cd_json cd) (cd_unjson cd) now dev fr error s in (\<not> isl r, s))"
| "repo_step cd s (OpRotateAdmin fresh) = (True, snd (rotate_admin_token fresh s))"

section \<open>The address book invariant\<close>

definition member_addr_ok :: "Repo \<Rightarrow> MembershipRow \<Rightarrow> bool" where
  "member_addr_ok s m =
     (\<exists>n c a. n \<in> set (rp_networks s) \<and> nr_id n = mb_network_id m
        \<and> cidr_parse (nr_cidr n) = Inr c \<and> mb_ip m = show_ipv4 a \<and> host_ok c a)"

definition book_inv :: "Repo \<Rightarrow> bool" where
  "book_inv s =
     (distinct (map nr_id (rp_networks s)) \<and> distinct (map nr_name (rp_networks s))
      \<and> distinct (map dr_id (rp_devices s)) \<and> distinct (map tk_token (rp_tokens s))
      \<and> distinct (map (\<lambda>m. (mb_network_id m, mb_device_id m)) (rp_memberships s))
      \<and> distinct (map (\<lambda>m. (mb_network_id m, mb_ip m)) (rp_memberships s))
      \<and> (\<forall>m\<in>set (rp_memberships s). member_addr_ok s m))"

lemma rotate_frame [simp]:
  "rp_networks (snd (rotate_admin_token t s)) = rp_networks s"
  "rp_devices (snd (rotate_admin_token t s)) = rp_devices s"
  "rp_tokens (snd (rotate_admin_token t s)) = rp_tokens s"
  "rp_memberships (snd (rotate_admin_token t s)) = rp_memberships s"
  "rp_device_settings (snd (rotate_admin_token t s)) = rp_device_settings s"
  by (simp_all add: rotate_admin_token_def set_setting_def)

lemma find_eq_None: "List.find P xs = None \<longleftrightarrow> (\<forall>x\<in>set xs. \<not> P x)"
  by (auto simp: find_None_iff)

lemma find_Some_in: "List.find P xs = Some x \<Longrightarrow> x \<in> set xs \<and> P x"
  by (auto simp: find_Some_iff)

lemma distinct_filter_map: "distinct (map f xs) \<Longrightarrow> distinct (map f (filter P xs))"
  by (induction xs) auto

lemma book_inv_cong:
  "book_inv s \<Longrightarrow> rp_networks s' = rp_networks s \<Longrightarrow> map dr_id (rp_devices s') = map dr_id (rp_devices s) \<Longrightarrow>
   map tk_token (rp_tokens s') = map tk_token (rp_tokens s) \<Longrightarrow> rp_memberships s' = rp_memberships s \<Longrightarrow>
   book_inv s'"
  unfolding book_inv_def member_addr_ok_def by simp

lemma used_ips_mem: "a \<in> used_ips P s \<longleftrightarrow> (\<exists>m\<in>set (rp_memberships s). P m \<and> mb_ip m = show_ipv4 a)"
  by (force simp: used_ips_def map_filter_def parse_ipv4_iff parse_show_ipv4)

lemma choose_ip_ok:
  assumes "choose_ip n req s = Inr a"
  shows "\<exists>c. cidr_parse (nr_cidr n) = Inr c \<and> host_ok c a
     \<and> (\<forall>m\<in>set (rp_memberships s). mb_network_id m = nr_id n \<longrightarrow> mb_ip m \<noteq> show_ipv4 a)"
proof -
  obtain c where c: "cidr_parse (nr_cidr n) = Inr c"
    using assms by (auto simp: choose_ip_def split: sum.splits)
  let ?used = "used_ips (\<lambda>m. mb_network_id m = nr_id n) s"
  have "(case req of Some r \<Rightarrow> validate_manual r c ?used None
          | None \<Rightarrow> (case allocate c ?used of None \<Rightarrow> Inl (IpTaken 0) | Some a \<Rightarrow> Inr a)) = Inr a"
    using assms c by (auto simp: choose_ip_def Let_def split: option.splits sum.splits)
  from ipv4_pool.pick_ok [OF cidr_parse_wf [OF c] this]
  show ?thesis using c by (auto simp: used_ips_mem)
qed

lemma insert_member_inv:
  assumes i: "book_inv s" and n: "n \<in> set (rp_networks s)" "nr_id n = net"
    and c: "cidr_parse (nr_cidr n) = Inr c" "host_ok c a"
    and ins: "insert_member_row \<lparr>mb_network_id = net, mb_device_id = dev, mb_ip = show_ipv4 a\<rparr> s = Inr s'"
  shows "book_inv s'"
proof -
  have s': "s' = s\<lparr>rp_memberships := rp_memberships s @ [\<lparr>mb_network_id = net, mb_device_id = dev, mb_ip = show_ipv4 a\<rparr>]\<rparr>"
    and fresh: "\<forall>m\<in>set (rp_memberships s). \<not> (mb_network_id m = net \<and> mb_device_id m = dev)"
      "\<forall>m\<in>set (rp_memberships s). \<not> (mb_network_id m = net \<and> mb_ip m = show_ipv4 a)"
    using ins by (auto simp: insert_member_row_def membership_of_def find_eq_None split: if_splits)
  show ?thesis
    using i fresh n c unfolding s' book_inv_def member_addr_ok_def by (auto simp: image_iff)
qed

lemma insert_membership_inv:
  assumes "book_inv s" "n \<in> set (rp_networks s)" "insert_membership n dev req fb s = Inr (ip, s')"
  shows "book_inv s'"
proof -
  obtain a where a: "choose_ip n (opt_or req fb) s = Inr a"
    "insert_member_row \<lparr>mb_network_id = nr_id n, mb_device_id = dev, mb_ip = show_ipv4 a\<rparr> s = Inr s'"
    using assms(3) by (auto simp: insert_membership_def Let_def split: sum.splits)
  then show ?thesis using choose_ip_ok [OF a(1)] insert_member_inv [OF assms(1,2) refl _ _ a(2)] by blast
qed

lemma get_network_in: "get_network i s = Some n \<Longrightarrow> n \<in> set (rp_networks s) \<and> nr_id n = i"
  unfolding get_network_def by (rule find_Some_in)

lemma check_token_network:
  "check_token now bare s = Inr (t, n) \<Longrightarrow> n \<in> set (rp_networks s) \<and> nr_id n = tk_network_id t"
  using get_network_in by (auto simp: check_token_def split: option.splits if_splits)

lemma map_tk_token_consume [simp]:
  "map tk_token (rp_tokens (snd (consume_token_use bare s))) = map tk_token (rp_tokens s)"
  by (simp add: consume_token_use_def comp_def if_distrib cong: if_cong)

lemma consume_frame [simp]:
  "rp_networks (snd (consume_token_use bare s)) = rp_networks s"
  "rp_devices (snd (consume_token_use bare s)) = rp_devices s"
  "rp_memberships (snd (consume_token_use bare s)) = rp_memberships s"
  by (simp_all add: consume_token_use_def)

lemma book_inv_consume: "book_inv s \<Longrightarrow> book_inv (snd (consume_token_use bare s))"
  by (rule book_inv_cong) simp_all

definition enrolled_row :: "(string \<Rightarrow> string) \<Rightarrow> u64 \<Rightarrow> string \<Rightarrow> millis \<Rightarrow> string \<Rightarrow> string \<Rightarrow> string \<Rightarrow> DeviceRow" where
  "enrolled_row hash dev tok now name spk dpk =
     \<lparr>dr_id = dev, dr_name = name, dr_pubkey_sign = spk, dr_pubkey_dh = dpk, dr_token_hash = hash tok,
      dr_relay_key = hash tok, dr_created_at = now, dr_last_seen = 0\<rparr>"

text \<open>The stages of a committed enrolment.\<close>

lemma enroll_txE:
  assumes "enroll_tx hash dev tok now bare name spk dpk req s = Inr (r, s')"
  obtains t n a s1 s2 where "check_token now bare s = Inr (t, n)"
    "choose_ip n (opt_or req (tk_requested_ip t)) s = Inr a"
    "insert_device (enrolled_row hash dev tok now name spk dpk) s = Inr s1"
    "insert_member_row \<lparr>mb_network_id = tk_network_id t, mb_device_id = dev, mb_ip = show_ipv4 a\<rparr> s1 = Inr s2"
    "fst (consume_token_use bare s2)" "s' = snd (consume_token_use bare s2)"
    "r = \<lparr>enr_device_id = dev, enr_device_token = tok, enr_network = n, enr_ip = show_ipv4 a\<rparr>"
proof -
  obtain t n where t: "check_token now bare s = Inr (t, n)"
    using assms unfolding enroll_tx_def by (cases "check_token now bare s") auto
  obtain a where a: "choose_ip n (opt_or req (tk_requested_ip t)) s = Inr a"
    using assms unfolding enroll_tx_def t
    by (cases "choose_ip n (opt_or req (tk_requested_ip t)) s") auto
  obtain s1 where s1: "insert_device (enrolled_row hash dev tok now name spk dpk) s = Inr s1"
    using assms unfolding enroll_tx_def enrolled_row_def
    by (cases "insert_device (enrolled_row hash dev tok now name spk dpk) s")
       (simp_all add: t a Let_def enrolled_row_def)
  obtain s2 where s2: "insert_member_row \<lparr>mb_network_id = tk_network_id t, mb_device_id = dev, mb_ip = show_ipv4 a\<rparr> s1 = Inr s2"
    using assms s1 unfolding enroll_tx_def enrolled_row_def
    by (cases "insert_member_row \<lparr>mb_network_id = tk_network_id t, mb_device_id = dev, mb_ip = show_ipv4 a\<rparr> s1")
       (simp_all add: t a Let_def)
  have "fst (consume_token_use bare s2)" "s' = snd (consume_token_use bare s2)"
    "r = \<lparr>enr_device_id = dev, enr_device_token = tok, enr_network = n, enr_ip = show_ipv4 a\<rparr>"
    using assms s1 s2 unfolding enroll_tx_def enrolled_row_def
    by (simp_all add: t a Let_def case_prod_beta split: if_splits)
  then show ?thesis using that t a s1 s2 by blast
qed

lemma book_inv_enroll:
  assumes i: "book_inv s" and e: "enroll_tx hash dev tok now bare name spk dpk req s = Inr (r, s')"
  shows "book_inv s'"
  using e
proof (rule enroll_txE)
  fix t n a s1 s2
  assume t: "check_token now bare s = Inr (t, n)" and a: "choose_ip n (opt_or req (tk_requested_ip t)) s = Inr a"
    and d: "insert_device (enrolled_row hash dev tok now name spk dpk) s = Inr s1"
    and m: "insert_member_row \<lparr>mb_network_id = tk_network_id t, mb_device_id = dev, mb_ip = show_ipv4 a\<rparr> s1 = Inr s2"
    and s': "s' = snd (consume_token_use bare s2)"
  have s1: "s1 = s\<lparr>rp_devices := rp_devices s @ [enrolled_row hash dev tok now name spk dpk]\<rparr>"
    "dev \<notin> dr_id ` set (rp_devices s)"
    using d by (auto simp: insert_device_def get_device_def find_eq_None enrolled_row_def split: if_splits)
  then have i1: "book_inv s1" using i unfolding book_inv_def member_addr_ok_def enrolled_row_def by simp
  have "n \<in> set (rp_networks s1)" "nr_id n = tk_network_id t"
    using check_token_network [OF t] s1(1) by simp_all
  moreover obtain c where "cidr_parse (nr_cidr n) = Inr c" "host_ok c a" using choose_ip_ok [OF a] by blast
  ultimately have "book_inv s2" using insert_member_inv [OF i1 _ _ _ _ m] by blast
  then show ?thesis using s' book_inv_consume by simp
qed

lemma book_inv_join:
  assumes i: "book_inv s" and e: "join_network_tx now dev bare req s = Inr (r, s')"
  shows "book_inv s'"
proof -
  obtain t n where t: "check_token now bare s = Inr (t, n)"
    using e by (auto simp: join_network_tx_def split: sum.splits)
  show ?thesis
  proof (cases "membership_of (tk_network_id t) dev s")
    case None
    obtain ip s1 where m: "insert_membership n dev req (tk_requested_ip t) s = Inr (ip, s1)"
      using e t None by (auto simp: join_network_tx_def split: sum.splits)
    moreover have "s' = snd (consume_token_use bare s1)"
      using e t None m by (auto simp: join_network_tx_def case_prod_beta Let_def split: if_splits)
    ultimately show ?thesis
      using insert_membership_inv [OF i _ m] check_token_network [OF t] book_inv_consume by simp
  qed (use e t i in \<open>simp add: join_network_tx_def\<close>)
qed

lemma book_inv_admin_join:
  assumes "book_inv s" and "admin_join_tx dev net req single s = Inr (r, s')"
  shows "book_inv s'"
  using assms insert_membership_inv [OF assms(1)] get_network_in
  by (fastforce simp: admin_join_tx_def split: option.splits sum.splits if_splits)

lemma book_inv_filter_members:
  "book_inv s \<Longrightarrow> book_inv (s\<lparr>rp_memberships := filter P (rp_memberships s)\<rparr>)"
  unfolding book_inv_def member_addr_ok_def by (auto intro!: distinct_filter_map)

lemma book_inv_remove:
  "book_inv s \<Longrightarrow> remove_membership_tx dev net s = Inr (r, s') \<Longrightarrow> book_inv s'"
  using book_inv_filter_members by (auto simp: remove_membership_tx_def Let_def split: if_splits)

lemma book_inv_delete_network: "book_inv s \<Longrightarrow> book_inv (snd (delete_network i s))"
  unfolding book_inv_def member_addr_ok_def delete_network_def Let_def
  by (auto intro!: distinct_filter_map) metis

lemma book_inv_delete_device: "book_inv s \<Longrightarrow> book_inv (snd (delete_device i s))"
  unfolding book_inv_def member_addr_ok_def delete_device_def Let_def
  by (auto intro!: distinct_filter_map)

lemma distinct_map_upd:
  assumes "distinct (map f xs)" and "\<And>x y. x \<in> set xs \<Longrightarrow> y \<in> set xs \<Longrightarrow> g (h x) = g (h y) \<Longrightarrow> f x = f y"
  shows "distinct (map g (map h xs))"
  using assms by (induction xs) auto

lemma book_inv_set_ip:
  assumes i: "book_inv s" and n: "get_network net s = Some n" "cidr_parse (nr_cidr n) = Inr c"
    and e: "set_ip_tx net dev ip c s = Inr (r, s')"
  shows "book_inv s'"
proof -
  let ?used = "used_ips (\<lambda>m. mb_network_id m = net \<and> mb_device_id m \<noteq> dev) s"
  obtain a where v: "validate_manual ip c ?used None = Inr a"
    using e by (auto simp: set_ip_tx_def Let_def split: sum.splits)
  then have ip: "ip = show_ipv4 a" "host_ok c a"
    using ipv4_pool.manual_ok [OF cidr_parse_wf [OF n(2)] v]
    by (auto simp: validate_manual_def parse_ipv4_iff split: option.splits if_splits)
  have u: "update_ip_row net dev ip s = Inr s'"
    using e v by (auto simp: set_ip_tx_def Let_def split: sum.splits)
  define h where "h m = (if mb_network_id m = net \<and> mb_device_id m = dev then m\<lparr>mb_ip := ip\<rparr> else m)" for m :: MembershipRow
  have s': "s' = s\<lparr>rp_memberships := map h (rp_memberships s)\<rparr>"
    and free: "membership_of net dev s \<noteq> None \<Longrightarrow>
       \<forall>m\<in>set (rp_memberships s). \<not> (mb_network_id m = net \<and> mb_device_id m \<noteq> dev \<and> mb_ip m = ip)"
    using u unfolding update_ip_row_def h_def by (auto simp: find_eq_None split: if_splits)
  have free': "m \<in> set (rp_memberships s) \<Longrightarrow> m' \<in> set (rp_memberships s) \<Longrightarrow>
      mb_network_id m = net \<Longrightarrow> mb_device_id m = dev \<Longrightarrow> mb_network_id m' = net \<Longrightarrow> mb_device_id m' \<noteq> dev \<Longrightarrow>
      mb_ip m' \<noteq> ip" for m m'
    using free by (auto simp: membership_of_def find_eq_None)
  have ids: "mb_network_id (h m) = mb_network_id m" "mb_device_id (h m) = mb_device_id m" for m
    by (simp_all add: h_def)
  have sel: "mb_ip (h m) = ip" if "mb_network_id m = net" "mb_device_id m = dev" for m
    using that by (simp add: h_def)
  have unsel: "h m = m" if "\<not> (mb_network_id m = net \<and> mb_device_id m = dev)" for m
    using that by (auto simp: h_def)
  have "distinct (map (\<lambda>m. (mb_network_id m, mb_device_id m)) (map h (rp_memberships s)))"
    using i by (simp add: book_inv_def comp_def ids)
  moreover have "distinct (map (\<lambda>m. (mb_network_id m, mb_ip m)) (map h (rp_memberships s)))"
  proof (rule distinct_map_upd [where f = "\<lambda>m. (mb_network_id m, mb_device_id m)"])
    fix x y assume x: "x \<in> set (rp_memberships s)" and y: "y \<in> set (rp_memberships s)"
      and eq: "(mb_network_id (h x), mb_ip (h x)) = (mb_network_id (h y), mb_ip (h y))"
    have d: "distinct (map (\<lambda>m. (mb_network_id m, mb_ip m)) (rp_memberships s))" using i by (simp add: book_inv_def)
    have n: "mb_network_id x = mb_network_id y" using eq by (simp add: ids)
    consider "mb_device_id x = mb_device_id y"
      | "mb_network_id x = net" "mb_device_id x = dev" "mb_device_id y \<noteq> dev"
      | "mb_network_id y = net" "mb_device_id y = dev" "mb_device_id x \<noteq> dev"
      | "h x = x" "h y = y"
      using n unsel [of x] unsel [of y] by metis
    then show "(mb_network_id x, mb_device_id x) = (mb_network_id y, mb_device_id y)"
    proof cases
      case 2
      then show ?thesis using free' [OF x y] sel [of x] unsel [of y] eq n by simp
    next
      case 3
      then show ?thesis using free' [OF y x] sel [of y] unsel [of x] eq n by simp
    next
      case 4
      then have "x = y" using d x y eq by (simp add: distinct_map inj_on_def)
      then show ?thesis by simp
    qed (use n in simp)
  qed (use i in \<open>simp add: book_inv_def\<close>)
  moreover have "member_addr_ok s' (h m)" if "m \<in> set (rp_memberships s)" for m
    using i that n get_network_in [OF n(1)] ip unfolding s' member_addr_ok_def book_inv_def h_def by auto
  ultimately show ?thesis using i unfolding s' book_inv_def by auto
qed

lemma with_tx_inv:
  "book_inv s \<Longrightarrow> (\<And>r s'. f s = Inr (r, s') \<Longrightarrow> book_inv s') \<Longrightarrow> book_inv (snd (with_tx f s))"
  by (auto simp: with_tx_def split: sum.splits)

lemma book_inv_leave: "book_inv s \<Longrightarrow> book_inv (snd (remove_membership_guarded dev net s))"
  unfolding remove_membership_guarded_def by (rule with_tx_inv) (auto intro: book_inv_remove)

lemma settings_frame:
  "rp_networks (snd (set_device_settings enc now dev u s)) = rp_networks s"
  "rp_devices (snd (set_device_settings enc now dev u s)) = rp_devices s"
  "rp_tokens (snd (set_device_settings enc now dev u s)) = rp_tokens s"
  "rp_memberships (snd (set_device_settings enc now dev u s)) = rp_memberships s"
  "rp_networks (mark_settings_applied dev r s) = rp_networks s"
  "rp_devices (mark_settings_applied dev r s) = rp_devices s"
  "rp_tokens (mark_settings_applied dev r s) = rp_tokens s"
  "rp_memberships (mark_settings_applied dev r s) = rp_memberships s"
  "rp_networks (snd (report_settings_fail enc dec now dev r e s)) = rp_networks s"
  "rp_devices (snd (report_settings_fail enc dec now dev r e s)) = rp_devices s"
  "rp_tokens (snd (report_settings_fail enc dec now dev r e s)) = rp_tokens s"
  "rp_memberships (snd (report_settings_fail enc dec now dev r e s)) = rp_memberships s"
  by (simp_all add: set_device_settings_def mark_settings_applied_def report_settings_fail_def
      report_fail_tx_def with_tx_def Let_def split: option.split)

lemma book_inv_create_network:
  assumes i: "book_inv s" shows "book_inv (snd (create_network i now name cidr s))"
proof -
  have "member_addr_ok (s\<lparr>rp_networks := rp_networks s @ xs\<rparr>) m" if "member_addr_ok s m" for m xs
    using that unfolding member_addr_ok_def by auto
  then show ?thesis
    using i unfolding create_network_def
    by (auto simp: Let_def book_inv_def get_network_def get_network_by_name_def find_eq_None)
qed

lemma book_inv_create_token: "book_inv s \<Longrightarrow> book_inv (snd (create_token t now net uses ttl req s))"
  by (auto simp: create_token_def Let_def book_inv_def member_addr_ok_def find_eq_None)

lemma book_inv_delete_token: "book_inv s \<Longrightarrow> book_inv (snd (delete_token t s))"
  by (auto simp: delete_token_def book_inv_def member_addr_ok_def case_prod_beta intro!: distinct_filter_map)

lemma book_inv_devices_upd:
  "book_inv s \<Longrightarrow> (\<And>d. dr_id (f d) = dr_id d) \<Longrightarrow> book_inv (s\<lparr>rp_devices := map f (rp_devices s)\<rparr>)"
  by (rule book_inv_cong [of s]) (simp_all add: comp_def)

interpretation book: machine "repo_step cd" book_inv for cd
proof
  fix s op r s'
  assume i: "book_inv s" and e: "repo_step cd s op = (r, s')"
  have s': "s' = snd (repo_step cd s op)" using e by simp
  show "book_inv s'"
  proof (cases op)
    case (OpEnroll d tok now et name spk dpk req)
    show ?thesis
      unfolding s' OpEnroll repo_step.simps enroll_def Let_def case_prod_beta snd_conv
      by (rule with_tx_inv [OF i]) (rule book_inv_enroll [OF i])
  next
    case (OpJoin now dev et req)
    show ?thesis
      unfolding s' OpJoin repo_step.simps join_network_def Let_def case_prod_beta snd_conv
      by (rule with_tx_inv [OF i]) (rule book_inv_join [OF i])
  next
    case (OpAdminJoin dev net req single)
    show ?thesis
      unfolding s' OpAdminJoin repo_step.simps admin_join_network_def Let_def case_prod_beta snd_conv
      by (rule with_tx_inv [OF i]) (rule book_inv_admin_join [OF i])
  next
    case (OpSetIp net dev ip)
    have "book_inv (snd (set_membership_ip_atomic net dev ip c s))"
      if "get_network net s = Some n" "cidr_parse (nr_cidr n) = Inr c" for n c
      unfolding set_membership_ip_atomic_def
      by (rule with_tx_inv [OF i]) (rule book_inv_set_ip [OF i that])
    then show ?thesis unfolding s' OpSetIp using i by (simp add: case_prod_beta Let_def split: option.split sum.split)
  next
    case (OpAdminRemove dev net)
    then show ?thesis
      unfolding s' using book_inv_leave [OF i]
      by (simp add: admin_remove_membership_def case_prod_beta Let_def split: option.split sum.split)
  next
    case (OpLeave dev name)
    then show ?thesis
      unfolding s' using book_inv_leave [OF i] i
      by (simp add: leave_network_def case_prod_beta Let_def split: option.split sum.split)
  next
    case (OpSetSettings now dev u)
    show ?thesis by (rule book_inv_cong [OF i]) (simp_all add: s' OpSetSettings case_prod_beta settings_frame)
  next
    case (OpApplied dev rev)
    show ?thesis by (rule book_inv_cong [OF i]) (simp_all add: s' OpApplied settings_frame)
  next
    case (OpFail now dev rev er)
    show ?thesis by (rule book_inv_cong [OF i]) (simp_all add: s' OpFail case_prod_beta settings_frame)
  next
    case (OpRename d n)
    have "book_inv (s\<lparr>rp_devices := map (\<lambda>x. if dr_id x = d then x\<lparr>dr_name := n\<rparr> else x) (rp_devices s)\<rparr>)"
      by (rule book_inv_devices_upd [OF i]) simp
    then show ?thesis by (simp add: s' OpRename rename_device_def)
  next
    case (OpTouch now d)
    have "book_inv (s\<lparr>rp_devices := map (\<lambda>x. if dr_id x = d then x\<lparr>dr_last_seen := now\<rparr> else x) (rp_devices s)\<rparr>)"
      by (rule book_inv_devices_upd [OF i]) simp
    then show ?thesis by (simp add: s' OpTouch touch_device_def)
  next
    case (OpRotateAdmin t)
    show ?thesis by (rule book_inv_cong [OF i]) (simp_all add: s' OpRotateAdmin)
  qed (simp_all add: s' case_prod_beta Let_def book_inv_create_network [OF i] book_inv_delete_network [OF i]
      book_inv_create_token [OF i] book_inv_delete_token [OF i] book_inv_delete_device [OF i])
qed

lemma book_inv_empty: "book_inv repo_empty"
  by (simp add: book_inv_def repo_empty_def)

text \<open>
  C6 (invariant). After any sequence of administrative and device requests, in any order:
  ids, names and tokens are unique; a device is at most once in a network; no two
  members of a network have the same address; and every member's network exists
  and its address is a host address of that network's block, stored canonically.
\<close>
theorem address_book_consistent:
  "book_inv (snd (run (repo_step cd) repo_empty ops))"
  by (rule book.run_snd_inv [OF book_inv_empty])

end
