(* ===== verification/RepoProps.thy ===== *)
theory RepoProps
  imports Repo
begin

text \<open>
  Properties of the repository over runs of requests: the budget of an enrolment
  token, the guard of the last membership, and the roll-back of device settings.
\<close>

section \<open>The budget of a token\<close>

definition token_uses :: "string \<Rightarrow> Repo \<Rightarrow> nat" where
  "token_uses t s = (case List.find (\<lambda>r. tk_token r = t) (rp_tokens s) of
                       None \<Rightarrow> 0 | Some r \<Rightarrow> nat (tk_uses_left r))"

text \<open>
  A request admits with the token t when it carries t, is accepted, and enrols a
  device or makes an enrolled one a member of a network it did not belong to.
\<close>

fun admits :: "string \<Rightarrow> Repo \<Rightarrow> RepoOp \<Rightarrow> bool \<times> Repo \<Rightarrow> bool" where
  "admits t s (OpEnroll _ _ _ etok _ _ _ _) out = (fst out \<and> fst (split_token etok) = t)"
| "admits t s (OpJoin _ _ etok _) out =
     (fst out \<and> fst (split_token etok) = t \<and> rp_memberships (snd out) \<noteq> rp_memberships s)"
| "admits t s _ _ = False"

fun admissions :: "Coders \<Rightarrow> string \<Rightarrow> Repo \<Rightarrow> RepoOp list \<Rightarrow> nat" where
  "admissions cd t s [] = 0"
| "admissions cd t s (op # ops) =
     (if admits t s op (repo_step cd s op) then 1 else 0) + admissions cd t (snd (repo_step cd s op)) ops"

fun creates_token :: "string \<Rightarrow> RepoOp \<Rightarrow> bool" where
  "creates_token t (OpCreateToken tok _ _ _ _ _) = (tok = t)"
| "creates_token t _ = False"

text \<open>The requests that may take away what is left of a token.\<close>

fun removes_token :: "string \<Rightarrow> RepoOp \<Rightarrow> bool" where
  "removes_token t (OpDeleteToken tok) = (fst (split_token tok) = t)"
| "removes_token t (OpDeleteNetwork _) = True"
| "removes_token t _ = False"

lemma find_append_miss: "\<not> P x \<Longrightarrow> List.find P (xs @ [x]) = List.find P xs"
  by (induction xs) auto

lemma find_filter_distinct:
  "distinct (map f xs) \<Longrightarrow> List.find (\<lambda>x. f x = k) (filter Q xs) =
     (case List.find (\<lambda>x. f x = k) xs of None \<Rightarrow> None | Some x \<Rightarrow> if Q x then Some x else None)"
proof (induction xs)
  case (Cons x xs)
  have "List.find (\<lambda>x. f x = k) xs = None" if "f x = k"
    unfolding find_eq_None using Cons.prems that by (auto simp: image_iff)
  then show ?case using Cons by auto
qed simp

lemma token_uses_filter:
  assumes "distinct (map tk_token (rp_tokens s))" "rp_tokens s' = filter Q (rp_tokens s)"
  shows "token_uses t s' \<le> token_uses t s"
  unfolding token_uses_def assms(2) find_filter_distinct [OF assms(1)] by (auto split: option.split)

lemma token_uses_filter_kept:
  assumes "distinct (map tk_token (rp_tokens s))" "rp_tokens s' = filter Q (rp_tokens s)"
    "\<And>r. tk_token r = t \<Longrightarrow> Q r"
  shows "token_uses t s' = token_uses t s"
  unfolding token_uses_def assms(2) find_filter_distinct [OF assms(1)]
  using assms(3) find_Some_in by (force split: option.split)

lemma token_uses_cong: "rp_tokens s' = rp_tokens s \<Longrightarrow> token_uses t s' = token_uses t s"
  by (simp add: token_uses_def)

lemma find_map_token:
  "(\<And>x. tk_token (h x) = tk_token x) \<Longrightarrow>
   List.find (\<lambda>r. tk_token r = t) (map h xs) = map_option h (List.find (\<lambda>r. tk_token r = t) xs)"
  by (induction xs) auto

lemma token_uses_consume:
  "token_uses t (snd (consume_token_use b s)) = token_uses t s - (if t = b then 1 else 0)"
proof -
  define h where "h x = (if tk_token x = b \<and> 0 < tk_uses_left x then x\<lparr>tk_uses_left := tk_uses_left x - 1\<rparr> else x)"
    for x :: TokenRow
  have k: "tk_token (h x) = tk_token x" for x by (simp add: h_def)
  have m: "rp_tokens (snd (consume_token_use b s)) = map h (rp_tokens s)"
    unfolding consume_token_use_def h_def by simp
  show ?thesis
  proof (cases "List.find (\<lambda>r. tk_token r = t) (rp_tokens s)")
    case (Some r)
    have "tk_token r = t" using find_Some_in [OF Some] by simp
    then have "nat (tk_uses_left (h r)) = nat (tk_uses_left r) - (if t = b then 1 else 0)"
      by (auto simp: h_def)
    then show ?thesis by (simp add: token_uses_def m find_map_token [OF k] Some)
  qed (simp add: token_uses_def m find_map_token [OF k])
qed

lemma check_token_uses: "check_token now b s = Inr (t, n) \<Longrightarrow> 0 < token_uses b s"
  by (auto simp: check_token_def token_uses_def split: option.splits if_splits)

lemma insert_device_tokens: "insert_device row s = Inr s' \<Longrightarrow> rp_tokens s' = rp_tokens s"
  by (auto simp: insert_device_def split: if_splits)

lemma insert_member_tokens: "insert_member_row row s = Inr s' \<Longrightarrow> rp_tokens s' = rp_tokens s"
  by (auto simp: insert_member_row_def split: if_splits)

lemma insert_membership_tokens: "insert_membership n d r f s = Inr (ip, s') \<Longrightarrow> rp_tokens s' = rp_tokens s"
  by (auto simp: insert_membership_def Let_def insert_member_tokens split: sum.splits)

lemma enroll_uses:
  assumes "enroll_tx hash dev tok now b name spk dpk req s = Inr (r, s')"
  shows "token_uses t s' = token_uses t s - (if t = b then 1 else 0) \<and> 0 < token_uses b s"
  using assms
proof (rule enroll_txE)
  fix tk n a s1 s2
  assume 1: "check_token now b s = Inr (tk, n)"
    and 2: "insert_device (enrolled_row hash dev tok now name spk dpk) s = Inr s1"
      "insert_member_row \<lparr>mb_network_id = tk_network_id tk, mb_device_id = dev, mb_ip = show_ipv4 a\<rparr> s1 = Inr s2"
    and 3: "s' = snd (consume_token_use b s2)"
  show ?thesis
    using check_token_uses [OF 1] insert_device_tokens [OF 2(1)] insert_member_tokens [OF 2(2)]
      token_uses_consume [of t b s2] token_uses_cong [of s2 s t] 3 by simp
qed

lemma insert_membership_grows:
  "insert_membership n d r f s = Inr (ip, s') \<Longrightarrow> rp_memberships s' \<noteq> rp_memberships s"
  by (auto simp: insert_membership_def Let_def insert_member_row_def split: sum.splits if_splits)

lemma join_uses:
  assumes "join_network_tx now dev b req s = Inr (r, s')"
  shows "s' = s \<or> rp_memberships s' \<noteq> rp_memberships s \<and> 0 < token_uses b s
           \<and> token_uses t s' = token_uses t s - (if t = b then 1 else 0)"
proof -
  obtain tk n where c: "check_token now b s = Inr (tk, n)"
    using assms by (auto simp: join_network_tx_def split: sum.splits)
  show ?thesis
  proof (cases "membership_of (tk_network_id tk) dev s")
    case None
    obtain ip s1 where m: "insert_membership n dev req (tk_requested_ip tk) s = Inr (ip, s1)"
      using assms c None by (auto simp: join_network_tx_def split: sum.splits)
    have s': "s' = snd (consume_token_use b s1)"
      using assms c None m by (auto simp: join_network_tx_def case_prod_beta Let_def split: if_splits)
    have "rp_memberships s' = rp_memberships s1" by (simp add: s' consume_token_use_def)
    then show ?thesis
      using insert_membership_grows [OF m] check_token_uses [OF c] token_uses_consume [of t b s1]
        token_uses_cong [OF insert_membership_tokens [OF m], of t]
      by (simp add: s')
  qed (use assms c in \<open>simp add: join_network_tx_def\<close>)
qed

lemma admin_join_tokens: "admin_join_tx dev net req sg s = Inr (r, s') \<Longrightarrow> rp_tokens s' = rp_tokens s"
  by (auto simp: admin_join_tx_def insert_membership_tokens split: sum.splits option.splits if_splits)

lemma with_tx_tokens:
  "(\<And>r s'. f s = Inr (r, s') \<Longrightarrow> rp_tokens s' = rp_tokens s) \<Longrightarrow> rp_tokens (snd (with_tx f s)) = rp_tokens s"
  by (auto simp: with_tx_def split: sum.splits)

lemma member_tokens [simp]:
  "rp_tokens (snd (remove_membership_guarded dev net s)) = rp_tokens s"
  "rp_tokens (snd (set_membership_ip_atomic net dev ip c s)) = rp_tokens s"
  "rp_tokens (snd (admin_join_network dev net req sg s)) = rp_tokens s"
  unfolding remove_membership_guarded_def set_membership_ip_atomic_def admin_join_network_def
  by (rule with_tx_tokens;
      auto simp: remove_membership_tx_def set_ip_tx_def update_ip_row_def Let_def admin_join_tokens
        split: if_splits sum.splits)+

lemma repo_step_uses:
  fixes cd :: Coders
  assumes i: "book_inv s" and n: "\<not> creates_token t op"
  defines "s' \<equiv> snd (repo_step cd s op)"
    and "k \<equiv> (if admits t s op (repo_step cd s op) then 1 else 0)"
  shows "k + token_uses t s' \<le> token_uses t s" and "\<not> removes_token t op \<Longrightarrow> k + token_uses t s' = token_uses t s"
proof -
  have d: "distinct (map tk_token (rp_tokens s))" using i by (simp add: book_inv_def)
  have "k + token_uses t s' \<le> token_uses t s \<and> (removes_token t op \<or> k + token_uses t s' = token_uses t s)"
  proof (cases op)
    case (OpEnroll dv tok now et name spk dpk req)
    let ?f = "enroll_tx (cd_hash cd) dv tok now (fst (split_token et)) name spk dpk req"
    have "s' = snd (with_tx ?f s)" "fst (repo_step cd s op) = (\<not> isl (fst (with_tx ?f s)))"
      unfolding s'_def OpEnroll by (simp_all add: enroll_def Let_def case_prod_beta)
    then show ?thesis
      using enroll_uses [of "cd_hash cd" dv tok now "fst (split_token et)" name spk dpk req s]
      by (cases "?f s") (auto simp: k_def OpEnroll with_tx_def simp del: repo_step.simps split: prod.splits)
  next
    case (OpJoin now dv et req)
    let ?f = "join_network_tx now dv (fst (split_token et)) req"
    have e: "s' = snd (with_tx ?f s)" "fst (repo_step cd s op) = (\<not> isl (fst (with_tx ?f s)))"
      unfolding s'_def OpJoin by (simp_all add: join_network_def Let_def case_prod_beta)
    have k: "k = (if fst (repo_step cd s op) \<and> fst (split_token et) = t \<and> rp_memberships s' \<noteq> rp_memberships s
                  then 1 else 0)"
      unfolding k_def s'_def OpJoin by simp
    show ?thesis
      using join_uses [of now dv "fst (split_token et)" req s _ _ t]
      unfolding k e(2) unfolding e(1) by (cases "?f s") (auto simp: with_tx_def split: prod.splits)
  next
    case (OpCreateToken tok now net u ttl req)
    then have "tok \<noteq> t" using n by simp
    then show ?thesis
      unfolding s'_def k_def
      by (simp add: OpCreateToken case_prod_beta create_token_def Let_def token_uses_def find_append_miss)
  next
    case (OpDeleteToken tok)
    let ?Q = "\<lambda>x. tk_token x \<noteq> fst (split_token tok)"
    have "rp_tokens s' = filter ?Q (rp_tokens s)" "k = 0"
      by (simp_all add: s'_def k_def OpDeleteToken delete_token_def case_prod_beta)
    then show ?thesis
      using token_uses_filter [OF d, of s' ?Q t] token_uses_filter_kept [OF d, of s' ?Q t]
      by (auto simp: OpDeleteToken)
  next
    case (OpDeleteNetwork i)
    then show ?thesis unfolding s'_def k_def
      by (simp add: token_uses_filter [OF d, where Q = "\<lambda>x. tk_network_id x \<noteq> i"] delete_network_def Let_def)
  qed (auto simp: s'_def k_def case_prod_beta Let_def token_uses_def settings_frame create_network_def
      delete_device_def rename_device_def touch_device_def admin_remove_membership_def leave_network_def
      split: option.split sum.split)
  then show "k + token_uses t s' \<le> token_uses t s"
    and "\<not> removes_token t op \<Longrightarrow> k + token_uses t s' = token_uses t s" by auto
qed

text \<open>
  C31 (bounds). An enrolment token with u uses left admits at most u times, counting the
  devices it enrols and the networks it lets enrolled devices join, whatever the
  order of the requests, their other tokens and their failures: what is admitted
  and what is left never exceed u. As long as neither the token nor a network is deleted the
  two add up to u exactly, so a refused request and the join of a device that
  is a member already take no use.
\<close>
theorem token_budget:
  assumes "book_inv s" and "\<forall>op\<in>set ops. \<not> creates_token t op"
  shows "admissions cd t s ops + token_uses t (snd (run (repo_step cd) s ops)) \<le> token_uses t s
    \<and> ((\<forall>op\<in>set ops. \<not> removes_token t op) \<longrightarrow>
       admissions cd t s ops + token_uses t (snd (run (repo_step cd) s ops)) = token_uses t s)"
  using assms
proof (induction ops arbitrary: s)
  case (Cons op ops)
  have "book_inv (snd (repo_step cd s op))"
    using book.step_inv [OF Cons.prems(1), of cd op "fst (repo_step cd s op)"] by simp
  then show ?case
    using Cons.IH [of "snd (repo_step cd s op)"] Cons.prems(2) repo_step_uses [OF Cons.prems(1), of t op cd]
    by (auto simp: case_prod_beta Let_def simp del: repo_step.simps admits.simps split: if_splits)
qed simp

definition demo_coders :: Coders where
  "demo_coders = \<lparr>cd_hash = id, cd_hexenc = (\<lambda>_. []), cd_hexdec = (\<lambda>_. None),
                  cd_json = (\<lambda>_. []), cd_unjson = (\<lambda>_. Some default_settings)\<rparr>"

definition demo_repo :: Repo where
  "demo_repo = snd (run (repo_step demo_coders) repo_empty
     [OpCreateNetwork [1] 0 ''n'' example_cidr, OpCreateToken ''skk'' 0 [1] 1 1000 None])"

theorem token_budget_witness:
  "let ops = [OpEnroll 7 ''t'' 5 ''skk'' ''a'' [] [] None, OpJoin 6 8 ''skk'' None, OpJoin 6 9 ''skk'' None]
   in admissions demo_coders ''skk'' demo_repo ops
      + token_uses ''skk'' (snd (run (repo_step demo_coders) demo_repo ops)) = 1"
proof -
  have u: "token_uses ''skk'' demo_repo = 1"
    by (simp add: demo_repo_def repo_empty_def create_network_def create_token_def get_network_def
        get_network_by_name_def Let_def token_uses_def)
  have i: "book_inv demo_repo"
    unfolding demo_repo_def by (rule book.run_snd_inv [OF book_inv_empty])
  show ?thesis
    unfolding Let_def u [symmetric]
    using token_budget [OF i, of "[OpEnroll 7 ''t'' 5 ''skk'' ''a'' [] [] None, OpJoin 6 8 ''skk'' None,
        OpJoin 6 9 ''skk'' None]" "''skk''" demo_coders]
    by (simp del: run.simps repo_step.simps admissions.simps)
qed

section \<open>The last membership\<close>

definition is_member_somewhere :: "u64 \<Rightarrow> Repo \<Rightarrow> bool" where
  "is_member_somewhere dev s = (0 < device_member_count dev s)"

text \<open>Requests that are not an administrator's deletion of the device or of a network.\<close>

fun no_deletion :: "u64 \<Rightarrow> RepoOp \<Rightarrow> bool" where
  "no_deletion dev (OpDeleteNetwork _) = False"
| "no_deletion dev (OpDeleteDevice d) = (d \<noteq> dev)"
| "no_deletion dev _ = True"

lemma count_append: "device_member_count dev (s\<lparr>rp_memberships := rp_memberships s @ [m]\<rparr>) \<ge> device_member_count dev s"
  by (simp add: device_member_count_def)

lemma count_cong: "rp_memberships s' = rp_memberships s \<Longrightarrow> device_member_count dev s' = device_member_count dev s"
  by (simp add: device_member_count_def)

lemma insert_member_count: "insert_member_row m s = Inr s' \<Longrightarrow> device_member_count dev s \<le> device_member_count dev s'"
  using count_append by (auto simp: insert_member_row_def split: if_splits)

lemma insert_membership_count:
  "insert_membership n d r f s = Inr (ip, s') \<Longrightarrow> device_member_count dev s \<le> device_member_count dev s'"
  by (auto simp: insert_membership_def Let_def insert_member_count split: sum.splits)

lemma enroll_count:
  assumes "enroll_tx hash d tok now b name spk dpk req s = Inr (r, s')"
  shows "device_member_count dev s \<le> device_member_count dev s'"
  using assms
proof (rule enroll_txE)
  fix tk a s1 s2
  assume 2: "insert_device (enrolled_row hash d tok now name spk dpk) s = Inr s1"
      "insert_member_row \<lparr>mb_network_id = tk_network_id tk, mb_device_id = d, mb_ip = show_ipv4 a\<rparr> s1 = Inr s2"
    and 3: "s' = snd (consume_token_use b s2)"
  have "device_member_count dev s1 = device_member_count dev s"
    using 2(1) by (intro count_cong) (auto simp: insert_device_def split: if_splits)
  then show ?thesis using insert_member_count [OF 2(2), of dev] count_cong [of s' s2 dev] 3 by simp
qed

lemma join_count:
  assumes "join_network_tx now d b req s = Inr (r, s')"
  shows "device_member_count dev s \<le> device_member_count dev s'"
  using assms insert_membership_count
  by (fastforce simp: join_network_tx_def case_prod_beta Let_def count_cong [of "snd (consume_token_use b _)"]
      split: sum.splits option.splits if_splits)

lemma admin_join_count:
  assumes "admin_join_tx d net req sg s = Inr (r, s')"
  shows "device_member_count dev s \<le> device_member_count dev s'"
  using assms insert_membership_count
  by (fastforce simp: admin_join_tx_def split: sum.splits option.splits if_splits)

lemma filter_key_le1: "distinct (map f xs) \<Longrightarrow> length (filter (\<lambda>x. f x = k) xs) \<le> 1"
proof (induction xs)
  case (Cons x xs)
  have "filter (\<lambda>y. f y = k) xs = []" if "f x = k"
    unfolding filter_empty_conv using Cons.prems that by (auto simp: image_iff)
  then show ?case using Cons by auto
qed simp

lemma length_filter_split:
  "length (filter D xs) = length (filter (\<lambda>m. D m \<and> P m) xs) + length (filter (\<lambda>m. D m \<and> \<not> P m) xs)"
  by (induction xs) auto

lemma remove_keeps_last:
  assumes i: "book_inv s" and r: "remove_membership_tx d net s = Inr (u, s')" and m: "is_member_somewhere dev s"
  shows "is_member_somewhere dev s'"
proof -
  let ?P = "\<lambda>m. mb_network_id m = net \<and> mb_device_id m = d"
  let ?D = "\<lambda>m. mb_device_id m = dev"
  have s': "rp_memberships s' = filter (\<lambda>m. \<not> ?P m) (rp_memberships s)" and c: "1 < device_member_count d s"
    using r by (auto simp: remove_membership_tx_def Let_def split: if_splits)
  show ?thesis
  proof (cases "d = dev")
    case True
    have "distinct (map (\<lambda>m. (mb_network_id m, mb_device_id m)) (rp_memberships s))"
      using i by (simp add: book_inv_def)
    then have "length (filter ?P (rp_memberships s)) \<le> 1"
      using filter_key_le1 [of "\<lambda>m. (mb_network_id m, mb_device_id m)" "rp_memberships s" "(net, d)"] by simp
    moreover have "length (filter ?D (rp_memberships s)) =
        length (filter (\<lambda>m. ?D m \<and> ?P m) (rp_memberships s)) + length (filter (\<lambda>m. ?D m \<and> \<not> ?P m) (rp_memberships s))"
      by (rule length_filter_split)
    moreover have "length (filter (\<lambda>m. ?D m \<and> ?P m) (rp_memberships s)) = length (filter ?P (rp_memberships s))"
      by (rule arg_cong [where f = length], rule filter_cong) (use True in auto)
    moreover have "1 < length (filter ?D (rp_memberships s))"
      using c unfolding device_member_count_def True .
    ultimately have "0 < length (filter (\<lambda>m. ?D m \<and> \<not> ?P m) (rp_memberships s))" by linarith
    then show ?thesis by (simp add: is_member_somewhere_def device_member_count_def s' conj_commute)
  next
    case False
    then have "filter ?D (rp_memberships s') = filter ?D (rp_memberships s)"
      unfolding s' filter_filter by (intro filter_cong) auto
    then show ?thesis using m by (simp add: is_member_somewhere_def device_member_count_def)
  qed
qed


lemma with_tx_count:
  assumes "\<And>r s'. f s = Inr (r, s') \<Longrightarrow> device_member_count dev s \<le> device_member_count dev s'"
  shows "device_member_count dev s \<le> device_member_count dev (snd (with_tx f s))"
  using assms by (auto simp: with_tx_def split: sum.splits)

lemma set_ip_count: "device_member_count dev (snd (set_membership_ip_atomic net d ip c s)) = device_member_count dev s"
proof -
  have "length (filter (\<lambda>m. mb_device_id m = dev) (map (\<lambda>m. if mb_network_id m = net \<and> mb_device_id m = d
           then m\<lparr>mb_ip := ip\<rparr> else m) ms)) = length (filter (\<lambda>m. mb_device_id m = dev) ms)" for ms
    by (induction ms) auto
  then show ?thesis
    by (auto simp: set_membership_ip_atomic_def with_tx_def set_ip_tx_def update_ip_row_def Let_def
        device_member_count_def split: sum.splits if_splits)
qed

lemma repo_step_member:
  assumes i: "book_inv s" and n: "no_deletion dev op" and m: "is_member_somewhere dev s"
  shows "is_member_somewhere dev (snd (repo_step cd s op))"
proof -
  have mono: "device_member_count dev s \<le> device_member_count dev s' \<Longrightarrow> is_member_somewhere dev s'" for s'
    using m by (simp add: is_member_somewhere_def)
  have rm: "is_member_somewhere dev (snd (remove_membership_guarded d net s))" for d net
    using remove_keeps_last [OF i _ m] m by (auto simp: remove_membership_guarded_def with_tx_def split: sum.splits)
  have keep: "is_member_somewhere dev s'" if "rp_memberships s' = rp_memberships s" for s'
    using count_cong [OF that] mono by simp
  show ?thesis
  proof (cases op)
    case (OpEnroll dv tok now et name spk dpk req)
    show ?thesis
      unfolding OpEnroll repo_step.simps enroll_def Let_def case_prod_beta snd_conv
      by (rule mono) (rule with_tx_count, rule enroll_count)
  next
    case (OpJoin now dv et req)
    show ?thesis
      unfolding OpJoin repo_step.simps join_network_def Let_def case_prod_beta snd_conv
      by (rule mono) (rule with_tx_count, rule join_count)
  next
    case (OpAdminJoin dv net req sg)
    show ?thesis
      unfolding OpAdminJoin repo_step.simps admin_join_network_def Let_def case_prod_beta snd_conv
      by (rule mono) (rule with_tx_count, rule admin_join_count)
  next
    case (OpSetIp net d ip)
    then show ?thesis using mono [of "snd (set_membership_ip_atomic net d ip _ s)"] set_ip_count m
      by (simp add: case_prod_beta Let_def split: option.split sum.split)
  next
    case (OpAdminRemove d net)
    then show ?thesis using rm
      by (simp add: admin_remove_membership_def case_prod_beta Let_def split: option.split sum.split)
  next
    case (OpLeave d name)
    then show ?thesis using rm m
      by (simp add: leave_network_def case_prod_beta Let_def split: option.split sum.split)
  next
    case (OpDeleteDevice d)
    then have "filter (\<lambda>m. mb_device_id m = dev \<and> mb_device_id m \<noteq> d) (rp_memberships s)
        = filter (\<lambda>m. mb_device_id m = dev) (rp_memberships s)"
      using n by (intro filter_cong) auto
    then show ?thesis using m OpDeleteDevice
      by (simp add: delete_device_def Let_def is_member_somewhere_def device_member_count_def conj_commute)
  qed (use n in \<open>auto intro!: keep simp: settings_frame create_network_def create_token_def delete_token_def
      rename_device_def touch_device_def Let_def case_prod_beta\<close>)
qed

text \<open>
  A device that belongs to a network keeps belonging to one, through any sequence
  of requests other than an administrator's deletion of the device or of a network:
  neither leaving nor being removed can take the last membership.
\<close>
theorem last_membership_kept:
  assumes "book_inv s" and "\<forall>op\<in>set ops. no_deletion dev op" and "is_member_somewhere dev s"
  shows "is_member_somewhere dev (snd (run (repo_step cd) s ops))"
  using assms
proof (induction ops arbitrary: s)
  case (Cons op ops)
  have "book_inv (snd (repo_step cd s op))"
    using book.step_inv [OF Cons.prems(1), of cd op "fst (repo_step cd s op)"] by simp
  then show ?case using Cons repo_step_member [OF Cons.prems(1) _ Cons.prems(3), of op cd]
    by (simp add: case_prod_beta Let_def)
qed simp

theorem last_membership_kept_witness:
  "is_member_somewhere 7 (snd (run (repo_step demo_coders)
     (snd (run (repo_step demo_coders) demo_repo [OpEnroll 7 ''t'' 5 ''skk'' ''a'' [] [] (Some (show_ipv4 0x0A0A0002))]))
     [OpAdminRemove 7 [1], OpLeave 7 ''n'']))"
proof (rule last_membership_kept)
  have i: "book_inv demo_repo" unfolding demo_repo_def by (rule book.run_snd_inv [OF book_inv_empty])
  show "book_inv (snd (run (repo_step demo_coders) demo_repo [OpEnroll 7 ''t'' 5 ''skk'' ''a'' [] [] (Some (show_ipv4 0x0A0A0002))]))"
    by (rule book.run_snd_inv [OF i])
  have c: "cidr_parse (cidr_display example_cidr) = Inr example_cidr"
    by (rule cidr_parse_display_aux [OF wf_example_cidr])
  have v: "validate_manual (show_ipv4 0x0A0A0002) example_cidr {} None = Inr 0x0A0A0002"
    by (simp add: validate_manual_def parse_show_ipv4 cidr_contains_def example_cidr_def netmask_def mask_of_def
        broadcast_def mask_eq_exp_minus_1)
  have "split_token ''skk'' = (''skk'', None)" by code_simp
  then show "is_member_somewhere 7 (snd (run (repo_step demo_coders) demo_repo [OpEnroll 7 ''t'' 5 ''skk'' ''a'' [] [] (Some (show_ipv4 0x0A0A0002))]))"
    by (simp add: demo_repo_def repo_empty_def create_network_def create_token_def get_network_def
        get_network_by_name_def Let_def is_member_somewhere_def device_member_count_def enroll_def with_tx_def
        enroll_tx_def check_token_def choose_ip_def c opt_or_def used_ips_def map_filter_def v
        insert_device_def get_device_def insert_member_row_def membership_of_def consume_token_use_def)
qed simp

section \<open>Roll-back of device settings\<close>

lemma run_snoc: "snd (run step s (xs @ [x])) = snd (step (snd (run step s xs)) x)"
  by (simp add: run_append case_prod_beta Let_def)

lemma with_tx_settings:
  "(\<And>r s'. f s = Inr (r, s') \<Longrightarrow> rp_device_settings s' = rp_device_settings s) \<Longrightarrow>
   rp_device_settings (snd (with_tx f s)) = rp_device_settings s"
  by (auto simp: with_tx_def split: sum.splits)

lemma insert_settings:
  "insert_device d s = Inr s' \<Longrightarrow> rp_device_settings s' = rp_device_settings s"
  "insert_member_row m s = Inr s' \<Longrightarrow> rp_device_settings s' = rp_device_settings s"
  "insert_membership n dv r f s = Inr (ip, s') \<Longrightarrow> rp_device_settings s' = rp_device_settings s"
  "rp_device_settings (snd (consume_token_use b s)) = rp_device_settings s"
  by (auto simp: insert_device_def insert_member_row_def insert_membership_def consume_token_use_def Let_def
      split: if_splits sum.splits)

lemma enroll_settings:
  assumes "enroll_tx hash d tok now b name spk dpk req s = Inr (r, s')"
  shows "rp_device_settings s' = rp_device_settings s"
  using assms by (rule enroll_txE) (simp add: insert_settings)

lemma member_settings:
  "rp_device_settings (snd (enroll hash d tok now et name spk dpk req s)) = rp_device_settings s"
  "rp_device_settings (snd (join_network now d et req s)) = rp_device_settings s"
  "rp_device_settings (snd (admin_join_network d net req sg s)) = rp_device_settings s"
  "rp_device_settings (snd (set_membership_ip_atomic net d ip c s)) = rp_device_settings s"
  "rp_device_settings (snd (remove_membership_guarded d net s)) = rp_device_settings s"
  unfolding enroll_def join_network_def admin_join_network_def set_membership_ip_atomic_def
    remove_membership_guarded_def Let_def case_prod_beta
  by (rule with_tx_settings;
      auto simp: enroll_settings join_network_tx_def admin_join_tx_def set_ip_tx_def update_ip_row_def
        remove_membership_tx_def Let_def case_prod_beta insert_settings
        split: sum.splits option.splits if_splits)+

lemma no_settings_op:
  assumes "\<And>now d u. op \<noteq> OpSetSettings now d u" "\<And>d r. op \<noteq> OpApplied d r" "\<And>now d r e. op \<noteq> OpFail now d r e"
  shows "rp_device_settings (snd (repo_step cd s op)) = rp_device_settings s"
  using assms
  by (cases op)
     (auto simp: case_prod_beta Let_def member_settings create_network_def delete_network_def create_token_def
      delete_token_def delete_device_def rename_device_def touch_device_def admin_remove_membership_def
      leave_network_def split: option.splits sum.splits)

definition last_good :: "u64 \<Rightarrow> Repo \<Rightarrow> string option" where
  "last_good dev s = (case tget (rp_device_settings s) dev of None \<Rightarrow> None | Some row \<Rightarrow> sr_last_good_json row)"

lemma last_good_step:
  assumes "\<And>r row. op = OpApplied dev r \<Longrightarrow> tget (rp_device_settings s) dev = Some row \<Longrightarrow>
     \<not> (0 < sr_revision row \<and> sr_revision row \<le> r)"
  shows "last_good dev (snd (repo_step cd s op)) = last_good dev s"
proof (cases op)
  case (OpSetSettings now d u)
  then show ?thesis
    by (auto simp: last_good_def set_device_settings_def Let_def table_simps split: option.splits)
next
  case (OpApplied d r)
  then show ?thesis
    using assms by (auto simp: last_good_def mark_settings_applied_def table_simps split: option.splits)
next
  case (OpFail now d r e)
  then show ?thesis
    by (auto simp: last_good_def report_settings_fail_def report_fail_tx_def with_tx_def Let_def table_simps
        case_prod_beta split: option.splits)
qed (use no_settings_op [of op cd s] in \<open>auto simp: last_good_def\<close>)

text \<open>
  An acknowledgement: the device reports that a revision at least as new as that of
  the stored content j is in effect.
\<close>

definition acknowledges :: "Coders \<Rightarrow> RepoOp list \<Rightarrow> u64 \<Rightarrow> RepoOp \<Rightarrow> string \<Rightarrow> bool" where
  "acknowledges cd pre dev op j =
     (\<exists>r row. op = OpApplied dev r \<and> tget (rp_device_settings (snd (run (repo_step cd) repo_empty pre))) dev = Some row
        \<and> sr_json row = j \<and> 0 < sr_revision row \<and> sr_revision row \<le> r)"

text \<open>The content the device acknowledged last in a sequence of requests is j; it acknowledged none.\<close>

definition last_acknowledged :: "Coders \<Rightarrow> RepoOp list \<Rightarrow> u64 \<Rightarrow> string \<Rightarrow> bool" where
  "last_acknowledged cd ops dev j =
     (\<exists>pre op post. ops = pre @ op # post \<and> acknowledges cd pre dev op j
        \<and> (\<forall>mid op' post' j'. post = mid @ op' # post' \<longrightarrow> \<not> acknowledges cd (pre @ op # mid) dev op' j'))"

definition never_acknowledged :: "Coders \<Rightarrow> RepoOp list \<Rightarrow> u64 \<Rightarrow> bool" where
  "never_acknowledged cd ops dev = (\<forall>pre op post j. ops = pre @ op # post \<longrightarrow> \<not> acknowledges cd pre dev op j)"

lemma last_acknowledged_snoc:
  "last_acknowledged cd ops dev j \<Longrightarrow> \<forall>j'. \<not> acknowledges cd ops dev op j' \<Longrightarrow> last_acknowledged cd (ops @ [op]) dev j"
  "acknowledges cd ops dev op j \<Longrightarrow> last_acknowledged cd (ops @ [op]) dev j"
  unfolding last_acknowledged_def
  subgoal
    apply (elim exE conjE)
    subgoal for pre a post
      by (rule exI [of _ pre], rule exI [of _ a], rule exI [of _ "post @ [op]"])
         (auto simp: append_eq_append_conv2 append_eq_Cons_conv Cons_eq_append_conv)
    done
  by (rule exI [of _ ops]) auto

lemma never_acknowledged_snoc:
  "never_acknowledged cd ops dev \<Longrightarrow> \<forall>j. \<not> acknowledges cd ops dev op j \<Longrightarrow> never_acknowledged cd (ops @ [op]) dev"
  by (auto simp: never_acknowledged_def append_eq_append_conv2 append_eq_Cons_conv Cons_eq_append_conv)

text \<open>The content kept for a roll-back is the one the device acknowledged last.\<close>

lemma last_good_exact:
  "case last_good dev (snd (run (repo_step cd) repo_empty ops)) of
     None \<Rightarrow> never_acknowledged cd ops dev | Some j \<Rightarrow> last_acknowledged cd ops dev j"
proof (induction ops rule: rev_induct)
  case Nil
  show ?case by (simp add: last_good_def repo_empty_def never_acknowledged_def)
next
  case (snoc op ops)
  let ?s = "snd (run (repo_step cd) repo_empty ops)"
  show ?case
  proof (cases "\<exists>j. acknowledges cd ops dev op j")
    case True
    then obtain j r row where a: "acknowledges cd ops dev op j" "op = OpApplied dev r" "sr_json row = j"
        "tget (rp_device_settings ?s) dev = Some row" "0 < sr_revision row" "sr_revision row \<le> r"
      unfolding acknowledges_def by blast
    then show ?thesis
      using last_acknowledged_snoc(2) [OF a(1)]
      by (simp add: last_good_def run_snoc mark_settings_applied_def table_simps del: run.simps)
  next
    case False
    then have "last_good dev (snd (repo_step cd ?s op)) = last_good dev ?s"
      by (intro last_good_step) (auto simp: acknowledges_def)
    then show ?thesis
      using snoc.IH last_acknowledged_snoc(1) [where op = op] never_acknowledged_snoc [where op = op] False
      by (auto simp: run_snoc simp del: run.simps repo_step.simps split: option.splits)
  qed
qed

text \<open>
  C32 (safety). After any sequence of requests, a device that reports that it cannot start with the
  current revision is rolled back to the content it acknowledged last: at an earlier
  moment that was the current content, and this very device reported a revision at least as
  new as its own. Only a device that never acknowledged any content gets the default
  settings. The content comes with a new revision, the failed one
  is recorded, and no other device's row changes. A report of any other revision
  changes nothing.
\<close>
theorem rollback_target_acknowledged:
  assumes "s = snd (run (repo_step cd) repo_empty ops)" and "tget (rp_device_settings s) dev = Some row"
    and "report_settings_fail (cd_json cd) (cd_unjson cd) now dev failed error s = (answer, s')"
  shows "if failed = sr_revision row
     then (\<exists>row'. tget (rp_device_settings s') dev = Some row'
            \<and> (last_acknowledged cd ops dev (sr_json row')
               \<or> never_acknowledged cd ops dev \<and> sr_json row' = cd_json cd default_settings)
            \<and> sr_revision row' = sr_revision row + 1 \<and> sr_failed_revision row' = Some failed
            \<and> (\<forall>d. d \<noteq> dev \<longrightarrow> tget (rp_device_settings s') d = tget (rp_device_settings s) d)
            \<and> answer = (case cd_unjson cd (sr_json row') of
                          None \<Rightarrow> Inl (Conflict RollbackJsonInvalid)
                        | Some d \<Rightarrow> Inr (Some (d\<lparr>ds_revision := sr_revision row + 1\<rparr>))))
     else answer = Inr None \<and> s' = s"
  using last_good_exact [where dev = dev and cd = cd and ops = ops, folded assms(1)] assms(2,3)
  by (auto simp: last_good_def report_settings_fail_def report_fail_tx_def with_tx_def Let_def table_simps
      split: option.splits if_splits)

definition demo_settings_ops :: "RepoOp list" where
  "demo_settings_ops = [OpSetSettings 1 7 default_settings, OpApplied 7 1,
                        OpSetSettings 2 7 (default_settings\<lparr>ds_mtu := Some 1400\<rparr>)]"

theorem rollback_target_acknowledged_witness:
  "let cd = demo_coders\<lparr>cd_json := (\<lambda>d. if ds_mtu d = None then ''a'' else ''b'')\<rparr>;
       s' = snd (report_settings_fail (cd_json cd) (cd_unjson cd) 3 7 2 ''e''
                  (snd (run (repo_step cd) repo_empty demo_settings_ops)))
   in \<exists>row'. tget (rp_device_settings s') 7 = Some row' \<and> sr_json row' = ''a'' \<and> sr_revision row' = 3
        \<and> (last_acknowledged cd demo_settings_ops 7 (sr_json row')
           \<or> never_acknowledged cd demo_settings_ops 7 \<and> sr_json row' = cd_json cd default_settings)"
proof -
  define cd where "cd = demo_coders\<lparr>cd_json := (\<lambda>d. if ds_mtu d = None then ''a'' else ''b'')\<rparr>"
  define s where "s = snd (run (repo_step cd) repo_empty demo_settings_ops)"
  define row where "row = \<lparr>sr_revision = 2, sr_json = ''b'', sr_updated_at = 2, sr_last_good_json = Some ''a'',
                           sr_last_error = None, sr_failed_revision = None\<rparr>"
  obtain answer s' where f: "report_settings_fail (cd_json cd) (cd_unjson cd) 3 7 2 ''e'' s = (answer, s')"
    by fastforce
  have row: "tget (rp_device_settings s) 7 = Some row"
    by (simp add: s_def row_def cd_def demo_settings_ops_def repo_empty_def set_device_settings_def
        mark_settings_applied_def Let_def demo_coders_def default_settings_def)
  have "snd (report_settings_fail (cd_json cd) (cd_unjson cd) 3 7 2 ''e'' s) = s'" by (simp add: f)
  moreover have "map_option sr_json (tget (rp_device_settings s') 7) = Some ''a''"
    using f row by (auto simp: row_def report_settings_fail_def report_fail_tx_def with_tx_def Let_def table_simps
        split: option.splits)
  ultimately show ?thesis
    using rollback_target_acknowledged [OF s_def row f]
    by (auto simp: Let_def row_def cd_def [symmetric] s_def [symmetric])
qed

end
