(* ===== verification/App.thy ===== *)
theory App
  imports RepoProps EventsHub UdpRelay TcpRelay
begin

text \<open>
  crates/skiff-server/src/app.rs: the state of the HTTP server, the throttle of failed
  authentications, the authentication of devices and administrators, and the handlers
  the nodes call. A handler is a function of the parsed request and the state that
  returns the response and the new state; it runs to completion and reads the clock
  once. JSON bodies and query parameters are given as what serde made of them (None
  for a body it refuses), SHA-256 and hex as the coders of the repository.
  The listeners are IPv4 (0.0.0.0).
\<close>

section \<open>Requests and responses\<close>

record EnrollRequest =
  eq_token :: string
  eq_name :: string
  eq_sign_pubkey :: string
  eq_dh_pubkey :: string
  eq_requested_ip :: "string option"
  eq_proto_version :: "u32 option"

record EnrollResponse =
  es_device_id :: u64
  es_device_token :: string
  es_network_id :: NetId
  es_network_name :: string
  es_cidr :: string
  es_ip :: string
  es_mtu :: u32

record JoinRequest =
  jq_token :: string
  jq_requested_ip :: "string option"
  jq_proto_version :: "u32 option"

record JoinResponse =
  js_network_id :: NetId
  js_network_name :: string
  js_cidr :: string
  js_ip :: string

record SummaryResponse =
  sm_networks :: nat
  sm_devices :: nat
  sm_online :: nat
  sm_relay_udp_port :: u16
  sm_relay_tcp_port :: u16

record AdminNetwork =
  an_id :: NetId
  an_name :: string
  an_cidr :: string
  an_created_at :: int
  an_device_count :: nat

record AdminToken =
  at_token :: string
  at_network_id :: NetId
  at_network_name :: string
  at_uses_left :: int
  at_expires_at :: int
  at_requested_ip :: "string option"

record AdminDeviceMembership =
  am_network_id :: NetId
  am_network_name :: string
  am_ip :: string

record AdminDevice =
  ad_id :: string
  ad_name :: string
  ad_created_at :: int
  ad_last_seen :: int
  ad_online :: bool
  ad_networks :: "AdminDeviceMembership list"
  ad_paths :: "PeerPathReport list option"
  ad_settings_revision :: "int option"
  ad_applied_revision :: "int option"
  ad_restart_pending :: "bool option"
  ad_settings_error :: "string option"
  ad_settings_error_revision :: "int option"
  ad_node_version :: "string option"

text \<open>The error texts, one constructor per message.\<close>

datatype AppError =
    TooManyAuthFailures
  | ProtocolMismatch u32
  | DeviceNameLength
  | KeyNotHex32 string
  | NotEnrolled
  | InvalidBody
  | RevisionErrorMissing
  | AdminAuthFailed
  | BadDeviceId
  | BadNetworkId
  | DeviceMissing
  | AppNetworkMissing
  | AppTokenMissing
  | SettingsRejected SettingsError
  | TunManyNetworks nat
  | PeerIdInvalid string
  | PeerDeviceMissing string
  | EventConnsFull
  | BadNetworkName
  | PrefixTooLong
  | AppBadCidr CidrError
  | NetworkExists
  | UsesOutOfRange
  | HoursOutOfRange
  | BadRequestedIp
  | DeviceNotInNetwork
  | AssetMissing
  | RepoFailed RepoError

datatype Body =
    NoBody
  | ErrorBody AppError
  | OkText
  | OkJson
  | EnrollBody EnrollResponse
  | ConfigBody ConfigResponse
  | PeersBody "PeerInfo list"
  | HeartbeatBody HeartbeatResponse
  | SettingsBody DeviceSettings
  | RolledBackBody "int option"
  | MembershipsBody "MembershipInfo list"
  | JoinBody JoinResponse
  | SummaryBody SummaryResponse
  | NetworksBody "AdminNetwork list"
  | NetworkBody AdminNetwork
  | TokensBody "AdminToken list"
  | TokenBody AdminToken
  | DevicesBody "AdminDevice list"
  | NewTokenBody string
  | AssetBody bytes string string string

record Response =
  rs_status :: nat
  rs_body :: Body

definition resp :: "nat \<Rightarrow> Body \<Rightarrow> Response" where
  "resp status body = \<lparr>rs_status = status, rs_body = body\<rparr>"

definition err :: "nat \<Rightarrow> AppError \<Rightarrow> Response" where
  "err status msg = resp status (ErrorBody msg)"

definition ok_json :: "Body \<Rightarrow> Response" where
  "ok_json body = resp 200 body"

definition is_success :: "Response \<Rightarrow> bool" where
  "is_success r = (200 \<le> rs_status r \<and> rs_status r < 300)"

text \<open>What the handlers read of a request: two headers, the raw query, two query parameters.\<close>

record Req =
  rq_authorization :: "string option"
  rq_admin_token :: "string option"
  rq_query :: "string option"
  rq_network :: "string option"
  rq_token :: "string option"

section \<open>State\<close>

text \<open>
  The presence store and the register guard are shared by reference: the server and the
  two relays use ap\_presence and ap\_register\_guard. A realtime socket: its upgrade is pending, or its task runs with its channel, the time
  of the last inbound message and the number of hub messages it has taken. Sockets are
  numbered in the order of their upgrades, the next one being ap\_next\_ws.
\<close>

datatype WsSocket =
    WsPending u64 NetId
  | WsLive u64 NetId channel millis nat

record AppState =
  ap_repo :: Repo
  ap_presence :: PresenceStore
  ap_hub :: EventsHub
  ap_udp_relay :: UdpRelay
  ap_tcp_relay :: TcpRelay
  ap_register_guard :: RegisterGuard
  ap_admin_token :: string
  ap_relay_udp_port :: u16
  ap_relay_tcp_port :: u16
  ap_cert_fingerprint :: "string option"
  ap_last_admin_observe_ms :: millis
  ap_auth_failures :: "(u32, millis \<times> u32) table"
  ap_banned_until_ms :: "(u32, millis) table"
  ap_ws_conns :: u64
  ap_observer_misses :: u32
  ap_ws :: "(nat, WsSocket) table"
  ap_next_ws :: nat

section \<open>Throttle of failed authentications\<close>

definition WINDOW_MS :: millis where "WINDOW_MS = 60000"
definition MAX_FAILS :: u32 where "MAX_FAILS = 10"
definition BAN_MS :: millis where "BAN_MS = 15 * 60000"

text \<open>
  auth\_throttle: the handler runs between the test of the ban and the accounting of its
  answer.
\<close>

definition is_banned :: "millis \<Rightarrow> u32 \<Rightarrow> AppState \<Rightarrow> bool" where
  "is_banned now ip s =
     (case tget (ap_banned_until_ms s) ip of Some until \<Rightarrow> now < until | None \<Rightarrow> False)"

definition count_answer :: "millis \<Rightarrow> u32 \<Rightarrow> Response \<Rightarrow> AppState \<Rightarrow> Response \<times> AppState" where
  "count_answer now ip r s =
     (if rs_status r = 401 then
        (let (start, n) = (case tget (ap_auth_failures s) ip of None \<Rightarrow> (now, 0) | Some e \<Rightarrow> e) in
         if WINDOW_MS < now - start
         then (r, s\<lparr>ap_auth_failures := tput ip (now, 1) (ap_auth_failures s)\<rparr>)
         else
           (let n = n + 1 in
            if MAX_FAILS \<le> n
            then (err 429 TooManyAuthFailures,
                  s\<lparr>ap_banned_until_ms := tput ip (now + BAN_MS) (ap_banned_until_ms s),
                    ap_auth_failures := tdel ip (ap_auth_failures s)\<rparr>)
            else (r, s\<lparr>ap_auth_failures := tput ip (start, n) (ap_auth_failures s)\<rparr>)))
      else if is_success r then (r, s\<lparr>ap_auth_failures := tdel ip (ap_auth_failures s)\<rparr>)
      else (r, s))"

definition auth_throttle ::
  "millis \<Rightarrow> u32 \<Rightarrow> (AppState \<Rightarrow> Response \<times> AppState) \<Rightarrow> AppState \<Rightarrow> Response \<times> AppState" where
  "auth_throttle now ip handler s =
     (if is_banned now ip s then (err 429 TooManyAuthFailures, s)
      else (let (r, s) = handler s in count_answer now ip r s))"

section \<open>Authentication\<close>

text \<open>from\_str\_radix(h, 16) for u8 on two bytes; a leading plus sign is accepted.\<close>

definition hex_pair :: "u8 \<Rightarrow> u8 \<Rightarrow> u8 option" where
  "hex_pair a b =
     (let hv = (\<lambda>x. hex_val (char_of (unat (x :: u8)))) in
      if a = 0x2B then map_option of_nat (hv b)
      else (case (hv a, hv b) of (Some x, Some y) \<Rightarrow> Some (of_nat (16 * x + y)) | _ \<Rightarrow> None))"

fun urldecode_bytes :: "bytes \<Rightarrow> bytes" where
  "urldecode_bytes [] = []"
| "urldecode_bytes (b # rest) =
     (if b = 0x25 then
        (case rest of
           h1 # h2 # rest' \<Rightarrow>
             (case hex_pair h1 h2 of
                Some v \<Rightarrow> v # urldecode_bytes rest'
              | None \<Rightarrow> 0x25 # urldecode_bytes rest)
         | _ \<Rightarrow> 0x25 # urldecode_bytes rest)
      else if b = 0x2B then 0x20 # urldecode_bytes rest
      else b # urldecode_bytes rest)"

definition urldecode :: "string \<Rightarrow> string" where
  "urldecode s = from_utf8_lossy (urldecode_bytes (as_bytes s))"

definition bearer_of :: "string \<Rightarrow> string option" where
  "bearer_of auth =
     (case strip_prefix ''Bearer '' auth of
        Some b \<Rightarrow> Some b | None \<Rightarrow> strip_prefix ''bearer '' auth)"

definition query_token :: "string \<Rightarrow> string option" where
  "query_token query =
     map_option (\<lambda>pair. urldecode (drop (length ''token='') pair))
       (List.find (\<lambda>pair. strip_prefix ''token='' pair \<noteq> None) (split_on CHR ''&'' query))"

definition extract_token :: "Req \<Rightarrow> string option" where
  "extract_token req =
     (case Option.bind (rq_authorization req) bearer_of of
        Some bearer \<Rightarrow> Some (str_trim bearer)
      | None \<Rightarrow> Option.bind (rq_query req) query_token)"

definition ct_str_eq :: "string \<Rightarrow> string \<Rightarrow> bool" where
  "ct_str_eq a b =
     (let a = as_bytes a; b = as_bytes b in
      if length a \<noteq> length b then False
      else fold (\<lambda>(x, y) diff. diff OR (x XOR y)) (zip a b) 0 = 0)"

definition auth_device :: "Coders \<Rightarrow> Req \<Rightarrow> AppState \<Rightarrow> DeviceRow option" where
  "auth_device cd req s =
     Option.bind (extract_token req) (\<lambda>token. find_device_by_token_hash (cd_hash cd token) (ap_repo s))"

definition auth_admin :: "Req \<Rightarrow> AppState \<Rightarrow> bool" where
  "auth_admin req s =
     (case rq_admin_token req of
        None \<Rightarrow> False
      | Some provided \<Rightarrow> (let (bare, _) = split_token provided in ct_str_eq bare (ap_admin_token s)))"

text \<open>proto\_version\_reject and the answer it gives.\<close>

definition proto_version_reject :: "u32 option \<Rightarrow> Response option" where
  "proto_version_reject v =
     (case v of
        None \<Rightarrow> None
      | Some v \<Rightarrow> if v = PROTOCOL_VERSION then None else Some (err 426 (ProtocolMismatch v)))"

definition resolve_network :: "Coders \<Rightarrow> DeviceRow \<Rightarrow> string option \<Rightarrow> AppState \<Rightarrow> NetworkRow option" where
  "resolve_network cd device network_param s =
     (let ms = memberships_of_device (dr_id device) (ap_repo s);
          pick = (case network_param of
                    Some n \<Rightarrow>
                      List.find (\<lambda>m. cd_hexenc cd (mb_network_id m) = n
                        \<or> (case get_network (mb_network_id m) (ap_repo s) of
                             Some nw \<Rightarrow> eq_ignore_ascii_case (nr_name nw) n | None \<Rightarrow> False)) ms
                  | None \<Rightarrow> (case ms of [] \<Rightarrow> None | m # _ \<Rightarrow> Some m))
      in Option.bind pick (\<lambda>m. get_network (mb_network_id m) (ap_repo s)))"

end
