(* ===== verification/AppNode.thy ===== *)
theory AppNode
  imports App
begin

text \<open>
  The handlers of app.rs that nodes call, and the task of a realtime socket.
\<close>

section \<open>Shared steps\<close>

definition mk_event :: "string \<Rightarrow> NetId option \<Rightarrow> u64 option \<Rightarrow> string option \<Rightarrow> WsEvent" where
  "mk_event ty net dev msg =
     \<lparr>ev_type = ty, ev_network_id = net, ev_device_id = dev, ev_message = msg\<rparr>"

definition on_hub :: "(EventsHub \<Rightarrow> EventsHub) \<Rightarrow> AppState \<Rightarrow> AppState" where
  "on_hub f s = s\<lparr>ap_hub := f (ap_hub s)\<rparr>"

text \<open>The answer to a repository error: status for Conflict, 500 for the rest.\<close>

definition repo_err :: "nat \<Rightarrow> RepoError \<Rightarrow> Response" where
  "repo_err conflict_status e =
     (case e of Conflict _ \<Rightarrow> err conflict_status (RepoFailed e) | Sqlite \<Rightarrow> err 500 (RepoFailed e))"

text \<open>The two broadcasts that announce that a device left a network.\<close>

definition announce_left :: "NetId \<Rightarrow> u64 option \<Rightarrow> EventsHub \<Rightarrow> EventsHub" where
  "announce_left net dev hub =
     fold (\<lambda>ty. broadcast_network net (mk_event ty (Some net) dev None))
       [PEERS_CHANGED, DEVICE_OFFLINE] hub"

section \<open>Enrolment\<close>

definition bad_key :: "Coders \<Rightarrow> string \<Rightarrow> bool" where
  "bad_key cd key = (case cd_hexdec cd key of Some b \<Rightarrow> length b \<noteq> 32 | None \<Rightarrow> True)"

definition enroll_check :: "Coders \<Rightarrow> EnrollRequest \<Rightarrow> Response option" where
  "enroll_check cd req =
     (case proto_version_reject (eq_proto_version req) of
        Some rej \<Rightarrow> Some rej
      | None \<Rightarrow>
          if str_trim (eq_name req) = [] \<or> 64 < char_count (eq_name req)
          then Some (err 400 DeviceNameLength)
          else if bad_key cd (eq_sign_pubkey req) then Some (err 400 (KeyNotHex32 ''signPubkey''))
          else if bad_key cd (eq_dh_pubkey req) then Some (err 400 (KeyNotHex32 ''dhPubkey''))
          else None)"

definition api_enroll ::
  "Coders \<Rightarrow> u64 \<Rightarrow> string \<Rightarrow> millis \<Rightarrow> EnrollRequest \<Rightarrow> AppState \<Rightarrow> Response \<times> AppState" where
  "api_enroll cd fresh_id fresh_token now req s =
     (case enroll_check cd req of
        Some r \<Rightarrow> (r, s)
      | None \<Rightarrow>
          (let (res, repo) = enroll (cd_hash cd) fresh_id fresh_token now (eq_token req)
                               (str_trim (eq_name req)) (eq_sign_pubkey req) (eq_dh_pubkey req)
                               (eq_requested_ip req) (ap_repo s);
               s = s\<lparr>ap_repo := repo\<rparr> in
           case res of
             Inl e \<Rightarrow> (repo_err 400 e, s)
           | Inr r \<Rightarrow>
               (let net = enr_network r in
                (ok_json (EnrollBody
                   \<lparr>es_device_id = enr_device_id r, es_device_token = enr_device_token r,
                    es_network_id = nr_id net, es_network_name = nr_name net, es_cidr = nr_cidr net,
                    es_ip = enr_ip r, es_mtu = DEFAULT_MTU\<rparr>),
                 on_hub (broadcast_network (nr_id net)
                   (mk_event PEERS_CHANGED (Some (nr_id net)) (Some (enr_device_id r)) None)) s))))"

section \<open>Configuration and peers\<close>

definition api_get_config :: "Coders \<Rightarrow> Req \<Rightarrow> AppState \<Rightarrow> Response" where
  "api_get_config cd req s =
     (case auth_device cd req s of
        None \<Rightarrow> resp 401 NoBody
      | Some device \<Rightarrow>
          (case resolve_network cd device (rq_network req) s of
             None \<Rightarrow> err 404 NotEnrolled
           | Some net \<Rightarrow>
               (case membership_of (nr_id net) (dr_id device) (ap_repo s) of
                  None \<Rightarrow> err 404 NotEnrolled
                | Some m \<Rightarrow>
                    ok_json (ConfigBody
                      \<lparr>cr_device_id = dr_id device, cr_name = dr_name device,
                       cr_network_id = nr_id net, cr_network_name = nr_name net,
                       cr_cidr = nr_cidr net, cr_ip = mb_ip m, cr_mtu = DEFAULT_MTU,
                       cr_relay_udp_port = ap_relay_udp_port s,
                       cr_relay_tcp_port = ap_relay_tcp_port s\<rparr>))))"

text \<open>The endpoints of a peer: the one the relay observed first, then its own addresses.\<close>

definition announced_endpoints :: "PresenceRecord option \<Rightarrow> string list" where
  "announced_endpoints rec =
     (case Option.bind rec px_observed_udp_endpoint of Some observed \<Rightarrow> [observed] | None \<Rightarrow> [])
     @ (case rec of
          None \<Rightarrow> []
        | Some r \<Rightarrow>
            (case px_udp_port r of
               None \<Rightarrow> []
             | Some port \<Rightarrow> map (\<lambda>addr. addr @ '':'' @ dec_of_nat (unat port)) (px_local_addrs r)))"

definition peer_info :: "millis \<Rightarrow> u64 \<Rightarrow> NetId \<Rightarrow> AppState \<Rightarrow> MembershipRow \<Rightarrow> PeerInfo option" where
  "peer_info now self net s m =
     (if mb_device_id m = self then None
      else
        (case get_device (mb_device_id m) (ap_repo s) of
           None \<Rightarrow> None
         | Some d \<Rightarrow>
             (let rec = presence_record (mb_device_id m) (ap_presence s) in
              Some \<lparr>pi_device_id = dr_id d, pi_name = dr_name d, pi_network_id = net, pi_ip = mb_ip m,
                    pi_sign_pubkey = dr_pubkey_sign d, pi_dh_pubkey = dr_pubkey_dh d,
                    pi_udp_endpoints = announced_endpoints rec,
                    pi_tcp_listen_port = Option.bind rec px_tcp_port,
                    pi_online = presence_is_online now (dr_id d) (ap_presence s)\<rparr>)))"

definition api_get_peers :: "Coders \<Rightarrow> millis \<Rightarrow> Req \<Rightarrow> AppState \<Rightarrow> Response" where
  "api_get_peers cd now req s =
     (case auth_device cd req s of
        None \<Rightarrow> resp 401 NoBody
      | Some device \<Rightarrow>
          (case resolve_network cd device (rq_network req) s of
             None \<Rightarrow> err 404 NotEnrolled
           | Some net \<Rightarrow>
               ok_json (PeersBody (List.map_filter (peer_info now (dr_id device) (nr_id net) s)
                          (memberships_of_network (nr_id net) (ap_repo s))))))"

section \<open>Heartbeat\<close>

definition heartbeat_hint :: "millis \<Rightarrow> u32 \<Rightarrow> u32 \<times> u32" where
  "heartbeat_hint observer_age_ms misses =
     (if 0 \<le> observer_age_ms \<and> observer_age_ms \<le> ADMIN_OBSERVER_TTL_MS then (HEARTBEAT_FAST_SECS, 0)
      else if misses < 1 then (HEARTBEAT_FAST_SECS, 1)
      else (HEARTBEAT_SLOW_SECS, misses + 1))"

definition api_heartbeat ::
  "Coders \<Rightarrow> millis \<Rightarrow> Req \<Rightarrow> HeartbeatRequest option \<Rightarrow> AppState \<Rightarrow> Response \<times> AppState" where
  "api_heartbeat cd now req body s =
     (case auth_device cd req s of
        None \<Rightarrow> (resp 401 NoBody, s)
      | Some device \<Rightarrow>
          (case body of
             None \<Rightarrow> (err 400 InvalidBody, s)
           | Some hb \<Rightarrow>
               (case proto_version_reject (hb_proto_version hb) of
                  Some rej \<Rightarrow> (rej, s)
                | None \<Rightarrow>
                    (let i = dr_id device;
                         s = s\<lparr>ap_presence := touch_heartbeat now i hb (ap_presence s)\<rparr>;
                         s = s\<lparr>ap_repo := touch_device now i (ap_repo s)\<rparr>;
                         s = (case hb_settings_revision hb of
                                Some applied \<Rightarrow> s\<lparr>ap_repo := mark_settings_applied i applied (ap_repo s)\<rparr>
                              | None \<Rightarrow> s);
                         (secs, misses) = heartbeat_hint (now - ap_last_admin_observe_ms s)
                                            (ap_observer_misses s);
                         s = s\<lparr>ap_observer_misses := misses\<rparr>
                     in (ok_json (HeartbeatBody
                           \<lparr>hr_observed_udp_endpoint = observed_endpoint i (ap_presence s),
                            hr_heartbeat_secs = secs\<rparr>), s)))))"

section \<open>Settings\<close>

definition settings_answer :: "RepoError + DeviceSettings \<Rightarrow> Response" where
  "settings_answer r = (case r of Inl e \<Rightarrow> err 500 (RepoFailed e) | Inr d \<Rightarrow> ok_json (SettingsBody d))"

definition api_get_settings :: "Coders \<Rightarrow> Req \<Rightarrow> AppState \<Rightarrow> Response" where
  "api_get_settings cd req s =
     (case auth_device cd req s of
        None \<Rightarrow> resp 401 NoBody
      | Some device \<Rightarrow> settings_answer (get_device_settings (cd_unjson cd) (dr_id device) (ap_repo s)))"

text \<open>The revision as decimal text, i64::to\_string.\<close>

definition show_int :: "int \<Rightarrow> string" where
  "show_int i = (if i < 0 then ''-'' @ dec_of_nat (nat (- i)) else dec_of_nat (nat i))"

text \<open>The body: None for no JSON; otherwise the two members, None where missing or of another type.\<close>

definition api_settings_fail ::
  "Coders \<Rightarrow> millis \<Rightarrow> Req \<Rightarrow> (int option \<times> string option) option \<Rightarrow> AppState \<Rightarrow> Response \<times> AppState" where
  "api_settings_fail cd now req body s =
     (case auth_device cd req s of
        None \<Rightarrow> (resp 401 NoBody, s)
      | Some device \<Rightarrow>
          (case body of
             None \<Rightarrow> (err 400 InvalidBody, s)
           | Some (Some revision, Some error) \<Rightarrow>
               (let (res, repo) = report_settings_fail (cd_json cd) (cd_unjson cd) now (dr_id device)
                                    revision error (ap_repo s);
                    s = s\<lparr>ap_repo := repo\<rparr> in
                case res of
                  Inr (Some rolled) \<Rightarrow>
                    (ok_json (RolledBackBody (Some (ds_revision rolled))),
                     on_hub (send_to_device (dr_id device)
                       (mk_event SETTINGS_CHANGED None (Some (dr_id device))
                         (Some (show_int (ds_revision rolled))))) s)
                | Inr None \<Rightarrow> (ok_json (RolledBackBody None), s)
                | Inl e \<Rightarrow> (err 500 (RepoFailed e), s))
           | Some _ \<Rightarrow> (err 400 RevisionErrorMissing, s)))"

section \<open>Networks of a device\<close>

definition membership_info :: "AppState \<Rightarrow> MembershipRow \<Rightarrow> MembershipInfo option" where
  "membership_info s m =
     map_option (\<lambda>net. \<lparr>mi_network_id = mb_network_id m, mi_network_name = nr_name net,
                        mi_cidr = nr_cidr net, mi_ip = mb_ip m\<rparr>)
       (get_network (mb_network_id m) (ap_repo s))"

definition api_list_memberships :: "Coders \<Rightarrow> Req \<Rightarrow> AppState \<Rightarrow> Response" where
  "api_list_memberships cd req s =
     (case auth_device cd req s of
        None \<Rightarrow> resp 401 NoBody
      | Some device \<Rightarrow>
          ok_json (MembershipsBody (List.map_filter (membership_info s)
                     (memberships_of_device (dr_id device) (ap_repo s)))))"

definition join_response :: "JoinResult \<Rightarrow> Body" where
  "join_response j =
     JoinBody \<lparr>js_network_id = nr_id (jr_network j), js_network_name = nr_name (jr_network j),
               js_cidr = nr_cidr (jr_network j), js_ip = jr_ip j\<rparr>"

definition api_join ::
  "Coders \<Rightarrow> millis \<Rightarrow> Req \<Rightarrow> JoinRequest option \<Rightarrow> AppState \<Rightarrow> Response \<times> AppState" where
  "api_join cd now req body s =
     (case auth_device cd req s of
        None \<Rightarrow> (resp 401 NoBody, s)
      | Some device \<Rightarrow>
          (case body of
             None \<Rightarrow> (err 400 InvalidBody, s)
           | Some payload \<Rightarrow>
               (case proto_version_reject (jq_proto_version payload) of
                  Some rej \<Rightarrow> (rej, s)
                | None \<Rightarrow>
                    (let (res, repo) = join_network now (dr_id device) (jq_token payload)
                                         (jq_requested_ip payload) (ap_repo s);
                         s = s\<lparr>ap_repo := repo\<rparr> in
                     case res of
                       Inl e \<Rightarrow> (repo_err 400 e, s)
                     | Inr j \<Rightarrow>
                         (ok_json (join_response j),
                          on_hub (broadcast_network (nr_id (jr_network j))
                            (mk_event PEERS_CHANGED (Some (nr_id (jr_network j)))
                              (Some (dr_id device)) None)) s)))))"

definition api_leave ::
  "Coders \<Rightarrow> Req \<Rightarrow> string option \<Rightarrow> AppState \<Rightarrow> Response \<times> AppState" where
  "api_leave cd req body s =
     (case auth_device cd req s of
        None \<Rightarrow> (resp 401 NoBody, s)
      | Some device \<Rightarrow>
          (case body of
             None \<Rightarrow> (err 400 InvalidBody, s)
           | Some network \<Rightarrow>
               (let (res, repo) = leave_network (cd_hexenc cd) (cd_hexdec cd) (dr_id device) network
                                    (ap_repo s);
                    s = s\<lparr>ap_repo := repo\<rparr> in
                case res of
                  Inl e \<Rightarrow> (repo_err 400 e, s)
                | Inr net \<Rightarrow>
                    (ok_json OkJson,
                     on_hub (announce_left (nr_id net) (Some (dr_id device)) \<circ>
                             hub_unregister (dr_id device) (nr_id net)) s))))"

section \<open>Realtime sockets\<close>

definition MAX_WS_CONNS :: u64 where "MAX_WS_CONNS = 512"

text \<open>
  ws\_events up to the answer. The answer 101 leaves a pending upgrade, which ends in \<open>ws_failed\<close> or starts the task in \<open>ws_start\<close>.
\<close>

definition api_ws_events ::
  "Coders \<Rightarrow> Req \<Rightarrow> AppState \<Rightarrow> Response \<times> AppState" where
  "api_ws_events cd req s =
     (case (case rq_token req of Some t \<Rightarrow> Some t | None \<Rightarrow> extract_token req) of
        None \<Rightarrow> (resp 401 NoBody, s)
      | Some token \<Rightarrow>
          (case find_device_by_token_hash (cd_hash cd token) (ap_repo s) of
             None \<Rightarrow> (resp 401 NoBody, s)
           | Some device \<Rightarrow>
               (case resolve_network cd device (rq_network req) s of
                  None \<Rightarrow> (err 404 NotEnrolled, s)
                | Some net \<Rightarrow>
                    if MAX_WS_CONNS \<le> ap_ws_conns s then (err 503 EventConnsFull, s)
                    else (resp 101 NoBody,
                          s\<lparr>ap_ws_conns := ap_ws_conns s + 1,
                            ap_ws := tput (ap_next_ws s) (WsPending (dr_id device) (nr_id net)) (ap_ws s),
                            ap_next_ws := ap_next_ws s + 1\<rparr>))))"

definition ws_failed :: "nat \<Rightarrow> AppState \<Rightarrow> AppState" where
  "ws_failed cid s =
     (case tget (ap_ws s) cid of
        Some (WsPending d n) \<Rightarrow>
          s\<lparr>ap_ws_conns := ap_ws_conns s - 1, ap_ws := tdel cid (ap_ws s)\<rparr>
      | _ \<Rightarrow> s)"

definition ws_start :: "millis \<Rightarrow> nat \<Rightarrow> AppState \<Rightarrow> AppState" where
  "ws_start now cid s =
     (case tget (ap_ws s) cid of
        Some (WsPending d n) \<Rightarrow>
          (let s = s\<lparr>ap_presence := ws_connected now d (ap_presence s)\<rparr>;
               (ch, hub) = hub_register d n (ap_hub s)
           in s\<lparr>ap_hub := hub, ap_ws := tput cid (WsLive d n ch now 0) (ap_ws s)\<rparr>)
      | _ \<Rightarrow> s)"

text \<open>What wakes the task: an inbound message (None for its end), the hub, or the ping timer.\<close>

datatype WsWake =
    WsInbound bool
  | WsHubEvent bool
  | WsPingTick bool

definition ws_end :: "millis \<Rightarrow> nat \<Rightarrow> u64 \<Rightarrow> NetId \<Rightarrow> channel \<Rightarrow> AppState \<Rightarrow> AppState" where
  "ws_end now cid d n ch s =
     s\<lparr>ap_hub := unregister_if_current d n ch (ap_hub s),
       ap_presence := ws_disconnected now d (ap_presence s),
       ap_ws_conns := ap_ws_conns s - 1,
       ap_ws := tdel cid (ap_ws s)\<rparr>"

text \<open>
  One turn of the loop; the answer is the message written to the socket. The flag of a wake
  is whether the message was good, or whether the write succeeded.
\<close>

datatype WsOut = WsText WsEvent | WsClose | WsPing

definition ws_turn :: "millis \<Rightarrow> nat \<Rightarrow> WsWake \<Rightarrow> AppState \<Rightarrow> WsOut list \<times> AppState" where
  "ws_turn now cid wake s =
     (case tget (ap_ws s) cid of
        Some (WsLive d n ch last_rx taken) \<Rightarrow>
          (case wake of
             WsInbound good \<Rightarrow>
               if good then ([], s\<lparr>ap_ws := tput cid (WsLive d n ch now taken) (ap_ws s)\<rparr>)
               else ([], ws_end now cid d n ch s)
           | WsHubEvent sent \<Rightarrow>
               (case idx (eh_log (ap_hub s) ch) taken of
                  None \<Rightarrow> ([], s)
                | Some (Ws evt) \<Rightarrow>
                    if sent then ([WsText evt], s\<lparr>ap_ws := tput cid (WsLive d n ch last_rx (taken + 1)) (ap_ws s)\<rparr>)
                    else ([], ws_end now cid d n ch s)
                | Some Close \<Rightarrow> ([WsClose], ws_end now cid d n ch s))
           | WsPingTick sent \<Rightarrow>
               if 60000 < now - last_rx then ([], ws_end now cid d n ch s)
               else if sent then ([WsPing], s) else ([], ws_end now cid d n ch s))
      | _ \<Rightarrow> ([], s))"

end
