(* ===== verification/AppAdmin.thy ===== *)
theory AppAdmin
  imports AppNode
begin

text \<open>
  The handlers of app.rs for administrators and the embedded console. Every one that
  serves data starts with the admin token; the path segments are the texts of the URL.
\<close>

definition admin_denied :: Response where
  "admin_denied = err 401 AdminAuthFailed"

definition device_exists :: "u64 \<Rightarrow> AppState \<Rightarrow> bool" where
  "device_exists i s = (get_device i (ap_repo s) \<noteq> None)"

section \<open>Memberships of a device\<close>

definition resolve_network_id :: "Coders \<Rightarrow> string \<Rightarrow> AppState \<Rightarrow> NetId option" where
  "resolve_network_id cd name_or_id s =
     (case netid_from_hex (cd_hexdec cd) name_or_id of
        Some i \<Rightarrow> Some i
      | None \<Rightarrow>
          map_option nr_id (List.find (\<lambda>n. eq_ignore_ascii_case (nr_name n) name_or_id)
                              (list_networks (ap_repo s))))"

text \<open>The mode of a device: as it reports it, otherwise as it is managed.\<close>

definition device_mode :: "Coders \<Rightarrow> u64 \<Rightarrow> AppState \<Rightarrow> ClientMode option" where
  "device_mode cd i s =
     (case Option.bind (presence_record i (ap_presence s)) px_mode of
        Some m \<Rightarrow> Some m
      | None \<Rightarrow>
          (case get_device_settings (cd_unjson cd) i (ap_repo s) of
             Inl _ \<Rightarrow> None | Inr d \<Rightarrow> ds_mode d))"

definition admin_device_join_network ::
  "Coders \<Rightarrow> Req \<Rightarrow> string \<Rightarrow> (string \<times> string option) option \<Rightarrow> AppState \<Rightarrow> Response \<times> AppState" where
  "admin_device_join_network cd req path body s =
     (if \<not> auth_admin req s then (admin_denied, s)
      else
        (case parse_u64 path of
           None \<Rightarrow> (err 400 BadDeviceId, s)
         | Some device_id \<Rightarrow>
             if \<not> device_exists device_id s then (err 404 DeviceMissing, s)
             else
               (case body of
                  None \<Rightarrow> (err 400 InvalidBody, s)
                | Some (network, requested_ip) \<Rightarrow>
                    (case resolve_network_id cd network s of
                       None \<Rightarrow> (err 404 AppNetworkMissing, s)
                     | Some net_id \<Rightarrow>
                         (let tun_required = (device_mode cd device_id s = Some Tun);
                              (res, repo) = admin_join_network device_id net_id requested_ip tun_required
                                              (ap_repo s);
                              s = s\<lparr>ap_repo := repo\<rparr> in
                          case res of
                            Inl e \<Rightarrow> (repo_err 409 e, s)
                          | Inr j \<Rightarrow>
                              (ok_json (join_response j),
                               on_hub (broadcast_network net_id
                                         (mk_event PEERS_CHANGED (Some net_id) (Some device_id) None)
                                       \<circ> send_to_device device_id
                                         (mk_event NETWORKS_CHANGED (Some net_id) (Some device_id) None)) s))))))"

definition admin_device_leave_network ::
  "Coders \<Rightarrow> Req \<Rightarrow> string \<Rightarrow> string \<Rightarrow> AppState \<Rightarrow> Response \<times> AppState" where
  "admin_device_leave_network cd req path nid s =
     (if \<not> auth_admin req s then (admin_denied, s)
      else
        (case parse_u64 path of
           None \<Rightarrow> (err 400 BadDeviceId, s)
         | Some device_id \<Rightarrow>
             (case netid_from_hex (cd_hexdec cd) nid of
                None \<Rightarrow> (err 400 BadNetworkId, s)
              | Some net_id \<Rightarrow>
                  (let (res, repo) = admin_remove_membership device_id net_id (ap_repo s);
                       s = s\<lparr>ap_repo := repo\<rparr> in
                   case res of
                     Inl e \<Rightarrow> (repo_err 409 e, s)
                   | Inr net \<Rightarrow>
                       (ok_json OkJson,
                        on_hub (send_to_device device_id
                                  (mk_event NETWORKS_CHANGED (Some (nr_id net)) (Some device_id) None)
                                \<circ> announce_left (nr_id net) (Some device_id)
                                \<circ> hub_unregister device_id (nr_id net)) s)))))"

section \<open>Settings of a device\<close>

definition admin_get_device_settings :: "Coders \<Rightarrow> Req \<Rightarrow> string \<Rightarrow> AppState \<Rightarrow> Response" where
  "admin_get_device_settings cd req path s =
     (if \<not> auth_admin req s then admin_denied
      else
        (case parse_u64 path of
           None \<Rightarrow> err 400 BadDeviceId
         | Some device_id \<Rightarrow> settings_answer (get_device_settings (cd_unjson cd) device_id (ap_repo s))))"

fun check_peer_ids :: "PeerPolicy list \<Rightarrow> AppState \<Rightarrow> AppError option" where
  "check_peer_ids [] s = None"
| "check_peer_ids (pp # rest) s =
     (case parse_u64 (pp_device_id pp) of
        None \<Rightarrow> Some (PeerIdInvalid (pp_device_id pp))
      | Some i \<Rightarrow>
          if \<not> device_exists i s then Some (PeerDeviceMissing (pp_device_id pp))
          else check_peer_ids rest s)"

text \<open>The checks of a settings body, for a device that exists; None when it may be stored.\<close>

definition settings_check :: "u64 \<Rightarrow> DeviceSettings \<Rightarrow> AppState \<Rightarrow> Response option" where
  "settings_check device_id payload s =
     (case validate_settings payload of
        Inl msg \<Rightarrow> Some (err 400 (SettingsRejected msg))
      | Inr _ \<Rightarrow>
          (let nets = length (memberships_of_device device_id (ap_repo s)) in
           if ds_mode payload = Some Tun \<and> 1 < nets then Some (err 409 (TunManyNetworks nets))
           else
             (case ds_peer_policies payload of
                None \<Rightarrow> None
              | Some list \<Rightarrow> map_option (err 400) (check_peer_ids list s))))"

definition admin_put_device_settings ::
  "Coders \<Rightarrow> millis \<Rightarrow> Req \<Rightarrow> string \<Rightarrow> DeviceSettings option \<Rightarrow> AppState \<Rightarrow> Response \<times> AppState" where
  "admin_put_device_settings cd now req path body s =
     (if \<not> auth_admin req s then (admin_denied, s)
      else
        (case parse_u64 path of
           None \<Rightarrow> (err 400 BadDeviceId, s)
         | Some device_id \<Rightarrow>
             if \<not> device_exists device_id s then (err 404 DeviceMissing, s)
             else
               (case body of
                  None \<Rightarrow> (err 400 InvalidBody, s)
                | Some payload \<Rightarrow>
                    (let payload = payload\<lparr>ds_revision := 0\<rparr> in
                     case settings_check device_id payload s of
                       Some r \<Rightarrow> (r, s)
                     | None \<Rightarrow>
                         (let (stored, repo) = set_device_settings (cd_json cd) now device_id payload
                                                 (ap_repo s)
                          in (ok_json (SettingsBody stored),
                              on_hub (send_to_device device_id
                                (mk_event SETTINGS_CHANGED None (Some device_id)
                                  (Some (show_int (ds_revision stored))))) (s\<lparr>ap_repo := repo\<rparr>)))))))"

text \<open>admin\_device\_restart and admin\_device\_reconnect differ in the event they push.\<close>

definition admin_device_push :: "string \<Rightarrow> Req \<Rightarrow> string \<Rightarrow> AppState \<Rightarrow> Response \<times> AppState" where
  "admin_device_push ty req path s =
     (if \<not> auth_admin req s then (admin_denied, s)
      else
        (case parse_u64 path of
           None \<Rightarrow> (err 400 BadDeviceId, s)
         | Some device_id \<Rightarrow>
             if \<not> device_exists device_id s then (err 404 DeviceMissing, s)
             else (ok_json OkJson,
                   on_hub (send_to_device device_id (mk_event ty None (Some device_id) None)) s)))"

definition admin_device_restart :: "Req \<Rightarrow> string \<Rightarrow> AppState \<Rightarrow> Response \<times> AppState" where
  "admin_device_restart = admin_device_push RESTART_REQUESTED"

definition admin_device_reconnect :: "Req \<Rightarrow> string \<Rightarrow> AppState \<Rightarrow> Response \<times> AppState" where
  "admin_device_reconnect = admin_device_push RECONNECT_REQUESTED"

section \<open>Networks\<close>

definition admin_summary :: "millis \<Rightarrow> Req \<Rightarrow> AppState \<Rightarrow> Response" where
  "admin_summary now req s =
     (if \<not> auth_admin req s then admin_denied
      else
        (let devices = list_devices (ap_repo s) in
         ok_json (SummaryBody
           \<lparr>sm_networks = length (list_networks (ap_repo s)), sm_devices = length devices,
            sm_online = length (filter (\<lambda>d. presence_is_online now (dr_id d) (ap_presence s)) devices),
            sm_relay_udp_port = ap_relay_udp_port s, sm_relay_tcp_port = ap_relay_tcp_port s\<rparr>)))"

definition network_to_admin :: "NetworkRow \<Rightarrow> nat \<Rightarrow> AdminNetwork" where
  "network_to_admin net device_count =
     \<lparr>an_id = nr_id net, an_name = nr_name net, an_cidr = nr_cidr net,
      an_created_at = nr_created_at net, an_device_count = device_count\<rparr>"

definition admin_list_networks :: "Req \<Rightarrow> AppState \<Rightarrow> Response" where
  "admin_list_networks req s =
     (if \<not> auth_admin req s then admin_denied
      else
        ok_json (NetworksBody (map (\<lambda>n. network_to_admin n
            (length (filter (\<lambda>m. mb_network_id m = nr_id n) (all_memberships (ap_repo s)))))
          (list_networks (ap_repo s)))))"

definition network_name_ok :: "string \<Rightarrow> bool" where
  "network_name_ok name =
     (\<not> (name = [] \<or> 32 < length (as_bytes name)
         \<or> \<not> list_all (\<lambda>c. is_ascii_alnum c \<or> c = CHR ''-'' \<or> c = CHR ''_'') name))"

definition admin_create_network ::
  "NetId \<Rightarrow> millis \<Rightarrow> Req \<Rightarrow> (string \<times> string) option \<Rightarrow> AppState \<Rightarrow> Response \<times> AppState" where
  "admin_create_network fresh_net now req body s =
     (if \<not> auth_admin req s then (admin_denied, s)
      else
        (case body of
           None \<Rightarrow> (err 400 InvalidBody, s)
         | Some (name, cidr_text) \<Rightarrow>
             if \<not> network_name_ok name then (err 400 BadNetworkName, s)
             else
               (case cidr_parse cidr_text of
                  Inl e \<Rightarrow> (err 400 (AppBadCidr e), s)
                | Inr cidr \<Rightarrow>
                    if \<not> ci_prefix cidr \<le> 30 then (err 400 PrefixTooLong, s)
                    else if get_network_by_name name (ap_repo s) \<noteq> None then (err 409 NetworkExists, s)
                    else
                      (let (res, repo) = create_network fresh_net now name (cidr_display cidr) (ap_repo s);
                           s = s\<lparr>ap_repo := repo\<rparr> in
                       case res of
                         Inr net \<Rightarrow> (ok_json (NetworkBody (network_to_admin net 0)), s)
                       | Inl e \<Rightarrow> (repo_err 409 e, s)))))"

text \<open>Each former member is told to reconcile, then its socket on the network is closed.\<close>

definition dismiss_members :: "NetId \<Rightarrow> u64 list \<Rightarrow> EventsHub \<Rightarrow> EventsHub" where
  "dismiss_members net members hub =
     fold (\<lambda>d h. hub_unregister d net
                   (send_to_device d (mk_event NETWORKS_CHANGED (Some net) (Some d) None) h))
       members hub"

definition admin_delete_network ::
  "Coders \<Rightarrow> Req \<Rightarrow> string \<Rightarrow> AppState \<Rightarrow> Response \<times> AppState" where
  "admin_delete_network cd req path s =
     (if \<not> auth_admin req s then (admin_denied, s)
      else
        (case netid_from_hex (cd_hexdec cd) path of
           None \<Rightarrow> (err 400 BadNetworkId, s)
         | Some net_id \<Rightarrow>
             (let members = map mb_device_id (memberships_of_network net_id (ap_repo s));
                  (found, repo) = delete_network net_id (ap_repo s);
                  s = s\<lparr>ap_repo := repo\<rparr> in
              if found
              then (ok_json OkText,
                    on_hub (dismiss_members net_id members \<circ> announce_left net_id None) s)
              else (err 404 AppNetworkMissing, s))))"

section \<open>Enrolment tokens\<close>

definition shown_token :: "string \<Rightarrow> AppState \<Rightarrow> string" where
  "shown_token t s = (case ap_cert_fingerprint s of Some fp \<Rightarrow> with_fingerprint t fp | None \<Rightarrow> t)"

definition token_to_admin :: "TokenRow \<Rightarrow> string \<Rightarrow> AppState \<Rightarrow> AdminToken" where
  "token_to_admin t network_name s =
     \<lparr>at_token = shown_token (tk_token t) s, at_network_id = tk_network_id t,
      at_network_name = network_name, at_uses_left = tk_uses_left t,
      at_expires_at = tk_expires_at t, at_requested_ip = tk_requested_ip t\<rparr>"

definition network_name_of :: "NetId \<Rightarrow> AppState \<Rightarrow> string" where
  "network_name_of i s = (case get_network i (ap_repo s) of Some n \<Rightarrow> nr_name n | None \<Rightarrow> [])"

definition admin_list_tokens :: "Req \<Rightarrow> AppState \<Rightarrow> Response" where
  "admin_list_tokens req s =
     (if \<not> auth_admin req s then admin_denied
      else ok_json (TokensBody (map (\<lambda>t. token_to_admin t (network_name_of (tk_network_id t) s) s)
                      (list_tokens (ap_repo s)))))"

text \<open>The body: network, uses, hours, requested address.\<close>

definition admin_create_token ::
  "Coders \<Rightarrow> string \<Rightarrow> millis \<Rightarrow> Req \<Rightarrow> (string \<times> int \<times> int \<times> string option) option \<Rightarrow> AppState
     \<Rightarrow> Response \<times> AppState" where
  "admin_create_token cd fresh_token now req body s =
     (if \<not> auth_admin req s then (admin_denied, s)
      else
        (case body of
           None \<Rightarrow> (err 400 InvalidBody, s)
         | Some (network, uses, hours, requested_ip) \<Rightarrow>
             (case opt_or (Option.bind (netid_from_hex (cd_hexdec cd) network)
                             (\<lambda>i. get_network i (ap_repo s)))
                     (get_network_by_name network (ap_repo s)) of
                None \<Rightarrow> (err 400 AppNetworkMissing, s)
              | Some net \<Rightarrow>
                  if \<not> (1 \<le> uses \<and> uses \<le> 1000) then (err 400 UsesOutOfRange, s)
                  else if \<not> (1 \<le> hours \<and> hours \<le> 8760) then (err 400 HoursOutOfRange, s)
                  else if (case requested_ip of Some ip \<Rightarrow> parse_ipv4 ip = None | None \<Rightarrow> False)
                  then (err 400 BadRequestedIp, s)
                  else
                    (let (res, repo) = create_token fresh_token now (nr_id net) uses (hours * 3600000)
                                         requested_ip (ap_repo s);
                         s = s\<lparr>ap_repo := repo\<rparr> in
                     case res of
                       Inl e \<Rightarrow> (err 500 (RepoFailed e), s)
                     | Inr t \<Rightarrow> (ok_json (TokenBody (token_to_admin t (nr_name net) s)), s)))))"

definition admin_revoke_token :: "Req \<Rightarrow> string \<Rightarrow> AppState \<Rightarrow> Response \<times> AppState" where
  "admin_revoke_token req token s =
     (if \<not> auth_admin req s then (admin_denied, s)
      else
        (let (found, repo) = delete_token token (ap_repo s) in
         (if found then ok_json OkText else err 404 AppTokenMissing, s\<lparr>ap_repo := repo\<rparr>)))"

section \<open>Devices\<close>

definition device_to_admin :: "Coders \<Rightarrow> millis \<Rightarrow> AppState \<Rightarrow> DeviceRow \<Rightarrow> AdminDevice" where
  "device_to_admin cd now s d =
     (let networks = map (\<lambda>m. \<lparr>am_network_id = mb_network_id m,
                               am_network_name = network_name_of (mb_network_id m) s, am_ip = mb_ip m\<rparr>)
                       (filter (\<lambda>m. mb_device_id m = dr_id d) (all_memberships (ap_repo s)));
          rec = presence_record (dr_id d) (ap_presence s);
          (settings, settings_error, settings_error_revision) =
            (case get_device_settings_full (cd_unjson cd) (dr_id d) (ap_repo s) of
               Inl _ \<Rightarrow> (default_settings, None, None) | Inr x \<Rightarrow> x)
      in \<lparr>ad_id = dec_of_nat (unat (dr_id d)), ad_name = dr_name d, ad_created_at = dr_created_at d,
          ad_last_seen = dr_last_seen d, ad_online = presence_is_online now (dr_id d) (ap_presence s),
          ad_networks = networks,
          ad_paths = (case rec of Some r \<Rightarrow> if px_paths r = [] then None else Some (px_paths r) | None \<Rightarrow> None),
          ad_settings_revision = (if 0 < ds_revision settings then Some (ds_revision settings) else None),
          ad_applied_revision = Option.bind rec px_applied_settings_revision,
          ad_restart_pending = map_option px_restart_pending rec,
          ad_settings_error = settings_error,
          ad_settings_error_revision = settings_error_revision,
          ad_node_version = Option.bind rec px_node_version\<rparr>)"

definition admin_list_devices :: "Coders \<Rightarrow> millis \<Rightarrow> Req \<Rightarrow> AppState \<Rightarrow> Response \<times> AppState" where
  "admin_list_devices cd now req s =
     (if \<not> auth_admin req s then (admin_denied, s)
      else
        (let s = s\<lparr>ap_last_admin_observe_ms := now\<rparr>
         in (ok_json (DevicesBody (map (device_to_admin cd now s) (list_devices (ap_repo s)))), s)))"

text \<open>What the other components forget of a deleted device, and the broadcasts.\<close>

definition forget_device :: "u64 \<Rightarrow> NetId list \<Rightarrow> AppState \<Rightarrow> AppState" where
  "forget_device i networks s =
     s\<lparr>ap_udp_relay := udp_unregister i (ap_udp_relay s),
       ap_tcp_relay := (ap_tcp_relay s)\<lparr>tr_connections := tdel i (tr_connections (ap_tcp_relay s))\<rparr>,
       ap_presence := presence_remove i (ap_presence s),
       ap_hub := fold (\<lambda>net. announce_left net (Some i)) networks (unregister_device i (ap_hub s))\<rparr>"

definition admin_delete_device :: "Req \<Rightarrow> string \<Rightarrow> AppState \<Rightarrow> Response \<times> AppState" where
  "admin_delete_device req path s =
     (if \<not> auth_admin req s then (admin_denied, s)
      else
        (case parse_u64 path of
           None \<Rightarrow> (err 400 BadDeviceId, s)
         | Some device_id \<Rightarrow>
             (let networks = map mb_network_id (memberships_of_device device_id (ap_repo s));
                  (found, repo) = delete_device device_id (ap_repo s);
                  s = s\<lparr>ap_repo := repo\<rparr> in
              if found then (ok_json OkText, forget_device device_id networks s)
              else (err 404 DeviceMissing, s))))"

definition admin_rotate_token :: "string \<Rightarrow> Req \<Rightarrow> AppState \<Rightarrow> Response \<times> AppState" where
  "admin_rotate_token fresh req s =
     (if \<not> auth_admin req s then (admin_denied, s)
      else
        (let (new_token, repo) = rotate_admin_token fresh (ap_repo s)
         in (ok_json (NewTokenBody new_token), s\<lparr>ap_repo := repo, ap_admin_token := new_token\<rparr>)))"

definition admin_set_ip ::
  "Coders \<Rightarrow> Req \<Rightarrow> string \<Rightarrow> string \<Rightarrow> string option \<Rightarrow> AppState \<Rightarrow> Response \<times> AppState" where
  "admin_set_ip cd req nid did body s =
     (if \<not> auth_admin req s then (admin_denied, s)
      else
        (case body of
           None \<Rightarrow> (err 400 InvalidBody, s)
         | Some ip \<Rightarrow>
             (case netid_from_hex (cd_hexdec cd) nid of
                None \<Rightarrow> (err 400 BadNetworkId, s)
              | Some net_id \<Rightarrow>
                  (case parse_u64 did of
                     None \<Rightarrow> (err 400 BadDeviceId, s)
                   | Some device_id \<Rightarrow>
                       (case get_network net_id (ap_repo s) of
                          None \<Rightarrow> (err 404 AppNetworkMissing, s)
                        | Some net \<Rightarrow>
                            if membership_of net_id device_id (ap_repo s) = None
                            then (err 404 DeviceNotInNetwork, s)
                            else
                              (case cidr_parse (nr_cidr net) of
                                 Inl e \<Rightarrow> (err 400 (AppBadCidr e), s)
                               | Inr cidr \<Rightarrow>
                                   (let (res, repo) = set_membership_ip_atomic net_id device_id ip cidr (ap_repo s);
                                        s = s\<lparr>ap_repo := repo\<rparr> in
                                    case res of
                                      Inl e \<Rightarrow> (repo_err 409 e, s)
                                    | Inr _ \<Rightarrow>
                                        (ok_json OkJson,
                                         on_hub (broadcast_network net_id
                                                   (mk_event PEERS_CHANGED (Some net_id) (Some device_id) None)
                                                 \<circ> send_to_device device_id
                                                   (mk_event CONFIG_CHANGED (Some net_id) (Some device_id)
                                                     (Some ip))) s))))))))"

definition admin_device_rename ::
  "Req \<Rightarrow> string \<Rightarrow> string option \<Rightarrow> AppState \<Rightarrow> Response \<times> AppState" where
  "admin_device_rename req path body s =
     (if \<not> auth_admin req s then (admin_denied, s)
      else
        (case body of
           None \<Rightarrow> (err 400 InvalidBody, s)
         | Some raw \<Rightarrow>
             (case parse_u64 path of
                None \<Rightarrow> (err 400 BadDeviceId, s)
              | Some device_id \<Rightarrow>
                  (let name = str_trim raw in
                   if name = [] \<or> 64 < char_count raw then (err 400 DeviceNameLength, s)
                   else
                     (let (found, repo) = rename_device device_id name (ap_repo s);
                          s = s\<lparr>ap_repo := repo\<rparr> in
                      if found
                      then (ok_json OkText,
                            on_hub (fold (\<lambda>m. broadcast_network (mb_network_id m)
                                      (mk_event PEERS_CHANGED (Some (mb_network_id m)) (Some device_id) (Some name)))
                                    (memberships_of_device device_id repo)) s)
                      else (err 404 DeviceMissing, s))))))"

section \<open>The embedded console\<close>

text \<open>The file system the build embeds and the SHA-256 of a file are parameters.\<close>

definition mime_of :: "string \<Rightarrow> string" where
  "mime_of path =
     (let ext = last (split_on CHR ''.'' path) in
      case map_of
        [(''html'', ''text/html; charset=utf-8''), (''js'', ''application/javascript; charset=utf-8''),
         (''css'', ''text/css; charset=utf-8''), (''svg'', ''image/svg+xml''), (''png'', ''image/png''),
         (''ico'', ''image/x-icon''), (''woff2'', ''font/woff2''), (''woff'', ''font/woff''),
         (''ttf'', ''font/ttf''), (''json'', ''application/json; charset=utf-8''),
         (''map'', ''application/json; charset=utf-8''), (''txt'', ''text/plain; charset=utf-8'')] ext of
        Some m \<Rightarrow> m | None \<Rightarrow> ''application/octet-stream'')"

definition asset_response ::
  "(string \<Rightarrow> bytes option) \<Rightarrow> (bytes \<Rightarrow> bytes) \<Rightarrow> (bytes \<Rightarrow> string) \<Rightarrow> string \<Rightarrow> Response" where
  "asset_response assets sha256 hexenc path =
     (case assets path of
        Some data \<Rightarrow>
          ok_json (AssetBody data (mime_of path) (hexenc (take 8 (sha256 data)))
            (if strip_prefix ''assets/'' path \<noteq> None then ''public, max-age=31536000, immutable''
             else ''no-cache''))
      | None \<Rightarrow> err 404 AssetMissing)"

definition admin_index ::
  "(string \<Rightarrow> bytes option) \<Rightarrow> (bytes \<Rightarrow> bytes) \<Rightarrow> (bytes \<Rightarrow> string) \<Rightarrow> Response" where
  "admin_index assets sha256 hexenc = asset_response assets sha256 hexenc ''index.html''"

end
