(* ===== verification/AppServer.thy ===== *)
theory AppServer
  imports AppAdmin
begin

text \<open>
  The server as one machine (app.rs start, router and auth\_throttle): HTTP requests by
  route, the realtime sockets and the two relays, over one shared state. The relays look
  device keys up in the repository and share the presence store and the register guard.
\<close>

section \<open>Routes\<close>

text \<open>A request of the router, with the path segments and the parsed body it carries.\<close>

datatype ApiRequest =
    RootRedirect
  | Enroll EnrollRequest
  | GetConfig Req
  | GetPeers Req
  | GetSettings Req
  | SettingsFail Req "(int option \<times> string option) option"
  | ListMemberships Req
  | PostHeartbeat Req "HeartbeatRequest option"
  | Join Req "JoinRequest option"
  | Leave Req "string option"
  | Events Req
  | AdminSummary Req
  | AdminListNetworks Req
  | AdminCreateNetwork Req "(string \<times> string) option"
  | AdminDeleteNetwork Req string
  | AdminListTokens Req
  | AdminCreateToken Req "(string \<times> int \<times> int \<times> string option) option"
  | AdminRevokeToken Req string
  | AdminListDevices Req
  | AdminDeleteDevice Req string
  | AdminRename Req string "string option"
  | AdminPutSettings Req string "DeviceSettings option"
  | AdminGetSettings Req string
  | AdminRestart Req string
  | AdminReconnect Req string
  | AdminJoin Req string "(string \<times> string option) option"
  | AdminLeave Req string string
  | AdminSetIp Req string string "string option"
  | AdminRotateToken Req
  | ConsoleIndex
  | ConsoleStatic string

text \<open>The random values a request may draw.\<close>

record Fresh =
  fs_device_id :: u64
  fs_device_token :: string
  fs_enroll_token :: string
  fs_admin_token :: string
  fs_network_id :: NetId

text \<open>The third-party functions and the embedded files.\<close>

record World =
  wd_coders :: Coders
  wd_hmac :: hmac
  wd_sha256 :: "bytes \<Rightarrow> bytes"
  wd_assets :: "string \<Rightarrow> bytes option"

fun route :: "World \<Rightarrow> Fresh \<Rightarrow> millis \<Rightarrow> ApiRequest \<Rightarrow> AppState \<Rightarrow> Response \<times> AppState" where
  "route w f now RootRedirect s = (resp 307 NoBody, s)"
| "route w f now (Enroll q) s = api_enroll (wd_coders w) (fs_device_id f) (fs_device_token f) now q s"
| "route w f now (GetConfig r) s = (api_get_config (wd_coders w) r s, s)"
| "route w f now (GetPeers r) s = (api_get_peers (wd_coders w) now r s, s)"
| "route w f now (GetSettings r) s = (api_get_settings (wd_coders w) r s, s)"
| "route w f now (SettingsFail r b) s = api_settings_fail (wd_coders w) now r b s"
| "route w f now (ListMemberships r) s = (api_list_memberships (wd_coders w) r s, s)"
| "route w f now (PostHeartbeat r b) s = api_heartbeat (wd_coders w) now r b s"
| "route w f now (Join r b) s = api_join (wd_coders w) now r b s"
| "route w f now (Leave r b) s = api_leave (wd_coders w) r b s"
| "route w f now (Events r) s = api_ws_events (wd_coders w) r s"
| "route w f now (AdminSummary r) s = (admin_summary now r s, s)"
| "route w f now (AdminListNetworks r) s = (admin_list_networks r s, s)"
| "route w f now (AdminCreateNetwork r b) s = admin_create_network (fs_network_id f) now r b s"
| "route w f now (AdminDeleteNetwork r i) s = admin_delete_network (wd_coders w) r i s"
| "route w f now (AdminListTokens r) s = (admin_list_tokens r s, s)"
| "route w f now (AdminCreateToken r b) s = admin_create_token (wd_coders w) (fs_enroll_token f) now r b s"
| "route w f now (AdminRevokeToken r t) s = admin_revoke_token r t s"
| "route w f now (AdminListDevices r) s = admin_list_devices (wd_coders w) now r s"
| "route w f now (AdminDeleteDevice r i) s = admin_delete_device r i s"
| "route w f now (AdminRename r i b) s = admin_device_rename r i b s"
| "route w f now (AdminPutSettings r i b) s = admin_put_device_settings (wd_coders w) now r i b s"
| "route w f now (AdminGetSettings r i) s = (admin_get_device_settings (wd_coders w) r i s, s)"
| "route w f now (AdminRestart r i) s = admin_device_restart r i s"
| "route w f now (AdminReconnect r i) s = admin_device_reconnect r i s"
| "route w f now (AdminJoin r i b) s = admin_device_join_network (wd_coders w) r i b s"
| "route w f now (AdminLeave r i n) s = admin_device_leave_network (wd_coders w) r i n s"
| "route w f now (AdminSetIp r n i b) s = admin_set_ip (wd_coders w) r n i b s"
| "route w f now (AdminRotateToken r) s = admin_rotate_token (fs_admin_token f) r s"
| "route w f now ConsoleIndex s = (admin_index (wd_assets w) (wd_sha256 w) (cd_hexenc (wd_coders w)), s)"
| "route w f now (ConsoleStatic p) s =
     (asset_response (wd_assets w) (wd_sha256 w) (cd_hexenc (wd_coders w)) p, s)"

text \<open>The router behind the throttle.\<close>

definition serve ::
  "World \<Rightarrow> Fresh \<Rightarrow> millis \<Rightarrow> u32 \<Rightarrow> ApiRequest \<Rightarrow> AppState \<Rightarrow> Response \<times> AppState" where
  "serve w f now ip q = auth_throttle now ip (route w f now q)"

section \<open>The relays of the server\<close>

text \<open>lookup\_key of start: the relay key of a device, when it is 32 bytes of hex.\<close>

definition lookup_key :: "Coders \<Rightarrow> Repo \<Rightarrow> u64 \<Rightarrow> bytes option" where
  "lookup_key cd s i =
     (case get_device i s of
        None \<Rightarrow> None
      | Some d \<Rightarrow>
          (case cd_hexdec cd (dr_relay_key d) of
             None \<Rightarrow> None
           | Some k \<Rightarrow> if length k = 32 then Some k else None))"

definition serve_udp :: "World \<Rightarrow> UdpEvent \<Rightarrow> AppState \<Rightarrow> (bytes \<times> SockAddr) list \<times> AppState" where
  "serve_udp w e s =
     (let (out, r) = udp_step (wd_hmac w) (lookup_key (wd_coders w) (ap_repo s))
                       ((ap_udp_relay s)\<lparr>ur_presence := ap_presence s,
                                         ur_register_guard := ap_register_guard s\<rparr>) e
      in (out, s\<lparr>ap_udp_relay := r, ap_presence := ur_presence r,
                 ap_register_guard := ur_register_guard r\<rparr>))"

definition serve_tcp :: "World \<Rightarrow> TcpEvent \<Rightarrow> AppState \<Rightarrow> AppState" where
  "serve_tcp w e s =
     (let (_, r) = tcp_step (wd_hmac w) (lookup_key (wd_coders w) (ap_repo s))
                     ((ap_tcp_relay s)\<lparr>tr_presence := ap_presence s,
                                       tr_register_guard := ap_register_guard s\<rparr>) e
      in s\<lparr>ap_tcp_relay := r, ap_presence := tr_presence r,
           ap_register_guard := tr_register_guard r\<rparr>)"

section \<open>The machine\<close>

datatype ServerEvent =
    Http Fresh millis u32 ApiRequest
  | WsStart millis nat
  | WsFailed nat
  | WsTurn millis nat WsWake
  | UdpIn millis bool SockAddr bytes
  | UdpSweep millis
  | TcpIn TcpEvent

datatype ServerOut =
    Answer Response
  | Socket "WsOut list"
  | Datagrams "(bytes \<times> SockAddr) list"
  | Silent

text \<open>Only a handler of the server unregisters a device at the TCP relay.\<close>

fun server_step :: "World \<Rightarrow> AppState \<Rightarrow> ServerEvent \<Rightarrow> ServerOut \<times> AppState" where
  "server_step w s (Http f now ip q) = (let (r, s) = serve w f now ip q s in (Answer r, s))"
| "server_step w s (WsStart now cid) = (Silent, ws_start now cid s)"
| "server_step w s (WsFailed cid) = (Silent, ws_failed cid s)"
| "server_step w s (WsTurn now cid wake) = (let (out, s) = ws_turn now cid wake s in (Socket out, s))"
| "server_step w s (UdpIn now sent peer p) =
     (let (out, s) = serve_udp w (Datagram now sent peer p) s in (Datagrams out, s))"
| "server_step w s (UdpSweep now) = (Silent, snd (serve_udp w (SweepTick now) s))"
| "server_step w s (TcpIn e) =
     (Silent, case e of TcpUnregister _ \<Rightarrow> s | _ \<Rightarrow> serve_tcp w e s)"

text \<open>start: the state over a repository, whose admin token is read or made.\<close>

definition server_start ::
  "string \<Rightarrow> u16 \<Rightarrow> u16 \<Rightarrow> string option \<Rightarrow> Repo \<Rightarrow> AppState" where
  "server_start fresh udp_port tcp_port fp repo =
     (let ((token, _), repo) = get_or_create_admin_token fresh repo in
      \<lparr>ap_repo = repo, ap_presence = presence_new, ap_hub = hub_new,
       ap_udp_relay = udp_relay_new presence_new [], ap_tcp_relay = tcp_relay_new presence_new [],
       ap_register_guard = [], ap_admin_token = token, ap_relay_udp_port = udp_port,
       ap_relay_tcp_port = tcp_port, ap_cert_fingerprint = fp, ap_last_admin_observe_ms = 0,
       ap_auth_failures = [], ap_banned_until_ms = [], ap_ws_conns = 0, ap_observer_misses = 2,
       ap_ws = [], ap_next_ws = 0\<rparr>)"

end
