(* ===== verification/AppProps.thy ===== *)
theory AppProps
  imports AppServer
begin

text \<open>
  What a request does to the state: its repository, hub and presence parts change by
  operations of those components, everything else by the handlers named below. The
  invariant of the composed server follows from the invariants of the components.
\<close>

section \<open>Acting by operations of a component\<close>

definition acts :: "('e \<Rightarrow> bool) \<Rightarrow> ('s \<Rightarrow> 'e \<Rightarrow> 'o \<times> 's) \<Rightarrow> 's \<Rightarrow> 's \<Rightarrow> bool" where
  "acts P step x y = (\<exists>es. list_all P es \<and> y = snd (run step x es))"

lemma acts_refl [simp]: "acts P step x x"
  unfolding acts_def by (intro exI [of _ "[]"]) simp

lemma acts_trans: "acts P step x y \<Longrightarrow> acts P step y z \<Longrightarrow> acts P step x z"
proof -
  assume "acts P step x y" "acts P step y z"
  then obtain es fs where "list_all P es" "list_all P fs" "y = snd (run step x es)" "z = snd (run step y fs)"
    unfolding acts_def by blast
  then show ?thesis
    unfolding acts_def
    by (intro exI [of _ "es @ fs"]) (simp add: run_append case_prod_beta Let_def)
qed

lemma acts_step: "P e \<Longrightarrow> acts P step x (snd (step x e))"
  unfolding acts_def by (intro exI [of _ "[e]"]) (simp add: case_prod_beta Let_def)

lemma acts_keeps:
  assumes "acts P step x y" and "I x" and "\<And>x e. I x \<Longrightarrow> P e \<Longrightarrow> I (snd (step x e))"
  shows "I y"
proof -
  have "I (snd (run step x es))" if "list_all P es" "I x" for es x
    using that by (induction es arbitrary: x) (simp_all add: case_prod_beta Let_def assms(3))
  then show ?thesis using assms(1,2) unfolding acts_def by blast
qed

section \<open>Operations of the hub and of presence\<close>

text \<open>No handler registers a socket or ends one of a task.\<close>

fun hub_op_ok :: "HubOp \<Rightarrow> bool" where
  "hub_op_ok (HubRegister d n) = False"
| "hub_op_ok (HubTeardown d n tx) = False"
| "hub_op_ok _ = True"

abbreviation hub_acts :: "EventsHub \<Rightarrow> EventsHub \<Rightarrow> bool" where
  "hub_acts \<equiv> acts hub_op_ok hub_step"

lemma acts_snoc: "acts P step x y \<Longrightarrow> P e \<Longrightarrow> acts P step x (snd (step y e))"
  using acts_trans acts_step by metis

lemma hub_acts_send [simp]: "hub_acts g h \<Longrightarrow> hub_acts g (send_to_device d e h)"
  using acts_snoc [of hub_op_ok hub_step g h "HubSend d e"] by simp

lemma hub_acts_broadcast [simp]: "hub_acts g h \<Longrightarrow> hub_acts g (broadcast_network n e h)"
  using acts_snoc [of hub_op_ok hub_step g h "HubBroadcast n e"] by simp

lemma hub_acts_unregister [simp]: "hub_acts g h \<Longrightarrow> hub_acts g (hub_unregister d n h)"
  using acts_snoc [of hub_op_ok hub_step g h "HubUnregister d n"] by simp

lemma hub_acts_unregister_device [simp]: "hub_acts g h \<Longrightarrow> hub_acts g (unregister_device d h)"
  using acts_snoc [of hub_op_ok hub_step g h "HubUnregisterDevice d"] by simp

lemma hub_acts_fold [simp]:
  "hub_acts g h \<Longrightarrow> (\<And>a x. hub_acts g x \<Longrightarrow> hub_acts g (k a x)) \<Longrightarrow> hub_acts g (fold k xs h)"
  by (induction xs arbitrary: h) simp_all

lemma hub_acts_announce [simp]: "hub_acts g h \<Longrightarrow> hub_acts g (announce_left n d h)"
  by (simp add: announce_left_def)

lemma hub_acts_dismiss [simp]: "hub_acts g h \<Longrightarrow> hub_acts g (dismiss_members n ds h)"
  by (simp add: dismiss_members_def)

abbreviation presence_acts :: "PresenceStore \<Rightarrow> PresenceStore \<Rightarrow> bool" where
  "presence_acts \<equiv> acts (\<lambda>_. True) presence_step"

lemma presence_acts_simps [simp]:
  "presence_acts p (touch_heartbeat now d req p)" "presence_acts p (presence_remove d p)"
  "presence_acts p (ws_connected now d p)" "presence_acts p (ws_disconnected now d p)"
  "presence_acts p (touch_relay_udp now d ep p)" "presence_acts p (touch_relay_tcp now d p)"
  using acts_step [of "\<lambda>_. True" "Heartbeat now d req" presence_step p]
    acts_step [of "\<lambda>_. True" "Removed d" presence_step p]
    acts_step [of "\<lambda>_. True" "WsConnected now d" presence_step p]
    acts_step [of "\<lambda>_. True" "WsDisconnected now d" presence_step p]
    acts_step [of "\<lambda>_. True" "RelayUdpSeen now d ep" presence_step p]
    acts_step [of "\<lambda>_. True" "RelayTcpSeen now d" presence_step p]
  by simp_all

section \<open>Operations of the repository\<close>

text \<open>A request enrols at most the device it drew, and only the rotation changes the admin token.\<close>

fun repo_op_ok :: "u64 \<Rightarrow> RepoOp \<Rightarrow> bool" where
  "repo_op_ok i (OpEnroll j _ _ _ _ _ _ _) = (j = i)"
| "repo_op_ok i (OpRotateAdmin _) = False"
| "repo_op_ok i _ = True"

abbreviation repo_acts :: "Coders \<Rightarrow> u64 \<Rightarrow> Repo \<Rightarrow> Repo \<Rightarrow> bool" where
  "repo_acts cd i \<equiv> acts (repo_op_ok i) (repo_step cd)"

lemma repo_acts_simps [simp]:
  "repo_acts cd i r (snd (enroll (cd_hash cd) i tok now etok name spk dpk req r))"
  "repo_acts cd i r (snd (join_network now dev etok req r))"
  "repo_acts cd i r (snd (admin_join_network dev net req single r))"
  "repo_acts cd i r (snd (admin_remove_membership dev net r))"
  "repo_acts cd i r (snd (leave_network (cd_hexenc cd) (cd_hexdec cd) dev name r))"
  "repo_acts cd i r (snd (delete_network net r))"
  "repo_acts cd i r (snd (delete_device dev r))"
  "repo_acts cd i r (snd (rename_device dev name r))"
  "repo_acts cd i r (touch_device now dev r)"
  "repo_acts cd i r (mark_settings_applied dev rv r)"
  "repo_acts cd i r (snd (set_device_settings (cd_json cd) now dev upd r))"
  "repo_acts cd i r (snd (report_settings_fail (cd_json cd) (cd_unjson cd) now dev rv msg r))"
  "repo_acts cd i r (snd (create_network net now name (cidr_display cidr) r))"
  "repo_acts cd i r (snd (create_token etok now net uses ttl req r))"
  "repo_acts cd i r (snd (delete_token etok r))"
  using acts_step [of "repo_op_ok i" "OpEnroll i tok now etok name spk dpk req" "repo_step cd" r]
    acts_step [of "repo_op_ok i" "OpJoin now dev etok req" "repo_step cd" r]
    acts_step [of "repo_op_ok i" "OpAdminJoin dev net req single" "repo_step cd" r]
    acts_step [of "repo_op_ok i" "OpAdminRemove dev net" "repo_step cd" r]
    acts_step [of "repo_op_ok i" "OpLeave dev name" "repo_step cd" r]
    acts_step [of "repo_op_ok i" "OpDeleteNetwork net" "repo_step cd" r]
    acts_step [of "repo_op_ok i" "OpDeleteDevice dev" "repo_step cd" r]
    acts_step [of "repo_op_ok i" "OpRename dev name" "repo_step cd" r]
    acts_step [of "repo_op_ok i" "OpTouch now dev" "repo_step cd" r]
    acts_step [of "repo_op_ok i" "OpApplied dev rv" "repo_step cd" r]
    acts_step [of "repo_op_ok i" "OpSetSettings now dev upd" "repo_step cd" r]
    acts_step [of "repo_op_ok i" "OpFail now dev rv msg" "repo_step cd" r]
    acts_step [of "repo_op_ok i" "OpCreateNetwork net now name cidr" "repo_step cd" r]
    acts_step [of "repo_op_ok i" "OpCreateToken etok now net uses ttl req" "repo_step cd" r]
    acts_step [of "repo_op_ok i" "OpDeleteToken etok" "repo_step cd" r]
  by (simp_all add: case_prod_beta Let_def)

lemma repo_acts_set_ip:
  assumes "get_network net r = Some n" and "cidr_parse (nr_cidr n) = Inr cidr"
  shows "repo_acts cd i r (snd (set_membership_ip_atomic net dev ip cidr r))"
  using acts_step [of "repo_op_ok i" "OpSetIp net dev ip" "repo_step cd" r] assms
  by (simp add: case_prod_beta Let_def)

section \<open>What a handler may do\<close>

definition handled :: "Coders \<Rightarrow> u64 \<Rightarrow> AppState \<Rightarrow> AppState \<Rightarrow> bool" where
  "handled cd i s t =
     (repo_acts cd i (ap_repo s) (ap_repo t) \<and> hub_acts (ap_hub s) (ap_hub t)
      \<and> presence_acts (ap_presence s) (ap_presence t)
      \<and> ap_admin_token t = ap_admin_token s \<and> ap_register_guard t = ap_register_guard s
      \<and> ap_auth_failures t = ap_auth_failures s \<and> ap_banned_until_ms t = ap_banned_until_ms s
      \<and> ap_ws t = ap_ws s \<and> ap_ws_conns t = ap_ws_conns s \<and> ap_next_ws t = ap_next_ws s
      \<and> (\<forall>d. tget (ur_registrations (ap_udp_relay s)) d = None \<longrightarrow>
              tget (ur_registrations (ap_udp_relay t)) d = None)
      \<and> (\<forall>d. tget (ur_key_cache (ap_udp_relay s)) d = None \<longrightarrow>
              tget (ur_key_cache (ap_udp_relay t)) d = None)
      \<and> (\<forall>d. tget (tr_connections (ap_tcp_relay s)) d = None \<longrightarrow>
              tget (tr_connections (ap_tcp_relay t)) d = None)
      \<and> tr_conns (ap_tcp_relay t) = tr_conns (ap_tcp_relay s)
      \<and> tr_conn_total (ap_tcp_relay t) = tr_conn_total (ap_tcp_relay s)
      \<and> tr_conn_per_ip (ap_tcp_relay t) = tr_conn_per_ip (ap_tcp_relay s)
      \<and> tr_queues (ap_tcp_relay t) = tr_queues (ap_tcp_relay s))"

lemma handled_refl [simp]: "handled cd i s s"
  by (simp add: handled_def)

lemma handled_enroll: "handled cd i s (snd (api_enroll cd i tok now q s))"
  by (simp add: api_enroll_def handled_def case_prod_beta Let_def on_hub_def split: option.split sum.split)

lemma handled_heartbeat: "handled cd i s (snd (api_heartbeat cd now r b s))"
proof -
  have "repo_acts cd i x (mark_settings_applied d a (touch_device now d x))" for d a x
    using acts_trans repo_acts_simps(9,10) by metis
  then show ?thesis
    by (simp add: api_heartbeat_def handled_def case_prod_beta Let_def split: option.split)
qed

lemma handled_settings_fail: "handled cd i s (snd (api_settings_fail cd now r b s))"
  by (simp add: api_settings_fail_def handled_def case_prod_beta Let_def on_hub_def split: option.split sum.split)

lemma handled_join: "handled cd i s (snd (api_join cd now r b s))"
  by (simp add: api_join_def handled_def case_prod_beta Let_def on_hub_def split: option.split sum.split)

lemma handled_leave: "handled cd i s (snd (api_leave cd r b s))"
  by (simp add: api_leave_def handled_def case_prod_beta Let_def on_hub_def
      split: option.split sum.split)

lemma handled_admin_join: "handled cd i s (snd (admin_device_join_network cd r p b s))"
  by (simp add: admin_device_join_network_def handled_def case_prod_beta Let_def on_hub_def
      split: option.split sum.split)

lemma handled_admin_leave: "handled cd i s (snd (admin_device_leave_network cd r p n s))"
  by (simp add: admin_device_leave_network_def handled_def case_prod_beta Let_def on_hub_def
      split: option.split sum.split)

lemma handled_put_settings: "handled cd i s (snd (admin_put_device_settings cd now r p b s))"
  by (simp add: admin_put_device_settings_def handled_def case_prod_beta Let_def on_hub_def split: option.split)

lemma handled_push: "handled cd i s (snd (admin_device_push ty r p s))"
  by (simp add: admin_device_push_def handled_def on_hub_def split: option.split)

lemma handled_create_network: "handled cd i s (snd (admin_create_network n now r b s))"
  by (simp add: admin_create_network_def handled_def case_prod_beta Let_def split: option.split sum.split)

lemma handled_delete_network: "handled cd i s (snd (admin_delete_network cd r p s))"
  by (simp add: admin_delete_network_def handled_def case_prod_beta Let_def on_hub_def
      split: option.split)

lemma handled_create_token: "handled cd i s (snd (admin_create_token cd t now r b s))"
  by (simp add: admin_create_token_def handled_def case_prod_beta Let_def split: option.split sum.split)

lemma handled_revoke_token: "handled cd i s (snd (admin_revoke_token r t s))"
  by (simp add: admin_revoke_token_def handled_def case_prod_beta Let_def)

lemma handled_list_devices: "handled cd i s (snd (admin_list_devices cd now r s))"
  by (simp add: admin_list_devices_def handled_def Let_def)

lemma handled_forget: "handled cd i s (forget_device d nets s)"
  by (simp add: forget_device_def handled_def udp_unregister_def table_simps)

lemma handled_delete_device: "handled cd i s (snd (admin_delete_device r p s))"
proof -
  have "handled cd i s (forget_device d nets (s\<lparr>ap_repo := snd (delete_device d (ap_repo s))\<rparr>))" for d nets
    using handled_forget [of cd i "s\<lparr>ap_repo := snd (delete_device d (ap_repo s))\<rparr>" d nets]
    by (simp add: handled_def forget_device_def)
  then show ?thesis
    by (simp add: admin_delete_device_def case_prod_beta Let_def split: option.split)
       (simp add: handled_def)
qed

lemma handled_set_ip: "handled cd i s (snd (admin_set_ip cd r n d b s))"
  by (simp add: admin_set_ip_def handled_def case_prod_beta Let_def on_hub_def
      repo_acts_set_ip split: option.split sum.split)

lemma handled_rename: "handled cd i s (snd (admin_device_rename r p b s))"
  by (simp add: admin_device_rename_def handled_def case_prod_beta Let_def on_hub_def split: option.split)

lemmas handled_handlers = handled_enroll handled_heartbeat handled_settings_fail handled_join handled_leave
  handled_admin_join handled_admin_leave handled_put_settings handled_push handled_create_network
  handled_delete_network handled_create_token handled_revoke_token handled_list_devices
  handled_delete_device handled_set_ip handled_rename

lemma route_handled:
  assumes "\<forall>r. q \<noteq> Events r \<and> q \<noteq> AdminRotateToken r"
  shows "handled (wd_coders w) (fs_device_id f) s (snd (route w f now q s))"
  using assms by (cases q) (simp_all add: handled_handlers admin_device_restart_def admin_device_reconnect_def)

section \<open>The settings table and the device ids under repository operations\<close>

lemma with_tx_frame: "(\<And>r t. f s = Inr (r, t) \<Longrightarrow> R s t) \<Longrightarrow> R s s \<Longrightarrow> R s (snd (with_tx f s))"
  by (auto simp: with_tx_def split: sum.splits)

text \<open>What is kept: the key-value settings, and no device id but i is new.\<close>

definition ids_settings :: "u64 \<Rightarrow> Repo \<Rightarrow> Repo \<Rightarrow> bool" where
  "ids_settings i s t =
     (rp_settings t = rp_settings s
      \<and> dr_id ` set (rp_devices t) \<subseteq> insert i (dr_id ` set (rp_devices s)))"

lemma ids_settings_refl [simp]: "ids_settings i s s"
  by (auto simp: ids_settings_def)

lemma insert_subset_trans: "B \<subseteq> insert i A \<Longrightarrow> C \<subseteq> insert i B \<Longrightarrow> C \<subseteq> insert i A"
  by auto

lemma ids_settings_trans: "ids_settings i s t \<Longrightarrow> ids_settings i t u \<Longrightarrow> ids_settings i s u"
  unfolding ids_settings_def using insert_subset_trans by (metis (no_types, lifting))

lemma insert_rows_ids:
  "insert_device d s = Inr t \<Longrightarrow> rp_settings t = rp_settings s \<and> set (rp_devices t) = insert d (set (rp_devices s))"
  "insert_member_row m s = Inr t \<Longrightarrow> rp_settings t = rp_settings s \<and> rp_devices t = rp_devices s"
  "insert_membership n dv r f s = Inr (ip, t) \<Longrightarrow> rp_settings t = rp_settings s \<and> rp_devices t = rp_devices s"
  by (auto simp: insert_device_def insert_member_row_def insert_membership_def Let_def
      split: if_splits sum.splits)

lemma consume_ids [simp]: "rp_settings (snd (consume_token_use b s)) = rp_settings s"
  by (simp add: consume_token_use_def)

lemma tx_ids:
  "ids_settings i s (snd (enroll hash i tok now et name spk dpk req s))"
  "ids_settings i s (snd (join_network now d et req s))"
  "ids_settings i s (snd (admin_join_network d net req sg s))"
  "ids_settings i s (snd (set_membership_ip_atomic net d ip c s))"
  "ids_settings i s (snd (remove_membership_guarded d net s))"
  unfolding enroll_def join_network_def admin_join_network_def set_membership_ip_atomic_def
    remove_membership_guarded_def Let_def case_prod_beta
  by (rule with_tx_frame [where R = "ids_settings i"];
      auto simp: ids_settings_def enroll_tx_def join_network_tx_def admin_join_tx_def set_ip_tx_def
        update_ip_row_def remove_membership_tx_def Let_def case_prod_beta
        split: sum.splits option.splits if_splits dest!: insert_rows_ids)+

lemma admin_leave_ids:
  "ids_settings i s (snd (admin_remove_membership d net s))"
  "ids_settings i s (snd (leave_network henc hdec d name s))"
  using tx_ids(5)
  by (auto simp: admin_remove_membership_def leave_network_def split: option.split prod.split sum.split)
     (metis snd_conv)+

lemma ids_settings_upd [simp]:
  "rp_settings t = rp_settings s \<Longrightarrow> rp_devices t = rp_devices s \<Longrightarrow> ids_settings i s t"
  by (auto simp: ids_settings_def)

lemma ids_settings_devices:
  "dr_id ` set ds \<subseteq> dr_id ` set (rp_devices s) \<Longrightarrow> ids_settings i s (s\<lparr>rp_memberships := m, rp_devices := ds\<rparr>)"
  "dr_id ` set ds \<subseteq> dr_id ` set (rp_devices s) \<Longrightarrow> ids_settings i s (s\<lparr>rp_devices := ds\<rparr>)"
  by (auto simp: ids_settings_def)

lemma repo_step_ids:
  assumes "repo_op_ok i op"
  shows "ids_settings i s (snd (repo_step cd s op))"
  using assms
proof (cases op)
  case (OpDeleteDevice d)
  then show ?thesis by (auto simp: delete_device_def Let_def intro!: ids_settings_devices)
next
  case (OpRename d n)
  then show ?thesis by (auto simp: rename_device_def intro!: ids_settings_devices)
next
  case (OpTouch now d)
  then show ?thesis by (auto simp: touch_device_def intro!: ids_settings_devices)
qed (auto simp: case_prod_beta Let_def tx_ids admin_leave_ids create_network_def delete_network_def
      create_token_def delete_token_def
      mark_settings_applied_def set_device_settings_def report_settings_fail_def report_fail_tx_def with_tx_def
      split: option.splits sum.splits)

lemma get_device_None: "get_device d s = None \<longleftrightarrow> d \<notin> dr_id ` set (rp_devices s)"
  by (auto simp: get_device_def find_eq_None)

lemma repo_acts_ids:
  assumes "repo_acts cd i s t"
  shows "rp_settings t = rp_settings s" and "d \<noteq> i \<Longrightarrow> get_device d s = None \<Longrightarrow> get_device d t = None"
proof -
  have "ids_settings i s t"
  proof (rule acts_keeps [OF assms])
    fix x e
    assume "ids_settings i s x" "repo_op_ok i e"
    from this(1) repo_step_ids [OF this(2), of x cd] show "ids_settings i s (snd (repo_step cd x e))"
      by (rule ids_settings_trans)
  qed simp
  then show "rp_settings t = rp_settings s" "d \<noteq> i \<Longrightarrow> get_device d s = None \<Longrightarrow> get_device d t = None"
    by (auto simp: ids_settings_def get_device_None)
qed

section \<open>The invariant of the server\<close>

context machine begin

lemma acts_inv: "acts P step x y \<Longrightarrow> inv x \<Longrightarrow> inv y"
  unfolding acts_def using run_snd_inv by blast

end

definition ws_inv :: "AppState \<Rightarrow> bool" where
  "ws_inv s =
     (tinv (ap_ws s) \<and> (\<forall>cid\<in>set (map fst (ap_ws s)). cid < ap_next_ws s)
      \<and> ap_ws_conns s = of_nat (length (ap_ws s)) \<and> length (ap_ws s) \<le> 512)"

definition throttle_inv :: "AppState \<Rightarrow> bool" where
  "throttle_inv s = (tinv (ap_auth_failures s)
     \<and> (\<forall>ip t n. tget (ap_auth_failures s) ip = Some (t, n) \<longrightarrow> n < MAX_FAILS))"

definition server_inv :: "AppState \<Rightarrow> bool" where
  "server_inv s =
     (book_inv (ap_repo s) \<and> admin_token (ap_repo s) = Some (ap_admin_token s)
      \<and> hub_inv (ap_hub s) \<and> presence_inv (ap_presence s) \<and> admission_inv (ap_tcp_relay s)
      \<and> ws_inv s \<and> throttle_inv s)"

lemma handled_inv:
  assumes "handled cd i s t" and "server_inv s"
  shows "server_inv t"
proof -
  have "admin_token (ap_repo t) = Some (ap_admin_token t)"
    using assms repo_acts_ids(1) by (auto simp: handled_def server_inv_def admin_token_def get_setting_def)
  moreover have "admission_inv (ap_tcp_relay t)"
    using assms by (simp add: handled_def server_inv_def admission_inv_def conn_ips_def ip_count_def)
  ultimately show ?thesis
    using assms book.acts_inv hub.acts_inv presence.acts_inv
    by (fastforce simp: handled_def server_inv_def ws_inv_def throttle_inv_def)
qed

lemma rotate_inv: "server_inv s \<Longrightarrow> server_inv (snd (admin_rotate_token fresh r s))"
  using book.step_inv [of "ap_repo s" cd "OpRotateAdmin fresh"]
  by (auto simp: admin_rotate_token_def rotate_admin_token_def server_inv_def ws_inv_def throttle_inv_def
      admin_token_def get_setting_def set_setting_def table_simps case_prod_beta)

lemma max_ws: "(512::u64) \<le> of_nat n \<longleftrightarrow> 512 \<le> n" if "n \<le> 512"
proof -
  have "unat (of_nat n :: u64) = n" using that by (simp add: unat_of_nat)
  then show ?thesis by (simp add: word_le_nat_alt)
qed

lemma ws_inv_push:
  assumes "ws_inv s" and "\<not> MAX_WS_CONNS \<le> ap_ws_conns s"
  shows "ws_inv (s\<lparr>ap_ws_conns := ap_ws_conns s + 1, ap_ws := tput (ap_next_ws s) x (ap_ws s),
                  ap_next_ws := ap_next_ws s + 1\<rparr>)"
proof -
  have new: "ap_next_ws s \<notin> set (map fst (ap_ws s))" using assms(1) by (auto simp: ws_inv_def)
  then have "tput (ap_next_ws s) x (ap_ws s) = ap_ws s @ [(ap_next_ws s, x)]"
    by (intro tput_new) (simp add: map_of_eq_None_iff)
  moreover have "length (ap_ws s) < 512"
    using assms max_ws [of "length (ap_ws s)"] by (auto simp: ws_inv_def MAX_WS_CONNS_def)
  ultimately show ?thesis
    using assms(1) new by (auto simp: ws_inv_def tinv_def less_Suc_eq)
qed

lemma events_inv: "server_inv s \<Longrightarrow> server_inv (snd (api_ws_events cd r s))"
  using ws_inv_push [of s]
  by (auto simp: api_ws_events_def server_inv_def throttle_inv_def split: option.split)

lemma route_inv: "server_inv s \<Longrightarrow> server_inv (snd (route w f now q s))"
proof (cases "\<exists>r. q = Events r \<or> q = AdminRotateToken r")
  case True
  moreover assume "server_inv s"
  ultimately show ?thesis by (auto simp: events_inv rotate_inv)
next
  case False
  moreover assume "server_inv s"
  ultimately show ?thesis by (blast intro: handled_inv [OF route_handled])
qed

lemma count_answer_inv: "server_inv s \<Longrightarrow> server_inv (snd (count_answer now ip r s))"
proof -
  assume i: "server_inv s"
  have "throttle_inv (snd (count_answer now ip r s))"
    using i by (auto simp: server_inv_def throttle_inv_def count_answer_def Let_def table_simps
        MAX_FAILS_def not_le split: option.splits prod.splits if_splits)
  then show ?thesis
    using i by (auto simp: server_inv_def ws_inv_def count_answer_def Let_def case_prod_beta split: if_splits)
qed

lemma serve_inv: "server_inv s \<Longrightarrow> server_inv (snd (serve w f now ip q s))"
  using count_answer_inv [OF route_inv]
  by (simp add: serve_def auth_throttle_def Let_def case_prod_beta)

text \<open>The parts of the invariant that the sockets and the relays leave alone.\<close>

lemma server_inv_parts:
  assumes "server_inv s" and "ap_repo t = ap_repo s" and "ap_admin_token t = ap_admin_token s"
    and "hub_inv (ap_hub t)" and "presence_acts (ap_presence s) (ap_presence t)"
    and "admission_inv (ap_tcp_relay t)" and "ws_inv t" and "ap_auth_failures t = ap_auth_failures s"
  shows "server_inv t"
  using assms presence.acts_inv [OF assms(5)] by (simp add: server_inv_def throttle_inv_def)

lemma server_inv_dest:
  assumes "server_inv s"
  shows "hub_inv (ap_hub s)" "admission_inv (ap_tcp_relay s)" "ws_inv s"
  using assms by (simp_all add: server_inv_def)

lemma ws_inv_put:
  assumes "ws_inv s" and "tget (ap_ws s) cid \<noteq> None" and "ap_ws t = tput cid x (ap_ws s)"
    and "ap_ws_conns t = ap_ws_conns s" and "ap_next_ws t = ap_next_ws s"
  shows "ws_inv t"
proof -
  have "map fst (tput cid x (ap_ws s)) = map fst (ap_ws s)"
    using assms(2) by (induction "ap_ws s" rule: list.induct) (auto simp: update_keys map_of_eq_None_iff)
  moreover from this have "length (tput cid x (ap_ws s)) = length (ap_ws s)" by (metis length_map)
  ultimately show ?thesis using assms by (simp add: ws_inv_def tinv_def)
qed

lemma ws_inv_del:
  assumes "ws_inv s" and "tget (ap_ws s) cid = Some v" and "ap_ws t = tdel cid (ap_ws s)"
    and "ap_ws_conns t = ap_ws_conns s - 1" and "ap_next_ws t = ap_next_ws s"
  shows "ws_inv t"
proof -
  have t: "tinv (ap_ws s)" using assms(1) by (simp add: ws_inv_def)
  have l: "Suc (length (tdel cid (ap_ws s))) = length (ap_ws s)"
    using length_tdel_hit [OF t assms(2)] .
  have "set (map fst (ap_ws t)) \<subseteq> set (map fst (ap_ws s))"
    using assms(3) by (auto simp: tdel_filter)
  moreover have "ap_ws_conns t = of_nat (length (ap_ws t))"
    using assms(1,3,4) by (simp add: ws_inv_def flip: l)
  ultimately show ?thesis
    using assms(1,3,5) l t unfolding ws_inv_def by (simp del: set_map) (meson le_SucI subsetD Suc_leD)
qed

lemma server_inv_socket:
  assumes "server_inv s" and "tget (ap_ws s) cid = Some v"
    and "ap_repo t = ap_repo s" "ap_admin_token t = ap_admin_token s" "ap_tcp_relay t = ap_tcp_relay s"
      "ap_auth_failures t = ap_auth_failures s" "ap_next_ws t = ap_next_ws s"
    and "hub_inv (ap_hub t)" and "presence_acts (ap_presence s) (ap_presence t)"
    and "(\<exists>x. ap_ws t = tput cid x (ap_ws s)) \<and> ap_ws_conns t = ap_ws_conns s
       \<or> ap_ws t = tdel cid (ap_ws s) \<and> ap_ws_conns t = ap_ws_conns s - 1"
  shows "server_inv t"
proof (rule server_inv_parts [OF assms(1)])
  have "ws_inv s" using assms(1) by (rule server_inv_dest)
  then show "ws_inv t" using ws_inv_put [of s cid t] ws_inv_del [of s cid v t] assms(2,7,10) by auto
qed (use assms server_inv_dest [OF assms(1)] in simp_all)

lemma ws_start_inv: "server_inv s \<Longrightarrow> server_inv (ws_start now cid s)"
proof -
  assume i: "server_inv s"
  have "server_inv (ws_start now cid s)" if "tget (ap_ws s) cid = Some (WsPending d n)" for d n
    by (rule server_inv_socket [OF i that])
       (use that server_inv_dest [OF i] hub_inv_register in \<open>auto simp: ws_start_def Let_def case_prod_beta\<close>)
  then show ?thesis using i by (fastforce simp: ws_start_def split: option.split WsSocket.split)
qed

lemma hub_inv_teardown: "hub_inv h \<Longrightarrow> hub_inv (unregister_if_current d n ch h)"
  by (simp add: unregister_if_current_def hub_inv_tdel)

lemma ws_end_inv:
  assumes "server_inv s" and "tget (ap_ws s) cid = Some v"
  shows "server_inv (ws_end now cid d n ch s)"
  by (rule server_inv_socket [OF assms])
     (use server_inv_dest [OF assms(1)] in \<open>simp_all add: ws_end_def hub_inv_teardown\<close>)

lemma ws_failed_inv: "server_inv s \<Longrightarrow> server_inv (ws_failed cid s)"
proof -
  assume i: "server_inv s"
  have "server_inv (s\<lparr>ap_ws_conns := ap_ws_conns s - 1, ap_ws := tdel cid (ap_ws s)\<rparr>)"
    if "tget (ap_ws s) cid = Some v" for v
    by (rule server_inv_socket [OF i that]) (use server_inv_dest [OF i] in simp_all)
  then show ?thesis using i by (simp add: ws_failed_def split: option.split WsSocket.split)
qed

lemma ws_turn_inv: "server_inv s \<Longrightarrow> server_inv (snd (ws_turn now cid wake s))"
proof -
  assume i: "server_inv s"
  have "server_inv (s\<lparr>ap_ws := tput cid x (ap_ws s)\<rparr>)" if "tget (ap_ws s) cid = Some v" for v x
    by (rule server_inv_socket [OF i that]) (use server_inv_dest [OF i] in auto)
  then show ?thesis
    using i ws_end_inv [OF i]
    by (simp add: ws_turn_def split: option.split WsSocket.split WsWake.split HubMessage.split)
qed

section \<open>The relays\<close>

lemma relay_key_presence [simp]: "ur_presence (snd (relay_key_of l now d r)) = ur_presence r"
  by (simp add: relay_key_of_def split: option.split)

lemma presence_acts_trans_udp:
  "presence_acts p q \<Longrightarrow> presence_acts p (touch_relay_udp now d ep q)"
  "presence_acts p q \<Longrightarrow> presence_acts p (touch_relay_tcp now d q)"
  using acts_trans presence_acts_simps(5,6) by metis+

lemma udp_presence: "presence_acts (ur_presence r) (ur_presence (snd (udp_step h l r e)))"
proof (cases e)
  case (Datagram now ok peer p)
  have "presence_acts (ur_presence r) (ur_presence (snd (handle_register h l now peer p d r)))" for d
    by (simp add: handle_register_def Let_def case_prod_beta count_drop_def split: option.split)
  moreover have "presence_acts (ur_presence r) (ur_presence (snd (handle_relay now ok peer src dst f r)))" for src dst f
    by (simp add: handle_relay_def Let_def count_drop_def split: option.split)
  ultimately show ?thesis
    using Datagram by (simp add: udp_handle_def count_drop_def split: option.split RelayPacket.split)
qed (simp_all add: udp_sweep_def udp_unregister_def)

lemma try_send_presence [simp]: "tr_presence (snd (try_send ch m r)) = tr_presence r"
  by (simp add: try_send_def split: option.split)

lemma session_end_presence [simp]: "tr_presence (session_end cid c res r) = tr_presence r"
  by (simp add: session_end_def set_conn_def Let_def split: sum.split)

lemma session_frames_presence:
  "presence_acts (tr_presence r) (tr_presence (snd (session_frames now cid d fs r)))"
proof (induction fs arbitrary: r)
  case (Cons f fs)
  have a: "presence_acts (tr_presence r) (tr_presence (snd (session_frame now cid d f r)))"
    by (simp add: session_frame_def Let_def case_prod_beta split: option.split RelayTcpMsg.split)
  then show ?case
    using acts_trans [OF a Cons.IH] by (simp add: case_prod_beta Let_def split: option.split)
qed simp

lemma session_chunk_presence:
  "presence_acts (tr_presence r) (tr_presence (session_chunk now cid c b r))"
proof -
  have "tr_presence (set_conn cid x r) = tr_presence r" for x by (simp add: set_conn_def)
  then show ?thesis
    using session_frames_presence [of "set_conn cid x r" for x]
    by (auto simp: session_chunk_def Let_def case_prod_beta split: option.split sum.split)
qed

lemma release_presence [simp]: "tr_presence (conn_done cid c r) = tr_presence r"
  by (simp add: conn_done_def release_admission_def Let_def split: option.split)

lemma authenticate_presence [simp]: "tr_presence (snd (authenticate h l now f r)) = tr_presence r"
  by (simp add: authenticate_def Let_def case_prod_beta split: option.split RelayTcpMsg.split)

lemma tcp_presence: "presence_acts (tr_presence r) (tr_presence (snd (tcp_step h l r e)))"
proof (cases e)
  case (FirstFrame cid now f)
  have "tr_presence (session_start now cid c d x) = touch_relay_tcp now d (tr_presence x)" for c d x
    by (simp add: session_start_def set_conn_def Let_def case_prod_beta split: option.split)
  then show ?thesis
    using FirstFrame by (simp add: Let_def case_prod_beta split: option.split sum.split)
qed (simp_all add: Let_def case_prod_beta tcp_admit_def reject_log_def set_conn_def writer_step_def
      session_chunk_presence split: option.split list.split)

lemma serve_udp_inv:
  assumes "server_inv s"
  shows "server_inv (snd (serve_udp w e s))"
proof -
  let ?r = "(ap_udp_relay s)\<lparr>ur_presence := ap_presence s, ur_register_guard := ap_register_guard s\<rparr>"
  have "presence_inv (ur_presence (snd (udp_step h l ?r e)))" for h l
    by (rule presence.acts_inv [OF udp_presence]) (use assms in \<open>simp add: server_inv_def\<close>)
  then show ?thesis
    using assms by (simp add: serve_udp_def Let_def case_prod_beta server_inv_def ws_inv_def throttle_inv_def)
qed

lemma serve_tcp_inv:
  assumes "server_inv s"
  shows "server_inv (serve_tcp w e s)"
proof -
  let ?r = "(ap_tcp_relay s)\<lparr>tr_presence := ap_presence s, tr_register_guard := ap_register_guard s\<rparr>"
  have "presence_inv (tr_presence (snd (tcp_step h l ?r e)))" for h l
    by (rule presence.acts_inv [OF tcp_presence]) (use assms in \<open>simp add: server_inv_def\<close>)
  moreover have "admission_inv ?r"
    using assms by (simp add: server_inv_def admission_inv_def conn_ips_def ip_count_def)
  then have "admission_inv (snd (tcp_step h l ?r e))" for h l
    by (cases "tcp_step h l ?r e") (simp add: admission.step_inv)
  ultimately show ?thesis
    using assms by (simp add: serve_tcp_def Let_def case_prod_beta server_inv_def ws_inv_def throttle_inv_def)
qed

interpretation server: machine "server_step w" server_inv for w
proof
  fix s e r s'
  assume i: "server_inv s" and s: "server_step w s e = (r, s')"
  then have s': "s' = snd (server_step w s e)" by simp
  show "server_inv s'"
    unfolding s'
    by (cases e) (simp_all add: Let_def case_prod_beta i serve_inv ws_start_inv ws_failed_inv ws_turn_inv
        serve_udp_inv serve_tcp_inv split: TcpEvent.split)
qed

lemma server_start_inv:
  assumes "book_inv repo"
  shows "server_inv (server_start tok up tp fp repo)"
proof -
  have a: "admission_inv (tcp_relay_new presence_new [])"
    by (simp add: admission_inv_def tcp_relay_new_def conn_ips_def MAX_CONNS_TOTAL_def ip_count_def)
  have "book_inv (set_setting k v repo)" for k v
    by (rule book_inv_cong [OF assms]) (simp_all add: set_setting_def)
  then show ?thesis
    using assms a
    by (auto simp: server_start_def get_or_create_admin_token_def server_inv_def ws_inv_def throttle_inv_def
        hub_inv_new presence_inv_def presence_new_def admin_token_def get_setting_def set_setting_def table_simps
        split: option.split)
qed

text \<open>
  C7 (invariant). The invariant of the whole server, over any history of HTTP requests, sockets, relay
  packets and timers, started on a repository that any history of requests left:
  the address book is consistent, the admin token in memory is the stored one (so a
  restart keeps it), hub, presence and relay admission keep their invariants, the
  socket counter is exact and at most 512, and no address has ten counted failures.
\<close>
theorem server_invariant:
  "server_inv (snd (run (server_step w)
     (server_start tok up tp fp (snd (run (repo_step cd) repo_empty ops))) es))"
  by (rule server.run_snd_inv [OF server_start_inv]) (rule book.run_snd_inv [OF book_inv_empty])

end
