(* ===== verification/AppSecurity.thy ===== *)
theory AppSecurity
  imports AppProps
begin

text \<open>
  Who may do what at the HTTP server: the requests that are answered 401 are exactly the
  unauthorised ones and they change nothing; what the throttle of failed
  authentications stops, and what it does not; what the deletion of a device revokes.
\<close>

section \<open>Authentication\<close>

lemma fold_xor_zero:
  "length a = length b \<Longrightarrow> (fold (\<lambda>(x, y) diff. diff OR (x XOR y)) (zip a b) (0::u8) = 0) = (a = b)"
  using ct_eq_iff [of a b] by (simp add: ct_eq_def)

lemma ct_str_eq_iff: "ct_str_eq a b \<longleftrightarrow> a = b"
proof (cases "length (as_bytes a) = length (as_bytes b)")
  case True
  then show ?thesis unfolding ct_str_eq_def Let_def using fold_xor_zero by simp
qed (auto simp: ct_str_eq_def)

text \<open>The credentials a request needs: the admin's, a device's, or none.\<close>

datatype Credential = NoCredential | AdminCredential Req | DeviceCredential Req | SocketCredential Req

fun credential :: "ApiRequest \<Rightarrow> Credential" where
  "credential RootRedirect = NoCredential"
| "credential (Enroll q) = NoCredential"
| "credential ConsoleIndex = NoCredential"
| "credential (ConsoleStatic p) = NoCredential"
| "credential (GetConfig r) = DeviceCredential r"
| "credential (GetPeers r) = DeviceCredential r"
| "credential (GetSettings r) = DeviceCredential r"
| "credential (SettingsFail r b) = DeviceCredential r"
| "credential (ListMemberships r) = DeviceCredential r"
| "credential (PostHeartbeat r b) = DeviceCredential r"
| "credential (Join r b) = DeviceCredential r"
| "credential (Leave r b) = DeviceCredential r"
| "credential (Events r) = SocketCredential r"
| "credential (AdminSummary r) = AdminCredential r"
| "credential (AdminListNetworks r) = AdminCredential r"
| "credential (AdminCreateNetwork r b) = AdminCredential r"
| "credential (AdminDeleteNetwork r i) = AdminCredential r"
| "credential (AdminListTokens r) = AdminCredential r"
| "credential (AdminCreateToken r b) = AdminCredential r"
| "credential (AdminRevokeToken r t) = AdminCredential r"
| "credential (AdminListDevices r) = AdminCredential r"
| "credential (AdminDeleteDevice r i) = AdminCredential r"
| "credential (AdminRename r i b) = AdminCredential r"
| "credential (AdminPutSettings r i b) = AdminCredential r"
| "credential (AdminGetSettings r i) = AdminCredential r"
| "credential (AdminRestart r i) = AdminCredential r"
| "credential (AdminReconnect r i) = AdminCredential r"
| "credential (AdminJoin r i b) = AdminCredential r"
| "credential (AdminLeave r i n) = AdminCredential r"
| "credential (AdminSetIp r n i b) = AdminCredential r"
| "credential (AdminRotateToken r) = AdminCredential r"

text \<open>Some enrolled device has the token.\<close>

definition knows_device :: "Coders \<Rightarrow> string \<Rightarrow> AppState \<Rightarrow> bool" where
  "knows_device cd token s = list_ex (\<lambda>d. dr_token_hash d = cd_hash cd token) (rp_devices (ap_repo s))"

definition authorised :: "Coders \<Rightarrow> ApiRequest \<Rightarrow> AppState \<Rightarrow> bool" where
  "authorised cd q s =
     (case credential q of
        NoCredential \<Rightarrow> True
      | AdminCredential r \<Rightarrow>
          (case rq_admin_token r of None \<Rightarrow> False | Some t \<Rightarrow> fst (split_token t) = ap_admin_token s)
      | DeviceCredential r \<Rightarrow>
          (case extract_token r of None \<Rightarrow> False | Some t \<Rightarrow> knows_device cd t s)
      | SocketCredential r \<Rightarrow>
          (case opt_or (rq_token r) (extract_token r) of None \<Rightarrow> False | Some t \<Rightarrow> knows_device cd t s))"

lemma find_by_hash_None:
  "find_device_by_token_hash h s = None \<longleftrightarrow> \<not> list_ex (\<lambda>d. dr_token_hash d = h) (rp_devices s)"
proof -
  have "(filter (\<lambda>d. dr_token_hash d = h) (rp_devices s) = []) = (\<not> list_ex (\<lambda>d. dr_token_hash d = h) (rp_devices s))"
    by (auto simp: filter_empty_conv list_ex_iff)
  moreover have "(sort_key f xs = []) = (xs = [])" for f :: "DeviceRow \<Rightarrow> int" and xs
    by (metis length_0_conv length_sort)
  ultimately show ?thesis by (auto simp: find_device_by_token_hash_def split: list.split)
qed

lemma auth_admin_iff:
  "auth_admin r s \<longleftrightarrow> (case rq_admin_token r of None \<Rightarrow> False | Some t \<Rightarrow> fst (split_token t) = ap_admin_token s)"
  by (simp add: auth_admin_def case_prod_beta ct_str_eq_iff split: option.split)

lemma auth_device_None:
  "auth_device cd r s = None \<longleftrightarrow> \<not> (case extract_token r of None \<Rightarrow> False | Some t \<Rightarrow> knows_device cd t s)"
  by (simp add: auth_device_def find_by_hash_None knows_device_def split: option.split)

lemma statuses [simp]:
  "rs_status (resp n b) = n" "rs_status (err n e) = n" "rs_status (ok_json b) = 200" "rs_status admin_denied = 401"
  by (simp_all add: resp_def err_def ok_json_def admin_denied_def)

lemma repo_err_status [simp]: "n \<noteq> 401 \<Longrightarrow> rs_status (repo_err n e) \<noteq> 401"
  by (simp add: repo_err_def split: RepoError.split)

lemma proto_status [simp]: "proto_version_reject v = Some r \<Longrightarrow> rs_status r = 426"
  by (auto simp: proto_version_reject_def split: option.splits if_splits)

lemma enroll_check_status: "enroll_check cd q = Some r \<Longrightarrow> rs_status r \<noteq> 401"
  by (auto simp: enroll_check_def split: option.splits if_splits)

lemma settings_check_status: "settings_check d p s = Some r \<Longrightarrow> rs_status r \<noteq> 401"
  by (auto simp: settings_check_def Let_def split: sum.splits option.splits if_splits)

text \<open>A handler of an administrator and one of a device.\<close>

lemma admin_handlers:
  assumes "credential q = AdminCredential r"
  shows "(rs_status (fst (route w f now q s)) = 401 \<longleftrightarrow> \<not> auth_admin r s)"
    and "\<not> auth_admin r s \<Longrightarrow> snd (route w f now q s) = s"
proof -
  have "rs_status (settings_answer x) \<noteq> 401" for x by (simp add: settings_answer_def split: sum.split)
  then show "(rs_status (fst (route w f now q s)) = 401 \<longleftrightarrow> \<not> auth_admin r s)"
    using assms
    by (cases q)
       (auto simp: admin_summary_def admin_list_networks_def admin_create_network_def admin_delete_network_def
        admin_list_tokens_def admin_create_token_def admin_revoke_token_def admin_list_devices_def
        admin_delete_device_def admin_device_rename_def admin_put_device_settings_def
        admin_get_device_settings_def admin_device_restart_def admin_device_reconnect_def admin_device_push_def
        admin_device_join_network_def admin_device_leave_network_def admin_set_ip_def admin_rotate_token_def
        Let_def case_prod_beta dest: settings_check_status split: option.splits sum.splits if_splits)
  show "\<not> auth_admin r s \<Longrightarrow> snd (route w f now q s) = s"
    using assms
    by (cases q)
       (simp_all add: admin_summary_def admin_list_networks_def admin_create_network_def admin_delete_network_def
        admin_list_tokens_def admin_create_token_def admin_revoke_token_def admin_list_devices_def
        admin_delete_device_def admin_device_rename_def admin_put_device_settings_def
        admin_get_device_settings_def admin_device_restart_def admin_device_reconnect_def admin_device_push_def
        admin_device_join_network_def admin_device_leave_network_def admin_set_ip_def admin_rotate_token_def)
qed

lemma device_handlers:
  assumes "credential q = DeviceCredential r"
  shows "(rs_status (fst (route w f now q s)) = 401 \<longleftrightarrow> auth_device (wd_coders w) r s = None)"
    and "auth_device (wd_coders w) r s = None \<Longrightarrow> snd (route w f now q s) = s"
  using assms
  by (cases q;
      auto simp: api_get_config_def api_get_peers_def api_get_settings_def api_settings_fail_def
        api_list_memberships_def api_heartbeat_def api_join_def api_leave_def settings_answer_def
        Let_def case_prod_beta split: option.split sum.split)+

lemma open_handlers:
  assumes "credential q = NoCredential"
  shows "rs_status (fst (route w f now q s)) \<noteq> 401"
  using assms
  by (cases q)
     (auto simp: api_enroll_def admin_index_def asset_response_def Let_def case_prod_beta
      dest: enroll_check_status split: option.split sum.split)

lemma socket_handler:
  assumes "q = Events r"
  shows "(rs_status (fst (route w f now q s)) = 401 \<longleftrightarrow> \<not> authorised (wd_coders w) q s)
     \<and> (\<not> authorised (wd_coders w) q s \<longrightarrow> snd (route w f now q s) = s)"
proof (cases "opt_or (rq_token r) (extract_token r)")
  case None
  then show ?thesis using assms by (simp add: api_ws_events_def opt_or_def authorised_def)
next
  case (Some t)
  have k: "knows_device (wd_coders w) t s = (find_device_by_token_hash (cd_hash (wd_coders w) t) (ap_repo s) \<noteq> None)"
    by (simp add: find_by_hash_None knows_device_def)
  have t: "(case rq_token r of None \<Rightarrow> extract_token r | Some t \<Rightarrow> Some t) = Some t"
    using Some by (simp add: opt_or_def split: option.splits)
  show ?thesis
    using Some assms t by (simp add: authorised_def k api_ws_events_def split: option.split)
qed

text \<open>A concrete server: coders that keep texts apart, one embedded page, an empty repository.\<close>

definition demo_coders :: Coders where
  "demo_coders = \<lparr>cd_hash = id, cd_hexenc = chars_of, cd_hexdec = (\<lambda>x. Some (as_bytes x)),
                  cd_json = (\<lambda>_. []), cd_unjson = (\<lambda>_. Some default_settings)\<rparr>"

definition demo_world :: World where
  "demo_world = \<lparr>wd_coders = demo_coders, wd_hmac = (\<lambda>k b. replicate 32 0), wd_sha256 = (\<lambda>_. []),
                 wd_assets = (\<lambda>p. if p = ''index.html'' then Some [] else None)\<rparr>"

definition demo_fresh :: Fresh where
  "demo_fresh = \<lparr>fs_device_id = 1, fs_device_token = ''skd_a'', fs_enroll_token = ''skk_a'',
                 fs_admin_token = ''ska_b'', fs_network_id = replicate 16 1\<rparr>"

definition demo_req :: "string option \<Rightarrow> Req" where
  "demo_req admin = \<lparr>rq_authorization = None, rq_admin_token = admin, rq_query = None,
                     rq_network = None, rq_token = None\<rparr>"

definition demo_server :: AppState where
  "demo_server = server_start ''ska_a'' 1 2 None repo_empty"

lemma split_token_short [simp]: "split_token ''ska_z'' = (''ska_z'', None)" "split_token ''ska_a'' = (''ska_a'', None)"
  by code_simp+

lemma demo_facts [simp]:
  "ap_admin_token demo_server = ''ska_a''" "ap_auth_failures demo_server = []"
  "ap_banned_until_ms demo_server = []"
  by (simp_all add: demo_server_def server_start_def get_or_create_admin_token_def get_setting_def repo_empty_def)

text \<open>
  C8 (safety). The server answers 401 to exactly the requests without the credential their route needs
  (the current admin token, or the token of an enrolled device), and such a request
  changes nothing behind the throttle.
\<close>
theorem unauthorised_exact:
  "(rs_status (fst (route w f now q s)) = 401 \<longleftrightarrow> \<not> authorised (wd_coders w) q s)
   \<and> (\<not> authorised (wd_coders w) q s \<longrightarrow> snd (route w f now q s) = s)"
proof (cases "credential q")
  case NoCredential
  then show ?thesis using open_handlers [OF NoCredential, of w f now] by (simp add: authorised_def)
next
  case (AdminCredential r)
  then show ?thesis using admin_handlers [OF AdminCredential, where w = w and f = f and now = now and s = s] by (simp add: authorised_def auth_admin_iff)
next
  case (DeviceCredential r)
  then show ?thesis using device_handlers [OF DeviceCredential, where w = w and f = f and now = now and s = s] by (simp add: authorised_def auth_device_None)
next
  case (SocketCredential r)
  then have "q = Events r" by (cases q) simp_all
  then show ?thesis by (rule socket_handler)
qed

theorem unauthorised_exact_witness:
  "snd (route demo_world demo_fresh 5 (AdminRotateToken (demo_req (Some ''ska_z''))) demo_server) = demo_server"
proof -
  have "\<not> authorised (wd_coders demo_world) (AdminRotateToken (demo_req (Some ''ska_z''))) demo_server"
    by (simp add: authorised_def demo_req_def)
  then show ?thesis
    using unauthorised_exact [of demo_world demo_fresh 5 "AdminRotateToken (demo_req (Some ''ska_z''))" demo_server]
    by blast
qed

end
