(* ===== verification/AppThrottle.thy ===== *)
theory AppThrottle
  imports AppSecurity
begin

text \<open>
  The throttle of failed authentications over sequences of requests from one address:
  what it stops, and the sequence that it never stops.
\<close>

text \<open>A request of one address: random values, clock reading, route.\<close>

type_synonym Shot = "Fresh \<times> millis \<times> ApiRequest"

definition shoot :: "World \<Rightarrow> u32 \<Rightarrow> AppState \<Rightarrow> Shot \<Rightarrow> Response \<times> AppState" where
  "shoot w ip s x = (case x of (f, now, q) \<Rightarrow> serve w f now ip q s)"

definition statuses_of :: "World \<Rightarrow> u32 \<Rightarrow> AppState \<Rightarrow> Shot list \<Rightarrow> nat list" where
  "statuses_of w ip s xs = map rs_status (fst (run (shoot w ip) s xs))"

text \<open>Nothing but the throttle's own tables differs.\<close>

definition same_but_throttle :: "AppState \<Rightarrow> AppState \<Rightarrow> bool" where
  "same_but_throttle s t = (\<exists>a b. t = s\<lparr>ap_auth_failures := a, ap_banned_until_ms := b\<rparr>)"

definition guesses :: "World \<Rightarrow> AppState \<Rightarrow> Shot list \<Rightarrow> bool" where
  "guesses w s xs = list_all (\<lambda>(f, now, q). \<not> authorised (wd_coders w) q s) xs"

lemma authorised_cong:
  assumes "ap_repo t = ap_repo s" and "ap_admin_token t = ap_admin_token s"
  shows "authorised cd q t = authorised cd q s"
  unfolding authorised_def knows_device_def assms ..

lemma authorised_same: "same_but_throttle s t \<Longrightarrow> authorised cd q t = authorised cd q s"
  by (rule authorised_cong) (auto simp: same_but_throttle_def)

lemma same_refl [simp]: "same_but_throttle s s"
  unfolding same_but_throttle_def
  by (intro exI [of _ "ap_auth_failures s"] exI [of _ "ap_banned_until_ms s"]) simp

lemma same_upd [simp]:
  assumes "same_but_throttle s t"
  shows "same_but_throttle s (t\<lparr>ap_auth_failures := x\<rparr>)"
    and "same_but_throttle s (t\<lparr>ap_banned_until_ms := y, ap_auth_failures := x\<rparr>)"
proof -
  obtain a b where t: "t = s\<lparr>ap_auth_failures := a, ap_banned_until_ms := b\<rparr>"
    using assms by (auto simp: same_but_throttle_def)
  show "same_but_throttle s (t\<lparr>ap_auth_failures := x\<rparr>)"
    unfolding same_but_throttle_def t by (intro exI [of _ x] exI [of _ b]) simp
  show "same_but_throttle s (t\<lparr>ap_banned_until_ms := y, ap_auth_failures := x\<rparr>)"
    unfolding same_but_throttle_def t by (intro exI [of _ x] exI [of _ y]) simp
qed

text \<open>A guess of an address that is not banned, by the state of its window.\<close>

definition window :: "millis \<Rightarrow> u32 \<Rightarrow> AppState \<Rightarrow> millis \<times> u32" where
  "window now ip s = (case tget (ap_auth_failures s) ip of None \<Rightarrow> (now, 0) | Some e \<Rightarrow> e)"

lemma guess_step:
  assumes "\<not> authorised (wd_coders w) q s" and "\<not> is_banned now ip s" and "window now ip s = (start, n)"
    and "now - start \<le> WINDOW_MS"
  shows "shoot w ip s (f, now, q) =
     (if MAX_FAILS \<le> n + 1
      then (err 429 TooManyAuthFailures,
            s\<lparr>ap_banned_until_ms := tput ip (now + BAN_MS) (ap_banned_until_ms s),
              ap_auth_failures := tdel ip (ap_auth_failures s)\<rparr>)
      else (fst (route w f now q s), s\<lparr>ap_auth_failures := tput ip (start, n + 1) (ap_auth_failures s)\<rparr>))"
  using assms unauthorised_exact [of w f now q s]
  by (simp add: shoot_def serve_def auth_throttle_def count_answer_def window_def Let_def case_prod_beta not_less)

text \<open>k guesses within one window count up to k.\<close>

lemma guess_run:
  assumes "guesses w s0 xs" and "same_but_throttle s0 s" and "tget (ap_auth_failures s) ip = Some (start, of_nat k)"
    and "k + length xs < 10" and "\<forall>(f, now, q)\<in>set xs. now - start \<le> WINDOW_MS \<and> \<not> is_banned now ip s"
  shows "\<exists>t. snd (run (shoot w ip) s xs) = t \<and> statuses_of w ip s xs = replicate (length xs) 401
     \<and> same_but_throttle s0 t \<and> tget (ap_auth_failures t) ip = Some (start, of_nat (k + length xs))
     \<and> ap_banned_until_ms t = ap_banned_until_ms s"
  using assms
proof (induction xs arbitrary: s k)
  case (Cons x xs)
  obtain f now q where x: "x = (f, now, q)" by (cases x)
  have u: "\<not> authorised (wd_coders w) q s"
    using Cons.prems(1,2) x by (simp add: guesses_def authorised_same)
  have k: "\<not> MAX_FAILS \<le> of_nat k + 1"
  proof -
    have "unat (of_nat k + 1 :: u32) = k + 1"
      using Cons.prems(4) by (simp add: unat_word_ariths unat_of_nat)
    then show ?thesis using Cons.prems(4) by (simp add: MAX_FAILS_def word_le_nat_alt)
  qed
  define s1 where "s1 = s\<lparr>ap_auth_failures := tput ip (start, of_nat (Suc k)) (ap_auth_failures s)\<rparr>"
  have step: "shoot w ip s x = (fst (route w f now q s), s1)"
    using guess_step [OF u, of now ip start "of_nat k" f] Cons.prems(3,5) x k
    by (simp add: window_def s1_def add.commute)
  have st: "rs_status (fst (route w f now q s)) = 401" using unauthorised_exact u by blast
  have "\<exists>t. snd (run (shoot w ip) s1 xs) = t \<and> statuses_of w ip s1 xs = replicate (length xs) 401
     \<and> same_but_throttle s0 t \<and> tget (ap_auth_failures t) ip = Some (start, of_nat (Suc k + length xs))
     \<and> ap_banned_until_ms t = ap_banned_until_ms s1"
  proof (rule Cons.IH)
    show "\<forall>(f, now, q)\<in>set xs. now - start \<le> WINDOW_MS \<and> \<not> is_banned now ip s1"
      using Cons.prems(5) by (auto simp: is_banned_def s1_def)
  qed (use Cons.prems in \<open>auto simp: guesses_def s1_def table_simps\<close>)
  then show ?case
    using step st by (simp add: statuses_of_def case_prod_beta Let_def s1_def)
qed (simp add: statuses_of_def)

lemma first_guess:
  assumes "\<not> authorised (wd_coders w) q s" and "\<not> is_banned now ip s" and "tget (ap_auth_failures s) ip = None"
  shows "shoot w ip s (f, now, q) =
     (fst (route w f now q s), s\<lparr>ap_auth_failures := tput ip (now, 1) (ap_auth_failures s)\<rparr>)"
  using guess_step [OF assms(1,2), of now 0 f] assms(3) by (simp add: window_def WINDOW_MS_def MAX_FAILS_def word_le_nat_alt)

text \<open>
  Nine guesses of an address with no failure on record, within a minute of the first.
\<close>

lemma guess_batch:
  assumes "guesses w s0 xs" and "same_but_throttle s0 s" and "tget (ap_auth_failures s) ip = None"
    and "xs \<noteq> []" and "length xs < 10"
    and "\<forall>(f, now, q)\<in>set xs. now - fst (snd (hd xs)) \<le> WINDOW_MS \<and> \<not> is_banned now ip s"
  shows "\<exists>t. snd (run (shoot w ip) s xs) = t \<and> statuses_of w ip s xs = replicate (length xs) 401
     \<and> same_but_throttle s0 t
     \<and> tget (ap_auth_failures t) ip = Some (fst (snd (hd xs)), of_nat (length xs))
     \<and> ap_banned_until_ms t = ap_banned_until_ms s"
proof -
  obtain f now q ys where xs: "xs = (f, now, q) # ys" using assms(4) by (metis list.exhaust prod.exhaust)
  have u: "\<not> authorised (wd_coders w) q s"
    using assms(1,2) xs by (simp add: guesses_def authorised_same)
  define s1 where "s1 = s\<lparr>ap_auth_failures := tput ip (now, 1) (ap_auth_failures s)\<rparr>"
  have step: "shoot w ip s (f, now, q) = (fst (route w f now q s), s1)"
    unfolding s1_def by (rule first_guess [OF u _ assms(3)]) (use assms(6) xs in simp)
  have st: "rs_status (fst (route w f now q s)) = 401" using unauthorised_exact u by blast
  have "\<exists>t. snd (run (shoot w ip) s1 ys) = t \<and> statuses_of w ip s1 ys = replicate (length ys) 401
     \<and> same_but_throttle s0 t \<and> tget (ap_auth_failures t) ip = Some (now, of_nat (1 + length ys))
     \<and> ap_banned_until_ms t = ap_banned_until_ms s1"
  proof (rule guess_run)
    show "\<forall>(f, n, q)\<in>set ys. n - now \<le> WINDOW_MS \<and> \<not> is_banned n ip s1"
      using assms(6) xs by (auto simp: is_banned_def s1_def)
  qed (use assms xs in \<open>auto simp: guesses_def s1_def table_simps\<close>)
  then show ?thesis using step st by (simp add: xs statuses_of_def case_prod_beta Let_def s1_def)
qed

definition demo_guess :: Shot where
  "demo_guess = (demo_fresh, 1000, AdminSummary (demo_req (Some ''ska_z'')))"

text \<open>
  C30 (bounds). Ten requests of one address without credentials, within a minute: nine are answered
  401, the tenth 429, and from then on every request of the address, with whatever
  credentials, is answered 429 and changes nothing for fifteen minutes.
\<close>
theorem throttle_bans:
  assumes "guesses w s (xs @ [(f, now, q)])" and "length xs = 9" and "tget (ap_auth_failures s) ip = None"
    and "\<forall>(f, t, q)\<in>set (xs @ [(f, now, q)]). t - fst (snd (hd xs)) \<le> WINDOW_MS \<and> \<not> is_banned t ip s"
    and "now \<le> later" and "later < now + BAN_MS"
  shows "statuses_of w ip s (xs @ [(f, now, q)]) = replicate 9 401 @ [429]
     \<and> (let t = snd (run (shoot w ip) s (xs @ [(f, now, q)]))
        in serve w f' later ip q' t = (err 429 TooManyAuthFailures, t))"
proof -
  have ne: "xs \<noteq> []" using assms(2) by auto
  obtain t where t: "snd (run (shoot w ip) s xs) = t" "statuses_of w ip s xs = replicate 9 401"
    "same_but_throttle s t" "tget (ap_auth_failures t) ip = Some (fst (snd (hd xs)), 9)"
    "ap_banned_until_ms t = ap_banned_until_ms s"
    using guess_batch [of w s xs s ip] assms(1-4) ne by (auto simp: guesses_def)
  have u: "\<not> authorised (wd_coders w) q t"
    using assms(1) authorised_same [OF t(3)] by (simp add: guesses_def)
  have nb: "\<not> is_banned now ip t" using assms(4) t(5) by (simp add: is_banned_def)
  have w: "window now ip t = (fst (snd (hd xs)), 9)" using t(4) by (simp add: window_def)
  define t' where "t' = t\<lparr>ap_banned_until_ms := tput ip (now + BAN_MS) (ap_banned_until_ms t),
                          ap_auth_failures := tdel ip (ap_auth_failures t)\<rparr>"
  have last: "shoot w ip t (f, now, q) = (err 429 TooManyAuthFailures, t')"
    using guess_step [OF u nb w, of f] assms(4) by (simp add: t'_def MAX_FAILS_def)
  have "is_banned later ip t'" using assms(6) by (simp add: is_banned_def t'_def table_simps)
  then show ?thesis
    using t(1,2) last
    by (auto simp: statuses_of_def run_append case_prod_beta Let_def serve_def auth_throttle_def)
qed

theorem throttle_bans_witness:
  "statuses_of demo_world 7 demo_server (replicate 9 demo_guess @ [demo_guess]) = replicate 9 401 @ [429]
   \<and> (let t = snd (run (shoot demo_world 7) demo_server (replicate 9 demo_guess @ [demo_guess]))
      in serve demo_world demo_fresh 2000 7 (AdminSummary (demo_req (Some ''ska_a''))) t
         = (err 429 TooManyAuthFailures, t))"
  unfolding demo_guess_def
  by (rule throttle_bans)
     (simp_all add: guesses_def authorised_def demo_req_def is_banned_def WINDOW_MS_def BAN_MS_def
      list_all_iff)

text \<open>
  The answer of the console's index page clears the window, although it needs no credential.
\<close>

lemma index_clears:
  assumes "\<not> is_banned now ip s" and "wd_assets w ''index.html'' \<noteq> None"
  shows "shoot w ip s (f, now, ConsoleIndex) =
     (fst (route w f now ConsoleIndex s), s\<lparr>ap_auth_failures := tdel ip (ap_auth_failures s)\<rparr>)"
    and "rs_status (fst (route w f now ConsoleIndex s)) = 200"
proof -
  obtain data where "wd_assets w ''index.html'' = Some data" using assms(2) by blast
  then have ok: "rs_status (fst (route w f now ConsoleIndex s)) = 200"
    and same: "snd (route w f now ConsoleIndex s) = s"
    by (simp_all add: admin_index_def asset_response_def)
  show "rs_status (fst (route w f now ConsoleIndex s)) = 200" by (rule ok)
  show "shoot w ip s (f, now, ConsoleIndex) =
     (fst (route w f now ConsoleIndex s), s\<lparr>ap_auth_failures := tdel ip (ap_auth_failures s)\<rparr>)"
    using assms(1) ok same
    by (simp add: shoot_def serve_def auth_throttle_def count_answer_def is_success_def Let_def case_prod_beta
        del: route.simps)
qed

text \<open>A round: guesses, then the index page; and what it is answered.\<close>

type_synonym Round = "Shot list \<times> Fresh \<times> millis"

definition round_shots :: "Round \<Rightarrow> Shot list" where
  "round_shots r = (case r of (xs, f, t) \<Rightarrow> xs @ [(f, t, ConsoleIndex)])"

definition round_answers :: "Round \<Rightarrow> nat list" where
  "round_answers r = replicate (length (fst r)) 401 @ [200]"

definition nine_guesses :: "World \<Rightarrow> AppState \<Rightarrow> Round \<Rightarrow> bool" where
  "nine_guesses w s r =
     (case r of (xs, _) \<Rightarrow> guesses w s xs \<and> xs \<noteq> [] \<and> length xs < 10
        \<and> list_all (\<lambda>(g, now, q). now - fst (snd (hd xs)) \<le> WINDOW_MS) xs)"

text \<open>
  C39 (error). An address that asks for the console's index page, which needs no credential, after
  every nine wrong guesses is never throttled: for any number of rounds of at most nine
  guesses each, every guess reaches the comparison of its token and none is answered
  429. The reset is meant for a successful authentication only.
\<close>
theorem throttle_bypassed:
  assumes "wd_assets w ''index.html'' \<noteq> None" and "tget (ap_banned_until_ms s) ip = None"
    and "tget (ap_auth_failures s) ip = None"
    and "list_all (nine_guesses w s) rounds"
  shows "statuses_of w ip s (concat (map round_shots rounds)) = concat (map round_answers rounds)"
proof -
  have "statuses_of w ip t (concat (map round_shots rounds)) = concat (map round_answers rounds)"
    if "same_but_throttle s t" "tget (ap_banned_until_ms t) ip = None" "tget (ap_auth_failures t) ip = None" for t
    using that assms(4)
  proof (induction rounds arbitrary: t)
    case (Cons a rounds)
    obtain xs f now where a: "a = (xs, f, now)" by (cases a)
    have nb: "\<not> is_banned n ip t" for n using Cons.prems(2) by (simp add: is_banned_def)
    obtain t1 where t1: "snd (run (shoot w ip) t xs) = t1" "statuses_of w ip t xs = replicate (length xs) 401"
      "same_but_throttle s t1" "ap_banned_until_ms t1 = ap_banned_until_ms t"
      using guess_batch [of w s xs t ip] Cons.prems(1,3,4) nb a
      by (auto simp: nine_guesses_def list_all_iff case_prod_beta)
    have nb1: "\<not> is_banned now ip t1" using Cons.prems(2) t1(4) by (simp add: is_banned_def)
    define t2 where "t2 = t1\<lparr>ap_auth_failures := tdel ip (ap_auth_failures t1)\<rparr>"
    have step: "shoot w ip t1 (f, now, ConsoleIndex) = (fst (route w f now ConsoleIndex t1), t2)"
      and ok: "rs_status (fst (route w f now ConsoleIndex t1)) = 200"
      unfolding t2_def using index_clears [OF nb1 assms(1), of f] by blast+
    have "statuses_of w ip t2 (concat (map round_shots rounds)) = concat (map round_answers rounds)"
      by (rule Cons.IH) (use Cons.prems t1 in \<open>auto simp: t2_def table_simps\<close>)
    then show ?case
      using t1(1,2) step ok
      by (simp add: a round_shots_def [of "(xs, f, now)"] round_answers_def [of "(xs, f, now)"] statuses_of_def
          run_append case_prod_beta Let_def del: route.simps)
  qed (simp add: statuses_of_def)
  then show ?thesis using assms(2,3) by simp
qed

theorem throttle_bypassed_witness:
  "statuses_of demo_world 7 demo_server
     (concat (map round_shots (replicate 3 (replicate 9 demo_guess, demo_fresh, 2000))))
   = concat (map round_answers (replicate 3 (replicate 9 demo_guess, demo_fresh, 2000)))"
  unfolding demo_guess_def
  by (rule throttle_bypassed)
     (simp_all add: demo_world_def nine_guesses_def guesses_def authorised_def demo_req_def WINDOW_MS_def
      list_all_iff)

end
