(* ===== verification/AppRevoke.thy ===== *)
theory AppRevoke
  imports AppThrottle
begin

text \<open>
  What the deletion of a device revokes: its row, its memberships, its registration and
  key at the UDP relay, its entry at the TCP relay, its sockets. What is revoked stays so
  whatever the server is sent, until the id is drawn again. A TCP relay session that is
  already open is not among it.
\<close>

definition revoked :: "u64 \<Rightarrow> AppState \<Rightarrow> bool" where
  "revoked d s =
     (get_device d (ap_repo s) = None
      \<and> tget (ur_registrations (ap_udp_relay s)) d = None
      \<and> tget (ur_key_cache (ap_udp_relay s)) d = None
      \<and> tget (tr_connections (ap_tcp_relay s)) d = None
      \<and> (\<forall>n. tget (eh_map (ap_hub s)) (d, n) = None)
      \<and> (\<forall>cid n. tget (ap_ws s) cid \<noteq> Some (WsPending d n)))"

section \<open>Deletion\<close>

lemma hub_remove_keys_map:
  "tget (eh_map (fold hub_remove_key ks h)) k = (if k \<in> set ks then None else tget (eh_map h) k)"
proof (induction ks arbitrary: h)
  case (Cons a ks)
  have "tget (eh_map (hub_remove_key a h)) k = (if k = a then None else tget (eh_map h) k)"
    by (simp add: hub_remove_key_def table_simps split: option.split)
  then show ?case using Cons by auto
qed simp

lemma unregister_device_map: "tget (eh_map (unregister_device d h)) (d, n) = None"
proof (cases "tget (eh_map h) (d, n)")
  case (Some ch)
  then have "(d, n) \<in> set (filter (\<lambda>k. fst k = d) (map fst (eh_map h)))"
    by (force dest: map_of_SomeD)
  then show ?thesis unfolding unregister_device_def Let_def hub_remove_keys_map by simp
qed (simp add: unregister_device_def Let_def hub_remove_keys_map)

lemma hub_sends_map [simp]:
  "eh_map (send_to_device d e h) = eh_map h" "eh_map (broadcast_network n e h) = eh_map h"
  by (simp_all add: send_to_device_def broadcast_network_def hub_send_where_def)

lemma announce_map [simp]: "eh_map (announce_left n x h) = eh_map h"
  by (simp add: announce_left_def)

lemma announce_fold_map [simp]: "eh_map (fold (\<lambda>n. announce_left n x) ns h) = eh_map h"
  by (induction ns arbitrary: h) simp_all

lemma delete_device_gone:
  "get_device d (snd (delete_device d r)) = None" "memberships_of_device d (snd (delete_device d r)) = []"
proof -
  show "get_device d (snd (delete_device d r)) = None"
    by (auto simp: get_device_None delete_device_def Let_def)
  have "filter (\<lambda>m. mb_device_id m = d) (rp_memberships (snd (delete_device d r))) = []"
    by (simp add: delete_device_def Let_def filter_empty_conv)
  then show "memberships_of_device d (snd (delete_device d r)) = []" by (simp add: memberships_of_device_def)
qed

lemma delete_revokes:
  assumes "admin_delete_device q p s = (r, t)" and "rs_status r = 200" and "parse_u64 p = Some d"
    and "\<forall>cid n. tget (ap_ws s) cid \<noteq> Some (WsPending d n)"
  shows "revoked d t" and "memberships_of_device d (ap_repo t) = []"
    and "presence_record d (ap_presence t) = None"
  using assms delete_device_gone [of d "ap_repo s"]
  by (auto simp: admin_delete_device_def revoked_def forget_device_def udp_unregister_def presence_record_def
      presence_remove_def unregister_device_map table_simps Let_def case_prod_beta split: if_splits)

section \<open>What is revoked stays revoked\<close>

lemma hub_acts_absent:
  assumes "hub_acts h g" and "tget (eh_map h) k = None"
  shows "tget (eh_map g) k = None"
proof (rule acts_keeps [OF assms(1), where I = "\<lambda>h. tget (eh_map h) k = None"])
  fix x :: EventsHub and e
  assume x: "tget (eh_map x) k = None" "hub_op_ok e"
  have "tget (eh_map (fold hub_remove_key ks (x :: EventsHub))) k = None" for ks
    using x by (simp add: hub_remove_keys_map)
  moreover from this [of "[a]" for a] have "tget (eh_map (hub_remove_key a x)) k = None" for a by simp
  ultimately show "tget (eh_map (snd (hub_step x e))) k = None"
    using x by (cases e) (simp_all add: hub_unregister_def unregister_device_def Let_def)
qed (rule assms(2))

lemma handled_revoked:
  assumes "handled cd i s t" and "i \<noteq> d" and "revoked d s"
  shows "revoked d t"
proof -
  have "get_device d (ap_repo t) = None"
    using assms repo_acts_ids(2) by (auto simp: handled_def revoked_def)
  moreover have "tget (eh_map (ap_hub t)) (d, n) = None" for n
    using assms hub_acts_absent by (auto simp: handled_def revoked_def)
  ultimately show ?thesis using assms(1,3) by (simp add: handled_def revoked_def)
qed

lemma find_by_hash_device:
  assumes "find_device_by_token_hash h s = Some x"
  shows "get_device (dr_id x) s \<noteq> None"
proof -
  have "x \<in> set (sort_key (\<lambda>d. sint (dr_id d)) (filter (\<lambda>d. dr_token_hash d = h) (rp_devices s)))"
    using assms by (auto simp: find_device_by_token_hash_def simp del: set_sort split: list.splits)
  then show ?thesis by (simp add: get_device_None)
qed

lemma find_by_hash_other:
  assumes "get_device d s = None" and "find_device_by_token_hash h s = Some x"
  shows "dr_id x \<noteq> d"
  using find_by_hash_device [OF assms(2)] assms(1) by auto

lemma events_revoked: "revoked d s \<Longrightarrow> revoked d (snd (api_ws_events cd r s))"
  by (auto simp: api_ws_events_def revoked_def table_simps dest: find_by_hash_other split: option.split)

lemma rotate_revoked: "revoked d s \<Longrightarrow> revoked d (snd (admin_rotate_token x r s))"
  by (simp add: admin_rotate_token_def revoked_def rotate_admin_token_def set_setting_def get_device_def)

lemma route_revoked:
  assumes "revoked d s" and "fs_device_id f \<noteq> d"
  shows "revoked d (snd (route w f now q s))"
proof (cases "\<exists>r. q = Events r \<or> q = AdminRotateToken r")
  case True
  then show ?thesis using assms(1) by (auto simp: events_revoked rotate_revoked)
next
  case False
  then show ?thesis using handled_revoked [OF route_handled] assms by blast
qed

lemma serve_revoked:
  "revoked d s \<Longrightarrow> fs_device_id f \<noteq> d \<Longrightarrow> revoked d (snd (serve w f now ip q s))"
  using route_revoked [of d s f w now q]
  by (auto simp: serve_def auth_throttle_def count_answer_def revoked_def Let_def case_prod_beta)

lemma relay_key_absent:
  assumes "l d = None" and "tget (ur_key_cache r) d = None"
  shows "tget (ur_key_cache (snd (relay_key_of l now x r))) d = None"
    and "fst (relay_key_of l now d r) = None"
    and "ur_registrations (snd (relay_key_of l now x r)) = ur_registrations r"
  using assms by (auto simp: relay_key_of_def table_simps split: option.split)

lemma tkeep_absent: "tget t k = None \<Longrightarrow> tget (tkeep P t) k = None"
  by (force simp: tkeep_def map_of_eq_None_iff)

lemma udp_absent:
  assumes "l d = None" and "tget (ur_key_cache r) d = None" and "tget (ur_registrations r) d = None"
  shows "tget (ur_key_cache (snd (udp_step h l r e))) d = None
     \<and> tget (ur_registrations (snd (udp_step h l r e))) d = None"
proof (cases e)
  case (Datagram now ok peer p)
  have "tget (ur_key_cache (snd (handle_register h l now peer p x r))) d = None
     \<and> tget (ur_registrations (snd (handle_register h l now peer p x r))) d = None" for x
    using relay_key_absent [where l = l and d = d and r = r and now = now] assms
    by (cases "x = d")
       (simp_all add: handle_register_def Let_def case_prod_beta count_drop_def table_simps split: option.split)
  moreover have "tget (ur_key_cache (snd (handle_relay now ok peer src dst f r))) d = None
     \<and> tget (ur_registrations (snd (handle_relay now ok peer src dst f r))) d = None" for src dst f
    using assms
    by (cases "src = d") (simp_all add: handle_relay_def Let_def count_drop_def table_simps split: option.split)
  ultimately show ?thesis
    using Datagram assms by (simp add: udp_handle_def count_drop_def split: option.split RelayPacket.split)
qed (use assms in \<open>simp_all add: udp_sweep_def udp_unregister_def table_simps tkeep_absent\<close>)

lemma tcp_absent:
  assumes "l d = None" and "tget (tr_connections r) d = None"
  shows "tget (tr_connections (snd (tcp_step h l r e))) d = None"
proof (cases e)
  case (FirstFrame cid now f)
  obtain res r1 where a: "authenticate h l now f r = (res, r1)" by force
  have r1: "tr_connections r1 = tr_connections r" using authenticate_frame(1) [of h l now f r] a by simp
  have "x \<noteq> d" if "res = Inr x" for x
    using authenticate_ok [of h l now f r x r1] a that assms(1) by auto
  then have "tget (tr_connections (session_start now cid c x (r1\<lparr>tr_queues := q\<rparr>))) d = None"
    if "res = Inr x" for c x q
    using that assms(2) r1
    by (simp add: session_start_def set_conn_def session_end_connections Let_def case_prod_beta table_simps
        split: option.split)
  moreover have "tr_connections (conn_done cid c r1) = tr_connections r" for c
    using r1 by (simp add: conn_done_def release_admission_def Let_def split: option.split)
  ultimately show ?thesis
    using FirstFrame a assms(2) by (simp split: option.split sum.split)
next
  case (Chunk cid now b)
  have "tget (tr_connections (session_chunk now cid c b r)) d = None" for c
    using assms(2)
    by (simp add: session_chunk_def session_end_connections Let_def case_prod_beta set_conn_def
        split: option.split sum.split)
  then show ?thesis using Chunk assms(2) by (simp add: session_end_connections split: option.split)
next
  case (WriterDone cid)
  then show ?thesis
    using assms(2) by (simp add: conn_done_def release_admission_def Let_def split: option.split)
qed (use assms(2) in \<open>simp_all add: Let_def case_prod_beta tcp_admit_def reject_log_def set_conn_def
      session_end_connections table_simps split: option.split list.split\<close>)

lemma ws_revoked:
  assumes "revoked d s"
  shows "revoked d (ws_start now cid s)" and "revoked d (ws_failed cid s)"
    and "revoked d (snd (ws_turn now cid wake s))"
proof -
  show "revoked d (ws_start now cid s)"
    using assms
    by (auto simp: revoked_def ws_start_def hub_register_def Let_def table_simps split: option.split WsSocket.split)
  show "revoked d (ws_failed cid s)"
    using assms by (auto simp: revoked_def ws_failed_def table_simps split: option.split WsSocket.split)
  have "revoked d (ws_end now cid x n ch s)" for x n ch
    using assms by (auto simp: revoked_def ws_end_def unregister_if_current_def table_simps)
  moreover have "revoked d (s\<lparr>ap_ws := tput cid (WsLive x n ch a b) (ap_ws s)\<rparr>)" for x n ch a b
    using assms by (auto simp: revoked_def table_simps)
  ultimately show "revoked d (snd (ws_turn now cid wake s))"
    using assms by (simp add: ws_turn_def split: option.split WsSocket.split WsWake.split HubMessage.split)
qed

lemma relays_revoked:
  assumes "revoked d s"
  shows "revoked d (snd (serve_udp w e s))" and "revoked d (serve_tcp w e' s)"
proof -
  have l: "lookup_key cd (ap_repo s) d = None" for cd using assms by (simp add: lookup_key_def revoked_def)
  show "revoked d (snd (serve_udp w e s))"
    using assms udp_absent [of "lookup_key (wd_coders w) (ap_repo s)" d, OF l]
    by (simp add: serve_udp_def revoked_def Let_def case_prod_beta)
  show "revoked d (serve_tcp w e' s)"
    using assms tcp_absent [of "lookup_key (wd_coders w) (ap_repo s)" d, OF l]
    by (simp add: serve_tcp_def revoked_def Let_def case_prod_beta)
qed

text \<open>The random id of every request differs from d.\<close>

fun draws_other :: "u64 \<Rightarrow> ServerEvent \<Rightarrow> bool" where
  "draws_other d (Http f now ip q) = (fs_device_id f \<noteq> d)"
| "draws_other d _ = True"

lemma step_revoked:
  assumes "revoked d s" and "draws_other d e"
  shows "revoked d (snd (server_step w s e))"
  using assms
  by (cases e) (simp_all add: serve_revoked ws_revoked relays_revoked Let_def case_prod_beta split: TcpEvent.split)

lemma run_revoked:
  "revoked d s \<Longrightarrow> list_all (draws_other d) es \<Longrightarrow> revoked d (snd (run (server_step w) s es))"
proof (induction es arbitrary: s)
  case (Cons e es)
  then show ?case using step_revoked [of d s e w] by (simp add: case_prod_beta Let_def)
qed simp

text \<open>
  C9 (safety). When the server has answered 200 to the deletion of a device that has no socket upgrade
  in flight, the device has no row, no membership and no presence; and whatever the
  server is sent afterwards, it has no row, no UDP registration and no cached key, no
  entry to receive at the TCP relay, and no realtime socket, until its id is drawn again.
\<close>
theorem deleted_device_revoked:
  assumes "admin_delete_device q p s = (r, t)" and "rs_status r = 200" and "parse_u64 p = Some d"
    and "\<forall>cid n. tget (ap_ws s) cid \<noteq> Some (WsPending d n)" and "list_all (draws_other d) es"
  shows "memberships_of_device d (ap_repo t) = [] \<and> presence_record d (ap_presence t) = None
     \<and> revoked d (snd (run (server_step w) t es))"
  using delete_revokes [OF assms(1-4)] run_revoked [OF _ assms(5)] by blast

text \<open>
  C40 (safety). A TCP relay session that the device had open is not ended by its deletion: the frames
  it sends afterwards are still queued to other devices, and the first one brings the
  presence record of the deleted device back. Only its entry for receiving is gone.
\<close>
theorem deleted_device_keeps_sending:
  assumes del: "admin_delete_device q p s = (r, t)" "rs_status r = 200" "parse_u64 p = Some d"
    and sess: "tget (tr_conns (ap_tcp_relay s)) cid = Some c" "cn_phase c = Session" "cn_buf c = []"
      "cn_device c = d"
    and dst: "dst \<noteq> d" "tget (tr_connections (ap_tcp_relay s)) dst = Some ch"
      "tget (tr_queues (ap_tcp_relay s)) ch = Some m" "length m < RELAY_TCP_QUEUE_FRAMES"
    and len: "length frame + 11 \<le> TCP_MAX_PAYLOAD"
  shows "let t' = serve_tcp w (Chunk cid now (write_length_prefixed []
                    (encode_cmd CMD_TCP_SEND (build_send_body dst frame)))) t
         in tget (tr_queues (ap_tcp_relay t')) ch = Some (m @ [length_prefix (encode_cmd CMD_TCP_FRAME frame)])
          \<and> presence_is_online now d (ap_presence t')"
proof -
  let ?s = "encode_cmd CMD_TCP_SEND (build_send_body dst frame)"
  let ?r = "(ap_tcp_relay t)\<lparr>tr_presence := ap_presence t, tr_register_guard := ap_register_guard t\<rparr>"
  have t: "tr_conns (ap_tcp_relay t) = tr_conns (ap_tcp_relay s)"
    "tr_queues (ap_tcp_relay t) = tr_queues (ap_tcp_relay s)"
    "tr_connections (ap_tcp_relay t) = tdel d (tr_connections (ap_tcp_relay s))"
    using del by (auto simp: admin_delete_device_def forget_device_def Let_def case_prod_beta split: if_splits)
  have c: "tget (tr_conns ?r) cid = Some c" "tget (tr_connections ?r) dst = Some ch" "tget (tr_queues ?r) ch = Some m"
    using sess dst t by (simp_all add: table_simps)
  note q = send_chunk_queues [OF c(1) sess(2,3) c(2,3) dst(4) len refl]
  have "presence_is_online now d (tr_presence (snd (session_frame now cid d ?s x)))" for x
    by (simp add: session_frame_def presence_is_online_def touch_relay_tcp_def table_simps record_is_online_def
        PRESENCE_TIMEOUT_MS_def Let_def case_prod_beta split: option.split RelayTcpMsg.split)
  then show ?thesis
    using q sess(4) by (simp add: serve_tcp_def Let_def case_prod_beta del: tcp_step.simps)
qed

text \<open>The demo server with one device, which has an open relay session, and another to send to.\<close>

definition demo_row :: "u64 \<Rightarrow> DeviceRow" where
  "demo_row i = \<lparr>dr_id = i, dr_name = ''n'', dr_pubkey_sign = [], dr_pubkey_dh = [], dr_token_hash = ''t'',
                 dr_relay_key = [], dr_created_at = 0, dr_last_seen = 0\<rparr>"

definition demo_two :: AppState where
  "demo_two = demo_server\<lparr>ap_repo := (ap_repo demo_server)\<lparr>rp_devices := [demo_row 1, demo_row 2]\<rparr>,
     ap_tcp_relay := (ap_tcp_relay demo_server)\<lparr>
       tr_conns := [(7, \<lparr>cn_ip = 1, cn_port = 2, cn_phase = Session, cn_device = 1, cn_buf = []\<rparr>)],
       tr_connections := [(1, 7), (2, 8)], tr_queues := [(7, []), (8, [])]\<rparr>\<rparr>"

definition demo_deleted :: AppState where
  "demo_deleted = snd (admin_delete_device (demo_req (Some ''ska_a'')) ''1'' demo_two)"

lemma demo_delete:
  "admin_delete_device (demo_req (Some ''ska_a'')) ''1'' demo_two = (ok_json OkText, demo_deleted)"
  "parse_u64 ''1'' = Some 1" "ap_ws demo_two = []"
proof -
  show p: "parse_u64 ''1'' = Some 1" by (simp add: parse_u64_def parse_unsigned_def digit_val_def)
  show "admin_delete_device (demo_req (Some ''ska_a'')) ''1'' demo_two = (ok_json OkText, demo_deleted)"
    by (simp add: demo_deleted_def admin_delete_device_def auth_admin_iff demo_req_def demo_two_def p
        delete_device_def demo_row_def Let_def)
  show "ap_ws demo_two = []" by (simp add: demo_two_def demo_server_def server_start_def case_prod_beta Let_def)
qed

theorem deleted_device_revoked_witness:
  "memberships_of_device 1 (ap_repo demo_deleted) = [] \<and> presence_record 1 (ap_presence demo_deleted) = None
   \<and> revoked 1 (snd (run (server_step demo_world) demo_deleted [UdpSweep 5]))"
  by (rule deleted_device_revoked [OF demo_delete(1) _ demo_delete(2)]) (simp_all add: demo_delete(3))

theorem deleted_device_keeps_sending_witness:
  "let t' = serve_tcp demo_world (Chunk 7 50 (write_length_prefixed []
                    (encode_cmd CMD_TCP_SEND (build_send_body 2 [1, 2])))) demo_deleted
   in tget (tr_queues (ap_tcp_relay t')) 8 = Some ([] @ [length_prefix (encode_cmd CMD_TCP_FRAME [1, 2])])
      \<and> presence_is_online 50 1 (ap_presence t')"
  by (rule deleted_device_keeps_sending [OF demo_delete(1) _ demo_delete(2),
        where c = "\<lparr>cn_ip = 1, cn_port = 2, cn_phase = Session, cn_device = 1, cn_buf = []\<rparr>"])
     (simp_all add: demo_two_def RELAY_TCP_QUEUE_FRAMES_def TCP_MAX_PAYLOAD_def)

end
