(* ===== verification/AppViews.thy ===== *)
theory AppViews
  imports AppRevoke
begin

text \<open>
  What the server answers and pushes: the peers a device is shown, the heartbeat interval
  it is told, and the signals the members of a deleted network receive.
\<close>

section \<open>Peers\<close>

lemma book_memberships:
  assumes "book_inv r"
  shows "distinct (map mb_device_id (filter (\<lambda>m. mb_network_id m = net) (rp_memberships r)))"
proof -
  have d: "distinct (map (\<lambda>m. (mb_network_id m, mb_device_id m)) (filter (\<lambda>m. mb_network_id m = net) (rp_memberships r)))"
    using assms by (intro distinct_filter_map) (simp add: book_inv_def)
  show ?thesis
    using d by (auto simp: distinct_map inj_on_def)
qed

lemma membership_of_iff:
  assumes "book_inv r"
  shows "membership_of net d r = Some m \<longleftrightarrow> m \<in> set (rp_memberships r) \<and> mb_network_id m = net \<and> mb_device_id m = d"
proof
  assume a: "m \<in> set (rp_memberships r) \<and> mb_network_id m = net \<and> mb_device_id m = d"
  then obtain m' where m': "membership_of net d r = Some m'"
    unfolding membership_of_def by (cases "List.find (\<lambda>m. mb_network_id m = net \<and> mb_device_id m = d) (rp_memberships r)")
      (auto simp: find_eq_None)
  then have "m' \<in> set (rp_memberships r) \<and> mb_network_id m' = net \<and> mb_device_id m' = d"
    unfolding membership_of_def by (auto dest: find_Some_in)
  moreover have "inj_on (\<lambda>m. (mb_network_id m, mb_device_id m)) (set (rp_memberships r))"
    using assms by (simp add: book_inv_def distinct_map)
  ultimately have "m' = m" using a by (auto simp: inj_on_def)
  then show "membership_of net d r = Some m" using m' by simp
qed (auto simp: membership_of_def dest: find_Some_in)

lemma resolve_member:
  assumes "resolve_network cd dev np s = Some net" and "book_inv (ap_repo s)"
  shows "membership_of (nr_id net) (dr_id dev) (ap_repo s) \<noteq> None"
proof -
  have "\<exists>m\<in>set (rp_memberships (ap_repo s)). mb_device_id m = dr_id dev \<and> get_network (mb_network_id m) (ap_repo s) = Some net"
    using assms(1)
    by (auto simp: resolve_network_def memberships_of_device_def Let_def bind_eq_Some_conv
        split: option.splits list.splits dest!: find_Some_in)
       (metis (mono_tags, lifting) list.set_intros(1) mem_Collect_eq set_filter set_sort)
  then obtain m where m: "m \<in> set (rp_memberships (ap_repo s))" "mb_device_id m = dr_id dev"
    "get_network (mb_network_id m) (ap_repo s) = Some net" by blast
  then have "nr_id net = mb_network_id m" using get_network_in by blast
  then show ?thesis using m membership_of_iff [OF assms(2)] by auto
qed

lemma get_device_id: "get_device i r = Some d \<Longrightarrow> dr_id d = i"
  unfolding get_device_def using find_Some_in by fastforce

lemma peer_info_Some:
  "peer_info now me net s m = Some p \<longleftrightarrow>
     mb_device_id m \<noteq> me \<and> (\<exists>d. get_device (mb_device_id m) (ap_repo s) = Some d
       \<and> p = \<lparr>pi_device_id = dr_id d, pi_name = dr_name d, pi_network_id = net, pi_ip = mb_ip m,
              pi_sign_pubkey = dr_pubkey_sign d, pi_dh_pubkey = dr_pubkey_dh d,
              pi_udp_endpoints = announced_endpoints (presence_record (mb_device_id m) (ap_presence s)),
              pi_tcp_listen_port = Option.bind (presence_record (mb_device_id m) (ap_presence s)) px_tcp_port,
              pi_online = presence_is_online now (dr_id d) (ap_presence s)\<rparr>)"
  by (auto simp: peer_info_def Let_def split: option.splits)

lemma peer_info_endpoints:
  "peer_info now me net s m = Some q \<Longrightarrow>
   pi_udp_endpoints q = announced_endpoints (presence_record (pi_device_id q) (ap_presence s))"
  by (auto simp: peer_info_Some dest: get_device_id)

lemma announced_first:
  "observed_endpoint d ps = Some e \<Longrightarrow> take 1 (announced_endpoints (presence_record d ps)) = [e]"
  by (simp add: announced_endpoints_def observed_endpoint_def presence_record_def)

lemma in_map_filter: "x \<in> set (List.map_filter f xs) \<longleftrightarrow> (\<exists>a\<in>set xs. f a = Some x)"
  by (induction xs) (auto simp: map_filter_simps split: option.split)

lemma distinct_map_filter_peers:
  assumes "distinct (map mb_device_id ms)"
  shows "distinct (map pi_device_id (List.map_filter (peer_info now me net s) ms))"
  using assms
proof (induction ms)
  case (Cons m ms)
  have "pi_device_id p \<in> mb_device_id ` set ms" if "p \<in> set (List.map_filter (peer_info now me net s) ms)" for p
    using that by (force simp: in_map_filter peer_info_Some dest!: get_device_id)
  then show ?case
    using Cons by (auto simp: map_filter_simps peer_info_Some dest: get_device_id split: option.split)
qed (simp add: map_filter_simps)

text \<open>
  A device is shown the peers of a network only if it is a member of it, and then exactly
  the other enrolled members, each once, with the address the member has there; a peer's
  first endpoint is the one the UDP relay observed, when it did.
\<close>
theorem peers_exact:
  assumes "book_inv (ap_repo s)" and "auth_device cd r s = Some dev"
    and "resolve_network cd dev (rq_network r) s = Some net"
  shows "\<exists>ps. api_get_peers cd now r s = ok_json (PeersBody ps)
     \<and> membership_of (nr_id net) (dr_id dev) (ap_repo s) \<noteq> None
     \<and> distinct (map pi_device_id ps)
     \<and> set (map (\<lambda>p. (pi_device_id p, pi_ip p)) ps)
       = {(mb_device_id m, mb_ip m) | m. m \<in> set (rp_memberships (ap_repo s)) \<and> mb_network_id m = nr_id net
            \<and> mb_device_id m \<noteq> dr_id dev \<and> get_device (mb_device_id m) (ap_repo s) \<noteq> None}
     \<and> list_all (\<lambda>p. case observed_endpoint (pi_device_id p) (ap_presence s) of
                       Some e \<Rightarrow> take 1 (pi_udp_endpoints p) = [e] | None \<Rightarrow> True) ps"
proof (intro exI conjI)
  let ?ms = "memberships_of_network (nr_id net) (ap_repo s)"
  let ?ps = "List.map_filter (peer_info now (dr_id dev) (nr_id net) s) ?ms"
  show "api_get_peers cd now r s = ok_json (PeersBody ?ps)"
    using assms(2,3) by (simp add: api_get_peers_def)
  show "membership_of (nr_id net) (dr_id dev) (ap_repo s) \<noteq> None" by (rule resolve_member [OF assms(3,1)])
  have "distinct (map mb_device_id ?ms)"
    using book_memberships [OF assms(1), of "nr_id net"]
    by (simp add: memberships_of_network_def distinct_map)
  then show "distinct (map pi_device_id ?ps)" by (rule distinct_map_filter_peers)
  have p: "p \<in> set ?ps \<longleftrightarrow> (\<exists>m. m \<in> set (rp_memberships (ap_repo s)) \<and> mb_network_id m = nr_id net
             \<and> peer_info now (dr_id dev) (nr_id net) s m = Some p)" for p
    by (auto simp: in_map_filter memberships_of_network_def)
  show "set (map (\<lambda>p. (pi_device_id p, pi_ip p)) ?ps)
       = {(mb_device_id m, mb_ip m) | m. m \<in> set (rp_memberships (ap_repo s)) \<and> mb_network_id m = nr_id net
            \<and> mb_device_id m \<noteq> dr_id dev \<and> get_device (mb_device_id m) (ap_repo s) \<noteq> None}"
    (is "?L = ?R")
  proof
    show "?L \<subseteq> ?R"
    proof
      fix x assume "x \<in> ?L"
      then obtain q where "q \<in> set ?ps" and x: "x = (pi_device_id q, pi_ip q)" by auto
      then obtain m where m: "m \<in> set (rp_memberships (ap_repo s))" "mb_network_id m = nr_id net"
        "peer_info now (dr_id dev) (nr_id net) s m = Some q" unfolding p by blast
      then have "x = (mb_device_id m, mb_ip m)" "mb_device_id m \<noteq> dr_id dev"
        "get_device (mb_device_id m) (ap_repo s) \<noteq> None"
        using x get_device_id by (auto simp: peer_info_Some)
      then show "x \<in> ?R" using m by blast
    qed
    show "?R \<subseteq> ?L"
    proof
      fix x assume "x \<in> ?R"
      then obtain m d where m: "x = (mb_device_id m, mb_ip m)" "m \<in> set (rp_memberships (ap_repo s))"
        "mb_network_id m = nr_id net" "mb_device_id m \<noteq> dr_id dev" "get_device (mb_device_id m) (ap_repo s) = Some d"
        by blast
      then obtain q where q: "peer_info now (dr_id dev) (nr_id net) s m = Some q"
        "pi_device_id q = mb_device_id m" "pi_ip q = mb_ip m"
        using get_device_id [OF m(5)] by (simp add: peer_info_Some)
      then have "q \<in> set ?ps" using p m(2,3) by blast
      then show "x \<in> ?L" using q m(1) by force
    qed
  qed
  show "list_all (\<lambda>p. case observed_endpoint (pi_device_id p) (ap_presence s) of
                       Some e \<Rightarrow> take 1 (pi_udp_endpoints p) = [e] | None \<Rightarrow> True) ?ps"
    unfolding list_all_iff
  proof
    fix q assume "q \<in> set ?ps"
    then have "pi_udp_endpoints q = announced_endpoints (presence_record (pi_device_id q) (ap_presence s))"
      using peer_info_endpoints unfolding in_map_filter by blast
    then show "case observed_endpoint (pi_device_id q) (ap_presence s) of
                 Some e \<Rightarrow> take 1 (pi_udp_endpoints q) = [e] | None \<Rightarrow> True"
      using announced_first by (auto split: option.split)
  qed
qed

text \<open>A network of two devices, the second of which asks.\<close>

definition demo_ops :: "RepoOp list" where
  "demo_ops = [OpCreateNetwork [1] 0 ''n'' example_cidr, OpCreateToken ''skk'' 0 [1] 2 1000 None,
     OpEnroll 7 ''t'' 5 ''skk'' ''a'' [] [] (Some (show_ipv4 0x0A0A0002)),
     OpEnroll 8 ''u'' 6 ''skk'' ''b'' [] [] (Some (show_ipv4 0x0A0A0003))]"

definition demo_members :: AppState where
  "demo_members = demo_server\<lparr>ap_repo := snd (run (repo_step demo_coders) repo_empty demo_ops)\<rparr>"

lemma demo_members_repo:
  "book_inv (ap_repo demo_members)"
  "map dr_id (rp_devices (ap_repo demo_members)) = [7, 8]"
  "map dr_token_hash (rp_devices (ap_repo demo_members)) = [''t'', ''u'']"
  "map nr_id (rp_networks (ap_repo demo_members)) = [[1]]"
  "map (\<lambda>m. (mb_network_id m, mb_device_id m)) (rp_memberships (ap_repo demo_members)) = [([1], 7), ([1], 8)]"
proof -
  show "book_inv (ap_repo demo_members)"
    by (simp add: demo_members_def book.run_snd_inv [OF book_inv_empty] del: run.simps)
  have c: "cidr_parse (cidr_display example_cidr) = Inr example_cidr"
    by (rule cidr_parse_display_aux [OF wf_example_cidr])
  have v: "validate_manual (show_ipv4 0x0A0A0002) example_cidr {} None = Inr 0x0A0A0002"
    "validate_manual (show_ipv4 0x0A0A0003) example_cidr {0x0A0A0002} None = Inr 0x0A0A0003"
    by (simp_all add: validate_manual_def parse_show_ipv4 cidr_contains_def example_cidr_def netmask_def mask_of_def
        broadcast_def mask_eq_exp_minus_1)
  have t: "split_token ''skk'' = (''skk'', None)" by code_simp
  have n: "show_ipv4 0x0A0A0002 \<noteq> show_ipv4 0x0A0A0003"
  proof
    assume e: "show_ipv4 0x0A0A0002 = show_ipv4 0x0A0A0003"
    have "parse_ipv4 (show_ipv4 0x0A0A0002) = parse_ipv4 (show_ipv4 0x0A0A0003)" by (simp only: e)
    then show False by (simp add: parse_show_ipv4)
  qed
  note r = demo_members_def demo_ops_def demo_coders_def repo_empty_def create_network_def create_token_def get_network_def
        get_network_by_name_def Let_def enroll_def with_tx_def
        enroll_tx_def check_token_def choose_ip_def c opt_or_def used_ips_def map_filter_simps v t parse_show_ipv4
        insert_device_def get_device_def insert_member_row_def membership_of_def consume_token_use_def
  show
    "map dr_id (rp_devices (ap_repo demo_members)) = [7, 8]"
    "map dr_token_hash (rp_devices (ap_repo demo_members)) = [''t'', ''u'']"
    "map nr_id (rp_networks (ap_repo demo_members)) = [[1]]"
    "map (\<lambda>m. (mb_network_id m, mb_device_id m)) (rp_memberships (ap_repo demo_members)) = [([1], 7), ([1], 8)]"
    by (simp_all add: r n)
qed

theorem peers_exact_witness:
  "\<exists>ps. api_get_peers demo_coders 9 (demo_req None\<lparr>rq_authorization := Some ''Bearer u''\<rparr>) demo_members = ok_json (PeersBody ps)
     \<and> set (map pi_device_id ps) = {7}"
proof -
  let ?r = "demo_req None\<lparr>rq_authorization := Some ''Bearer u''\<rparr>"
  obtain a b where ab: "rp_devices (ap_repo demo_members) = [a, b]" "dr_id a = 7" "dr_id b = 8"
      "dr_token_hash a = ''t''" "dr_token_hash b = ''u''"
    using demo_members_repo(2,3) by (auto simp: map_eq_Cons_conv)
  obtain n where n: "rp_networks (ap_repo demo_members) = [n]" "nr_id n = [1]"
    using demo_members_repo(4) by (auto simp: map_eq_Cons_conv)
  obtain x y where m: "rp_memberships (ap_repo demo_members) = [x, y]" "mb_network_id x = [1]" "mb_network_id y = [1]"
      "mb_device_id x = 7" "mb_device_id y = 8"
    using demo_members_repo(5) by (auto simp: map_eq_Cons_conv)
  have t: "extract_token ?r = Some ''u''"
    unfolding demo_req_def by code_simp
  have auth: "auth_device demo_coders ?r demo_members = Some b"
    by (simp add: auth_device_def t find_device_by_token_hash_def ab demo_coders_def)
  have net: "resolve_network demo_coders b (rq_network ?r) demo_members = Some n"
    by (simp add: demo_req_def resolve_network_def memberships_of_device_def m ab n get_network_def)
  obtain ps where ps: "api_get_peers demo_coders 9 ?r demo_members = ok_json (PeersBody ps)"
    "set (map (\<lambda>p. (pi_device_id p, pi_ip p)) ps)
       = {(mb_device_id m, mb_ip m) | m. m \<in> set (rp_memberships (ap_repo demo_members)) \<and> mb_network_id m = nr_id n
            \<and> mb_device_id m \<noteq> dr_id b \<and> get_device (mb_device_id m) (ap_repo demo_members) \<noteq> None}"
    using peers_exact [OF demo_members_repo(1) auth net] by blast
  have "set (map pi_device_id ps) = fst ` set (map (\<lambda>p. (pi_device_id p, pi_ip p)) ps)" by force
  also have "\<dots> = {7}" unfolding ps(2) using ab m n by (force simp: get_device_def)
  finally show ?thesis using ps(1) by blast
qed

section \<open>Heartbeat interval\<close>

text \<open>
  The counter of unobserved heartbeats is one for the whole server: the ages of the last
  look at the admin page, at the heartbeats of all devices in the order they arrive.
\<close>

definition observed :: "millis \<Rightarrow> bool" where
  "observed age = (0 \<le> age \<and> age \<le> ADMIN_OBSERVER_TTL_MS)"

definition hint_step :: "u32 \<Rightarrow> millis \<Rightarrow> u32 \<times> u32" where
  "hint_step misses age = heartbeat_hint age misses"

lemma hint_run:
  assumes "1 \<le> m" and "unat m + length ages < 2 ^ 32"
  shows "fst (run hint_step m ages)
       = map (\<lambda>(prev, cur). if prev \<or> cur then HEARTBEAT_FAST_SECS else HEARTBEAT_SLOW_SECS)
           (zip (False # map observed ages) (map observed ages))
   \<and> fst (run hint_step 0 ages)
       = map (\<lambda>(prev, cur). if prev \<or> cur then HEARTBEAT_FAST_SECS else HEARTBEAT_SLOW_SECS)
           (zip (True # map observed ages) (map observed ages))"
  using assms
proof (induction ages arbitrary: m)
  case (Cons a ages)
  have m1: "unat (m + 1) = unat m + 1"
    using Cons.prems(2) by (subst unat_plus_simple [THEN iffD1]) (auto simp: no_olen_add_nat)
  then have "1 \<le> m + 1" by (simp add: word_le_nat_alt)
  note ih = Cons.IH [OF this] Cons.IH [of 1]
  have "\<not> m < 1" "m \<noteq> 0" using Cons.prems(1) by (auto simp: word_le_nat_alt)
  then show ?case
    using ih Cons.prems m1 by (auto simp: hint_step_def heartbeat_hint_def observed_def Let_def case_prod_beta)
qed simp

text \<open>
  The interval a heartbeat is told is the slow one exactly when neither this heartbeat nor
  the one before it on the server came within 12 s of a look at the admin page (a start
  counts as unobserved), whichever devices they are from. With two devices one pause of
  the page's polling is therefore enough.
\<close>
theorem heartbeat_hysteresis:
  assumes "length ages < 2 ^ 32 - 2"
  shows "fst (run hint_step (ap_observer_misses (server_start tok up tp fp repo)) ages)
       = map (\<lambda>(prev, cur). if prev \<or> cur then HEARTBEAT_FAST_SECS else HEARTBEAT_SLOW_SECS)
           (zip (False # map observed ages) (map observed ages))"
proof -
  have "ap_observer_misses (server_start tok up tp fp repo) = 2"
    by (simp add: server_start_def case_prod_beta Let_def)
  then show ?thesis using hint_run [of 2 ages] assms by simp
qed

theorem heartbeat_hysteresis_witness:
  "fst (run hint_step (ap_observer_misses demo_server) [100, 12000, 12001, 12002])
     = map (\<lambda>(prev, cur). if prev \<or> cur then HEARTBEAT_FAST_SECS else HEARTBEAT_SLOW_SECS)
         (zip (False # map observed [100, 12000, 12001, 12002]) (map observed [100, 12000, 12001, 12002]))"
  unfolding demo_server_def by (rule heartbeat_hysteresis) simp

end
