(* ===== verification/Control.thy ===== *)
theory Control
  imports AppRevoke TlsVerifier
begin

text \<open>
  crates/skiff-node/src/control.rs: the node's client of the HTTP API. What is modelled
  is its own text handling (URLs, percent-encoding), how it reads an answer, and the loop
  of the realtime socket with its back-off; the HTTP and WebSocket libraries are the
  outcomes given as arguments. Times are in milliseconds.
\<close>

section \<open>URLs\<close>

definition unreserved :: "u8 \<Rightarrow> bool" where
  "unreserved b =
     (0x41 \<le> b \<and> b \<le> 0x5A \<or> 0x61 \<le> b \<and> b \<le> 0x7A \<or> 0x30 \<le> b \<and> b \<le> 0x39
      \<or> b = 0x2D \<or> b = 0x5F \<or> b = 0x2E \<or> b = 0x7E)"

text \<open>The digit of the format \<open>02X\<close>.\<close>

definition hex_upper :: "nat \<Rightarrow> char" where
  "hex_upper d = char_of (if d < 10 then 48 + d else 55 + d)"

definition urlencode_byte :: "u8 \<Rightarrow> string" where
  "urlencode_byte b =
     (if unreserved b then [char_of (unat b)]
      else [CHR ''%'', hex_upper (unat b div 16), hex_upper (unat b mod 16)])"

definition urlencode :: "string \<Rightarrow> string" where
  "urlencode s = concat (map urlencode_byte (as_bytes s))"

record ControlClient =
  cc_server :: string
  cc_device_token :: string
  cc_trust :: "TrustState option"
  cc_server_cert_pin :: "string option"
  cc_tofu_fingerprint :: "string option"
  cc_insecure_http :: bool

definition control_new :: "string \<Rightarrow> string \<Rightarrow> string option \<Rightarrow> ControlClient" where
  "control_new server token cert_pin =
     (let server = trim_end_slash server in
      \<lparr>cc_server = server, cc_device_token = token,
       cc_trust = (if starts_with ''https://'' server
                   then Some \<lparr>ts_pin = cert_pin, ts_tofu_fingerprint = None\<rparr> else None),
       cc_server_cert_pin = cert_pin, cc_tofu_fingerprint = None,
       cc_insecure_http = starts_with ''http://'' server\<rparr>)"

definition control_url :: "ControlClient \<Rightarrow> string \<Rightarrow> string" where
  "control_url c path = cc_server c @ path"

text \<open>replacen(p, r, 1)\<close>

definition replace_first :: "string \<Rightarrow> string \<Rightarrow> string \<Rightarrow> string" where
  "replace_first p r s = (case split_once_str p s of Some (a, b) \<Rightarrow> a @ r @ b | None \<Rightarrow> s)"

definition events_query :: "string \<Rightarrow> string \<Rightarrow> string" where
  "events_query network token = ''network='' @ urlencode network @ ''&token='' @ urlencode token"

definition ws_url :: "ControlClient \<Rightarrow> string \<Rightarrow> string" where
  "ws_url c network =
     (let u = control_url c (''/api/events?'' @ events_query network (cc_device_token c)) in
      if starts_with ''https://'' (cc_server c) then replace_first ''https://'' ''wss://'' u
      else replace_first ''http://'' ''ws://'' u)"

section \<open>Answers\<close>

text \<open>An answer: the status and the body as serde reads it; None when the request failed.\<close>

type_synonym 'a HttpResult = "(nat \<times> 'a option \<times> string option) option"

definition status_ok :: "nat \<Rightarrow> bool" where
  "status_ok st = (200 \<le> st \<and> st < 300)"

text \<open>get\_config, get\_peers, get\_settings and get\_memberships: None on any failure.\<close>

definition read_get :: "'a HttpResult \<Rightarrow> 'a option" where
  "read_get r = (case r of None \<Rightarrow> None | Some (st, body, _) \<Rightarrow> if \<not> status_ok st then None else body)"

datatype ControlError =
    RequestFailed
  | HttpStatus nat "string option"
  | ServerSaid string
  | JoinFailed
  | LeaveFailed
  | EnrollFailed
  | BadAnswer

definition read_heartbeat :: "HeartbeatResponse HttpResult \<Rightarrow> ControlError + HeartbeatResponse" where
  "read_heartbeat r =
     (case r of
        None \<Rightarrow> Inl RequestFailed
      | Some (st, body, error) \<Rightarrow>
          if \<not> status_ok st then Inl (HttpStatus st error)
          else (case body of Some b \<Rightarrow> Inr b | None \<Rightarrow> Inl BadAnswer))"

text \<open>join and enroll, with the error when the server gives none.\<close>

definition read_post :: "ControlError \<Rightarrow> 'a HttpResult \<Rightarrow> ControlError + 'a" where
  "read_post fallback r =
     (case r of
        None \<Rightarrow> Inl RequestFailed
      | Some (st, body, error) \<Rightarrow>
          if \<not> status_ok st then Inl (case error of Some e \<Rightarrow> ServerSaid e | None \<Rightarrow> fallback)
          else (case body of Some b \<Rightarrow> Inr b | None \<Rightarrow> Inl BadAnswer))"

definition read_leave :: "ControlError \<Rightarrow> unit HttpResult \<Rightarrow> ControlError + unit" where
  "read_leave fallback r =
     (case r of
        None \<Rightarrow> Inl RequestFailed
      | Some (st, _, error) \<Rightarrow>
          if \<not> status_ok st then Inl (case error of Some e \<Rightarrow> ServerSaid e | None \<Rightarrow> fallback)
          else Inr ())"

text \<open>The requests; the HTTP library is a function from a request to its outcome.\<close>

datatype HttpBody =
    NoBody
  | HeartbeatJson HeartbeatRequest
  | JoinJson JoinRequest
  | LeaveJson string
  | EnrollJson EnrollRequest
  | SettingsFailJson int string

record HttpRequest =
  hq_post :: bool
  hq_url :: string
  hq_bearer :: "string option"
  hq_body :: HttpBody

definition http_get :: "ControlClient \<Rightarrow> string \<Rightarrow> HttpRequest" where
  "http_get c path =
     \<lparr>hq_post = False, hq_url = control_url c path, hq_bearer = Some (cc_device_token c), hq_body = NoBody\<rparr>"

definition http_post :: "ControlClient \<Rightarrow> string \<Rightarrow> HttpBody \<Rightarrow> HttpRequest" where
  "http_post c path body =
     \<lparr>hq_post = True, hq_url = control_url c path, hq_bearer = Some (cc_device_token c), hq_body = body\<rparr>"

definition get_config :: "(HttpRequest \<Rightarrow> ConfigResponse HttpResult) \<Rightarrow> string \<Rightarrow> ControlClient \<Rightarrow> ConfigResponse option" where
  "get_config http network c = read_get (http (http_get c (''/api/config?network='' @ urlencode network)))"

definition get_peers :: "(HttpRequest \<Rightarrow> PeerInfo list HttpResult) \<Rightarrow> string \<Rightarrow> ControlClient \<Rightarrow> PeerInfo list option" where
  "get_peers http network c = read_get (http (http_get c (''/api/peers?network='' @ urlencode network)))"

definition get_settings :: "(HttpRequest \<Rightarrow> DeviceSettings HttpResult) \<Rightarrow> ControlClient \<Rightarrow> DeviceSettings option" where
  "get_settings http c = read_get (http (http_get c ''/api/settings''))"

definition get_memberships ::
  "(HttpRequest \<Rightarrow> MembershipInfo list HttpResult) \<Rightarrow> ControlClient \<Rightarrow> MembershipInfo list option" where
  "get_memberships http c = read_get (http (http_get c ''/api/memberships''))"

text \<open>The answer to a reported failure is not looked at; the request is all there is.\<close>

definition settings_fail_request :: "int \<Rightarrow> string \<Rightarrow> ControlClient \<Rightarrow> HttpRequest" where
  "settings_fail_request revision error c = http_post c ''/api/settings/fail'' (SettingsFailJson revision error)"

definition client_heartbeat ::
  "(HttpRequest \<Rightarrow> HeartbeatResponse HttpResult) \<Rightarrow> HeartbeatRequest \<Rightarrow> ControlClient
     \<Rightarrow> ControlError + HeartbeatResponse" where
  "client_heartbeat http req c = read_heartbeat (http (http_post c ''/api/heartbeat'' (HeartbeatJson req)))"

definition client_join ::
  "(HttpRequest \<Rightarrow> JoinResponse HttpResult) \<Rightarrow> string \<Rightarrow> string option \<Rightarrow> ControlClient \<Rightarrow> ControlError + JoinResponse" where
  "client_join http token requested_ip c =
     read_post JoinFailed
       (http (http_post c ''/api/join''
         (JoinJson \<lparr>jq_token = token, jq_requested_ip = requested_ip, jq_proto_version = Some PROTOCOL_VERSION\<rparr>)))"

definition client_leave :: "(HttpRequest \<Rightarrow> unit HttpResult) \<Rightarrow> string \<Rightarrow> ControlClient \<Rightarrow> ControlError + unit" where
  "client_leave http network c = read_leave LeaveFailed (http (http_post c ''/api/leave'' (LeaveJson network)))"

text \<open>An enrolment has no token of a device yet.\<close>

definition client_enroll ::
  "(HttpRequest \<Rightarrow> EnrollResponse HttpResult) \<Rightarrow> EnrollRequest \<Rightarrow> ControlClient \<Rightarrow> ControlError + EnrollResponse" where
  "client_enroll http req c =
     read_post EnrollFailed (http (http_post c ''/api/enroll'' (EnrollJson req)\<lparr>hq_bearer := None\<rparr>))"

definition paths_report :: "PeerPathReport list \<Rightarrow> HeartbeatRequest" where
  "paths_report reports =
     \<lparr>hb_local_addrs = [], hb_listen_udp_port = None, hb_listen_tcp_port = None, hb_paths = Some reports,
      hb_settings_revision = None, hb_restart_pending = None, hb_mode = None, hb_proto_version = None,
      hb_node_version = None\<rparr>"

section \<open>The realtime socket\<close>

datatype WsInput =
    InText "WsEvent option"
  | InOther
  | InClose
  | InError
  | InPingTick bool

text \<open>
  pump\_ws: one wake of the loop at a time; the state is the time of the last inbound frame, the
  answer the event delivered to the engine and whether the loop goes on. The last argument is
  whether the engine still listens.
\<close>

definition pump_step :: "millis \<Rightarrow> WsInput \<Rightarrow> bool \<Rightarrow> millis \<Rightarrow> WsEvent option \<times> bool \<times> millis" where
  "pump_step now inp listening last_rx =
     (case inp of
        InText (Some evt) \<Rightarrow> if listening then (Some evt, True, now) else (None, False, now)
      | InText None \<Rightarrow> (None, True, now)
      | InOther \<Rightarrow> (None, True, now)
      | InClose \<Rightarrow> (None, False, last_rx)
      | InError \<Rightarrow> (None, False, last_rx)
      | InPingTick sent \<Rightarrow>
          if 60000 < now - last_rx then (None, False, last_rx) else (None, sent, last_rx))"

fun pump_ws :: "(millis \<times> WsInput \<times> bool) list \<Rightarrow> millis \<Rightarrow> WsEvent list" where
  "pump_ws [] last_rx = []"
| "pump_ws ((now, inp, listening) # rest) last_rx =
     (case pump_step now inp listening last_rx of
        (evt, go, last_rx) \<Rightarrow>
          (case evt of Some e \<Rightarrow> [e] | None \<Rightarrow> []) @ (if go then pump_ws rest last_rx else []))"

text \<open>How a connection attempt ends; an accepted one with what arrives on it.\<close>

datatype WsAttempt =
    Accepted millis "(millis \<times> WsInput \<times> bool) list"
  | RejectedHttp
  | Unreachable

definition local_event :: "string \<Rightarrow> WsEvent" where
  "local_event ty = \<lparr>ev_type = ty, ev_network_id = None, ev_device_id = None, ev_message = None\<rparr>"

definition run_ws_once :: "WsAttempt \<Rightarrow> WsEvent list \<times> bool" where
  "run_ws_once at =
     (case at of
        Accepted now inputs \<Rightarrow> (local_event CONNECTED # pump_ws inputs now, True)
      | RejectedHttp \<Rightarrow> ([local_event NETWORKS_CHANGED], False)
      | Unreachable \<Rightarrow> ([], False))"

text \<open>
  The loop over attempts until the engine stops: the events delivered, and the pause after each
  attempt. \<open>grow\<close> is Duration::mul\_f32(1.5).
\<close>

fun event_loop :: "(millis \<Rightarrow> millis) \<Rightarrow> millis \<Rightarrow> WsAttempt list \<Rightarrow> WsEvent list \<times> millis list" where
  "event_loop grow backoff [] = ([], [])"
| "event_loop grow backoff (at # rest) =
     (case run_ws_once at of
        (evts, ok) \<Rightarrow>
          (let (pause, next) = (if ok then (1000, 1000) else (backoff, min (grow backoff) 30000));
               (evts', pauses) = event_loop grow next rest
           in (evts @ evts', pause # pauses)))"

definition spawn_event_loop :: "(millis \<Rightarrow> millis) \<Rightarrow> WsAttempt list \<Rightarrow> WsEvent list \<times> millis list" where
  "spawn_event_loop grow attempts = event_loop grow 3000 attempts"

section \<open>The token survives the URL\<close>

lemma hex_val_upper: "d < 16 \<Longrightarrow> hex_val (hex_upper d) = Some d"
  by (simp add: hex_val_def hex_upper_def)

lemma hex_upper_byte: "d < 16 \<Longrightarrow> unat (of_nat (of_char (hex_upper d)) :: u8) = (if d < 10 then 48 + d else 55 + d)"
  by (simp add: hex_upper_def unat_of_nat)

lemma hex_upper_not_plus: "d < 16 \<Longrightarrow> (of_nat (of_char (hex_upper d)) :: u8) \<noteq> 0x2B"
  using hex_upper_byte [of d] by (auto split: if_splits)

lemma byte_split: "of_nat (16 * (unat b div 16) + unat b mod 16) = (b :: u8)"
  by simp

lemma byte_char [simp]: "of_nat (unat (b :: u8) mod 256) = b"
proof -
  have "unat b < 256" using unsigned_less [of b, where ?'a = nat] by simp
  then show ?thesis by simp
qed

lemma urldecode_byte:
  "urldecode_bytes (as_bytes (urlencode_byte b) @ rest) = b # urldecode_bytes rest"
proof (cases "unreserved b")
  case True
  then have "b \<noteq> 0x25" "b \<noteq> 0x2B" by (auto simp: unreserved_def)
  then show ?thesis using True by (simp add: urlencode_byte_def as_bytes_def)
next
  case False
  have d: "unat b div 16 < 16" "unat b mod 16 < 16"
    using unsigned_less [of b, where ?'a = nat] by simp_all
  have "hex_pair (of_nat (of_char (hex_upper (unat b div 16)))) (of_nat (of_char (hex_upper (unat b mod 16)))) = Some b"
    using d hex_upper_not_plus [OF d(1)] byte_split [of b] by (simp add: hex_pair_def Let_def hex_val_upper)
  then show ?thesis using False by (simp add: urlencode_byte_def as_bytes_def)
qed

lemma urldecode_urlencode_bytes:
  "urldecode_bytes (as_bytes (concat (map urlencode_byte bs)) @ rest) = bs @ urldecode_bytes rest"
proof (induction bs)
  case (Cons b bs)
  then show ?case using urldecode_byte by simp
qed simp

lemma urldecode_urlencode: "wf_str s \<Longrightarrow> urldecode (urlencode s) = s"
  using urldecode_urlencode_bytes [of "as_bytes s" "[]"]
  by (simp add: urldecode_def urlencode_def from_utf8_lossy_as_bytes)

lemma urlencode_safe: "c \<in> set (urlencode s) \<Longrightarrow> c \<noteq> CHR ''&'' \<and> c \<noteq> CHR ''=''"
proof -
  have "c \<noteq> CHR ''&'' \<and> c \<noteq> CHR ''=''" if "c \<in> set (urlencode_byte b)" for b
  proof (cases "unreserved b")
    case True
    then have "c = char_of (unat b)" using that by (simp add: urlencode_byte_def)
    moreover have "unat b < 256" using unsigned_less [of b, where ?'a = nat] by simp
    ultimately have "of_char c = unat b" by simp
    then show ?thesis using True by (auto simp: unreserved_def word_le_nat_alt)
  next
    case False
    have "of_char (hex_upper d) \<noteq> (38::nat) \<and> of_char (hex_upper d) \<noteq> (61::nat)" if "d < 16" for d
      using that by (simp add: hex_upper_def)
    then have "hex_upper d \<noteq> CHR ''&'' \<and> hex_upper d \<noteq> CHR ''=''" if "d < 16" for d using that by force
    moreover have "unat b div 16 < 16" "unat b mod 16 < 16"
      using unsigned_less [of b, where ?'a = nat] by simp_all
    ultimately show ?thesis using that False by (auto simp: urlencode_byte_def)
  qed
  then show "c \<in> set (urlencode s) \<Longrightarrow> c \<noteq> CHR ''&'' \<and> c \<noteq> CHR ''=''" by (auto simp: urlencode_def)
qed

lemma split_on_none: "c \<notin> set s \<Longrightarrow> split_on c s = [s]"
  by (induction s) auto

lemma split_on_once: "c \<notin> set a \<Longrightarrow> split_on c (a @ c # b) = a # split_on c b"
  by (induction a) auto

text \<open>
  The token a node puts into the URL of its event socket is the token the server's own
  query parser reads, whatever text the token is and whatever the network is called.
\<close>
theorem token_survives_url:
  assumes "wf_str token"
  shows "query_token (events_query network token) = Some token"
proof -
  have "CHR ''&'' \<notin> set (''network='' @ urlencode network)" "CHR ''&'' \<notin> set (''token='' @ urlencode token)"
    using urlencode_safe by auto
  then have "split_on CHR ''&'' (events_query network token) = [''network='' @ urlencode network, ''token='' @ urlencode token]"
    unfolding events_query_def using split_on_once [of "CHR ''&''" "''network='' @ urlencode network" "''token='' @ urlencode token"]
    by (simp add: split_on_none)
  then show ?thesis
    using urldecode_urlencode [OF assms] by (simp add: query_token_def strip_prefix_def)
qed

theorem token_survives_url_witness:
  "query_token (events_query ''a&b'' ''skd_+ %&='') = Some ''skd_+ %&=''"
  by (rule token_survives_url)
     (unfold wf_str_def, rule utf8_valid_ascii, simp add: as_bytes_def)

section \<open>The event loop\<close>

text \<open>
  For any sequence of attempts: every accepted connection is announced to the engine as
  connected and every HTTP refusal as a change of networks, so that each of them makes the
  engine reconcile its roster; no pause exceeds 30 s, and one after an accepted
  connection is one second.
\<close>
theorem event_loop_reconciles:
  assumes "\<forall>n. 0 \<le> n \<longrightarrow> n \<le> grow n"
  shows "let (evts, pauses) = spawn_event_loop grow attempts in
     length pauses = length attempts
   \<and> list_all (\<lambda>p. 1000 \<le> p \<and> p \<le> 30000) pauses
   \<and> length (filter (\<lambda>a. a = RejectedHttp) attempts)
       \<le> length (filter (\<lambda>e. e = local_event NETWORKS_CHANGED) evts)
   \<and> length (filter (\<lambda>a. \<exists>t i. a = Accepted t i) attempts)
       \<le> length (filter (\<lambda>e. e = local_event CONNECTED) evts)"
proof -
  have "let (evts, pauses) = event_loop grow b attempts in
     length pauses = length attempts \<and> list_all (\<lambda>p. 1000 \<le> p \<and> p \<le> 30000) pauses
   \<and> length (filter (\<lambda>a. a = RejectedHttp) attempts)
       \<le> length (filter (\<lambda>e. e = local_event NETWORKS_CHANGED) evts)
   \<and> length (filter (\<lambda>a. \<exists>t i. a = Accepted t i) attempts)
       \<le> length (filter (\<lambda>e. e = local_event CONNECTED) evts)" if "1000 \<le> b" "b \<le> 30000" for b
    using that
  proof (induction attempts arbitrary: b)
    case (Cons a rest)
    have g: "1000 \<le> min (grow b) 30000" using assms Cons.prems by (smt (verit) min_def)
    have ne: "local_event CONNECTED \<noteq> local_event NETWORKS_CHANGED"
      by (simp add: local_event_def CONNECTED_def NETWORKS_CHANGED_def)
    show ?case
      using Cons.IH [of 1000] Cons.IH [OF g] Cons.prems ne
      by (cases a) (auto simp: run_ws_once_def Let_def case_prod_beta)
  qed (simp add: Let_def)
  from this [of 3000] show ?thesis by (simp add: spawn_event_loop_def)
qed

theorem event_loop_reconciles_witness:
  "let (evts, pauses) = spawn_event_loop (\<lambda>n. n + n div 2) [RejectedHttp, Unreachable, Accepted 5 [], Unreachable] in
     length pauses = length [RejectedHttp, Unreachable, Accepted 5 [], Unreachable]
   \<and> list_all (\<lambda>p. 1000 \<le> p \<and> p \<le> 30000) pauses
   \<and> length (filter (\<lambda>a. a = RejectedHttp) [RejectedHttp, Unreachable, Accepted 5 [], Unreachable])
       \<le> length (filter (\<lambda>e. e = local_event NETWORKS_CHANGED) evts)
   \<and> length (filter (\<lambda>a. \<exists>t i. a = Accepted t i) [RejectedHttp, Unreachable, Accepted 5 [], Unreachable])
       \<le> length (filter (\<lambda>e. e = local_event CONNECTED) evts)"
  by (rule event_loop_reconciles) simp

end
