(* ===== verification/Engine.thy ===== *)
theory Engine
  imports Session Ipam FlowProto RelayTcpProto
begin

text \<open>
  crates/skiff-node/src/engine.rs, the shared state of the engine. One handler of
  the source is one step that reads the clock once; a DashMap is a table and its
  iteration order the order of the table. An Arc of a peer session is a number
  into the store of sessions, and a TCP connection a number with its two flags:
  whether its reader has ended (closed) and whether its writer has. What a
  handler hands to another component or to the log is appended to the list of
  effects, in order.
\<close>

section \<open>Data\<close>

datatype Arrival =
    ArrDirectUdp SocketAddr SocketAddr
  | ArrDirectTcp nat
  | ArrRelayUdp
  | ArrRelayTcp

record NetworkCtx =
  nc_name :: string
  nc_cidr :: "Cidr option"
  nc_self_ip :: "u32 option"
  nc_ip_map :: "(u32, u64) table"

datatype StopReason = Stopped | Restart

record HbCounters =
  hc_tx_bytes :: u64
  hc_rx_bytes :: u64
  hc_rx_seen :: u64
  hc_rx_lost :: u64

record RelayTcpOut =
  ro_peer :: nat
  ro_frame :: bytes
  ro_fallback :: bool
  ro_policy :: PathPolicy

datatype DropReason = DirectAnyNoResource | DirectUdpNoEndpoint | DirectTcpSendFailed
  | DirectTcpNoConn | RelayTcpSendFailed

datatype ProbeSkip = PeerNoTcpPort | NoEndpoints

datatype LogMsg =
    PathUpDirectTcp string string
  | PathUpDirectUdp string string SocketAddr
  | PathUpPinned string string SocketAddr
  | PathDown string string PathKind
  | TxDrop string PathPolicy DropReason u64
  | TcpProbeSkip string ProbeSkip
  | PeerJoined string string u32
  | PeerLeft string string
  | NetworkLeft string
  | OverlappingCidrs "string \<times> Cidr" "string \<times> Cidr"
  | BadPeerPolicy string
  | ConfigChanged string
  | RosterChanged
  | SettingsNeedRestart
  | EngineStopping
  | HeartbeatInterval u32 u32
  | HeartbeatRecovered u64
  | HeartbeatErr u64
  | ControlUnreachable u32
  | EmptyRoster
  | SettingsUnavailable

text \<open>
  What the engine asks of its parts: the calls of UdpMesh, the sends on TCP
  connections, the queue of the TCP relay and its client, the TUN device, the flow
  manager, the task that dials a peer, the stop broadcast.
\<close>

datatype Effect =
    SendRelay u64 u64 bytes
  | SendDirect SocketAddr bytes
  | SendDirectFrom SocketAddr SocketAddr bytes
  | SendDirectAll SocketAddr bytes
  | ConnSend nat bytes
  | RelayTcpQueue RelayTcpOut
  | RelayTcpSend u64 bytes
  | EnsureRelayTcp
  | ToTun bytes
  | FlowEnqueue NetId u64 bytes
  | FlowClosePeer NetId u64
  | FlowSetExposes NetId "ExposeRule list"
  | DialTcp nat "SocketAddr list"
  | RemoveStatusFile
  | BroadcastStopped
  | Log LogMsg

record Engine =
  en_stopping :: bool
  en_stop_reason :: "StopReason option"
  en_device_id :: u64
  en_dh_priv :: bytes
  en_dh_pub :: bytes
  en_networks :: "(NetId, NetworkCtx) table"
  en_name_to_id :: "(string, NetId) table"
  en_peers :: "(NetId \<times> u64, nat) table"
  en_sessions :: "nat \<Rightarrow> PeerSession"
  en_next_session :: nat
  en_conn_closed :: "nat \<Rightarrow> bool"
  en_conn_writer_dead :: "nat \<Rightarrow> bool"
  en_path_policy :: PathPolicy
  en_peer_policies :: "(u64, PathPolicy) table"
  en_roster :: "NetId set"
  en_restart_pending :: bool
  en_applied_settings_revision :: u64
  en_runtime_socks :: "string option"
  en_runtime_forwards :: "ForwardRule list"
  en_runtime_mtu :: u32
  en_runtime_mode :: ClientMode
  en_runtime_listen :: "string list"
  en_tcp_listen_port :: u16
  en_udp_local_port :: u16
  en_observed_endpoint :: "string option"
  en_heartbeat_secs :: u32
  en_hb_rate_baseline :: "(millis \<times> (u64, HbCounters) table) option"
  en_hb_err_last_log_ms :: millis
  en_hb_err_count :: u64
  en_out :: "Effect list"

text \<open>
  The engine at its start. The store of sessions has a value at every number; those
  below en\_next\_session are in use.
\<close>

definition no_session :: PeerSession where
  "no_session = peer_session_new 0 [] [] 0 [] \<lparr>send_key = [], recv_key = []\<rparr> []"

definition engine_new :: "u64 \<Rightarrow> bytes \<Rightarrow> bytes \<Rightarrow> ClientMode \<Rightarrow> string list \<Rightarrow> u16 \<Rightarrow> Engine" where
  "engine_new device_id dh_priv dh_pub effective_mode listen_raw udp_port =
     \<lparr>en_stopping = False, en_stop_reason = None, en_device_id = device_id,
      en_dh_priv = dh_priv, en_dh_pub = dh_pub, en_networks = [], en_name_to_id = [],
      en_peers = [], en_sessions = (\<lambda>_. no_session), en_next_session = 0,
      en_conn_closed = (\<lambda>_. False), en_conn_writer_dead = (\<lambda>_. False),
      en_path_policy = PathPolicy.Auto, en_peer_policies = [], en_roster = {},
      en_restart_pending = False, en_applied_settings_revision = 0,
      en_runtime_socks = None, en_runtime_forwards = [], en_runtime_mtu = DEFAULT_MTU,
      en_runtime_mode = effective_mode, en_runtime_listen = listen_raw,
      en_tcp_listen_port = 0, en_udp_local_port = udp_port, en_observed_endpoint = None,
      en_heartbeat_secs = HEARTBEAT_SLOW_SECS, en_hb_rate_baseline = None,
      en_hb_err_last_log_ms = 0, en_hb_err_count = 0, en_out = []\<rparr>"

section \<open>Access\<close>

definition emit :: "Effect \<Rightarrow> Engine \<Rightarrow> Engine" where
  "emit e s = s\<lparr>en_out := en_out s @ [e]\<rparr>"

abbreviation sess :: "Engine \<Rightarrow> nat \<Rightarrow> PeerSession" where
  "sess s h \<equiv> en_sessions s h"

definition upd_sess :: "nat \<Rightarrow> (PeerSession \<Rightarrow> PeerSession) \<Rightarrow> Engine \<Rightarrow> Engine" where
  "upd_sess h f s = s\<lparr>en_sessions := (en_sessions s)(h := f (en_sessions s h))\<rparr>"

text \<open>PeerTcpConnection::is\_closed, and PeerTcpConnection::send with its answer.\<close>

definition conn_is_closed :: "Engine \<Rightarrow> nat \<Rightarrow> bool" where
  "conn_is_closed s c = en_conn_closed s c"

definition conn_send :: "nat \<Rightarrow> bytes \<Rightarrow> Engine \<Rightarrow> bool \<times> Engine" where
  "conn_send c frame s =
     (if en_conn_closed s c then (False, s)
      else if en_conn_writer_dead s c then (False, s)
      else (True, emit (ConnSend c frame) s))"

definition network_name :: "(NetId \<Rightarrow> string) \<Rightarrow> Engine \<Rightarrow> NetId \<Rightarrow> string" where
  "network_name hexenc s i =
     (case tget (en_networks s) i of Some c \<Rightarrow> nc_name c | None \<Rightarrow> hexenc i)"

definition FLOW_CHUNK :: nat where "FLOW_CHUNK = 32 * 1024"
definition FLOW_CHUNK_UDP :: nat where "FLOW_CHUNK_UDP = 1200"

definition flow_chunk_for :: "Engine \<Rightarrow> NetId \<Rightarrow> u64 \<Rightarrow> nat" where
  "flow_chunk_for s net_id peer =
     (let udp_path =
            (case tget (en_peers s) (net_id, peer) of
               Some h \<Rightarrow> se_current_path (sess s h) = DirectUdp \<or> se_current_path (sess s h) = RelayUdp
             | None \<Rightarrow> True)
      in if udp_path then FLOW_CHUNK_UDP else FLOW_CHUNK)"

text \<open>The first network whose map has the address decides, also when its device is gone.\<close>

fun first_with_ip :: "(NetId, NetworkCtx) table \<Rightarrow> u32 \<Rightarrow> (NetId \<times> u64) option" where
  "first_with_ip [] bits = None"
| "first_with_ip ((n, ctx) # rest) bits =
     (case tget (nc_ip_map ctx) bits of Some dev \<Rightarrow> Some (n, dev) | None \<Rightarrow> first_with_ip rest bits)"

definition peer_by_ip :: "Engine \<Rightarrow> u32 \<Rightarrow> (NetId \<times> nat) option" where
  "peer_by_ip s bits = do {
     key \<leftarrow> first_with_ip (en_networks s) bits;
     h \<leftarrow> tget (en_peers s) key;
     Some (fst key, h) }"

definition policy_for :: "Engine \<Rightarrow> u64 \<Rightarrow> PathPolicy" where
  "policy_for s peer_id =
     (case tget (en_peer_policies s) peer_id of Some hit \<Rightarrow> hit | None \<Rightarrow> en_path_policy s)"

end
