(* ===== verification/EngineRoute.thy ===== *)
theory EngineRoute
  imports Engine
begin

text \<open>
  crates/skiff-node/src/engine.rs: routing of sealed frames under the path policy,
  processing of received frames, and the probing of paths. The AEAD and the
  hexadecimal coder are the parameters collected in Ext.
\<close>

record Ext =
  ex_aenc :: aenc
  ex_adec :: adec
  ex_hexenc :: "bytes \<Rightarrow> string"
  ex_hexdec :: "string \<Rightarrow> bytes option"
  ex_dh :: "bytes \<Rightarrow> bytes \<Rightarrow> bytes"
  ex_hkdf :: "bytes \<Rightarrow> bytes \<Rightarrow> bytes \<Rightarrow> nat \<Rightarrow> bytes"

section \<open>Diagnostics\<close>

definition throttled_diag :: "millis \<Rightarrow> nat \<Rightarrow> ProbeSkip \<Rightarrow> Engine \<Rightarrow> Engine" where
  "throttled_diag now h msg s =
     (if now - se_last_diag_log_ms (sess s h) > 60000
      then emit (Log (TcpProbeSkip (se_name (sess s h)) msg))
             (upd_sess h (se_last_diag_log_ms_update (\<lambda>_. now)) s)
      else s)"

definition note_drop_detached :: "millis \<Rightarrow> nat \<Rightarrow> PathPolicy \<Rightarrow> DropReason \<Rightarrow> Engine \<Rightarrow> Engine" where
  "note_drop_detached now h policy reason s =
     (let total = se_tx_dropped (sess s h) + 1;
          s1 = upd_sess h (se_tx_dropped_update (\<lambda>_. total)) s
      in if now - se_last_diag_log_ms (sess s h) > 60000
         then emit (Log (TxDrop (se_name (sess s h)) policy reason total))
                (upd_sess h (se_last_diag_log_ms_update (\<lambda>_. now)) s1)
         else s1)"

definition note_policy_drop :: "millis \<Rightarrow> nat \<Rightarrow> DropReason \<Rightarrow> Engine \<Rightarrow> Engine" where
  "note_policy_drop now h reason s = note_drop_detached now h (policy_for s (se_id (sess s h))) reason s"

section \<open>Routing\<close>

text \<open>The path a frame takes; None is the frame dropped for want of a direct path.\<close>

definition route_path :: "Engine \<Rightarrow> PeerSession \<Rightarrow> PathPolicy \<Rightarrow> PathKind option" where
  "route_path s peer policy =
     (case policy of
        PathPolicy.Auto \<Rightarrow> Some (se_current_path peer)
      | PathPolicy.RelayUdp \<Rightarrow> Some RelayUdp
      | PathPolicy.RelayTcp \<Rightarrow> Some RelayTcp
      | PathPolicy.DirectAny \<Rightarrow>
          (if se_current_path peer = DirectUdp \<or> se_current_path peer = DirectTcp
           then Some (se_current_path peer)
           else if (case se_tcp_conn peer of Some c \<Rightarrow> \<not> conn_is_closed s c | None \<Rightarrow> False)
           then Some DirectTcp
           else if se_direct_endpoint peer \<noteq> None then Some DirectUdp
           else None)
      | PathPolicy.DirectUdp \<Rightarrow> Some DirectUdp
      | PathPolicy.DirectTcp \<Rightarrow> Some DirectTcp)"

definition route_direct_udp :: "millis \<Rightarrow> bool \<Rightarrow> nat \<Rightarrow> bytes \<Rightarrow> Engine \<Rightarrow> Engine" where
  "route_direct_udp now relay_fallback h frame s =
     (let peer = sess s h in
      case se_direct_endpoint peer of
        Some (ep, local) \<Rightarrow> upd_sess h (add_tx (length frame)) (emit (SendDirectFrom local ep frame) s)
      | None \<Rightarrow>
          upd_sess h (add_tx (length frame))
            (case se_endpoints peer of
               ep # _ \<Rightarrow> emit (SendDirect ep frame) s
             | [] \<Rightarrow> if relay_fallback then emit (SendRelay (en_device_id s) (se_id peer) frame) s
                     else note_policy_drop now h DirectUdpNoEndpoint s))"

definition route_direct_tcp :: "millis \<Rightarrow> bool \<Rightarrow> nat \<Rightarrow> bytes \<Rightarrow> Engine \<Rightarrow> Engine" where
  "route_direct_tcp now relay_fallback h frame s =
     (let peer = sess s h;
          absent = (if relay_fallback
                    then upd_sess h (add_tx (length frame))
                           (emit (SendRelay (en_device_id s) (se_id peer) frame) s)
                    else note_policy_drop now h DirectTcpNoConn s) in
      case se_tcp_conn peer of
        Some c \<Rightarrow>
          (if conn_is_closed s c then absent
           else (let (ok, s1) = conn_send c frame s in
                 if ok then upd_sess h (add_tx (length frame)) s1
                 else note_policy_drop now h DirectTcpSendFailed s1))
      | None \<Rightarrow> absent)"

definition route_sealed :: "millis \<Rightarrow> nat \<Rightarrow> bytes \<Rightarrow> Engine \<Rightarrow> Engine" where
  "route_sealed now h frame s =
     (if en_stopping s then s
      else
        (let peer = sess s h;
             policy = policy_for s (se_id peer);
             relay_fallback = (policy = PathPolicy.Auto) in
         case route_path s peer policy of
           None \<Rightarrow> note_policy_drop now h DirectAnyNoResource s
         | Some DirectUdp \<Rightarrow> route_direct_udp now relay_fallback h frame s
         | Some DirectTcp \<Rightarrow> route_direct_tcp now relay_fallback h frame s
         | Some RelayTcp \<Rightarrow>
             emit (RelayTcpQueue \<lparr>ro_peer = h, ro_frame = frame, ro_fallback = relay_fallback,
                                  ro_policy = policy\<rparr>)
               (upd_sess h (add_tx (length frame)) s)
         | Some RelayUdp \<Rightarrow>
             upd_sess h (add_tx (length frame)) (emit (SendRelay (en_device_id s) (se_id peer) frame) s)))"

text \<open>The consumer of the queue; \<open>ok\<close> is the answer of the relay's TCP client.\<close>

definition relay_tcp_sent :: "millis \<Rightarrow> RelayTcpOut \<Rightarrow> bool \<Rightarrow> Engine \<Rightarrow> Engine" where
  "relay_tcp_sent now out ok s =
     (if \<not> ok then
        if ro_fallback out
        then emit (SendRelay (en_device_id s) (se_id (sess s (ro_peer out))) (ro_frame out)) s
        else note_drop_detached now (ro_peer out) (ro_policy out) RelayTcpSendFailed s
      else s)"

definition reply_on_arrival :: "nat \<Rightarrow> Arrival \<Rightarrow> bytes \<Rightarrow> Engine \<Rightarrow> Engine" where
  "reply_on_arrival h arrival frame s =
     upd_sess h (add_tx (length frame))
       (case arrival of
          ArrDirectUdp ep local \<Rightarrow> emit (SendDirectFrom local ep frame) s
        | ArrDirectTcp c \<Rightarrow> snd (conn_send c frame s)
        | ArrRelayTcp \<Rightarrow> emit (RelayTcpSend (se_id (sess s h)) frame) s
        | ArrRelayUdp \<Rightarrow> emit (SendRelay (en_device_id s) (se_id (sess s h)) frame) s)"

text \<open>Sealing under the session's codec, which advances.\<close>

definition seal_for :: "Ext \<Rightarrow> nat \<Rightarrow> u8 \<Rightarrow> bytes \<Rightarrow> Engine \<Rightarrow> bytes \<times> Engine" where
  "seal_for ext h ftype payload s =
     (let (frame, c) = seal (ex_aenc ext) (se_codec (sess s h)) (en_device_id s) ftype payload
      in (frame, upd_sess h (se_codec_update (\<lambda>_. c)) s))"

definition send_flow_payload :: "Ext \<Rightarrow> millis \<Rightarrow> NetId \<Rightarrow> u64 \<Rightarrow> bytes \<Rightarrow> Engine \<Rightarrow> Engine" where
  "send_flow_payload ext now net_id peer_id payload s =
     (case tget (en_peers s) (net_id, peer_id) of
        None \<Rightarrow> s
      | Some h \<Rightarrow> (let (frame, s1) = seal_for ext h FRAME_FLOW payload s in route_sealed now h frame s1))"

text \<open>A packet of the TUN device: IPv4 only, and an unknown destination is dropped.\<close>

definition tun_packet :: "Ext \<Rightarrow> millis \<Rightarrow> bytes \<Rightarrow> Engine \<Rightarrow> Engine" where
  "tun_packet ext now pkt s =
     (if 20 \<le> length pkt \<and> drop_bit 4 (pkt ! 0) = 4 then
        (let dst = ipv4_of_octets (unat (pkt ! 16)) (unat (pkt ! 17)) (unat (pkt ! 18)) (unat (pkt ! 19)) in
         case peer_by_ip s dst of
           None \<Rightarrow> s
         | Some (_, h) \<Rightarrow> (let (frame, s1) = seal_for ext h FRAME_DATA pkt s in route_sealed now h frame s1))
      else s)"

section \<open>Received frames\<close>

definition attach_peer_tcp :: "Ext \<Rightarrow> NetId \<Rightarrow> nat \<Rightarrow> nat \<Rightarrow> Engine \<Rightarrow> Engine" where
  "attach_peer_tcp ext net_id h conn s =
     (let replace = (case se_tcp_conn (sess s h) of
                       Some existing \<Rightarrow> conn_is_closed s existing \<or> existing \<noteq> conn
                     | None \<Rightarrow> True);
          s1 = (if replace then upd_sess h (se_tcp_conn_update (\<lambda>_. Some conn)) s else s);
          policy = policy_for s1 (se_id (sess s1 h));
          path = se_current_path (sess s1 h)
      in if policy_allows policy DirectTcp \<and> (path = RelayUdp \<or> path = RelayTcp)
         then emit (Log (PathUpDirectTcp (se_name (sess s1 h)) (network_name (ex_hexenc ext) s1 net_id)))
                (upd_sess h (se_current_path_update (\<lambda>_. DirectTcp)) s1)
         else s1)"

text \<open>The sessions of a sender over all networks, in the order of the table.\<close>

definition candidates :: "Engine \<Rightarrow> u64 \<Rightarrow> (NetId \<times> nat) list" where
  "candidates s sender = [(n, h). ((n, d), h) \<leftarrow> en_peers s, d = sender]"

fun first_open ::
  "adec \<Rightarrow> (NetId \<times> nat) list \<Rightarrow> bytes \<Rightarrow> Engine
   \<Rightarrow> ((NetId \<times> nat \<times> u8 \<times> bytes) option \<times> Engine) option" where
  "first_open adec [] packet s = Some (None, s)"
| "first_open adec ((net_id, h) # rest) packet s = do {
     (r, c) \<leftarrow> try_open adec (se_codec (sess s h)) packet;
     let s1 = upd_sess h (se_codec_update (\<lambda>_. c)) s;
     case r of
       Some (_, frame_type, payload) \<Rightarrow> Some (Some (net_id, h, frame_type, payload), s1)
     | None \<Rightarrow> first_open adec rest packet s1 }"

text \<open>i64::from\_le\_bytes and to\_le\_bytes; the subtraction wraps, as in the release profile.\<close>

definition i64_of_le :: "bytes \<Rightarrow> int" where
  "i64_of_le b = sint (of_nat (le_val b) :: u64)"

definition i64_to_le :: "int \<Rightarrow> bytes" where
  "i64_to_le v = u64_to_le_bytes (of_int v)"

definition i64_sub :: "int \<Rightarrow> int \<Rightarrow> int" where
  "i64_sub a b = sint (of_int (a - b) :: u64)"

definition handle_pong :: "Ext \<Rightarrow> millis \<Rightarrow> NetId \<Rightarrow> nat \<Rightarrow> Arrival \<Rightarrow> bytes \<Rightarrow> Engine \<Rightarrow> Engine" where
  "handle_pong ext now net_id h arrival payload s =
     (let rtt = i64_sub now (i64_of_le (take 8 payload));
          s1 = (if 8 \<le> length payload \<and> 0 \<le> rtt \<and> rtt < 600000
                then upd_sess h (se_rtt_ms_update (\<lambda>_. rtt)) s else s);
          s2 = upd_sess h (se_last_pong_ms_update (\<lambda>_. now)) s1 in
      case arrival of
        ArrDirectUdp from local \<Rightarrow>
          (if policy_allows (policy_for s2 (se_id (sess s2 h))) DirectUdp then
             (let was_missing = (se_direct_endpoint (sess s2 h) = None);
                  s3 = upd_sess h (se_direct_endpoint_update (\<lambda>_. Some (from, local))) s2;
                  name = se_name (sess s3 h);
                  net = network_name (ex_hexenc ext) s3 net_id
              in if se_current_path (sess s3 h) \<noteq> DirectUdp
                 then emit (Log (PathUpDirectUdp name net from))
                        (upd_sess h (se_current_path_update (\<lambda>_. DirectUdp)) s3)
                 else if was_missing then emit (Log (PathUpPinned name net from)) s3
                 else s3)
           else s2)
      | _ \<Rightarrow> s2)"

definition handle_opened ::
  "Ext \<Rightarrow> millis \<Rightarrow> Arrival \<Rightarrow> nat \<Rightarrow> NetId \<Rightarrow> nat \<Rightarrow> u8 \<Rightarrow> bytes \<Rightarrow> Engine \<Rightarrow> Engine" where
  "handle_opened ext now arrival plen net_id h frame_type payload s =
     (let s1 = upd_sess h (add_rx plen) s;
          s2 = (case arrival of ArrDirectTcp conn \<Rightarrow> attach_peer_tcp ext net_id h conn s1 | _ \<Rightarrow> s1) in
      if frame_type = FRAME_PING then
        (let (pong, s3) = seal_for ext h FRAME_PONG payload s2 in reply_on_arrival h arrival pong s3)
      else if frame_type = FRAME_PONG then handle_pong ext now net_id h arrival payload s2
      else if frame_type = FRAME_DATA then emit (ToTun payload) s2
      else if frame_type = FRAME_FLOW then emit (FlowEnqueue net_id (se_id (sess s2 h)) payload) s2
      else s2)"

definition handle_frame :: "Ext \<Rightarrow> millis \<Rightarrow> Arrival \<Rightarrow> bytes \<Rightarrow> Engine \<Rightarrow> Engine option" where
  "handle_frame ext now arrival packet s = do {
     parsed \<leftarrow> try_parse packet;
     case parsed of
       None \<Rightarrow> Some s
     | Some raw \<Rightarrow>
         (let cands = candidates s (rf_sender_id raw) in
          if cands = [] then Some s
          else do {
            (matched, s1) \<leftarrow> first_open (ex_adec ext) cands packet s;
            case matched of
              None \<Rightarrow> Some s1
            | Some (net_id, h, frame_type, payload) \<Rightarrow>
                Some (handle_opened ext now arrival (length packet) net_id h frame_type payload s1) }) }"

section \<open>Probing\<close>

fun sa_port :: "SocketAddr \<Rightarrow> u16" where
  "sa_port (SocketAddrV4 a p) = p"
| "sa_port (SocketAddrV6 a f p) = p"

text \<open>SocketAddr::new of the address of another one.\<close>

fun sa_with_port :: "SocketAddr \<Rightarrow> u16 \<Rightarrow> SocketAddr" where
  "sa_with_port (SocketAddrV4 a _) p = SocketAddrV4 a p"
| "sa_with_port (SocketAddrV6 a _ _) p = SocketAddrV6 a 0 p"

text \<open>The predicted ports next to the observed one, for d from 1 to 4.\<close>

definition neighbour_ports :: "u16 \<Rightarrow> u16 list" where
  "neighbour_ports port = concat (map (\<lambda>d :: u16.
       (if unat port + unat d < 2 ^ 16 then [port + d] else [])
     @ (if d + 1024 < port then [port - d] else [])) [1, 2, 3, 4])"

definition probe_targets :: "SocketAddr list \<Rightarrow> SocketAddr list" where
  "probe_targets endpoints =
     take 4 endpoints
     @ (case endpoints of [] \<Rightarrow> []
        | observed # _ \<Rightarrow> map (sa_with_port observed) (neighbour_ports (sa_port observed)))"

definition try_direct_tcp_probe :: "millis \<Rightarrow> nat \<Rightarrow> SocketAddr list \<Rightarrow> Engine \<Rightarrow> Engine" where
  "try_direct_tcp_probe now h endpoints s =
     (case se_tcp_listen_port (sess s h) of
        None \<Rightarrow> throttled_diag now h PeerNoTcpPort s
      | Some tcp_port \<Rightarrow>
          (if se_tcp_conn (sess s h) \<noteq> None then s
           else
             (let targets = map (\<lambda>e. sa_with_port e tcp_port) (take 4 endpoints) in
              if targets = [] then throttled_diag now h NoEndpoints s
              else if now < se_tcp_cooldown_until_ms (sess s h) then s
              else emit (DialTcp h targets)
                     (upd_sess h (se_tcp_cooldown_until_ms_update (\<lambda>_. now + 60000)) s))))"

text \<open>The task that dials, once a target has accepted the connection.\<close>

definition tcp_dialled :: "Ext \<Rightarrow> millis \<Rightarrow> nat \<Rightarrow> nat \<Rightarrow> Engine \<Rightarrow> Engine" where
  "tcp_dialled ext now h conn s =
     (let nets = [n. ((n, d), _) \<leftarrow> en_peers s, d = se_id (sess s h)];
          s1 = (case nets of [] \<Rightarrow> s | net_id # _ \<Rightarrow> attach_peer_tcp ext net_id h conn s);
          (ping, s2) = seal_for ext h FRAME_PING (i64_to_le now) s1;
          s3 = snd (conn_send conn ping s2)
      in upd_sess h (add_tx (length ping)) s3)"

definition PEER_PING_INTERVAL :: millis where "PEER_PING_INTERVAL = 10000"
definition PEER_PING_MISS_LIMIT :: int where "PEER_PING_MISS_LIMIT = 3"

definition direct_path_dead :: "millis \<Rightarrow> millis \<Rightarrow> bool" where
  "direct_path_dead now_ms last_pong_ms =
     (0 < last_pong_ms \<and> now_ms - last_pong_ms > PEER_PING_INTERVAL * PEER_PING_MISS_LIMIT)"

definition want_udp :: "Engine \<Rightarrow> PathPolicy \<Rightarrow> PeerSession \<Rightarrow> bool" where
  "want_udp s policy peer =
     (case policy of
        PathPolicy.Auto \<Rightarrow> se_current_path peer \<noteq> DirectUdp
      | PathPolicy.DirectAny \<Rightarrow> se_current_path peer \<noteq> DirectUdp
      | PathPolicy.DirectUdp \<Rightarrow> se_direct_endpoint peer = None
      | _ \<Rightarrow> False)"

definition want_tcp :: "Engine \<Rightarrow> PathPolicy \<Rightarrow> PeerSession \<Rightarrow> bool" where
  "want_tcp s policy peer =
     (case policy of
        PathPolicy.Auto \<Rightarrow> se_current_path peer \<noteq> DirectUdp
      | PathPolicy.DirectAny \<Rightarrow> se_current_path peer \<noteq> DirectUdp
      | PathPolicy.DirectTcp \<Rightarrow> (case se_tcp_conn peer of None \<Rightarrow> True | Some c \<Rightarrow> conn_is_closed s c)
      | _ \<Rightarrow> False)"

definition spray :: "bytes \<Rightarrow> SocketAddr list \<Rightarrow> Engine \<Rightarrow> Engine" where
  "spray ping targets s = fold (\<lambda>ep. emit (SendDirectAll ep ping)) targets s"

definition downgrade :: "Ext \<Rightarrow> NetId \<Rightarrow> nat \<Rightarrow> PathKind \<Rightarrow> Engine \<Rightarrow> Engine" where
  "downgrade ext net_id h path s =
     emit (Log (PathDown (se_name (sess s h)) (network_name (ex_hexenc ext) s net_id) path))
       (upd_sess h (\<lambda>p. (if path = DirectUdp then p\<lparr>se_direct_endpoint := None\<rparr>
                         else p\<lparr>se_tcp_conn := None\<rparr>)\<lparr>se_current_path := RelayUdp\<rparr>) s)"

definition probe_peer :: "Ext \<Rightarrow> millis \<Rightarrow> NetId \<Rightarrow> nat \<Rightarrow> Engine \<Rightarrow> Engine" where
  "probe_peer ext now net_id h s =
     (let (ping, s1) = seal_for ext h FRAME_PING (i64_to_le now) s;
          s2 = route_sealed now h ping s1;
          peer = sess s2 h;
          policy = policy_for s2 (se_id peer) in
      if policy = PathPolicy.RelayUdp \<or> policy = PathPolicy.RelayTcp then s2
      else
        (let path = se_current_path peer;
             endpoints = se_endpoints peer;
             s3 = (if want_udp s2 policy peer then spray ping (probe_targets endpoints) s2 else s2);
             s4 = (if want_tcp s2 policy peer then try_direct_tcp_probe now h endpoints s3 else s3)
         in if (path = DirectUdp \<or> path = DirectTcp)
               \<and> direct_path_dead now (se_last_pong_ms (sess s4 h)) \<and> policy = PathPolicy.Auto
            then downgrade ext net_id h path s4
            else s4))"

definition probe_tick :: "Ext \<Rightarrow> millis \<Rightarrow> Engine \<Rightarrow> Engine" where
  "probe_tick ext now s =
     fold (\<lambda>(net_id, h). probe_peer ext now net_id h)
       [(n, h). ((n, _), h) \<leftarrow> en_peers s, se_online (sess s h)] s"

end
