(* ===== verification/EngineRouteProps.thy ===== *)
theory EngineRouteProps
  imports EngineRoute
begin

text \<open>
  What the routing of the engine guarantees: every handler on one peer touches
  only that peer's session and appends effects; the path policy is never violated
  by outgoing traffic; frames that do not authenticate leave no trace; a PING is
  answered once, on the path it came by; a dead direct path is given up.
\<close>

section \<open>Steps on one session\<close>

text \<open>What no handler changes in a session, and that only a pin selects the TCP relay.\<close>

definition keeps :: "PeerSession \<Rightarrow> PeerSession \<Rightarrow> bool" where
  "keeps p q = (se_id q = se_id p \<and> se_network_id_hint q = se_network_id_hint p
     \<and> se_dh_pubkey q = se_dh_pubkey p \<and> pc_keys (se_codec q) = pc_keys (se_codec p)
     \<and> se_virtual_ip q = se_virtual_ip p \<and> se_endpoints q = se_endpoints p
     \<and> (se_current_path q = RelayTcp \<longrightarrow> se_current_path p = RelayTcp))"

lemma keeps_refl [simp]: "keeps p p"
  by (simp add: keeps_def)

lemma keeps_trans: "keeps p q \<Longrightarrow> keeps q r \<Longrightarrow> keeps p r"
  by (auto simp: keeps_def)

definition touches :: "(Effect \<Rightarrow> bool) \<Rightarrow> nat \<Rightarrow> Engine \<Rightarrow> Engine \<Rightarrow> bool" where
  "touches P h s s' = (\<exists>p es. s' = s\<lparr>en_sessions := (en_sessions s)(h := p), en_out := en_out s @ es\<rparr>
     \<and> keeps (sess s h) p \<and> (\<forall>e\<in>set es. P e))"

named_theorems touch \<open>handlers on one session\<close>

lemma touches_refl [touch]: "touches P h s s"
  unfolding touches_def by (rule exI [of _ "sess s h"], rule exI [of _ "[]"]) simp

lemma touches_trans:
  assumes "touches P h s t" and "touches P h t u"
  shows "touches P h s u"
proof -
  obtain p es where 1: "t = s\<lparr>en_sessions := (en_sessions s)(h := p), en_out := en_out s @ es\<rparr>"
    "keeps (sess s h) p" "\<forall>e\<in>set es. P e" using assms(1) unfolding touches_def by blast
  obtain q fs where 2: "u = t\<lparr>en_sessions := (en_sessions t)(h := q), en_out := en_out t @ fs\<rparr>"
    "keeps (sess t h) q" "\<forall>e\<in>set fs. P e" using assms(2) unfolding touches_def by blast
  have "u = s\<lparr>en_sessions := (en_sessions s)(h := q), en_out := en_out s @ (es @ fs)\<rparr>"
    using 1 2 by simp
  moreover have "keeps (sess s h) q" using keeps_trans [OF 1(2)] 1(1) 2(2) by simp
  ultimately show ?thesis unfolding touches_def using 1(3) 2(3)
    by (intro exI [of _ q] exI [of _ "es @ fs"]) auto
qed

lemma touches_emit [touch]: "touches P h s t \<Longrightarrow> P e \<Longrightarrow> touches P h s (emit e t)"
  by (erule touches_trans) (auto simp: touches_def emit_def intro!: exI [of _ "sess t h"] exI [of _ "[e]"])

lemma touches_upd [touch]:
  "touches P h s t \<Longrightarrow> keeps (sess t h) (f (sess t h)) \<Longrightarrow> touches P h s (upd_sess h f t)"
  by (erule touches_trans)
     (auto simp: touches_def upd_sess_def intro!: exI [of _ "f (sess t h)"] exI [of _ "[]"])

lemma touches_mono: "touches P h s t \<Longrightarrow> (\<And>e. P e \<Longrightarrow> Q e) \<Longrightarrow> touches Q h s t"
  unfolding touches_def by blast

lemma touches_frame:
  assumes "touches P h s t"
  shows "policy_for t = policy_for s" "en_stopping t = en_stopping s" "en_device_id t = en_device_id s"
    "en_peers t = en_peers s" "en_networks t = en_networks s" "se_id (sess t k) = se_id (sess s k)"
    "k \<noteq> h \<Longrightarrow> sess t k = sess s k" "keeps (sess s k) (sess t k)"
    "en_conn_closed t = en_conn_closed s" "en_next_session t = en_next_session s"
    "se_endpoints (sess t k) = se_endpoints (sess s k)"
    "en_path_policy t = en_path_policy s" "en_peer_policies t = en_peer_policies s"
  using assms unfolding touches_def
  by (auto simp: policy_for_def fun_eq_iff keeps_def split: option.split if_splits)

lemma keeps_update [simp]:
  "keeps p (se_last_diag_log_ms_update f p)" "keeps p (se_tx_dropped_update g p)"
  "keeps p (add_tx n p)" "keeps p (add_rx n p)" "keeps p (se_tcp_conn_update i p)"
  "keeps p (se_rtt_ms_update f p)" "keeps p (se_last_pong_ms_update f p)"
  "keeps p (se_direct_endpoint_update j p)" "keeps p (se_tcp_cooldown_until_ms_update f p)"
  "keeps p (se_current_path_update (\<lambda>_. DirectTcp) p)" "keeps p (se_current_path_update (\<lambda>_. DirectUdp) p)"
  "keeps p (se_current_path_update (\<lambda>_. RelayUdp) p)"
  "pc_keys c = pc_keys (se_codec p) \<Longrightarrow> keeps p (se_codec_update (\<lambda>_. c) p)"
  by (simp_all add: keeps_def add_tx_def add_rx_def)

lemma sess_emit [simp]: "en_sessions (emit e s) = en_sessions s"
  and policy_emit [simp]: "policy_for (emit e s) = policy_for s"
  and policy_upd [simp]: "policy_for (upd_sess h f s) = policy_for s"
  and sess_upd [simp]: "en_sessions (upd_sess h f s) k = (if k = h then f (en_sessions s h) else en_sessions s k)"
  and device_emit [simp]: "en_device_id (emit e s) = en_device_id s"
  and device_upd [simp]: "en_device_id (upd_sess h f s) = en_device_id s"
  and stopping_upd [simp]: "en_stopping (upd_sess h f s) = en_stopping s"
  and peers_upd [simp]: "en_peers (upd_sess h f s) = en_peers s"
  and peers_emit [simp]: "en_peers (emit e s) = en_peers s"
  and out_upd [simp]: "en_out (upd_sess h f s) = en_out s"
  and out_emit [simp]: "en_out (emit e s) = en_out s @ [e]"
  and closed_upd [simp]: "en_conn_closed (upd_sess h f s) = en_conn_closed s"
  and closed_emit [simp]: "en_conn_closed (emit e s) = en_conn_closed s"
  by (auto simp: emit_def upd_sess_def policy_for_def fun_eq_iff split: option.split)

lemma se_id_update [simp]: "se_id (add_tx n p) = se_id p" "se_id (add_rx n p) = se_id p"
  by (simp_all add: add_tx_def add_rx_def)

section \<open>Outgoing traffic and the policy\<close>

text \<open>The path an effect uses, and the paths a policy permits for outgoing traffic.\<close>

fun egress :: "Effect \<Rightarrow> PathKind option" where
  "egress (SendRelay _ _ _) = Some RelayUdp"
| "egress (SendDirect _ _) = Some DirectUdp"
| "egress (SendDirectFrom _ _ _) = Some DirectUdp"
| "egress (SendDirectAll _ _) = Some DirectUdp"
| "egress (ConnSend _ _) = Some DirectTcp"
| "egress (DialTcp _ _) = Some DirectTcp"
| "egress (RelayTcpQueue _) = Some RelayTcp"
| "egress (RelayTcpSend _ _) = Some RelayTcp"
| "egress _ = None"

fun permits :: "PathPolicy \<Rightarrow> PathKind \<Rightarrow> bool" where
  "permits PathPolicy.Auto k = True"
| "permits PathPolicy.RelayUdp k = (k = RelayUdp)"
| "permits PathPolicy.RelayTcp k = (k = RelayTcp)"
| "permits PathPolicy.DirectAny k = (k = DirectUdp \<or> k = DirectTcp)"
| "permits PathPolicy.DirectUdp k = (k = DirectUdp)"
| "permits PathPolicy.DirectTcp k = (k = DirectTcp)"

text \<open>An effect within a policy; a queued frame may fall back to the UDP relay only under Auto.\<close>

definition within :: "PathPolicy \<Rightarrow> Effect \<Rightarrow> bool" where
  "within pol e = ((\<forall>k. egress e = Some k \<longrightarrow> permits pol k)
     \<and> (\<forall>r. e = RelayTcpQueue r \<longrightarrow> ro_policy r = pol \<and> ro_fallback r = (pol = PathPolicy.Auto)))"

text \<open>The same, where q says whether the TCP relay is the current path of the session.\<close>

definition allowed :: "bool \<Rightarrow> PathPolicy \<Rightarrow> Effect \<Rightarrow> bool" where
  "allowed q pol e = (within pol e \<and> (\<forall>r. e = RelayTcpQueue r \<longrightarrow> pol = PathPolicy.Auto \<longrightarrow> q))"

lemma within_Log [simp]: "within pol (Log m)" "allowed q pol (Log m)"
  by (simp_all add: within_def allowed_def)

lemma permits_iff: "permits p k \<longleftrightarrow> policy_allows p k \<or> p = PathPolicy.RelayUdp \<and> k = RelayUdp
    \<or> p = PathPolicy.RelayTcp \<and> k = RelayTcp"
  by (cases p) auto

lemma throttled_diag_touches [touch]:
  "touches (allowed q pol) h s t \<Longrightarrow> touches (allowed q pol) h s (throttled_diag now h m t)"
  unfolding throttled_diag_def by (auto intro!: touch)

lemma note_drop_touches [touch]:
  "touches (allowed q pol) h s t \<Longrightarrow> touches (allowed q pol) h s (note_drop_detached now h pl r t)"
  unfolding note_drop_detached_def Let_def by (auto intro!: touch)

lemma note_policy_drop_touches [touch]:
  "touches (allowed q pol) h s t \<Longrightarrow> touches (allowed q pol) h s (note_policy_drop now h r t)"
  unfolding note_policy_drop_def by (rule note_drop_touches)

lemma route_direct_udp_touches:
  assumes "permits pol DirectUdp" and "fb \<Longrightarrow> pol = PathPolicy.Auto"
  shows "touches (allowed q pol) h s (route_direct_udp now fb h frame s)"
  using assms unfolding route_direct_udp_def Let_def
  by (auto intro!: touch simp: allowed_def within_def split: option.split list.split)

lemma conn_send_touches [touch]:
  "touches (allowed q pol) h s t \<Longrightarrow> permits pol DirectTcp \<Longrightarrow> touches (allowed q pol) h s (snd (conn_send c f t))"
  unfolding conn_send_def by (auto intro!: touch simp: allowed_def within_def)

lemma route_direct_tcp_touches:
  assumes "permits pol DirectTcp" and "fb \<Longrightarrow> pol = PathPolicy.Auto"
  shows "touches (allowed q pol) h s (route_direct_tcp now fb h frame s)"
proof -
  have "touches (allowed q pol) h s t \<Longrightarrow> snd (conn_send c frame s) = t \<Longrightarrow>
      touches (allowed q pol) h s (upd_sess h (add_tx n) t)" for c t n by (intro touch) simp_all
  then show ?thesis
    using assms conn_send_touches [OF touches_refl assms(1), of q h s _ frame]
    unfolding route_direct_tcp_def Let_def case_prod_beta
    by (auto intro!: touch simp: allowed_def within_def split: option.split)
qed

lemma route_sealed_touches:
  assumes "pol = policy_for s (se_id (sess s h))" and "q = (se_current_path (sess s h) = RelayTcp)"
  shows "touches (allowed q pol) h s (route_sealed now h frame s)"
proof -
  have p: "permits pol k" if "route_path s (sess s h) pol = Some k" for k
    using that by (cases pol) (auto simp: route_path_def split: if_splits option.splits)
  show ?thesis
  proof (cases "route_path s (sess s h) pol")
    case None
    then show ?thesis using assms unfolding route_sealed_def Let_def by (auto intro!: touch)
  next
    case (Some k)
    then show ?thesis
      using p [OF Some] assms Some route_direct_udp_touches [of pol "pol = PathPolicy.Auto" q h s now frame]
        route_direct_tcp_touches [of pol "pol = PathPolicy.Auto" q h s now frame]
      unfolding route_sealed_def Let_def
      by (cases k) (auto intro!: touch simp: allowed_def within_def route_path_def)
  qed
qed

lemma seal_for_eq:
  "seal_for ext h ft m s = (fst (seal_for ext h ft m s), upd_sess h (se_codec_update
     (\<lambda>_. snd (seal (ex_aenc ext) (se_codec (sess s h)) (en_device_id s) ft m))) s)"
  by (simp add: seal_for_def case_prod_beta)

lemma seal_keys [simp]: "pc_keys (snd (seal a c i ft m)) = pc_keys c"
  by (simp add: seal_def Let_def)

lemma seal_for_touches [touch]:
  "touches P h s t \<Longrightarrow> touches P h s (snd (seal_for ext h ft m t))"
  by (subst seal_for_eq) (auto intro!: touch)

lemma seal_for_path [simp]: "se_current_path (sess (snd (seal_for ext h ft m s)) k) = se_current_path (sess s k)"
  by (subst seal_for_eq) simp

lemma send_flow_touches:
  assumes "tget (en_peers s) (n, d) = Some h" and "pol = policy_for s (se_id (sess s h))"
    and "q = (se_current_path (sess s h) = RelayTcp)"
  shows "touches (allowed q pol) h s (send_flow_payload ext now n d m s)"
proof -
  let ?t = "snd (seal_for ext h FRAME_FLOW m s)"
  have t: "touches (allowed q pol) h s ?t" by (intro touch)
  have "pol = policy_for ?t (se_id (sess ?t h))" using assms(2) touches_frame [OF t] by simp
  from touches_trans [OF t route_sealed_touches [OF this]] show ?thesis
    using assms(1,3) by (simp add: send_flow_payload_def case_prod_beta)
qed

lemma tun_packet_touches:
  assumes "peer_by_ip s (ipv4_of_octets (unat (pkt ! 16)) (unat (pkt ! 17)) (unat (pkt ! 18)) (unat (pkt ! 19))) = Some (n, h)"
    and "pol = policy_for s (se_id (sess s h))" and "q = (se_current_path (sess s h) = RelayTcp)"
  shows "touches (allowed q pol) h s (tun_packet ext now pkt s)"
proof -
  let ?t = "snd (seal_for ext h FRAME_DATA pkt s)"
  have t: "touches (allowed q pol) h s ?t" by (intro touch)
  have "pol = policy_for ?t (se_id (sess ?t h))" using assms(2) touches_frame [OF t] by simp
  from touches_trans [OF t route_sealed_touches [OF this]] show ?thesis
    using assms(1,3) by (simp add: tun_packet_def Let_def case_prod_beta touches_refl)
qed

lemma spray_touches [touch]:
  "touches (allowed q pol) h s t \<Longrightarrow> permits pol DirectUdp \<Longrightarrow> touches (allowed q pol) h s (spray ping eps t)"
  unfolding spray_def
proof (induction eps arbitrary: t)
  case (Cons a eps)
  then show ?case using touches_emit [OF Cons.prems(1), of "SendDirectAll a ping"] by (simp add: allowed_def within_def)
qed simp

lemma tcp_probe_touches [touch]:
  "touches (allowed q pol) h s t \<Longrightarrow> permits pol DirectTcp \<Longrightarrow>
     touches (allowed q pol) h s (try_direct_tcp_probe now h eps t)"
  unfolding try_direct_tcp_probe_def Let_def
  by (auto intro!: touch simp: allowed_def within_def split: option.split)

lemma downgrade_touches [touch]:
  "touches (allowed q pol) h s t \<Longrightarrow> touches (allowed q pol) h s (downgrade ext n h path t)"
  unfolding downgrade_def by (auto intro!: touch simp: keeps_def)

lemma want_permits:
  "want_udp s pol p \<Longrightarrow> permits pol DirectUdp" "want_tcp s pol p \<Longrightarrow> permits pol DirectTcp"
  by (cases pol; simp add: want_udp_def want_tcp_def)+

lemma probe_peer_touches:
  assumes pol: "pol = policy_for s (se_id (sess s h))" and q: "q = (se_current_path (sess s h) = RelayTcp)"
  shows "touches (allowed q pol) h s (probe_peer ext now n h s)"
proof -
  obtain ping s1 where 1: "seal_for ext h FRAME_PING (i64_to_le now) s = (ping, s1)" by force
  have t1: "touches (allowed q pol) h s s1"
    using seal_for_touches [OF touches_refl, of "allowed q pol" h s ext FRAME_PING "i64_to_le now"] 1 by simp
  have p1: "pol = policy_for s1 (se_id (sess s1 h))" using pol touches_frame [OF t1] by simp
  define s2 where "s2 = route_sealed now h ping s1"
  have t2: "touches (allowed q pol) h s s2"
    unfolding s2_def using seal_for_path [of ext h FRAME_PING "i64_to_le now" s h] 1 q
    by (intro touches_trans [OF t1 route_sealed_touches [OF p1]]) simp
  have p2: "policy_for s2 (se_id (sess s2 h)) = pol" using pol touches_frame [OF t2] by simp
  let ?eps = "se_endpoints (sess s2 h)"
  define s3 where "s3 = (if want_udp s2 pol (sess s2 h) then spray ping (probe_targets ?eps) s2 else s2)"
  have t3: "touches (allowed q pol) h s s3" unfolding s3_def using t2 want_permits by (auto intro!: touch)
  define s4 where "s4 = (if want_tcp s2 pol (sess s2 h) then try_direct_tcp_probe now h ?eps s3 else s3)"
  have t4: "touches (allowed q pol) h s s4" unfolding s4_def using t3 want_permits by (auto intro!: touch)
  show ?thesis
    unfolding probe_peer_def Let_def 1 prod.case s2_def [symmetric] p2 s3_def [symmetric] s4_def [symmetric]
    using t2 t4 downgrade_touches [OF t4, of ext n "se_current_path (sess s2 h)"] by (auto split: if_split)
qed

section \<open>Paths under probing\<close>

text \<open>What outgoing traffic leaves alone: the path and the resources it rests on.\<close>

definition path_state ::
  "PeerSession \<Rightarrow> PathKind \<times> (SocketAddr \<times> SocketAddr) option \<times> nat option \<times> millis \<times> SocketAddr list \<times> u64" where
  "path_state p = (se_current_path p, se_direct_endpoint p, se_tcp_conn p, se_last_pong_ms p, se_endpoints p, se_id p)"

lemma path_state_update [simp]:
  "path_state (add_tx n p) = path_state p"
  "path_state (p\<lparr>se_codec := c\<rparr>) = path_state p"
  "path_state (p\<lparr>se_tx_dropped := x\<rparr>) = path_state p"
  "path_state (p\<lparr>se_last_diag_log_ms := t\<rparr>) = path_state p"
  "path_state (p\<lparr>se_tcp_cooldown_until_ms := t\<rparr>) = path_state p"
  by (simp_all add: path_state_def add_tx_def)

lemma path_state_drop [simp]:
  "path_state (sess (note_drop_detached now h q r s) k) = path_state (sess s k)"
  "path_state (sess (note_policy_drop now h r s) k) = path_state (sess s k)"
  "path_state (sess (throttled_diag now h m s) k) = path_state (sess s k)"
  by (simp_all add: note_policy_drop_def note_drop_detached_def throttled_diag_def Let_def)

lemma conn_send_sess [simp]: "en_sessions (snd (conn_send c f s)) = en_sessions s"
  by (simp add: conn_send_def)

lemma path_state_route [simp]:
  "path_state (sess (route_sealed now h f s) k) = path_state (sess s k)"
proof -
  have u: "path_state (sess (route_direct_udp now b h f s) k) = path_state (sess s k)" for b
    by (auto simp: route_direct_udp_def Let_def split: option.split list.split)
  have t: "path_state (sess (route_direct_tcp now b h f s) k) = path_state (sess s k)" for b
    by (auto simp: route_direct_tcp_def Let_def case_prod_beta split: option.split)
  show ?thesis
    by (auto simp: route_sealed_def Let_def u t split: option.split PathKind.split)
qed

lemma path_state_seal [simp]:
  "path_state (sess (snd (seal_for ext h ft m s)) k) = path_state (sess s k)"
  by (subst seal_for_eq) simp

lemma spray_sess [simp]: "en_sessions (spray ping eps s) = en_sessions s"
  unfolding spray_def by (induction eps arbitrary: s) simp_all

lemma path_state_tcp_probe [simp]:
  "path_state (sess (try_direct_tcp_probe now h eps s) k) = path_state (sess s k)"
  by (auto simp: try_direct_tcp_probe_def Let_def split: option.split)

lemma path_stateD:
  assumes "path_state p = path_state q"
  shows "se_current_path p = se_current_path q" "se_direct_endpoint p = se_direct_endpoint q"
    "se_tcp_conn p = se_tcp_conn q" "se_last_pong_ms p = se_last_pong_ms q" "se_id p = se_id q"
    "se_endpoints p = se_endpoints q"
  using assms by (simp_all add: path_state_def)

text \<open>The session after a probe: unchanged in its path, or downgraded.\<close>

lemma probe_peer_path:
  fixes s :: Engine and h :: nat
  defines "p \<equiv> sess s h"
  assumes pol: "pol = policy_for s (se_id p)"
  shows "path_state (sess (probe_peer ext now n h s) h) =
    (if (se_current_path p = DirectUdp \<or> se_current_path p = DirectTcp)
        \<and> direct_path_dead now (se_last_pong_ms p) \<and> pol = PathPolicy.Auto
     then path_state ((if se_current_path p = DirectUdp then p\<lparr>se_direct_endpoint := None\<rparr>
                       else p\<lparr>se_tcp_conn := None\<rparr>)\<lparr>se_current_path := RelayUdp\<rparr>)
     else path_state p)"
proof -
  obtain ping s1 where 1: "seal_for ext h FRAME_PING (i64_to_le now) s = (ping, s1)" by force
  have e1: "path_state (sess s1 h) = path_state p"
    using path_state_seal [of ext h FRAME_PING "i64_to_le now" s h] 1 by (simp add: p_def)
  define s2 where "s2 = route_sealed now h ping s1"
  have e2: "path_state (sess s2 h) = path_state p" unfolding s2_def using e1 by simp
  have t1: "touches (\<lambda>_. True) h s s1"
    using seal_for_touches [OF touches_refl, of "\<lambda>_. True" h s ext FRAME_PING "i64_to_le now"] 1 by simp
  have "touches (\<lambda>_. True) h s1 s2" unfolding s2_def by (rule touches_mono [OF route_sealed_touches [OF refl refl]]) simp
  then have p2: "policy_for s2 = policy_for s" "policy_for s2 (se_id (sess s2 h)) = pol"
    using touches_frame(1) [OF t1] touches_frame(1) pol path_stateD(5) [OF e2] by (auto simp: p_def)
  let ?eps = "se_endpoints (sess s2 h)"
  define s3 where "s3 = (if want_udp s2 pol (sess s2 h) then spray ping (probe_targets ?eps) s2 else s2)"
  have e3: "path_state (sess s3 h) = path_state p" unfolding s3_def using e2 by simp
  define s4 where "s4 = (if want_tcp s2 pol (sess s2 h) then try_direct_tcp_probe now h ?eps s3 else s3)"
  have e4: "path_state (sess s4 h) = path_state p" unfolding s4_def using e3 by simp
  have pp: "probe_peer ext now n h s =
     (if pol = PathPolicy.RelayUdp \<or> pol = PathPolicy.RelayTcp then s2
      else if (se_current_path p = DirectUdp \<or> se_current_path p = DirectTcp)
        \<and> direct_path_dead now (se_last_pong_ms p) \<and> pol = PathPolicy.Auto
      then downgrade ext n h (se_current_path p) s4 else s4)"
    unfolding probe_peer_def Let_def 1 prod.case s2_def [symmetric] p2(2) s3_def [symmetric] s4_def [symmetric]
    by (simp only: path_stateD(1,4) [OF e2] path_stateD(1,4) [OF e4])
  show ?thesis unfolding pp using e2 e4
    by (auto simp: downgrade_def path_state_def)
qed

text \<open>
  C35 (liveness). Under the automatic policy a direct path whose peer has not answered for more
  than 30 seconds is given up at the next probe: the session is back on the UDP
  relay, the endpoint or connection of the dead path is forgotten, and the next
  frame leaves by the relay.
\<close>
theorem dead_path_abandoned:
  assumes "policy_for s (se_id (sess s h)) = PathPolicy.Auto"
    and "se_current_path (sess s h) = k" and "k = DirectUdp \<or> k = DirectTcp"
    and "0 < se_last_pong_ms (sess s h)" and "now - se_last_pong_ms (sess s h) > 30000"
    and "\<not> en_stopping s" and "s' = probe_peer ext now n h s"
  shows "se_current_path (sess s' h) = RelayUdp
    \<and> (k = DirectUdp \<longrightarrow> se_direct_endpoint (sess s' h) = None) \<and> (k = DirectTcp \<longrightarrow> se_tcp_conn (sess s' h) = None)
    \<and> en_out (route_sealed now' h frame s') = en_out s' @ [SendRelay (en_device_id s) (se_id (sess s h)) frame]"
proof -
  have d: "direct_path_dead now (se_last_pong_ms (sess s h))"
    using assms(4,5) by (simp add: direct_path_dead_def PEER_PING_INTERVAL_def PEER_PING_MISS_LIMIT_def)
  have p: "se_current_path (sess s' h) = RelayUdp" "k = DirectUdp \<longrightarrow> se_direct_endpoint (sess s' h) = None"
    "k = DirectTcp \<longrightarrow> se_tcp_conn (sess s' h) = None"
    using probe_peer_path [OF refl, where s = s and h = h and ext = ext and now = now and n = n] assms(1-3) d unfolding assms(7)
    by (auto simp: path_state_def split: if_splits)
  note t = touches_frame [OF probe_peer_touches [OF refl refl, where s = s and h = h and ext = ext and now = now and n = n], folded assms(7)]
  have "en_out (route_sealed now' h frame s') = en_out s' @ [SendRelay (en_device_id s) (se_id (sess s h)) frame]"
    using p(1) assms(1,6) t by (simp add: route_sealed_def Let_def route_path_def)
  then show ?thesis using p by simp
qed

lemma probes_path_state:
  assumes "policy_for s (se_id (sess s h)) \<noteq> PathPolicy.Auto \<or> se_last_pong_ms (sess s h) = 0"
  shows "path_state (sess (fold (\<lambda>now. probe_peer ext now n h) ts s) h) = path_state (sess s h)"
  using assms
proof (induction ts arbitrary: s)
  case (Cons t ts)
  let ?s = "probe_peer ext t n h s"
  have e: "path_state (sess ?s h) = path_state (sess s h)"
    using probe_peer_path [OF refl, where s = s and h = h and ext = ext and now = t and n = n] Cons.prems
    by (auto simp: direct_path_dead_def)
  have "policy_for ?s = policy_for s" by (rule touches_frame(1) [OF probe_peer_touches [OF refl refl]])
  then show ?case using Cons.IH [of ?s] Cons.prems e path_stateD(4,5) [OF e] by simp
qed simp

text \<open>
  A TCP connection alone puts a session under the automatic policy on the direct
  TCP path, without any PONG. As long as none arrives, no number of probes, at
  whatever times, leaves that path again, whether the connection still works or
  not: the time limit of a direct path only counts from a PONG.
\<close>
theorem tcp_path_without_pong_kept:
  assumes "policy_for s (se_id (sess s h)) = PathPolicy.Auto" and "se_last_pong_ms (sess s h) = 0"
    and "se_current_path (sess s h) = RelayUdp" and "se_tcp_conn (sess s h) = None"
    and "s' = fold (\<lambda>now. probe_peer ext now n h) ts (attach_peer_tcp ext n h c s)"
  shows "se_current_path (sess s' h) = DirectTcp \<and> se_tcp_conn (sess s' h) = Some c"
proof -
  let ?a = "attach_peer_tcp ext n h c s"
  have a: "se_current_path (sess ?a h) = DirectTcp" "se_tcp_conn (sess ?a h) = Some c"
    "se_last_pong_ms (sess ?a h) = 0"
    using assms(1-4) by (simp_all add: attach_peer_tcp_def Let_def)
  then show ?thesis
    using path_stateD [OF probes_path_state, of ?a h ext n ts] assms(5) by simp
qed

lemma quiet_log [touch]:
  assumes "touches P h s t" and "\<And>m. P (Log m)"
  shows "touches P h s (throttled_diag now h x t)" and "touches P h s (note_drop_detached now h q r t)"
    and "touches P h s (note_policy_drop now h r t)"
  using assms unfolding note_policy_drop_def throttled_diag_def note_drop_detached_def Let_def
  by (auto intro!: touch)

lemma pinned_tcp_closed_probe:
  assumes pol: "policy_for s (se_id (sess s h)) = PathPolicy.DirectTcp" and c: "se_tcp_conn (sess s h) = Some c"
    and cl: "conn_is_closed s c"
  shows "touches (\<lambda>e. egress e = None) h s (probe_peer ext now n h s)"
proof -
  let ?P = "\<lambda>e. egress e = None"
  obtain ping s1 where 1: "seal_for ext h FRAME_PING (i64_to_le now) s = (ping, s1)" by force
  have t1: "touches ?P h s s1"
    using seal_for_touches [OF touches_refl, of ?P h s ext FRAME_PING "i64_to_le now"] 1 by simp
  have e1: "path_state (sess s1 h) = path_state (sess s h)"
    using path_state_seal [of ext h FRAME_PING "i64_to_le now" s h] 1 by simp
  define s2 where "s2 = route_sealed now h ping s1"
  have e2: "path_state (sess s2 h) = path_state (sess s h)" unfolding s2_def using e1 by simp
  have t2: "touches ?P h s s2"
  proof (cases "en_stopping s1")
    case True
    then show ?thesis unfolding s2_def route_sealed_def using t1 by simp
  next
    case False
    have "s2 = note_policy_drop now h DirectTcpNoConn s1"
      using False pol c cl path_stateD [OF e1] touches_frame(1,9) [OF t1]
      unfolding s2_def route_sealed_def route_path_def route_direct_tcp_def Let_def
      by (simp add: conn_is_closed_def)
    then show ?thesis using t1 by (auto intro: touch)
  qed
  have p2: "policy_for s2 (se_id (sess s2 h)) = PathPolicy.DirectTcp"
    using touches_frame(1) [OF t2] pol path_stateD(5) [OF e2] by simp
  have w: "\<not> want_udp s2 PathPolicy.DirectTcp (sess s2 h)" if "True"
    by (simp add: want_udp_def)
  have k: "touches ?P h s (try_direct_tcp_probe now h eps s2)" for eps
    using t2 path_stateD(3) [OF e2] c
    unfolding try_direct_tcp_probe_def by (auto intro: touch split: option.split)
  show ?thesis
    unfolding probe_peer_def Let_def 1 prod.case s2_def [symmetric] p2
    using t2 k by (simp add: w)
qed

text \<open>
  A peer pinned to direct TCP whose connection has closed is never dialled again:
  as the slot of the closed connection is not emptied, no probe, however many and
  whenever, sends or dials anything for it.
\<close>
theorem pinned_tcp_closed_never_redialled:
  assumes "policy_for s (se_id (sess s h)) = PathPolicy.DirectTcp" and "se_tcp_conn (sess s h) = Some c"
    and "conn_is_closed s c"
  shows "\<exists>es. en_out (fold (\<lambda>now. probe_peer ext now n h) ts s) = en_out s @ es
            \<and> (\<forall>e\<in>set es. egress e = None)"
proof -
  have "touches (\<lambda>e. egress e = None) h s (fold (\<lambda>now. probe_peer ext now n h) ts s)"
    using assms
  proof (induction ts arbitrary: s)
    case (Cons t ts)
    note tt = pinned_tcp_closed_probe [OF Cons.prems, of ext t n]
    let ?s = "probe_peer ext t n h s"
    have "path_state (sess ?s h) = path_state (sess s h)"
      using probe_peer_path [OF refl, where s = s and h = h and ext = ext and now = t and n = n] Cons.prems
      by simp
    from path_stateD [OF this] have "touches (\<lambda>e. egress e = None) h ?s (fold (\<lambda>now. probe_peer ext now n h) ts ?s)"
      using Cons.IH [of ?s] Cons.prems touches_frame(1,9) [OF tt] by (simp add: conn_is_closed_def)
    then show ?case using touches_trans [OF tt] by simp
  qed (simp add: touches_refl)
  then show ?thesis unfolding touches_def by force
qed

section \<open>The policy is never violated\<close>

abbreviation packet_dst :: "bytes \<Rightarrow> u32" where
  "packet_dst pkt \<equiv> ipv4_of_octets (unat (pkt ! 16)) (unat (pkt ! 17)) (unat (pkt ! 18)) (unat (pkt ! 19))"

lemma touches_out: "touches P h s t \<Longrightarrow> \<exists>es. en_out t = en_out s @ es \<and> (\<forall>e\<in>set es. P e)"
  unfolding touches_def by force

text \<open>
  C20 (safety). Whatever a node sends to a peer of its own accord (a flow message, a packet of
  the TUN device, a probe with its pings and dials) leaves only on paths that the
  policy in force for this peer permits; in particular a pin never leaks traffic to
  another path, and a frame queued for the TCP relay falls back to the UDP relay only
  under the automatic policy.
\<close>
theorem pin_respected:
  assumes "tget (en_peers s) (n, d) = Some h" and "se_id (sess s h) = d"
    and "s' = send_flow_payload ext now n d m s \<or> s' = probe_peer ext now n h s
       \<or> s' = tun_packet ext now pkt s \<and> peer_by_ip s (packet_dst pkt) = Some (n, h)"
  shows "\<exists>es. en_out s' = en_out s @ es \<and> (\<forall>e\<in>set es. within (policy_for s d) e)"
  using assms(3)
proof (elim disjE conjE)
  assume "s' = send_flow_payload ext now n d m s"
  then show ?thesis using touches_out [OF send_flow_touches [OF assms(1) refl refl]] assms(2) by (fastforce simp: allowed_def)
next
  assume "s' = probe_peer ext now n h s"
  then show ?thesis using touches_out [OF probe_peer_touches [OF refl refl]] assms(2) by (fastforce simp: allowed_def)
next
  assume "s' = tun_packet ext now pkt s" "peer_by_ip s (packet_dst pkt) = Some (n, h)"
  then show ?thesis using touches_out [OF tun_packet_touches [OF _ refl refl]] assms(2) by (fastforce simp: allowed_def)
qed

section \<open>Received frames\<close>

lemma first_open_total:
  "\<exists>r t. first_open adec cs p s = Some (r, t)"
proof (induction cs arbitrary: s)
  case (Cons c cs)
  obtain n h where c: "c = (n, h)" by (cases c)
  obtain r c' where o: "try_open adec (se_codec (sess s h)) p = Some (r, c')"
    by (cases "try_open adec (se_codec (sess s h)) p") (auto simp: try_open_eq split: option.splits prod.splits)
  show ?case using Cons.IH by (cases r) (auto simp: c o split: prod.splits)
qed simp

lemma upd_sess_same: "f (sess s h) = sess s h \<Longrightarrow> upd_sess h f s = s"
  by (simp add: upd_sess_def)

text \<open>
  C27 (error). Frame processing never panics, and a packet that no session of its claimed
  sender can authenticate leaves the whole engine as it was: no counter, window, path,
  connection slot or log entry changes and nothing is sent.
\<close>
theorem unauthentic_frame_no_trace:
  "\<exists>t. handle_frame ext now arrival p s = Some t
     \<and> ((\<forall>(n, h)\<in>set (candidates s (pkt_sender p)). opened (ex_adec ext) (pc_keys (se_codec (sess s h))) p = None)
        \<longrightarrow> t = s)"
proof -
  have fo: "first_open (ex_adec ext) cs p s = Some (None, s)"
    if "\<forall>(n, h)\<in>set cs. opened (ex_adec ext) (pc_keys (se_codec (sess s h))) p = None" for cs
    using that
  proof (induction cs)
    case (Cons c cs)
    then show ?case by (cases c) (simp add: try_open_eq upd_sess_same)
  qed simp
  obtain r t where 1: "first_open (ex_adec ext) (candidates s (pkt_sender p)) p s = Some (r, t)"
    using first_open_total by blast
  then have "handle_frame ext now arrival p s = Some
      (if \<not> is_frame p \<or> candidates s (pkt_sender p) = [] then s
       else case r of None \<Rightarrow> t
         | Some (n, h, ft, m) \<Rightarrow> handle_opened ext now arrival (length p) n h ft m t)"
    by (auto simp: handle_frame_def try_parse_eq Let_def split: option.split)
  then show ?thesis using 1 fo [of "candidates s (pkt_sender p)"] by auto
qed

section \<open>Instances\<close>

definition demo_ext :: Ext where
  "demo_ext = \<lparr>ex_aenc = toy_enc, ex_adec = toy_dec, ex_hexenc = (\<lambda>_. []), ex_hexdec = (\<lambda>_. None),
               ex_dh = (\<lambda>a b. [1]), ex_hkdf = (\<lambda>_ _ _ n. replicate n 0)\<rparr>"

definition demo_peer :: PeerSession where
  "demo_peer = peer_session_new 9 [1] ''b'' 0x0A000002 [] toy_keys toy_boot"

definition demo_engine :: "PathPolicy \<Rightarrow> PeerSession \<Rightarrow> Engine" where
  "demo_engine pol p = (engine_new 5 [] [] Proxy [] 24933)
     \<lparr>en_path_policy := pol, en_peers := [(([1], 9), 0)], en_sessions := (\<lambda>_. p), en_next_session := 1,
      en_networks := [([1], \<lparr>nc_name = ''n'', nc_cidr = None, nc_self_ip = None, nc_ip_map = [(0x0A000002, 9)]\<rparr>)],
      en_conn_closed := (\<lambda>c. c = 4)\<rparr>"

lemmas demo_defs = demo_engine_def demo_peer_def engine_new_def peer_session_new_def policy_for_def

theorem dead_path_abandoned_witness:
  "let s = demo_engine PathPolicy.Auto
             (demo_peer\<lparr>se_current_path := DirectUdp, se_last_pong_ms := 1000, se_direct_endpoint := Some (SocketAddrV4 1 2, SocketAddrV4 3 4)\<rparr>);
       s' = probe_peer demo_ext 40000 [1] 0 s
   in se_current_path (sess s' 0) = RelayUdp \<and> se_direct_endpoint (sess s' 0) = None
      \<and> en_out (route_sealed 40001 0 [7] s') = en_out s' @ [SendRelay 5 9 [7]]"
proof -
  let ?s = "demo_engine PathPolicy.Auto
     (demo_peer\<lparr>se_current_path := DirectUdp, se_last_pong_ms := 1000, se_direct_endpoint := Some (SocketAddrV4 1 2, SocketAddrV4 3 4)\<rparr>)"
  show ?thesis
    using dead_path_abandoned [of ?s 0 DirectUdp 40000 "probe_peer demo_ext 40000 [1] 0 ?s" demo_ext "[1]" 40001 "[7]"]
    by (simp add: Let_def demo_defs)
qed

theorem tcp_path_without_pong_kept_witness:
  "let s' = fold (\<lambda>now. probe_peer demo_ext now [1] 0) [1000, 100000, 10000000]
              (attach_peer_tcp demo_ext [1] 0 4 (demo_engine PathPolicy.Auto demo_peer))
   in se_current_path (sess s' 0) = DirectTcp \<and> se_tcp_conn (sess s' 0) = Some 4"
  unfolding Let_def by (rule tcp_path_without_pong_kept [OF _ _ _ _ refl]) (simp_all add: demo_defs)

theorem pinned_tcp_closed_never_redialled_witness:
  "\<exists>es. en_out (fold (\<lambda>now. probe_peer demo_ext now [1] 0) [1000, 100000, 10000000]
          (demo_engine PathPolicy.DirectTcp (demo_peer\<lparr>se_tcp_conn := Some 4, se_tcp_listen_port := Some 5\<rparr>))) = es
     \<and> (\<forall>e\<in>set es. egress e = None)"
  using pinned_tcp_closed_never_redialled
    [of "demo_engine PathPolicy.DirectTcp (demo_peer\<lparr>se_tcp_conn := Some 4, se_tcp_listen_port := Some 5\<rparr>)" 0 4
        demo_ext "[1]" "[1000, 100000, 10000000]"]
  by (simp add: demo_defs conn_is_closed_def)

theorem pin_respected_witness:
  "\<exists>es. en_out (send_flow_payload demo_ext 1 [1] 9 [7] (demo_engine PathPolicy.DirectAny demo_peer)) = es
     \<and> (\<forall>e\<in>set es. within PathPolicy.DirectAny e)"
  using pin_respected [of "demo_engine PathPolicy.DirectAny demo_peer" "[1]" 9 0
      "send_flow_payload demo_ext 1 [1] 9 [7] (demo_engine PathPolicy.DirectAny demo_peer)" demo_ext 1 "[7]" "[]"]
  by (simp add: demo_defs)

theorem unauthentic_frame_no_trace_witness:
  "handle_frame demo_ext 1 ArrRelayUdp [1, 2, 3] (demo_engine PathPolicy.Auto demo_peer)
     = Some (demo_engine PathPolicy.Auto demo_peer)"
  using unauthentic_frame_no_trace [of demo_ext 1 ArrRelayUdp "[1, 2, 3]" "demo_engine PathPolicy.Auto demo_peer"]
  by (auto simp: opened_def is_frame_def)

end
