(* ===== verification/EngineControl.thy ===== *)
theory EngineControl
  imports EngineRoute Supervisor
begin

text \<open>
  crates/skiff-node/src/engine.rs: what the control plane drives. Server-managed
  settings and the restart they may need, the peers and networks of the node, the
  roster, stopping, and the heartbeat. The answers of the control plane are
  arguments; each handler is one step up to its next request.
\<close>

section \<open>Stopping\<close>

definition request_stop :: "StopReason \<Rightarrow> Engine \<Rightarrow> Engine" where
  "request_stop reason s =
     (if en_stopping s then s
      else emit BroadcastStopped (emit RemoveStatusFile (emit (Log EngineStopping)
             (s\<lparr>en_stopping := True,
                en_stop_reason := (case en_stop_reason s of None \<Rightarrow> Some reason | r \<Rightarrow> r)\<rparr>))))"

definition exit_code :: "Engine \<Rightarrow> int" where
  "exit_code s = (case en_stop_reason s of Some StopReason.Restart \<Rightarrow> EXIT_RESTART | _ \<Rightarrow> EXIT_OK)"

section \<open>Settings\<close>

definition effective_listen_raw :: "DeviceSettings \<Rightarrow> string list" where
  "effective_listen_raw settings =
     (case ds_listen settings of
        Some l \<Rightarrow> if l \<noteq> [] then l else default_listen
      | None \<Rightarrow> default_listen)"

datatype ListenFailure = BadListen ListenError | NoUdpListen

record EffectiveListen =
  el_udp :: "SocketAddr list"
  el_tcp :: "SocketAddr list"
  el_raw :: "string list"

fun group_listen ::
  "string list \<Rightarrow> SocketAddr list \<Rightarrow> SocketAddr list \<Rightarrow> ListenFailure + SocketAddr list \<times> SocketAddr list" where
  "group_listen [] udp tcp = Inr (udp, tcp)"
| "group_listen (item # rest) udp tcp =
     (case parse_listen_url item of
        Inl e \<Rightarrow> Inl (BadListen e)
      | Inr (ListenUdp, addr) \<Rightarrow> group_listen rest (udp @ [addr]) tcp
      | Inr (ListenTcp, addr) \<Rightarrow> group_listen rest udp (tcp @ [addr]))"

definition effective_listen_addrs :: "DeviceSettings \<Rightarrow> ListenFailure + EffectiveListen" where
  "effective_listen_addrs settings =
     (let raw = effective_listen_raw settings in
      case group_listen raw [] [] of
        Inl e \<Rightarrow> Inl e
      | Inr (udp, tcp) \<Rightarrow>
          if udp = [] then Inl NoUdpListen else Inr \<lparr>el_udp = udp, el_tcp = tcp, el_raw = raw\<rparr>)"

definition effective_mode_of :: "DeviceSettings \<Rightarrow> ClientMode" where
  "effective_mode_of settings = (case ds_mode settings of Some m \<Rightarrow> m | None \<Rightarrow> Proxy)"

definition add_peer_policy :: "PeerPolicy \<Rightarrow> Engine \<Rightarrow> Engine" where
  "add_peer_policy pp s =
     (case parse_u64 (pp_device_id pp) of
        Some i \<Rightarrow> s\<lparr>en_peer_policies := tput i (pp_policy pp) (en_peer_policies s)\<rparr>
      | None \<Rightarrow> emit (Log (BadPeerPolicy (pp_device_id pp))) s)"

text \<open>The current path that a policy in force imposes on a session.\<close>

definition pin_path :: "PathPolicy \<Rightarrow> PathKind \<Rightarrow> PathKind" where
  "pin_path eff path =
     (case eff of
        PathPolicy.Auto \<Rightarrow> if path = RelayTcp then RelayUdp else path
      | PathPolicy.RelayUdp \<Rightarrow> RelayUdp
      | PathPolicy.RelayTcp \<Rightarrow> RelayTcp
      | PathPolicy.DirectAny \<Rightarrow> path
      | PathPolicy.DirectUdp \<Rightarrow> DirectUdp
      | PathPolicy.DirectTcp \<Rightarrow> DirectTcp)"

definition pin_session :: "nat \<Rightarrow> bool \<times> Engine \<Rightarrow> bool \<times> Engine" where
  "pin_session h acc =
     (let (any_relay_tcp, s) = acc;
          eff = policy_for s (se_id (sess s h))
      in (any_relay_tcp \<or> eff = PathPolicy.RelayTcp,
          upd_sess h (se_current_path_update (pin_path eff)) s))"

definition apply_policies :: "DeviceSettings \<Rightarrow> Engine \<Rightarrow> Engine" where
  "apply_policies settings s =
     (let global = (case ds_path_policy settings of Some p \<Rightarrow> p | None \<Rightarrow> PathPolicy.Auto);
          s1 = fold add_peer_policy (case ds_peer_policies settings of Some l \<Rightarrow> l | None \<Rightarrow> [])
                 (s\<lparr>en_path_policy := global, en_peer_policies := []\<rparr>);
          (any_relay_tcp, s2) = fold pin_session (map snd (en_peers s1)) (global = PathPolicy.RelayTcp, s1)
      in if any_relay_tcp then emit EnsureRelayTcp s2 else s2)"

definition apply_exposes :: "NetworkExposes list option \<Rightarrow> Engine \<Rightarrow> Engine" where
  "apply_exposes exposes s =
     (case exposes of
        Some l \<Rightarrow> fold (\<lambda>ne s. if thas (en_networks s) (ne_network_id ne)
                               then emit (FlowSetExposes (ne_network_id ne) (ne_rules ne)) s else s) l s
      | None \<Rightarrow> s)"

text \<open>Whether a managed field differs from what the engine runs with.\<close>

definition restart_class_change :: "DeviceSettings \<Rightarrow> Engine \<Rightarrow> bool" where
  "restart_class_change settings s =
     ((case ds_mtu settings of Some v \<Rightarrow> v \<noteq> en_runtime_mtu s | None \<Rightarrow> False)
      \<or> (case ds_socks_listen settings of
           Some v \<Rightarrow> en_runtime_socks s \<noteq> (if v = [] then None else Some v) | None \<Rightarrow> False)
      \<or> (case ds_forwards settings of Some v \<Rightarrow> en_runtime_forwards s \<noteq> v | None \<Rightarrow> False)
      \<or> (case ds_mode settings of Some v \<Rightarrow> en_runtime_mode s \<noteq> v | None \<Rightarrow> False)
      \<or> (case ds_listen settings of Some v \<Rightarrow> en_runtime_listen s \<noteq> v | None \<Rightarrow> False))"

definition apply_runtime_settings :: "DeviceSettings \<Rightarrow> bool \<Rightarrow> Engine \<Rightarrow> bool \<times> Engine" where
  "apply_runtime_settings settings startup s =
     (let s1 = apply_exposes (ds_exposes settings) (apply_policies settings s);
          s2 = (if startup then s1\<lparr>en_runtime_listen := effective_listen_raw settings\<rparr> else s1)
      in if startup then (False, s2)
         else
           (let restart_needed = restart_class_change settings s2
            in (restart_needed, s2\<lparr>en_restart_pending := en_restart_pending s2 \<or> restart_needed\<rparr>)))"

text \<open>
  apply\_settings on the fetched settings; the flag of the result says that it ends
  with a heartbeat.
\<close>

definition apply_settings :: "DeviceSettings option \<Rightarrow> Engine \<Rightarrow> bool \<times> Engine" where
  "apply_settings fetched s =
     (case fetched of
        None \<Rightarrow> (False, s)
      | Some settings \<Rightarrow>
          (let r = (of_int (ds_revision settings) :: u64) in
           if r \<le> en_applied_settings_revision s then (False, s)
           else
             (let (restart_needed, s1) = apply_runtime_settings settings False s in
              if restart_needed then (False, request_stop StopReason.Restart (emit (Log SettingsNeedRestart) s1))
              else (True, s1\<lparr>en_applied_settings_revision := r\<rparr>))))"

text \<open>The settings at the start, fetched before the engine was built.\<close>

definition start_settings :: "DeviceSettings \<Rightarrow> Engine \<Rightarrow> Engine" where
  "start_settings settings s =
     (let s1 = snd (apply_runtime_settings settings True s)
      in s1\<lparr>en_applied_settings_revision := of_int (max (ds_revision settings) 0),
            en_runtime_socks := (case ds_socks_listen settings of
                                   Some a \<Rightarrow> if a = [] then None else Some a
                                 | None \<Rightarrow> Some ''127.0.0.1:1080''),
            en_runtime_forwards := (case ds_forwards settings of Some f \<Rightarrow> f | None \<Rightarrow> []),
            en_runtime_mtu := (case ds_mtu settings of Some m \<Rightarrow> m | None \<Rightarrow> DEFAULT_MTU)\<rparr>)"

section \<open>Networks and peers\<close>

definition empty_ctx :: "string \<Rightarrow> NetworkCtx" where
  "empty_ctx name = \<lparr>nc_name = name, nc_cidr = None, nc_self_ip = None, nc_ip_map = []\<rparr>"

definition set_ctx :: "ConfigResponse \<Rightarrow> NetworkCtx \<Rightarrow> NetworkCtx" where
  "set_ctx c ctx = ctx\<lparr>nc_cidr := (case cidr_parse (cr_cidr c) of Inr d \<Rightarrow> Some d | Inl _ \<Rightarrow> None),
                       nc_self_ip := parse_ipv4 (cr_ip c)\<rparr>"

definition register_config :: "ConfigResponse \<Rightarrow> Engine \<Rightarrow> Engine" where
  "register_config c s =
     (let ctx = (case tget (en_networks s) (cr_network_id c) of
                   Some x \<Rightarrow> x | None \<Rightarrow> empty_ctx (cr_network_name c))
      in s\<lparr>en_networks := tput (cr_network_id c) (set_ctx c ctx) (en_networks s),
           en_name_to_id := tput (cr_network_name c) (cr_network_id c) (en_name_to_id s)\<rparr>)"

text \<open>One attempt over the roster: the configurations, or None when one cannot be fetched.\<close>

fun fetch_round ::
  "(string \<Rightarrow> ConfigResponse option) \<Rightarrow> MembershipInfo list \<Rightarrow> Engine \<Rightarrow> ConfigResponse list option \<times> Engine" where
  "fetch_round get_config [] s = (Some [], s)"
| "fetch_round get_config (m # ms) s =
     (case get_config (mi_network_name m) of
        None \<Rightarrow> (None, s)
      | Some c \<Rightarrow> (let (r, s1) = fetch_round get_config ms (register_config c s)
                  in (map_option ((#) c) r, s1)))"

text \<open>
  The retries: attempt k of the control plane answers with \<open>answers ! k\<close>; None says
  that the given attempts were not enough.
\<close>

fun fetch_configs_for_roster ::
  "MembershipInfo list \<Rightarrow> (string \<Rightarrow> ConfigResponse option) list \<Rightarrow> u32 \<Rightarrow> Engine
   \<Rightarrow> ConfigResponse list option \<times> Engine" where
  "fetch_configs_for_roster roster [] attempt s = (None, s)"
| "fetch_configs_for_roster roster (get_config # later) attempt s =
     (case fetch_round get_config roster s of
        (Some out, s1) \<Rightarrow> (Some out, s1\<lparr>en_roster := set (map mi_network_id roster)\<rparr>)
      | (None, s1) \<Rightarrow>
          fetch_configs_for_roster roster later (attempt + 1)
            (emit (Log (ControlUnreachable (attempt + 1))) s1))"

fun fetch_memberships_or_fail ::
  "MembershipInfo list option list \<Rightarrow> u32 \<Rightarrow> Engine \<Rightarrow> MembershipInfo list option \<times> Engine" where
  "fetch_memberships_or_fail [] attempt s = (None, s)"
| "fetch_memberships_or_fail (answer # later) attempt s =
     (case answer of
        Some l \<Rightarrow> if l \<noteq> [] then (Some l, s)
                  else fetch_memberships_or_fail later attempt (emit (Log EmptyRoster) s)
      | None \<Rightarrow> fetch_memberships_or_fail later (attempt + 1)
                  (emit (Log (ControlUnreachable (attempt + 1))) s))"

definition warn_overlapping_cidrs :: "Engine \<Rightarrow> Engine" where
  "warn_overlapping_cidrs s =
     (let cidrs = List.map_filter (\<lambda>(_, c). map_option (Pair (nc_name c)) (nc_cidr c)) (en_networks s);
          pairs = [(cidrs ! i, cidrs ! j). i \<leftarrow> [0..<length cidrs], j \<leftarrow> [Suc i..<length cidrs]]
      in fold (\<lambda>(a, b). if cidr_contains (snd a) (ci_network (snd b)) \<or> cidr_contains (snd b) (ci_network (snd a))
                        then emit (Log (OverlappingCidrs a b)) else (\<lambda>s. s)) pairs s)"

definition apply_config_change ::
  "(NetId \<Rightarrow> string) \<Rightarrow> (string \<Rightarrow> ConfigResponse option) \<Rightarrow> NetId option \<Rightarrow> Engine \<Rightarrow> Engine" where
  "apply_config_change hexenc get_config net s =
     (let names = (case net of Some i \<Rightarrow> [network_name hexenc s i]
                   | None \<Rightarrow> map (nc_name \<circ> snd) (en_networks s))
      in fold (\<lambda>name s. case get_config name of
                 None \<Rightarrow> s
               | Some c \<Rightarrow>
                   emit (Log (ConfigChanged (cr_network_name c)))
                     (case tget (en_networks s) (cr_network_id c) of
                        Some ctx \<Rightarrow> s\<lparr>en_networks := tput (cr_network_id c) (set_ctx c ctx) (en_networks s)\<rparr>
                      | None \<Rightarrow> s)) names s)"

text \<open>The usable endpoints of a peer.\<close>

definition peer_endpoints :: "string list \<Rightarrow> SocketAddr list" where
  "peer_endpoints eps =
     filter (\<lambda>a. case a of SocketAddrV4 ip _ \<Rightarrow> ip \<noteq> 0 \<and> ip \<noteq> - 1 | SocketAddrV6 _ _ _ \<Rightarrow> True)
       (List.map_filter parse_socket_addr eps)"

definition refresh_session :: "PeerInfo \<Rightarrow> u32 \<Rightarrow> PeerSession \<Rightarrow> PeerSession" where
  "refresh_session info vip p =
     p\<lparr>se_name := pi_name info, se_virtual_ip := vip, se_online := pi_online info,
       se_tcp_listen_port := pi_tcp_listen_port info, se_endpoints := peer_endpoints (pi_udp_endpoints info)\<rparr>"

text \<open>
  A new session of a peer; None is the panic when its keys cannot be derived. The boot
  nonce of its codec is drawn at random: the parameter boot.
\<close>

definition join_peer ::
  "Ext \<Rightarrow> (nat \<Rightarrow> bytes) \<Rightarrow> NetId \<Rightarrow> string \<Rightarrow> PeerInfo \<Rightarrow> u32 \<Rightarrow> bytes \<Rightarrow> Engine \<Rightarrow> Engine option" where
  "join_peer ext boot net_id name info vip dh_pub s =
     (case derive (ex_dh ext) (ex_hkdf ext) (en_dh_priv s) (en_dh_pub s) dh_pub net_id of
        Inl _ \<Rightarrow> None
      | Inr keys \<Rightarrow>
          (let h = en_next_session s;
               p = (peer_session_new (pi_device_id info) net_id (pi_name info) vip dh_pub keys (boot h))
                     \<lparr>se_online := pi_online info, se_tcp_listen_port := pi_tcp_listen_port info,
                      se_endpoints := peer_endpoints (pi_udp_endpoints info)\<rparr>
           in Some (emit (Log (PeerJoined (pi_name info) name vip))
                (s\<lparr>en_sessions := (en_sessions s)(h := p), en_next_session := h + 1,
                   en_peers := tput (net_id, pi_device_id info) h (en_peers s)\<rparr>))))"

fun refresh_infos ::
  "Ext \<Rightarrow> (nat \<Rightarrow> bytes) \<Rightarrow> NetId \<Rightarrow> string \<Rightarrow> PeerInfo list
   \<Rightarrow> (u32, u64) table \<times> u64 set \<times> Engine \<Rightarrow> ((u32, u64) table \<times> u64 set \<times> Engine) option" where
  "refresh_infos ext boot net_id name [] acc = Some acc"
| "refresh_infos ext boot net_id name (info # rest) (ip_map, seen, s) =
     (case (parse_ipv4 (pi_ip info), ex_hexdec ext (pi_dh_pubkey info)) of
        (Some vip, Some dh_pub) \<Rightarrow>
          if length dh_pub \<noteq> 32 then refresh_infos ext boot net_id name rest (ip_map, seen, s)
          else do {
            s1 \<leftarrow> (case tget (en_peers s) (net_id, pi_device_id info) of
                     Some h \<Rightarrow> Some (upd_sess h (refresh_session info vip) s)
                   | None \<Rightarrow> join_peer ext boot net_id name info vip dh_pub s);
            refresh_infos ext boot net_id name rest
              (tput vip (pi_device_id info) ip_map, insert (pi_device_id info) seen, s1) }
      | _ \<Rightarrow> refresh_infos ext boot net_id name rest (ip_map, seen, s))"

text \<open>A peer that is gone: out of the table, its flows closed, its connection dropped.\<close>

definition drop_peer :: "NetId \<Rightarrow> u64 \<Rightarrow> Engine \<Rightarrow> Engine" where
  "drop_peer net_id dev s =
     (case tget (en_peers s) (net_id, dev) of
        None \<Rightarrow> s
      | Some h \<Rightarrow> upd_sess h (se_tcp_conn_update (\<lambda>_. None))
                    (emit (FlowClosePeer net_id dev) (s\<lparr>en_peers := tdel (net_id, dev) (en_peers s)\<rparr>)))"

definition peer_left :: "NetId \<Rightarrow> string \<Rightarrow> u64 \<Rightarrow> Engine \<Rightarrow> Engine" where
  "peer_left net_id name dev s =
     (case tget (en_peers s) (net_id, dev) of
        None \<Rightarrow> s
      | Some h \<Rightarrow> emit (Log (PeerLeft (se_name (sess s h)) name)) (drop_peer net_id dev s))"

definition refresh_one_network ::
  "Ext \<Rightarrow> (nat \<Rightarrow> bytes) \<Rightarrow> NetId \<Rightarrow> string \<Rightarrow> PeerInfo list option \<Rightarrow> Engine \<Rightarrow> Engine option" where
  "refresh_one_network ext boot net_id name answer s =
     (case answer of
        None \<Rightarrow> Some s
      | Some infos \<Rightarrow> do {
          (next_ip_map, seen, s1) \<leftarrow> refresh_infos ext boot net_id name infos ([], {}, s);
          let gone = [d. ((n, d), _) \<leftarrow> en_peers s1, n = net_id \<and> d \<notin> seen];
          let s2 = fold (peer_left net_id name) gone s1;
          Some (case tget (en_networks s2) net_id of
                  Some ctx \<Rightarrow> s2\<lparr>en_networks := tput net_id (ctx\<lparr>nc_ip_map := next_ip_map\<rparr>) (en_networks s2)\<rparr>
                | None \<Rightarrow> s2) })"

definition leave_stale :: "(NetId \<Rightarrow> string) \<Rightarrow> NetId \<Rightarrow> Engine \<Rightarrow> Engine" where
  "leave_stale hexenc i s =
     (let name = network_name hexenc s i;
          s1 = s\<lparr>en_networks := tdel i (en_networks s)\<rparr>;
          victims = [d. ((n, d), _) \<leftarrow> en_peers s1, n = i]
      in emit (Log (NetworkLeft name)) (fold (drop_peer i) victims s1))"

fun refresh_networks ::
  "Ext \<Rightarrow> (nat \<Rightarrow> bytes) \<Rightarrow> (string \<Rightarrow> PeerInfo list option) \<Rightarrow> (NetId \<times> string) list \<Rightarrow> Engine \<Rightarrow> Engine option" where
  "refresh_networks ext boot get_peers [] s = Some s"
| "refresh_networks ext boot get_peers ((i, name) # rest) s = do {
     s1 \<leftarrow> refresh_one_network ext boot i name (get_peers name) s;
     refresh_networks ext boot get_peers rest s1 }"

definition refresh_peers_for ::
  "Ext \<Rightarrow> (nat \<Rightarrow> bytes) \<Rightarrow> (string \<Rightarrow> PeerInfo list option) \<Rightarrow> NetId option \<Rightarrow> Engine \<Rightarrow> Engine option" where
  "refresh_peers_for ext boot get_peers net s = do {
     let names = [(i, nc_name c). (i, c) \<leftarrow> en_networks s, net = None \<or> net = Some i];
     s1 \<leftarrow> refresh_networks ext boot get_peers names s;
     Some (if net = None
           then fold (leave_stale (ex_hexenc ext))
                  [i. (i, _) \<leftarrow> en_networks s1, i \<notin> en_roster s1] s1
           else s1) }"

definition reconcile_roster :: "MembershipInfo list option \<Rightarrow> Engine \<Rightarrow> bool \<times> Engine" where
  "reconcile_roster answer s =
     (case answer of
        None \<Rightarrow> (False, s)
      | Some l \<Rightarrow>
          (let new_ids = set (map mi_network_id l) in
           (True,
            if en_roster s = new_ids then s
            else emit (Log RosterChanged) (s\<lparr>en_roster := new_ids, en_restart_pending := True\<rparr>))))"

section \<open>Heartbeat\<close>

definition clamp_secs :: "u32 \<Rightarrow> u32" where
  "clamp_secs v = (if v < HEARTBEAT_MIN_SECS then HEARTBEAT_MIN_SECS
                   else if HEARTBEAT_MAX_SECS < v then HEARTBEAT_MAX_SECS else v)"

definition rate_one :: "u64 \<Rightarrow> u64 \<Rightarrow> nat \<Rightarrow> u64 option" where
  "rate_one prev cur dt_ms =
     (if cur < prev then None else Some (of_nat (unat (cur - prev) * 1000 div dt_ms)))"

definition rate_bps :: "(u64 \<times> u64) option \<Rightarrow> u64 \<times> u64 \<Rightarrow> nat \<Rightarrow> u64 option \<times> u64 option" where
  "rate_bps prev cur dt_ms =
     (case prev of
        None \<Rightarrow> (None, None)
      | Some p \<Rightarrow>
          if dt_ms < 1000 then (None, None)
          else (rate_one (fst p) (fst cur) (max dt_ms 1), rate_one (snd p) (snd cur) (max dt_ms 1)))"

definition loss_permille :: "(u64 \<times> u64) option \<Rightarrow> u64 \<times> u64 \<Rightarrow> u16 option" where
  "loss_permille prev cur = do {
     (p_seen, p_lost) \<leftarrow> prev;
     let (c_seen, c_lost) = cur;
     if c_seen < p_seen \<or> c_lost < p_lost then None
     else
       (let d_seen = c_seen - p_seen; d_lost = c_lost - p_lost; total = d_seen + d_lost in
        if total = 0 then None
        else Some (of_nat (unat d_lost * 10000 div unat total))) }"

definition counters_of :: "PeerSession \<Rightarrow> HbCounters" where
  "counters_of p =
     (let (seen, lost) = codec_stats (se_codec p)
      in \<lparr>hc_tx_bytes = se_tx_bytes p, hc_rx_bytes = se_rx_bytes p, hc_rx_seen = seen, hc_rx_lost = lost\<rparr>)"

text \<open>The report of one peer against the previous sample.\<close>

definition path_report :: "nat option \<Rightarrow> HbCounters option \<Rightarrow> u64 \<Rightarrow> PeerSession \<Rightarrow> PeerPathReport" where
  "path_report dt prev dev p =
     (let cur = counters_of p;
          (tx_bps, rx_bps) =
            (case dt of
               Some dt \<Rightarrow> rate_bps (map_option (\<lambda>c. (hc_tx_bytes c, hc_rx_bytes c)) prev)
                            (hc_tx_bytes cur, hc_rx_bytes cur) dt
             | None \<Rightarrow> (None, None));
          rx_loss = loss_permille (map_option (\<lambda>c. (hc_rx_seen c, hc_rx_lost c)) prev)
                      (hc_rx_seen cur, hc_rx_lost cur)
      in \<lparr>pr_device_id = dec_of_nat (unat dev), pr_path = path_kind_str (se_current_path p),
          pr_rtt_ms = Some (se_rtt_ms p), pr_tx_bps = tx_bps, pr_rx_bps = rx_bps, pr_rx_loss = rx_loss\<rparr>)"

fun report_paths ::
  "nat option \<Rightarrow> (u64, HbCounters) table \<Rightarrow> (u64 \<times> PeerSession) list
   \<Rightarrow> PeerPathReport list \<times> (u64, HbCounters) table \<Rightarrow> PeerPathReport list \<times> (u64, HbCounters) table" where
  "report_paths dt prev_map [] acc = acc"
| "report_paths dt prev_map ((dev, p) # rest) (paths, next_map) =
     (if se_rtt_ms p < 0 then report_paths dt prev_map rest (paths, next_map)
      else report_paths dt prev_map rest
             (paths @ [path_report dt (tget prev_map dev) dev p], tput dev (counters_of p) next_map))"

definition heartbeat_request ::
  "millis \<Rightarrow> string list \<Rightarrow> string \<Rightarrow> Engine \<Rightarrow> HeartbeatRequest \<times> Engine" where
  "heartbeat_request now local_addrs node_version s =
     (let (dt, prev_map) = (case en_hb_rate_baseline s of
                              Some (at, m) \<Rightarrow> (Some (nat (now - at)), m) | None \<Rightarrow> (None, []));
          (paths, next_map) = report_paths dt prev_map (map (\<lambda>((_, dev), h). (dev, sess s h)) (en_peers s)) ([], [])
      in (\<lparr>hb_local_addrs = local_addrs, hb_listen_udp_port = Some (en_udp_local_port s),
           hb_listen_tcp_port = (if 0 < en_tcp_listen_port s then Some (en_tcp_listen_port s) else None),
           hb_paths = Some paths, hb_settings_revision = Some (sint (en_applied_settings_revision s)),
           hb_restart_pending = Some (en_restart_pending s), hb_mode = Some (en_runtime_mode s),
           hb_proto_version = Some PROTOCOL_VERSION, hb_node_version = Some node_version\<rparr>,
          s\<lparr>en_hb_rate_baseline := Some (now, next_map)\<rparr>))"

text \<open>The answer to the heartbeat; None is an error.\<close>

definition heartbeat_answer :: "millis \<Rightarrow> HeartbeatResponse option \<Rightarrow> Engine \<Rightarrow> Engine" where
  "heartbeat_answer now answer s =
     (case answer of
        Some resp \<Rightarrow>
          (let s1 = (case hr_observed_udp_endpoint resp of
                       Some ep \<Rightarrow> s\<lparr>en_observed_endpoint := Some ep\<rparr> | None \<Rightarrow> s);
               want = clamp_secs (hr_heartbeat_secs resp);
               was = en_heartbeat_secs s1;
               s2 = s1\<lparr>en_heartbeat_secs := want\<rparr>;
               s3 = (if was \<noteq> want then emit (Log (HeartbeatInterval was want)) s2 else s2);
               fails = en_hb_err_count s3;
               s4 = s3\<lparr>en_hb_err_count := 0\<rparr>
           in if 0 < fails then emit (Log (HeartbeatRecovered fails)) s4 else s4)
      | None \<Rightarrow>
          (let fails = en_hb_err_count s + 1;
               s1 = s\<lparr>en_hb_err_count := fails\<rparr>
           in if now - en_hb_err_last_log_ms s > 60000
              then emit (Log (HeartbeatErr fails)) (s1\<lparr>en_hb_err_last_log_ms := now\<rparr>) else s1))"

text \<open>The sleep before the next heartbeat.\<close>

definition heartbeat_sleep :: "Engine \<Rightarrow> u32" where
  "heartbeat_sleep s = clamp_secs (en_heartbeat_secs s)"

end
