(* ===== verification/EngineEvents.thy ===== *)
theory EngineEvents
  imports EngineRouteProps EngineControl
begin

text \<open>
  The engine as one machine: the events of its tasks (transports, TUN device, flow
  manager, probe and heartbeat timers, control plane), served one after the other, and
  the invariant of its state. A panic aborts the process: the run stays where it was.
\<close>

section \<open>Reactions to pushes of the server\<close>

text \<open>The tasks an event starts; the tasks of one inner list run in order, the lists concurrently.\<close>

datatype WsTask = SendRegister | RelayTcpKeepalive | RefreshPeers | ApplySettings
  | ReconcileRoster | StopForRestart | ApplyConfigChange "NetId option"

definition ws_reaction :: "string \<Rightarrow> WsEvent \<Rightarrow> Engine \<Rightarrow> WsTask list list" where
  "ws_reaction net_name evt s =
     (let target_net = (case ev_network_id evt of Some i \<Rightarrow> Some i | None \<Rightarrow> tget (en_name_to_id s) net_name);
          t = ev_type evt in
      if t = CONNECTED then [[SendRegister, RelayTcpKeepalive, RefreshPeers], [ApplySettings], [ReconcileRoster]]
      else if t = PEERS_CHANGED \<or> t = DEVICE_ONLINE \<or> t = DEVICE_OFFLINE then [[RefreshPeers]]
      else if t = SETTINGS_CHANGED then [[ApplySettings]]
      else if t = RECONNECT_REQUESTED then [[SendRegister, RelayTcpKeepalive, RefreshPeers]]
      else if t = NETWORKS_CHANGED then [[ReconcileRoster]]
      else if t = RESTART_REQUESTED then [[StopForRestart]]
      else if t = CONFIG_CHANGED then [[ApplyConfigChange target_net]]
      else [])"

section \<open>The machine\<close>

datatype EngineEvent =
    EvFrame Arrival bytes
  | EvObservedEndpoint string
  | EvTunPacket bytes
  | EvFlowOut NetId u64 bytes
  | EvRelayTcpSent RelayTcpOut bool
  | EvProbe
  | EvDialled nat nat
  | EvConnReaderEnds nat
  | EvConnWriterEnds nat
  | EvSettings "DeviceSettings option"
  | EvPeers NetId string "PeerInfo list option"
  | EvPrune
  | EvRoster "MembershipInfo list option"
  | EvConfig ConfigResponse "NetId option"
  | EvHeartbeatDue "string list" string
  | EvHeartbeatAnswer "HeartbeatResponse option"
  | EvStop StopReason

fun engine_event :: "Ext \<Rightarrow> (nat \<Rightarrow> bytes) \<Rightarrow> millis \<Rightarrow> EngineEvent \<Rightarrow> Engine \<Rightarrow> Engine option" where
  "engine_event ext boot now (EvFrame arrival packet) s = handle_frame ext now arrival packet s"
| "engine_event ext boot now (EvObservedEndpoint ep) s = Some (s\<lparr>en_observed_endpoint := Some ep\<rparr>)"
| "engine_event ext boot now (EvTunPacket pkt) s = Some (tun_packet ext now pkt s)"
| "engine_event ext boot now (EvFlowOut n d m) s = Some (send_flow_payload ext now n d m s)"
| "engine_event ext boot now (EvRelayTcpSent out ok) s = Some (relay_tcp_sent now out ok s)"
| "engine_event ext boot now EvProbe s = Some (probe_tick ext now s)"
| "engine_event ext boot now (EvDialled h c) s = Some (tcp_dialled ext now h c s)"
| "engine_event ext boot now (EvConnReaderEnds c) s = Some (s\<lparr>en_conn_closed := (en_conn_closed s)(c := True)\<rparr>)"
| "engine_event ext boot now (EvConnWriterEnds c) s =
     Some (s\<lparr>en_conn_writer_dead := (en_conn_writer_dead s)(c := True)\<rparr>)"
| "engine_event ext boot now (EvSettings fetched) s = Some (snd (apply_settings fetched s))"
| "engine_event ext boot now (EvPeers n name answer) s = refresh_one_network ext boot n name answer s"
| "engine_event ext boot now EvPrune s =
     Some (fold (leave_stale (ex_hexenc ext)) [i. (i, _) \<leftarrow> en_networks s, i \<notin> en_roster s] s)"
| "engine_event ext boot now (EvRoster answer) s = Some (snd (reconcile_roster answer s))"
| "engine_event ext boot now (EvConfig c net) s =
     Some (apply_config_change (ex_hexenc ext) (\<lambda>_. Some c) net s)"
| "engine_event ext boot now (EvHeartbeatDue addrs v) s = Some (snd (heartbeat_request now addrs v s))"
| "engine_event ext boot now (EvHeartbeatAnswer answer) s = Some (heartbeat_answer now answer s)"
| "engine_event ext boot now (EvStop r) s = Some (request_stop r s)"

definition engine_step :: "Ext \<Rightarrow> (nat \<Rightarrow> bytes) \<Rightarrow> Engine \<Rightarrow> millis \<times> EngineEvent \<Rightarrow> bool \<times> Engine" where
  "engine_step ext boot s e =
     (case engine_event ext boot (fst e) (snd e) s of Some t \<Rightarrow> (True, t) | None \<Rightarrow> (False, s))"

section \<open>The invariant\<close>

definition no_fallback :: "Effect \<Rightarrow> bool" where
  "no_fallback e = (\<forall>r. e = RelayTcpQueue r \<longrightarrow> \<not> ro_fallback r)"

definition relay_tcp_policy :: "PathPolicy \<Rightarrow> bool" where
  "relay_tcp_policy p = (p = PathPolicy.RelayTcp \<or> p = PathPolicy.DirectAny)"

text \<open>
  Every entry of the peers table has its own session, made for its device and network;
  a session is on the TCP relay only where a policy keeps it there; and nothing queued
  for the TCP relay may fall back.
\<close>

definition peer_ok :: "Engine \<Rightarrow> (NetId \<times> u64) \<times> nat \<Rightarrow> bool" where
  "peer_ok s e = (case e of ((n, d), h) \<Rightarrow>
     h < en_next_session s \<and> se_id (sess s h) = d \<and> se_network_id_hint (sess s h) = n
     \<and> (se_current_path (sess s h) = RelayTcp \<longrightarrow> relay_tcp_policy (policy_for s d)))"

definition engine_inv :: "Engine \<Rightarrow> bool" where
  "engine_inv s = (tinv (en_peers s) \<and> distinct (map snd (en_peers s)) \<and> tinv (en_networks s)
     \<and> (\<forall>e\<in>set (en_peers s). peer_ok s e) \<and> (\<forall>e\<in>set (en_out s). no_fallback e))"

lemma engine_invD:
  assumes "engine_inv s" and "tget (en_peers s) (n, d) = Some h"
  shows "h < en_next_session s" "se_id (sess s h) = d" "se_network_id_hint (sess s h) = n"
    "se_current_path (sess s h) = RelayTcp \<Longrightarrow> relay_tcp_policy (policy_for s d)"
  using assms map_of_SomeD [OF assms(2)] by (auto simp: engine_inv_def peer_ok_def)

lemma inv_touches:
  assumes "engine_inv s" and t: "touches no_fallback h s t"
  shows "engine_inv t"
proof -
  note f = touches_frame [OF t]
  have o: "\<forall>e\<in>set (en_out t). no_fallback e"
    using touches_out [OF t] assms(1) by (auto simp: engine_inv_def)
  have "peer_ok t e" if "peer_ok s e" for e
    using that f(8) [of "snd e"] f(1,10) by (auto simp: peer_ok_def keeps_def split: prod.splits)
  then show ?thesis using assms(1) o f by (simp add: engine_inv_def)
qed

lemma nf_simps [simp]: "no_fallback (Log m)" "no_fallback (SendRelay i j f)" "no_fallback (SendDirect a f)"
  "no_fallback (SendDirectFrom a b f)" "no_fallback (SendDirectAll a f)" "no_fallback (ConnSend c f)"
  "no_fallback (RelayTcpSend d f)" "no_fallback EnsureRelayTcp" "no_fallback (ToTun f)"
  "no_fallback (FlowEnqueue n d f)" "no_fallback (FlowClosePeer n d)" "no_fallback (FlowSetExposes n rs)"
  "no_fallback (DialTcp h ts)" "no_fallback RemoveStatusFile" "no_fallback BroadcastStopped"
  by (simp_all add: no_fallback_def)

lemma allowed_no_fallback:
  "allowed q pol e \<Longrightarrow> (q \<Longrightarrow> pol \<noteq> PathPolicy.Auto) \<Longrightarrow> no_fallback e"
  by (auto simp: allowed_def within_def no_fallback_def)

lemma peer_not_auto:
  assumes "engine_inv s" and "((n, d), h) \<in> set (en_peers s)" and "se_current_path (sess s h) = RelayTcp"
  shows "policy_for s (se_id (sess s h)) \<noteq> PathPolicy.Auto"
  using assms by (auto simp: engine_inv_def peer_ok_def relay_tcp_policy_def)

section \<open>Received frames\<close>

lemma conn_send_touches_any [touch]:
  "touches P h s t \<Longrightarrow> (\<And>c f. P (ConnSend c f)) \<Longrightarrow> touches P h s (snd (conn_send c f t))"
  unfolding conn_send_def by (auto intro!: touch)

lemma reply_touches [touch]:
  "touches no_fallback h s t \<Longrightarrow> touches no_fallback h s (reply_on_arrival h a f t)"
  unfolding reply_on_arrival_def by (auto intro!: touch split: Arrival.split)

lemma attach_touches [touch]:
  "touches P h s t \<Longrightarrow> (\<And>m. P (Log m)) \<Longrightarrow> touches P h s (attach_peer_tcp ext n h c t)"
  unfolding attach_peer_tcp_def Let_def by (auto intro!: touch)

lemma pong_touches [touch]:
  assumes "touches P h s t" and "\<And>m. P (Log m)"
  shows "touches P h s (handle_pong ext now n h a m t)"
proof -
  let ?rtt = "i64_sub now (i64_of_le (take 8 m))"
  define t1 where "t1 = (if 8 \<le> length m \<and> 0 \<le> ?rtt \<and> ?rtt < 600000
                then upd_sess h (se_rtt_ms_update (\<lambda>_. ?rtt)) t else t)"
  define t2 where "t2 = upd_sess h (se_last_pong_ms_update (\<lambda>_. now)) t1"
  have 1: "touches P h s t1" unfolding t1_def using assms(1) by (auto intro!: touch)
  have 2: "touches P h s t2" unfolding t2_def using 1 by (auto intro!: touch)
  define t3 where "t3 b = upd_sess h (se_direct_endpoint_update (\<lambda>_. Some b)) t2" for b
  have 3: "touches P h s (t3 b)" for b unfolding t3_def using 2 by (auto intro!: touch)
  have l: "touches P h s (emit (Log x) (t3 b))" for x b by (rule touches_emit [OF 3 assms(2)])
  have u: "touches P h s (emit (Log x) (upd_sess h (se_current_path_update (\<lambda>_. DirectUdp)) (t3 b)))" for x b
    by (rule touches_emit [OF touches_upd [OF 3] assms(2)]) simp
  show ?thesis
    unfolding handle_pong_def Let_def t1_def [symmetric] t2_def [symmetric] t3_def [symmetric]
    by (simp add: 2 3 l u split: Arrival.split)
qed

lemma handle_opened_touches:
  "touches no_fallback h s (handle_opened ext now a pl n h ft m s)"
proof -
  define s2 where "s2 = (case a of ArrDirectTcp conn \<Rightarrow> attach_peer_tcp ext n h conn (upd_sess h (add_rx pl) s)
      | _ \<Rightarrow> upd_sess h (add_rx pl) s)"
  have t: "touches no_fallback h s s2"
    unfolding s2_def by (auto intro!: touch split: Arrival.split)
  show ?thesis
    unfolding handle_opened_def Let_def s2_def [symmetric] case_prod_beta
    using t by (auto intro!: touch)
qed

lemma first_open_inv:
  assumes "engine_inv s" and "first_open adec cs p s = Some (r, t)"
  shows "engine_inv t"
  using assms
proof (induction cs arbitrary: s)
  case (Cons x cs)
  obtain n h where x: "x = (n, h)" by (cases x)
  obtain r1 c where o: "try_open adec (se_codec (sess s h)) p = Some (r1, c)"
    using Cons.prems(2) by (cases "try_open adec (se_codec (sess s h)) p") (auto simp: x)
  have "pc_keys c = pc_keys (se_codec (sess s h))"
    using o admit_frame_keys by (auto simp: try_open_eq split: option.splits prod.splits) (metis admit_frame_keys snd_conv)+
  then have "touches no_fallback h s (upd_sess h (se_codec_update (\<lambda>_. c)) s)" by (auto intro!: touch)
  from inv_touches [OF Cons.prems(1) this] show ?case
    using Cons.IH Cons.prems(2) o by (auto simp: x Let_def split: option.splits)
qed simp

lemma handle_frame_inv:
  assumes "engine_inv s" and "handle_frame ext now a p s = Some t"
  shows "engine_inv t"
  using assms first_open_inv [OF assms(1)] inv_touches [OF _ handle_opened_touches]
  by (auto simp: handle_frame_def try_parse_eq Let_def split: if_splits option.splits bind_splits)

section \<open>Outgoing traffic\<close>

lemma out_touches:
  assumes "engine_inv s" and "((n, d), h) \<in> set (en_peers s)"
  shows "touches no_fallback h s (probe_peer ext now m h s)"
    and "tget (en_peers s) (n, d) = Some h \<Longrightarrow> touches no_fallback h s (send_flow_payload ext now n d b s)"
    and "peer_by_ip s (packet_dst pkt) = Some (k, h) \<Longrightarrow> touches no_fallback h s (tun_packet ext now pkt s)"
  using peer_not_auto [OF assms] allowed_no_fallback
    touches_mono [OF probe_peer_touches [OF refl refl]]
    touches_mono [OF send_flow_touches [OF _ refl refl]]
    touches_mono [OF tun_packet_touches [OF _ refl refl]]
  by metis+

lemma probe_tick_inv:
  assumes "engine_inv s"
  shows "engine_inv (probe_tick ext now s)"
proof -
  have "engine_inv (fold (\<lambda>(n, h). probe_peer ext now n h) ps s) \<and>
      en_peers (fold (\<lambda>(n, h). probe_peer ext now n h) ps s) = en_peers s"
    if "\<forall>(n, h)\<in>set ps. \<exists>d. ((n, d), h) \<in> set (en_peers s)" for ps
    using that assms
  proof (induction ps arbitrary: s)
    case (Cons p ps)
    obtain n h where p: "p = (n, h)" by (cases p)
    then obtain d where "((n, d), h) \<in> set (en_peers s)" using Cons.prems(1) by auto
    note t = out_touches(1) [OF Cons.prems(2) this, of ext now n]
    show ?case using Cons.IH [OF _ inv_touches [OF Cons.prems(2) t]] Cons.prems(1) touches_frame(4) [OF t]
      by (simp add: p)
  qed simp
  then have k: "engine_inv (fold (\<lambda>(n, h). probe_peer ext now n h) ps s)"
    if "\<forall>(n, h)\<in>set ps. \<exists>d. ((n, d), h) \<in> set (en_peers s)" for ps
    using that by blast
  then show ?thesis unfolding probe_tick_def by (intro k) auto
qed

lemma send_flow_inv: "engine_inv s \<Longrightarrow> engine_inv (send_flow_payload ext now n d m s)"
  using inv_touches [OF _ out_touches(2)] map_of_SomeD
  by (cases "tget (en_peers s) (n, d)") (fastforce simp: send_flow_payload_def)+

lemma tun_packet_inv: "engine_inv s \<Longrightarrow> engine_inv (tun_packet ext now pkt s)"
proof (cases "peer_by_ip s (packet_dst pkt)")
  case (Some kh)
  assume i: "engine_inv s"
  obtain k h where kh: "peer_by_ip s (packet_dst pkt) = Some (k, h)" using Some by (cases kh) auto
  then obtain d where "((k, d), h) \<in> set (en_peers s)"
    by (auto simp: peer_by_ip_def dest: map_of_SomeD split: bind_splits)
  from inv_touches [OF i out_touches(3) [OF i this kh]] show ?thesis .
qed (simp add: tun_packet_def Let_def)

section \<open>Steps outside the sessions\<close>

lemma inv_emit: "engine_inv s \<Longrightarrow> no_fallback e \<Longrightarrow> engine_inv (emit e s)"
  by (rule inv_touches [OF _ touches_emit [OF touches_refl]])

lemma inv_upd:
  assumes "engine_inv s" and "\<And>p. se_id (f p) = se_id p" and "\<And>p. se_network_id_hint (f p) = se_network_id_hint p"
    and "\<And>p. se_current_path (f p) = RelayTcp \<Longrightarrow> se_current_path p = RelayTcp"
  shows "engine_inv (upd_sess h f s)"
proof -
  have "peer_ok (upd_sess h f s) e" if "peer_ok s e" for e
    using that assms(2-4) policy_upd [of h f s]
    by (auto simp: peer_ok_def simp del: policy_upd split: prod.splits if_splits) (auto simp: upd_sess_def)
  then show ?thesis using assms(1) by (simp add: engine_inv_def upd_sess_def)
qed

text \<open>A change of fields the invariant does not mention.\<close>

lemma inv_same:
  assumes "engine_inv s" and "en_peers t = en_peers s" and "en_sessions t = en_sessions s"
    and "en_next_session t = en_next_session s" and "policy_for t = policy_for s"
    and "tinv (en_networks t)" and "en_out t = en_out s"
  shows "engine_inv t"
  using assms by (auto simp: engine_inv_def peer_ok_def)

lemma policy_for_cong:
  "en_path_policy t = en_path_policy s \<Longrightarrow> en_peer_policies t = en_peer_policies s \<Longrightarrow> policy_for t = policy_for s"
  by (simp add: policy_for_def fun_eq_iff split: option.split)

lemma inv_networks: "engine_inv s \<Longrightarrow> tinv (en_networks s)"
  by (simp add: engine_inv_def)

lemma inv_fold:
  assumes "\<And>x s. engine_inv s \<Longrightarrow> engine_inv (f x s)" and "engine_inv s"
  shows "engine_inv (fold f xs s)"
  using assms by (induction xs arbitrary: s) auto

lemma relay_tcp_sent_inv:
  assumes "engine_inv s"
  shows "engine_inv (relay_tcp_sent now out ok s)"
  unfolding relay_tcp_sent_def using assms by (auto intro!: inv_touches [OF assms] touch)

lemma tcp_dialled_inv:
  assumes "engine_inv s"
  shows "engine_inv (tcp_dialled ext now h c s)"
proof -
  have "touches no_fallback h s (tcp_dialled ext now h c s)"
    unfolding tcp_dialled_def Let_def case_prod_beta by (auto intro!: touch split: list.split)
  then show ?thesis by (rule inv_touches [OF assms])
qed

lemma drop_peer_inv: "engine_inv s \<Longrightarrow> engine_inv (drop_peer n d s)"
proof (cases "tget (en_peers s) (n, d)")
  case (Some h)
  assume i: "engine_inv s"
  let ?s = "s\<lparr>en_peers := tdel (n, d) (en_peers s)\<rparr>"
  have "policy_for ?s = policy_for s" by (rule policy_for_cong) simp_all
  then have "peer_ok ?s e = peer_ok s e" for e by (simp add: peer_ok_def)
  then have "engine_inv ?s"
    using i by (auto simp: engine_inv_def tdel_filter distinct_map_filter_keep tinv_def)
  then show ?thesis using Some
    by (auto simp: drop_peer_def intro!: inv_upd inv_emit)
qed (simp add: drop_peer_def)

lemma peer_left_inv: "engine_inv s \<Longrightarrow> engine_inv (peer_left n name d s)"
  by (auto simp: peer_left_def drop_peer_inv intro!: inv_emit split: option.split)

lemma leave_stale_inv:
  assumes "engine_inv s"
  shows "engine_inv (leave_stale hx i s)"
proof -
  have "engine_inv (s\<lparr>en_networks := tdel i (en_networks s)\<rparr>)"
    by (rule inv_same [OF assms]) (use inv_networks [OF assms] in \<open>auto intro: policy_for_cong\<close>)
  then show ?thesis unfolding leave_stale_def Let_def
    by (intro inv_emit inv_fold) (simp_all add: drop_peer_inv)
qed

lemma request_stop_inv:
  assumes "engine_inv s"
  shows "engine_inv (request_stop r s)"
proof -
  have "engine_inv (s\<lparr>en_stopping := True, en_stop_reason := x\<rparr>)" for x
    by (rule inv_same [OF assms]) (auto intro: policy_for_cong inv_networks [OF assms])
  then show ?thesis unfolding request_stop_def using assms by (auto intro!: inv_emit)
qed

section \<open>Peers\<close>

lemma join_peer_inv:
  assumes i: "engine_inv s" and n: "tget (en_peers s) (n, pi_device_id info) = None"
    and j: "join_peer ext boot n name info vip k s = Some t"
  shows "engine_inv t"
proof -
  let ?h = "en_next_session s" and ?key = "(n, pi_device_id info)"
  obtain p where t: "t = emit (Log (PeerJoined (pi_name info) name vip))
      (s\<lparr>en_sessions := (en_sessions s)(?h := p), en_next_session := ?h + 1, en_peers := tput ?key ?h (en_peers s)\<rparr>)"
    and p: "se_id p = pi_device_id info" "se_network_id_hint p = n" "se_current_path p = RelayUdp"
    using j by (auto simp: join_peer_def Let_def peer_session_new_def split: sum.splits)
  let ?s = "s\<lparr>en_sessions := (en_sessions s)(?h := p), en_next_session := ?h + 1, en_peers := tput ?key ?h (en_peers s)\<rparr>"
  have pol: "policy_for ?s = policy_for s" by (rule policy_for_cong) simp_all
  have lt: "h < ?h" if "(k, h) \<in> set (en_peers s)" for k h
    using i that by (auto simp: engine_inv_def peer_ok_def)
  have "peer_ok ?s e" if "e \<in> set (en_peers s)" for e
  proof -
    obtain k d h where e: "e = ((k, d), h)" by (metis prod.collapse)
    then show ?thesis using i that lt [of "(k, d)" h] pol by (auto simp: engine_inv_def peer_ok_def)
  qed
  moreover have "peer_ok ?s (?key, ?h)" using p by (simp add: peer_ok_def)
  moreover have "?h \<notin> snd ` set (en_peers s)" using lt by force
  ultimately have "engine_inv ?s"
    using i n tinv_tput [of "en_peers s" ?key ?h] by (auto simp: engine_inv_def tput_new)
  then show ?thesis unfolding t by (rule inv_emit) simp
qed

lemma refresh_infos_inv:
  assumes "engine_inv s" and "refresh_infos ext boot n name infos (m, seen, s) = Some (m', seen', t)"
  shows "engine_inv t"
  using assms
proof (induction infos arbitrary: m seen s)
  case (Cons info infos)
  show ?case
  proof (cases "parse_ipv4 (pi_ip info)")
    case None
    then show ?thesis using Cons by simp
  next
    case (Some vip)
    show ?thesis
    proof (cases "ex_hexdec ext (pi_dh_pubkey info)")
      case None
      then show ?thesis using Cons Some by simp
    next
      case k: (Some k)
      show ?thesis
      proof (cases "length k = 32")
        case False
        then show ?thesis using Cons Some k by simp
      next
        case True
        show ?thesis
        proof (cases "tget (en_peers s) (n, pi_device_id info)")
          case (Some h)
          have "engine_inv (upd_sess h (refresh_session info vip) s)"
            by (rule inv_upd [OF Cons.prems(1)]) (simp_all add: refresh_session_def)
          then show ?thesis using Cons.IH Cons.prems(2) True k Some \<open>parse_ipv4 _ = _\<close> by simp
        next
          case None
          then show ?thesis
            using Cons.IH [OF join_peer_inv [OF Cons.prems(1) None]] Cons.prems True k \<open>parse_ipv4 _ = _\<close>
            by (auto split: bind_splits)
        qed
      qed
    qed
  qed
qed simp

lemma refresh_one_network_inv:
  assumes "engine_inv s" and "refresh_one_network ext boot n name answer s = Some t"
  shows "engine_inv t"
proof (cases answer)
  case (Some infos)
  obtain m seen s1 where r: "refresh_infos ext boot n name infos ([], {}, s) = Some (m, seen, s1)"
    using assms(2) Some by (auto simp: refresh_one_network_def split: bind_splits)
  define s2 where "s2 = fold (peer_left n name) [d. ((k, d), _) \<leftarrow> en_peers s1, k = n \<and> d \<notin> seen] s1"
  have i: "engine_inv s2" unfolding s2_def
    by (rule inv_fold [OF peer_left_inv refresh_infos_inv [OF assms(1) r]])
  have "t = (case tget (en_networks s2) n of
               Some ctx \<Rightarrow> s2\<lparr>en_networks := tput n (ctx\<lparr>nc_ip_map := m\<rparr>) (en_networks s2)\<rparr> | None \<Rightarrow> s2)"
    using assms(2) r unfolding Some s2_def by (simp add: refresh_one_network_def Let_def)
  then show ?thesis using i inv_networks [OF i]
    by (auto intro!: inv_same [OF i] policy_for_cong split: option.splits)
qed (use assms in \<open>simp add: refresh_one_network_def\<close>)

section \<open>Settings\<close>

text \<open>The overrides a list of peer policies makes, and the log of its invalid entries.\<close>

definition override :: "PeerPolicy \<Rightarrow> (u64, PathPolicy) table \<Rightarrow> (u64, PathPolicy) table" where
  "override pp t = (case parse_u64 (pp_device_id pp) of Some i \<Rightarrow> tput i (pp_policy pp) t | None \<Rightarrow> t)"

definition bad_policies :: "PeerPolicy list \<Rightarrow> Effect list" where
  "bad_policies l = map (\<lambda>pp. Log (BadPeerPolicy (pp_device_id pp))) (filter (\<lambda>pp. parse_u64 (pp_device_id pp) = None) l)"

lemma fold_add_peer_policy:
  "fold add_peer_policy l s
     = s\<lparr>en_peer_policies := fold override l (en_peer_policies s), en_out := en_out s @ bad_policies l\<rparr>"
proof (induction l arbitrary: s)
  case (Cons pp l)
  then show ?case
    by (cases "parse_u64 (pp_device_id pp)") (simp_all add: add_peer_policy_def override_def bad_policies_def emit_def)
qed (simp add: bad_policies_def)

lemma policy_for_sessions [simp]: "policy_for (s\<lparr>en_sessions := f\<rparr>) = policy_for s"
  by (rule policy_for_cong) simp_all

lemma pin_path_idem [simp]: "pin_path e (pin_path e p) = pin_path e p"
  by (cases e) (auto simp: pin_path_def)

lemma fold_pin_session:
  "fold pin_session hs (b, s) =
     (b \<or> (\<exists>h\<in>set hs. policy_for s (se_id (sess s h)) = PathPolicy.RelayTcp),
      s\<lparr>en_sessions := (\<lambda>h. if h \<in> set hs
          then se_current_path_update (pin_path (policy_for s (se_id (sess s h)))) (sess s h) else sess s h)\<rparr>)"
proof (induction hs arbitrary: b s)
  case (Cons h hs)
  let ?f = "se_current_path_update (pin_path (policy_for s (se_id (sess s h))))"
  have p: "pin_session h (b, s) = (b \<or> policy_for s (se_id (sess s h)) = PathPolicy.RelayTcp, upd_sess h ?f s)"
    by (simp add: pin_session_def Let_def)
  show ?case unfolding fold_Cons comp_apply p Cons.IH
    by (auto simp: upd_sess_def fun_eq_iff)
qed (simp add: fun_eq_iff)

text \<open>The engine with the policies of the settings, before its sessions are adjusted.\<close>

definition with_policies :: "DeviceSettings \<Rightarrow> Engine \<Rightarrow> Engine" where
  "with_policies settings s =
     (let l = (case ds_peer_policies settings of Some l \<Rightarrow> l | None \<Rightarrow> []) in
      s\<lparr>en_path_policy := (case ds_path_policy settings of Some p \<Rightarrow> p | None \<Rightarrow> PathPolicy.Auto),
        en_peer_policies := fold override l [], en_out := en_out s @ bad_policies l\<rparr>)"

lemma with_policies_frame [simp]:
  "en_peers (with_policies st s) = en_peers s" "en_networks (with_policies st s) = en_networks s"
  "en_sessions (with_policies st s) = en_sessions s" "en_next_session (with_policies st s) = en_next_session s"
  "en_restart_pending (with_policies st s) = en_restart_pending s"
  by (simp_all add: with_policies_def Let_def)

definition pinned_sessions :: "Engine \<Rightarrow> nat \<Rightarrow> PeerSession" where
  "pinned_sessions s h = (if h \<in> snd ` set (en_peers s)
     then se_current_path_update (pin_path (policy_for s (se_id (sess s h)))) (sess s h) else sess s h)"

lemma apply_policies_eq:
  "\<exists>es. apply_policies st s = (with_policies st s)\<lparr>en_sessions := pinned_sessions (with_policies st s),
      en_out := en_out (with_policies st s) @ es\<rparr> \<and> (es = [] \<or> es = [EnsureRelayTcp])"
proof -
  let ?w = "with_policies st s"
  have w: "fold add_peer_policy (case ds_peer_policies st of Some l \<Rightarrow> l | None \<Rightarrow> [])
      (s\<lparr>en_path_policy := (case ds_path_policy st of Some p \<Rightarrow> p | None \<Rightarrow> PathPolicy.Auto), en_peer_policies := []\<rparr>) = ?w"
    by (simp add: fold_add_peer_policy with_policies_def Let_def)
  have p: "snd (fold pin_session (map snd (en_peers ?w)) (b, ?w)) = ?w\<lparr>en_sessions := pinned_sessions ?w\<rparr>" for b
    by (simp add: fold_pin_session pinned_sessions_def fun_eq_iff del: with_policies_frame)
  have e: "\<exists>es. (if b then t\<lparr>en_out := en_out t @ [EnsureRelayTcp]\<rparr> else t) = t\<lparr>en_out := en_out t @ es\<rparr>
      \<and> (es = [] \<or> es = [EnsureRelayTcp])" for b and t :: Engine
  proof (cases b)
    case False
    then show ?thesis by (intro exI [of _ "[]"]) simp
  qed auto
  show ?thesis
    unfolding apply_policies_def Let_def w case_prod_beta p emit_def
    using e [where t = "?w\<lparr>en_sessions := pinned_sessions ?w\<rparr>"] by simp
qed

lemma apply_policies_frame:
  "en_peers (apply_policies st s) = en_peers s" "en_networks (apply_policies st s) = en_networks s"
  "en_next_session (apply_policies st s) = en_next_session s"
  "en_sessions (apply_policies st s) = pinned_sessions (with_policies st s)"
  "policy_for (apply_policies st s) = policy_for (with_policies st s)"
  "\<exists>es. en_out (apply_policies st s) = en_out s @ es \<and> (\<forall>e\<in>set es. no_fallback e)"
proof -
  obtain es where a: "apply_policies st s = (with_policies st s)\<lparr>en_sessions := pinned_sessions (with_policies st s),
      en_out := en_out (with_policies st s) @ es\<rparr>" and es: "es = [] \<or> es = [EnsureRelayTcp]"
    using apply_policies_eq by blast
  show "en_peers (apply_policies st s) = en_peers s" "en_networks (apply_policies st s) = en_networks s"
    "en_next_session (apply_policies st s) = en_next_session s"
    "en_sessions (apply_policies st s) = pinned_sessions (with_policies st s)"
    by (simp_all add: a)
  show "policy_for (apply_policies st s) = policy_for (with_policies st s)"
    unfolding a by (rule policy_for_cong) simp_all
  show "\<exists>es. en_out (apply_policies st s) = en_out s @ es \<and> (\<forall>e\<in>set es. no_fallback e)"
    unfolding a using es by (auto simp: with_policies_def Let_def bad_policies_def)
qed

lemma apply_policies_inv:
  assumes i: "engine_inv s"
  shows "engine_inv (apply_policies settings s)"
proof -
  let ?t = "apply_policies settings s"
  note f = apply_policies_frame [of settings s]
  have "peer_ok ?t e" if e: "e \<in> set (en_peers s)" for e
  proof -
    obtain n d h where x: "e = ((n, d), h)" by (metis prod.collapse)
    then have "h < en_next_session s" "se_id (sess s h) = d" "se_network_id_hint (sess s h) = n"
      "h \<in> snd ` set (en_peers s)"
      using i e by (force simp: engine_inv_def peer_ok_def)+
    then show ?thesis unfolding x peer_ok_def prod.case f(3,4,5)
      by (simp add: pinned_sessions_def relay_tcp_policy_def)
         (auto simp: pin_path_def split: PathPolicy.splits if_splits)
  qed
  then show ?thesis using i f(1,2,6) by (auto simp: engine_inv_def)
qed

lemma apply_exposes_inv: "engine_inv s \<Longrightarrow> engine_inv (apply_exposes l s)"
  unfolding apply_exposes_def by (auto intro!: inv_fold inv_emit split: option.split)

lemma apply_settings_inv:
  assumes "engine_inv s"
  shows "engine_inv (snd (apply_settings fetched s))"
proof (cases fetched)
  case (Some st)
  let ?s1 = "apply_exposes (ds_exposes st) (apply_policies st s)"
  have 1: "engine_inv ?s1" by (rule apply_exposes_inv [OF apply_policies_inv [OF assms]])
  have 2: "engine_inv (?s1\<lparr>en_restart_pending := b\<rparr>)" for b
    by (rule inv_same [OF 1]) (auto intro: policy_for_cong inv_networks [OF 1])
  have 3: "engine_inv (?s1\<lparr>en_restart_pending := b, en_applied_settings_revision := r\<rparr>)" for b r
    by (rule inv_same [OF 1]) (auto intro: policy_for_cong inv_networks [OF 1])
  have 4: "engine_inv (request_stop StopReason.Restart (emit (Log SettingsNeedRestart) (?s1\<lparr>en_restart_pending := b\<rparr>)))" for b
    by (rule request_stop_inv) (intro inv_emit 2, simp)
  have 5: "apply_runtime_settings st False s = (restart_class_change st ?s1,
      ?s1\<lparr>en_restart_pending := en_restart_pending ?s1 \<or> restart_class_change st ?s1\<rparr>)"
    by (simp add: apply_runtime_settings_def Let_def)
  have 6: "engine_inv (?s1\<lparr>en_applied_settings_revision := r\<rparr>)" for r
    by (rule inv_same [OF 1]) (auto intro: policy_for_cong inv_networks [OF 1])
  show ?thesis using assms 3 4 6 unfolding apply_settings_def Some option.case Let_def 5 prod.case
    by simp
qed (simp add: apply_settings_def assms)

section \<open>Every event keeps the invariant\<close>

lemma same_inv:
  assumes "engine_inv s"
  shows "engine_inv (s\<lparr>en_observed_endpoint := a\<rparr>)" "engine_inv (s\<lparr>en_conn_closed := b\<rparr>)"
    "engine_inv (s\<lparr>en_conn_writer_dead := c\<rparr>)" "engine_inv (s\<lparr>en_hb_rate_baseline := d\<rparr>)"
    "engine_inv (s\<lparr>en_heartbeat_secs := f\<rparr>)" "engine_inv (s\<lparr>en_hb_err_count := g\<rparr>)"
    "engine_inv (s\<lparr>en_hb_err_last_log_ms := h\<rparr>)" "engine_inv (s\<lparr>en_roster := i, en_restart_pending := j\<rparr>)"
    "tinv k \<Longrightarrow> engine_inv (s\<lparr>en_networks := k\<rparr>)"
  using inv_networks [OF assms] by (auto intro!: inv_same [OF assms] policy_for_cong)

lemma apply_config_change_inv:
  assumes "engine_inv s"
  shows "engine_inv (apply_config_change hx gc net s)"
  unfolding apply_config_change_def Let_def
  by (rule inv_fold [OF _ assms])
     (auto intro!: inv_emit same_inv(9) simp: inv_networks split: option.split)

lemma reconcile_roster_inv: "engine_inv s \<Longrightarrow> engine_inv (snd (reconcile_roster a s))"
  by (auto simp: reconcile_roster_def Let_def intro!: inv_emit same_inv split: option.split)

lemma heartbeat_inv:
  assumes i: "engine_inv s"
  shows "engine_inv (snd (heartbeat_request now addrs v s))" and "engine_inv (heartbeat_answer now r s)"
proof -
  show "engine_inv (snd (heartbeat_request now addrs v s))"
    by (simp add: heartbeat_request_def Let_def case_prod_beta same_inv(4) [OF i])
  show "engine_inv (heartbeat_answer now r s)"
  proof (cases r)
    case None
    then show ?thesis by (auto simp: heartbeat_answer_def Let_def intro!: inv_emit same_inv i)
  next
    case (Some resp)
    define s1 where "s1 = (case hr_observed_udp_endpoint resp of
        Some ep \<Rightarrow> s\<lparr>en_observed_endpoint := Some ep\<rparr> | None \<Rightarrow> s)"
    define s2 where "s2 = s1\<lparr>en_heartbeat_secs := clamp_secs (hr_heartbeat_secs resp)\<rparr>"
    define s3 where "s3 = (if en_heartbeat_secs s1 \<noteq> clamp_secs (hr_heartbeat_secs resp)
        then emit (Log (HeartbeatInterval (en_heartbeat_secs s1) (clamp_secs (hr_heartbeat_secs resp)))) s2 else s2)"
    have "engine_inv s1" unfolding s1_def using i by (auto intro: same_inv split: option.split)
    then have "engine_inv s2" unfolding s2_def by (rule same_inv)
    then have "engine_inv s3" unfolding s3_def by (auto intro: inv_emit)
    then show ?thesis
      unfolding heartbeat_answer_def Some option.case Let_def s1_def [symmetric] s2_def [symmetric] s3_def [symmetric]
      by (auto intro!: inv_emit same_inv(6))
  qed
qed

lemma engine_event_inv:
  assumes i: "engine_inv s" and e: "engine_event ext boot now e s = Some t"
  shows "engine_inv t"
proof (cases e)
  case EvPrune
  then have "t = fold (leave_stale (ex_hexenc ext)) [i. (i, _) \<leftarrow> en_networks s, i \<notin> en_roster s] s"
    using e by simp
  then show ?thesis using inv_fold [OF leave_stale_inv i] by simp
next
  case (EvFrame a p)
  then show ?thesis using e handle_frame_inv [OF i] by simp
next
  case (EvPeers n name answer)
  then show ?thesis using e refresh_one_network_inv [OF i] by simp
qed (use e tun_packet_inv [OF i] send_flow_inv [OF i] relay_tcp_sent_inv [OF i] probe_tick_inv [OF i]
    tcp_dialled_inv [OF i] apply_settings_inv [OF i] reconcile_roster_inv [OF i] apply_config_change_inv [OF i]
    heartbeat_inv [OF i] request_stop_inv [OF i] same_inv(1-3) [OF i] in auto)

interpretation engine: machine "engine_step ext boot" engine_inv
  by unfold_locales (auto simp: engine_step_def engine_event_inv split: option.splits)

lemma engine_inv_new: "engine_inv (engine_new d pr pu mode l p)"
  by (simp add: engine_inv_def engine_new_def)

text \<open>
  C19 (invariant). Over any sequence of events (frames from anywhere, packets, probes, connections,
  settings, joining and leaving peers): every entry of the peers table has a session of
  its own, made for its device and network; a session is on the TCP relay only while
  its policy is RelayTcp, or DirectAny taken over from it; and therefore no frame queued
  for the TCP relay ever asks for the fallback to the UDP relay.
\<close>
theorem engine_invariant:
  assumes "s = snd (run (engine_step ext boot) (engine_new d pr pu mode l p) es)"
  shows "distinct (map fst (en_peers s)) \<and> distinct (map snd (en_peers s))
    \<and> (\<forall>((n, dev), h)\<in>set (en_peers s). se_id (sess s h) = dev \<and> se_network_id_hint (sess s h) = n
         \<and> (se_current_path (sess s h) = RelayTcp \<longrightarrow>
             policy_for s dev = PathPolicy.RelayTcp \<or> policy_for s dev = PathPolicy.DirectAny))
    \<and> (\<forall>r. RelayTcpQueue r \<in> set (en_out s) \<longrightarrow> \<not> ro_fallback r)"
proof -
  have "engine_inv s" unfolding assms by (rule engine.run_snd_inv [OF engine_inv_new])
  then show ?thesis
    by (auto simp: engine_inv_def tinv_def peer_ok_def relay_tcp_policy_def no_fallback_def)
qed

theorem engine_invariant_witness:
  "let s = snd (run (engine_step demo_ext (\<lambda>_. toy_boot)) (engine_new 5 [] [] Proxy [] 1)
             [(1, EvProbe), (2, EvStop StopReason.Restart)])
   in distinct (map fst (en_peers s)) \<and> distinct (map snd (en_peers s))"
  unfolding Let_def
  using engine_invariant [OF refl, of demo_ext "\<lambda>_. toy_boot" 5 "[]" "[]" Proxy "[]" 1 "[(1, EvProbe), (2, EvStop StopReason.Restart)]"]
  by blast

end
