(* ===== verification/EngineControlProps.thy ===== *)
theory EngineControlProps
  imports EngineEvents
begin

text \<open>
  What the engine guarantees under the control plane: which settings it acknowledges
  and which policies are then in force, what a refresh of the peers changes and when
  it panics, and the figures of the heartbeat.
\<close>

section \<open>Settings\<close>

definition opt_default :: "'a \<Rightarrow> 'a option \<Rightarrow> 'a" where
  "opt_default x v = (case v of Some y \<Rightarrow> y | None \<Rightarrow> x)"

text \<open>
  The policy that settings mean for a device: its last valid override, else the
  global policy, else automatic.
\<close>

definition intended_policy :: "DeviceSettings \<Rightarrow> u64 \<Rightarrow> PathPolicy" where
  "intended_policy st d =
     (case find (\<lambda>pp. parse_u64 (pp_device_id pp) = Some d) (rev (opt_default [] (ds_peer_policies st))) of
        Some pp \<Rightarrow> pp_policy pp
      | None \<Rightarrow> opt_default PathPolicy.Auto (ds_path_policy st))"

lemma find_append: "find P (xs @ ys) = (case find P xs of Some x \<Rightarrow> Some x | None \<Rightarrow> find P ys)"
  by (induction xs) auto

lemma tget_override:
  "tget (fold override l t) d =
     (case find (\<lambda>pp. parse_u64 (pp_device_id pp) = Some d) (rev l) of
        Some pp \<Rightarrow> Some (pp_policy pp) | None \<Rightarrow> tget t d)"
proof (induction l arbitrary: t)
  case (Cons pp l)
  show ?case unfolding fold_Cons comp_apply Cons.IH
    by (auto simp: find_append override_def table_simps split: option.splits)
qed simp

lemma policy_with_policies: "policy_for (with_policies st s) d = intended_policy st d"
  by (auto simp: policy_for_def with_policies_def Let_def tget_override intended_policy_def opt_default_def
      split: option.splits)

text \<open>The exposes that settings hand to the flow manager: those of the networks the engine knows, in order.\<close>

definition exposes_of :: "DeviceSettings \<Rightarrow> Engine \<Rightarrow> Effect list" where
  "exposes_of st s = [FlowSetExposes (ne_network_id ne) (ne_rules ne).
     ne \<leftarrow> opt_default [] (ds_exposes st), thas (en_networks s) (ne_network_id ne)]"

fun sets_exposes :: "Effect \<Rightarrow> bool" where
  "sets_exposes (FlowSetExposes _ _) = True"
| "sets_exposes _ = False"

lemma filter_exposes_of [simp]: "filter sets_exposes (exposes_of st s) = exposes_of st s"
  unfolding filter_id_conv exposes_of_def by auto

lemma apply_exposes_eq:
  "apply_exposes (ds_exposes st) s = s\<lparr>en_out := en_out s @ exposes_of st s\<rparr>"
proof -
  have "fold (\<lambda>ne s. if thas (en_networks s) (ne_network_id ne)
      then emit (FlowSetExposes (ne_network_id ne) (ne_rules ne)) s else s) xs s
      = s\<lparr>en_out := en_out s @ [FlowSetExposes (ne_network_id ne) (ne_rules ne).
            ne \<leftarrow> xs, thas (en_networks s) (ne_network_id ne)]\<rparr>" for xs
    by (induction xs arbitrary: s) (simp_all add: emit_def)
  then show ?thesis
    by (cases "ds_exposes st") (simp_all add: apply_exposes_def exposes_of_def opt_default_def)
qed

text \<open>The values the engine runs with, which only a restart changes.\<close>

definition running :: "Engine \<Rightarrow> u32 \<times> string option \<times> ForwardRule list \<times> ClientMode \<times> string list" where
  "running s = (en_runtime_mtu s, en_runtime_socks s, en_runtime_forwards s, en_runtime_mode s, en_runtime_listen s)"

text \<open>Every one of these values that the settings manage is the one they ask for.\<close>

definition managed_in_effect :: "DeviceSettings \<Rightarrow> Engine \<Rightarrow> bool" where
  "managed_in_effect st s =
     ((\<forall>v. ds_mtu st = Some v \<longrightarrow> en_runtime_mtu s = v)
      \<and> (\<forall>v. ds_socks_listen st = Some v \<longrightarrow> en_runtime_socks s = (if v = [] then None else Some v))
      \<and> (\<forall>v. ds_forwards st = Some v \<longrightarrow> en_runtime_forwards s = v)
      \<and> (\<forall>v. ds_mode st = Some v \<longrightarrow> en_runtime_mode s = v)
      \<and> (\<forall>v. ds_listen st = Some v \<longrightarrow> en_runtime_listen s = v))"

lemma restart_class_iff: "restart_class_change st s \<longleftrightarrow> \<not> managed_in_effect st s"
  by (auto simp: restart_class_change_def managed_in_effect_def split: option.splits)

lemma managed_running: "running t = running s \<Longrightarrow> managed_in_effect st t = managed_in_effect st s"
  by (simp add: running_def managed_in_effect_def)

lemma restart_class_change_cong:
  assumes "en_runtime_mtu t = en_runtime_mtu s" "en_runtime_socks t = en_runtime_socks s"
    "en_runtime_forwards t = en_runtime_forwards s" "en_runtime_mode t = en_runtime_mode s"
    "en_runtime_listen t = en_runtime_listen s"
  shows "restart_class_change x t = restart_class_change x s"
  unfolding restart_class_change_def assms ..

lemma runtime_frame:
  defines "t \<equiv> \<lambda>st s. apply_exposes (ds_exposes st) (apply_policies st s)"
  shows "restart_class_change x (t st s) = restart_class_change x s"
    "policy_for (t st s) = intended_policy st" "en_stopping (t st s) = en_stopping s"
    "en_stop_reason (t st s) = en_stop_reason s" "en_sessions (t st s) = pinned_sessions (with_policies st s)"
    "en_applied_settings_revision (t st s) = en_applied_settings_revision s"
    "en_restart_pending (t st s) = en_restart_pending s"
    "running (t st s) = running s" "en_networks (t st s) = en_networks s" "en_peers (t st s) = en_peers s"
    "\<exists>es. en_out (t st s) = en_out s @ es \<and> filter sets_exposes es = exposes_of st s"
proof -
  have e: "t st s = (apply_policies st s)\<lparr>en_out := en_out (apply_policies st s) @ exposes_of st (apply_policies st s)\<rparr>"
    unfolding t_def by (rule apply_exposes_eq)
  obtain fs where a: "apply_policies st s = (with_policies st s)\<lparr>en_sessions := pinned_sessions (with_policies st s),
      en_out := en_out (with_policies st s) @ fs\<rparr>" and fs: "fs = [] \<or> fs = [EnsureRelayTcp]"
    using apply_policies_eq by blast
  show "restart_class_change x (t st s) = restart_class_change x s"
    by (rule restart_class_change_cong) (simp_all add: e a with_policies_def Let_def)
  show "policy_for (t st s) = intended_policy st"
  proof
    fix d
    have "policy_for (t st s) = policy_for (with_policies st s)"
      unfolding e a by (rule policy_for_cong) simp_all
    then show "policy_for (t st s) d = intended_policy st d" by (simp add: policy_with_policies)
  qed
  show "en_stopping (t st s) = en_stopping s" "en_stop_reason (t st s) = en_stop_reason s"
    "en_sessions (t st s) = pinned_sessions (with_policies st s)"
    "en_applied_settings_revision (t st s) = en_applied_settings_revision s"
    "en_restart_pending (t st s) = en_restart_pending s"
    "running (t st s) = running s" "en_networks (t st s) = en_networks s" "en_peers (t st s) = en_peers s"
    by (simp_all add: e a running_def with_policies_def Let_def)
  define bad where "bad = bad_policies (case ds_peer_policies st of Some l \<Rightarrow> l | None \<Rightarrow> [])"
  have "en_out (t st s) = en_out s @ (bad @ fs @ exposes_of st (apply_policies st s))"
    by (simp add: e a with_policies_def Let_def bad_def)
  moreover have "exposes_of st (apply_policies st s) = exposes_of st s"
    by (simp add: exposes_of_def a with_policies_def Let_def)
  moreover have "filter sets_exposes bad = []" "filter sets_exposes fs = []"
    using fs by (auto simp: bad_def bad_policies_def filter_empty_conv)
  ultimately show "\<exists>es. en_out (t st s) = en_out s @ es \<and> filter sets_exposes es = exposes_of st s"
    by (intro exI [of _ "bad @ fs @ exposes_of st s"]) simp
qed

text \<open>
  C28 (functional). Settings newer than those applied put exactly their policies in force and hand
  exactly their exposes of known networks to the flow manager, and change none of the values
  that need a restart. If every such value they manage is already the running one they
  are acknowledged, and then all they manage is in effect: the applied revision moves to theirs
  and a heartbeat reports it. Otherwise the revision stays, and the engine
  stops with the exit code that makes its master start it again. Older settings, or the
  same once more, change nothing.
\<close>
theorem settings_acknowledged_in_effect:
  assumes "apply_settings (Some st) s = (hb, t)" and "\<not> en_stopping s" and "en_stop_reason s = None"
  shows "if of_int (ds_revision st) \<le> en_applied_settings_revision s then t = s \<and> \<not> hb
    else policy_for t = intended_policy st \<and> running t = running s
      \<and> (\<exists>es. en_out t = en_out s @ es \<and> filter sets_exposes es = exposes_of st s)
      \<and> (if managed_in_effect st s
         then en_applied_settings_revision t = of_int (ds_revision st) \<and> hb \<and> managed_in_effect st t
            \<and> \<not> en_stopping t \<and> en_restart_pending t = en_restart_pending s
         else en_applied_settings_revision t = en_applied_settings_revision s \<and> \<not> hb
            \<and> \<not> managed_in_effect st t \<and> en_stopping t \<and> exit_code t = EXIT_RESTART)"
proof (cases "of_int (ds_revision st) \<le> en_applied_settings_revision s")
  case True
  then show ?thesis using assms(1) by (simp add: apply_settings_def Let_def)
next
  case False
  define r where "r = apply_exposes (ds_exposes st) (apply_policies st s)"
  note f = runtime_frame [where st = st and s = s, folded r_def]
  obtain es where es: "en_out r = en_out s @ es" "filter sets_exposes es = exposes_of st s" using f(11) by blast
  show ?thesis
  proof (cases "restart_class_change st s")
    case True
    have t: "t = request_stop StopReason.Restart (emit (Log SettingsNeedRestart) (r\<lparr>en_restart_pending := True\<rparr>))" "\<not> hb"
      using assms(1) False True f(1) by (simp_all add: apply_settings_def apply_runtime_settings_def Let_def r_def)
    have k: "running t = running s" "policy_for t = policy_for r"
      using f(3,8) assms(2) by (auto intro!: policy_for_cong simp: t(1) request_stop_def emit_def running_def)
    have "\<exists>es. en_out t = en_out s @ es \<and> filter sets_exposes es = exposes_of st s"
    proof -
      obtain l where l: "en_out t = en_out r @ l" "filter sets_exposes l = []"
        using f(3) assms(2) by (auto simp: t(1) request_stop_def emit_def)
      then show ?thesis using es by simp
    qed
    then show ?thesis
      using False True f(2,3,4,6) assms(2,3) t(2) k managed_running [OF k(1), of st]
      by (auto simp: restart_class_iff t(1) request_stop_def emit_def exit_code_def)
  next
    case no: False
    have t: "t = r\<lparr>en_restart_pending := en_restart_pending r, en_applied_settings_revision := of_int (ds_revision st)\<rparr>" "hb"
      using assms(1) False no f(1) by (auto simp: apply_settings_def apply_runtime_settings_def Let_def r_def)
    have k: "running t = running s" "policy_for t = policy_for r"
      using f(8) by (auto intro!: policy_for_cong simp: t(1) running_def)
    then show ?thesis
      using False no f(2,3,7) assms(2) t es managed_running [OF k(1), of st] by (auto simp: restart_class_iff)
  qed
qed

definition pin_settings :: DeviceSettings where
  "pin_settings = default_settings\<lparr>ds_revision := 4, ds_path_policy := Some PathPolicy.DirectUdp, ds_mtu := Some 1400\<rparr>"

theorem settings_acknowledged_in_effect_witness:
  "let t = snd (apply_settings (Some pin_settings) (engine_new 5 [] [] Proxy [] 1))
   in policy_for t = intended_policy pin_settings \<and> en_applied_settings_revision t = 0
      \<and> exit_code t = EXIT_RESTART \<and> \<not> managed_in_effect pin_settings t"
proof -
  let ?s = "engine_new 5 [] [] Proxy [] 1"
  have "\<not> (of_int (ds_revision pin_settings) :: u64) \<le> en_applied_settings_revision ?s"
    "\<not> managed_in_effect pin_settings ?s" "\<not> en_stopping ?s" "en_stop_reason ?s = None" "en_applied_settings_revision ?s = 0"
    by (simp_all add: engine_new_def pin_settings_def managed_in_effect_def DEFAULT_MTU_def)
  then show ?thesis
    using settings_acknowledged_in_effect [of pin_settings ?s "fst (apply_settings (Some pin_settings) ?s)"
        "snd (apply_settings (Some pin_settings) ?s)"] by simp
qed

section \<open>Refreshing the peers of a network\<close>

text \<open>An entry of the server's list that the node can use, with its address.\<close>

definition usable :: "Ext \<Rightarrow> PeerInfo \<Rightarrow> bool" where
  "usable ext info = (parse_ipv4 (pi_ip info) \<noteq> None
     \<and> (\<exists>k. ex_hexdec ext (pi_dh_pubkey info) = Some k \<and> length k = 32))"

definition vip_of :: "PeerInfo \<Rightarrow> u32" where "vip_of info = the (parse_ipv4 (pi_ip info))"

definition dh_of :: "Ext \<Rightarrow> PeerInfo \<Rightarrow> bytes" where "dh_of ext info = the (ex_hexdec ext (pi_dh_pubkey info))"

lemma refresh_infos_step:
  "refresh_infos ext boot n name (info # rest) (m, seen, s) =
     (if \<not> usable ext info then refresh_infos ext boot n name rest (m, seen, s)
      else Option.bind (case tget (en_peers s) (n, pi_device_id info) of
               Some h \<Rightarrow> Some (upd_sess h (refresh_session info (vip_of info)) s)
             | None \<Rightarrow> join_peer ext boot n name info (vip_of info) (dh_of ext info) s)
           (\<lambda>s1. refresh_infos ext boot n name rest
              (tput (vip_of info) (pi_device_id info) m, insert (pi_device_id info) seen, s1)))"
  by (auto simp: usable_def vip_of_def dh_of_def split: option.split)

text \<open>What a refresh keeps of a session: everything of the link to the peer.\<close>

definition link :: "PeerSession \<Rightarrow> PacketCodec \<times> nat option \<times> PathKind \<times> (SocketAddr \<times> SocketAddr) option \<times> millis \<times> u64" where
  "link p = (se_codec p, se_tcp_conn p, se_current_path p, se_direct_endpoint p, se_last_pong_ms p, se_id p)"

lemma link_refresh [simp]: "link (refresh_session info vip p) = link p"
  by (simp add: link_def refresh_session_def)

text \<open>The step that serves one usable entry.\<close>

definition served :: "Ext \<Rightarrow> (nat \<Rightarrow> bytes) \<Rightarrow> NetId \<Rightarrow> string \<Rightarrow> PeerInfo \<Rightarrow> Engine \<Rightarrow> Engine option" where
  "served ext boot n name info s = (case tget (en_peers s) (n, pi_device_id info) of
       Some h \<Rightarrow> Some (upd_sess h (refresh_session info (vip_of info)) s)
     | None \<Rightarrow> join_peer ext boot n name info (vip_of info) (dh_of ext info) s)"

lemma handles_differ:
  assumes "engine_inv s" and "tget (en_peers s) k = Some h" and "tget (en_peers s) k' = Some h"
  shows "k = k'"
proof -
  have "distinct (map snd (en_peers s))" using assms(1) by (simp add: engine_inv_def)
  then have "inj_on snd (set (en_peers s))" by (simp add: distinct_map)
  then show ?thesis using assms(2,3) [THEN map_of_SomeD] inj_onD [of snd _ "(k, h)" "(k', h)"] by simp
qed

definition kept :: "NetId \<Rightarrow> Engine \<Rightarrow> Engine \<Rightarrow> bool" where
  "kept n s t = (\<forall>k h. tget (en_peers s) k = Some h \<longrightarrow> tget (en_peers t) k = Some h \<and> link (sess t h) = link (sess s h)
           \<and> (fst k \<noteq> n \<longrightarrow> sess t h = sess s h))"

lemma kept_refl [simp]: "kept n s s"
  by (simp add: kept_def)

lemma kept_trans:
  assumes "kept n s t" and "kept n t u"
  shows "kept n s u"
  unfolding kept_def
proof (intro allI impI)
  fix k h assume "tget (en_peers s) k = Some h"
  then have "tget (en_peers t) k = Some h" "link (sess t h) = link (sess s h)" "fst k \<noteq> n \<longrightarrow> sess t h = sess s h"
    using assms(1) unfolding kept_def by blast+
  then show "tget (en_peers u) k = Some h \<and> link (sess u h) = link (sess s h) \<and> (fst k \<noteq> n \<longrightarrow> sess u h = sess s h)"
    using assms(2) unfolding kept_def by (cases k) simp
qed

lemma served_spec:
  assumes i: "engine_inv s" and v: "served ext boot n name info s = Some t"
  shows "engine_inv t" and "\<forall>k\<noteq>n. \<forall>d. tget (en_peers t) (k, d) = tget (en_peers s) (k, d)"
    and "\<forall>d. tget (en_peers t) (n, d) \<noteq> None \<longleftrightarrow> tget (en_peers s) (n, d) \<noteq> None \<or> d = pi_device_id info"
    and "kept n s t"
    and "en_networks t = en_networks s"
proof -
  let ?key = "(n, pi_device_id info)"
  have "engine_inv t \<and> (\<forall>k\<noteq>n. \<forall>d. tget (en_peers t) (k, d) = tget (en_peers s) (k, d))
    \<and> (\<forall>d. tget (en_peers t) (n, d) \<noteq> None \<longleftrightarrow> tget (en_peers s) (n, d) \<noteq> None \<or> d = pi_device_id info)
    \<and> kept n s t
    \<and> en_networks t = en_networks s"
  proof (cases "tget (en_peers s) ?key")
    case (Some h)
    then have t: "t = upd_sess h (refresh_session info (vip_of info)) s" using v by (simp add: served_def)
    have "engine_inv t" unfolding t by (rule inv_upd [OF i]) (simp_all add: refresh_session_def)
    moreover have "k = ?key" if "tget (en_peers s) k = Some h" for k
      by (rule handles_differ [OF i that Some])
    ultimately show ?thesis using Some by (auto simp: t kept_def) (auto simp: upd_sess_def)
  next
    case None
    then have j: "join_peer ext boot n name info (vip_of info) (dh_of ext info) s = Some t"
      using v by (simp add: served_def)
    then obtain p where t: "t = emit (Log (PeerJoined (pi_name info) name (vip_of info)))
        (s\<lparr>en_sessions := (en_sessions s)(en_next_session s := p), en_next_session := en_next_session s + 1,
           en_peers := tput ?key (en_next_session s) (en_peers s)\<rparr>)"
      by (auto simp: join_peer_def Let_def split: sum.splits)
    have "h \<noteq> en_next_session s" if "tget (en_peers s) k = Some h" for k h
      using engine_invD(1) [OF i, of "fst k" "snd k" h] that by auto
    then show ?thesis using join_peer_inv [OF i None j] None
      by (auto simp: t table_simps kept_def) (simp_all add: emit_def)
  qed
  then show "engine_inv t" "\<forall>k\<noteq>n. \<forall>d. tget (en_peers t) (k, d) = tget (en_peers s) (k, d)"
    "\<forall>d. tget (en_peers t) (n, d) \<noteq> None \<longleftrightarrow> tget (en_peers s) (n, d) \<noteq> None \<or> d = pi_device_id info"
    "kept n s t"
    "en_networks t = en_networks s"
    by blast+
qed

lemma refresh_infos_spec:
  assumes "engine_inv s" and "refresh_infos ext boot n name infos (m, seen, s) = Some (m', seen', t)"
  shows "engine_inv t \<and> seen' = seen \<union> pi_device_id ` {i \<in> set infos. usable ext i}
    \<and> m' = fold (\<lambda>i. tput (vip_of i) (pi_device_id i)) (filter (usable ext) infos) m
    \<and> (\<forall>k\<noteq>n. \<forall>d. tget (en_peers t) (k, d) = tget (en_peers s) (k, d))
    \<and> (\<forall>d. tget (en_peers t) (n, d) \<noteq> None
          \<longleftrightarrow> tget (en_peers s) (n, d) \<noteq> None \<or> d \<in> pi_device_id ` {i \<in> set infos. usable ext i})
    \<and> kept n s t
    \<and> en_networks t = en_networks s"
  using assms
proof (induction infos arbitrary: m seen s)
  case (Cons info infos)
  show ?case
  proof (cases "usable ext info")
    case False
    have "{i \<in> set (info # infos). usable ext i} = {i \<in> set infos. usable ext i}" using False by auto
    then show ?thesis using Cons.IH [OF Cons.prems(1)] Cons.prems(2) False
      by (simp add: refresh_infos_step del: refresh_infos.simps(2))
  next
    case True
    obtain s1 where v: "served ext boot n name info s = Some s1"
      and r: "refresh_infos ext boot n name infos
                (tput (vip_of info) (pi_device_id info) m, insert (pi_device_id info) seen, s1) = Some (m', seen', t)"
      using Cons.prems(2) True unfolding refresh_infos_step served_def [symmetric]
      by (auto split: bind_splits)
    note S = served_spec [OF Cons.prems(1) v]
    have u: "pi_device_id ` {i \<in> set (info # infos). usable ext i}
        = insert (pi_device_id info) (pi_device_id ` {i \<in> set infos. usable ext i})" using True by auto
    show ?thesis using Cons.IH [OF S(1) r] S(2,3,5) kept_trans [OF S(4)] True unfolding u by simp
  qed
qed auto

lemma peer_left_spec:
  assumes "engine_inv s"
  shows "\<forall>k. tget (en_peers (peer_left n name d s)) k = (if k = (n, d) then None else tget (en_peers s) k)"
    and "\<forall>k h. k \<noteq> (n, d) \<longrightarrow> tget (en_peers s) k = Some h \<longrightarrow> sess (peer_left n name d s) h = sess s h"
    and "en_networks (peer_left n name d s) = en_networks s"
  using handles_differ [OF assms]
  by (auto simp: peer_left_def drop_peer_def table_simps upd_sess_def emit_def split: option.split)

lemma peers_left_spec:
  assumes "engine_inv s"
  shows "(\<forall>k. tget (en_peers (fold (peer_left n name) ds s)) k = (if fst k = n \<and> snd k \<in> set ds then None else tget (en_peers s) k))
    \<and> (\<forall>k h. \<not> (fst k = n \<and> snd k \<in> set ds) \<longrightarrow> tget (en_peers s) k = Some h
         \<longrightarrow> sess (fold (peer_left n name) ds s) h = sess s h)
    \<and> en_networks (fold (peer_left n name) ds s) = en_networks s"
  using assms
proof (induction ds arbitrary: s)
  case (Cons d ds)
  note p = peer_left_spec [OF Cons.prems, where n = n and name = name and d = d]
  note IH = Cons.IH [OF peer_left_inv [OF Cons.prems, of n name d]]
  show ?case
  proof (intro conjI allI impI)
    fix k :: "NetId \<times> u64"
    show "tget (en_peers (fold (peer_left n name) (d # ds) s)) k
        = (if fst k = n \<and> snd k \<in> set (d # ds) then None else tget (en_peers s) k)"
      using IH p(1) by (cases k) auto
    fix h assume a: "\<not> (fst k = n \<and> snd k \<in> set (d # ds))" "tget (en_peers s) k = Some h"
    have k: "k \<noteq> (n, d)" "\<not> (fst k = n \<and> snd k \<in> set ds)" using a(1) by auto
    have "sess (peer_left n name d s) h = sess s h" using p(2) k(1) a(2) by blast
    moreover have "tget (en_peers (peer_left n name d s)) k = Some h" using p(1) k(1) a(2) by metis
    then have "sess (fold (peer_left n name) ds (peer_left n name d s)) h = sess (peer_left n name d s) h"
      using IH k(2) by blast
    ultimately show "sess (fold (peer_left n name) (d # ds) s) h = sess s h" by simp
  qed (use IH p(3) in simp)
qed simp

lemma refresh_one_spec:
  assumes "engine_inv s" and "refresh_one_network ext boot n name (Some infos) s = Some t"
  shows "\<forall>d. tget (en_peers t) (n, d) \<noteq> None \<longleftrightarrow> (\<exists>i\<in>set infos. usable ext i \<and> pi_device_id i = d)"
    and "\<forall>d h. tget (en_peers s) (n, d) = Some h \<and> tget (en_peers t) (n, d) \<noteq> None \<longrightarrow>
          tget (en_peers t) (n, d) = Some h \<and> link (sess t h) = link (sess s h)"
    and "\<forall>k d. k \<noteq> n \<longrightarrow> tget (en_peers t) (k, d) = tget (en_peers s) (k, d)
          \<and> (\<forall>h. tget (en_peers s) (k, d) = Some h \<longrightarrow> sess t h = sess s h)"
    and "\<forall>ctx. tget (en_networks t) n = Some ctx \<longrightarrow> (\<forall>a. tget (nc_ip_map ctx) a =
          map_option pi_device_id (find (\<lambda>i. vip_of i = a) (rev (filter (usable ext) infos))))"
    and "map_option nc_name (tget (en_networks t) k) = map_option nc_name (tget (en_networks s) k)"
proof -
  obtain m seen s1 where r: "refresh_infos ext boot n name infos ([], {}, s) = Some (m, seen, s1)"
    using assms(2) by (auto simp: refresh_one_network_def split: bind_splits)
  note R = refresh_infos_spec [OF assms(1) r]
  define gone where "gone = [d. ((k, d), _) \<leftarrow> en_peers s1, k = n \<and> d \<notin> seen]"
  define s2 where "s2 = fold (peer_left n name) gone s1"
  have g: "set gone = {d. tget (en_peers s1) (n, d) \<noteq> None \<and> d \<notin> seen}"
  proof -
    have "d \<in> set gone \<longleftrightarrow> (\<exists>h. ((n, d), h) \<in> set (en_peers s1)) \<and> d \<notin> seen" for d by (auto simp: gone_def)
    moreover have "(\<exists>h. ((n, d), h) \<in> set (en_peers s1)) \<longleftrightarrow> tget (en_peers s1) (n, d) \<noteq> None" for d
      by (metis map_of_SomeD not_None_eq weak_map_of_SomeI)
    ultimately show ?thesis by auto
  qed
  note P = peers_left_spec [where s = s1 and n = n and name = name and ds = gone, folded s2_def]
  have t: "t = (case tget (en_networks s2) n of
        Some ctx \<Rightarrow> s2\<lparr>en_networks := tput n (ctx\<lparr>nc_ip_map := m\<rparr>) (en_networks s2)\<rparr> | None \<Rightarrow> s2)"
  proof -
    have "refresh_one_network ext boot n name (Some infos) s = Some (case tget (en_networks s2) n of
        Some ctx \<Rightarrow> s2\<lparr>en_networks := tput n (ctx\<lparr>nc_ip_map := m\<rparr>) (en_networks s2)\<rparr> | None \<Rightarrow> s2)"
      unfolding refresh_one_network_def option.case r s2_def gone_def by (simp add: Let_def)
    then show ?thesis using assms(2) by simp
  qed
  have tf: "en_peers t = en_peers s2" "en_sessions t = en_sessions s2"
    by (simp_all add: t split: option.split)
  have fp: "tget (fold (\<lambda>i. tput (vip_of i) (pi_device_id i)) l m0) a =
      (case find (\<lambda>i. vip_of i = a) (rev l) of Some i \<Rightarrow> Some (pi_device_id i) | None \<Rightarrow> tget m0 a)" for l m0 a
  proof (induction l arbitrary: m0)
    case (Cons i l)
    show ?case unfolding fold_Cons comp_apply Cons.IH by (auto simp: find_append table_simps split: option.splits)
  qed simp
  show "map_option nc_name (tget (en_networks t) k) = map_option nc_name (tget (en_networks s) k)"
    using R P [OF conjunct1 [OF R]] by (auto simp: t table_simps split: option.split)
  show "\<forall>d. tget (en_peers t) (n, d) \<noteq> None \<longleftrightarrow> (\<exists>i\<in>set infos. usable ext i \<and> pi_device_id i = d)"
    using R P g unfolding tf by (auto simp: image_iff)
  show "\<forall>d h. tget (en_peers s) (n, d) = Some h \<and> tget (en_peers t) (n, d) \<noteq> None \<longrightarrow>
          tget (en_peers t) (n, d) = Some h \<and> link (sess t h) = link (sess s h)"
  proof (intro allI impI)
    fix d h assume a: "tget (en_peers s) (n, d) = Some h \<and> tget (en_peers t) (n, d) \<noteq> None"
    then have "tget (en_peers s1) (n, d) = Some h" "link (sess s1 h) = link (sess s h)"
      using R unfolding kept_def by blast+
    moreover have "d \<notin> set gone" using a P [OF conjunct1 [OF R]] unfolding tf by auto
    ultimately show "tget (en_peers t) (n, d) = Some h \<and> link (sess t h) = link (sess s h)"
      using P [OF conjunct1 [OF R]] unfolding tf by (metis snd_conv)
  qed
  show "\<forall>k d. k \<noteq> n \<longrightarrow> tget (en_peers t) (k, d) = tget (en_peers s) (k, d)
          \<and> (\<forall>h. tget (en_peers s) (k, d) = Some h \<longrightarrow> sess t h = sess s h)"
  proof (intro allI impI conjI)
    fix k d assume k: "k \<noteq> n"
    then show "tget (en_peers t) (k, d) = tget (en_peers s) (k, d)"
      using R P [OF conjunct1 [OF R]] unfolding tf by (metis fst_conv)
    fix h assume h: "tget (en_peers s) (k, d) = Some h"
    then have "tget (en_peers s1) (k, d) = Some h" "sess s1 h = sess s h"
      using R k unfolding kept_def by (metis fst_conv)+
    then show "sess t h = sess s h" using P [OF conjunct1 [OF R]] k unfolding tf by (metis fst_conv)
  qed
  have "tget (nc_ip_map ctx) a = map_option pi_device_id (find (\<lambda>i. vip_of i = a) (rev (filter (usable ext) infos)))"
    if "tget (en_networks t) n = Some ctx" for ctx a
  proof -
    have "nc_ip_map ctx = m" using that by (auto simp: t table_simps split: option.splits)
    then show ?thesis using R fp [of "filter (usable ext) infos" "[]" a] by (auto split: option.splits)
  qed
  then show "\<forall>ctx. tget (en_networks t) n = Some ctx \<longrightarrow> (\<forall>a. tget (nc_ip_map ctx) a =
          map_option pi_device_id (find (\<lambda>i. vip_of i = a) (rev (filter (usable ext) infos))))" by blast
qed

text \<open>
  C29 (functional). A refresh makes the peers of a network exactly the usable entries of the server's
  list. A peer that stays keeps its session, so its replay window, counters and path
  survive; the peers of other networks, the same device's included, are not touched;
  and the address map answers, for each address, the last usable entry that has it.
\<close>
theorem refresh_exact:
  assumes "engine_inv s" and "refresh_one_network ext boot n name (Some infos) s = Some t"
  shows "(\<forall>d. tget (en_peers t) (n, d) \<noteq> None \<longleftrightarrow> (\<exists>i\<in>set infos. usable ext i \<and> pi_device_id i = d))
    \<and> (\<forall>d h. tget (en_peers s) (n, d) = Some h \<and> tget (en_peers t) (n, d) \<noteq> None \<longrightarrow>
          tget (en_peers t) (n, d) = Some h \<and> link (sess t h) = link (sess s h))
    \<and> (\<forall>k d. k \<noteq> n \<longrightarrow> tget (en_peers t) (k, d) = tget (en_peers s) (k, d)
          \<and> (\<forall>h. tget (en_peers s) (k, d) = Some h \<longrightarrow> sess t h = sess s h))
    \<and> (\<forall>ctx. tget (en_networks t) n = Some ctx \<longrightarrow> (\<forall>a. tget (nc_ip_map ctx) a =
          map_option pi_device_id (find (\<lambda>i. vip_of i = a) (rev (filter (usable ext) infos)))))"
  using refresh_one_spec [OF assms] by blast

text \<open>
  Refreshing panics, and so aborts the node, when a new peer's public key is of low order:
  the key agreement then yields the zero secret, the derivation fails, and its
  failure is unwrapped. With no such key in the list it never panics.
\<close>
theorem refresh_panics_on_degenerate_key:
  assumes "tget (en_peers s) (n, pi_device_id info) = None" and "usable ext info"
    and "\<forall>b\<in>set (ex_dh ext (en_dh_priv s) (dh_of ext info)). b = 0"
  shows "refresh_one_network ext boot n name (Some (info # infos)) s = None"
proof -
  have "join_peer ext boot n name info (vip_of info) (dh_of ext info) s = None"
    using derive_rejects_zero [of "ex_dh ext" "ex_hkdf ext" "en_dh_priv s" "en_dh_pub s" "dh_of ext info" n] assms(3)
    by (simp add: join_peer_def)
  then show ?thesis
    using assms(1,2) by (simp add: refresh_one_network_def refresh_infos_step del: refresh_infos.simps)
qed

lemma served_dh: "served ext boot n name info s = Some t \<Longrightarrow> en_dh_priv t = en_dh_priv s \<and> en_dh_pub t = en_dh_pub s"
  by (auto simp: served_def join_peer_def Let_def upd_sess_def emit_def split: option.splits sum.splits)

lemma derive_total: "was_contributory (dh p k) \<Longrightarrow> \<exists>ks. derive dh hkdf p q k net = Inr ks"
  by (auto simp: derive_def Let_def split: prod.splits)

lemma refresh_no_panic:
  assumes "\<forall>i\<in>set infos. usable ext i \<longrightarrow> was_contributory (ex_dh ext (en_dh_priv s) (dh_of ext i))"
  shows "\<exists>t. refresh_one_network ext boot n name (Some infos) s = Some t"
proof -
  have "\<exists>r. refresh_infos ext boot n name infos (m, seen, s) = Some r" for m seen
    using assms
  proof (induction infos arbitrary: m seen s)
    case (Cons i infos)
    show ?case
    proof (cases "usable ext i")
      case False
      then show ?thesis using Cons by (simp add: refresh_infos_step del: refresh_infos.simps(2))
    next
      case True
      then have "was_contributory (ex_dh ext (en_dh_priv s) (dh_of ext i))" using Cons.prems by simp
      from derive_total [where dh = "ex_dh ext", OF this, of "ex_hkdf ext" "en_dh_pub s" n]
      obtain t where t: "served ext boot n name i s = Some t"
        by (cases "tget (en_peers s) (n, pi_device_id i)") (auto simp: served_def join_peer_def Let_def)
      then have "\<exists>r. refresh_infos ext boot n name infos (m', seen', t) = Some r" for m' seen'
        using Cons.IH Cons.prems served_dh [OF t] by simp
      then show ?thesis using t True
        unfolding refresh_infos_step served_def [symmetric] by simp
    qed
  qed simp
  then obtain r where r: "refresh_infos ext boot n name infos ([], {}, s) = Some r" by blast
  show ?thesis by (cases r) (simp add: refresh_one_network_def r Let_def)
qed

section \<open>Heartbeat\<close>

text \<open>
  The loss figure of a heartbeat is the share of lost frames in the window since the
  last one, rounded down to a ten-thousandth: between 0 and 10000, and absent exactly
  when there is no earlier sample, a counter went back, or no frame was due.
\<close>
theorem loss_exact:
  assumes "unat (c_seen - p_seen) + unat (c_lost - p_lost) < 2 ^ 64"
  shows "loss_permille (Some (p_seen, p_lost)) (c_seen, c_lost) =
     (if c_seen < p_seen \<or> c_lost < p_lost \<or> c_seen = p_seen \<and> c_lost = p_lost then None
      else Some (of_nat (unat (c_lost - p_lost) * 10000 div (unat (c_seen - p_seen) + unat (c_lost - p_lost)))))
    \<and> (\<forall>v. loss_permille (Some (p_seen, p_lost)) (c_seen, c_lost) = Some v \<longrightarrow> unat v \<le> 10000)"
proof -
  let ?s = "c_seen - p_seen" and ?l = "c_lost - p_lost"
  have t: "unat (?s + ?l) = unat ?s + unat ?l" using assms by (simp add: unat_word_ariths(1))
  have z: "?s + ?l = 0 \<longleftrightarrow> c_seen = p_seen \<and> c_lost = p_lost"
    using t by (metis add_eq_0_iff_both_eq_0 eq_iff_diff_eq_0 unat_eq_zero)
  have share: "y * 10000 div (x + y) \<le> 10000" for x y :: nat
  proof (cases "x + y = 0")
    case False
    have "y * 10000 div (x + y) \<le> 10000 * (x + y) div (x + y)" by (rule div_le_mono) simp
    also have "\<dots> = 10000" using False by (rule nonzero_mult_div_cancel_right)
    finally show ?thesis .
  qed simp
  note b = share [of "unat ?l" "unat ?s"]
  have u: "unat (of_nat (unat ?l * 10000 div (unat ?s + unat ?l)) :: u16) \<le> 10000"
    using b by (subst unat_of_nat) (simp add: order_le_less_trans [OF b])
  show ?thesis using z u by (auto simp: loss_permille_def Let_def t)
qed

theorem loss_exact_witness:
  "loss_permille (Some (10, 2)) (40, 12) = Some 2500"
  using loss_exact [of 40 10 12 2] by simp

text \<open>
  The samples of the last heartbeat are kept by device. Of a device that is a peer in
  two networks only the counters of one are kept, and at the next heartbeat those of
  the other are compared with them: with no traffic at all in between it reports a rate.
\<close>
theorem heartbeat_baseline_shared:
  assumes "en_peers s = [((n, d), h), ((n', d), h')]" and "0 \<le> se_rtt_ms (sess s h)" and "0 \<le> se_rtt_ms (sess s h')"
    and "se_tx_bytes (sess s h') \<le> se_tx_bytes (sess s h)"
  shows "\<exists>r r'. hb_paths (fst (heartbeat_request 12000 a v (snd (heartbeat_request 10000 a v s)))) = Some [r, r']
     \<and> pr_tx_bps r = Some (of_nat (unat (se_tx_bytes (sess s h) - se_tx_bytes (sess s h')) * 1000 div 2000))"
proof -
  have "\<not> se_tx_bytes (sess s h) < se_tx_bytes (sess s h')" using assms(4) by simp
  then show ?thesis
    using assms(1-3)
    by (simp add: heartbeat_request_def Let_def case_prod_beta path_report_def counters_of_def rate_bps_def rate_one_def
        table_simps)
qed

section \<open>Instances\<close>

definition demo_ctl :: Ext where
  "demo_ctl = demo_ext\<lparr>ex_hexdec := (\<lambda>_. Some (replicate 32 1))\<rparr>"

definition demo_info :: PeerInfo where
  "demo_info = \<lparr>pi_device_id = 9, pi_name = ''b'', pi_network_id = [1], pi_ip = show_ipv4 0x0A000002, pi_sign_pubkey = [],
     pi_dh_pubkey = [], pi_udp_endpoints = [], pi_tcp_listen_port = None, pi_online = True\<rparr>"

lemma usable_demo_info: "usable ext demo_info \<longleftrightarrow> (\<exists>k. ex_hexdec ext [] = Some k \<and> length k = 32)"
  by (simp add: usable_def demo_info_def parse_show_ipv4)

theorem refresh_exact_witness:
  "\<exists>t. refresh_one_network demo_ctl (\<lambda>_. toy_boot) [1] ''n'' (Some [demo_info]) (engine_new 5 [2] [3] Proxy [] 1) = Some t
     \<and> tget (en_peers t) ([1], 9) \<noteq> None \<and> tget (en_peers t) ([1], 8) = None"
proof -
  obtain t where t: "refresh_one_network demo_ctl (\<lambda>_. toy_boot) [1] ''n'' (Some [demo_info]) (engine_new 5 [2] [3] Proxy [] 1) = Some t"
    using refresh_no_panic [of "[demo_info]" demo_ctl "engine_new 5 [2] [3] Proxy [] 1" "\<lambda>_. toy_boot" "[1]" "''n''"]
    by (auto simp: demo_ctl_def demo_ext_def was_contributory_def)
  have u: "usable demo_ctl demo_info" by (simp add: usable_demo_info demo_ctl_def)
  have "\<forall>d. tget (en_peers t) ([1], d) \<noteq> None \<longleftrightarrow> (\<exists>i\<in>set [demo_info]. usable demo_ctl i \<and> pi_device_id i = d)"
    using refresh_exact [OF engine_inv_new t] by blast
  then have "tget (en_peers t) ([1], d) \<noteq> None \<longleftrightarrow> d = pi_device_id demo_info" for d
    using u by (auto simp del: not_None_eq)
  from this [of 9] this [of 8] show ?thesis
    using t by (intro exI [of _ t]) (simp add: demo_info_def)
qed

theorem refresh_panics_on_degenerate_key_witness:
  "refresh_one_network (demo_ctl\<lparr>ex_dh := (\<lambda>_ _. replicate 32 0)\<rparr>) (\<lambda>_. toy_boot) [1] ''n'' (Some [demo_info])
     (engine_new 5 [2] [3] Proxy [] 1) = None"
  by (rule refresh_panics_on_degenerate_key) (simp_all add: usable_demo_info demo_ctl_def engine_new_def)

end
