(* ===== verification/UdpMesh.thy ===== *)
theory UdpMesh
  imports RelayUdpProto
begin

text \<open>
  crates/skiff-node/src/transport/udp\_mesh.rs: the UDP sockets of a node. The
  operating system's answer to the k-th attempt to bind is the parameter
  \<open>os k want\<close> (the local address, None on failure); HMAC-SHA256 and the random
  nonce of a registration are parameters too. The queue of a writer task is part of
  the log um\_sent, with the number of the socket it belongs to.
\<close>

record UdpMesh =
  um_binds :: "SocketAddr list"
  um_local_port :: u16
  um_used_fallback_port :: bool
  um_relay_addr :: "SocketAddr option"
  um_register_creds :: "(u64 \<times> bytes) option"
  um_sent :: "(nat \<times> SocketAddr \<times> bytes) list"

section \<open>Binding\<close>

datatype BindError = NoAddresses | BindFailed SocketAddr | NothingBound

fun is_unspecified :: "SocketAddr \<Rightarrow> bool" where
  "is_unspecified (SocketAddrV4 a _) = (a = 0)"
| "is_unspecified (SocketAddrV6 s _ _) = (\<forall>x\<in>set s. x = 0)"

fun socket_port :: "SocketAddr \<Rightarrow> u16" where
  "socket_port (SocketAddrV4 _ p) = p"
| "socket_port (SocketAddrV6 _ _ p) = p"

fun any_port :: "SocketAddr \<Rightarrow> SocketAddr" where
  "any_port (SocketAddrV4 a _) = SocketAddrV4 a 0"
| "any_port (SocketAddrV6 s _ _) = SocketAddrV6 s 0 0"

fun bind_loop ::
  "(nat \<Rightarrow> SocketAddr \<Rightarrow> SocketAddr option) \<Rightarrow> nat \<Rightarrow> SocketAddr list \<Rightarrow> SocketAddr list \<Rightarrow> bool
   \<Rightarrow> BindError + SocketAddr list \<times> bool" where
  "bind_loop os k [] binds fallback = Inr (binds, fallback)"
| "bind_loop os k (want # rest) binds fallback =
     (if want \<in> set binds then bind_loop os k rest binds fallback
      else
        (case os k want of
           Some l \<Rightarrow> bind_loop os (k + 1) rest (binds @ [l]) fallback
         | None \<Rightarrow>
             (if is_unspecified want \<and> socket_port want \<noteq> 0 then
                (case os (k + 1) (any_port want) of
                   Some l \<Rightarrow> bind_loop os (k + 2) rest (binds @ [l]) True
                 | None \<Rightarrow> Inl (BindFailed (any_port want)))
              else if is_unspecified want \<and> socket_port want = 0 \<and> binds \<noteq> []
              then bind_loop os (k + 1) rest binds fallback
              else Inl (BindFailed want))))"

definition mesh_bind :: "(nat \<Rightarrow> SocketAddr \<Rightarrow> SocketAddr option) \<Rightarrow> SocketAddr list \<Rightarrow> BindError + UdpMesh" where
  "mesh_bind os addrs =
     (if addrs = [] then Inl NoAddresses
      else
        (case bind_loop os 0 addrs [] False of
           Inl e \<Rightarrow> Inl e
         | Inr (binds, fallback) \<Rightarrow>
             if binds = [] then Inl NothingBound
             else Inr \<lparr>um_binds = binds, um_local_port = socket_port (hd binds), um_used_fallback_port = fallback,
                        um_relay_addr = None, um_register_creds = None, um_sent = []\<rparr>))"

section \<open>Sending\<close>

definition enqueue :: "nat \<Rightarrow> SocketAddr \<Rightarrow> bytes \<Rightarrow> UdpMesh \<Rightarrow> UdpMesh" where
  "enqueue i dst p m = m\<lparr>um_sent := um_sent m @ [(i, dst, p)]\<rparr>"

definition writer_for :: "UdpMesh \<Rightarrow> SocketAddr \<Rightarrow> nat" where
  "writer_for m local = (case position (\<lambda>b. b = local) (um_binds m) of Some i \<Rightarrow> i | None \<Rightarrow> 0)"

definition configure_relay :: "SocketAddr \<Rightarrow> u64 \<Rightarrow> bytes \<Rightarrow> UdpMesh \<Rightarrow> UdpMesh" where
  "configure_relay relay_addr device_id relay_key m =
     m\<lparr>um_register_creds := Some (device_id, relay_key), um_relay_addr := Some relay_addr\<rparr>"

definition send_register :: "hmac \<Rightarrow> bytes \<Rightarrow> UdpMesh \<Rightarrow> UdpMesh" where
  "send_register h nonce m =
     (case um_register_creds m of
        None \<Rightarrow> m
      | Some (device_id, key) \<Rightarrow>
          (case um_relay_addr m of
             None \<Rightarrow> m
           | Some relay \<Rightarrow> enqueue 0 relay (build_register h device_id key nonce) m))"

definition send_relay :: "u64 \<Rightarrow> u64 \<Rightarrow> bytes \<Rightarrow> UdpMesh \<Rightarrow> UdpMesh" where
  "send_relay src_id dst_id frame m =
     (case um_relay_addr m of
        None \<Rightarrow> m
      | Some relay \<Rightarrow> enqueue 0 relay (build_relay src_id dst_id frame) m)"

definition send_direct :: "SocketAddr \<Rightarrow> bytes \<Rightarrow> UdpMesh \<Rightarrow> UdpMesh" where
  "send_direct endpoint frame m = enqueue 0 endpoint frame m"

definition send_direct_from :: "SocketAddr \<Rightarrow> SocketAddr \<Rightarrow> bytes \<Rightarrow> UdpMesh \<Rightarrow> UdpMesh" where
  "send_direct_from local endpoint frame m = enqueue (writer_for m local) endpoint frame m"

definition send_direct_all :: "SocketAddr \<Rightarrow> bytes \<Rightarrow> UdpMesh \<Rightarrow> UdpMesh" where
  "send_direct_all endpoint frame m =
     fold (\<lambda>i. enqueue i endpoint frame) [0..<length (um_binds m)] m"

section \<open>Receiving\<close>

datatype UdpInbound =
    ObservedEndpoint string
  | RelayFrame bytes
  | Direct bytes
  | Ignore

definition ack_endpoint :: "string \<Rightarrow> u16 \<Rightarrow> string" where
  "ack_endpoint ip port =
     (if CHR '':'' \<in> set ip \<and> take 1 ip \<noteq> ''[''
      then ''['' @ ip @ '']:'' @ dec_of_nat (unat port)
      else ip @ '':'' @ dec_of_nat (unat port))"

definition classify :: "SocketAddr \<Rightarrow> SocketAddr option \<Rightarrow> bytes \<Rightarrow> UdpInbound option" where
  "classify src relay packet = do {
     p \<leftarrow> relay_udp_parse packet;
     Some (if relay = Some src then
             (case p of
                Some (AckPkt ip port) \<Rightarrow> ObservedEndpoint (ack_endpoint ip port)
              | Some (RelayPkt _ _ frame) \<Rightarrow> RelayFrame frame
              | Some (ErrorPkt _) \<Rightarrow> Ignore
              | Some (RegisterPkt _) \<Rightarrow> Ignore
              | None \<Rightarrow> RelayFrame packet)
           else
             (case p of Some _ \<Rightarrow> Ignore | None \<Rightarrow> Direct packet)) }"

section \<open>Properties\<close>

lemma bind_loop_mono: "bind_loop os k addrs binds fb = Inr (bs, fb') \<Longrightarrow> \<exists>more. bs = binds @ more"
proof (induction os k addrs binds fb rule: bind_loop.induct)
  case (2 os k want rest binds fallback)
  from 2(5) show ?case
    by (auto split: if_splits option.splits dest: 2(1-4))
qed auto

text \<open>
  A mesh has a socket for every wildcard address and every address it does not skip; in
  particular it has a primary socket, so that the index of the primary writer never panics.
\<close>

lemma mesh_bind_primary: "mesh_bind os addrs = Inr m \<Longrightarrow> um_binds m \<noteq> [] \<and> um_local_port m = socket_port (um_binds m ! 0)"
  by (auto simp: mesh_bind_def hd_conv_nth split: if_splits sum.splits)

lemma writer_for_bound: "um_binds m \<noteq> [] \<Longrightarrow> writer_for m l < length (um_binds m)"
  by (auto simp: writer_for_def position_Some_iff split: option.split)

lemma classify_total: "\<exists>r. classify src relay p = Some r"
  using relay_udp_parse_total [of p] by (auto simp: classify_def)

text \<open>
  Classification is by the address a packet came from: a stranger can only hand in
  direct frames, and an observed endpoint is only taken from the relay's address.
\<close>

lemma classify_stranger:
  "relay \<noteq> Some src \<Longrightarrow> classify src relay p = Some r \<Longrightarrow> r = Ignore \<or> r = Direct p"
  by (auto simp: classify_def split: option.splits bind_splits)

lemma classify_wire_frame:
  assumes "p \<noteq> []" and "p ! 0 \<noteq> RELAY_MAGIC"
  shows "classify src relay p = Some (if relay = Some src then RelayFrame p else Direct p)"
  using assms by (simp add: classify_def relay_udp_parse_def)

end
