(* ===== verification/EndToEnd.thy ===== *)
theory EndToEnd
  imports EngineControlProps UdpRelay UdpMesh
begin

text \<open>
  Properties that span node, relay and peer: a packet of one node's TUN device through
  the UDP relay to the other's, the exchange that opens a direct UDP path, and what a
  registered device can make the relay deliver.
\<close>

section \<open>Two codecs of a link\<close>

text \<open>
  The receiver b has seen, of the sender a, only frames a has sent, all of its current
  boot; the counter has room for another frame.
\<close>

definition in_sync :: "PacketCodec \<Rightarrow> PacketCodec \<Rightarrow> bool" where
  "in_sync a b = (length (pc_boot_nonce a) = 16 \<and> send_key (pc_keys a) = recv_key (pc_keys b)
     \<and> unat (pc_send_counter a) + 1 < 2 ^ 64
     \<and> (\<exists>S. recv_at (pc_boot_nonce a) b S \<and> (\<forall>x\<in>S. x \<le> unat (pc_send_counter a))))"

lemma seal_opens:
  assumes c: "aead aenc adec" and s: "in_sync a b" and t: "frame_type_is_valid t"
    and f: "f = fst (seal aenc a d t m)"
  shows "\<exists>b'. try_open adec b f = Some (Some (d, t, m), b') \<and> pc_keys b' = pc_keys b
           \<and> pc_send_counter b' = pc_send_counter b \<and> pc_boot_nonce b' = pc_boot_nonce b"
    and "is_frame f" and "pkt_sender f = d" and "f ! 0 = WIRE_MAGIC"
proof -
  let ?n = "pc_send_counter a + 1"
  have l: "length (pc_boot_nonce a) = 16" using s by (simp add: in_sync_def)
  have n: "unat ?n = unat (pc_send_counter a) + 1" using s by (simp add: in_sync_def unat_word_ariths(1))
  have k: "send_key (pc_keys a) = recv_key (pc_keys b)" using s by (simp add: in_sync_def)
  have fb: "f = frame_bytes aenc (recv_key (pc_keys b)) d t (pc_boot_nonce a) ?n m"
    using f l k by (simp add: seal_eq Let_def)
  note ff = frame_fields [OF l c t fb]
  obtain S where S: "recv_at (pc_boot_nonce a) b S" "\<forall>x\<in>S. x < unat ?n"
    using s n by (fastforce simp: in_sync_def)
  have a1: "fst (admit_frame b (pc_boot_nonce a) ?n)" by (rule admit_newer(1) [OF S])
  have fr: "pc_send_counter (snd (admit_frame b p q)) = pc_send_counter b
      \<and> pc_boot_nonce (snd (admit_frame b p q)) = pc_boot_nonce b" for p q
    by (auto simp: admit_frame_def open_generation_def Let_def split: option.splits prod.splits)
  have "try_open adec b f = Some (Some (d, t, m), snd (admit_frame b (pc_boot_nonce a) ?n))"
    using ff a1 by (simp add: try_open_eq opened_def case_prod_beta)
  then show "\<exists>b'. try_open adec b f = Some (Some (d, t, m), b') \<and> pc_keys b' = pc_keys b
           \<and> pc_send_counter b' = pc_send_counter b \<and> pc_boot_nonce b' = pc_boot_nonce b"
    using fr by auto
  show "is_frame f" "pkt_sender f = d" "f ! 0 = WIRE_MAGIC" using ff by (simp_all add: is_frame_def)
qed

lemma handle_sealed:
  assumes "aead aenc (ex_adec ext)" and "in_sync a (se_codec (sess s h))" and "frame_type_is_valid t"
    and "f = fst (seal aenc a d t m)" and "candidates s d = [(n, h)]"
  shows "\<exists>c. handle_frame ext now arr f s
      = Some (handle_opened ext now arr (length f) n h t m (upd_sess h (se_codec_update (\<lambda>_. c)) s))
    \<and> pc_keys c = pc_keys (se_codec (sess s h)) \<and> pc_send_counter c = pc_send_counter (se_codec (sess s h))
    \<and> pc_boot_nonce c = pc_boot_nonce (se_codec (sess s h))"
proof -
  note so = seal_opens [OF assms(1-4)]
  obtain c where c: "try_open (ex_adec ext) (se_codec (sess s h)) f = Some (Some (d, t, m), c)"
    "pc_keys c = pc_keys (se_codec (sess s h))" "pc_send_counter c = pc_send_counter (se_codec (sess s h))"
    "pc_boot_nonce c = pc_boot_nonce (se_codec (sess s h))"
    using so(1) by blast
  then show ?thesis using so(2,3) assms(5)
    by (intro exI [of _ c]) (simp add: handle_frame_def try_parse_eq Let_def)
qed

lemma frame_types_valid: "frame_type_is_valid FRAME_PING" "frame_type_is_valid FRAME_PONG"
  "frame_type_is_valid FRAME_DATA" "frame_type_is_valid FRAME_FLOW"
  by (simp_all add: frame_type_is_valid_def wire_consts)

section \<open>Through the relay\<close>

text \<open>
  One hop over the UDP relay: a payload of any type that the session ha of node a sends on the
  relay path is forwarded by the server to the registered address of b and opened there.
\<close>

lemma relay_hop:
  assumes "aead (ex_aenc exta) (ex_adec extb)" and "frame_type_is_valid t"
    and "se_id (sess a ha) = en_device_id b"
    and "\<not> en_stopping a" and "en_device_id a \<noteq> en_device_id b"
    and "policy_for a (en_device_id b) = PathPolicy.RelayUdp
       \<or> policy_for a (en_device_id b) = PathPolicy.Auto \<and> se_current_path (sess a ha) = RelayUdp"
    and "candidates b (en_device_id a) = [(n', hb)]"
    and "in_sync (se_codec (sess a ha)) (se_codec (sess b hb))"
    and "tget (ur_registrations r) (en_device_id a) = Some ra" and "now2 \<le> rg_expires_ms ra"
    and "tget (ur_registrations r) (en_device_id b) = Some rb" and "now2 < rg_expires_ms rb"
  shows "\<exists>f a1 c. seal_for exta ha t m a = (f, a1)
     \<and> en_out (route_sealed now ha f a1) = en_out a @ [SendRelay (en_device_id a) (en_device_id b) f]
     \<and> fst (udp_handle hm lookup now2 ok (rg_endpoint ra) (build_relay (en_device_id a) (en_device_id b) f) r)
          = [(f, rg_endpoint rb)]
     \<and> classify relay (Some relay) f = Some (RelayFrame f)
     \<and> handle_frame extb now3 ArrRelayUdp f b = Some (handle_opened extb now3 ArrRelayUdp (length f) n' hb t m
          (upd_sess hb (se_codec_update (\<lambda>_. c)) b))"
proof -
  let ?f = "fst (seal (ex_aenc exta) (se_codec (sess a ha)) (en_device_id a) t m)"
  obtain a1 where s: "seal_for exta ha t m a = (?f, a1)"
    and a1: "policy_for a1 = policy_for a" "en_stopping a1 = en_stopping a" "en_device_id a1 = en_device_id a"
      "se_id (sess a1 ha) = se_id (sess a ha)" "en_out a1 = en_out a"
      "se_current_path (sess a1 ha) = se_current_path (sess a ha)"
    by (rule that [of "snd (seal_for exta ha t m a)"]) (simp_all add: seal_for_def case_prod_beta)
  have "route_path a1 (sess a1 ha) (policy_for a1 (se_id (sess a1 ha))) = Some RelayUdp"
    using assms(6) unfolding a1 assms(3) by (elim disjE conjE) (simp_all add: route_path_def a1)
  then have "route_sealed now ha ?f a1 = upd_sess ha (add_tx (length ?f))
      (emit (SendRelay (en_device_id a) (en_device_id b) ?f) a1)"
    using assms(4) unfolding route_sealed_def Let_def by (simp add: a1 assms(3))
  then have out: "en_out (route_sealed now ha ?f a1) = en_out a @ [SendRelay (en_device_id a) (en_device_id b) ?f]"
    using a1(5) by simp
  note so = seal_opens [OF assms(1,8,2) refl, of "en_device_id a" m]
  have fwd: "fst (udp_handle hm lookup now2 ok (rg_endpoint ra) (build_relay (en_device_id a) (en_device_id b) ?f) r)
      = [(?f, rg_endpoint rb)]"
    using assms(5,9-12)
    by (simp add: udp_handle_def relay_udp_parse_relay handle_relay_def Let_def table_simps)
  have "?f \<noteq> []" using so(2) by (auto simp: is_frame_def)
  then have cl: "classify relay (Some relay) ?f = Some (RelayFrame ?f)"
    using classify_wire_frame [of ?f relay "Some relay"] so(4) by (simp add: relay_consts wire_consts)
  show ?thesis using handle_sealed [OF assms(1,8,2) refl assms(7)] s out fwd cl by blast
qed

text \<open>
  C2 (functional). A packet that the system of one node sends to a peer's virtual address leaves the
  node as one frame for the relay; the relay forwards exactly this frame to the
  registered address of the peer; the peer takes it for relayed traffic and hands
  exactly the packet to its own system, and nothing else happens there.
\<close>
theorem packet_crosses_relay:
  assumes "aead (ex_aenc exta) (ex_adec extb)"
    and "20 \<le> length pkt" and "drop_bit 4 (pkt ! 0) = 4"
    and "peer_by_ip a (packet_dst pkt) = Some (n, ha)" and "se_id (sess a ha) = en_device_id b"
    and "\<not> en_stopping a" and "en_device_id a \<noteq> en_device_id b"
    and "policy_for a (en_device_id b) = PathPolicy.RelayUdp
       \<or> policy_for a (en_device_id b) = PathPolicy.Auto \<and> se_current_path (sess a ha) = RelayUdp"
    and "candidates b (en_device_id a) = [(n', hb)]"
    and "in_sync (se_codec (sess a ha)) (se_codec (sess b hb))"
    and "tget (ur_registrations r) (en_device_id a) = Some ra" and "now2 \<le> rg_expires_ms ra"
    and "tget (ur_registrations r) (en_device_id b) = Some rb" and "now2 < rg_expires_ms rb"
  shows "\<exists>frame b'. en_out (tun_packet exta now pkt a) = en_out a @ [SendRelay (en_device_id a) (en_device_id b) frame]
     \<and> fst (udp_handle hm lookup now2 ok (rg_endpoint ra) (build_relay (en_device_id a) (en_device_id b) frame) r)
          = [(frame, rg_endpoint rb)]
     \<and> classify relay (Some relay) frame = Some (RelayFrame frame)
     \<and> handle_frame extb now3 ArrRelayUdp frame b = Some b' \<and> en_out b' = en_out b @ [ToTun pkt]"
proof -
  obtain f a1 c where h: "seal_for exta ha FRAME_DATA pkt a = (f, a1)"
    "en_out (route_sealed now ha f a1) = en_out a @ [SendRelay (en_device_id a) (en_device_id b) f]"
    "fst (udp_handle hm lookup now2 ok (rg_endpoint ra) (build_relay (en_device_id a) (en_device_id b) f) r)
       = [(f, rg_endpoint rb)]"
    "classify relay (Some relay) f = Some (RelayFrame f)"
    "handle_frame extb now3 ArrRelayUdp f b = Some (handle_opened extb now3 ArrRelayUdp (length f) n' hb FRAME_DATA pkt
       (upd_sess hb (se_codec_update (\<lambda>_. c)) b))"
    using relay_hop [OF assms(1) frame_types_valid(3) assms(5-14)] by blast
  have "en_out (tun_packet exta now pkt a) = en_out a @ [SendRelay (en_device_id a) (en_device_id b) f]"
    using assms(2-4) h(1,2) by (simp add: tun_packet_def)
  moreover have "en_out (handle_opened extb now3 ArrRelayUdp (length f) n' hb FRAME_DATA pkt s) = en_out s @ [ToTun pkt]" for s
    by (simp add: handle_opened_def Let_def wire_consts)
  ultimately show ?thesis using h(3-5) by force
qed

section \<open>Opening a direct path\<close>

lemma i64_roundtrip: "- (2 ^ 63) \<le> t \<Longrightarrow> t < 2 ^ 63 \<Longrightarrow> i64_of_le (i64_to_le t) = t"
  by (simp add: i64_of_le_def i64_to_le_def sint_word_ariths signed_of_int signed_take_bit_int_eq_self)

lemma sint_u64: "- (2 ^ 63) \<le> x \<Longrightarrow> x < 2 ^ 63 \<Longrightarrow> sint (of_int x :: u64) = x"
  by (simp add: signed_of_int signed_take_bit_int_eq_self)

lemma i64_sub_exact: "- (2 ^ 63) \<le> a - b \<Longrightarrow> a - b < 2 ^ 63 \<Longrightarrow> i64_sub a b = a - b"
  unfolding i64_sub_def by (rule sint_u64)

lemma length_i64_to_le [simp]: "length (i64_to_le t) = 8"
  by (simp add: i64_to_le_def)

text \<open>
  C3 (liveness). The hole punch. A PING of one node that reaches the other from the address X on its
  socket L is answered, on the same socket and to the same address, by one PONG; when this
  reaches the first node from the address Y on its socket Z, and its policy lets it go
  direct, the session is on the direct UDP path to Y by Z, the round trip is the time
  between the two, and the peer counts as answering from that moment.
\<close>
theorem hole_punch:
  assumes "aead (ex_aenc exta) (ex_adec extb)" and "aead (ex_aenc extb) (ex_adec exta)"
    and "in_sync (se_codec (sess a ha)) (se_codec (sess b hb))"
    and "in_sync (se_codec (sess b hb)) (se_codec (sess a' ha))"
    and "candidates b (en_device_id a) = [(n, hb)]" and "candidates a' (en_device_id b) = [(n, ha)]"
    and "policy_allows (policy_for a' (se_id (sess a' ha))) DirectUdp"
    and "0 \<le> t0" and "t0 \<le> t2" and "t2 < 2 ^ 63" and "t2 - t0 < 600000"
    and "ping = fst (seal_for exta ha FRAME_PING (i64_to_le t0) a)"
  shows "\<exists>pong b' a''. handle_frame extb t1 (ArrDirectUdp X L) ping b = Some b'
     \<and> en_out b' = en_out b @ [SendDirectFrom L X pong]
     \<and> handle_frame exta t2 (ArrDirectUdp Y Z) pong a' = Some a''
     \<and> se_current_path (sess a'' ha) = DirectUdp \<and> se_direct_endpoint (sess a'' ha) = Some (Y, Z)
     \<and> se_rtt_ms (sess a'' ha) = t2 - t0 \<and> se_last_pong_ms (sess a'' ha) = t2"
proof -
  have ping: "ping = fst (seal (ex_aenc exta) (se_codec (sess a ha)) (en_device_id a) FRAME_PING (i64_to_le t0))"
    using assms(12) by (simp add: seal_for_def case_prod_beta)
  obtain c where hb: "handle_frame extb t1 (ArrDirectUdp X L) ping b
      = Some (handle_opened extb t1 (ArrDirectUdp X L) (length ping) n hb FRAME_PING (i64_to_le t0)
          (upd_sess hb (se_codec_update (\<lambda>_. c)) b))"
    and c: "pc_keys c = pc_keys (se_codec (sess b hb))" "pc_send_counter c = pc_send_counter (se_codec (sess b hb))"
      "pc_boot_nonce c = pc_boot_nonce (se_codec (sess b hb))"
    using handle_sealed [OF assms(1,3) frame_types_valid(1) ping assms(5)] by blast
  define pong where "pong = fst (seal (ex_aenc extb) (se_codec (sess b hb)) (en_device_id b) FRAME_PONG (i64_to_le t0))"
  have pong: "pong = fst (seal (ex_aenc extb) c (en_device_id b) FRAME_PONG (i64_to_le t0))"
    using c by (simp add: pong_def seal_def Let_def)
  have out: "en_out (handle_opened extb t1 (ArrDirectUdp X L) (length ping) n hb FRAME_PING (i64_to_le t0)
      (upd_sess hb (se_codec_update (\<lambda>_. c)) b)) = en_out b @ [SendDirectFrom L X pong]"
    by (simp add: handle_opened_def Let_def seal_for_def case_prod_beta reply_on_arrival_def pong add_rx_def)
  obtain c' where ha: "handle_frame exta t2 (ArrDirectUdp Y Z) pong a'
      = Some (handle_opened exta t2 (ArrDirectUdp Y Z) (length pong) n ha FRAME_PONG (i64_to_le t0)
          (upd_sess ha (se_codec_update (\<lambda>_. c')) a'))"
    using handle_sealed [OF assms(2,4) frame_types_valid(2) pong_def assms(6)] by blast
  have rtt: "i64_sub t2 (i64_of_le (i64_to_le t0)) = t2 - t0"
    using assms(8-11) by (simp add: i64_roundtrip i64_sub_exact)
  let ?s = "upd_sess ha (add_rx (length pong)) (upd_sess ha (se_codec_update (\<lambda>_. c')) a')"
  have ho: "handle_opened exta t2 (ArrDirectUdp Y Z) (length pong) n ha FRAME_PONG (i64_to_le t0)
          (upd_sess ha (se_codec_update (\<lambda>_. c')) a') = handle_pong exta t2 n ha (ArrDirectUdp Y Z) (i64_to_le t0) ?s"
    by (simp add: handle_opened_def Let_def wire_consts)
  have "se_current_path (sess (handle_pong exta t2 n ha (ArrDirectUdp Y Z) (i64_to_le t0) ?s) ha) = DirectUdp
      \<and> se_direct_endpoint (sess (handle_pong exta t2 n ha (ArrDirectUdp Y Z) (i64_to_le t0) ?s) ha) = Some (Y, Z)
      \<and> se_rtt_ms (sess (handle_pong exta t2 n ha (ArrDirectUdp Y Z) (i64_to_le t0) ?s) ha) = t2 - t0
      \<and> se_last_pong_ms (sess (handle_pong exta t2 n ha (ArrDirectUdp Y Z) (i64_to_le t0) ?s) ha) = t2"
    using assms(7,9,11) by (simp add: handle_pong_def Let_def rtt)
  then show ?thesis
    by (intro exI conjI) (rule hb, rule out, rule ha, unfold ho, blast+)
qed

section \<open>What the relay can be made to deliver\<close>

text \<open>
  The relay forwards any bytes as a frame. A registered device that sends another
  registered device a frame shaped like an ACK makes that node take over an observed
  endpoint of the sender's choice, although the node only trusts ACKs from the relay's address.
\<close>
theorem relayed_ack_sets_observed_endpoint:
  assumes "src \<noteq> dst" and "tget (ur_registrations r) src = Some rs" and "now \<le> rg_expires_ms rs"
    and "tget (ur_registrations r) dst = Some rd" and "now < rg_expires_ms rd"
    and "wf_str ip" and "length ip < 256"
  shows "\<exists>ack. fst (udp_handle hm lookup now ok (rg_endpoint rs) (build_relay src dst ack) r) = [(ack, rg_endpoint rd)]
     \<and> classify relay (Some relay) ack = Some (ObservedEndpoint (ack_endpoint ip port))"
proof -
  have "fst (udp_handle hm lookup now ok (rg_endpoint rs) (build_relay src dst (build_ack_packet ip port)) r)
      = [(build_ack_packet ip port, rg_endpoint rd)]"
    using assms(1-5) by (simp add: udp_handle_def relay_udp_parse_relay handle_relay_def Let_def table_simps)
  moreover have "classify relay (Some relay) (build_ack_packet ip port) = Some (ObservedEndpoint (ack_endpoint ip port))"
    using assms(6,7) by (simp add: classify_def relay_udp_parse_ack)
  ultimately show ?thesis by blast
qed

section \<open>Instances\<close>

definition demo_node :: "u64 \<Rightarrow> u64 \<Rightarrow> bytes \<Rightarrow> Engine" where
  "demo_node self peer boot = (engine_new self [] [] Tun [] 24933)
     \<lparr>en_peers := [(([1], peer), 0)],
      en_sessions := (\<lambda>_. peer_session_new peer [1] ''p'' 0x0A000002 [] toy_keys boot), en_next_session := 1,
      en_networks := [([1], \<lparr>nc_name = ''n'', nc_cidr = None, nc_self_ip = None, nc_ip_map = [(0x0A000002, peer)]\<rparr>)]\<rparr>"

definition demo_packet :: bytes where
  "demo_packet = 0x45 # replicate 15 0 @ [10, 0, 0, 2]"

definition demo_relay :: UdpRelay where
  "demo_relay = (udp_relay_new presence_new [])\<lparr>ur_registrations :=
     [(5, \<lparr>rg_endpoint = (1, 2), rg_expires_ms = 1000\<rparr>), (9, \<lparr>rg_endpoint = (3, 4), rg_expires_ms = 1000\<rparr>)]\<rparr>"

lemma demo_sync: "length boot = 16 \<Longrightarrow> in_sync (codec_new toy_keys boot) (codec_new toy_keys boot')"
  by (auto simp: in_sync_def codec_new_def toy_keys_def recv_at_def intro!: exI [of _ "{}"])

lemma demo_node_simps:
  "se_codec (sess (demo_node i p b) 0) = codec_new toy_keys b" "candidates (demo_node i p b) p = [([1], 0)]"
  "en_device_id (demo_node i p b) = i" "policy_for (demo_node i p b) d = PathPolicy.Auto"
  "se_id (sess (demo_node i p b) 0) = p" "\<not> en_stopping (demo_node i p b)" "en_out (demo_node i p b) = []"
  "se_current_path (sess (demo_node i p b) 0) = RelayUdp"
  by (simp_all add: demo_node_def demo_defs candidates_def)

lemma demo_packet_dst: "packet_dst demo_packet = 0x0A000002"
  by (simp add: demo_packet_def ipv4_of_octets_def nth_append nth_Cons')

lemma demo_peer_by_ip: "peer_by_ip (demo_node i p b) 0x0A000002 = Some ([1], 0)"
  by (simp add: peer_by_ip_def demo_node_def engine_new_def)

theorem packet_crosses_relay_witness:
  "\<exists>frame b'. en_out (tun_packet demo_ext 1 demo_packet (demo_node 5 9 toy_boot)) = [SendRelay 5 9 frame]
     \<and> handle_frame demo_ext 3 ArrRelayUdp frame (demo_node 9 5 toy_boot) = Some b' \<and> en_out b' = [ToTun demo_packet]"
proof -
  have "drop_bit 4 (demo_packet ! 0) = 4" "20 \<le> length demo_packet"
    by (simp_all add: demo_packet_def)
  then show ?thesis
    using packet_crosses_relay [of demo_ext demo_ext demo_packet "demo_node 5 9 toy_boot" "[1]" 0 "demo_node 9 5 toy_boot" "[1]" 0
        demo_relay "\<lparr>rg_endpoint = (1, 2), rg_expires_ms = 1000\<rparr>" 2 "\<lparr>rg_endpoint = (3, 4), rg_expires_ms = 1000\<rparr>" 1]
      demo_sync [of toy_boot] toy_aead
    by (simp add: demo_node_simps demo_packet_dst demo_peer_by_ip demo_ext_def demo_relay_def toy_boot_def) blast
qed

theorem hole_punch_witness:
  "\<exists>pong b' a''. handle_frame demo_ext 20 (ArrDirectUdp (SocketAddrV4 1 2) (SocketAddrV4 3 4))
       (fst (seal_for demo_ext 0 FRAME_PING (i64_to_le 10) (demo_node 5 9 toy_boot))) (demo_node 9 5 toy_boot) = Some b'
     \<and> handle_frame demo_ext 30 (ArrDirectUdp (SocketAddrV4 5 6) (SocketAddrV4 7 8)) pong (demo_node 5 9 toy_boot) = Some a''
     \<and> se_current_path (sess a'' 0) = DirectUdp \<and> se_rtt_ms (sess a'' 0) = 20"
proof -
  have "aead (ex_aenc demo_ext) (ex_adec demo_ext)" by (simp add: demo_ext_def toy_aead)
  moreover have "in_sync (codec_new toy_keys toy_boot) (codec_new toy_keys toy_boot)"
    by (rule demo_sync) (simp add: toy_boot_def)
  ultimately show ?thesis
    using hole_punch [of demo_ext demo_ext "demo_node 5 9 toy_boot" 0 "demo_node 9 5 toy_boot" 0 "demo_node 5 9 toy_boot" "[1]"
        10 30 _ 20 "SocketAddrV4 1 2" "SocketAddrV4 3 4" "SocketAddrV4 5 6" "SocketAddrV4 7 8", OF _ _ _ _ _ _ _ _ _ _ _ refl]
    by (simp add: demo_node_simps) blast
qed

theorem relayed_ack_sets_observed_endpoint_witness:
  "\<exists>ack. fst (udp_handle (\<lambda>_ _. []) (\<lambda>_. None) 2 True (1, 2) (build_relay 5 9 ack) demo_relay) = [(ack, (3, 4))]
     \<and> classify (SocketAddrV4 8 8) (Some (SocketAddrV4 8 8)) ack = Some (ObservedEndpoint (ack_endpoint ''6.6.6.6'' 66))"
proof -
  have "wf_str ''6.6.6.6''" unfolding wf_str_def by (rule utf8_valid_ascii) (simp add: as_bytes_def)
  then show ?thesis
    using relayed_ack_sets_observed_endpoint [of 5 9 demo_relay "\<lparr>rg_endpoint = (1, 2), rg_expires_ms = 1000\<rparr>" 2
        "\<lparr>rg_endpoint = (3, 4), rg_expires_ms = 1000\<rparr>" "''6.6.6.6''" "\<lambda>_ _. []" "\<lambda>_. None" True "SocketAddrV4 8 8" 66]
    by (simp add: demo_relay_def)
qed

end
