(* ===== verification/Flow.thy ===== *)
theory Flow
  imports Engine
begin

text \<open>
  crates/skiff-node/src/flow.rs: the flow manager of a node, which carries TCP streams and
  UDP datagrams inside FLOW frames. The state is FlowManager; what the manager sends,
  delivers or starts is appended to \<open>fl_out\<close>. The serial consumer is \<open>flow_consume\<close>; a
  connection attempt, a read of a local socket and the resend timer are operations of
  their own. Unbounded channels are numbered and their contents are the Deliver effects;
  the bounded channel of an initiated UDP flow is kept with its capacity.
\<close>

definition FLOW_MAX_DATAGRAM :: nat where "FLOW_MAX_DATAGRAM = 65400"

definition DATAGRAM_QUEUE :: nat where "DATAGRAM_QUEUE = 64"

section \<open>State\<close>

datatype FlowKind =
    OutTcp (open_reply: "nat option") (data_tx: nat)
  | InTcp (writer: nat)
  | UdpFlow (outbound: bool) (datagram_tx: nat)

record FlowCtx =
  fc_net_id :: NetId
  fc_peer :: u64
  fc_kind :: FlowKind
  fc_next_send_seq :: u32
  fc_next_recv_seq :: u32

datatype FlowLogMsg =
    FlowDrop u32 u8 nat
  | FlowSeqGap u32 u32 u32
  | FlowOpeningUdp u32 u64 string

datatype FlowEffect =
    FlowOut NetId u64 bytes
  | OpenReply nat "string + unit"
  | Deliver nat bytes
  | StartConnect u32 NetId u64 string
  | UdpSendTo nat SocketAddr bytes
  | FlowLog FlowLogMsg

record FlowManager =
  fl_flows :: "(u32, FlowCtx) table"
  fl_connecting :: "(u32, unit) table"
  fl_udp_locals :: "(NetId \<times> u32 \<times> u16, nat) table"
  fl_inbox :: "(NetId \<times> u64 \<times> bytes) list"
  fl_exposes :: "(NetId, ExposeRule list) table"
  fl_datagrams :: "(nat, (string \<times> bytes) list) table"
  fl_next_chan :: nat
  fl_out :: "FlowEffect list"

definition flow_manager_new :: FlowManager where
  "flow_manager_new =
     \<lparr>fl_flows = [], fl_connecting = [], fl_udp_locals = [], fl_inbox = [], fl_exposes = [],
      fl_datagrams = [], fl_next_chan = 0, fl_out = []\<rparr>"

definition flow_emit :: "FlowEffect \<Rightarrow> FlowManager \<Rightarrow> FlowManager" where
  "flow_emit e m = m\<lparr>fl_out := fl_out m @ [e]\<rparr>"

definition flow_ctx_new :: "NetId \<Rightarrow> u64 \<Rightarrow> FlowKind \<Rightarrow> FlowCtx" where
  "flow_ctx_new net_id peer kind =
     \<lparr>fc_net_id = net_id, fc_peer = peer, fc_kind = kind, fc_next_send_seq = 0, fc_next_recv_seq = 0\<rparr>"

section \<open>Sending and closing\<close>

definition flow_enqueue :: "NetId \<Rightarrow> u64 \<Rightarrow> bytes \<Rightarrow> FlowManager \<Rightarrow> FlowManager" where
  "flow_enqueue net_id peer payload m = m\<lparr>fl_inbox := fl_inbox m @ [(net_id, peer, payload)]\<rparr>"

definition set_exposes :: "NetId \<Rightarrow> ExposeRule list \<Rightarrow> FlowManager \<Rightarrow> FlowManager" where
  "set_exposes net_id rules m = m\<lparr>fl_exposes := tput net_id rules (fl_exposes m)\<rparr>"

text \<open>The first usable one of sixteen random numbers.\<close>

definition new_flow_id :: "u32 list \<Rightarrow> FlowManager \<Rightarrow> u32 option" where
  "new_flow_id draws m = List.find (\<lambda>i. i \<noteq> 0 \<and> tget (fl_flows m) i = None) (take 16 draws)"

definition send_frame :: "NetId \<Rightarrow> u64 \<Rightarrow> u32 \<Rightarrow> u8 \<Rightarrow> bytes \<Rightarrow> FlowManager \<Rightarrow> FlowManager" where
  "send_frame net_id peer flow_id flags payload m =
     (if FLOW_MAX_DATAGRAM < length payload then
        flow_emit (FlowLog (FlowDrop flow_id flags (length payload))) m
      else if flags = FLAG_DATA then
        (case tget (fl_flows m) flow_id of
           Some c \<Rightarrow>
             flow_emit (FlowOut net_id peer (flow_encode flow_id (fc_next_send_seq c) flags payload))
               (m\<lparr>fl_flows := tput flow_id (c\<lparr>fc_next_send_seq := fc_next_send_seq c + 1\<rparr>) (fl_flows m)\<rparr>)
         | None \<Rightarrow> flow_emit (FlowOut net_id peer (flow_encode flow_id 0 flags payload)) m)
      else flow_emit (FlowOut net_id peer (flow_encode flow_id 0 flags payload)) m)"

definition close_flow :: "u32 \<Rightarrow> bool \<Rightarrow> FlowManager \<Rightarrow> FlowManager" where
  "close_flow flow_id notify_peer m =
     (case tget (fl_flows m) flow_id of
        None \<Rightarrow> m
      | Some ctx \<Rightarrow>
          (let m1 = m\<lparr>fl_flows := tdel flow_id (fl_flows m)\<rparr>;
               m2 = (if notify_peer then send_frame (fc_net_id ctx) (fc_peer ctx) flow_id FLAG_CLOSE [] m1 else m1)
           in m2\<lparr>fl_udp_locals := tkeep (\<lambda>k _. fst (snd k) \<noteq> flow_id) (fl_udp_locals m2)\<rparr>))"

definition close_peer :: "NetId \<Rightarrow> u64 \<Rightarrow> FlowManager \<Rightarrow> FlowManager" where
  "close_peer net_id peer m =
     fold (\<lambda>i. close_flow i True)
       (map fst (filter (\<lambda>(_, c). fc_net_id c = net_id \<and> fc_peer c = peer) (fl_flows m))) m"

section \<open>Initiated flows\<close>

text \<open>
  open\_tcp: registration, one turn of the resending task (the OPEN, and after 700 ms
  whether to go on), and the end by the answer or the time-out. The reply channel of a
  flow and its data channel are two fresh numbers.
\<close>

definition open_tcp_start :: "u32 list \<Rightarrow> NetId \<Rightarrow> u64 \<Rightarrow> FlowManager \<Rightarrow> u32 option \<times> FlowManager" where
  "open_tcp_start draws net_id peer m =
     (case new_flow_id draws m of
        None \<Rightarrow> (None, m)
      | Some flow_id \<Rightarrow>
          (Some flow_id,
           m\<lparr>fl_flows := tput flow_id
                 (flow_ctx_new net_id peer (OutTcp (Some (fl_next_chan m)) (fl_next_chan m + 1))) (fl_flows m),
             fl_next_chan := fl_next_chan m + 2\<rparr>))"

definition open_resend :: "NetId \<Rightarrow> u64 \<Rightarrow> u32 \<Rightarrow> string \<Rightarrow> FlowManager \<Rightarrow> FlowManager" where
  "open_resend net_id peer flow_id dest m = send_frame net_id peer flow_id FLAG_OPEN (build_open PROTO_TCP dest) m"

definition open_resend_again :: "u32 \<Rightarrow> FlowManager \<Rightarrow> bool" where
  "open_resend_again flow_id m =
     (case tget (fl_flows m) flow_id of
        None \<Rightarrow> False
      | Some ctx \<Rightarrow> (case fc_kind ctx of OutTcp None _ \<Rightarrow> False | _ \<Rightarrow> True))"

text \<open>\<open>answer\<close>: what the reply channel gave within the time, None when nothing or it was dropped.\<close>

definition open_tcp_end :: "u32 \<Rightarrow> (string + unit) option \<Rightarrow> FlowManager \<Rightarrow> bool \<times> FlowManager" where
  "open_tcp_end flow_id answer m =
     (case answer of
        Some (Inr ()) \<Rightarrow> (True, m)
      | _ \<Rightarrow> (False, close_flow flow_id True m))"

definition open_udp :: "u32 list \<Rightarrow> NetId \<Rightarrow> u64 \<Rightarrow> string \<Rightarrow> FlowManager \<Rightarrow> (u32 \<times> nat) option \<times> FlowManager" where
  "open_udp draws net_id peer default_dest m =
     (case new_flow_id draws m of
        None \<Rightarrow> (None, m)
      | Some flow_id \<Rightarrow>
          (let ch = fl_next_chan m;
               m1 = m\<lparr>fl_flows := tput flow_id (flow_ctx_new net_id peer (UdpFlow True ch)) (fl_flows m),
                      fl_next_chan := ch + 1, fl_datagrams := tput ch [] (fl_datagrams m)\<rparr>;
               m2 = send_frame net_id peer flow_id FLAG_OPEN (build_open PROTO_UDP default_dest) m1
           in (Some (flow_id, ch), flow_emit (FlowLog (FlowOpeningUdp flow_id peer default_dest)) m2)))"

text \<open>The handles: UdpFlowSender and FlowStream.\<close>

definition udp_flow_send :: "NetId \<Rightarrow> u64 \<Rightarrow> u32 \<Rightarrow> string \<Rightarrow> bytes \<Rightarrow> FlowManager \<Rightarrow> FlowManager" where
  "udp_flow_send net_id peer flow_id dst data m =
     send_frame net_id peer flow_id FLAG_DATAGRAM (build_datagram dst data) m"

definition udp_flow_close :: "u32 \<Rightarrow> FlowManager \<Rightarrow> FlowManager" where
  "udp_flow_close flow_id m = close_flow flow_id True m"

definition stream_write :: "NetId \<Rightarrow> u64 \<Rightarrow> u32 \<Rightarrow> bytes \<Rightarrow> FlowManager \<Rightarrow> FlowManager" where
  "stream_write net_id peer flow_id chunk m = send_frame net_id peer flow_id FLAG_DATA chunk m"

definition stream_close :: "u32 \<Rightarrow> FlowManager \<Rightarrow> FlowManager" where
  "stream_close flow_id m = close_flow flow_id True m"

text \<open>A receive on the channel of an initiated UDP flow, and the drop of its receiver.\<close>

definition datagram_recv :: "nat \<Rightarrow> FlowManager \<Rightarrow> (string \<times> bytes) option \<times> FlowManager" where
  "datagram_recv ch m =
     (case tget (fl_datagrams m) ch of
        Some (d # ds) \<Rightarrow> (Some d, m\<lparr>fl_datagrams := tput ch ds (fl_datagrams m)\<rparr>)
      | _ \<Rightarrow> (None, m))"

definition datagram_drop_receiver :: "nat \<Rightarrow> FlowManager \<Rightarrow> FlowManager" where
  "datagram_drop_receiver ch m = m\<lparr>fl_datagrams := tdel ch (fl_datagrams m)\<rparr>"

section \<open>Accepted flows\<close>

text \<open>addr.rsplit(':').next() and the parse of the port\<close>

definition port_of :: "string \<Rightarrow> u16 option" where
  "port_of addr = parse_u16 (case rsplit_once CHR '':'' addr of Some (_, p) \<Rightarrow> p | None \<Rightarrow> addr)"

definition exposes_of :: "NetId \<Rightarrow> FlowManager \<Rightarrow> ExposeRule list" where
  "exposes_of net_id m = (case tget (fl_exposes m) net_id of Some rs \<Rightarrow> rs | None \<Rightarrow> [])"

definition find_expose :: "ProtoKind \<Rightarrow> u16 \<Rightarrow> ExposeRule list \<Rightarrow> ExposeRule option" where
  "find_expose proto port = List.find (\<lambda>e. er_proto e = proto \<and> er_port e = port)"

definition no_service_reason :: "u16 \<Rightarrow> string" where
  "no_service_reason port = ''no tcp service on port '' @ dec_of_nat (unat port)"

definition handle_open_tcp :: "NetId \<Rightarrow> u64 \<Rightarrow> u32 \<Rightarrow> u16 option \<Rightarrow> FlowManager \<Rightarrow> FlowManager" where
  "handle_open_tcp net_id peer flow_id dest_port m =
     (case dest_port of
        None \<Rightarrow> m
      | Some port \<Rightarrow>
          (case tget (fl_flows m) flow_id of
             Some ctx \<Rightarrow>
               (case fc_kind ctx of
                  InTcp _ \<Rightarrow> send_frame net_id peer flow_id FLAG_OPENED_OK [] m
                | _ \<Rightarrow> m)
           | None \<Rightarrow>
               (case find_expose ProtoKind.Tcp port (exposes_of net_id m) of
                  None \<Rightarrow> send_frame net_id peer flow_id FLAG_OPENED_FAIL (build_opened_fail (no_service_reason port)) m
                | Some expose \<Rightarrow>
                    (let m1 = m\<lparr>fl_connecting := tput flow_id () (fl_connecting m)\<rparr> in
                     if tget (fl_connecting m) flow_id \<noteq> None then m1
                     else flow_emit (StartConnect flow_id net_id peer (er_dest expose)) m1))))"

definition handle_open_udp :: "NetId \<Rightarrow> u64 \<Rightarrow> u32 \<Rightarrow> FlowManager \<Rightarrow> FlowManager" where
  "handle_open_udp net_id peer flow_id m =
     (if tget (fl_flows m) flow_id \<noteq> None then send_frame net_id peer flow_id FLAG_OPENED_OK [] m
      else send_frame net_id peer flow_id FLAG_OPENED_OK []
             (m\<lparr>fl_flows := tput flow_id (flow_ctx_new net_id peer (UdpFlow False (fl_next_chan m))) (fl_flows m),
                fl_next_chan := fl_next_chan m + 1\<rparr>))"

definition handle_open :: "NetId \<Rightarrow> u64 \<Rightarrow> u32 \<Rightarrow> bytes \<Rightarrow> FlowManager \<Rightarrow> FlowManager option" where
  "handle_open net_id peer flow_id payload m = do {
     info \<leftarrow> parse_open payload;
     Some (case info of
             None \<Rightarrow> m
           | Some (proto, addr) \<Rightarrow>
               if proto = PROTO_TCP then handle_open_tcp net_id peer flow_id (port_of addr) m
               else if proto = PROTO_UDP then handle_open_udp net_id peer flow_id m
               else m) }"

text \<open>The end of the connection attempt of an OPEN: accepted by the local service or not.\<close>

definition connect_done :: "bool \<Rightarrow> NetId \<Rightarrow> u64 \<Rightarrow> u32 \<Rightarrow> FlowManager \<Rightarrow> FlowManager" where
  "connect_done connected net_id peer flow_id m =
     (if connected then
        (let m1 = m\<lparr>fl_flows := tput flow_id (flow_ctx_new net_id peer (InTcp (fl_next_chan m))) (fl_flows m),
                    fl_next_chan := fl_next_chan m + 1\<rparr>;
             m2 = m1\<lparr>fl_connecting := tdel flow_id (fl_connecting m1)\<rparr>
         in send_frame net_id peer flow_id FLAG_OPENED_OK [] m2)
      else
        send_frame net_id peer flow_id FLAG_OPENED_FAIL (build_opened_fail ''local service unreachable'')
          (m\<lparr>fl_connecting := tdel flow_id (fl_connecting m)\<rparr>))"

text \<open>
  One turn of the reader of the local socket: what a read could give (nothing at the end of
  the stream or on an error) and the chunk size of the peer's path.
\<close>

definition local_read :: "nat \<Rightarrow> bytes \<Rightarrow> NetId \<Rightarrow> u64 \<Rightarrow> u32 \<Rightarrow> FlowManager \<Rightarrow> FlowManager" where
  "local_read chunk_hint avail net_id peer flow_id m =
     (let buf = take (min chunk_hint FLOW_CHUNK) avail in
      if buf = [] then close_flow flow_id True m
      else send_frame net_id peer flow_id FLAG_DATA buf m)"

text \<open>The writer of the local socket: the chunks until a write fails, then the shutdown.\<close>

fun local_writer_loop :: "(bytes \<times> bool) list \<Rightarrow> bytes" where
  "local_writer_loop [] = []"
| "local_writer_loop ((chunk, written) # rest) = (if written then chunk @ local_writer_loop rest else [])"

section \<open>Datagrams\<close>

definition udp_dest :: "ExposeRule \<Rightarrow> SocketAddr" where
  "udp_dest expose =
     (case parse_socket_addr (er_dest expose) of
        Some a \<Rightarrow> a
      | None \<Rightarrow> SocketAddrV4 0x7F000001 (er_port expose))"

text \<open>try\_send on the channel of an initiated flow: whether the datagram was taken.\<close>

definition datagram_try_send :: "nat \<Rightarrow> string \<times> bytes \<Rightarrow> FlowManager \<Rightarrow> bool \<times> FlowManager" where
  "datagram_try_send ch d m =
     (case tget (fl_datagrams m) ch of
        None \<Rightarrow> (False, m)
      | Some q \<Rightarrow>
          if length q < DATAGRAM_QUEUE
          then (True, m\<lparr>fl_datagrams := tput ch (q @ [d]) (fl_datagrams m)\<rparr>)
          else (False, m))"

text \<open>\<open>bound\<close>: the number of a fresh local socket, None when it cannot be bound.\<close>

definition deliver_local ::
  "(NetId \<Rightarrow> u32 option) \<Rightarrow> nat option \<Rightarrow> NetId \<Rightarrow> u32 \<Rightarrow> string \<Rightarrow> bytes \<Rightarrow> FlowManager \<Rightarrow> FlowManager" where
  "deliver_local self_ip bound net_id flow_id addr data m =
     (case port_of addr of
        None \<Rightarrow> m
      | Some dst_port \<Rightarrow>
          (case find_expose ProtoKind.Udp dst_port (exposes_of net_id m) of
             None \<Rightarrow> m
           | Some expose \<Rightarrow>
               (case self_ip net_id of
                  None \<Rightarrow> m
                | Some _ \<Rightarrow>
                    (case tget (fl_udp_locals m) (net_id, flow_id, dst_port) of
                       Some sock \<Rightarrow> flow_emit (UdpSendTo sock (udp_dest expose) data) m
                     | None \<Rightarrow>
                         (case bound of
                            None \<Rightarrow> m
                          | Some sock \<Rightarrow>
                              flow_emit (UdpSendTo sock (udp_dest expose) data)
                                (m\<lparr>fl_udp_locals := tput (net_id, flow_id, dst_port) sock (fl_udp_locals m)\<rparr>))))))"

definition handle_datagram ::
  "(NetId \<Rightarrow> u32 option) \<Rightarrow> nat option \<Rightarrow> NetId \<Rightarrow> u64 \<Rightarrow> u32 \<Rightarrow> bytes \<Rightarrow> FlowManager \<Rightarrow> FlowManager option" where
  "handle_datagram self_ip bound net_id peer flow_id payload m = do {
     info \<leftarrow> parse_datagram payload;
     Some (case info of
             None \<Rightarrow> m
           | Some (addr, data) \<Rightarrow>
               (let (handled, m1) =
                      (case tget (fl_flows m) flow_id of
                         Some ctx \<Rightarrow>
                           (case fc_kind ctx of
                              UdpFlow True ch \<Rightarrow> datagram_try_send ch (addr, data) m
                            | _ \<Rightarrow> (False, m))
                       | None \<Rightarrow> (False, m))
                in if handled then m1 else deliver_local self_ip bound net_id flow_id addr data m1)) }"

text \<open>A datagram the local service sent back, and the end of the loop that waits for one.\<close>

definition udp_local_reply :: "u32 \<Rightarrow> bytes \<Rightarrow> NetId \<Rightarrow> u64 \<Rightarrow> u32 \<Rightarrow> u16 \<Rightarrow> FlowManager \<Rightarrow> FlowManager" where
  "udp_local_reply self_ip data net_id peer flow_id dst_port m =
     send_frame net_id peer flow_id FLAG_DATAGRAM (build_datagram (show_sockaddr_v4 self_ip dst_port) data) m"

definition udp_local_end :: "NetId \<Rightarrow> u32 \<Rightarrow> u16 \<Rightarrow> FlowManager \<Rightarrow> FlowManager" where
  "udp_local_end net_id flow_id dst_port m =
     m\<lparr>fl_udp_locals := tdel (net_id, flow_id, dst_port) (fl_udp_locals m)\<rparr>"

section \<open>Received frames\<close>

definition flow_opened :: "u32 \<Rightarrow> u8 \<Rightarrow> bytes \<Rightarrow> FlowManager \<Rightarrow> FlowManager" where
  "flow_opened flow_id flags payload m =
     (case tget (fl_flows m) flow_id of
        Some ctx \<Rightarrow>
          (case fc_kind ctx of
             OutTcp (Some tx) ch \<Rightarrow>
               flow_emit (OpenReply tx (if flags = FLAG_OPENED_OK then Inr () else Inl (from_utf8_lossy payload)))
                 (m\<lparr>fl_flows := tput flow_id (ctx\<lparr>fc_kind := OutTcp None ch\<rparr>) (fl_flows m)\<rparr>)
           | _ \<Rightarrow> m)
      | None \<Rightarrow> m)"

definition handle_data :: "u32 \<Rightarrow> u32 \<Rightarrow> bytes \<Rightarrow> FlowManager \<Rightarrow> FlowManager" where
  "handle_data flow_id seq payload m =
     (let in_order = (\<lambda>ctx ch.
            if seq \<noteq> fc_next_recv_seq ctx
            then (True, flow_emit (FlowLog (FlowSeqGap flow_id (fc_next_recv_seq ctx) seq)) m)
            else (False, flow_emit (Deliver ch payload)
                    (m\<lparr>fl_flows := tput flow_id (ctx\<lparr>fc_next_recv_seq := fc_next_recv_seq ctx + 1\<rparr>) (fl_flows m)\<rparr>)));
          (kill, m1) =
            (case tget (fl_flows m) flow_id of
               Some ctx \<Rightarrow>
                 (case fc_kind ctx of
                    OutTcp _ ch \<Rightarrow> in_order ctx ch
                  | InTcp ch \<Rightarrow> in_order ctx ch
                  | UdpFlow _ _ \<Rightarrow> (True, m))
             | None \<Rightarrow> (False, m))
      in if kill then close_flow flow_id True m1 else m1)"

definition on_frame ::
  "(NetId \<Rightarrow> u32 option) \<Rightarrow> nat option \<Rightarrow> NetId \<Rightarrow> u64 \<Rightarrow> bytes \<Rightarrow> FlowManager \<Rightarrow> FlowManager option" where
  "on_frame self_ip bound net_id peer payload m = do {
     decoded \<leftarrow> flow_decode payload;
     (case decoded of
        None \<Rightarrow> Some m
      | Some msg \<Rightarrow>
          if fm_flags msg = FLAG_OPEN then handle_open net_id peer (fm_flow_id msg) (fm_payload msg) m
          else if fm_flags msg = FLAG_OPENED_OK \<or> fm_flags msg = FLAG_OPENED_FAIL
          then Some (flow_opened (fm_flow_id msg) (fm_flags msg) (fm_payload msg) m)
          else if fm_flags msg = FLAG_CLOSE then Some (close_flow (fm_flow_id msg) False m)
          else if fm_flags msg = FLAG_DATA then Some (handle_data (fm_flow_id msg) (fm_seq msg) (fm_payload msg) m)
          else if fm_flags msg = FLAG_DATAGRAM
          then handle_datagram self_ip bound net_id peer (fm_flow_id msg) (fm_payload msg) m
          else Some m) }"

text \<open>The consumer: one frame of the inbox at a time, in the order they were put there.\<close>

definition flow_consume :: "(NetId \<Rightarrow> u32 option) \<Rightarrow> nat option \<Rightarrow> FlowManager \<Rightarrow> FlowManager option" where
  "flow_consume self_ip bound m =
     (case fl_inbox m of
        [] \<Rightarrow> Some m
      | (net_id, peer, payload) # rest \<Rightarrow> on_frame self_ip bound net_id peer payload (m\<lparr>fl_inbox := rest\<rparr>))"

end
