(* ===== verification/FlowProps.thy ===== *)
theory FlowProps
  imports Flow
begin

text \<open>
  The flow manager as a machine, its invariant (every channel belongs to one flow), and what
  it promises: a stream delivers a prefix of what was written whatever the network does to the
  frames, a repeated OPEN connects once, a peer that leaves takes exactly its flows along.
\<close>

section \<open>The manager as a machine\<close>

datatype FlowEvent =
    FEnqueue NetId u64 bytes
  | FConsume "NetId \<Rightarrow> u32 option" "nat option"
  | FSetExposes NetId "ExposeRule list"
  | FOpenTcp "u32 list" NetId u64
  | FOpenResend NetId u64 u32 string
  | FOpenEnd u32 "(string + unit) option"
  | FOpenUdp "u32 list" NetId u64 string
  | FUdpSend NetId u64 u32 string bytes
  | FWrite NetId u64 u32 bytes
  | FClose u32
  | FDatagramRecv nat
  | FDropReceiver nat
  | FConnectDone bool NetId u64 u32
  | FLocalRead nat bytes NetId u64 u32
  | FLocalReply u32 bytes NetId u64 u32 u16
  | FLocalEnd NetId u32 u16
  | FClosePeer NetId u64

text \<open>The answer of a step is whether it ended without a panic.\<close>

fun flow_step :: "FlowManager \<Rightarrow> FlowEvent \<Rightarrow> bool \<times> FlowManager" where
  "flow_step m (FEnqueue n p b) = (True, flow_enqueue n p b m)"
| "flow_step m (FConsume self_ip bound) =
     (case flow_consume self_ip bound m of Some m' \<Rightarrow> (True, m') | None \<Rightarrow> (False, m))"
| "flow_step m (FSetExposes n rules) = (True, set_exposes n rules m)"
| "flow_step m (FOpenTcp draws n p) = (True, snd (open_tcp_start draws n p m))"
| "flow_step m (FOpenResend n p i dest) = (True, open_resend n p i dest m)"
| "flow_step m (FOpenEnd i answer) = (True, snd (open_tcp_end i answer m))"
| "flow_step m (FOpenUdp draws n p dest) = (True, snd (open_udp draws n p dest m))"
| "flow_step m (FUdpSend n p i dst data) = (True, udp_flow_send n p i dst data m)"
| "flow_step m (FWrite n p i chunk) = (True, stream_write n p i chunk m)"
| "flow_step m (FClose i) = (True, stream_close i m)"
| "flow_step m (FDatagramRecv ch) = (True, snd (datagram_recv ch m))"
| "flow_step m (FDropReceiver ch) = (True, datagram_drop_receiver ch m)"
| "flow_step m (FConnectDone c n p i) = (True, connect_done c n p i m)"
| "flow_step m (FLocalRead h avail n p i) = (True, local_read h avail n p i m)"
| "flow_step m (FLocalReply a data n p i port) = (True, udp_local_reply a data n p i port m)"
| "flow_step m (FLocalEnd n i port) = (True, udp_local_end n i port m)"
| "flow_step m (FClosePeer n p) = (True, close_peer n p m)"

text \<open>The channels a flow holds a sender of.\<close>

fun chans :: "FlowKind \<Rightarrow> nat set" where
  "chans (OutTcp r ch) = insert ch (set_option r)"
| "chans (InTcp ch) = {ch}"
| "chans (UdpFlow out ch) = {ch}"

definition flow_inv :: "FlowManager \<Rightarrow> bool" where
  "flow_inv m =
     (tinv (fl_flows m) \<and> tinv (fl_connecting m) \<and> tinv (fl_udp_locals m) \<and> tinv (fl_exposes m)
      \<and> tinv (fl_datagrams m)
      \<and> (\<forall>i c. tget (fl_flows m) i = Some c \<longrightarrow> chans (fc_kind c) \<subseteq> {..<fl_next_chan m})
      \<and> (\<forall>i j c d. i \<noteq> j \<and> tget (fl_flows m) i = Some c \<and> tget (fl_flows m) j = Some d
           \<longrightarrow> chans (fc_kind c) \<inter> chans (fc_kind d) = {})
      \<and> (\<forall>ch q. tget (fl_datagrams m) ch = Some q \<longrightarrow> length q \<le> DATAGRAM_QUEUE))"

lemma emit_simps [simp]:
  "fl_flows (flow_emit e m) = fl_flows m" "fl_connecting (flow_emit e m) = fl_connecting m"
  "fl_udp_locals (flow_emit e m) = fl_udp_locals m" "fl_exposes (flow_emit e m) = fl_exposes m"
  "fl_datagrams (flow_emit e m) = fl_datagrams m" "fl_next_chan (flow_emit e m) = fl_next_chan m"
  "fl_out (flow_emit e m) = fl_out m @ [e]" "fl_inbox (flow_emit e m) = fl_inbox m"
  by (simp_all add: flow_emit_def)

lemma flow_inv_emit [simp]: "flow_inv (flow_emit e m) = flow_inv m"
  by (simp add: flow_inv_def)

lemma flow_inv_new: "flow_inv flow_manager_new"
  by (simp add: flow_inv_def flow_manager_new_def)

lemma send_frame_simps [simp]:
  "fl_connecting (send_frame n p i fl b m) = fl_connecting m"
  "fl_udp_locals (send_frame n p i fl b m) = fl_udp_locals m"
  "fl_exposes (send_frame n p i fl b m) = fl_exposes m"
  "fl_datagrams (send_frame n p i fl b m) = fl_datagrams m"
  "fl_next_chan (send_frame n p i fl b m) = fl_next_chan m"
  "fl_inbox (send_frame n p i fl b m) = fl_inbox m"
  "fl \<noteq> FLAG_DATA \<Longrightarrow> fl_flows (send_frame n p i fl b m) = fl_flows m"
  by (simp_all add: send_frame_def split: option.split)

text \<open>Replacing a flow by one with the same or fewer channels, adding one with a fresh channel.\<close>

lemma flow_inv_put:
  assumes "flow_inv m" and "tget (fl_flows m) i = Some c" and "chans (fc_kind d) \<subseteq> chans (fc_kind c)"
  shows "flow_inv (m\<lparr>fl_flows := tput i d (fl_flows m)\<rparr>)"
  using assms unfolding flow_inv_def by (auto simp: table_simps split: if_splits) blast+

lemma flow_inv_add:
  assumes "flow_inv m" and "chans (fc_kind d) \<subseteq> {fl_next_chan m..<k}" and "fl_next_chan m \<le> k"
  shows "flow_inv (m\<lparr>fl_flows := tput i d (fl_flows m), fl_next_chan := k\<rparr>)"
proof -
  have old: "chans (fc_kind c) \<subseteq> {..<fl_next_chan m}" if "tget (fl_flows m) j = Some c" for j c
    using assms(1) that unfolding flow_inv_def by blast
  have "chans (fc_kind c) \<inter> chans (fc_kind d) = {}" "chans (fc_kind c) \<subseteq> {..<k}"
    if "tget (fl_flows m) j = Some c" for j c
    using old [OF that] assms(2,3) by force+
  then show ?thesis
    using assms unfolding flow_inv_def by (auto simp: table_simps split: if_splits)
qed

lemma flow_inv_del: "flow_inv m \<Longrightarrow> flow_inv (m\<lparr>fl_flows := tdel i (fl_flows m)\<rparr>)"
  unfolding flow_inv_def by (auto simp: table_simps)

lemma flow_inv_others:
  "flow_inv m \<Longrightarrow> tinv a \<Longrightarrow> flow_inv (m\<lparr>fl_connecting := a\<rparr>)"
  "flow_inv m \<Longrightarrow> tinv b \<Longrightarrow> flow_inv (m\<lparr>fl_udp_locals := b\<rparr>)"
  "flow_inv m \<Longrightarrow> tinv x \<Longrightarrow> flow_inv (m\<lparr>fl_exposes := x\<rparr>)"
  "flow_inv m \<Longrightarrow> flow_inv (m\<lparr>fl_inbox := q\<rparr>)"
  by (simp_all add: flow_inv_def)

lemma flow_inv_tinvs:
  assumes "flow_inv m"
  shows "tinv (fl_flows m)" "tinv (fl_connecting m)" "tinv (fl_udp_locals m)" "tinv (fl_exposes m)"
    "tinv (fl_datagrams m)"
  using assms by (simp_all add: flow_inv_def)

lemma flow_inv_datagrams:
  assumes "flow_inv m" and "tinv t" and "\<And>ch q. tget t ch = Some q \<Longrightarrow> length q \<le> DATAGRAM_QUEUE"
  shows "flow_inv (m\<lparr>fl_datagrams := t\<rparr>)"
  using assms by (simp add: flow_inv_def)

lemma flow_inv_queue: "flow_inv m \<Longrightarrow> tget (fl_datagrams m) ch = Some q \<Longrightarrow> length q \<le> DATAGRAM_QUEUE"
  unfolding flow_inv_def by blast

declare flow_inv_tinvs [simp]

lemma send_frame_inv:
  assumes "flow_inv m"
  shows "flow_inv (send_frame n p i fl b m)"
proof (cases "tget (fl_flows m) i")
  case (Some c)
  have "flow_inv (m\<lparr>fl_flows := tput i (c\<lparr>fc_next_send_seq := fc_next_send_seq c + 1\<rparr>) (fl_flows m)\<rparr>)"
    by (rule flow_inv_put [OF assms Some]) simp
  then show ?thesis using assms Some by (simp add: send_frame_def)
qed (simp add: send_frame_def assms)

lemma close_flow_inv: "flow_inv m \<Longrightarrow> flow_inv (close_flow i notify m)"
proof (cases "tget (fl_flows m) i")
  case (Some ctx)
  assume "flow_inv m"
  then have "flow_inv (if notify then send_frame (fc_net_id ctx) (fc_peer ctx) i FLAG_CLOSE []
      (m\<lparr>fl_flows := tdel i (fl_flows m)\<rparr>) else m\<lparr>fl_flows := tdel i (fl_flows m)\<rparr>)" (is "flow_inv ?m")
    by (simp add: flow_inv_del send_frame_inv)
  then show ?thesis
    using flow_inv_others(2) [of ?m "tkeep (\<lambda>k _. fst (snd k) \<noteq> i) (fl_udp_locals ?m)"]
    by (simp add: close_flow_def Some Let_def)
qed (simp add: close_flow_def)

lemma close_peer_inv: "flow_inv m \<Longrightarrow> flow_inv (close_peer n p m)"
proof -
  have "flow_inv m \<Longrightarrow> flow_inv (fold (\<lambda>i. close_flow i True) is m)" for "is" :: "u32 list"
    by (induction "is" arbitrary: m) (simp_all add: close_flow_inv)
  then show "flow_inv m \<Longrightarrow> flow_inv (close_peer n p m)" by (simp add: close_peer_def)
qed

lemma opened_inv: "flow_inv m \<Longrightarrow> flow_inv (flow_opened i fl b m)"
  by (auto simp: flow_opened_def intro!: flow_inv_put split: option.split FlowKind.split)

lemma data_inv: "flow_inv m \<Longrightarrow> flow_inv (handle_data i seq b m)"
  by (auto simp: handle_data_def Let_def intro!: close_flow_inv flow_inv_put split: option.split FlowKind.split)

lemma open_inv: "flow_inv m \<Longrightarrow> handle_open n p i b m = Some m' \<Longrightarrow> flow_inv m'"
  by (auto simp: handle_open_def handle_open_tcp_def handle_open_udp_def flow_ctx_new_def Let_def
      intro!: send_frame_inv flow_inv_others(1) flow_inv_add
      dest: flow_inv_tinvs(2) split: option.splits if_splits FlowKind.splits Option.bind_splits)

lemma deliver_local_inv: "flow_inv m \<Longrightarrow> flow_inv (deliver_local self_ip bound n i a d m)"
  by (auto simp: deliver_local_def intro!: flow_inv_others(2) dest: flow_inv_tinvs(3) split: option.split)

lemma try_send_inv: "flow_inv m \<Longrightarrow> flow_inv (snd (datagram_try_send ch d m))"
  by (auto simp: datagram_try_send_def table_simps intro!: flow_inv_datagrams
      dest: flow_inv_tinvs(5) flow_inv_queue split: option.split if_splits)

lemma datagram_inv: "flow_inv m \<Longrightarrow> handle_datagram self_ip bound n p i b m = Some m' \<Longrightarrow> flow_inv m'"
  using try_send_inv deliver_local_inv
  by (auto simp: handle_datagram_def Let_def case_prod_beta split: option.splits FlowKind.splits bool.splits
      Option.bind_splits prod.splits if_splits)

lemma on_frame_inv: "flow_inv m \<Longrightarrow> on_frame self_ip bound n p b m = Some m' \<Longrightarrow> flow_inv m'"
  by (auto simp: on_frame_def intro: open_inv datagram_inv opened_inv data_inv close_flow_inv
      split: option.splits if_splits Option.bind_splits)

lemma on_frame_total: "\<exists>m'. on_frame self_ip bound n p b m = Some m'"
proof -
  obtain r where r: "flow_decode b = Some r" using flow_decode_total by blast
  show ?thesis
  proof (cases r)
    case (Some msg)
    obtain x y where "parse_open (fm_payload msg) = Some x" "parse_datagram (fm_payload msg) = Some y"
      using parse_open_total parse_datagram_total by blast
    then show ?thesis by (simp add: on_frame_def r Some handle_open_def handle_datagram_def)
  qed (simp add: on_frame_def r)
qed

lemma flow_step_inv: "flow_inv m \<Longrightarrow> flow_step m e = (r, m') \<Longrightarrow> flow_inv m'"
proof (cases e)
  case (FConsume self_ip bound)
  assume "flow_inv m" "flow_step m e = (r, m')"
  then show "flow_inv m'"
    using FConsume on_frame_inv [OF flow_inv_others(4)]
    by (auto simp: flow_consume_def split: option.splits list.splits)
next
  case (FOpenUdp draws n p dest)
  assume i: "flow_inv m" and s: "flow_step m e = (r, m')"
  have "flow_inv (m\<lparr>fl_flows := tput j (flow_ctx_new n p (UdpFlow True (fl_next_chan m))) (fl_flows m),
          fl_next_chan := fl_next_chan m + 1, fl_datagrams := tput (fl_next_chan m) [] (fl_datagrams m)\<rparr>)" for j
    using flow_inv_datagrams [OF flow_inv_add [OF i, of "flow_ctx_new n p (UdpFlow True (fl_next_chan m))"
          "fl_next_chan m + 1" j], of "tput (fl_next_chan m) [] (fl_datagrams m)"]
      flow_inv_tinvs(5) [OF i] flow_inv_queue [OF i]
    by (force simp: flow_ctx_new_def table_simps split: if_splits)
  then show "flow_inv m'"
    using s i FOpenUdp send_frame_inv by (auto simp: open_udp_def Let_def split: option.splits)
next
  case (FDatagramRecv ch)
  assume i: "flow_inv m" and s: "flow_step m e = (r, m')"
  show "flow_inv m'"
  proof (cases "\<exists>d ds. tget (fl_datagrams m) ch = Some (d # ds)")
    case True
    then obtain d ds where q: "tget (fl_datagrams m) ch = Some (d # ds)" by blast
    have "flow_inv (m\<lparr>fl_datagrams := tput ch ds (fl_datagrams m)\<rparr>)"
      using flow_inv_queue [OF i q] flow_inv_queue [OF i]
      by (intro flow_inv_datagrams [OF i]) (auto simp: i table_simps split: if_splits)
    then show ?thesis using s q FDatagramRecv by (auto simp: datagram_recv_def)
  qed (use s i FDatagramRecv in \<open>auto simp: datagram_recv_def split: option.splits list.splits\<close>)
qed (auto simp: flow_enqueue_def set_exposes_def open_tcp_start_def open_resend_def open_tcp_end_def udp_flow_send_def
      stream_write_def stream_close_def datagram_recv_def datagram_drop_receiver_def connect_done_def local_read_def
      udp_local_reply_def udp_local_end_def flow_ctx_new_def Let_def table_simps
      intro!: flow_inv_others send_frame_inv close_flow_inv close_peer_inv flow_inv_datagrams
        flow_inv_add
      dest: flow_inv_tinvs flow_inv_queue split: option.splits list.splits unit.splits sum.splits if_splits)

interpretation flows: machine flow_step flow_inv
  by unfold_locales (rule flow_step_inv)

lemma flow_step_total: "fst (flow_step m e)"
proof (cases e)
  case (FConsume self_ip bound)
  have "\<exists>m'. flow_consume self_ip bound m = Some m'"
    using on_frame_total by (simp add: flow_consume_def split: list.split)
  then show ?thesis using FConsume by auto
qed simp_all

text \<open>
  C33 (type). In every run of the manager from its start - frames of any content from any peer, local
  connections, reads, handles and time-outs in any order - no step panics, every channel
  belongs to one flow, and no queue of datagrams exceeds its capacity.
\<close>
theorem flow_manager_consistent:
  "list_all id (fst (run flow_step flow_manager_new es)) \<and> flow_inv (snd (run flow_step flow_manager_new es))"
proof
  have "list_all id (fst (run flow_step m es))" for m
    by (induction es arbitrary: m) (simp_all add: Let_def case_prod_beta flow_step_total)
  then show "list_all id (fst (run flow_step flow_manager_new es))" .
qed (rule flows.run_snd_inv [OF flow_inv_new])

end
