(* ===== verification/FlowStreams.thy ===== *)
theory FlowStreams
  imports FlowProps
begin

text \<open>
  TCP streams over FLOW frames: what arrives is a prefix of what was written, whatever the
  network loses, repeats or reorders; which frames connect the local service.
\<close>

section \<open>The written frames\<close>

definition frames_of :: "FlowManager \<Rightarrow> bytes list" where
  "frames_of m = List.map_filter (\<lambda>e. case e of FlowOut _ _ b \<Rightarrow> Some b | _ \<Rightarrow> None) (fl_out m)"

definition delivered :: "nat \<Rightarrow> FlowManager \<Rightarrow> bytes list" where
  "delivered ch m = List.map_filter (\<lambda>e. case e of Deliver c b \<Rightarrow> if c = ch then Some b else None | _ \<Rightarrow> None) (fl_out m)"

definition connects :: "u32 \<Rightarrow> FlowManager \<Rightarrow> nat" where
  "connects i m = length (filter (\<lambda>e. case e of StartConnect j _ _ _ \<Rightarrow> j = i | _ \<Rightarrow> False) (fl_out m))"

text \<open>The frames that writing the chunks xs on a flow sends.\<close>

definition written :: "NetId \<Rightarrow> u64 \<Rightarrow> u32 \<Rightarrow> bytes list \<Rightarrow> FlowManager \<Rightarrow> bytes list" where
  "written n p i xs a = drop (length (frames_of a)) (frames_of (fold (stream_write n p i) xs a))"

definition data_frame :: "u32 \<Rightarrow> nat \<Rightarrow> bytes \<Rightarrow> bytes" where
  "data_frame i k c = flow_encode i (of_nat k) FLAG_DATA c"

lemma frames_of_emit [simp]:
  "frames_of (flow_emit e m) = frames_of m @ (case e of FlowOut _ _ b \<Rightarrow> [b] | _ \<Rightarrow> [])"
  by (cases e) (simp_all add: frames_of_def map_filter_def)

lemma frames_of_same [simp]:
  "frames_of (m\<lparr>fl_flows := x\<rparr>) = frames_of m" "frames_of (m\<lparr>fl_udp_locals := u\<rparr>) = frames_of m"
  "frames_of (m\<lparr>fl_connecting := y\<rparr>) = frames_of m" "frames_of (m\<lparr>fl_next_chan := k\<rparr>) = frames_of m"
  by (simp_all add: frames_of_def)

lemma delivered_emit [simp]:
  "delivered ch (flow_emit e m) = delivered ch m @ (case e of Deliver c b \<Rightarrow> if c = ch then [b] else [] | _ \<Rightarrow> [])"
  by (cases e) (simp_all add: delivered_def map_filter_def)

lemma delivered_same [simp]:
  "delivered ch (m\<lparr>fl_flows := x\<rparr>) = delivered ch m" "delivered ch (m\<lparr>fl_udp_locals := u\<rparr>) = delivered ch m"
  "delivered ch (m\<lparr>fl_connecting := y\<rparr>) = delivered ch m" "delivered ch (m\<lparr>fl_next_chan := k\<rparr>) = delivered ch m"
  "delivered ch (m\<lparr>fl_datagrams := q\<rparr>) = delivered ch m"
  by (simp_all add: delivered_def)

lemma write_once:
  assumes "tget (fl_flows a) i = Some c" and "length x \<le> FLOW_MAX_DATAGRAM"
  shows "frames_of (stream_write n p i x a) = frames_of a @ [flow_encode i (fc_next_send_seq c) FLAG_DATA x]"
    and "tget (fl_flows (stream_write n p i x a)) i = Some (c\<lparr>fc_next_send_seq := fc_next_send_seq c + 1\<rparr>)"
  using assms by (simp_all add: stream_write_def send_frame_def table_simps)

lemma write_all:
  assumes "tget (fl_flows a) i = Some c" and "fc_next_send_seq c = of_nat k"
    and "list_all (\<lambda>x. length x \<le> FLOW_MAX_DATAGRAM) xs"
  shows "frames_of (fold (stream_write n p i) xs a) = frames_of a @ map (\<lambda>(j, x). data_frame i j x) (enumerate k xs)"
  using assms
proof (induction xs arbitrary: a c k)
  case (Cons x xs)
  then have l: "length x \<le> FLOW_MAX_DATAGRAM" "list_all (\<lambda>x. length x \<le> FLOW_MAX_DATAGRAM) xs" by simp_all
  show ?case
    using Cons.IH [OF write_once(2) [OF Cons.prems(1) l(1)], where k = "Suc k"] Cons.prems(2) l(2)
    by (simp add: write_once(1) [OF Cons.prems(1) l(1)] data_frame_def add.commute)
qed simp

lemma written_eq:
  assumes "tget (fl_flows a) i = Some c" and "fc_next_send_seq c = 0"
    and "list_all (\<lambda>x. length x \<le> FLOW_MAX_DATAGRAM) xs"
  shows "written n p i xs a = map (\<lambda>(j, x). data_frame i j x) (enumerate 0 xs)"
  using write_all [OF assms(1) _ assms(3), of 0] assms(2) by (simp add: written_def)

section \<open>Frames of other flows\<close>

text \<open>Flow i and what its channel was given are untouched.\<close>

definition spares :: "u32 \<Rightarrow> nat \<Rightarrow> FlowManager \<Rightarrow> FlowManager \<Rightarrow> bool" where
  "spares i ch m m' = (tget (fl_flows m') i = tget (fl_flows m) i \<and> delivered ch m' = delivered ch m)"

lemma spares_send: "j \<noteq> i \<or> fl \<noteq> FLAG_DATA \<Longrightarrow> spares i ch m (send_frame n p j fl b m)"
  by (auto simp: spares_def send_frame_def table_simps split: option.split)

lemma spares_trans: "spares i ch m m' \<Longrightarrow> spares i ch m' m'' \<Longrightarrow> spares i ch m m''"
  by (simp add: spares_def)

lemma spares_put: "j \<noteq> i \<Longrightarrow> spares i ch m (m\<lparr>fl_flows := tput j c (fl_flows m)\<rparr>)"
  by (simp add: spares_def table_simps)

lemma spares_close: "j \<noteq> i \<Longrightarrow> spares i ch m (close_flow j notify m)"
  using spares_send [of j i FLAG_CLOSE ch]
  by (auto simp: close_flow_def spares_def table_simps Let_def split: option.split)

lemma spares_open_tcp: "j \<noteq> i \<Longrightarrow> spares i ch m (handle_open_tcp n p j port m)"
  using spares_send [of j i _ ch m n p]
  by (simp add: handle_open_tcp_def spares_def Let_def split: option.split FlowKind.split)

lemma spares_open_udp:
  assumes "j \<noteq> i"
  shows "spares i ch m (handle_open_udp n p j m)"
proof -
  let ?m = "m\<lparr>fl_flows := tput j (flow_ctx_new n p (UdpFlow False (fl_next_chan m))) (fl_flows m),
               fl_next_chan := fl_next_chan m + 1\<rparr>"
  have "spares i ch m ?m" using assms by (simp add: spares_def table_simps)
  then have "spares i ch m (send_frame n p j FLAG_OPENED_OK [] ?m)"
    using spares_trans spares_send assms by blast
  then show ?thesis using spares_send assms by (auto simp: handle_open_udp_def)
qed

lemma spares_refl: "spares i ch m m"
  by (simp add: spares_def)

lemma spares_open:
  assumes "j \<noteq> i" and "handle_open n p j b m = Some m'"
  shows "spares i ch m m'"
proof -
  obtain r where r: "parse_open b = Some r" using parse_open_total by blast
  show ?thesis
  proof (cases r)
    case (Some x)
    obtain proto addr where "x = (proto, addr)" by force
    then have "m' = (if proto = PROTO_TCP then handle_open_tcp n p j (port_of addr) m
        else if proto = PROTO_UDP then handle_open_udp n p j m else m)"
      using assms(2) r Some by (simp add: handle_open_def)
    then show ?thesis using spares_open_tcp [OF assms(1)] spares_open_udp [OF assms(1)] spares_refl by simp
  qed (use assms(2) r spares_refl in \<open>auto simp: handle_open_def\<close>)
qed

lemma spares_opened:
  assumes "j \<noteq> i"
  shows "spares i ch m (flow_opened j fl b m)"
proof (cases "tget (fl_flows m) j")
  case (Some ctx)
  show ?thesis
  proof (cases "\<exists>tx c. fc_kind ctx = OutTcp (Some tx) c")
    case True
    then show ?thesis using Some assms by (auto simp: flow_opened_def spares_def table_simps)
  next
    case False
    then have "flow_opened j fl b m = m"
      using Some by (simp add: flow_opened_def split: option.split FlowKind.split)
    then show ?thesis by (simp add: spares_refl)
  qed
qed (simp add: flow_opened_def spares_refl)

lemma spares_try_send: "spares i ch m (snd (datagram_try_send c d m))"
  by (simp add: datagram_try_send_def spares_def split: option.split)

lemma spares_local: "spares i ch m (deliver_local self_ip bound n j a d m)"
  by (simp add: deliver_local_def spares_def split: option.split)

lemma spares_datagram:
  assumes "handle_datagram self_ip bound n p j b m = Some m'"
  shows "spares i ch m m'"
proof -
  obtain r where r: "parse_datagram b = Some r" using parse_datagram_total by blast
  show ?thesis
  proof (cases r)
    case (Some x)
    obtain addr data where x: "x = (addr, data)" by force
    obtain handled m1 where h: "(case tget (fl_flows m) j of Some ctx \<Rightarrow> (case fc_kind ctx of
        UdpFlow True ch \<Rightarrow> datagram_try_send ch (addr, data) m | _ \<Rightarrow> (False, m)) | None \<Rightarrow> (False, m))
      = (handled, m1)" by force
    have "spares i ch m m1"
      using h spares_try_send [of i ch m] spares_refl
      by (auto split: option.splits FlowKind.splits bool.splits) (metis snd_conv)
    moreover have "m' = (if handled then m1 else deliver_local self_ip bound n j addr data m1)"
      using assms r Some x h by (simp add: handle_datagram_def)
    ultimately show ?thesis using spares_trans spares_local by auto
  qed (use assms r spares_refl in \<open>auto simp: handle_datagram_def\<close>)
qed

lemma spares_data:
  assumes "j \<noteq> i" and "flow_inv m" and "tget (fl_flows m) i = Some c" and "ch \<in> chans (fc_kind c)"
  shows "spares i ch m (handle_data j seq b m)"
proof (cases "tget (fl_flows m) j")
  case (Some d)
  have "ch \<notin> chans (fc_kind d)" using assms Some unfolding flow_inv_def by blast
  then have e: "spares i ch m (flow_emit (Deliver x b) (m\<lparr>fl_flows := tput j y (fl_flows m)\<rparr>))"
    if "x \<in> chans (fc_kind d)" for x y
    using that assms(1) by (auto simp: spares_def table_simps)
  have "spares i ch m (close_flow j True (flow_emit (FlowLog z) m))" for z
    using spares_close [OF assms(1), of ch "flow_emit (FlowLog z) m" True] by (simp add: spares_def)
  then show ?thesis
    using Some e spares_close [OF assms(1)]
    by (cases "fc_kind d") (auto simp: handle_data_def Let_def)
qed (simp add: handle_data_def spares_def)

lemma spares_frame:
  assumes "flow_decode b = Some (Some msg)" and "fm_flow_id msg \<noteq> i \<or> fm_flags msg = FLAG_DATAGRAM"
    and "flow_inv m" and "tget (fl_flows m) i = Some c" and "ch \<in> chans (fc_kind c)"
    and "on_frame self_ip bound n p b m = Some m'"
  shows "spares i ch m m'"
proof (cases "fm_flags msg = FLAG_DATAGRAM")
  case True
  then show ?thesis using assms(1,6) spares_datagram by (simp add: on_frame_def flow_consts)
next
  case False
  then have "fm_flow_id msg \<noteq> i" using assms(2) by simp
  then show ?thesis
    using assms spares_open spares_opened spares_close spares_data spares_datagram
    by (auto simp: on_frame_def split: if_splits) (auto simp: spares_def)
qed

section \<open>A channel that no flow has any more\<close>

definition gone :: "nat \<Rightarrow> FlowManager \<Rightarrow> bool" where
  "gone ch m = (ch < fl_next_chan m \<and> (\<forall>j c. tget (fl_flows m) j = Some c \<longrightarrow> ch \<notin> chans (fc_kind c)))"

text \<open>The channel stays gone and gets nothing.\<close>

definition silent :: "nat \<Rightarrow> FlowManager \<Rightarrow> FlowManager \<Rightarrow> bool" where
  "silent ch m m' = (gone ch m' \<and> delivered ch m' = delivered ch m)"

lemma silent_refl: "gone ch m \<Longrightarrow> silent ch m m"
  by (simp add: silent_def)

lemma silent_trans: "silent ch m m' \<Longrightarrow> silent ch m' m'' \<Longrightarrow> silent ch m m''"
  by (simp add: silent_def)

lemma gone_put: "gone ch m \<Longrightarrow> ch \<notin> chans (fc_kind c) \<Longrightarrow> gone ch (m\<lparr>fl_flows := tput j c (fl_flows m)\<rparr>)"
  by (simp add: gone_def table_simps)

lemma gone_emit [simp]: "gone ch (flow_emit e m) = gone ch m"
  by (simp add: gone_def)

lemma silent_send: "gone ch m \<Longrightarrow> silent ch m (send_frame n p j fl b m)"
proof (cases "tget (fl_flows m) j")
  case (Some c)
  assume g: "gone ch m"
  then have "ch \<notin> chans (fc_kind c)" using Some unfolding gone_def by blast
  then show ?thesis using g Some gone_put [OF g, of "c\<lparr>fc_next_send_seq := fc_next_send_seq c + 1\<rparr>" j]
    by (simp add: send_frame_def silent_def)
qed (simp add: send_frame_def silent_def)

lemma gone_del: "gone ch m \<Longrightarrow> gone ch (m\<lparr>fl_flows := tdel j (fl_flows m)\<rparr>)"
  by (simp add: gone_def table_simps)

lemma gone_others [simp]:
  "gone ch (m\<lparr>fl_udp_locals := u\<rparr>) = gone ch m" "gone ch (m\<lparr>fl_connecting := y\<rparr>) = gone ch m"
  "gone ch (m\<lparr>fl_datagrams := q\<rparr>) = gone ch m"
  by (simp_all add: gone_def)

lemma silent_close:
  assumes "gone ch m"
  shows "silent ch m (close_flow j notify m)"
proof (cases "tget (fl_flows m) j")
  case (Some c)
  then show ?thesis
    using silent_send [OF gone_del [OF assms, of j], of "fc_net_id c" "fc_peer c" j FLAG_CLOSE "[]"] gone_del [OF assms]
    by (simp add: close_flow_def silent_def Let_def)
qed (simp add: close_flow_def silent_refl assms)

lemma silent_open_tcp: "gone ch m \<Longrightarrow> silent ch m (handle_open_tcp n p j port m)"
  using silent_send [of ch m n p j] silent_refl [of ch m]
  by (simp add: handle_open_tcp_def silent_def Let_def split: option.split FlowKind.split)

lemma silent_open_udp:
  assumes "gone ch m"
  shows "silent ch m (handle_open_udp n p j m)"
proof -
  let ?m = "m\<lparr>fl_flows := tput j (flow_ctx_new n p (UdpFlow False (fl_next_chan m))) (fl_flows m),
               fl_next_chan := fl_next_chan m + 1\<rparr>"
  have "silent ch m ?m" using assms by (auto simp: silent_def gone_def table_simps flow_ctx_new_def)
  then have "silent ch m (send_frame n p j FLAG_OPENED_OK [] ?m)"
    using silent_trans silent_send silent_def by blast
  then show ?thesis using silent_send assms by (simp add: handle_open_udp_def)
qed

lemma silent_opened:
  assumes "gone ch m"
  shows "silent ch m (flow_opened j fl b m)"
proof (cases "tget (fl_flows m) j")
  case (Some ctx)
  then have a: "ch \<notin> chans (fc_kind ctx)" using assms unfolding gone_def by blast
  show ?thesis
  proof (cases "\<exists>tx c. fc_kind ctx = OutTcp (Some tx) c")
    case True
    then obtain tx c where k: "fc_kind ctx = OutTcp (Some tx) c" by blast
    have "gone ch (m\<lparr>fl_flows := tput j (ctx\<lparr>fc_kind := OutTcp None c\<rparr>) (fl_flows m)\<rparr>)"
      using gone_put [OF assms] a k by simp
    then show ?thesis using Some k by (simp add: flow_opened_def silent_def)
  next
    case False
    then have "flow_opened j fl b m = m"
      using Some by (simp add: flow_opened_def split: option.split FlowKind.split)
    then show ?thesis by (simp add: silent_refl assms)
  qed
qed (simp add: flow_opened_def silent_refl assms)

lemma silent_data:
  assumes "gone ch m"
  shows "silent ch m (handle_data j seq b m)"
proof (cases "tget (fl_flows m) j")
  case (Some d)
  then have a: "ch \<notin> chans (fc_kind d)" using assms unfolding gone_def by blast
  have e: "silent ch m (flow_emit (Deliver x b) (m\<lparr>fl_flows := tput j (d\<lparr>fc_next_recv_seq := y\<rparr>) (fl_flows m)\<rparr>))"
    if "x \<in> chans (fc_kind d)" for x y
    using that a gone_put [OF assms] by (auto simp: silent_def)
  have "silent ch m (close_flow j True (flow_emit (FlowLog z) m))" for z
    using silent_close [of ch "flow_emit (FlowLog z) m" j True] assms by (simp add: silent_def)
  then show ?thesis
    using Some e silent_close [OF assms]
    by (cases "fc_kind d") (auto simp: handle_data_def Let_def)
qed (simp add: handle_data_def silent_refl assms)

lemma silent_datagram:
  assumes "gone ch m" and "handle_datagram self_ip bound n p j b m = Some m'"
  shows "silent ch m m'"
proof -
  have same: "fl_next_chan m' = fl_next_chan m \<and> fl_flows m' = fl_flows m"
  proof -
    obtain r where r: "parse_datagram b = Some r" using parse_datagram_total by blast
    have 1: "fl_next_chan (snd (datagram_try_send c d m)) = fl_next_chan m \<and> fl_flows (snd (datagram_try_send c d m)) = fl_flows m" for c d
      by (simp add: datagram_try_send_def split: option.split)
    have 2: "fl_next_chan (deliver_local self_ip bound n j a d x) = fl_next_chan x \<and> fl_flows (deliver_local self_ip bound n j a d x) = fl_flows x" for a d x
      by (simp add: deliver_local_def split: option.split)
    show ?thesis
      using assms(2) r 1 2
      by (auto simp: handle_datagram_def split: option.splits FlowKind.splits bool.splits prod.splits) (metis snd_conv)+
  qed
  moreover have "delivered ch m' = delivered ch m"
    using spares_datagram [OF assms(2)] by (simp add: spares_def)
  ultimately show ?thesis using assms(1) by (simp add: silent_def gone_def)
qed

lemma silent_frame:
  assumes "gone ch m" and "on_frame self_ip bound n p b m = Some m'"
  shows "silent ch m m'"
proof -
  obtain r where r: "flow_decode b = Some r" using flow_decode_total by blast
  show ?thesis
  proof (cases r)
    case (Some msg)
    obtain x where x: "parse_open (fm_payload msg) = Some x" using parse_open_total by blast
    have o: "silent ch m m'" if "handle_open n p (fm_flow_id msg) (fm_payload msg) m = Some m'"
      using that x silent_refl [OF assms(1)] silent_open_tcp [OF assms(1)] silent_open_udp [OF assms(1)]
      by (auto simp: handle_open_def split: option.splits if_splits)
    show ?thesis
      using assms(2) r Some o silent_opened [OF assms(1)] silent_close [OF assms(1)] silent_data [OF assms(1)]
        silent_datagram [OF assms(1)] silent_refl [OF assms(1)]
      by (auto simp: on_frame_def split: if_splits)
  qed (use assms(2) r silent_refl [OF assms(1)] in \<open>auto simp: on_frame_def\<close>)
qed

section \<open>Streams deliver a prefix\<close>

text \<open>Frames received one after the other, each with its sender, as \<open>flow_consume\<close> takes them.\<close>

type_synonym Received = "nat option \<times> NetId \<times> u64 \<times> bytes"

fun receive_all :: "(NetId \<Rightarrow> u32 option) \<Rightarrow> Received list \<Rightarrow> FlowManager \<Rightarrow> FlowManager option" where
  "receive_all self_ip [] m = Some m"
| "receive_all self_ip ((bound, n, p, b) # fs) m =
     Option.bind (on_frame self_ip bound n p b m) (receive_all self_ip fs)"

definition frame_is :: "u32 \<Rightarrow> u8 \<Rightarrow> bytes \<Rightarrow> bool" where
  "frame_is i fl b = (case flow_decode b of Some (Some msg) \<Rightarrow> fm_flow_id msg = i \<and> fm_flags msg = fl | _ \<Rightarrow> False)"

text \<open>The DATA frames of flow i among what was received.\<close>

definition data_of :: "u32 \<Rightarrow> Received list \<Rightarrow> bytes list" where
  "data_of i fs = filter (frame_is i FLAG_DATA) (map (\<lambda>(_, _, _, b). b) fs)"

lemma data_of_simps [simp]:
  "data_of i [] = []"
  "data_of i ((bound, n, p, b) # fs) = (if frame_is i FLAG_DATA b then b # data_of i fs else data_of i fs)"
  by (simp_all add: data_of_def)

fun stream_chan :: "FlowKind \<Rightarrow> nat option" where
  "stream_chan (OutTcp _ ch) = Some ch"
| "stream_chan (InTcp ch) = Some ch"
| "stream_chan (UdpFlow _ _) = None"

definition streaming :: "u32 \<Rightarrow> nat \<Rightarrow> nat \<Rightarrow> FlowManager \<Rightarrow> bool" where
  "streaming i ch k m =
     (case tget (fl_flows m) i of
        Some c \<Rightarrow> stream_chan (fc_kind c) = Some ch \<and> fc_next_recv_seq c = of_nat k
      | None \<Rightarrow> False)"

lemma stream_chan_in: "stream_chan k = Some ch \<Longrightarrow> ch \<in> chans k"
  by (cases k) auto

lemma streaming_spared: "spares i ch m m' \<Longrightarrow> streaming i ch k m \<Longrightarrow> streaming i ch k m'"
  by (simp add: spares_def streaming_def)

lemma closed_gone:
  assumes "flow_inv m" and "streaming i ch k m"
  shows "silent ch m (close_flow i notify m)"
proof -
  obtain c where c: "tget (fl_flows m) i = Some c" "ch \<in> chans (fc_kind c)"
    using assms(2) stream_chan_in by (auto simp: streaming_def split: option.splits)
  have "gone ch (m\<lparr>fl_flows := tdel i (fl_flows m)\<rparr>)"
    using assms(1) c unfolding gone_def flow_inv_def by (auto simp: table_simps) blast
  then show ?thesis
    using silent_send [of ch "m\<lparr>fl_flows := tdel i (fl_flows m)\<rparr>" "fc_net_id c" "fc_peer c" i FLAG_CLOSE "[]"] c(1)
    by (simp add: close_flow_def silent_def Let_def)
qed

lemma existing_open:
  assumes "tget (fl_flows m) i = Some c" and "handle_open n p i b m = Some m'"
  shows "spares i ch m m'"
proof -
  obtain r where r: "parse_open b = Some r" using parse_open_total by blast
  have s: "spares i ch m (send_frame n p i FLAG_OPENED_OK [] m)" by (rule spares_send) (simp add: flow_consts)
  then have "spares i ch m (handle_open_tcp n p i port m)" for port
    using assms(1) spares_refl
    by (simp add: handle_open_tcp_def split: option.split FlowKind.split)
  moreover have "spares i ch m (handle_open_udp n p i m)" using assms(1) s by (simp add: handle_open_udp_def)
  ultimately show ?thesis
    using assms(2) r spares_refl by (auto simp: handle_open_def split: option.splits if_splits)
qed

lemma opened_streaming:
  "streaming i ch k m \<Longrightarrow> streaming i ch k (flow_opened i fl b m) \<and> delivered ch (flow_opened i fl b m) = delivered ch m"
  by (cases "tget (fl_flows m) i")
     (auto simp: streaming_def flow_opened_def table_simps split: FlowKind.splits option.splits)

lemma data_streaming:
  assumes "streaming i ch k m"
  shows "streaming i ch (Suc k) (handle_data i (of_nat k) b m)"
    and "delivered ch (handle_data i (of_nat k) b m) = delivered ch m @ [b]"
proof -
  obtain c where c: "tget (fl_flows m) i = Some c" "stream_chan (fc_kind c) = Some ch" "fc_next_recv_seq c = of_nat k"
    using assms by (auto simp: streaming_def split: option.splits)
  then have "handle_data i (of_nat k) b m
      = flow_emit (Deliver ch b) (m\<lparr>fl_flows := tput i (c\<lparr>fc_next_recv_seq := of_nat (Suc k)\<rparr>) (fl_flows m)\<rparr>)"
    by (cases "fc_kind c") (simp_all add: handle_data_def Let_def add.commute)
  then show "streaming i ch (Suc k) (handle_data i (of_nat k) b m)"
    "delivered ch (handle_data i (of_nat k) b m) = delivered ch m @ [b]"
    using c(2) by (simp_all add: streaming_def table_simps)
qed

lemma gap_gone:
  assumes "flow_inv m" and "streaming i ch k m" and "seq \<noteq> of_nat k"
  shows "silent ch m (handle_data i seq b m)"
proof -
  obtain c where c: "tget (fl_flows m) i = Some c" "stream_chan (fc_kind c) = Some ch" "fc_next_recv_seq c = of_nat k"
    using assms(2) by (auto simp: streaming_def split: option.splits)
  let ?m = "flow_emit (FlowLog (FlowSeqGap i (of_nat k) seq)) m"
  have "handle_data i seq b m = close_flow i True ?m"
    using c assms(3) by (cases "fc_kind c") (simp_all add: handle_data_def Let_def)
  moreover have "silent ch ?m (close_flow i True ?m)"
    by (rule closed_gone [where k = k]) (use assms in \<open>simp_all add: streaming_def\<close>)
  ultimately show ?thesis by (simp add: silent_def)
qed

text \<open>One frame at a flow that streams: it goes on, or the channel is gone.\<close>

lemma frame_streaming:
  assumes "flow_inv m" and "streaming i ch k m" and "on_frame self_ip bound n p b m = Some m'"
    and "frame_is i FLAG_DATA b \<longrightarrow> (\<exists>j x. b = data_frame i j x)"
  shows "streaming i ch k m' \<and> delivered ch m' = delivered ch m \<and> \<not> frame_is i FLAG_DATA b
       \<or> silent ch m m' \<and> (frame_is i FLAG_CLOSE b \<or> (\<exists>seq x. b = flow_encode i seq FLAG_DATA x \<and> seq \<noteq> of_nat k))
       \<or> (\<exists>x. b = data_frame i k x \<and> streaming i ch (Suc k) m' \<and> delivered ch m' = delivered ch m @ [x])"
proof -
  obtain c where c: "tget (fl_flows m) i = Some c" "ch \<in> chans (fc_kind c)"
    using assms(2) stream_chan_in by (auto simp: streaming_def split: option.splits)
  obtain r where r: "flow_decode b = Some r" using flow_decode_total by blast
  show ?thesis
  proof (cases r)
    case None
    then show ?thesis using assms(2,3) r by (auto simp: on_frame_def frame_is_def)
  next
    case (Some msg)
    then have d: "flow_decode b = Some (Some msg)" using r by simp
    consider "fm_flow_id msg \<noteq> i \<or> fm_flags msg = FLAG_DATAGRAM"
      | "fm_flow_id msg = i" "fm_flags msg \<noteq> FLAG_DATA" "fm_flags msg \<noteq> FLAG_CLOSE" "fm_flags msg \<noteq> FLAG_DATAGRAM"
      | "fm_flow_id msg = i" "fm_flags msg = FLAG_CLOSE"
      | "fm_flow_id msg = i" "fm_flags msg = FLAG_DATA" by blast
    then show ?thesis
    proof cases
      case 1
      then have "spares i ch m m'" by (rule spares_frame [OF d _ assms(1) c assms(3)])
      then show ?thesis using 1 streaming_spared assms(2) d
        by (auto simp: spares_def frame_is_def flow_consts)
    next
      case 2
      have o: "spares i ch m m'" if "handle_open n p i (fm_payload msg) m = Some m'"
        using existing_open [OF c(1)] that by blast
      have "streaming i ch k m' \<and> delivered ch m' = delivered ch m"
        using assms(2,3) d 2 o streaming_spared opened_streaming
        by (auto simp: on_frame_def spares_def split: if_splits)
      then show ?thesis using 2 d by (auto simp: frame_is_def)
    next
      case 3
      then have "m' = close_flow i False m" using assms(3) d by (simp add: on_frame_def flow_consts)
      then show ?thesis using closed_gone [OF assms(1,2)] 3 d by (auto simp: frame_is_def)
    next
      case 4
      then obtain j x where b: "b = data_frame i j x" using assms(4) d by (auto simp: frame_is_def)
      then have "msg = \<lparr>fm_flow_id = i, fm_seq = of_nat j, fm_flags = FLAG_DATA, fm_payload = x\<rparr>"
        using d flow_decode_encode [of FLAG_DATA i "of_nat j" x]
        by (simp add: data_frame_def flow_flags_valid_def flow_consts)
      then have m': "m' = handle_data i (of_nat j) x m" using assms(3) d by (simp add: on_frame_def flow_consts)
      show ?thesis
      proof (cases "(of_nat j :: u32) = of_nat k")
        case True
        then show ?thesis using data_streaming [OF assms(2), of x] m' b by (auto simp: data_frame_def)
      next
        case False
        then show ?thesis using gap_gone [OF assms(1,2) False, of x] m' b by (auto simp: data_frame_def)
      qed
    qed
  qed
qed

lemma receive_total: "\<exists>m. receive_all self_ip fs b = Some m"
proof (induction fs arbitrary: b)
  case (Cons f fs)
  obtain bound n p x where "f = (bound, n, p, x)" by (cases f)
  then show ?case using Cons on_frame_total [of self_ip bound n p x b] by auto
qed simp

lemma silent_all: "gone ch m \<Longrightarrow> receive_all self_ip fs m = Some m' \<Longrightarrow> delivered ch m' = delivered ch m"
proof (induction fs arbitrary: m)
  case (Cons f fs)
  obtain bound n p x where f: "f = (bound, n, p, x)" by (cases f)
  then obtain m1 where m1: "on_frame self_ip bound n p x m = Some m1" "receive_all self_ip fs m1 = Some m'"
    using Cons.prems(2) by (auto simp: bind_eq_Some_conv)
  then show ?case using Cons.IH [of m1] silent_frame [OF Cons.prems(1) m1(1)] by (simp add: silent_def)
qed simp

lemma data_frame_is [simp]: "frame_is i FLAG_DATA (flow_encode i seq FLAG_DATA x)"
  "\<not> frame_is i FLAG_CLOSE (flow_encode i seq FLAG_DATA x)"
  by (simp_all add: frame_is_def flow_decode_encode flow_flags_valid_def flow_consts)

lemma data_frame_inj:
  assumes "data_frame i j x = data_frame i k y"
  shows "(of_nat j :: u32) = of_nat k \<and> x = y"
proof -
  have "flow_decode (data_frame i j x) = flow_decode (data_frame i k y)" using assms by simp
  then show ?thesis by (simp add: data_frame_def flow_decode_encode flow_flags_valid_def flow_consts)
qed

lemma received_prefix:
  assumes "flow_inv m" and "streaming i ch k m" and "k \<le> length xs" and "length xs < 2 ^ 32"
    and "set (data_of i fs) \<subseteq> (\<lambda>(j, x). data_frame i j x) ` set (enumerate 0 xs)"
    and "receive_all self_ip fs m = Some m'"
  shows "\<exists>l. k + l \<le> length xs \<and> delivered ch m' = delivered ch m @ take l (drop k xs)"
  using assms
proof (induction fs arbitrary: m k)
  case (Cons f fs)
  obtain bound n p b where f: "f = (bound, n, p, b)" by (cases f)
  obtain m1 where m1: "on_frame self_ip bound n p b m = Some m1" "receive_all self_ip fs m1 = Some m'"
    using Cons.prems(6) f by (auto simp: bind_eq_Some_conv)
  have i1: "flow_inv m1" by (rule on_frame_inv [OF Cons.prems(1) m1(1)])
  have rest: "set (data_of i fs) \<subseteq> (\<lambda>(j, x). data_frame i j x) ` set (enumerate 0 xs)"
    using Cons.prems(5) f by (auto split: if_splits)
  have sent: "b \<in> (\<lambda>(j, x). data_frame i j x) ` set (enumerate 0 xs)" if "frame_is i FLAG_DATA b"
    using Cons.prems(5) f that by auto
  then have "frame_is i FLAG_DATA b \<longrightarrow> (\<exists>j x. b = data_frame i j x)"
    by (auto simp only: image_iff case_prod_beta)
  note frame_streaming [OF Cons.prems(1,2) m1(1) this]
  then consider "streaming i ch k m1" "delivered ch m1 = delivered ch m" | "silent ch m m1"
    | x where "b = data_frame i k x" "streaming i ch (Suc k) m1" "delivered ch m1 = delivered ch m @ [x]" by blast
  then show ?case
  proof cases
    case 1
    then show ?thesis using Cons.IH [OF i1 _ Cons.prems(3,4) rest m1(2)] by simp
  next
    case 2
    then have "delivered ch m' = delivered ch m" using silent_all m1(2) by (auto simp: silent_def)
    then show ?thesis using Cons.prems(3) by (intro exI [of _ 0]) simp
  next
    case x: (3 x)
    obtain j where j: "j < length xs" "data_frame i k x = data_frame i j (xs ! j)"
      using sent x(1) by (force simp: data_frame_def in_set_enumerate_eq)
    have "(of_nat k :: u32) = of_nat j" "x = xs ! j" using data_frame_inj [OF j(2)] by simp_all
    then have "j = k" using Cons.prems(3,4) j(1)
      by (simp add: word_of_nat_eq_iff take_bit_nat_eq_self)
    then have k: "k < length xs" "x = xs ! k" using j(1) \<open>x = xs ! j\<close> by simp_all
    then obtain l where "Suc k + l \<le> length xs" "delivered ch m' = delivered ch m1 @ take l (drop (Suc k) xs)"
      using Cons.IH [OF i1 x(2) _ Cons.prems(4) rest m1(2)] by auto
    then show ?thesis using k x(3) by (intro exI [of _ "Suc l"]) (simp add: Cons_nth_drop_Suc [symmetric])
  qed
qed (auto intro: exI [of _ 0])

lemma received_in_order:
  assumes "flow_inv m" and "streaming i ch k m"
    and "data_of i fs = map (\<lambda>(j, x). data_frame i j x) (enumerate k ys)"
    and "list_all (\<lambda>(_, _, _, b). \<not> frame_is i FLAG_CLOSE b) fs"
    and "receive_all self_ip fs m = Some m'"
  shows "delivered ch m' = delivered ch m @ ys \<and> streaming i ch (k + length ys) m'"
  using assms
proof (induction fs arbitrary: m k ys)
  case (Cons f fs)
  obtain bound n p b where f: "f = (bound, n, p, b)" by (cases f)
  obtain m1 where m1: "on_frame self_ip bound n p b m = Some m1" "receive_all self_ip fs m1 = Some m'"
    using Cons.prems(5) f by (auto simp: bind_eq_Some_conv)
  have i1: "flow_inv m1" by (rule on_frame_inv [OF Cons.prems(1) m1(1)])
  have nc: "\<not> frame_is i FLAG_CLOSE b" "list_all (\<lambda>(_, _, _, b). \<not> frame_is i FLAG_CLOSE b) fs"
    using Cons.prems(4) f by auto
  show ?case
  proof (cases "frame_is i FLAG_DATA b")
    case True
    then obtain y ys' where ys: "ys = y # ys'" "b = data_frame i k y"
      "data_of i fs = map (\<lambda>(j, x). data_frame i j x) (enumerate (Suc k) ys')"
      using Cons.prems(3) f by (cases ys) auto
    have u: "streaming i ch (Suc k) m1" "delivered ch m1 = delivered ch m @ [y]"
    proof -
      have "flow_decode b = Some (Some \<lparr>fm_flow_id = i, fm_seq = of_nat k, fm_flags = FLAG_DATA, fm_payload = y\<rparr>)"
        using ys(2) by (simp add: data_frame_def flow_decode_encode flow_flags_valid_def flow_consts)
      then have "m1 = handle_data i (of_nat k) y m" using m1(1) by (simp add: on_frame_def flow_consts)
      then show "streaming i ch (Suc k) m1" "delivered ch m1 = delivered ch m @ [y]"
        using data_streaming [OF Cons.prems(2), of y] by simp_all
    qed
    then show ?thesis using Cons.IH [OF i1 u(1) ys(3) nc(2) m1(2)] ys(1) by simp
  next
    case False
    then have "streaming i ch k m1" "delivered ch m1 = delivered ch m"
      using frame_streaming [OF Cons.prems(1,2) m1(1)] nc(1) by (auto simp: data_frame_def)
    moreover have "data_of i fs = map (\<lambda>(j, x). data_frame i j x) (enumerate k ys)"
      using Cons.prems(3) f False by simp
    ultimately show ?thesis using Cons.IH [OF i1 _ _ nc(2) m1(2)] by simp
  qed
next
  case Nil
  then show ?case by (cases ys) simp_all
qed

text \<open>
  C10 (safety). A node writes the chunks xs on a stream; the other end receives any frames from anyone, in
  any order and number, among which the DATA frames of this flow are ones that were sent (so
  the network may lose, repeat and reorder them, and OPEN, CLOSE and frames of other flows
  may come in between). Nothing panics, and what its reader is given is a prefix of xs; it is
  all of xs if the DATA frames came once each and in order, and no CLOSE among them.
\<close>
theorem flow_stream_prefix:
  assumes "tget (fl_flows a) i = Some ca" and "fc_next_send_seq ca = 0"
    and "list_all (\<lambda>x. length x \<le> FLOW_MAX_DATAGRAM) xs" and "length xs < 2 ^ 32"
    and "flow_inv b" and "streaming i ch 0 b"
    and "set (data_of i fs) \<subseteq> set (written n p i xs a)"
  shows "\<exists>m k. receive_all self_ip fs b = Some m \<and> delivered ch m = delivered ch b @ take k xs
     \<and> (data_of i fs = written n p i xs a \<and> list_all (\<lambda>(_, _, _, f). \<not> frame_is i FLAG_CLOSE f) fs
          \<longrightarrow> take k xs = xs)"
proof -
  note w = written_eq [OF assms(1-3), of n p]
  obtain m where m: "receive_all self_ip fs b = Some m" using receive_total by blast
  have s: "set (data_of i fs) \<subseteq> (\<lambda>(j, x). data_frame i j x) ` set (enumerate 0 xs)"
    using assms(7) unfolding w by simp
  obtain l where l: "delivered ch m = delivered ch b @ take l xs"
    using received_prefix [OF assms(5,6) _ assms(4) s m] by auto
  show ?thesis
  proof (intro exI conjI impI)
    assume "data_of i fs = written n p i xs a \<and> list_all (\<lambda>(_, _, _, f). \<not> frame_is i FLAG_CLOSE f) fs"
    then show "take l xs = xs"
      using received_in_order [OF assms(5,6) _ _ m, of xs] l unfolding w by simp
  qed (rule m l)+
qed

text \<open>A stream of three chunks of which the second frame comes late.\<close>

definition demo_sender :: FlowManager where
  "demo_sender = snd (open_tcp_start [5] [1] 9 flow_manager_new)"

definition demo_receiver :: FlowManager where
  "demo_receiver = connect_done True [1] 4 5 flow_manager_new"

theorem flow_stream_prefix_witness:
  "\<exists>m k. receive_all (\<lambda>_. None) (map (\<lambda>f. (None, [1], 4, f)) [data_frame 5 0 [7], data_frame 5 2 [9], data_frame 5 1 [8]])
          demo_receiver = Some m
     \<and> delivered 0 m = take k [[7], [8], [9]]"
proof -
  let ?fs = "map (\<lambda>f. (None, [1], 4, f)) [data_frame 5 0 [7], data_frame 5 2 [9], data_frame 5 1 [8]] :: Received list"
  have a: "tget (fl_flows demo_sender) 5 = Some (flow_ctx_new [1] 9 (OutTcp (Some 0) 1))"
    by (simp add: demo_sender_def open_tcp_start_def new_flow_id_def flow_manager_new_def)
  have z: "fc_next_send_seq (flow_ctx_new [1] 9 (OutTcp (Some 0) 1)) = 0" by (simp add: flow_ctx_new_def)
  have x: "list_all (\<lambda>x. length x \<le> FLOW_MAX_DATAGRAM) [[7], [8], [9]]" by (simp add: FLOW_MAX_DATAGRAM_def)
  have b: "flow_inv demo_receiver"
    using flow_step_inv [OF flow_inv_new, of "FConnectDone True [1] 4 5"] by (simp add: demo_receiver_def)
  have s: "streaming 5 0 0 demo_receiver" "delivered 0 demo_receiver = []"
    by (simp_all add: demo_receiver_def connect_done_def flow_manager_new_def flow_ctx_new_def streaming_def
        delivered_def send_frame_def flow_emit_def flow_consts FLOW_MAX_DATAGRAM_def map_filter_simps Let_def)
  have d: "set (data_of 5 ?fs) \<subseteq> set (written [1] 9 5 [[7], [8], [9]] demo_sender)"
    unfolding written_eq [OF a z x] by (simp add: data_frame_def)
  show ?thesis using flow_stream_prefix [OF a z x _ b s(1) d, of "\<lambda>_. None"] s(2) by auto
qed

end
