(* ===== verification/FlowPeers.thy ===== *)
theory FlowPeers
  imports FlowStreams
begin

text \<open>
  Who opens, closes and feeds flows: a repeated OPEN, a peer that leaves, and frames of a
  peer that a flow does not belong to.
\<close>

section \<open>Repeated OPEN\<close>

lemma decode_frame:
  "flow_flags_valid fl \<Longrightarrow>
   on_frame self_ip bound n p (flow_encode i s fl b) m =
     (if fl = FLAG_OPEN then handle_open n p i b m
      else if fl = FLAG_OPENED_OK \<or> fl = FLAG_OPENED_FAIL then Some (flow_opened i fl b m)
      else if fl = FLAG_CLOSE then Some (close_flow i False m)
      else if fl = FLAG_DATA then Some (handle_data i s b m)
      else if fl = FLAG_DATAGRAM then handle_datagram self_ip bound n p i b m
      else Some m)"
  by (simp add: on_frame_def flow_decode_encode)

lemma valid_flags [simp]:
  "flow_flags_valid FLAG_OPEN" "flow_flags_valid FLAG_OPENED_OK" "flow_flags_valid FLAG_OPENED_FAIL"
  "flow_flags_valid FLAG_CLOSE" "flow_flags_valid FLAG_DATA" "flow_flags_valid FLAG_DATAGRAM"
  by (simp_all add: flow_flags_valid_def flow_consts)

definition open_frame :: "u32 \<Rightarrow> string \<Rightarrow> bytes" where
  "open_frame i dest = flow_encode i 0 FLAG_OPEN (build_open PROTO_TCP dest)"

definition valid_dest :: "string \<Rightarrow> bool" where
  "valid_dest dest = (wf_str dest \<and> CHR '':'' \<in> set dest \<and> length dest < 256)"

lemma open_frame_received:
  assumes "valid_dest dest"
  shows "on_frame self_ip bound n p (open_frame i dest) m = Some (handle_open_tcp n p i (port_of dest) m)"
proof -
  have "handle_open n p i (build_open PROTO_TCP dest) m = Some (handle_open_tcp n p i (port_of dest) m)"
    using assms parse_open_build [of PROTO_TCP dest] by (simp add: handle_open_def valid_dest_def)
  then show ?thesis by (simp add: open_frame_def decode_frame)
qed

lemma tput_same: "tget t k = Some v \<Longrightarrow> tput k v t = t"
  by (induction t) (auto split: if_splits)

lemma opens_while_connecting:
  assumes "valid_dest dest" and "port_of dest = Some port" and "find_expose ProtoKind.Tcp port (exposes_of n m) = Some e"
    and "tget (fl_flows m) i = None" and "tget (fl_connecting m) i = Some ()"
  shows "receive_all self_ip (replicate k (bound, n, p, open_frame i dest)) m = Some m"
proof (induction k)
  case (Suc k)
  have "tput i () (fl_connecting m) = fl_connecting m"
    using assms(5) by (rule tput_same)
  then have "handle_open_tcp n p i (port_of dest) m = m"
    using assms(2-5) by (simp add: handle_open_tcp_def Let_def)
  then show ?case using Suc open_frame_received [OF assms(1)] by simp
qed simp

lemma opens_when_established:
  assumes "valid_dest dest" and "port_of dest = Some port"
    and "tget (fl_flows m) i = Some c" and "fc_kind c = InTcp ch"
  shows "receive_all self_ip (replicate k (bound, n, p, open_frame i dest)) m
     = Some (m\<lparr>fl_out := fl_out m @ replicate k (FlowOut n p (flow_encode i 0 FLAG_OPENED_OK []))\<rparr>)"
  using assms(3)
proof (induction k arbitrary: m)
  case (Suc k)
  let ?m = "m\<lparr>fl_out := fl_out m @ [FlowOut n p (flow_encode i 0 FLAG_OPENED_OK [])]\<rparr>"
  have "handle_open_tcp n p i (port_of dest) m = ?m"
    using assms(2,4) Suc.prems
    by (simp add: handle_open_tcp_def send_frame_def flow_emit_def FLOW_MAX_DATAGRAM_def flow_consts)
  then show ?case using Suc.IH [of ?m] Suc.prems open_frame_received [OF assms(1)] by simp
qed simp

text \<open>
  The initiator repeats its OPEN until it is answered. However often the OPEN of an exposed
  service arrives while the local service is being connected and after that, the service is
  connected once; nothing is answered before the connection, and then each OPEN once.
\<close>
theorem repeated_open_connects_once:
  assumes "valid_dest dest" and "port_of dest = Some port" and "find_expose ProtoKind.Tcp port (exposes_of n b) = Some e"
    and "tget (fl_flows b) i = None" and "tget (fl_connecting b) i = None"
    and "receive_all self_ip (replicate (Suc j) (bound, n, p, open_frame i dest)) b = Some m1"
    and "receive_all self_ip (replicate k (bound, n, p, open_frame i dest)) (connect_done True n p i m1) = Some m2"
  shows "fl_out m2 = fl_out b @ [StartConnect i n p (er_dest e)]
           @ replicate (Suc k) (FlowOut n p (flow_encode i 0 FLAG_OPENED_OK []))
     \<and> (\<exists>c ch. tget (fl_flows m2) i = Some c \<and> fc_kind c = InTcp ch)"
proof -
  let ?m = "flow_emit (StartConnect i n p (er_dest e)) (b\<lparr>fl_connecting := tput i () (fl_connecting b)\<rparr>)"
  have "handle_open_tcp n p i (port_of dest) b = ?m"
    using assms(2-5) by (simp add: handle_open_tcp_def Let_def)
  moreover have "receive_all self_ip (replicate j (bound, n, p, open_frame i dest)) ?m = Some ?m"
    by (rule opens_while_connecting [OF assms(1,2)]) (use assms(3,4) in \<open>simp_all add: exposes_of_def table_simps\<close>)
  ultimately have m1: "m1 = ?m"
    using assms(6) open_frame_received [OF assms(1), of self_ip bound n p i b] by simp
  let ?c = "connect_done True n p i m1"
  have c: "tget (fl_flows ?c) i = Some (flow_ctx_new n p (InTcp (fl_next_chan m1)))"
    "fl_out ?c = fl_out m1 @ [FlowOut n p (flow_encode i 0 FLAG_OPENED_OK [])]"
    by (simp_all add: connect_done_def Let_def send_frame_def flow_emit_def FLOW_MAX_DATAGRAM_def flow_consts table_simps)
  have "fc_kind (flow_ctx_new n p (InTcp (fl_next_chan m1))) = InTcp (fl_next_chan m1)" by (simp add: flow_ctx_new_def)
  then have "m2 = ?c\<lparr>fl_out := fl_out ?c @ replicate k (FlowOut n p (flow_encode i 0 FLAG_OPENED_OK []))\<rparr>"
    using opens_when_established [OF assms(1,2) c(1), of "fl_next_chan m1" self_ip k bound] assms(7) by simp
  then show ?thesis using c m1 by (simp add: flow_ctx_new_def)
qed

definition demo_exposing :: FlowManager where
  "demo_exposing = set_exposes [1] [\<lparr>er_port = 80, er_proto = ProtoKind.Tcp, er_dest = ''127.0.0.1:8080''\<rparr>] flow_manager_new"

lemma demo_dest: "valid_dest ''10.0.0.1:80''" "port_of ''10.0.0.1:80'' = Some 80"
proof -
  have "wf_str ''10.0.0.1:80''" unfolding wf_str_def by (rule utf8_valid_ascii) (simp add: as_bytes_def)
  then show "valid_dest ''10.0.0.1:80''" by (simp add: valid_dest_def)
  show "port_of ''10.0.0.1:80'' = Some 80"
    by (simp add: port_of_def rsplit_once_def parse_u16_def parse_unsigned_def digit_val_def)
qed

theorem repeated_open_connects_once_witness:
  "\<exists>m1 m2. receive_all (\<lambda>_. None) (replicate 3 (None, [1], 9, open_frame 7 ''10.0.0.1:80'')) demo_exposing = Some m1
     \<and> receive_all (\<lambda>_. None) (replicate 2 (None, [1], 9, open_frame 7 ''10.0.0.1:80'')) (connect_done True [1] 9 7 m1) = Some m2
     \<and> connects 7 m2 = 1"
proof -
  let ?f = "(None, [1], 9, open_frame 7 ''10.0.0.1:80'') :: Received"
  obtain m1 where m1: "receive_all (\<lambda>_. None) (replicate (Suc 2) ?f) demo_exposing = Some m1" using receive_total by blast
  obtain m2 where m2: "receive_all (\<lambda>_. None) (replicate 2 ?f) (connect_done True [1] 9 7 m1) = Some m2"
    using receive_total by blast
  have "fl_out m2 = fl_out demo_exposing @ [StartConnect 7 [1] 9 ''127.0.0.1:8080'']
           @ replicate (Suc 2) (FlowOut [1] 9 (flow_encode 7 0 FLAG_OPENED_OK []))"
    using repeated_open_connects_once [OF demo_dest, of "[1]" demo_exposing
        "\<lparr>er_port = 80, er_proto = ProtoKind.Tcp, er_dest = ''127.0.0.1:8080''\<rparr>" 7 "\<lambda>_. None" 2 None 9 m1 2 m2] m1 m2
    by (simp add: demo_exposing_def set_exposes_def flow_manager_new_def exposes_of_def find_expose_def
        del: replicate_Suc receive_all.simps)
  then have "connects 7 m2 = 1" by (simp add: connects_def demo_exposing_def set_exposes_def flow_manager_new_def)
  then show ?thesis using m1 m2 by (simp add: eval_nat_numeral)
qed

section \<open>A peer that leaves\<close>

lemma close_flow_notify:
  assumes "tget (fl_flows m) i = Some c"
  shows "fl_flows (close_flow i True m) = tdel i (fl_flows m)"
    and "fl_out (close_flow i True m) = fl_out m @ [FlowOut (fc_net_id c) (fc_peer c) (flow_encode i 0 FLAG_CLOSE [])]"
    and "fl_udp_locals (close_flow i True m) = tkeep (\<lambda>k _. fst (snd k) \<noteq> i) (fl_udp_locals m)"
  using assms by (simp_all add: close_flow_def Let_def send_frame_def flow_emit_def FLOW_MAX_DATAGRAM_def flow_consts)

lemma close_all:
  assumes "distinct is" and "\<forall>i\<in>set is. \<exists>c. tget (fl_flows m) i = Some c \<and> fc_net_id c = n \<and> fc_peer c = p"
  shows "tget (fl_flows (fold (\<lambda>i. close_flow i True) is m)) j = (if j \<in> set is then None else tget (fl_flows m) j)
     \<and> fl_out (fold (\<lambda>i. close_flow i True) is m) = fl_out m @ map (\<lambda>i. FlowOut n p (flow_encode i 0 FLAG_CLOSE [])) is
     \<and> fl_udp_locals (fold (\<lambda>i. close_flow i True) is m) = tkeep (\<lambda>k _. fst (snd k) \<notin> set is) (fl_udp_locals m)"
  using assms
proof (induction "is" arbitrary: m)
  case (Cons i "is")
  then obtain c where c: "tget (fl_flows m) i = Some c" "fc_net_id c = n" "fc_peer c = p" by auto
  have "\<forall>x\<in>set is. \<exists>c. tget (fl_flows (close_flow i True m)) x = Some c \<and> fc_net_id c = n \<and> fc_peer c = p"
    using Cons.prems close_flow_notify(1) [OF c(1)] by (auto simp: table_simps)
  then show ?case
    using Cons.IH [of "close_flow i True m"] Cons.prems(1) close_flow_notify [OF c(1)] c(2,3)
    by (auto simp: table_simps tkeep_def intro!: filter_cong)
qed (simp add: tkeep_def)

lemma close_peer_all:
  assumes "flow_inv m"
  shows "\<exists>is. distinct is \<and> set is = {i. \<exists>c. tget (fl_flows m) i = Some c \<and> fc_net_id c = n \<and> fc_peer c = p}
     \<and> (\<forall>j. tget (fl_flows (close_peer n p m)) j = (if j \<in> set is then None else tget (fl_flows m) j))
     \<and> fl_out (close_peer n p m) = fl_out m @ map (\<lambda>i. FlowOut n p (flow_encode i 0 FLAG_CLOSE [])) is
     \<and> fl_udp_locals (close_peer n p m) = tkeep (\<lambda>k _. fst (snd k) \<notin> set is) (fl_udp_locals m)"
proof -
  let ?is = "map fst (filter (\<lambda>(_, c). fc_net_id c = n \<and> fc_peer c = p) (fl_flows m))"
  have t: "tinv (fl_flows m)" using assms by simp
  have d: "distinct ?is" using t distinct_map_filter_keep by (auto simp: tinv_def)
  have s: "set ?is = {i. \<exists>c. tget (fl_flows m) i = Some c \<and> fc_net_id c = n \<and> fc_peer c = p}"
    using tget_in_set [OF t] by force
  have "\<forall>i\<in>set ?is. \<exists>c. tget (fl_flows m) i = Some c \<and> fc_net_id c = n \<and> fc_peer c = p"
    unfolding s by blast
  note c = close_all [OF d this]
  show ?thesis unfolding close_peer_def using d s c by blast
qed

text \<open>
  When a peer leaves a network exactly the flows it has in that network are closed: each is
  dropped and told to the peer once, with its local UDP sockets; the flows of other peers,
  and those of the same peer in other networks, stay as they are.
\<close>
theorem close_peer_exact:
  assumes "flow_inv m"
  shows "tget (fl_flows (close_peer n p m)) j =
      (case tget (fl_flows m) j of
         Some c \<Rightarrow> if fc_net_id c = n \<and> fc_peer c = p then None else Some c
       | None \<Rightarrow> None)
   \<and> (\<exists>is. distinct is \<and> set is = {i. \<exists>c. tget (fl_flows m) i = Some c \<and> fc_net_id c = n \<and> fc_peer c = p}
        \<and> fl_out (close_peer n p m) = fl_out m @ map (\<lambda>i. FlowOut n p (flow_encode i 0 FLAG_CLOSE [])) is
        \<and> fl_udp_locals (close_peer n p m) = tkeep (\<lambda>k _. fst (snd k) \<notin> set is) (fl_udp_locals m))"
  using close_peer_all [OF assms, of n p] by (auto split: option.split)

theorem close_peer_exact_witness:
  "tget (fl_flows (close_peer [1] 9 (snd (open_tcp_start [5] [1] 9 (snd (open_tcp_start [6] [2] 9 flow_manager_new)))))) 6 \<noteq> None"
proof -
  let ?m = "snd (open_tcp_start [5] [1] 9 (snd (open_tcp_start [6] [2] 9 flow_manager_new)))"
  have "flow_inv ?m"
    using flow_step_inv [OF flow_step_inv [OF flow_inv_new, of "FOpenTcp [6] [2] 9"], of _ _ "FOpenTcp [5] [1] 9"] by simp
  from close_peer_exact [OF this, of "[1]" 9 6] show ?thesis
    by (simp add: open_tcp_start_def new_flow_id_def flow_manager_new_def flow_ctx_new_def)
qed

section \<open>Frames of a peer the flow does not belong to\<close>

text \<open>
  Frames other than OPEN and DATAGRAM are taken by the number of their flow alone: whoever
  sent them, over whichever network. Any peer of the node that has the number can therefore
  end a stream of another peer, or put its own bytes into it.
\<close>
theorem flow_frames_of_any_peer:
  assumes "streaming i ch k m" and "flow_inv m"
  shows "\<exists>m1 m2. on_frame self_ip bound n p (flow_encode i (of_nat k) FLAG_DATA x) m = Some m1
     \<and> delivered ch m1 = delivered ch m @ [x]
     \<and> on_frame self_ip bound n p (flow_encode i s FLAG_CLOSE b) m = Some m2
     \<and> tget (fl_flows m2) i = None"
proof (intro exI conjI)
  show "on_frame self_ip bound n p (flow_encode i (of_nat k) FLAG_DATA x) m = Some (handle_data i (of_nat k) x m)"
    by (simp add: decode_frame) (simp add: flow_consts)
  show "delivered ch (handle_data i (of_nat k) x m) = delivered ch m @ [x]" by (rule data_streaming [OF assms(1)])
  show "on_frame self_ip bound n p (flow_encode i s FLAG_CLOSE b) m = Some (close_flow i False m)"
    by (simp add: decode_frame) (simp add: flow_consts)
  show "tget (fl_flows (close_flow i False m)) i = None"
    by (simp add: close_flow_def table_simps Let_def split: option.split)
qed

theorem flow_frames_of_any_peer_witness:
  "\<exists>m1. on_frame (\<lambda>_. None) None [3] 66 (flow_encode 5 0 FLAG_DATA [6]) demo_receiver = Some m1
     \<and> delivered 0 m1 = delivered 0 demo_receiver @ [[6]]"
proof -
  have b: "flow_inv demo_receiver"
    using flow_step_inv [OF flow_inv_new, of "FConnectDone True [1] 4 5"] by (simp add: demo_receiver_def)
  have s: "streaming 5 0 0 demo_receiver"
    by (simp add: demo_receiver_def connect_done_def flow_manager_new_def flow_ctx_new_def streaming_def Let_def
        flow_consts)
  show ?thesis using flow_frames_of_any_peer [OF s b, of "\<lambda>_. None" None "[3]" 66 "[6]" 0 "[]"] by auto
qed

end
