(* ===== verification/FlowEndToEnd.thy ===== *)
theory FlowEndToEnd
  imports EndToEnd FlowPeers
begin

text \<open>
  A chunk of a stream from the writer at one node to the reader at another: the flow managers,
  the engines, the sealed frames and the UDP relay in one statement.
\<close>

text \<open>
  C1 (functional). What a node writes on a stream crosses the UDP relay: the flow manager gives the engine one
  payload, the engine one sealed frame, the relay forwards it to the peer's address, the
  peer's engine opens it and queues the payload, and the peer's flow manager gives exactly
  the chunk to the reader of the stream, when it is the next one the stream waits for.
\<close>
theorem flow_chunk_crosses_relay:
  assumes "aead (ex_aenc exta) (ex_adec extb)"
    and "tget (en_peers a) (n, en_device_id b) = Some ha" and "se_id (sess a ha) = en_device_id b"
    and "\<not> en_stopping a" and "en_device_id a \<noteq> en_device_id b"
    and "policy_for a (en_device_id b) = PathPolicy.RelayUdp
       \<or> policy_for a (en_device_id b) = PathPolicy.Auto \<and> se_current_path (sess a ha) = RelayUdp"
    and "candidates b (en_device_id a) = [(n', hb)]" and "se_id (sess b hb) = en_device_id a"
    and "in_sync (se_codec (sess a ha)) (se_codec (sess b hb))"
    and "tget (ur_registrations r) (en_device_id a) = Some ra" and "now2 \<le> rg_expires_ms ra"
    and "tget (ur_registrations r) (en_device_id b) = Some rb" and "now2 < rg_expires_ms rb"
    and "tget (fl_flows ma) i = Some ca" and "fc_next_send_seq ca = of_nat k" and "length chunk \<le> FLOW_MAX_DATAGRAM"
    and "streaming i ch k mb" and "fl_inbox mb = []"
  shows "\<exists>payload frame b' mb'.
       fl_out (stream_write n (en_device_id b) i chunk ma) = fl_out ma @ [FlowOut n (en_device_id b) payload]
     \<and> en_out (send_flow_payload exta now n (en_device_id b) payload a)
         = en_out a @ [SendRelay (en_device_id a) (en_device_id b) frame]
     \<and> fst (udp_handle hm lookup now2 ok (rg_endpoint ra) (build_relay (en_device_id a) (en_device_id b) frame) r)
         = [(frame, rg_endpoint rb)]
     \<and> handle_frame extb now3 ArrRelayUdp frame b = Some b'
     \<and> en_out b' = en_out b @ [FlowEnqueue n' (en_device_id a) payload]
     \<and> flow_consume self_ip bound (flow_enqueue n' (en_device_id a) payload mb) = Some mb'
     \<and> delivered ch mb' = delivered ch mb @ [chunk]"
proof -
  let ?p = "flow_encode i (of_nat k) FLAG_DATA chunk"
  obtain f a1 c where h: "seal_for exta ha FRAME_FLOW ?p a = (f, a1)"
    "en_out (route_sealed now ha f a1) = en_out a @ [SendRelay (en_device_id a) (en_device_id b) f]"
    "fst (udp_handle hm lookup now2 ok (rg_endpoint ra) (build_relay (en_device_id a) (en_device_id b) f) r)
       = [(f, rg_endpoint rb)]"
    "handle_frame extb now3 ArrRelayUdp f b = Some (handle_opened extb now3 ArrRelayUdp (length f) n' hb FRAME_FLOW ?p
       (upd_sess hb (se_codec_update (\<lambda>_. c)) b))"
    using relay_hop [OF assms(1) _ assms(3-7,9-13), of FRAME_FLOW] by (fastforce simp: frame_type_is_valid_def wire_consts)
  have 1: "fl_out (stream_write n (en_device_id b) i chunk ma) = fl_out ma @ [FlowOut n (en_device_id b) ?p]"
    using assms(14-16) by (simp add: stream_write_def send_frame_def)
  have 2: "en_out (send_flow_payload exta now n (en_device_id b) ?p a)
      = en_out a @ [SendRelay (en_device_id a) (en_device_id b) f]"
    using assms(2) h(1,2) by (simp add: send_flow_payload_def)
  have 3: "en_out (handle_opened extb now3 ArrRelayUdp (length f) n' hb FRAME_FLOW ?p
       (upd_sess hb (se_codec_update (\<lambda>_. c)) b)) = en_out b @ [FlowEnqueue n' (en_device_id a) ?p]"
    using assms(8) by (simp add: handle_opened_def Let_def wire_consts add_rx_def upd_sess_def)
  have m: "mb\<lparr>fl_inbox := []\<rparr> = mb" using assms(18) by (cases mb) simp
  have "flow_consume self_ip bound (flow_enqueue n' (en_device_id a) ?p mb) = Some (handle_data i (of_nat k) chunk mb)"
    using assms(18) by (simp add: flow_consume_def flow_enqueue_def decode_frame m) (simp add: flow_consts)
  then show ?thesis using 1 2 3 h(3,4) data_streaming(2) [OF assms(17), of chunk] by blast
qed

theorem flow_chunk_crosses_relay_witness:
  "\<exists>payload frame b'.
       fl_out (stream_write [1] 9 5 [42] demo_sender) = [FlowOut [1] 9 payload]
     \<and> en_out (send_flow_payload demo_ext 1 [1] 9 payload (demo_node 5 9 toy_boot)) = [SendRelay 5 9 frame]
     \<and> handle_frame demo_ext 3 ArrRelayUdp frame (demo_node 9 5 toy_boot) = Some b'
     \<and> en_out b' = [FlowEnqueue [1] 5 payload]"
proof -
  have a: "tget (fl_flows demo_sender) 5 = Some (flow_ctx_new [1] 9 (OutTcp (Some 0) 1))" "fl_out demo_sender = []"
    by (simp_all add: demo_sender_def open_tcp_start_def new_flow_id_def flow_manager_new_def)
  have s: "streaming 5 0 0 demo_receiver" "fl_inbox demo_receiver = []"
    by (simp_all add: demo_receiver_def connect_done_def flow_manager_new_def flow_ctx_new_def streaming_def Let_def
        flow_consts)
  have p: "tget (en_peers (demo_node 5 9 toy_boot)) ([1], 9) = Some 0" by (simp add: demo_node_def)
  show ?thesis
    using flow_chunk_crosses_relay [of demo_ext demo_ext "demo_node 5 9 toy_boot" "[1]" "demo_node 9 5 toy_boot" 0 "[1]" 0
        demo_relay "\<lparr>rg_endpoint = (1, 2), rg_expires_ms = 1000\<rparr>" 2 "\<lparr>rg_endpoint = (3, 4), rg_expires_ms = 1000\<rparr>"
        demo_sender 5 "flow_ctx_new [1] 9 (OutTcp (Some 0) 1)" 0 "[42]" 0 demo_receiver 1 "\<lambda>_ _. []" "\<lambda>_. None" True
        3 "\<lambda>_. None" None]
      demo_sync [of toy_boot] toy_aead a s p
    by (simp add: demo_node_simps demo_ext_def demo_relay_def toy_boot_def flow_ctx_new_def FLOW_MAX_DATAGRAM_def) blast
qed

end
