(* ===== verification/Transports.thy ===== *)
theory Transports
  imports TcpRelay Wire
begin

text \<open>
  The TCP transports of the node: crates/skiff-node/src/transport/relay\_tcp.rs, the client
  of the TCP relay, and peer\_tcp.rs, a direct connection to a peer. A connection is a
  number; what is written to it, or delivered to the engine, is appended to a trace. A read
  of a socket is an operation with its outcome as an argument.
\<close>

section \<open>The client of the TCP relay\<close>

datatype ClientEffect =
    SocketWrite nat bytes
  | QueueWrite nat bytes
  | FrameEvent bytes
  | LogEvent string

record RelayTcpClient =
  rc_device_id :: u64
  rc_relay_key :: bytes
  rc_addr :: "SocketAddr option"
  rc_writer :: "nat option"
  rc_connecting :: bool
  rc_reading :: "(nat, bytes) table"
  rc_writer_dead :: "nat \<Rightarrow> bool"
  rc_next :: nat
  rc_out :: "ClientEffect list"

definition relay_tcp_client_new :: "u64 \<Rightarrow> bytes \<Rightarrow> RelayTcpClient" where
  "relay_tcp_client_new device_id relay_key =
     \<lparr>rc_device_id = device_id, rc_relay_key = relay_key, rc_addr = None, rc_writer = None,
      rc_connecting = False, rc_reading = [], rc_writer_dead = (\<lambda>_. False), rc_next = 0, rc_out = []\<rparr>"

definition client_emit :: "ClientEffect \<Rightarrow> RelayTcpClient \<Rightarrow> RelayTcpClient" where
  "client_emit e c = c\<lparr>rc_out := rc_out c @ [e]\<rparr>"

definition client_configure :: "SocketAddr \<Rightarrow> RelayTcpClient \<Rightarrow> RelayTcpClient" where
  "client_configure addr c = c\<lparr>rc_addr := Some addr\<rparr>"

definition is_connected :: "RelayTcpClient \<Rightarrow> bool" where
  "is_connected c = (rc_writer c \<noteq> None)"

definition framed :: "bytes \<Rightarrow> bytes" where
  "framed inner = write_length_prefixed [] inner"

text \<open>
  ensure\_connected up to the dial (the address to dial, if any) and from its outcome on; the
  nonce is the fresh one of build\_register.
\<close>

definition ensure_start :: "RelayTcpClient \<Rightarrow> SocketAddr option \<times> RelayTcpClient" where
  "ensure_start c =
     (if rc_writer c \<noteq> None then (None, c)
      else if rc_connecting c then (None, c)
      else (case rc_addr c of
              None \<Rightarrow> (None, c\<lparr>rc_connecting := False\<rparr>)
            | Some addr \<Rightarrow> (Some addr, c\<lparr>rc_connecting := True\<rparr>)))"

definition register_frame :: "hmac \<Rightarrow> bytes \<Rightarrow> RelayTcpClient \<Rightarrow> bytes" where
  "register_frame h nonce c =
     framed (encode_cmd CMD_REGISTER (drop 3 (build_register h (rc_device_id c) (rc_relay_key c) nonce)))"

definition ensure_done :: "hmac \<Rightarrow> bytes \<Rightarrow> bool \<Rightarrow> RelayTcpClient \<Rightarrow> RelayTcpClient" where
  "ensure_done h nonce connected c =
     (if connected then
        (let n = rc_next c;
             c = client_emit (SocketWrite n (register_frame h nonce c)) c
         in c\<lparr>rc_reading := tput n [] (rc_reading c), rc_next := n + 1, rc_connecting := False, rc_writer := Some n\<rparr>)
      else c\<lparr>rc_connecting := False\<rparr>)"

text \<open>tx.send: it fails once the writer task has ended.\<close>

definition queue_write :: "nat \<Rightarrow> bytes \<Rightarrow> RelayTcpClient \<Rightarrow> bool \<times> RelayTcpClient" where
  "queue_write n msg c = (if rc_writer_dead c n then (False, c) else (True, client_emit (QueueWrite n msg) c))"

text \<open>The part of send after a connection was tried for.\<close>

definition client_send :: "u64 \<Rightarrow> bytes \<Rightarrow> RelayTcpClient \<Rightarrow> bool \<times> RelayTcpClient" where
  "client_send dst_id frame c =
     (case rc_writer c of
        None \<Rightarrow> (False, c)
      | Some tx \<Rightarrow> queue_write tx (framed (encode_cmd CMD_TCP_SEND (build_send_body dst_id frame))) c)"

definition client_keepalive :: "RelayTcpClient \<Rightarrow> RelayTcpClient" where
  "client_keepalive c =
     (case rc_writer c of
        None \<Rightarrow> c
      | Some tx \<Rightarrow> snd (queue_write tx (framed (encode_cmd CMD_TCP_KEEPALIVE [])) c))"

definition client_write_fails :: "nat \<Rightarrow> RelayTcpClient \<Rightarrow> RelayTcpClient" where
  "client_write_fails n c = c\<lparr>rc_writer_dead := (rc_writer_dead c)(n := True)\<rparr>"

text \<open>One received frame; whether the read loop goes on. The outer option is a panic.\<close>

definition client_frame :: "bytes \<Rightarrow> RelayTcpClient \<Rightarrow> (bool \<times> RelayTcpClient) option" where
  "client_frame frame c = do {
     msg \<leftarrow> relay_tcp_parse frame;
     Some (case msg of
             Some (TcpFrame inner) \<Rightarrow> (True, client_emit (FrameEvent inner) c)
           | Some TcpKeepalive \<Rightarrow>
               (True, case rc_writer c of
                        None \<Rightarrow> c
                      | Some tx \<Rightarrow> snd (queue_write tx (framed (encode_cmd CMD_TCP_KEEPALIVE_RESP [])) c))
           | Some (TcpAck _) \<Rightarrow> (True, c)
           | Some (TcpError body) \<Rightarrow> (False, client_emit (LogEvent (from_utf8_lossy body)) c)
           | _ \<Rightarrow> (False, c)) }"

fun client_frames :: "bytes list \<Rightarrow> RelayTcpClient \<Rightarrow> (bool \<times> RelayTcpClient) option" where
  "client_frames [] c = Some (True, c)"
| "client_frames (f # fs) c = do {
     (go, c) \<leftarrow> client_frame f c;
     if go then client_frames fs c else Some (False, c) }"

datatype ReadOutcome = ReadIdle | ReadEnd | ReadBytes bytes

text \<open>
  One turn of the read loop of connection n. A break clears the writer slot, whichever
  connection is in it; a return does not.
\<close>

definition client_read :: "nat \<Rightarrow> ReadOutcome \<Rightarrow> RelayTcpClient \<Rightarrow> RelayTcpClient option" where
  "client_read n outcome c =
     (case tget (rc_reading c) n of
        None \<Rightarrow> Some c
      | Some buf \<Rightarrow>
          (case outcome of
             ReadBytes chunk \<Rightarrow>
               (if chunk = [] then Some (c\<lparr>rc_reading := tdel n (rc_reading c), rc_writer := None\<rparr>)
                else do {
                  (fed, rest) \<leftarrow> feed buf chunk;
                  (case fed of
                     Inl _ \<Rightarrow> Some (c\<lparr>rc_reading := tdel n (rc_reading c)\<rparr>)
                   | Inr frames \<Rightarrow> do {
                       (go, c) \<leftarrow> client_frames frames (c\<lparr>rc_reading := tput n rest (rc_reading c)\<rparr>);
                       Some (if go then c else c\<lparr>rc_reading := tdel n (rc_reading c)\<rparr>) }) })
           | _ \<Rightarrow> Some (c\<lparr>rc_reading := tdel n (rc_reading c), rc_writer := None\<rparr>)))"

section \<open>A direct connection to a peer\<close>

record PeerTcpConnection =
  pt_peer_id :: u64
  pt_closed :: bool
  pt_writer_dead :: bool
  pt_reading :: "bytes option"
  pt_written :: "bytes list"
  pt_events :: "bytes list"

definition peer_wrap :: PeerTcpConnection where
  "peer_wrap =
     \<lparr>pt_peer_id = 0, pt_closed = False, pt_writer_dead = False, pt_reading = Some [], pt_written = [],
      pt_events = []\<rparr>"

definition peer_send :: "bytes \<Rightarrow> PeerTcpConnection \<Rightarrow> bool \<times> PeerTcpConnection" where
  "peer_send frame c =
     (if pt_closed c then (False, c)
      else if pt_writer_dead c then (False, c)
      else (True, c\<lparr>pt_written := pt_written c @ [framed frame]\<rparr>))"

definition peer_is_closed :: "PeerTcpConnection \<Rightarrow> bool" where
  "peer_is_closed c = pt_closed c"

definition peer_frame :: "bytes \<Rightarrow> PeerTcpConnection \<Rightarrow> PeerTcpConnection option" where
  "peer_frame frame c = do {
     raw \<leftarrow> try_parse frame;
     (let c = (if pt_peer_id c = 0
               then (case raw of Some r \<Rightarrow> c\<lparr>pt_peer_id := rf_sender_id r\<rparr> | None \<Rightarrow> c) else c)
      in Some (c\<lparr>pt_events := pt_events c @ [frame]\<rparr>)) }"

fun peer_frames :: "bytes list \<Rightarrow> PeerTcpConnection \<Rightarrow> PeerTcpConnection option" where
  "peer_frames [] c = Some c"
| "peer_frames (f # fs) c = Option.bind (peer_frame f c) (peer_frames fs)"

definition peer_read :: "bytes option \<Rightarrow> PeerTcpConnection \<Rightarrow> PeerTcpConnection option" where
  "peer_read outcome c =
     (case pt_reading c of
        None \<Rightarrow> Some c
      | Some buf \<Rightarrow>
          (case outcome of
             Some (b # bs) \<Rightarrow> do {
               (fed, rest) \<leftarrow> feed buf (b # bs);
               (case fed of
                  Inl _ \<Rightarrow> Some (c\<lparr>pt_reading := None, pt_closed := True\<rparr>)
                | Inr frames \<Rightarrow> peer_frames frames (c\<lparr>pt_reading := Some rest\<rparr>)) }
           | _ \<Rightarrow> Some (c\<lparr>pt_reading := None, pt_closed := True\<rparr>)))"

definition peer_write_fails :: "PeerTcpConnection \<Rightarrow> PeerTcpConnection" where
  "peer_write_fails c = c\<lparr>pt_writer_dead := True\<rparr>"

end
