(* ===== verification/TransportProps.thy ===== *)
theory TransportProps
  imports Transports
begin

text \<open>
  The TCP transports and the relay together: registration and delivery end to end, the client
  that never dials again, and the direct connection between two peers.
\<close>

section \<open>Through the relay\<close>

lemma client_emit_simps [simp]:
  "rc_writer (client_emit e c) = rc_writer c" "rc_reading (client_emit e c) = rc_reading c"
  "rc_writer_dead (client_emit e c) = rc_writer_dead c" "rc_connecting (client_emit e c) = rc_connecting c"
  "rc_addr (client_emit e c) = rc_addr c" "rc_out (client_emit e c) = rc_out c @ [e]"
  "rc_next (client_emit e c) = rc_next c"
  by (simp_all add: client_emit_def)

definition register_inner :: "hmac \<Rightarrow> bytes \<Rightarrow> RelayTcpClient \<Rightarrow> bytes" where
  "register_inner h nonce c = encode_cmd CMD_REGISTER (drop 3 (build_register h (rc_device_id c) (rc_relay_key c) nonce))"

lemma register_body:
  assumes "hmac32 h" and "length nonce = 16"
  shows "length (drop 3 (build_register h d k nonce)) = 56"
    and "of_nat (le_val (take 8 (drop 3 (build_register h d k nonce)))) = d"
  using assms by (simp_all add: build_register_def Let_def write_u64_le_def register_mac_def hmac32_def)

lemma authenticate_client:
  assumes "hmac32 h" and "length nonce = 16" and "lookup (rc_device_id a) = Some (rc_relay_key a)"
    and "guard_admit now (rc_device_id a) nonce (tr_register_guard r) = (True, g)"
  shows "authenticate h lookup now (Some (register_inner h nonce a)) r
     = (Inr (rc_device_id a), r\<lparr>tr_register_guard := g\<rparr>)"
  using assms register_body [OF assms(1,2)] build_register_fields(3,4) [OF assms(1,2)]
  by (simp add: authenticate_def register_inner_def relay_tcp_parse_encode Let_def)

lemma session_starts:
  assumes "tget (tr_connections r) d = None" and "tget (tr_queues r) cid = Some []"
  shows "\<exists>ack. session_start now cid c d r
     = r\<lparr>tr_connections := tput d cid (tr_connections r), tr_presence := touch_relay_tcp now d (tr_presence r),
         tr_conns := tput cid (c\<lparr>cn_phase := Session, cn_device := d, cn_buf := []\<rparr>) (tr_conns r),
         tr_queues := tput cid [ack] (tr_queues r)\<rparr>"
  using assms by (auto simp: session_start_def try_send_def set_conn_def RELAY_TCP_QUEUE_FRAMES_def Let_def)

lemma framed_one: "length p \<le> TCP_MAX_PAYLOAD \<Longrightarrow> feed [] (framed p) = Some (Inr [p], [])"
  by (simp add: framed_def feed_one)

lemma framed_nonempty [simp]: "framed p \<noteq> []"
proof -
  have "length (framed p) = 4 + length p" by (simp add: framed_def write_length_prefixed_def write_u32_le_def)
  then show ?thesis by auto
qed

lemma client_reads_frame:
  assumes "tget (rc_reading b) k = Some []" and "length inner + 3 \<le> TCP_MAX_PAYLOAD"
  shows "\<exists>b'. client_read k (ReadBytes (framed (encode_cmd CMD_TCP_FRAME inner))) b = Some b'
     \<and> rc_out b' = rc_out b @ [FrameEvent inner] \<and> tget (rc_reading b') k = Some []"
proof -
  have "length (encode_cmd CMD_TCP_FRAME inner) \<le> TCP_MAX_PAYLOAD" using assms(2) by (simp add: encode_cmd_def)
  from framed_one [OF this] show ?thesis
    using assms(1) by (simp add: client_read_def client_frame_def relay_tcp_parse_encode table_simps)
qed

text \<open>
  C4 (functional). A node whose client of the TCP relay has just connected, a server that knows its key and has
  not seen its nonce, and a receiving node connected to that server: the bytes the client
  writes on connecting are one frame that authenticates it; a frame it then sends to the
  receiver is queued on the receiver's connection, and what the receiver reads from there
  gives its engine exactly that frame.
\<close>
theorem relay_tcp_end_to_end:
  assumes "hmac32 h" and "length nonce = 16" and "lookup (rc_device_id a) = Some (rc_relay_key a)"
    and "fst (guard_admit now (rc_device_id a) nonce (tr_register_guard r))"
    and "\<not> rc_writer_dead a (rc_next a)"
    and "tget (tr_conns r) cid = Some c" and "cn_phase c = PreAuth"
    and "tget (tr_connections r) (rc_device_id a) = None"
    and "tget (tr_connections r) dst = Some t" and "t \<noteq> cid"
    and "tget (tr_queues r) t = Some q" and "length q < RELAY_TCP_QUEUE_FRAMES"
    and "length frame + 11 \<le> TCP_MAX_PAYLOAD" and "tget (rc_reading b) k = Some []"
  shows "\<exists>reg first msg m a1 a2 b1.
       ensure_done h nonce True a = a1 \<and> rc_out a1 = rc_out a @ [SocketWrite (rc_next a) reg]
     \<and> feed [] reg = Some (Inr [first], [])
     \<and> client_send dst frame a1 = (True, a2) \<and> rc_out a2 = rc_out a1 @ [QueueWrite (rc_next a) msg]
     \<and> tget (tr_queues (snd (tcp_step h lookup (snd (tcp_step h lookup r (FirstFrame cid now (Some first))))
          (Chunk cid later msg)))) t = Some (q @ [m])
     \<and> client_read k (ReadBytes m) b = Some b1 \<and> rc_out b1 = rc_out b @ [FrameEvent frame]"
proof -
  obtain g where g: "guard_admit now (rc_device_id a) nonce (tr_register_guard r) = (True, g)"
    using assms(4) by (cases "guard_admit now (rc_device_id a) nonce (tr_register_guard r)") simp
  let ?first = "register_inner h nonce a"
  let ?r0 = "r\<lparr>tr_register_guard := g, tr_queues := tput cid [] (tr_queues r)\<rparr>"
  let ?r1 = "snd (tcp_step h lookup r (FirstFrame cid now (Some ?first)))"
  have r1: "?r1 = session_start now cid c (rc_device_id a) ?r0"
    using assms(6,7) authenticate_client [where lookup = lookup, OF assms(1-3) g] by simp
  obtain ack where start: "session_start now cid c (rc_device_id a) ?r0
     = ?r0\<lparr>tr_connections := tput (rc_device_id a) cid (tr_connections ?r0),
           tr_presence := touch_relay_tcp now (rc_device_id a) (tr_presence ?r0),
           tr_conns := tput cid (c\<lparr>cn_phase := Session, cn_device := rc_device_id a, cn_buf := []\<rparr>) (tr_conns ?r0),
           tr_queues := tput cid [ack] (tr_queues ?r0)\<rparr>"
    using session_starts [of ?r0 "rc_device_id a" cid now c] assms(8) by (auto simp: table_simps)
  have d: "dst \<noteq> rc_device_id a" using assms(8,9) by auto
  let ?send = "encode_cmd CMD_TCP_SEND (build_send_body dst frame)"
  have "tget (tr_queues (snd (tcp_step h lookup ?r1 (Chunk cid later (write_length_prefixed [] ?send))))) t
      = Some (q @ [length_prefix (encode_cmd CMD_TCP_FRAME frame)])"
    by (rule send_chunk_queues(2) [OF _ _ _ _ _ assms(12) assms(13) refl,
          where c = "c\<lparr>cn_phase := Session, cn_device := rc_device_id a, cn_buf := []\<rparr>"])
       (use d assms(9-11) in \<open>simp_all only: r1 start, simp_all add: table_simps\<close>)
  moreover obtain b1 where "client_read k (ReadBytes (framed (encode_cmd CMD_TCP_FRAME frame))) b = Some b1"
    "rc_out b1 = rc_out b @ [FrameEvent frame]"
    using client_reads_frame [OF assms(14), of frame] assms(13) by auto
  moreover have "feed [] (framed ?first) = Some (Inr [?first], [])"
    using register_body(1) [OF assms(1,2)] by (intro framed_one) (simp add: register_inner_def encode_cmd_def TCP_MAX_PAYLOAD_def)
  moreover have "\<exists>a2. client_send dst frame (ensure_done h nonce True a) = (True, a2)
      \<and> rc_out a2 = rc_out (ensure_done h nonce True a) @ [QueueWrite (rc_next a) (framed ?send)]"
    using assms(5) by (simp add: ensure_done_def client_send_def queue_write_def Let_def client_emit_def)
  moreover have "rc_out (ensure_done h nonce True a) = rc_out a @ [SocketWrite (rc_next a) (framed ?first)]"
    by (simp add: ensure_done_def register_frame_def register_inner_def Let_def client_emit_def)
  ultimately show ?thesis unfolding framed_def length_prefix_def by blast
qed

definition demo_client :: RelayTcpClient where
  "demo_client = relay_tcp_client_new 5 [1, 2]"

theorem relay_tcp_end_to_end_witness:
  "\<exists>m b1. client_read 0 (ReadBytes m) (ensure_done demo_hmac (replicate 16 7) True (relay_tcp_client_new 9 [3])) = Some b1
     \<and> FrameEvent [1, 2, 3] \<in> set (rc_out b1)"
proof -
  let ?b = "ensure_done demo_hmac (replicate 16 7) True (relay_tcp_client_new 9 [3])"
  let ?r = "(tcp_relay_new presence_new [])\<lparr>tr_connections := [(9, 3)], tr_queues := [(3, [])],
      tr_conns := [(4, \<lparr>cn_ip = 1, cn_port = 2, cn_phase = PreAuth, cn_device = 0, cn_buf = []\<rparr>)]\<rparr>"
  have "hmac32 demo_hmac" by (simp add: hmac32_def demo_hmac_def)
  from relay_tcp_end_to_end [OF this, of "replicate 16 8" "\<lambda>_. Some [1, 2]" demo_client 10 ?r 4
      "\<lparr>cn_ip = 1, cn_port = 2, cn_phase = PreAuth, cn_device = 0, cn_buf = []\<rparr>" 9 3 "[]" "[1, 2, 3]" ?b 0 11]
  obtain m b1 where "client_read 0 (ReadBytes m) ?b = Some b1" "rc_out b1 = rc_out ?b @ [FrameEvent [1, 2, 3]]"
    by (auto simp: demo_client_def relay_tcp_client_new_def tcp_relay_new_def guard_admit_def ensure_done_def
        RELAY_TCP_QUEUE_FRAMES_def TCP_MAX_PAYLOAD_def Let_def)
  then have "FrameEvent [1, 2, 3] \<in> set (rc_out b1)" by simp
  then show ?thesis using \<open>client_read 0 (ReadBytes m) ?b = Some b1\<close> by blast
qed

section \<open>The client that never dials again\<close>

datatype ClientOp =
    OpSend u64 bytes
  | OpKeepalive
  | OpWriteFails nat
  | OpRead nat ReadOutcome

text \<open>send with its attempt to connect: the address dialled, if any, and its result.\<close>

fun client_op :: "RelayTcpClient \<Rightarrow> ClientOp \<Rightarrow> (SocketAddr option \<times> bool) \<times> RelayTcpClient" where
  "client_op c (OpSend dst frame) =
     (let (dial, c) = (if is_connected c then (None, c) else ensure_start c);
          (ok, c) = client_send dst frame c in ((dial, ok), c))"
| "client_op c OpKeepalive = ((None, True), client_keepalive c)"
| "client_op c (OpWriteFails n) = ((None, True), client_write_fails n c)"
| "client_op c (OpRead n outcome) = ((None, True), case client_read n outcome c of Some c' \<Rightarrow> c' | None \<Rightarrow> c)"

definition stuck :: "RelayTcpClient \<Rightarrow> bool" where
  "stuck c = (rc_writer c \<noteq> None \<and> rc_reading c = [])"

lemma stuck_op: "stuck c \<Longrightarrow> fst (fst (client_op c x)) = None \<and> stuck (snd (client_op c x))
   \<and> (FrameEvent f \<in> set (rc_out (snd (client_op c x))) \<longleftrightarrow> FrameEvent f \<in> set (rc_out c))"
  by (cases x)
     (auto simp: stuck_def is_connected_def client_send_def client_keepalive_def queue_write_def
       client_write_fails_def client_read_def split: option.splits)

text \<open>
  After the relay has answered with an ERROR frame the client's read loop returns with the
  writer slot still set. From then on, whatever is sent, and whether or not writes fail, the
  client never dials the relay again and never gives the engine another frame.
\<close>
theorem relay_client_never_redials:
  assumes "rc_writer c = Some n" and "rc_reading c = [(n, buf)]"
    and "feed buf chunk = Some (Inr [encode_cmd CMD_ERROR body], rest)" and "chunk \<noteq> []"
    and "client_read n (ReadBytes chunk) c = Some c1"
  shows "list_all (\<lambda>(dial, _). dial = None) (fst (run client_op c1 ops))
     \<and> {f. FrameEvent f \<in> set (rc_out (snd (run client_op c1 ops)))} = {f. FrameEvent f \<in> set (rc_out c)}"
proof -
  have "stuck x \<Longrightarrow> list_all (\<lambda>(dial, _). dial = None) (fst (run client_op x ops))
     \<and> {f. FrameEvent f \<in> set (rc_out (snd (run client_op x ops)))} = {f. FrameEvent f \<in> set (rc_out x)}" for x
  proof (induction ops arbitrary: x)
    case (Cons y ops)
    then show ?case using stuck_op [OF Cons.prems, of y] by (auto simp: Let_def case_prod_beta)
  qed simp
  moreover have "stuck c1" "{f. FrameEvent f \<in> set (rc_out c1)} = {f. FrameEvent f \<in> set (rc_out c)}"
    using assms by (auto simp: client_read_def client_frame_def relay_tcp_parse_encode stuck_def table_simps)
  ultimately show ?thesis by simp
qed

theorem relay_client_never_redials_witness:
  "\<exists>c1. client_read 0 (ReadBytes (framed (encode_cmd CMD_ERROR [65]))) (ensure_done demo_hmac [] True demo_client) = Some c1
     \<and> list_all (\<lambda>(dial, _). dial = None) (fst (run client_op c1 [OpSend 9 [1], OpWriteFails 0, OpSend 9 [2], OpSend 9 [3]]))"
proof -
  have f: "feed [] (framed (encode_cmd CMD_ERROR [65])) = Some (Inr [encode_cmd CMD_ERROR [65]], [])"
    by (rule framed_one) (simp add: encode_cmd_def TCP_MAX_PAYLOAD_def)
  have r: "rc_writer (ensure_done demo_hmac [] True demo_client) = Some 0"
    "rc_reading (ensure_done demo_hmac [] True demo_client) = [(0, [])]"
    by (simp_all add: ensure_done_def demo_client_def relay_tcp_client_new_def Let_def)
  obtain c1 where c1: "client_read 0 (ReadBytes (framed (encode_cmd CMD_ERROR [65]))) (ensure_done demo_hmac [] True demo_client) = Some c1"
    using f r by (simp add: client_read_def client_frame_def relay_tcp_parse_encode)
  show ?thesis using relay_client_never_redials [OF r f _ c1] c1 by (auto simp del: run.simps)
qed

section \<open>Between two peers\<close>

text \<open>The frames a connection was given, and the bytes it wrote for them.\<close>

fun peer_sends :: "bytes list \<Rightarrow> PeerTcpConnection \<Rightarrow> PeerTcpConnection" where
  "peer_sends [] c = c"
| "peer_sends (f # fs) c = peer_sends fs (snd (peer_send f c))"

fun peer_reads :: "bytes list \<Rightarrow> PeerTcpConnection \<Rightarrow> PeerTcpConnection option" where
  "peer_reads [] c = Some c"
| "peer_reads (x # xs) c = Option.bind (peer_read (Some x) c) (peer_reads xs)"

lemma peer_sends_written:
  "\<not> pt_closed c \<Longrightarrow> \<not> pt_writer_dead c \<Longrightarrow> pt_written (peer_sends fs c) = pt_written c @ map framed fs"
  by (induction fs arbitrary: c) (simp_all add: peer_send_def)

text \<open>The sender of the first frame that parses with a sender other than 0, unless one is known.\<close>

fun first_sender :: "u64 \<Rightarrow> bytes list \<Rightarrow> u64" where
  "first_sender p [] = p"
| "first_sender p (f # fs) =
     (if p \<noteq> 0 then p
      else first_sender (case try_parse f of Some (Some r) \<Rightarrow> rf_sender_id r | _ \<Rightarrow> 0) fs)"

lemma first_sender_known: "p \<noteq> 0 \<Longrightarrow> first_sender p fs = p"
  by (cases fs) simp_all

lemma peer_frames_all:
  "\<exists>c'. peer_frames fs c = Some c' \<and> pt_events c' = pt_events c @ fs \<and> pt_closed c' = pt_closed c
     \<and> pt_reading c' = pt_reading c \<and> pt_peer_id c' = first_sender (pt_peer_id c) fs"
proof (induction fs arbitrary: c)
  case (Cons f fs)
  obtain r where r: "try_parse f = Some r" using try_parse_eq by blast
  obtain c1 where c1: "peer_frame f c = Some c1" "pt_events c1 = pt_events c @ [f]" "pt_closed c1 = pt_closed c"
    "pt_reading c1 = pt_reading c"
    "pt_peer_id c1 = (if pt_peer_id c \<noteq> 0 then pt_peer_id c else case r of Some x \<Rightarrow> rf_sender_id x | None \<Rightarrow> 0)"
    by (cases r) (auto simp: peer_frame_def r Let_def)
  then show ?case using Cons.IH [of c1] r by (auto simp: first_sender_known)
qed simp

lemma first_sender_append: "first_sender p (xs @ ys) = first_sender (first_sender p xs) ys"
  by (induction xs arbitrary: p) (simp_all add: first_sender_known)

lemma peer_reads_all:
  assumes "feed_all buf xs = Some (Inr fs, rest)" and "pt_reading c = Some buf" and "list_all (\<lambda>x. x \<noteq> []) xs"
  shows "\<exists>c'. peer_reads xs c = Some c' \<and> pt_events c' = pt_events c @ fs \<and> pt_closed c' = pt_closed c
     \<and> pt_reading c' = Some rest \<and> pt_peer_id c' = first_sender (pt_peer_id c) fs"
  using assms
proof (induction xs arbitrary: buf fs c)
  case (Cons x xs)
  obtain g gs b where f: "feed buf x = Some (Inr g, b)" "feed_all b xs = Some (Inr gs, rest)" "fs = g @ gs"
    using Cons.prems(1) by (auto simp: prepend_eq_Inr split: option.splits sum.splits)
  obtain c1 where c1: "peer_frames g (c\<lparr>pt_reading := Some b\<rparr>) = Some c1" "pt_events c1 = pt_events c @ g"
    "pt_closed c1 = pt_closed c" "pt_reading c1 = Some b" "pt_peer_id c1 = first_sender (pt_peer_id c) g"
    using peer_frames_all [of g "c\<lparr>pt_reading := Some b\<rparr>"] by auto
  have "peer_read (Some x) c = Some c1"
    using Cons.prems(2,3) f(1) c1(1) by (cases x) (simp_all add: peer_read_def)
  then show ?case
    using Cons.IH [OF f(2) c1(4)] Cons.prems(3) c1 f(3) by (auto simp: first_sender_append)
qed simp

text \<open>
  Frames sent over a direct connection arrive at the other end's engine in order and
  unchanged, however the stream is cut into reads, and the connection takes its peer from
  the first frame that parses.
\<close>
theorem peer_tcp_delivers:
  assumes "list_all (\<lambda>f. length f \<le> TCP_MAX_PAYLOAD) fs" and "list_all (\<lambda>x. x \<noteq> []) xs"
    and "concat xs = concat (pt_written (peer_sends fs peer_wrap))"
  shows "\<exists>c. peer_reads xs peer_wrap = Some c \<and> pt_events c = fs \<and> \<not> pt_closed c
     \<and> pt_peer_id c = first_sender 0 fs"
proof -
  have "concat xs = stream_of fs"
    using assms(3) peer_sends_written [of peer_wrap fs] by (simp add: peer_wrap_def stream_of_def framed_def [abs_def])
  then have "feed_all [] xs = Some (Inr fs, [])"
    using reassembler_any_chunking [of fs xs] assms(1) by (simp add: list_all_iff)
  from peer_reads_all [OF this, of peer_wrap] assms(2) show ?thesis by (auto simp: peer_wrap_def)
qed

theorem peer_tcp_delivers_witness:
  "\<exists>c. peer_reads (map (\<lambda>b. [b]) (concat (pt_written (peer_sends [[7, 8], [9]] peer_wrap)))) peer_wrap = Some c
     \<and> pt_events c = [[7, 8], [9]]"
proof -
  have "concat (map (\<lambda>b. [b]) xs) = xs" for xs :: bytes by (induction xs) simp_all
  then show ?thesis
    using peer_tcp_delivers [of "[[7, 8], [9]]" "map (\<lambda>b. [b]) (concat (pt_written (peer_sends [[7, 8], [9]] peer_wrap)))"]
    by (auto simp: TCP_MAX_PAYLOAD_def list_all_iff)
qed

end
