(* ===== verification/Proxy.thy ===== *)
theory Proxy
  imports Flow
begin

text \<open>
  crates/skiff-node/src/proxy: the SOCKS5 server (socks5.rs) and the port forwarders
  (forwarders.rs), over the flow manager and the peers of the engine. The bytes of a client
  connection are given as one text, what the socket operations give as arguments; what is
  written to the client is a result.
\<close>

definition PUMP_BUF :: nat where "PUMP_BUF = FLOW_CHUNK"
definition UDP_IDLE_MS :: millis where "UDP_IDLE_MS = 5 * 60 * 1000"

text \<open>Network integers and addresses.\<close>

definition u16_from_be :: "u8 \<Rightarrow> u8 \<Rightarrow> u16" where
  "u16_from_be a b = of_nat (256 * unat a + unat b)"

definition u16_be_bytes :: "u16 \<Rightarrow> bytes" where
  "u16_be_bytes p = [of_nat (unat p div 256), of_nat (unat p mod 256)]"

definition ip_of_bytes :: "u8 \<Rightarrow> u8 \<Rightarrow> u8 \<Rightarrow> u8 \<Rightarrow> u32" where
  "ip_of_bytes a b c d = ipv4_of_octets (unat a) (unat b) (unat c) (unat d)"

definition ip_octets :: "u32 \<Rightarrow> bytes" where
  "ip_octets a = [of_nat (octet a 3), of_nat (octet a 2), of_nat (octet a 1), of_nat (octet a 0)]"

section \<open>SOCKS5: the handshake\<close>

definition parse_listen :: "string \<Rightarrow> SocketAddr option" where
  "parse_listen listen =
     (case parse_socket_addr listen of
        Some a \<Rightarrow> Some a
      | None \<Rightarrow>
          (case parse_u16 listen of
             Some port \<Rightarrow> Some (SocketAddrV4 0x7F000001 port)
           | None \<Rightarrow> None))"

datatype SocksError =
    SocksEof
  | NotSocks5
  | ResolveFailed
  | Ipv6Unsupported
  | BadAtyp
  | UnsupportedCmd u8
  | OutsideNetwork
  | FlowOpenFailed

text \<open>read\_exact: None when the stream ends before.\<close>

definition read_exact :: "nat \<Rightarrow> bytes \<Rightarrow> SocksError + bytes \<times> bytes" where
  "read_exact n s = (if length s < n then Inl SocksEof else Inr (take n s, drop n s))"

text \<open>The first IPv4 address of a name is the argument \<open>resolve\<close>.\<close>

definition read_target :: "(string \<Rightarrow> u32 option) \<Rightarrow> u8 \<Rightarrow> bytes \<Rightarrow> SocksError + u32 \<times> bytes" where
  "read_target resolve atyp s =
     (if atyp = 1 then
        (case read_exact 4 s of
           Inr ([a, b, c, d], s) \<Rightarrow> Inr (ip_of_bytes a b c d, s)
         | _ \<Rightarrow> Inl SocksEof)
      else if atyp = 3 then
        (case read_exact 1 s of
           Inr ([len], s) \<Rightarrow>
             (case read_exact (unat len) s of
                Inr (name, s) \<Rightarrow>
                  (case resolve (from_utf8_lossy name) of
                     Some ip \<Rightarrow> Inr (ip, s)
                   | None \<Rightarrow> Inl ResolveFailed)
              | Inl e \<Rightarrow> Inl e)
         | _ \<Rightarrow> Inl SocksEof)
      else if atyp = 4 then Inl Ipv6Unsupported
      else Inl BadAtyp)"

datatype SocksCmd = Connect u32 u16 | UdpAssociate u32 u16

text \<open>handle\_client up to the dispatch: what was written to the client, and the command.\<close>

definition socks_request :: "(string \<Rightarrow> u32 option) \<Rightarrow> bytes \<Rightarrow> bytes \<times> (SocksError + SocksCmd \<times> bytes)" where
  "socks_request resolve s =
     (case read_exact 4 s of
        Inr ([ver, cmd, rsv, atyp], s) \<Rightarrow>
          (case read_target resolve atyp s of
             Inl e \<Rightarrow> ([], Inl e)
           | Inr (ip, s) \<Rightarrow>
               (case read_exact 2 s of
                  Inr ([p, q], s) \<Rightarrow>
                    (if cmd = 1 then ([], Inr (Connect ip (u16_from_be p q), s))
                     else if cmd = 3 then ([], Inr (UdpAssociate ip (u16_from_be p q), s))
                     else ([5, 7, 0, 1, 0, 0, 0, 0, 0, 0], Inl (UnsupportedCmd cmd)))
                | _ \<Rightarrow> ([], Inl SocksEof)))
      | _ \<Rightarrow> ([], Inl SocksEof))"

definition handle_client :: "(string \<Rightarrow> u32 option) \<Rightarrow> bytes \<Rightarrow> bytes \<times> (SocksError + SocksCmd \<times> bytes)" where
  "handle_client resolve s =
     (case read_exact 2 s of
        Inr ([ver, nmethods], s) \<Rightarrow>
          if ver \<noteq> 5 then ([], Inl NotSocks5)
          else (case read_exact (unat nmethods) s of
                  Inl e \<Rightarrow> ([], Inl e)
                | Inr (_, s) \<Rightarrow>
                    (let (out, r) = socks_request resolve s in ([5, 0] @ out, r)))
      | _ \<Rightarrow> ([], Inl SocksEof))"

definition socks_reply :: "u8 \<Rightarrow> u32 \<Rightarrow> u16 \<Rightarrow> bytes" where
  "socks_reply code ip port = [5, code, 0, 1] @ ip_octets ip @ u16_be_bytes port"

section \<open>SOCKS5: CONNECT\<close>

text \<open>
  handle\_connect up to the pump: the flow to open, then the reply after its outcome.
\<close>

definition connect_target :: "Engine \<Rightarrow> u32 \<Rightarrow> u16 \<Rightarrow> bytes + NetId \<times> u64 \<times> string" where
  "connect_target s ip port =
     (case peer_by_ip s ip of
        None \<Rightarrow> Inl (socks_reply 4 0x7F000001 0)
      | Some (net_id, h) \<Rightarrow> Inr (net_id, se_id (sess s h), show_sockaddr_v4 ip port))"

definition connect_reply :: "bool \<Rightarrow> u32 \<Rightarrow> u16 \<Rightarrow> bytes \<times> SocksError option" where
  "connect_reply flow_ok ip port =
     (if flow_ok then (socks_reply 0 ip port, None)
      else (socks_reply 5 0x7F000001 0, Some FlowOpenFailed))"

text \<open>
  One turn of the pump from the local socket, which the forwarders share: what a read could
  give, and the chunk size of the path.
\<close>

definition pump_read :: "nat \<Rightarrow> bytes \<Rightarrow> NetId \<Rightarrow> u64 \<Rightarrow> u32 \<Rightarrow> FlowManager \<Rightarrow> FlowManager" where
  "pump_read chunk_hint avail net_id peer flow_id m =
     (let buf = take (min chunk_hint PUMP_BUF) avail in
      if buf = [] then stream_close flow_id m else stream_write net_id peer flow_id buf m)"

text \<open>
  The pump to the local socket: it ends with the stream or at the first write that fails,
  when the other direction is aborted; the flow manager is not told.
\<close>

fun pump_write :: "(bytes \<times> bool) list \<Rightarrow> bytes" where
  "pump_write [] = []"
| "pump_write ((chunk, written) # rest) = (if written then chunk @ pump_write rest else [])"

section \<open>SOCKS5: UDP ASSOCIATE\<close>

definition parse_socks_udp_header :: "bytes \<Rightarrow> (u32 \<times> u16 \<times> bytes) option option" where
  "parse_socks_udp_header packet =
     (if length packet < 10 \<or> packet ! 0 \<noteq> 0 \<or> packet ! 1 \<noteq> 0 \<or> packet ! 2 \<noteq> 0 then Some None
      else do {
        atyp \<leftarrow> idx packet 3;
        if atyp = 1 then do {
          ip \<leftarrow> slice packet 4 8;
          p \<leftarrow> idx packet 8; q \<leftarrow> idx packet 9;
          payload \<leftarrow> slice_from packet 10;
          Some (case ip of
                  [a, b, c, d] \<Rightarrow> Some (ip_of_bytes a b c d, u16_from_be p q, payload)
                | _ \<Rightarrow> None) }
        else if atyp = 3 then do {
          len \<leftarrow> idx packet 4;
          if length packet < 5 + unat len + 2 then Some None
          else do {
            _ \<leftarrow> slice packet 5 (5 + unat len);
            _ \<leftarrow> idx packet (5 + unat len); _ \<leftarrow> idx packet (6 + unat len);
            Some None } }
        else Some None })"

record UdpAssociation =
  ua_port :: u16
  ua_client_ep :: "SocketAddr option"
  ua_flows :: "(NetId \<times> u64, u32) table"

definition udp_association_new :: "u16 \<Rightarrow> UdpAssociation" where
  "udp_association_new port = \<lparr>ua_port = port, ua_client_ep = None, ua_flows = []\<rparr>"

text \<open>
  One datagram of the client. The receiver of a new flow is merged into the answers of the
  association; \<open>draws\<close> are the random numbers of its id.
\<close>

definition assoc_datagram ::
  "Engine \<Rightarrow> u32 list \<Rightarrow> SocketAddr \<Rightarrow> bytes \<Rightarrow> UdpAssociation \<Rightarrow> FlowManager
     \<Rightarrow> (UdpAssociation \<times> FlowManager) option" where
  "assoc_datagram s draws client packet ua m =
     (let ua = (if ua_client_ep ua = None then ua\<lparr>ua_client_ep := Some client\<rparr> else ua) in
      Option.bind (parse_socks_udp_header packet) (\<lambda>parsed.
        Some (case parsed of
                None \<Rightarrow> (ua, m)
              | Some (dst_ip, dst_port, payload) \<Rightarrow>
                  (case peer_by_ip s dst_ip of
                     None \<Rightarrow> (ua, m)
                   | Some (net_id, h) \<Rightarrow>
                       (let peer = se_id (sess s h);
                            dst = show_sockaddr_v4 dst_ip dst_port in
                        case tget (ua_flows ua) (net_id, peer) of
                          Some flow_id \<Rightarrow> (ua, udp_flow_send net_id peer flow_id dst payload m)
                        | None \<Rightarrow>
                            (case open_udp draws net_id peer (show_sockaddr_v4 (se_virtual_ip (sess s h)) (ua_port ua)) m of
                               (Some (flow_id, _), m1) \<Rightarrow>
                                 (ua\<lparr>ua_flows := tput (net_id, peer) flow_id (ua_flows ua)\<rparr>,
                                  udp_flow_send net_id peer flow_id dst payload m1)
                             | (None, m1) \<Rightarrow> (ua, m1)))))))"

text \<open>An answer of the mesh as the datagram for the client, with the address it goes to.\<close>

definition socks_wrap :: "u32 \<Rightarrow> u16 \<Rightarrow> bytes \<Rightarrow> bytes" where
  "socks_wrap ip port data = [0, 0, 0, 1] @ ip_octets ip @ u16_be_bytes port @ data"

definition assoc_answer :: "string \<Rightarrow> bytes \<Rightarrow> UdpAssociation \<Rightarrow> (bytes \<times> SocketAddr) option" where
  "assoc_answer addr data ua =
     (case parse_socket_addr addr of
        Some (SocketAddrV4 ip port) \<Rightarrow> map_option (\<lambda>ep. (socks_wrap ip port data, ep)) (ua_client_ep ua)
      | _ \<Rightarrow> None)"

text \<open>The end of the control connection.\<close>

definition assoc_end :: "UdpAssociation \<Rightarrow> FlowManager \<Rightarrow> FlowManager" where
  "assoc_end ua m = fold (\<lambda>e. udp_flow_close (snd e)) (ua_flows ua) m"

section \<open>Port forwarders\<close>

text \<open>spawn\_all: the rules whose addresses parse; the first that does not ends it.\<close>

fun forward_plan :: "ForwardRule list \<Rightarrow> (ProtoKind \<times> SocketAddr \<times> SocketAddr) list \<times> bool" where
  "forward_plan [] = ([], True)"
| "forward_plan (rule # rules) =
     (case (parse_socket_addr (fr_listen rule), parse_socket_addr (fr_dest rule)) of
        (Some listen, Some dest) \<Rightarrow>
          (let (plan, ok) = forward_plan rules in ((fr_proto rule, listen, dest) # plan, ok))
      | _ \<Rightarrow> ([], False))"

text \<open>pump\_tcp up to the pump: the flow to open.\<close>

definition forward_target :: "Engine \<Rightarrow> SocketAddr \<Rightarrow> (NetId \<times> u64 \<times> string) option" where
  "forward_target s dest =
     (case dest of
        SocketAddrV4 ip port \<Rightarrow>
          (case peer_by_ip s ip of
             None \<Rightarrow> None
           | Some (net_id, h) \<Rightarrow> Some (net_id, se_id (sess s h), show_sockaddr_v4 ip port))
      | SocketAddrV6 _ _ _ \<Rightarrow> None)"

record UdpFlowEntry =
  uf_net_id :: NetId
  uf_peer :: u64
  uf_flow_id :: u32
  uf_last_seen_ms :: millis

type_synonym UdpForward = "(SocketAddr, UdpFlowEntry) table"

definition forward_datagram ::
  "Engine \<Rightarrow> u32 list \<Rightarrow> millis \<Rightarrow> SocketAddr \<Rightarrow> SocketAddr \<Rightarrow> bytes \<Rightarrow> UdpForward \<Rightarrow> FlowManager
     \<Rightarrow> UdpForward \<times> FlowManager" where
  "forward_datagram s draws now dest client data flows m =
     (let (entry, flows, m) =
        (case tget flows client of
           Some e \<Rightarrow> (Some e, flows, m)
         | None \<Rightarrow>
             (case forward_target s dest of
                None \<Rightarrow> (None, flows, m)
              | Some (net_id, peer, text) \<Rightarrow>
                  (case open_udp draws net_id peer text m of
                     (None, m1) \<Rightarrow> (None, flows, m1)
                   | (Some (flow_id, _), m1) \<Rightarrow>
                       (let e = \<lparr>uf_net_id = net_id, uf_peer = peer, uf_flow_id = flow_id, uf_last_seen_ms = 0\<rparr>
                        in (Some e, tput client e flows, m1)))))
      in case (entry, dest) of
           (Some e, SocketAddrV4 ip port) \<Rightarrow>
             (tput client (e\<lparr>uf_last_seen_ms := now\<rparr>) flows,
              udp_flow_send (uf_net_id e) (uf_peer e) (uf_flow_id e) (show_sockaddr_v4 ip port) data m)
         | _ \<Rightarrow> (flows, m))"

definition entry_fresh :: "millis \<Rightarrow> UdpFlowEntry \<Rightarrow> bool" where
  "entry_fresh now e = (now - uf_last_seen_ms e < UDP_IDLE_MS)"

definition forward_sweep :: "millis \<Rightarrow> UdpForward \<Rightarrow> FlowManager \<Rightarrow> UdpForward \<times> FlowManager" where
  "forward_sweep now flows m =
     (tkeep (\<lambda>_ e. entry_fresh now e) flows,
      fold (\<lambda>(_, e) m. if entry_fresh now e then m else udp_flow_close (uf_flow_id e) m) flows m)"

end
