(* ===== verification/ProxyProps.thy ===== *)
theory ProxyProps
  imports Proxy FlowPeers
begin

text \<open>
  The SOCKS server and the forwarders: what they parse is what was built, where a datagram
  goes, which flows are collected, and what a forwarder does after its peer has left.
\<close>

section \<open>Formats\<close>

lemma unat_octet: "unat (of_nat (octet a i) :: u8) = octet a i"
  using octet_lt [of a i] by (simp add: unat_of_nat)

lemma ip_of_octets: "ip_octets a = [w, x, y, z] \<Longrightarrow> ip_of_bytes w x y z = a"
  using ipv4_octets [of a] by (auto simp: ip_octets_def ip_of_bytes_def unat_octet)

lemma u16_be:
  assumes "u16_be_bytes p = [x, y]"
  shows "u16_from_be x y = p"
proof -
  have "unat p < 65536" using unsigned_less [of p, where ?'a = nat] by simp
  then have "unat x = unat p div 256" "unat y = unat p mod 256"
    using assms by (auto simp: u16_be_bytes_def unat_of_nat)
  then have "256 * unat x + unat y = unat p" by simp
  then have "u16_from_be x y = of_nat (unat p)" unfolding u16_from_be_def by (rule arg_cong)
  then show ?thesis by simp
qed

lemma ip_octets_four: "\<exists>w x y z. ip_octets a = [w, x, y, z]"
  by (simp add: ip_octets_def)

lemma u16_be_two: "\<exists>x y. u16_be_bytes p = [x, y]"
  by (simp add: u16_be_bytes_def)

lemma parse_wrapped: "parse_socks_udp_header (socks_wrap ip port data) = Some (Some (ip, port, data))"
proof -
  obtain w x y z where ip: "ip_octets ip = [w, x, y, z]" using ip_octets_four by blast
  obtain p q where port: "u16_be_bytes port = [p, q]" using u16_be_two by blast
  have "socks_wrap ip port data = [0, 0, 0, 1, w, x, y, z, p, q] @ data" by (simp add: socks_wrap_def ip port)
  then show ?thesis
    using ip_of_octets [OF ip] u16_be [OF port]
    by (simp add: parse_socks_udp_header_def idx_def slice_def slice_from_def eval_nat_numeral)
qed

lemma length_four: "length xs = 4 \<Longrightarrow> \<exists>a b c d. xs = [a, b, c, d]"
  by (auto simp: length_Suc_conv eval_nat_numeral)

lemma parse_header_total: "\<exists>r. parse_socks_udp_header b = Some r"
  by (auto simp: parse_socks_udp_header_def idx_def slice_def slice_from_def Let_def
      split: option.splits list.splits)

lemma connect_parsed:
  assumes "length methods < 256"
  shows "handle_client resolve ([5, of_nat (length methods)] @ methods @ [5, 1, rsv, 1] @ ip_octets ip @ u16_be_bytes port @ extra)
     = ([5, 0], Inr (Connect ip port, extra))"
proof -
  obtain w x y z where ip: "ip_octets ip = [w, x, y, z]" using ip_octets_four by blast
  obtain p q where port: "u16_be_bytes port = [p, q]" using u16_be_two by blast
  have n: "unat (of_nat (length methods) :: u8) = length methods" using assms by (simp add: unat_of_nat)
  show ?thesis
    using ip_of_octets [OF ip] u16_be [OF port] n
    by (simp add: handle_client_def socks_request_def read_target_def read_exact_def ip port eval_nat_numeral)
qed

text \<open>
  A CONNECT request for an IPv4 target is read as exactly that target, whatever methods are
  offered, and what follows it is left for the pump; a datagram wrapped for the client has the
  header that the server's own parser reads back; and no datagram at all makes that parser
  panic.
\<close>
theorem socks_wire_roundtrip:
  assumes "length methods < 256"
  shows "handle_client resolve ([5, of_nat (length methods)] @ methods @ [5, 1, rsv, 1] @ ip_octets ip @ u16_be_bytes port @ extra)
       = ([5, 0], Inr (Connect ip port, extra))
     \<and> parse_socks_udp_header (socks_wrap ip port data) = Some (Some (ip, port, data))
     \<and> parse_socks_udp_header b \<noteq> None"
  using connect_parsed [OF assms] parse_wrapped parse_header_total [of b] by auto

theorem socks_wire_roundtrip_witness:
  "handle_client (\<lambda>_. None) [5, 1, 0, 5, 1, 0, 1, 10, 0, 0, 2, 1, 187, 42] = ([5, 0], Inr (Connect 0x0A000002 443, [42]))"
proof -
  have "ip_octets 0x0A000002 = [10, 0, 0, 2]" "u16_be_bytes 443 = [1, 187]"
    by (simp_all add: ip_octets_def octet_def u16_be_bytes_def)
  then show ?thesis
    using socks_wire_roundtrip [of "[0]" "\<lambda>_. None" 0 "0x0A000002" 443 "[42]"] by simp
qed

section \<open>Where a datagram goes\<close>

lemma send_frame_out:
  "\<exists>es. fl_out (send_frame n p i fl b m) = fl_out m @ es \<and> list_all (\<lambda>e. case e of FlowOut x y _ \<Rightarrow> x = n \<and> y = p | FlowLog _ \<Rightarrow> True | _ \<Rightarrow> False) es"
  by (simp add: send_frame_def split: option.split)

definition only_to :: "NetId \<Rightarrow> u64 \<Rightarrow> FlowManager \<Rightarrow> FlowManager \<Rightarrow> bool" where
  "only_to n p m m' = (\<exists>es. fl_out m' = fl_out m @ es
     \<and> list_all (\<lambda>e. case e of FlowOut x y _ \<Rightarrow> x = n \<and> y = p | FlowLog _ \<Rightarrow> True | _ \<Rightarrow> False) es)"

lemma only_to_refl: "fl_out m' = fl_out m \<Longrightarrow> only_to n p m m'"
  by (simp add: only_to_def)

lemma only_to_trans: "only_to n p m m' \<Longrightarrow> only_to n p m' m'' \<Longrightarrow> only_to n p m m''"
  by (auto simp: only_to_def)

lemma only_to_send: "only_to n p m (send_frame n p i fl b m)"
  using send_frame_out by (simp add: only_to_def)

lemma only_to_log: "only_to n p m (flow_emit (FlowLog x) m)"
  by (simp add: only_to_def)

lemma only_to_open: "only_to n p m (snd (open_udp draws n p dest m))"
proof (cases "new_flow_id draws m")
  case (Some i)
  let ?m = "m\<lparr>fl_flows := tput i (flow_ctx_new n p (UdpFlow True (fl_next_chan m))) (fl_flows m),
              fl_next_chan := fl_next_chan m + 1, fl_datagrams := tput (fl_next_chan m) [] (fl_datagrams m)\<rparr>"
  have "only_to n p m ?m" by (rule only_to_refl) simp
  then show ?thesis
    using only_to_trans only_to_send only_to_log by (simp add: open_udp_def Some Let_def) blast
qed (simp add: open_udp_def only_to_refl)

text \<open>
  A datagram that a SOCKS client sends towards an address of the mesh leaves the node only
  towards the peer that has the address, in the network where it has it; any other datagram
  leaves nothing.
\<close>
theorem socks_datagram_routed:
  assumes "assoc_datagram s draws client (socks_wrap ip port data) ua m = Some (ua1, m1)"
  shows "case peer_by_ip s ip of
           None \<Rightarrow> m1 = m
         | Some (net_id, h) \<Rightarrow> only_to net_id (se_id (sess s h)) m m1"
proof (cases "peer_by_ip s ip")
  case None
  then show ?thesis using assms by (auto simp: assoc_datagram_def parse_wrapped)
next
  case (Some x)
  obtain net_id h where x: "x = (net_id, h)" by force
  let ?ua = "if ua_client_ep ua = None then ua\<lparr>ua_client_ep := Some client\<rparr> else ua"
  let ?p = "se_id (sess s h)"
  show ?thesis
  proof (cases "tget (ua_flows ?ua) (net_id, ?p)")
    case (Some i)
    then have "m1 = udp_flow_send net_id ?p i (show_sockaddr_v4 ip port) data m"
      using assms \<open>peer_by_ip s ip = Some x\<close> x by (simp add: assoc_datagram_def parse_wrapped Let_def)
    then show ?thesis using \<open>peer_by_ip s ip = Some x\<close> x only_to_send by (simp add: udp_flow_send_def)
  next
    case None
    let ?d = "show_sockaddr_v4 (se_virtual_ip (sess s h)) (ua_port ?ua)"
    obtain r m2 where o: "open_udp draws net_id ?p ?d m = (r, m2)" by force
    have 2: "only_to net_id ?p m m2" using only_to_open [of net_id ?p m draws ?d] o by simp
    have "m1 = m2 \<or> (\<exists>i. m1 = udp_flow_send net_id ?p i (show_sockaddr_v4 ip port) data m2)"
      using assms \<open>peer_by_ip s ip = Some x\<close> x None o
      by (auto simp: assoc_datagram_def parse_wrapped Let_def split: option.splits)
    then have "only_to net_id ?p m m1" using 2 only_to_trans only_to_send by (auto simp: udp_flow_send_def)
    then show ?thesis using \<open>peer_by_ip s ip = Some x\<close> x by simp
  qed
qed

section \<open>Forwarders\<close>

lemma close_udp_other: "i \<noteq> j \<Longrightarrow> tget (fl_flows (udp_flow_close i m)) j = tget (fl_flows m) j"
  using spares_close [of i j 0 m True] by (simp add: udp_flow_close_def spares_def)

lemma close_udp_same: "tget (fl_flows (udp_flow_close i m)) i = None"
proof (cases "tget (fl_flows m) i")
  case (Some c)
  then show ?thesis by (simp add: udp_flow_close_def close_flow_notify(1) table_simps)
qed (simp add: udp_flow_close_def close_flow_def)

lemma sweep_flows:
  "tget (fl_flows (fold (\<lambda>(_, e) m. if entry_fresh now e then m else udp_flow_close (uf_flow_id e) m) es m)) i
   = (if \<exists>c e. (c, e) \<in> set es \<and> \<not> entry_fresh now e \<and> uf_flow_id e = i then None else tget (fl_flows m) i)"
proof (induction es arbitrary: m)
  case (Cons a es)
  obtain c e where a: "a = (c, e)" by force
  show ?case
  proof (cases "entry_fresh now e")
    case True
    then show ?thesis using Cons a by auto
  next
    case False
    have "tget (fl_flows (udp_flow_close (uf_flow_id e) m)) i
        = (if uf_flow_id e = i then None else tget (fl_flows m) i)"
      using close_udp_other close_udp_same by auto
    then show ?thesis using Cons a False by auto
  qed
qed simp

text \<open>
  The sweeper of a UDP forwarder drops exactly the clients that sent nothing for five
  minutes and closes exactly their flows.
\<close>
theorem forward_sweep_exact:
  assumes "tinv flows"
  shows "tget (fst (forward_sweep now flows m)) client =
       (case tget flows client of
          Some e \<Rightarrow> if now - uf_last_seen_ms e < UDP_IDLE_MS then Some e else None
        | None \<Rightarrow> None)
     \<and> tget (fl_flows (snd (forward_sweep now flows m))) i =
       (if \<exists>c e. tget flows c = Some e \<and> UDP_IDLE_MS \<le> now - uf_last_seen_ms e \<and> uf_flow_id e = i then None
        else tget (fl_flows m) i)"
proof -
  have "(\<exists>c e. (c, e) \<in> set flows \<and> \<not> entry_fresh now e \<and> uf_flow_id e = i)
      \<longleftrightarrow> (\<exists>c e. tget flows c = Some e \<and> UDP_IDLE_MS \<le> now - uf_last_seen_ms e \<and> uf_flow_id e = i)"
    using tget_in_set [OF assms] by (simp add: entry_fresh_def not_less)
  then have "tget (fl_flows (snd (forward_sweep now flows m))) i =
       (if \<exists>c e. tget flows c = Some e \<and> UDP_IDLE_MS \<le> now - uf_last_seen_ms e \<and> uf_flow_id e = i then None
        else tget (fl_flows m) i)"
    unfolding forward_sweep_def snd_conv sweep_flows by (simp only:)
  moreover have "tget (fst (forward_sweep now flows m)) client =
       (case tget flows client of
          Some e \<Rightarrow> if now - uf_last_seen_ms e < UDP_IDLE_MS then Some e else None
        | None \<Rightarrow> None)"
    using tget_tkeep [OF assms] by (simp add: forward_sweep_def entry_fresh_def)
  ultimately show ?thesis by blast
qed

text \<open>
  When the peer of a UDP forwarder leaves a network and comes back, the forwarder keeps its
  entry for a client that goes on sending: the datagrams go out on the closed flow without
  a new OPEN, and no answer to them reaches the client any more.
\<close>
theorem udp_forward_one_way:
  assumes "flow_inv m" and "tget flows client = Some e"
    and "tget (fl_flows m) (uf_flow_id e) = Some c" and "fc_net_id c = uf_net_id e" and "fc_peer c = uf_peer e"
    and "length (build_datagram (show_sockaddr_v4 ip port) data) \<le> FLOW_MAX_DATAGRAM"
    and "forward_datagram s draws now (SocketAddrV4 ip port) client data flows (close_peer (uf_net_id e) (uf_peer e) m)
       = (flows2, m2)"
    and "on_frame self_ip bound n p (flow_encode (uf_flow_id e) 0 FLAG_DATAGRAM answer) m2 = Some m3"
  shows "fl_out m2 = fl_out (close_peer (uf_net_id e) (uf_peer e) m)
           @ [FlowOut (uf_net_id e) (uf_peer e)
               (flow_encode (uf_flow_id e) 0 FLAG_DATAGRAM (build_datagram (show_sockaddr_v4 ip port) data))]
     \<and> tget flows2 client = Some (e\<lparr>uf_last_seen_ms := now\<rparr>)
     \<and> fl_datagrams m3 = fl_datagrams m2"
proof -
  let ?m = "close_peer (uf_net_id e) (uf_peer e) m"
  have gone: "tget (fl_flows ?m) (uf_flow_id e) = None"
    using close_peer_all [OF assms(1), of "uf_net_id e" "uf_peer e"] assms(3-5) by force
  have d: "forward_datagram s draws now (SocketAddrV4 ip port) client data flows ?m
      = (tput client (e\<lparr>uf_last_seen_ms := now\<rparr>) flows,
         flow_emit (FlowOut (uf_net_id e) (uf_peer e) (flow_encode (uf_flow_id e) 0 FLAG_DATAGRAM
           (build_datagram (show_sockaddr_v4 ip port) data))) ?m)"
    using assms(2,6)
    by (simp add: forward_datagram_def udp_flow_send_def send_frame_def) (simp add: flow_consts)
  then have m2: "fl_flows m2 = fl_flows ?m" using assms(7) by auto
  obtain r where r: "parse_datagram answer = Some r" using parse_datagram_total by blast
  have "handle_datagram self_ip bound n p (uf_flow_id e) answer m2 = Some m3"
    using assms(8) by (simp add: decode_frame) (simp add: flow_consts)
  then have "fl_datagrams m3 = fl_datagrams m2"
    using r m2 gone by (auto simp: handle_datagram_def deliver_local_def split: option.splits)
  then show ?thesis using d assms(7) by (auto simp: table_simps)
qed

theorem udp_forward_one_way_witness:
  "\<forall>s. \<exists>flows2 m2 m3. forward_datagram s [] 7000 (SocketAddrV4 0x0A000002 53) (SocketAddrV4 0x7F000001 4000) [1]
       [(SocketAddrV4 0x7F000001 4000, \<lparr>uf_net_id = [1], uf_peer = 9, uf_flow_id = 5, uf_last_seen_ms = 100\<rparr>)]
       (close_peer [1] 9 (snd (open_udp [5] [1] 9 ''10.0.0.2:53'' flow_manager_new))) = (flows2, m2)
     \<and> on_frame (\<lambda>_. None) None [1] 9 (flow_encode 5 0 FLAG_DATAGRAM [3, 58, 58, 58, 7]) m2 = Some m3
     \<and> fl_datagrams m3 = fl_datagrams m2"
proof
  fix s
  let ?m = "snd (open_udp [5] [1] 9 ''10.0.0.2:53'' flow_manager_new)"
  let ?e = "\<lparr>uf_net_id = [1], uf_peer = 9, uf_flow_id = 5, uf_last_seen_ms = 100\<rparr> :: UdpFlowEntry"
  have i: "flow_inv ?m" using flow_step_inv [OF flow_inv_new, of "FOpenUdp [5] [1] 9 ''10.0.0.2:53''"] by simp
  have c: "tget (fl_flows ?m) (uf_flow_id ?e) = Some (flow_ctx_new [1] 9 (UdpFlow True 0))"
    by (simp add: open_udp_def new_flow_id_def flow_manager_new_def Let_def flow_consts)
  have l: "length (build_datagram (show_sockaddr_v4 0x0A000002 53) [1]) \<le> FLOW_MAX_DATAGRAM"
    by (simp add: build_datagram_def show_sockaddr_v4_def show_ipv4_def octet_def dec_of_nat.simps FLOW_MAX_DATAGRAM_def)
  obtain flows2 m2 where f: "forward_datagram s [] 7000 (SocketAddrV4 0x0A000002 53) (SocketAddrV4 0x7F000001 4000) [1]
       [(SocketAddrV4 0x7F000001 4000, ?e)] (close_peer (uf_net_id ?e) (uf_peer ?e) ?m) = (flows2, m2)" by force
  obtain m3 where o: "on_frame (\<lambda>_. None) None [1] 9 (flow_encode (uf_flow_id ?e) 0 FLAG_DATAGRAM [3, 58, 58, 58, 7]) m2 = Some m3"
    using on_frame_total by blast
  have "fl_datagrams m3 = fl_datagrams m2"
    using udp_forward_one_way [OF i _ c _ _ l f o] by (simp add: flow_ctx_new_def)
  then show "\<exists>flows2 m2 m3. forward_datagram s [] 7000 (SocketAddrV4 0x0A000002 53) (SocketAddrV4 0x7F000001 4000) [1]
       [(SocketAddrV4 0x7F000001 4000, ?e)] (close_peer [1] 9 ?m) = (flows2, m2)
     \<and> on_frame (\<lambda>_. None) None [1] 9 (flow_encode 5 0 FLAG_DATAGRAM [3, 58, 58, 58, 7]) m2 = Some m3
     \<and> fl_datagrams m3 = fl_datagrams m2" using f o by auto
qed

theorem forward_sweep_exact_witness:
  "tget (fst (forward_sweep 400000 [(SocketAddrV4 1 1, \<lparr>uf_net_id = [1], uf_peer = 9, uf_flow_id = 5, uf_last_seen_ms = 100000\<rparr>),
      (SocketAddrV4 1 2, \<lparr>uf_net_id = [1], uf_peer = 9, uf_flow_id = 6, uf_last_seen_ms = 100001\<rparr>)] flow_manager_new)) (SocketAddrV4 1 1) = None"
  (is "tget (fst (forward_sweep _ ?flows _)) _ = _")
proof -
  have "tinv ?flows" by (simp add: tinv_def)
  from forward_sweep_exact [OF this, of 400000 flow_manager_new "SocketAddrV4 1 1"] show ?thesis
    by (simp add: UDP_IDLE_MS_def)
qed

end
