(* ===== verification/RefreshFlight.thy ===== *)
theory RefreshFlight
  imports Prelude
begin

text \<open>
  crates/skiff-node/src/engine.rs, refresh\_peers: the single-flight refresh of the peers, called
  by many tasks at once (realtime events, the probe loop, reconnections). A task is a number;
  its steps are the accesses to the shared flag and to the lock, and any interleaving of them
  may happen. The refresh itself (refresh\_peers\_for) is the time a task spends in Refreshing.
\<close>

text \<open>
  Where a task is: before the store of the flag, before try\_lock, at the condition of the loop,
  in the body, after the loop with the guard still held, or back from the call.
\<close>

datatype FlightPc = Outside | Triggered | Testing | Refreshing | Leaving | Returned

text \<open>
  \<open>rf_owed\<close> is not in the code: the tasks whose request came after the last refresh
  began, which no refresh has served yet.
\<close>

record Flight =
  rf_pending :: bool
  rf_lock :: "nat option"
  rf_pc :: "nat \<Rightarrow> FlightPc"
  rf_owed :: "nat set"

definition flight_new :: Flight where
  "flight_new = \<lparr>rf_pending = False, rf_lock = None, rf_pc = (\<lambda>_. Outside), rf_owed = {}\<rparr>"

inductive flight_step :: "Flight \<Rightarrow> nat \<Rightarrow> Flight \<Rightarrow> bool" where
  Trigger: "rf_pc s t = Outside \<Longrightarrow>
     flight_step s t (s\<lparr>rf_pending := True, rf_pc := (rf_pc s)(t := Triggered), rf_owed := insert t (rf_owed s)\<rparr>)"
| Busy: "rf_pc s t = Triggered \<Longrightarrow> rf_lock s = Some u \<Longrightarrow>
     flight_step s t (s\<lparr>rf_pc := (rf_pc s)(t := Returned)\<rparr>)"
| Enter: "rf_pc s t = Triggered \<Longrightarrow> rf_lock s = None \<Longrightarrow>
     flight_step s t (s\<lparr>rf_lock := Some t, rf_pc := (rf_pc s)(t := Testing)\<rparr>)"
| Begin: "rf_pc s t = Testing \<Longrightarrow> rf_pending s \<Longrightarrow>
     flight_step s t (s\<lparr>rf_pending := False, rf_pc := (rf_pc s)(t := Refreshing), rf_owed := {}\<rparr>)"
| Again: "rf_pc s t = Refreshing \<Longrightarrow> flight_step s t (s\<lparr>rf_pc := (rf_pc s)(t := Testing)\<rparr>)"
| Drained: "rf_pc s t = Testing \<Longrightarrow> \<not> rf_pending s \<Longrightarrow>
     flight_step s t (s\<lparr>rf_pc := (rf_pc s)(t := Leaving)\<rparr>)"
| Unlock: "rf_pc s t = Leaving \<Longrightarrow>
     flight_step s t (s\<lparr>rf_lock := None, rf_pc := (rf_pc s)(t := Returned)\<rparr>)"

inductive flight_run :: "Flight \<Rightarrow> nat list \<Rightarrow> Flight \<Rightarrow> bool" where
  Stay: "flight_run s [] s"
| Move: "flight_step s t s1 \<Longrightarrow> flight_run s1 ts s2 \<Longrightarrow> flight_run s (t # ts) s2"

inductive_cases flight_stepE: "flight_step s t s'"
inductive_cases flight_runE: "flight_run s ts s'"
inductive_simps flight_run_Nil: "flight_run s [] s'"
inductive_simps flight_run_Cons: "flight_run s (t # ts) s'"

section \<open>The invariant\<close>

fun guarded :: "FlightPc \<Rightarrow> bool" where
  "guarded Testing = True"
| "guarded Refreshing = True"
| "guarded Leaving = True"
| "guarded _ = False"

definition holds_guard :: "Flight \<Rightarrow> nat \<Rightarrow> bool" where
  "holds_guard s t = guarded (rf_pc s t)"

definition sole_holder :: "(nat \<Rightarrow> FlightPc) \<Rightarrow> nat option \<Rightarrow> bool" where
  "sole_holder pc lock = (\<forall>t. guarded (pc t) = (lock = Some t))"

lemma sole_holder_keep [intro]:
  "sole_holder pc lock \<Longrightarrow> guarded x = guarded (pc t) \<Longrightarrow> sole_holder (pc(t := x)) lock"
  by (auto simp: sole_holder_def)

lemma sole_holder_take [intro]:
  "sole_holder pc None \<Longrightarrow> guarded x \<Longrightarrow> sole_holder (pc(t := x)) (Some t)"
  by (auto simp: sole_holder_def)

lemma sole_holder_drop [intro]:
  "sole_holder pc lock \<Longrightarrow> guarded (pc t) \<Longrightarrow> \<not> guarded x \<Longrightarrow> sole_holder (pc(t := x)) None"
  by (fastforce simp: sole_holder_def)

text \<open>The guard is held by its holder only, and what is owed is flagged.\<close>

definition flight_inv :: "Flight \<Rightarrow> bool" where
  "flight_inv s = (sole_holder (rf_pc s) (rf_lock s) \<and> (rf_owed s \<noteq> {} \<longrightarrow> rf_pending s))"

lemma flight_new_inv: "flight_inv flight_new"
  by (simp add: flight_inv_def flight_new_def sole_holder_def)

lemma flight_step_inv: "flight_step s t s' \<Longrightarrow> flight_inv s \<Longrightarrow> flight_inv s'"
  by (induction rule: flight_step.induct) (auto simp: flight_inv_def)

lemma flight_inv_unique:
  "flight_inv s \<Longrightarrow> holds_guard s t \<Longrightarrow> holds_guard s u \<Longrightarrow> t = u"
  by (simp add: flight_inv_def sole_holder_def holds_guard_def)

lemma flight_run_inv: "flight_run s ts s' \<Longrightarrow> flight_inv s \<Longrightarrow> flight_inv s'"
  by (induction rule: flight_run.induct) (auto intro: flight_step_inv)

lemma flight_reachable_inv: "flight_run flight_new ts s \<Longrightarrow> flight_inv s"
  using flight_run_inv flight_new_inv by blast

lemma flight_run_append: "flight_run s ts s1 \<Longrightarrow> flight_run s1 us s2 \<Longrightarrow> flight_run s (ts @ us) s2"
  by (induction rule: flight_run.induct) (auto intro: flight_run.intros)

text \<open>A task that finds the lock free refreshes at once: its first three steps end in the body.\<close>

lemma flight_enters:
  assumes "rf_pc s t = Outside" and "rf_lock s = None"
  shows "\<exists>s'. flight_run s [t, t, t] s' \<and> rf_pc s' t = Refreshing \<and> rf_owed s' = {}"
proof -
  let ?a = "s\<lparr>rf_pending := True, rf_pc := (rf_pc s)(t := Triggered), rf_owed := insert t (rf_owed s)\<rparr>"
  let ?b = "?a\<lparr>rf_lock := Some t, rf_pc := (rf_pc ?a)(t := Testing)\<rparr>"
  let ?c = "?b\<lparr>rf_pending := False, rf_pc := (rf_pc ?b)(t := Refreshing), rf_owed := {}\<rparr>"
  have "flight_step s t ?a" using assms by (intro flight_step.Trigger)
  moreover have "flight_step ?a t ?b" using assms by (intro flight_step.Enter) auto
  moreover have "flight_step ?b t ?c" by (intro flight_step.Begin) auto
  ultimately have "flight_run s [t, t, t] ?c" by (blast intro: flight_run.intros)
  then show ?thesis by (intro exI [of _ ?c]) simp
qed

text \<open>The holder at the condition of its loop serves what is owed before it leaves.\<close>

lemma flight_holder_serves:
  assumes "flight_inv s" and "rf_pc s t = Testing" and "rf_owed s \<noteq> {}"
  shows "\<exists>s'. flight_step s t s' \<and> rf_pc s' t = Refreshing \<and> rf_owed s' = {}"
proof -
  have "rf_pending s" using assms(1,3) by (simp add: flight_inv_def)
  from flight_step.Begin [OF assms(2) this] show ?thesis by (intro exI conjI) auto
qed

lemma flight_holder_only_serves:
  assumes "flight_inv s" and "rf_pc s t = Testing" and "rf_owed s \<noteq> {}" and "flight_step s t s'"
  shows "rf_pc s' t = Refreshing \<and> rf_owed s' = {}"
  using assms by (auto simp: flight_inv_def elim!: flight_stepE)

section \<open>When a request is left over\<close>

text \<open>Along the schedule ts the task v made its request while some task was leaving.\<close>

definition asked_while_leaving :: "nat list \<Rightarrow> nat \<Rightarrow> bool" where
  "asked_while_leaving ts v =
     (\<exists>pre post s w. ts = pre @ v # post \<and> flight_run flight_new pre s
        \<and> rf_pc s v = Outside \<and> rf_pc s w = Leaving)"

lemma asked_while_leaving_snoc [intro]: "asked_while_leaving ts v \<Longrightarrow> asked_while_leaving (ts @ [t]) v"
  unfolding asked_while_leaving_def by (metis append.assoc append_Cons)

lemma asked_while_leaving_now:
  "flight_run flight_new ts s \<Longrightarrow> rf_pc s v = Outside \<Longrightarrow> rf_pc s w = Leaving \<Longrightarrow> asked_while_leaving (ts @ [v]) v"
  unfolding asked_while_leaving_def by blast

lemma flight_run_snoc: "flight_run s (ts @ [t]) s' \<longleftrightarrow> (\<exists>s1. flight_run s ts s1 \<and> flight_step s1 t s')"
  by (induction ts arbitrary: s) (auto simp: flight_run_Cons flight_run_Nil)

text \<open>
  A request that is owed is still at the door, or a task is in its loop, or it was made while a
  task was leaving; and while a task is leaving, only the last is possible.
\<close>

definition owed_inv :: "nat list \<Rightarrow> Flight \<Rightarrow> bool" where
  "owed_inv ts s =
     ((\<forall>v\<in>rf_owed s. rf_pc s v = Triggered \<or> (\<exists>w. rf_pc s w = Testing \<or> rf_pc s w = Refreshing)
         \<or> asked_while_leaving ts v)
      \<and> ((\<exists>w. rf_pc s w = Leaving) \<longrightarrow> (\<forall>v\<in>rf_owed s. asked_while_leaving ts v)))"

lemma leaving_locked: "flight_inv s \<Longrightarrow> rf_pc s w = Leaving \<Longrightarrow> rf_lock s = Some w"
  by (metis flight_inv_def guarded.simps(3) sole_holder_def)

lemma locked_guarded: "flight_inv s \<Longrightarrow> rf_lock s = Some w \<Longrightarrow> guarded (rf_pc s w)"
  by (simp add: flight_inv_def sole_holder_def)

lemma owed_inv_leaving:
  "\<forall>v\<in>owed. asked_while_leaving ts v \<Longrightarrow> rf_owed s' = owed \<Longrightarrow> owed_inv (ts @ [t]) s'"
  unfolding owed_inv_def by (blast intro: asked_while_leaving_snoc)

lemma owed_inv_looping:
  "rf_pc s' w = Testing \<or> rf_pc s' w = Refreshing \<Longrightarrow> (\<And>x. rf_pc s' x \<noteq> Leaving) \<Longrightarrow> owed_inv ts s'"
  unfolding owed_inv_def by blast

lemma owed_inv_step:
  assumes run: "flight_run flight_new ts s" and st: "flight_step s t s'" and i: "owed_inv ts s"
  shows "owed_inv (ts @ [t]) s'"
proof -
  have inv: "flight_inv s" using flight_reachable_inv run .
  from st show ?thesis
  proof (cases rule: flight_step.cases)
    case Trigger
    have pc: "rf_pc s' w = (if w = t then Triggered else rf_pc s w)" for w by (simp add: Trigger(1))
    have le: "rf_pc s' w = Leaving \<Longrightarrow> rf_pc s w = Leaving" for w by (simp add: pc split: if_splits)
    have owed: "rf_owed s' = insert t (rf_owed s)" by (simp add: Trigger(1))
    have keep: "rf_pc s w = x \<Longrightarrow> x \<noteq> Outside \<Longrightarrow> rf_pc s' w = x" for w x using Trigger(2) by (auto simp: pc)
    have "rf_pc s' v = Triggered \<or> (\<exists>w. rf_pc s' w = Testing \<or> rf_pc s' w = Refreshing)
        \<or> asked_while_leaving (ts @ [t]) v" if "v \<in> rf_owed s'" for v
    proof (cases "v = t")
      case False
      then have "rf_pc s v = Triggered \<or> (\<exists>w. rf_pc s w = Testing \<or> rf_pc s w = Refreshing) \<or> asked_while_leaving ts v"
        using that i by (simp add: owed owed_inv_def)
      then show ?thesis using keep by (blast intro: asked_while_leaving_snoc)
    qed (simp add: pc)
    moreover have "asked_while_leaving (ts @ [t]) v" if "rf_pc s' w = Leaving" "v \<in> rf_owed s'" for v w
      using asked_while_leaving_now [OF run Trigger(2) le [OF that(1)]] i le [OF that(1)] that(2)
      by (auto simp: owed owed_inv_def)
    ultimately show ?thesis unfolding owed_inv_def by blast
  next
    case (Busy w)
    then have w: "w \<noteq> t" "rf_pc s' w = rf_pc s w" "guarded (rf_pc s w)"
      using locked_guarded [OF inv, of w] by auto
    show ?thesis
    proof (cases "rf_pc s w = Leaving")
      case True
      then have "\<forall>v\<in>rf_owed s. asked_while_leaving ts v" using i unfolding owed_inv_def by blast
      then show ?thesis using Busy(1) by (intro owed_inv_leaving) simp_all
    next
      case False
      then have "rf_pc s' w = Testing \<or> rf_pc s' w = Refreshing" using w by (cases "rf_pc s w") auto
      moreover have "rf_pc s' x \<noteq> Leaving" for x
        using Busy leaving_locked [OF inv, of x] False by (auto split: if_splits)
      ultimately show ?thesis by (intro owed_inv_looping)
    qed
  next
    case Enter
    then have "rf_pc s w \<noteq> Leaving" for w using leaving_locked [OF inv, of w] by auto
    then show ?thesis using Enter(1) by (intro owed_inv_looping [of _ t]) simp_all
  next
    case Again
    then have "rf_lock s = Some t" using inv unfolding flight_inv_def sole_holder_def by (metis guarded.simps(2))
    then have "rf_pc s w \<noteq> Leaving" for w using leaving_locked [OF inv, of w] Again by auto
    then show ?thesis using Again(1) by (intro owed_inv_looping [of _ t]) simp_all
  next
    case Drained
    then have "rf_owed s = {}" using inv by (simp add: flight_inv_def)
    then show ?thesis using Drained by (simp add: owed_inv_def)
  next
    case Unlock
    then have "\<forall>v\<in>rf_owed s. asked_while_leaving ts v" using i unfolding owed_inv_def by blast
    then show ?thesis using Unlock(1) by (intro owed_inv_leaving) simp_all
  qed (simp add: owed_inv_def)
qed

lemma owed_inv_run: "flight_run flight_new ts s \<Longrightarrow> owed_inv ts s"
proof (induction ts arbitrary: s rule: rev_induct)
  case Nil
  then show ?case by (simp add: flight_run_Nil flight_new_def owed_inv_def)
next
  case (snoc t ts)
  then show ?case by (auto simp: flight_run_snoc intro: owed_inv_step)
qed

text \<open>
  C24 (safety). However the calls of refresh\_peers interleave, at most one task is between
  taking and dropping the guard, so no two refreshes run at once; a request that no refresh
  has served keeps the flag set, so that the holder, if it comes to the condition of its loop
  again, can only refresh; a call that finds the lock free starts a refresh that
  serves everything owed; and a request that is still owed when every call has returned
  was made while another task was leaving: after its last test of the flag
  and before it dropped the guard.
\<close>
theorem refresh_single_flight:
  assumes "flight_run flight_new ts s"
  shows "(holds_guard s t \<and> holds_guard s u \<longrightarrow> t = u)
       \<and> (rf_owed s \<noteq> {} \<longrightarrow> rf_pending s)
       \<and> (rf_pc s t = Testing \<and> rf_owed s \<noteq> {} \<and> flight_step s t s'
            \<longrightarrow> rf_pc s' t = Refreshing \<and> rf_owed s' = {})
       \<and> (rf_pc s t = Outside \<and> rf_lock s = None
            \<longrightarrow> (\<exists>s'. flight_run s [t, t, t] s' \<and> rf_pc s' t = Refreshing \<and> rf_owed s' = {}))
       \<and> ((\<forall>v. rf_pc s v = Outside \<or> rf_pc s v = Returned)
            \<longrightarrow> (\<forall>v\<in>rf_owed s. \<exists>pre post s0 w. ts = pre @ v # post \<and> flight_run flight_new pre s0
                  \<and> rf_pc s0 v = Outside \<and> rf_pc s0 w = Leaving))"
proof -
  have inv: "flight_inv s" using flight_reachable_inv assms .
  then have "holds_guard s t \<and> holds_guard s u \<longrightarrow> t = u" and "rf_owed s \<noteq> {} \<longrightarrow> rf_pending s"
    using flight_inv_unique [OF inv, of t u] by (auto simp: flight_inv_def)
  moreover have "asked_while_leaving ts v" if "\<forall>v. rf_pc s v = Outside \<or> rf_pc s v = Returned" "v \<in> rf_owed s" for v
  proof -
    have "rf_pc s v \<noteq> Triggered" "rf_pc s w \<noteq> Testing" "rf_pc s w \<noteq> Refreshing" for w
      using that(1) by (metis FlightPc.distinct)+
    then show ?thesis using owed_inv_run [OF assms] that(2) unfolding owed_inv_def by blast
  qed
  ultimately show ?thesis
    using flight_holder_only_serves [OF inv] flight_enters unfolding asked_while_leaving_def by blast
qed

section \<open>A request that waits\<close>

text \<open>
  Task 0 refreshes once and sees the flag clear; before it drops the guard, task 1 sets the flag
  and fails to take the lock.
\<close>

definition lost_schedule :: "nat list" where
  "lost_schedule = [0, 0, 0, 0, 0, 1, 1, 0]"

definition lost_flight :: Flight where
  "lost_flight = \<lparr>rf_pending = True, rf_lock = None,
     rf_pc = (\<lambda>_. Outside)(0 := Returned, 1 := Returned), rf_owed = {1}\<rparr>"

text \<open>A task's next step is determined by the state.\<close>

definition flight_next :: "nat \<Rightarrow> Flight \<Rightarrow> Flight" where
  "flight_next t s =
     (case rf_pc s t of
        Outside \<Rightarrow> s\<lparr>rf_pending := True, rf_pc := (rf_pc s)(t := Triggered), rf_owed := insert t (rf_owed s)\<rparr>
      | Triggered \<Rightarrow>
          (if rf_lock s = None then s\<lparr>rf_lock := Some t, rf_pc := (rf_pc s)(t := Testing)\<rparr>
           else s\<lparr>rf_pc := (rf_pc s)(t := Returned)\<rparr>)
      | Testing \<Rightarrow>
          (if rf_pending s then s\<lparr>rf_pending := False, rf_pc := (rf_pc s)(t := Refreshing), rf_owed := {}\<rparr>
           else s\<lparr>rf_pc := (rf_pc s)(t := Leaving)\<rparr>)
      | Refreshing \<Rightarrow> s\<lparr>rf_pc := (rf_pc s)(t := Testing)\<rparr>
      | Leaving \<Rightarrow> s\<lparr>rf_lock := None, rf_pc := (rf_pc s)(t := Returned)\<rparr>
      | Returned \<Rightarrow> s)"

lemma flight_step_iff: "flight_step s t s' \<longleftrightarrow> rf_pc s t \<noteq> Returned \<and> s' = flight_next t s"
proof
  assume "flight_step s t s'"
  then show "rf_pc s t \<noteq> Returned \<and> s' = flight_next t s"
    by (cases rule: flight_step.cases) (auto simp: flight_next_def)
next
  assume a: "rf_pc s t \<noteq> Returned \<and> s' = flight_next t s"
  show "flight_step s t s'"
  proof (cases "rf_pc s t")
    case Triggered
    then show ?thesis using a by (cases "rf_lock s") (auto simp: flight_next_def intro: flight_step.intros)
  qed (use a in \<open>auto simp: flight_next_def intro: flight_step.intros\<close>)
qed

lemma flight_next_record:
  "flight_next t \<lparr>rf_pending = p, rf_lock = l, rf_pc = pc, rf_owed = d\<rparr> =
     (case pc t of
        Outside \<Rightarrow> \<lparr>rf_pending = True, rf_lock = l, rf_pc = pc(t := Triggered), rf_owed = insert t d\<rparr>
      | Triggered \<Rightarrow>
          \<lparr>rf_pending = p, rf_lock = (if l = None then Some t else l),
           rf_pc = pc(t := if l = None then Testing else Returned), rf_owed = d\<rparr>
      | Testing \<Rightarrow>
          \<lparr>rf_pending = False, rf_lock = l, rf_pc = pc(t := if p then Refreshing else Leaving),
           rf_owed = (if p then {} else d)\<rparr>
      | Refreshing \<Rightarrow> \<lparr>rf_pending = p, rf_lock = l, rf_pc = pc(t := Testing), rf_owed = d\<rparr>
      | Leaving \<Rightarrow> \<lparr>rf_pending = p, rf_lock = None, rf_pc = pc(t := Returned), rf_owed = d\<rparr>
      | Returned \<Rightarrow> \<lparr>rf_pending = p, rf_lock = l, rf_pc = pc, rf_owed = d\<rparr>)"
  by (simp add: flight_next_def split: FlightPc.split)

lemma lost_schedule_run: "flight_run flight_new lost_schedule lost_flight"
proof -
  have "lost_flight = fold flight_next lost_schedule flight_new"
    by (simp add: lost_schedule_def lost_flight_def flight_new_def flight_next_record)
      (simp add: fun_eq_iff)
  also have "flight_run flight_new lost_schedule \<dots>"
    by (simp add: lost_schedule_def flight_run_Cons flight_run_Nil flight_step_iff flight_new_def flight_next_record)
  finally show ?thesis .
qed

text \<open>
  A request can be left over: there is a run after which nobody holds the guard,
  every task has returned or has not come yet, and a request is still owed. It is served by the
  next call, whichever task makes it (in the engine the probe loop makes one every five seconds).
\<close>
theorem refresh_request_left_over:
  "\<exists>s. flight_run flight_new lost_schedule s \<and> rf_lock s = None
     \<and> (\<forall>t. rf_pc s t = Outside \<or> rf_pc s t = Returned) \<and> rf_owed s = {1} \<and> rf_pc s 2 = Outside
     \<and> (\<exists>s'. flight_run s [2, 2, 2] s' \<and> rf_pc s' 2 = Refreshing \<and> rf_owed s' = {})"
proof -
  have "rf_pc lost_flight 2 = Outside" "rf_lock lost_flight = None"
    by (simp_all add: lost_flight_def)
  then show ?thesis
    using lost_schedule_run flight_enters [of lost_flight 2]
    by (intro exI [of _ lost_flight]) (simp add: lost_flight_def)
qed

text \<open>A request that comes while task 0 refreshes is served by its next round.\<close>

definition overlapping :: Flight where
  "overlapping = \<lparr>rf_pending = True, rf_lock = Some 0,
     rf_pc = (\<lambda>_. Outside)(0 := Testing, 1 := Triggered), rf_owed = {1}\<rparr>"

lemma overlapping_run: "flight_run flight_new [0, 0, 0, 1, 0] overlapping"
  unfolding overlapping_def
  by (simp add: flight_run_Cons flight_run_Nil flight_step_iff flight_new_def flight_next_record)
     (simp add: fun_eq_iff)

theorem refresh_single_flight_witness:
  "rf_owed overlapping = {1} \<and> holds_guard overlapping 0 \<and> \<not> holds_guard overlapping 1
   \<and> rf_pc (flight_next 0 overlapping) 0 = Refreshing \<and> rf_owed (flight_next 0 overlapping) = {}
   \<and> rf_owed lost_flight = {1} \<and> asked_while_leaving lost_schedule 1"
proof -
  have "flight_step overlapping 0 (flight_next 0 overlapping)"
    by (simp add: flight_step_iff overlapping_def)
  moreover have "asked_while_leaving lost_schedule 1"
    using refresh_single_flight [OF lost_schedule_run, of 0 0 lost_flight]
    unfolding asked_while_leaving_def by (simp add: lost_flight_def)
  moreover have "rf_owed lost_flight = {1}" by (simp add: lost_flight_def)
  ultimately show ?thesis
    using refresh_single_flight [OF overlapping_run, of 0 1 "flight_next 0 overlapping"]
    by (simp add: overlapping_def holds_guard_def)
qed

end
