(* ===== verification/Calendar.thy ===== *)
theory Calendar
  imports Main "HOL-Library.Signed_Division"
begin

text \<open>
  The two calendar functions of crates/skiff-core/src/logging.rs (Hinnant's algorithms), against
  the definition of the Gregorian calendar by the next day. Division of signed integers
  truncates; casts between the signed and the unsigned type wrap. The days that occur are far
  from the ends of the signed 64-bit range.
\<close>

definition as_u64 :: "int \<Rightarrow> int" where
  "as_u64 z = z mod 2 ^ 64"

definition as_i64 :: "int \<Rightarrow> int" where
  "as_i64 z = (if z < 2 ^ 63 then z else z - 2 ^ 64)"

definition civil_from_days :: "int \<Rightarrow> int \<times> int \<times> int" where
  "civil_from_days z =
     (let z = z + 719468;
          era = (if z \<ge> 0 then z else z - 146096) sdiv 146097;
          doe = as_u64 (z - era * 146097);
          yoe = (doe - doe div 1460 + doe div 36524 - doe div 146096) div 365;
          y = yoe + era * 400;
          doy = doe - (365 * yoe + yoe div 4 - yoe div 100);
          mp = (5 * doy + 2) div 153;
          d = doy - (153 * mp + 2) div 5 + 1;
          m = (if mp < 10 then mp + 3 else mp - 9)
      in (if m \<le> 2 then y + 1 else y, m, d))"

definition days_from_civil :: "int \<Rightarrow> int \<Rightarrow> int \<Rightarrow> int" where
  "days_from_civil y m d =
     (let y = (if m \<le> 2 then y - 1 else y);
          era = (if y \<ge> 0 then y else y - 399) sdiv 400;
          yoe = as_u64 (y - era * 400);
          mp = (if m > 2 then m - 3 else m + 9);
          doy = as_u64 ((153 * mp + 2) div 5 + d - 1);
          doe = as_u64 (yoe * 365 + yoe div 4 - yoe div 100 + doy)
      in era * 146097 + as_i64 doe - 719468)"

section \<open>The calendar\<close>

definition leap_year :: "int \<Rightarrow> bool" where
  "leap_year y = (4 dvd y \<and> (\<not> 100 dvd y \<or> 400 dvd y))"

definition month_length :: "int \<Rightarrow> int \<Rightarrow> int" where
  "month_length y m =
     (if m = 2 then if leap_year y then 29 else 28
      else if m \<in> {4, 6, 9, 11} then 30 else 31)"

fun valid_date :: "int \<times> int \<times> int \<Rightarrow> bool" where
  "valid_date (y, m, d) = (1 \<le> m \<and> m \<le> 12 \<and> 1 \<le> d \<and> d \<le> month_length y m)"

fun next_day :: "int \<times> int \<times> int \<Rightarrow> int \<times> int \<times> int" where
  "next_day (y, m, d) =
     (if d < month_length y m then (y, m, d + 1)
      else if m < 12 then (y, m + 1, 1)
      else (y + 1, 1, 1))"

section \<open>Years that begin in March\<close>

text \<open>The days before the n-th year of an era, and before the p-th month of a year.\<close>

definition year_start :: "int \<Rightarrow> int" where
  "year_start n = 365 * n + n div 4 - n div 100"

definition month_start :: "int \<Rightarrow> int" where
  "month_start p = (153 * p + 2) div 5"

definition year_of_era :: "int \<Rightarrow> int" where
  "year_of_era doe = (doe - doe div 1460 + doe div 36524 - doe div 146096) div 365"

lemma floor_sdiv:
  fixes b z :: int
  assumes "0 < b"
  shows "(if z \<ge> 0 then z else z - (b - 1)) sdiv b = z div b"
proof (cases "z \<ge> 0")
  case True
  then show ?thesis using assms by (cases "z = 0") (auto simp: signed_divide_int_def)
next
  case False
  let ?q = "(b - 1 - z) div b" and ?r = "(b - 1 - z) mod b"
  have "b * ?q + ?r = b - 1 - z" by (rule mult_div_mod_eq)
  then have "z = b * (- ?q) + (b - 1 - ?r)" by (simp only: mult_minus_right)
  moreover have "0 \<le> b - 1 - ?r" "b - 1 - ?r < b"
    using pos_mod_bound [OF assms, of "b - 1 - z"] pos_mod_sign [OF assms, of "b - 1 - z"] by linarith+
  ultimately have "z div b = - ?q" by (rule int_div_pos_eq)
  then show ?thesis using False assms by (simp add: signed_divide_int_def)
qed

lemma floor_sdivs:
  "(if z \<ge> 0 then z else z - 146096) sdiv 146097 = z div (146097::int)"
  "(if z \<ge> 0 then z else z - 399) sdiv 400 = z div (400::int)"
  using floor_sdiv [of 146097 z] floor_sdiv [of 400 z] by (simp_all split: if_splits)

lemma div_bounds:
  "100 * (a div 100) \<le> (a::int)" "a < 100 * (a div 100) + 100"
  "5 * (a div 5) \<le> (a::int)" "a < 5 * (a div 5) + 5"
  "153 * (a div 153) \<le> (a::int)" "a < 153 * (a div 153) + 153"
  by simp_all

lemma year_of_era_century:
  fixes r c k Y :: int
  assumes "0 \<le> c" "c \<le> 3" "0 \<le> r" "r < 36524"
    and k: "k = (24 * c + r) div 1460" and Y: "Y = (r - k) div 365"
  shows "365 * Y + Y div 4 \<le> r" "Y < 99 \<Longrightarrow> r < 365 * (Y + 1) + (Y + 1) div 4"
    "0 \<le> Y" "Y \<le> 99"
proof -
  have k1: "1460 * k \<le> 24 * c + r" "24 * c + r < 1460 * k + 1460" "0 \<le> k" "k \<le> 25"
    using assms by auto
  have kr: "k \<le> r" using k1 assms by linarith
  have Y1: "365 * Y \<le> r - k" "r - k < 365 * Y + 365" using Y by auto
  show Y0: "0 \<le> Y" using Y1 kr by linarith
  show "Y \<le> 99"
  proof (rule ccontr)
    assume "\<not> Y \<le> 99"
    then have "36500 \<le> r - k" using Y1 by linarith
    then show False using k1 assms by linarith
  qed
  have "4 * (Y div 4) \<le> Y" by simp
  then show "365 * Y + Y div 4 \<le> r" using k1 Y1 assms by linarith
  define v where "v = (Y + 1) div 4"
  have v4: "Y + 1 < 4 * v + 4" by (simp add: v_def)
  have "r < 365 * (Y + 1) + v"
  proof (cases "k \<le> v")
    case True
    then show ?thesis using Y1 by simp
  next
    case False
    then show ?thesis using v4 k1 Y1 assms(1-4) by simp
  qed
  then show "r < 365 * (Y + 1) + (Y + 1) div 4" by (simp add: v_def)
qed

text \<open>The year that the closed formula finds is the one whose days contain the day.\<close>

lemma year_of_era:
  assumes "0 \<le> doe" "doe \<le> 146096"
  defines "Y \<equiv> year_of_era doe"
  shows "0 \<le> Y" "Y \<le> 399" "year_start Y \<le> doe"
    "doe < (if Y = 399 then 146097 else year_start (Y + 1))"
proof -
  have all: "0 \<le> Y \<and> Y \<le> 399 \<and> year_start Y \<le> doe
      \<and> doe < (if Y = 399 then 146097 else year_start (Y + 1))"
  proof (cases "doe = 146096")
    case True
    then show ?thesis by (simp add: Y_def year_of_era_def year_start_def)
  next
    case False
    define c where "c = doe div 36524"
    define r where "r = doe mod 36524"
    define k where "k = (24 * c + r) div 1460"
    define w where "w = (r - k) div 365"
    have doe: "doe = 36524 * c + r" by (simp add: c_def r_def)
    have c: "0 \<le> c" "c \<le> 3" "0 \<le> r" "r < 36524"
      using assms(1,2) False by (auto simp: c_def r_def)
    have "doe div 1460 = 25 * c + k"
      unfolding doe k_def using div_mult_self2 [of 1460 "24 * c + r" "25 * c"] by (simp add: algebra_simps)
    moreover have "doe div 146096 = 0" using assms(1,2) False by simp
    ultimately have "doe - doe div 1460 + doe div 36524 - doe div 146096 = (r - k) + (100 * c) * 365"
      using c by (simp add: doe)
    then have Y: "Y = 100 * c + w"
      unfolding Y_def year_of_era_def w_def by (simp only: div_mult_self1 add.commute)
    note w = year_of_era_century [OF c k_def w_def]
    have h: "Y div 100 = c" "Y div 4 = 25 * c + w div 4" using w Y by auto
    have low: "year_start Y \<le> doe" unfolding year_start_def h unfolding Y doe using w(1) by simp
    have "doe < (if Y = 399 then 146097 else year_start (Y + 1))"
    proof (cases "w < 99")
      case True
      then have "(Y + 1) div 100 = c" "(Y + 1) div 4 = 25 * c + (w + 1) div 4" using w Y by auto
      then show ?thesis using w(2) [OF True] True c by (auto simp: year_start_def Y doe)
    next
      case F: False
      then have w99: "w = 99" using w(4) by simp
      then have "(Y + 1) div 100 = c + 1" "(Y + 1) div 4 = 25 * c + 25" using Y by auto
      then show ?thesis using c w99 assms(2) by (auto simp: year_start_def Y doe)
    qed
    then show ?thesis using low w c Y by auto
  qed
  then show "0 \<le> Y" "Y \<le> 399" "year_start Y \<le> doe"
    "doe < (if Y = 399 then 146097 else year_start (Y + 1))" by auto
qed

lemma year_start_mono: "a \<le> b \<Longrightarrow> year_start a \<le> year_start b"
proof -
  assume "a \<le> b"
  then have "a div 4 \<le> b div 4" by (rule zdiv_mono1) simp
  moreover have "b div 100 - a div 100 \<le> b - a"
    using \<open>a \<le> b\<close> div_bounds(1,2) [of a] div_bounds(1,2) [of b] by (cases "a = b") linarith+
  ultimately show ?thesis using \<open>a \<le> b\<close> by (simp add: year_start_def)
qed

lemma year_of_era_unique:
  assumes "0 \<le> n" "n \<le> 399" "year_start n \<le> doe"
    and "doe < (if n = 399 then 146097 else year_start (n + 1))"
  shows "year_of_era doe = n"
proof -
  have "0 \<le> doe" using assms(1,3) year_start_mono [of 0 n] by (simp add: year_start_def)
  moreover have "doe \<le> 146096"
    using assms(2,4) year_start_mono [of "n + 1" 399] by (auto simp: year_start_def split: if_splits)
  ultimately have Y: "year_of_era doe \<le> 399" "year_start (year_of_era doe) \<le> doe"
    "doe < (if year_of_era doe = 399 then 146097 else year_start (year_of_era doe + 1))"
    using year_of_era by auto
  then have "\<not> year_of_era doe < n" "\<not> n < year_of_era doe"
    using assms year_start_mono [of "year_of_era doe + 1" n] year_start_mono [of "n + 1" "year_of_era doe"]
    by auto
  then show ?thesis by simp
qed

lemma month_start_bounds: "5 * month_start p \<le> 153 * p + 2" "153 * p + 2 < 5 * month_start p + 5"
  by (simp_all add: month_start_def)

lemma month_arith:
  fixes q p x :: int
  shows "5 * q \<le> 153 * p + 2 \<Longrightarrow> 153 * p \<le> 5 * x + 2 \<Longrightarrow> q \<le> x"
    and "153 * p + 2 < 5 * q + 5 \<Longrightarrow> q \<le> x \<Longrightarrow> 153 * p \<le> 5 * x + 2"
    and "153 * p \<le> 5 * x + 2 \<Longrightarrow> x \<le> 365 \<Longrightarrow> p \<le> 11"
    and "5 * x + 2 < 153 * p + 153 \<Longrightarrow> 0 \<le> x \<Longrightarrow> 0 \<le> p"
  by linarith+

lemma month_arith_less:
  fixes q p x :: int
  assumes "153 * (p + 1) + 2 < 5 * q + 5" "5 * x + 2 < 153 * p + 153"
  shows "x < q"
  using assms by presburger

lemma month_arith_less':
  fixes q p x :: int
  assumes "5 * q \<le> 153 * (p + 1) + 2" "x < q"
  shows "5 * x + 2 < 153 * p + 153"
proof -
  have "5 * q \<le> 153 * p + 155" "5 * x + 5 \<le> 5 * q" using assms by auto
  then have "5 * x + 3 \<le> 153 * p + 153" by linarith
  then show ?thesis by simp
qed

lemma month_of_year:
  fixes doy p :: int
  assumes "0 \<le> doy" "doy \<le> 365" and p: "p = (5 * doy + 2) div 153"
  shows "0 \<le> p" "p \<le> 11" "month_start p \<le> doy" "doy < month_start (p + 1)"
proof -
  have d: "153 * p \<le> 5 * doy + 2" "5 * doy + 2 < 153 * p + 153"
    using div_bounds(5,6) [of "5 * doy + 2"] by (simp_all add: p)
  show "0 \<le> p" using month_arith(4) [OF d(2) assms(1)] .
  show "p \<le> 11" using month_arith(3) [OF d(1) assms(2)] .
  show "month_start p \<le> doy" using month_arith(1) [OF month_start_bounds(1) d(1)] .
  show "doy < month_start (p + 1)" using month_arith_less [OF month_start_bounds(2) d(2)] .
qed

lemma month_of_year_unique:
  fixes doy p :: int
  assumes "0 \<le> p" "p \<le> 11" "month_start p \<le> doy" "doy < month_start (p + 1)"
  shows "(5 * doy + 2) div 153 = p"
proof -
  have "153 * p \<le> 5 * doy + 2" "5 * doy + 2 < 153 * p + 153"
    using month_arith(2) [OF month_start_bounds(2) assms(3)] month_arith_less' [OF month_start_bounds(1) assms(4)]
    by auto
  then show ?thesis by (intro int_div_pos_eq [of _ _ _ "5 * doy + 2 - 153 * p"]) auto
qed

section \<open>Both functions in closed form\<close>

text \<open>The day before day one of a month, the year given by its March.\<close>

definition day_number :: "int \<Rightarrow> int \<Rightarrow> int" where
  "day_number y p = 365 * y + y div 4 - y div 100 + y div 400 + month_start p - 719469"

lemma day_number_era: "0 \<le> n \<Longrightarrow> n < 400 \<Longrightarrow>
    day_number (n + 400 * e) p = 146097 * e + year_start n + month_start p - 719469"
proof -
  assume "0 \<le> n" "n < 400"
  moreover have "(n + 400 * e) div 4 = n div 4 + 100 * e" "(n + 400 * e) div 100 = n div 100 + 4 * e"
    using div_mult_self2 [of 4 n "100 * e"] div_mult_self2 [of 100 n "4 * e"] by simp_all
  ultimately show ?thesis by (simp add: day_number_def year_start_def)
qed

lemma days_flat:
  assumes "1 \<le> m" "m \<le> 12" "1 \<le> d" "d \<le> 31"
  shows "days_from_civil y m d =
     (if m \<le> 2 then day_number (y - 1) (m + 9) else day_number y (m - 3)) + d"
proof -
  define y' where "y' = (if m \<le> 2 then y - 1 else y)"
  define p where "p = (if m > 2 then m - 3 else m + 9)"
  have p: "0 \<le> p" "p \<le> 11" using assms by (auto simp: p_def)
  have n: "0 \<le> y' mod 400" "y' mod 400 < 400" by simp_all
  have era: "(if y' \<ge> 0 then y' else y' - 399) sdiv 400 = y' div 400" by (rule floor_sdivs(2))
  have "y' - y' div 400 * 400 = y' mod 400" by (simp add: minus_div_mult_eq_mod)
  then have yoe: "as_u64 (y' - y' div 400 * 400) = y' mod 400" using n by (simp add: as_u64_def)
  have ms: "0 \<le> month_start p" "month_start p \<le> 337" using p by (auto simp: month_start_def)
  have doy: "as_u64 (month_start p + d - 1) = month_start p + d - 1"
    using ms assms by (simp add: as_u64_def)
  have ys: "0 \<le> year_start (y' mod 400)" "year_start (y' mod 400) \<le> 145731"
    using n year_start_mono [of 0 "y' mod 400"] year_start_mono [of "y' mod 400" 399]
    by (simp_all add: year_start_def)
  have sum: "(y' mod 400) * 365 + y' mod 400 div 4 - y' mod 400 div 100 = year_start (y' mod 400)"
    by (simp add: year_start_def)
  have doe: "as_i64 (as_u64 (year_start (y' mod 400) + (month_start p + d - 1)))
      = year_start (y' mod 400) + (month_start p + d - 1)"
    using ms ys assms by (simp add: as_u64_def as_i64_def)
  have "days_from_civil y m d = y' div 400 * 146097 + (year_start (y' mod 400) + (month_start p + d - 1)) - 719468"
    unfolding days_from_civil_def Let_def y'_def [symmetric] p_def [symmetric] era yoe
    unfolding month_start_def [symmetric] doy unfolding sum doe ..
  also have "\<dots> = day_number (y' mod 400 + 400 * (y' div 400)) p + d"
    by (subst day_number_era [OF n]) simp
  also have "y' mod 400 + 400 * (y' div 400) = y'" by simp
  finally show ?thesis by (auto simp: y'_def p_def)
qed

section \<open>Every day\<close>

text \<open>The parts that civil\_from\_days computes, of the days since the first of March of year 0.\<close>

lemma civil_parts:
  assumes "0 \<le> doe" "doe \<le> 146096"
    and Y: "Y = year_of_era doe" and doy: "doy = doe - year_start Y" and p: "p = (5 * doy + 2) div 153"
  shows "civil_from_days (146097 * e + doe - 719468) =
     (let y = Y + 400 * e; d = doy - month_start p + 1 in
      if p < 10 then (y, p + 3, d) else (y + 1, p - 9, d))"
proof -
  have z: "146097 * e + doe - 719468 + 719468 = 146097 * e + doe" by simp
  have era: "(146097 * e + doe) div 146097 = e" using assms(1,2) by simp
  have doe': "as_u64 (146097 * e + doe - e * 146097) = doe" using assms(1,2) by (simp add: as_u64_def)
  have doy': "doe - (365 * Y + Y div 4 - Y div 100) = doy" by (simp add: doy year_start_def)
  have "0 \<le> doy" "doy \<le> 365" using year_of_era [OF assms(1,2)] assms(2)
    by (auto simp: doy Y year_start_def split: if_splits)
  then have "0 \<le> p" "p \<le> 11" using month_of_year [OF _ _ p] by auto
  then show ?thesis
    unfolding civil_from_days_def z Let_def floor_sdivs era doe'
    unfolding year_of_era_def [symmetric] Y [symmetric] doy' p [symmetric] month_start_def [symmetric]
    by (auto simp: mult.commute)
qed

lemma div_step:
  fixes y k :: int
  assumes "0 < k"
  shows "y div k = (y - 1) div k + (if k dvd y then 1 else 0)"
proof (cases "k dvd y")
  case True
  then obtain j where j: "y = k * j" by (auto elim: dvdE)
  then have "(y - 1) div k = j - 1"
    using assms by (intro int_div_pos_eq [of _ _ _ "k - 1"]) (auto simp: algebra_simps)
  then show ?thesis using j True assms by simp
next
  case False
  then have "0 < y mod k" using pos_mod_sign [OF assms, of y] by (auto simp: dvd_eq_mod_eq_0 order_less_le)
  moreover have "y - 1 = k * (y div k) + (y mod k - 1)" by simp
  ultimately have "(y - 1) div k = y div k"
    using pos_mod_bound [OF assms, of y] by (intro int_div_pos_eq [of _ _ _ "y mod k - 1"]) auto
  then show ?thesis using False by simp
qed

lemma leap_count:
  "(b \<longrightarrow> a) \<Longrightarrow> (c \<longrightarrow> b) \<Longrightarrow>
   (if a then 1 else 0) - (if b then 1 else 0) + (if c then 1 else 0)
     = (if a \<and> (\<not> b \<or> c) then 1 else (0 :: int))"
  by (cases a; cases b; cases c) simp_all

lemma leap_step:
  fixes y :: int
  shows "y div 4 - y div 100 + y div 400
    = (y - 1) div 4 - (y - 1) div 100 + (y - 1) div 400 + (if leap_year y then 1 else 0)"
proof -
  define b where "b k = (if k dvd y then 1 else 0 :: int)" for k
  have "100 dvd y \<longrightarrow> 4 dvd y" using dvd_trans [of 4 100 y] by simp
  moreover have "400 dvd y \<longrightarrow> 100 dvd y" using dvd_trans [of 100 400 y] by simp
  ultimately have "b 4 - b 100 + b 400 = (if leap_year y then 1 else 0)"
    unfolding b_def leap_year_def by (rule leap_count)
  moreover have "y div 4 = (y - 1) div 4 + b 4" "y div 100 = (y - 1) div 100 + b 100"
    "y div 400 = (y - 1) div 400 + b 400" unfolding b_def by (rule div_step, simp)+
  ultimately show ?thesis by linarith
qed

lemma year_length:
  assumes "0 \<le> n" "n < 399"
  shows "year_start (n + 1) = year_start n + 365 + (if leap_year (n + 1) then 1 else 0)"
  using leap_step [of "n + 1"] assms by (simp add: year_start_def)

lemma leap_year_era: "leap_year (n + 400 * e) = leap_year n"
proof -
  have "k dvd n + 400 * e \<longleftrightarrow> k dvd n" if "k dvd 400" for k :: int
    using that by (auto simp: dvd_add_left_iff dvd_mult2)
  then show ?thesis by (simp add: leap_year_def)
qed

text \<open>A date by the year that begins in March before it, the month in that year, and the day.\<close>

definition march_year :: "int \<Rightarrow> int \<Rightarrow> int" where
  "march_year y m = (if m \<le> 2 then y - 1 else y)"

definition march_month :: "int \<Rightarrow> int" where
  "march_month m = (if m \<le> 2 then m + 9 else m - 3)"

definition march_length :: "int \<Rightarrow> int \<Rightarrow> int" where
  "march_length y p =
     (if p = 11 then 28 + (if leap_year (y + 1) then 1 else 0) else month_start (p + 1) - month_start p)"

lemma twelve_months:
  assumes "1 \<le> (m::int)" "m \<le> 12"
  shows "m = 1 \<or> m = 2 \<or> m = 3 \<or> m = 4 \<or> m = 5 \<or> m = 6 \<or> m = 7 \<or> m = 8 \<or> m = 9 \<or> m = 10 \<or> m = 11 \<or> m = 12"
  using assms by presburger

lemma march_length:
  assumes "1 \<le> m" "m \<le> 12"
  shows "march_length (march_year y m) (march_month m) = month_length y m"
  using twelve_months [OF assms]
  by (elim disjE) (simp_all add: march_length_def march_year_def march_month_def month_length_def month_start_def)

lemma march_month: "1 \<le> m \<Longrightarrow> m \<le> 12 \<Longrightarrow> 0 \<le> march_month m \<and> march_month m \<le> 11"
  by (simp add: march_month_def)

lemma month_length_le: "month_length y m \<le> 31" "28 \<le> month_length y m"
  by (simp_all add: month_length_def)

lemma days_march:
  assumes "valid_date (y, m, d)"
  shows "days_from_civil y m d = day_number (march_year y m) (march_month m) + d"
  using assms days_flat [of m d y] month_length_le [of y m]
  by (simp add: march_year_def march_month_def)

lemma february_end: "day_number y 0 + 1 = day_number (y - 1) 11 + month_length y 2 + 1"
proof -
  have ms: "month_start 0 = 0" "month_start 11 = 337" by (simp_all add: month_start_def)
  define l :: int where "l = (if leap_year y then 1 else 0)"
  have "month_length y 2 = 28 + l" by (simp add: month_length_def l_def)
  moreover define f where "f n = n div 4 - n div 100 + n div 400" for n :: int
  have "day_number y 0 = 365 * y + f y - 719469" "day_number (y - 1) 11 = 365 * (y - 1) + f (y - 1) + 337 - 719469"
    by (simp_all add: day_number_def f_def ms)
  moreover have "f y = f (y - 1) + l" using leap_step [of y] by (simp only: f_def l_def)
  ultimately show ?thesis by simp
qed

text \<open>The next day has the next number.\<close>

lemma days_next:
  assumes "valid_date c"
  shows "valid_date (next_day c)"
    "(case next_day c of (y, m, d) \<Rightarrow> days_from_civil y m d) = (case c of (y, m, d) \<Rightarrow> days_from_civil y m d) + 1"
proof -
  obtain y m d where c: "c = (y, m, d)" by (cases c)
  note v = assms [unfolded c]
  show n: "valid_date (next_day c)" using v month_length_le [of y "m + 1"] month_length_le [of "y + 1" 1]
    unfolding c by auto
  show "(case next_day c of (y, m, d) \<Rightarrow> days_from_civil y m d) = (case c of (y, m, d) \<Rightarrow> days_from_civil y m d) + 1"
  proof (cases "d < month_length y m")
    case True
    then show ?thesis using n v days_march [of y m d] days_march [of y m "d + 1"] by (simp add: c)
  next
    case False
    then have d: "d = month_length y m" using v by simp
    show ?thesis
    proof (cases "m < 12")
      case True
      then have nd: "next_day c = (y, m + 1, 1)" using d by (simp add: c)
      have "day_number (march_year y (m + 1)) (march_month (m + 1)) + 1 = day_number (march_year y m) (march_month m) + d + 1"
      proof (cases "m = 2")
        case True
        then show ?thesis using february_end [of y] by (simp add: d march_year_def march_month_def)
      next
        case F: False
        have "1 \<le> m" using v by simp
        moreover have "m \<le> 12" "m \<noteq> 12" using True by linarith+
        ultimately have "m = 1 \<or> m = 3 \<or> m = 4 \<or> m = 5 \<or> m = 6 \<or> m = 7 \<or> m = 8 \<or> m = 9 \<or> m = 10 \<or> m = 11"
          using twelve_months [of m] F by blast
        then show ?thesis
          by (elim disjE) (simp_all add: d march_year_def march_month_def day_number_def month_length_def month_start_def)
      qed
      then show ?thesis using n v days_march [of y m d] days_march [of y "m + 1" 1] unfolding nd by (simp add: c)
    next
      case F: False
      then have m: "m = 12" and nd: "next_day c = (y + 1, 1, 1)" using v d by (auto simp: c)
      then show ?thesis using n v days_march [of y 12 d] days_march [of "y + 1" 1 1] unfolding nd
        by (simp add: c m d march_year_def march_month_def day_number_def month_length_def month_start_def)
    qed
  qed
qed

section \<open>Round trips\<close>

lemma valid_date_civil: "valid_date (civil_from_days z)"
  and days_civil: "(case civil_from_days z of (y, m, d) \<Rightarrow> days_from_civil y m d) = z"
proof -
  define e where "e = (z + 719468) div 146097"
  define doe where "doe = (z + 719468) mod 146097"
  define Y where "Y = year_of_era doe"
  define doy where "doy = doe - year_start Y"
  define p where "p = (5 * doy + 2) div 153"
  have z: "146097 * e + doe - 719468 = z" by (simp add: e_def doe_def)
  have doe: "0 \<le> doe" "doe \<le> 146096" by (simp_all add: doe_def)
  note Y = year_of_era [OF doe, folded Y_def]
  have len: "doy < 365 + (if leap_year (Y + 1) then 1 else 0)"
  proof (cases "Y = 399")
    case True
    then show ?thesis using doe by (simp add: doy_def year_start_def leap_year_def)
  next
    case False
    then show ?thesis using Y year_length [of Y] by (simp add: doy_def)
  qed
  have doy: "0 \<le> doy" "doy \<le> 365" using Y len by (auto simp: doy_def split: if_splits)
  note p = month_of_year [OF doy p_def]
  define y m d where "y = (if p < 10 then Y + 400 * e else Y + 400 * e + 1)"
    and "m = (if p < 10 then p + 3 else p - 9)" and "d = doy - month_start p + 1"
  have c: "civil_from_days z = (y, m, d)"
    using civil_parts [OF doe Y_def doy_def p_def, of e] by (simp add: z y_def m_def d_def Let_def)
  have m: "1 \<le> m" "m \<le> 12" and d: "1 \<le> d" using p by (auto simp: m_def d_def)
  have mar: "march_year y m = Y + 400 * e" "march_month m = p"
    using p by (auto simp: march_year_def march_month_def y_def m_def)
  have "leap_year (Y + 400 * e + 1) = leap_year (Y + 1)"
    using leap_year_era [of "Y + 1" e] by (simp add: algebra_simps)
  then have "d \<le> march_length (march_year y m) (march_month m)"
    using p len unfolding mar by (auto simp: march_length_def d_def month_start_def)
  then have v: "valid_date (y, m, d)" using m d march_length [OF m, of y] by simp
  then show "valid_date (civil_from_days z)" by (simp add: c)
  have "days_from_civil y m d = day_number (Y + 400 * e) p + d" using days_march [OF v] by (simp add: mar)
  also have "\<dots> = z" using day_number_era [of Y e p] Y z by (simp add: d_def doy_def)
  finally show "(case civil_from_days z of (y, m, d) \<Rightarrow> days_from_civil y m d) = z" by (simp add: c)
qed

lemma civil_days:
  assumes "valid_date (y, m, d)"
  shows "civil_from_days (days_from_civil y m d) = (y, m, d)"
proof -
  define Y where "Y = march_year y m mod 400"
  define e where "e = march_year y m div 400"
  define p where "p = march_month m"
  define doy where "doy = month_start p + d - 1"
  define doe where "doe = year_start Y + doy"
  have m: "1 \<le> m" "m \<le> 12" "1 \<le> d" using assms by auto
  have p: "0 \<le> p" "p \<le> 11" using march_month m by (auto simp: p_def)
  have Y: "0 \<le> Y" "Y \<le> 399" "march_year y m = Y + 400 * e" by (auto simp: Y_def e_def)
  have "d \<le> march_length (march_year y m) p" using assms march_length [OF m(1,2), of y] by (simp add: p_def)
  moreover have "leap_year (Y + 400 * e + 1) = leap_year (Y + 1)"
    using leap_year_era [of "Y + 1" e] by (simp add: algebra_simps)
  ultimately have d: "if p = 11 then d \<le> 28 + (if leap_year (Y + 1) then 1 else 0)
      else d \<le> month_start (p + 1) - month_start p"
    unfolding Y(3) by (auto simp: march_length_def split: if_splits)
  have ms: "0 \<le> month_start p" using p by (simp add: month_start_def)
  have len: "doy < 365 + (if leap_year (Y + 1) then 1 else 0)"
  proof (cases "p = 11")
    case True
    then show ?thesis using d by (auto simp: doy_def month_start_def)
  next
    case False
    then have "month_start (p + 1) \<le> 337" using p by (simp add: month_start_def)
    then show ?thesis using d False by (auto simp: doy_def)
  qed
  have doy: "month_start p \<le> doy" "doy < month_start (p + 1)"
    using d m len by (auto simp: doy_def month_start_def split: if_splits)
  have doy0: "0 \<le> doy" using ms doy by simp
  have "doe < (if Y = 399 then 146097 else year_start (Y + 1))"
  proof (cases "Y = 399")
    case True
    then show ?thesis using len by (auto simp: doe_def year_start_def split: if_splits)
  next
    case False
    then show ?thesis using Y len year_length [of Y] by (simp add: doe_def)
  qed
  then have yoe: "year_of_era doe = Y" and doe: "0 \<le> doe" "doe \<le> 146096"
    using Y doy0 year_of_era_unique [of Y doe] year_start_mono [of 0 Y] year_start_mono [of "Y + 1" 399]
    by (auto simp: doe_def year_start_def split: if_splits)
  have "days_from_civil y m d = 146097 * e + doe - 719468"
    using days_march [OF assms] day_number_era [of Y e p] Y by (simp add: doe_def doy_def flip: p_def)
  then show ?thesis
    using civil_parts [OF doe yoe [symmetric], of doy p e] month_of_year_unique [OF p doy] m
    by (auto simp: doe_def doy_def Let_def p_def march_month_def march_year_def Y(3) [symmetric] split: if_splits)
qed

text \<open>
  C25 (equivalence). The closed formulas of the log's dates are the Gregorian calendar: day 0 is
  the first of January 1970, the day after z has the date after the date of z, for every z, and
  days\_from\_civil is the inverse function, on all valid dates.
\<close>
theorem calendar_exact:
  "civil_from_days 0 = (1970, 1, 1)
   \<and> civil_from_days (z + 1) = next_day (civil_from_days z)
   \<and> (case civil_from_days z of (y, m, d) \<Rightarrow> valid_date (y, m, d) \<and> days_from_civil y m d = z)
   \<and> (valid_date (y, m, d) \<longrightarrow> civil_from_days (days_from_civil y m d) = (y, m, d))"
proof -
  have "civil_from_days 0 = (1970, 1, 1)"
    by code_simp
  moreover have "civil_from_days (z + 1) = next_day (civil_from_days z)"
  proof -
    obtain y m d where n: "next_day (civil_from_days z) = (y, m, d)" by (cases "next_day (civil_from_days z)")
    then have "valid_date (y, m, d)" "days_from_civil y m d = z + 1"
      using days_next [OF valid_date_civil, of z] days_civil [of z] by (auto split: prod.splits)
    then show ?thesis using civil_days n by metis
  qed
  ultimately show ?thesis using valid_date_civil [of z] days_civil [of z] civil_days by (auto split: prod.splits)
qed

theorem calendar_exact_witness:
  "civil_from_days 20709 = (2026, 9, 13) \<and> days_from_civil 2026 9 13 = 20709
   \<and> civil_from_days (days_from_civil 2024 2 29) = (2024, 2, 29)"
proof -
  have "civil_from_days 20709 = (2026, 9, 13)" by code_simp
  moreover have "valid_date (2024, 2, 29)" by code_simp
  ultimately show ?thesis using calendar_exact [of 20709 2024 2 29] by simp
qed

end
