(* ===== verification/Logging.thy ===== *)
theory Logging
  imports Calendar Rust_Std
begin

text \<open>
  crates/skiff-core/src/logging.rs: the log file of the day. A clock reading is the number of
  seconds since 1970, one per call; the directory listing, the success of an open and the file
  name of the stem are arguments. Files are named \<open>stem.yyyyMMdd.log\<close>. A panic is None.
\<close>

definition pad_zero :: "nat \<Rightarrow> nat \<Rightarrow> string" where
  "pad_zero w n = replicate (w - length (dec_of_nat n)) CHR ''0'' @ dec_of_nat n"

definition utc_date_string :: "nat \<Rightarrow> string" where
  "utc_date_string secs =
     (let days = int (secs div 86400); (y, m, d) = civil_from_days days
      in pad_zero 4 (nat y) @ pad_zero 2 (nat m) @ pad_zero 2 (nat d))"

definition utc_time_prefix :: "nat \<Rightarrow> string" where
  "utc_time_prefix secs =
     (let tod = secs mod 86400
      in ''['' @ pad_zero 2 (tod div 3600) @ '':'' @ pad_zero 2 (tod mod 3600 div 60) @ '':''
         @ pad_zero 2 (tod mod 60) @ '']'')"

text \<open>timestamped: the line as it reaches the wrapped logger.\<close>

definition timestamped :: "nat \<Rightarrow> string \<Rightarrow> string" where
  "timestamped secs line = utc_time_prefix secs @ '' '' @ line"

definition file_for :: "string \<Rightarrow> string \<Rightarrow> string" where
  "file_for stem date = stem @ ''.'' @ date @ ''.log''"

definition ends_with :: "string \<Rightarrow> string \<Rightarrow> bool" where
  "ends_with p s = (length p \<le> length s \<and> drop (length s - length p) s = p)"

definition date_str_is_valid :: "string \<Rightarrow> bool" where
  "date_str_is_valid s = list_all (\<lambda>c. digit_val c \<noteq> None) s"

text \<open>
  The body of the loop of cleanup\_old: whether the entry is removed. The slice between the
  prefix and the extension panics when the two overlap.
\<close>

definition stale_log :: "string \<Rightarrow> int \<Rightarrow> string \<Rightarrow> bool option" where
  "stale_log prefix cutoff_days name =
     (if \<not> starts_with prefix name \<or> \<not> ends_with ''.log'' name then Some False
      else do {
        date_part \<leftarrow> slice name (length prefix) (length name - 4);
        if length date_part \<noteq> 8 \<or> \<not> date_str_is_valid date_part then Some False
        else
          (case digits_val 0 date_part of
             None \<Rightarrow> Some False
           | Some days \<Rightarrow>
               Some (days_from_civil (int (days div 10000)) (int (days div 100 mod 100)) (int (days mod 100))
                       < cutoff_days)) })"

fun remove_stale :: "string \<Rightarrow> int \<Rightarrow> string option list \<Rightarrow> string list option" where
  "remove_stale prefix cutoff [] = Some []"
| "remove_stale prefix cutoff (None # rest) = remove_stale prefix cutoff rest"
| "remove_stale prefix cutoff (Some name # rest) = do {
     stale \<leftarrow> stale_log prefix cutoff name;
     removed \<leftarrow> remove_stale prefix cutoff rest;
     Some (if stale then name # removed else removed) }"

text \<open>
  The names removed. \<open>stem_file\<close> is the last component of the stem, \<open>listing\<close> the directory of
  the stem: None when it cannot be read, an entry None when its name is not UTF-8.
\<close>

definition cleanup_old ::
    "u32 \<Rightarrow> string option \<Rightarrow> nat \<Rightarrow> string option list option \<Rightarrow> string list option" where
  "cleanup_old keep_days stem_file now_secs listing =
     (case stem_file of
        None \<Rightarrow> Some []
      | Some f \<Rightarrow>
          (case listing of
             None \<Rightarrow> Some []
           | Some entries \<Rightarrow>
               remove_stale (f @ ''.'') (int (now_secs div 86400) - int (unat keep_days)) entries))"

datatype LogEffect = RemoveFile string | AppendLine string string

text \<open>
  write\_line: the files removed and the line written, and the date of the file that is open
  afterwards.
\<close>

definition write_line ::
    "string \<Rightarrow> u32 \<Rightarrow> string option \<Rightarrow> nat \<Rightarrow> bool \<Rightarrow> string option list option \<Rightarrow> string
      \<Rightarrow> string option \<Rightarrow> (LogEffect list \<times> string option) option" where
  "write_line stem keep_days stem_file now_secs opens listing line st =
     (let today = utc_date_string now_secs;
          reopen = (case st of Some date \<Rightarrow> date \<noteq> today | None \<Rightarrow> True)
      in if \<not> reopen then Some ([AppendLine (file_for stem today) line], st)
         else if \<not> opens then Some ([], st)
         else (case cleanup_old keep_days stem_file now_secs listing of
                 None \<Rightarrow> None
               | Some removed \<Rightarrow>
                   Some (map RemoveFile removed @ [AppendLine (file_for stem today) line], Some today)))"

section \<open>Dates in file names\<close>

lemma digits_val_acc: "digits_val acc s = map_option (\<lambda>v. acc * 10 ^ length s + v) (digits_val 0 s)"
proof (induction s arbitrary: acc)
  case (Cons c s)
  show ?case
  proof (cases "digit_val c")
    case (Some d)
    have "digits_val (10 * acc + d) s = map_option (\<lambda>v. (10 * acc + d) * 10 ^ length s + v) (digits_val 0 s)"
      "digits_val d s = map_option (\<lambda>v. d * 10 ^ length s + v) (digits_val 0 s)"
      by (rule Cons.IH)+
    then show ?thesis using Some by (cases "digits_val 0 s") (auto simp: algebra_simps)
  qed simp
qed simp

lemma length_dec: "n < 10 ^ w \<Longrightarrow> 0 < w \<Longrightarrow> length (dec_of_nat n) \<le> w"
proof (induction n arbitrary: w rule: dec_of_nat.induct)
  case (1 n)
  show ?case
  proof (cases "n < 10")
    case True
    then show ?thesis using 1(3) by (simp add: dec_of_nat.simps [of n])
  next
    case False
    then obtain v where w: "w = Suc v" "0 < v" using 1(2,3) by (cases w; cases "w - 1") auto
    then have "n div 10 < 10 ^ v" using 1(2) by (simp add: less_mult_imp_div_less mult.commute)
    then have "length (dec_of_nat (n div 10)) \<le> v" using 1(1) [OF False] w by simp
    then show ?thesis using False w by (simp add: dec_of_nat.simps [of n])
  qed
qed

lemma digits_val_zeros: "digits_val 0 (replicate k CHR ''0'' @ s) = digits_val 0 s"
  by (induction k) (auto simp: digit_val_def)

lemma pad_zero:
  assumes "n < 10 ^ w" "0 < w"
  shows "length (pad_zero w n) = w" "digits_val 0 (pad_zero w n) = Some n"
  using length_dec [OF assms] by (simp_all add: pad_zero_def digits_val_zeros digits_val_dec)

lemma digits_val_all: "digits_val acc s \<noteq> None \<longleftrightarrow> date_str_is_valid s"
  by (induction s arbitrary: acc) (auto simp: date_str_is_valid_def split: option.split)

text \<open>Years grow with the days; the year 9999 ends before day 2932897.\<close>

lemma day_number_mono: "a \<le> b \<Longrightarrow> day_number a p \<le> day_number b p"
proof -
  assume "a \<le> b"
  then have "a div 4 \<le> b div 4" "a div 400 \<le> b div 400" by (simp_all add: zdiv_mono1)
  moreover have "b div 100 - a div 100 \<le> b - a"
    using \<open>a \<le> b\<close> div_bounds(1,2) [of a] div_bounds(1,2) [of b] by (cases "a = b") linarith+
  ultimately show ?thesis using \<open>a \<le> b\<close> by (simp add: day_number_def)
qed

lemma year_range:
  assumes "0 \<le> z" "z < 2932897" and c: "civil_from_days z = (y, m, d)"
  shows "1970 \<le> y" "y \<le> 9999"
proof -
  have v: "valid_date (y, m, d)" and "days_from_civil y m d = z"
    using valid_date_civil [of z] days_civil [of z] c by auto
  then have z: "z = day_number (march_year y m) (march_month m) + d" using days_march by simp
  have m: "1 \<le> m" "m \<le> 12" "1 \<le> d" "d \<le> 31" using v month_length_le(1) [of y m] by auto
  have p: "month_start (march_month m) \<le> 337" "0 \<le> month_start (march_month m)"
    using march_month [OF m(1,2)] by (auto simp: month_start_def)
  show "1970 \<le> y"
  proof (rule ccontr)
    assume y: "\<not> 1970 \<le> y"
    then have "day_number (march_year y m) (march_month m) + d \<le> day_number (march_year 1969 m) (march_month m) + d"
      by (intro add_mono day_number_mono) (auto simp: march_year_def)
    also have "\<dots> < 0"
      using m p by (auto simp: march_year_def march_month_def day_number_def month_start_def)
    finally show False using assms(1) z by simp
  qed
  show "y \<le> 9999"
  proof (rule ccontr)
    assume y: "\<not> y \<le> 9999"
    have "2932897 \<le> day_number (march_year 10000 m) (march_month m) + d"
      using m p by (auto simp: march_year_def march_month_def day_number_def month_start_def)
    also have "\<dots> \<le> day_number (march_year y m) (march_month m) + d"
      using y by (intro add_mono day_number_mono) (auto simp: march_year_def)
    finally show False using assms(2) z by simp
  qed
qed

lemma date_string:
  assumes "z < 2932897" and c: "civil_from_days (int z) = (y, m, d)"
  shows "length (utc_date_string (86400 * z)) = 8"
    "digits_val 0 (utc_date_string (86400 * z)) = Some (10000 * nat y + 100 * nat m + nat d)"
    "nat m < 100" "nat d < 100"
proof -
  have y: "1970 \<le> y" "y \<le> 9999" using year_range [OF _ _ c] assms(1) by auto
  have v: "valid_date (y, m, d)" using valid_date_civil [of "int z"] c by simp
  then show m: "nat m < 100" and d: "nat d < 100" using month_length_le(1) [of y m] by auto
  note p = pad_zero [of "nat y" 4] pad_zero [of "nat m" 2] pad_zero [of "nat d" 2]
  have "nat y < 10 ^ 4" using y by simp
  then show "length (utc_date_string (86400 * z)) = 8" using p m d by (simp add: utc_date_string_def c)
  show "digits_val 0 (utc_date_string (86400 * z)) = Some (10000 * nat y + 100 * nat m + nat d)"
    using p m d y by (simp add: utc_date_string_def c digits_val_append
        digits_val_acc [of "nat y"] digits_val_acc [of "nat y * 100 + nat m"])
qed

section \<open>What the clean-up removes\<close>

lemma ends_with_log: "ends_with ''.log'' s \<longleftrightarrow> 4 \<le> length s \<and> drop (length s - 4) s = ''.log''"
  by (simp add: ends_with_def numeral_eq_Suc)

definition log_name :: "string \<Rightarrow> nat \<Rightarrow> string" where
  "log_name f z = file_for f (utc_date_string (86400 * z))"

lemma stale_log_shape:
  "stale_log (f @ ''.'') cutoff (f @ ''.'' @ date @ ''.log'') =
     (if length date \<noteq> 8 \<or> \<not> date_str_is_valid date then Some False
      else case digits_val 0 date of None \<Rightarrow> Some False
      | Some n \<Rightarrow> Some (days_from_civil (int (n div 10000)) (int (n div 100 mod 100)) (int (n mod 100)) < cutoff))"
  by (simp add: stale_log_def starts_with_take ends_with_def slice_def)

lemma date_digits:
  fixes a b c :: nat
  assumes "b < 100" "c < 100"
  defines "n \<equiv> 10000 * a + 100 * b + c"
  shows "n div 10000 = a" "n div 100 mod 100 = b" "n mod 100 = c"
proof -
  have n: "n = c + 100 * (b + 100 * a)" by (simp add: n_def)
  then have h: "n div 100 = b + 100 * a" using assms(2) by simp
  then show "n div 100 mod 100 = b" using assms(1) by simp
  show "n mod 100 = c" unfolding n mod_mult_self2 using assms(2) by simp
  have "n div 10000 = n div 100 div 100" by (simp add: div_mult2_eq [symmetric])
  then show "n div 10000 = a" using h assms(1) by simp
qed

lemma stale_log_day:
  assumes "z < 2932897"
  shows "stale_log (f @ ''.'') cutoff (log_name f z) = Some (int z < cutoff)"
proof -
  obtain y m d where c: "civil_from_days (int z) = (y, m, d)" by (cases "civil_from_days (int z)")
  note ds = date_string [OF assms c]
  have v: "valid_date (y, m, d)" and z: "days_from_civil y m d = int z"
    using valid_date_civil [of "int z"] days_civil [of "int z"] c by auto
  have y: "1970 \<le> y" using year_range(1) [OF _ _ c] assms by simp
  define n where "n = 10000 * nat y + 100 * nat m + nat d"
  have n: "n div 10000 = nat y" "n div 100 mod 100 = nat m" "n mod 100 = nat d"
    unfolding n_def by (rule date_digits [OF ds(3,4)])+
  have "digits_val 0 (utc_date_string (86400 * z)) = Some n" using ds(2) by (simp only: n_def)
  moreover from this have "date_str_is_valid (utc_date_string (86400 * z))"
    using digits_val_all by (metis option.discI)
  ultimately show ?thesis
    using ds(1) v y z n unfolding log_name_def file_for_def stale_log_shape by simp
qed

text \<open>The prefix and the extension overlap in one name only.\<close>

lemma stale_log_None: "stale_log (f @ ''.'') cutoff name = None \<longleftrightarrow> name = f @ ''.log''"
proof
  assume n: "stale_log (f @ ''.'') cutoff name = None"
  have s: "starts_with (f @ ''.'') name" and e: "ends_with ''.log'' name"
    using n by (auto simp: stale_log_def split: if_splits)
  obtain t where t: "name = f @ ''.'' @ t"
    using s by (metis append.assoc append_take_drop_id starts_with_take)
  have "slice name (length (f @ ''.'')) (length name - 4) = None"
    using n s e by (auto simp: stale_log_def split: bind_splits option.splits if_splits)
  then have l: "length t \<le> 3" by (auto simp: slice_def t split: if_splits)
  have d: "drop (length name - 4) name = ''.log''" using e by (simp add: ends_with_log)
  consider "length t = 3" | "length t = 2" | "length t = 1" | "length t = 0" using l by linarith
  then have "t = ''log''"
  proof cases
    case 1
    then show ?thesis using d by (auto simp: t)
  next
    case 2
    then have "drop (length f - 1) (f @ ''.'' @ t) = ''.log''" using d by (simp add: t)
    then show ?thesis using 2 by (auto simp: drop_Cons' length_Suc_conv numeral_2_eq_2 split: if_splits)
  next
    case 3
    then have "drop (length f - 2) (f @ ''.'' @ t) = ''.log''" using d by (simp add: t)
    then show ?thesis using 3 by (auto simp: drop_Cons' length_Suc_conv split: if_splits)
  next
    case 4
    then have "last name = CHR ''.''" by (simp add: t)
    moreover have "last (drop (length name - 4) name) = last name" by (simp add: t)
    ultimately show ?thesis using d by simp
  qed
  then show "name = f @ ''.log''" by (simp add: t)
qed (simp add: stale_log_def starts_with_take ends_with_def slice_def)

lemma stale_log_True:
  assumes "stale_log (f @ ''.'') cutoff name = Some True"
  shows "\<exists>date. name = file_for f date \<and> length date = 8 \<and> date_str_is_valid date"
proof -
  have s: "starts_with (f @ ''.'') name" and e: "ends_with ''.log'' name"
    using assms by (auto simp: stale_log_def split: if_splits)
  obtain t where t: "name = f @ ''.'' @ t"
    using s by (metis append.assoc append_take_drop_id starts_with_take)
  obtain date where sl: "slice name (length (f @ ''.'')) (length name - 4) = Some date"
    and d: "length date = 8" "date_str_is_valid date"
    using assms s e by (auto simp: stale_log_def split: bind_splits option.splits if_splits)
  then have "date = take (length t - 4) t" "4 \<le> length t" by (auto simp: slice_def t split: if_splits)
  moreover have "drop (length t - 4) t = ''.log''" using e calculation(2) by (simp add: ends_with_log t drop_Cons')
  ultimately have "t = date @ ''.log''" by (metis append_take_drop_id)
  then show ?thesis using d t by (auto simp: file_for_def)
qed

lemma remove_stale_None:
  "remove_stale prefix cutoff entries = None \<longleftrightarrow> (\<exists>name. Some name \<in> set entries \<and> stale_log prefix cutoff name = None)"
  by (induction prefix cutoff entries rule: remove_stale.induct) (auto split: bind_splits)

lemma remove_stale_Some:
  "remove_stale prefix cutoff entries = Some removed \<Longrightarrow>
   name \<in> set removed \<longleftrightarrow> Some name \<in> set entries \<and> stale_log prefix cutoff name = Some True"
  by (induction prefix cutoff entries arbitrary: removed rule: remove_stale.induct) (auto split: bind_splits if_splits)

text \<open>
  C26 (functional). When a new log file is opened, the file of day z in the directory of the logs is
  removed exactly if it is older than the days to keep, for every day up to the end of the
  year 9999, and nothing is removed but files named like a log; the logger aborts the process
  exactly if the directory holds a file named as the stem with the extension log.
\<close>
theorem log_cleanup_exact:
  assumes "z < 2932897"
  shows "(cleanup_old keep (Some f) now (Some entries) = None \<longleftrightarrow> Some (f @ ''.log'') \<in> set entries)
       \<and> (\<forall>removed. cleanup_old keep (Some f) now (Some entries) = Some removed \<longrightarrow>
            (log_name f z \<in> set removed \<longleftrightarrow>
               Some (log_name f z) \<in> set entries \<and> z + unat keep < now div 86400)
          \<and> (name \<in> set removed \<longrightarrow>
               (\<exists>date. name = file_for f date \<and> length date = 8 \<and> date_str_is_valid date)))"
proof -
  have "(int z < int (now div 86400) - int (unat keep)) = (z + unat keep < now div 86400)" by linarith
  then show ?thesis
    using stale_log_day [OF assms] stale_log_True
    by (auto simp: cleanup_old_def remove_stale_None stale_log_None remove_stale_Some)
qed

text \<open>A log of 2020 and an unrelated file, seen on a day of 2026; and the name that aborts.\<close>

theorem log_cleanup_exact_witness:
  "log_name ''service'' 18262 = ''service.20200101.log''
   \<and> cleanup_old 14 (Some ''service'') 1789257600
       (Some [Some ''service.20200101.log'', None, Some ''service.txt'']) = Some [''service.20200101.log'']
   \<and> cleanup_old 14 (Some ''service'') 1789257600 (Some [Some ''service.log'']) = None"
proof -
  have "civil_from_days 18262 = (2020, 1, 1)" by code_simp
  moreover have "char_of (48::nat) = CHR ''0''" "char_of (49::nat) = CHR ''1''" "char_of (50::nat) = CHR ''2''"
    by code_simp+
  ultimately have n: "log_name ''service'' 18262 = ''service.20200101.log''"
    by (simp add: log_name_def file_for_def utc_date_string_def pad_zero_def dec_of_nat.simps digit_char_def)
  have "cleanup_old 14 (Some ''service'') 1789257600
       (Some [Some ''service.20200101.log'', None, Some ''service.txt'']) = Some [''service.20200101.log'']"
    using stale_log_day [of 18262 "''service''" 20695, unfolded n]
    by (simp add: cleanup_old_def stale_log_def [of _ _ "''service.txt''"] ends_with_def)
  moreover have "cleanup_old 14 (Some ''service'') 1789257600 (Some [Some ''service.log'']) = None"
    using log_cleanup_exact [of 18262 14 "''service''" 1789257600 "[Some ''service.log'']" "''x''"] by simp
  ultimately show ?thesis using n by simp
qed

text \<open>Lines are appended to the file of the day on which they are written, in order.\<close>

definition appended :: "LogEffect list \<Rightarrow> (string \<times> string) list" where
  "appended es = List.map_filter (\<lambda>e. case e of AppendLine f l \<Rightarrow> Some (f, l) | RemoveFile _ \<Rightarrow> None) es"

fun write_lines ::
    "string \<Rightarrow> u32 \<Rightarrow> string option \<Rightarrow> (nat \<times> string option list option \<times> string) list \<Rightarrow> string option
      \<Rightarrow> LogEffect list option" where
  "write_lines stem keep f [] st = Some []"
| "write_lines stem keep f ((now, listing, line) # rest) st =
     (case write_line stem keep f now True listing line st of
        None \<Rightarrow> None
      | Some (es, st') \<Rightarrow> map_option (\<lambda>es'. es @ es') (write_lines stem keep f rest st'))"

lemma appended_append: "appended (a @ b) = appended a @ appended b"
  by (simp add: appended_def map_filter_def)

lemma appended_removed: "appended (map RemoveFile xs) = []"
  by (induction xs) (simp_all add: appended_def map_filter_simps)

lemma appended_line: "appended [AppendLine f l] = [(f, l)]"
  by (simp add: appended_def map_filter_simps)

lemma write_line_appends:
  assumes "write_line stem keep f now True listing line st = Some (es, st')"
  shows "appended es = [(file_for stem (utc_date_string now), line)]"
  using assms
  by (auto simp: write_line_def Let_def appended_append appended_removed appended_line
      split: if_splits option.splits)

text \<open>
  While the log can be opened, every line is written once, in order, to the file of
  the day of its writing.
\<close>
theorem log_lines_by_day:
  assumes "write_lines stem keep f ws st = Some es"
  shows "appended es = map (\<lambda>(now, _, line). (file_for stem (utc_date_string now), line)) ws"
  using assms
proof (induction stem keep f ws st arbitrary: es rule: write_lines.induct)
  case (2 stem keep f now listing line rest st)
  then show ?case
    using write_line_appends [of stem keep f now listing line st]
    by (auto simp: appended_append split: option.splits)
qed (simp add: appended_def map_filter_simps)

end
