(* ===== verification/Platform.thy ===== *)
theory Platform
  imports Rust_Std "HOL-Library.Multiset"
begin

text \<open>
  crates/skiff-core/src/platform.rs: the firewall of a Linux host, through whichever of ufw,
  firewalld and iptables it has. Running a tool (run\_tool) is the parameter
  \<open>tool program args w\<close>: whether it exits with 0, and the state of the host after it.
\<close>

type_synonym 'w Tool = "string \<Rightarrow> string list \<Rightarrow> 'w \<Rightarrow> bool \<times> 'w"
type_synonym FwPort = "u16 \<times> string"

datatype FwError = UfwFailed | FirewalldFailed | IptablesFailed | NoFirewall

definition port_proto :: "FwPort \<Rightarrow> string" where
  "port_proto p = dec_of_nat (unat (fst p)) @ ''/'' @ snd p"

text \<open>The loop over the ports: the first error ends it.\<close>

fun for_ports :: "(FwPort \<Rightarrow> 'w \<Rightarrow> bool \<times> 'w) \<Rightarrow> FwPort list \<Rightarrow> 'w \<Rightarrow> bool \<times> 'w" where
  "for_ports f [] w = (True, w)"
| "for_ports f (p # ps) w = (case f p w of (ok, w) \<Rightarrow> if ok then for_ports f ps w else (False, w))"

definition ufw_args :: "string \<Rightarrow> bool \<Rightarrow> FwPort \<Rightarrow> string list" where
  "ufw_args unit add p =
     (if add then [''allow'', port_proto p, ''comment'', ''starskiff '' @ unit]
      else [''delete'', ''allow'', port_proto p])"

definition firewalld_args :: "bool \<Rightarrow> FwPort \<Rightarrow> string list" where
  "firewalld_args add p = [''--permanent'', if add then ''--add-port'' else ''--remove-port'', port_proto p]"

text \<open>The rule of a port: what the check, the insertion and the deletion have in common.\<close>

definition iptables_rule :: "string \<Rightarrow> FwPort \<Rightarrow> string list" where
  "iptables_rule unit p =
     [''-p'', snd p, ''--dport='' @ dec_of_nat (unat (fst p)), ''-j'', ''ACCEPT'',
      ''-m'', ''comment'', ''--comment'', ''starskiff-'' @ unit @ ''-'' @ snd p]"

definition iptables_port :: "'w Tool \<Rightarrow> string \<Rightarrow> bool \<Rightarrow> FwPort \<Rightarrow> 'w \<Rightarrow> bool \<times> 'w" where
  "iptables_port tool unit add p w =
     (if add then
        (case tool ''iptables'' ([''-C'', ''INPUT''] @ iptables_rule unit p) w of
           (exists, w) \<Rightarrow>
             if exists then (True, w)
             else tool ''iptables'' ([''-I'', ''INPUT'', ''1''] @ iptables_rule unit p) w)
      else tool ''iptables'' ([''-D'', ''INPUT''] @ iptables_rule unit p) w)"

definition linux_firewall ::
    "(string \<Rightarrow> bool) \<Rightarrow> 'w Tool \<Rightarrow> string \<Rightarrow> FwPort list \<Rightarrow> bool \<Rightarrow> 'w \<Rightarrow> FwError option \<times> 'w" where
  "linux_firewall tool_exists tool unit ports add w =
     (if tool_exists ''ufw'' then
        (case for_ports (\<lambda>p. tool ''ufw'' (ufw_args unit add p)) ports w of
           (ok, w) \<Rightarrow> (if ok then None else Some UfwFailed, w))
      else if tool_exists ''firewall-cmd'' then
        (case for_ports (\<lambda>p. tool ''firewall-cmd'' (firewalld_args add p)) ports w of
           (ok, w) \<Rightarrow>
             if ok then (None, snd (tool ''firewall-cmd'' [''--reload''] w)) else (Some FirewalldFailed, w))
      else if tool_exists ''iptables'' then
        (case for_ports (iptables_port tool unit add) ports w of
           (ok, w) \<Rightarrow> (if ok then None else Some IptablesFailed, w))
      else (Some NoFirewall, w))"

definition linux_firewall_add where
  "linux_firewall_add tool_exists tool unit ports = linux_firewall tool_exists tool unit ports True"

definition linux_firewall_remove where
  "linux_firewall_remove tool_exists tool unit ports = linux_firewall tool_exists tool unit ports False"

section \<open>A host with iptables\<close>

text \<open>
  What is relied on of iptables, over the rules of the INPUT chain: the check tells whether a
  rule is in the chain and changes nothing, the insertion adds it, and the deletion removes one
  copy and fails if there is none.
\<close>

definition iptables_ok :: "'w Tool \<Rightarrow> ('w \<Rightarrow> string list multiset) \<Rightarrow> bool" where
  "iptables_ok tool chain =
     (\<forall>w r. fst (tool ''iptables'' ([''-C'', ''INPUT''] @ r) w) = (r \<in># chain w)
          \<and> chain (snd (tool ''iptables'' ([''-C'', ''INPUT''] @ r) w)) = chain w
          \<and> fst (tool ''iptables'' ([''-I'', ''INPUT'', ''1''] @ r) w)
          \<and> chain (snd (tool ''iptables'' ([''-I'', ''INPUT'', ''1''] @ r) w)) = add_mset r (chain w)
          \<and> fst (tool ''iptables'' ([''-D'', ''INPUT''] @ r) w) = (r \<in># chain w)
          \<and> chain (snd (tool ''iptables'' ([''-D'', ''INPUT''] @ r) w)) = chain w - {#r#})"

definition only_iptables :: "string \<Rightarrow> bool" where
  "only_iptables program = (program = ''iptables'')"

lemma iptables_rule_inj [simp]: "iptables_rule unit p = iptables_rule unit q \<longleftrightarrow> p = q"
proof -
  have "dec_of_nat (unat a) = dec_of_nat (unat b) \<longleftrightarrow> a = b" for a b :: u16
    using digits_val_dec by (metis option.inject word_unat_eq_iff)
  then show ?thesis by (cases p; cases q) (auto simp: iptables_rule_def)
qed

lemma iptables_add:
  assumes "iptables_ok tool chain"
  shows "fst (iptables_port tool unit True p w)"
    "chain (snd (iptables_port tool unit True p w)) =
       (if iptables_rule unit p \<in># chain w then chain w else add_mset (iptables_rule unit p) (chain w))"
proof -
  obtain e w1 where c: "tool ''iptables'' ([''-C'', ''INPUT''] @ iptables_rule unit p) w = (e, w1)"
    by (metis surj_pair)
  then have "e = (iptables_rule unit p \<in># chain w)" "chain w1 = chain w"
    using assms unfolding iptables_ok_def by (metis fst_conv snd_conv)+
  then show "fst (iptables_port tool unit True p w)"
    "chain (snd (iptables_port tool unit True p w)) =
       (if iptables_rule unit p \<in># chain w then chain w else add_mset (iptables_rule unit p) (chain w))"
    using assms c by (auto simp: iptables_port_def iptables_ok_def simp del: append_Cons)
qed

lemma iptables_remove:
  assumes "iptables_ok tool chain"
  shows "fst (iptables_port tool unit False p w) = (iptables_rule unit p \<in># chain w)"
    "chain (snd (iptables_port tool unit False p w)) = chain w - {#iptables_rule unit p#}"
  using assms by (simp_all add: iptables_port_def iptables_ok_def)

text \<open>
  The chain holds the rules of the ports P, each once, over rules of others.
\<close>

definition opens :: "('w \<Rightarrow> string list multiset) \<Rightarrow> string list multiset \<Rightarrow> string \<Rightarrow> FwPort set \<Rightarrow> 'w \<Rightarrow> bool" where
  "opens chain base unit P w = (finite P \<and> chain w = base + image_mset (iptables_rule unit) (mset_set P))"

definition foreign :: "string list multiset \<Rightarrow> string \<Rightarrow> bool" where
  "foreign base unit = (\<forall>p. iptables_rule unit p \<notin># base)"

lemma opens_member:
  "opens chain base unit P w \<Longrightarrow> foreign base unit \<Longrightarrow> iptables_rule unit p \<in># chain w \<longleftrightarrow> p \<in> P"
  by (cases p) (auto simp: opens_def foreign_def)

lemma opens_add:
  assumes "iptables_ok tool chain" "foreign base unit" "opens chain base unit P w"
  shows "opens chain base unit (insert p P) (snd (iptables_port tool unit True p w))"
  using iptables_add(2) [OF assms(1), of unit p w] opens_member [OF assms(3,2), of p] assms(3)
  by (cases "p \<in> P") (auto simp: opens_def insert_absorb)

lemma opens_remove:
  assumes "iptables_ok tool chain" "foreign base unit" "opens chain base unit P w" "p \<in> P"
  shows "fst (iptables_port tool unit False p w)"
    "opens chain base unit (P - {p}) (snd (iptables_port tool unit False p w))"
proof -
  have P: "finite P" "mset_set P = add_mset p (mset_set (P - {p}))"
    using assms(3,4) by (auto simp: opens_def mset_set.remove)
  show "fst (iptables_port tool unit False p w)"
    using iptables_remove(1) [OF assms(1), of unit p w] opens_member [OF assms(3,2), of p] assms(4) by simp
  show "opens chain base unit (P - {p}) (snd (iptables_port tool unit False p w))"
    using iptables_remove(2) [OF assms(1), of unit p w] assms(3) P by (simp add: opens_def)
qed

text \<open>Adding is idempotent, and removing what is there succeeds.\<close>

lemma for_ports_add:
  assumes "iptables_ok tool chain" "foreign base unit"
  shows "opens chain base unit P w \<Longrightarrow> for_ports (iptables_port tool unit True) ps w = (ok, w') \<Longrightarrow>
     ok \<and> opens chain base unit (P \<union> set ps) w'"
proof (induction ps arbitrary: P w)
  case (Cons p ps)
  obtain w1 where w1: "iptables_port tool unit True p w = (True, w1)"
    using iptables_add(1) [OF assms(1), of unit p w] by (metis prod.collapse)
  then have "opens chain base unit (insert p P) w1" using opens_add [OF assms Cons.prems(1), of p] by simp
  then show ?case using Cons.IH Cons.prems(2) w1 by fastforce
qed auto

lemma for_ports_remove:
  assumes "iptables_ok tool chain" "foreign base unit"
  shows "opens chain base unit P w \<Longrightarrow> distinct ps \<Longrightarrow> set ps \<subseteq> P \<Longrightarrow>
     for_ports (iptables_port tool unit False) ps w = (ok, w') \<Longrightarrow>
     ok \<and> opens chain base unit (P - set ps) w'"
proof (induction ps arbitrary: P w)
  case (Cons p ps)
  have p: "p \<in> P" using Cons.prems(3) by simp
  obtain w1 where w1: "iptables_port tool unit False p w = (True, w1)"
    using opens_remove(1) [OF assms Cons.prems(1) p] by (metis prod.collapse)
  then have "opens chain base unit (P - {p}) w1" using opens_remove(2) [OF assms Cons.prems(1) p] by simp
  moreover have "P - {p} - set ps = P - set (p # ps)" by auto
  ultimately show ?case using Cons.IH [of "P - {p}" w1] Cons.prems w1 by auto
qed auto

text \<open>A rule that is not there ends the removal before the ports after it.\<close>

lemma for_ports_remove_missing:
  assumes "iptables_ok tool chain" "iptables_rule unit p \<notin># chain w"
    and "for_ports (iptables_port tool unit False) (p # ps) w = (ok, w')"
  shows "\<not> ok \<and> chain w' = chain w"
  using iptables_remove [OF assms(1), of unit p w] assms(2,3)
  by (auto simp: diff_single_trivial split: prod.splits)

lemma linux_firewall_iptables:
  "linux_firewall only_iptables tool unit ports add w =
     (case for_ports (iptables_port tool unit add) ports w of
        (ok, w) \<Rightarrow> (if ok then None else Some IptablesFailed, w))"
  by (simp add: linux_firewall_def only_iptables_def)

text \<open>An instance: the chain is the state of the host.\<close>

definition demo_iptables :: "string list list Tool" where
  "demo_iptables program args w =
     (case args of
        c # i # r \<Rightarrow>
          (if c = ''-C'' then (r \<in> set w, w)
           else if c = ''-I'' then (True, drop 1 r # w)
           else if r \<in> set w then (True, remove1 r w) else (False, w))
      | _ \<Rightarrow> (False, w))"

lemma demo_iptables_ok: "iptables_ok demo_iptables mset"
  by (auto simp: iptables_ok_def demo_iptables_def diff_single_trivial)

end
