(* ===== verification/RuntimeFirewall.thy ===== *)
theory RuntimeFirewall
  imports Platform
begin

text \<open>
  crates/skiff-node/src/service_install.rs on Linux: the firewall rules of the ports a node
  listens on. The worker synchronises them at every start, the master removes them at its end;
  the file runtime-firewall.json remembers what was opened. The file is None when it cannot be
  read or parsed; whether it can be written is an argument, as is whether the process is root.
\<close>

record FirewallState =
  fs_udp :: "u16 list"
  fs_tcp :: "u16 list"

definition firewall_state_default :: FirewallState where
  "firewall_state_default = \<lparr>fs_udp = [], fs_tcp = []\<rparr>"

definition dedup_ports :: "u16 list \<Rightarrow> u16 list" where
  "dedup_ports ports = remdups_adj (sort (filter (\<lambda>p. p \<noteq> 0) ports))"

definition state_ports :: "FirewallState \<Rightarrow> FwPort list" where
  "state_ports st = map (\<lambda>p. (p, ''udp'')) (fs_udp st) @ map (\<lambda>p. (p, ''tcp'')) (fs_tcp st)"

definition stale_ports :: "FirewallState \<Rightarrow> FirewallState \<Rightarrow> FwPort list" where
  "stale_ports old new =
     map (\<lambda>p. (p, ''udp'')) (filter (\<lambda>p. p \<notin> set (fs_udp new)) (fs_udp old))
     @ map (\<lambda>p. (p, ''tcp'')) (filter (\<lambda>p. p \<notin> set (fs_tcp new)) (fs_tcp old))"

datatype FwLog = NotRoot | Synced FirewallState | SyncFailed FwError | StateNotWritten
  | CleanupSkipped | CleanedUp | CleanupFailed FwError

record 'w FwHost =
  fh_file :: "FirewallState option"
  fh_world :: 'w

text \<open>read, then from\_slice, then unwrap\_or\_default.\<close>

definition remembered :: "'w FwHost \<Rightarrow> FirewallState" where
  "remembered h = (case fh_file h of None \<Rightarrow> firewall_state_default | Some st \<Rightarrow> st)"

definition ensure_runtime_firewall ::
    "(string \<Rightarrow> bool) \<Rightarrow> 'w Tool \<Rightarrow> bool \<Rightarrow> bool \<Rightarrow> u16 list \<Rightarrow> u16 list \<Rightarrow> 'w FwHost \<Rightarrow> FwLog list \<times> 'w FwHost" where
  "ensure_runtime_firewall tool_exists tool root writes udp_ports tcp_ports h =
     (if \<not> root then ([NotRoot], h)
      else
        (let old = remembered h;
             new = \<lparr>fs_udp = dedup_ports udp_ports, fs_tcp = dedup_ports tcp_ports\<rparr>;
             stale = stale_ports old new;
             w = (if stale \<noteq> [] then snd (linux_firewall_remove tool_exists tool ''node'' stale (fh_world h))
                  else fh_world h);
             want = state_ports new;
             (logs, w) =
               (if want \<noteq> [] then
                  (case linux_firewall_add tool_exists tool ''node'' want w of
                     (None, w) \<Rightarrow> ([Synced new], w)
                   | (Some e, w) \<Rightarrow> ([SyncFailed e], w))
                else ([], w))
         in if writes then (logs, \<lparr>fh_file = Some new, fh_world = w\<rparr>)
            else (logs @ [StateNotWritten], h\<lparr>fh_world := w\<rparr>)))"

definition cleanup_runtime_firewall ::
    "(string \<Rightarrow> bool) \<Rightarrow> 'w Tool \<Rightarrow> bool \<Rightarrow> 'w FwHost \<Rightarrow> FwLog list \<times> 'w FwHost" where
  "cleanup_runtime_firewall tool_exists tool root h =
     (if \<not> root then ([CleanupSkipped], h)
      else
        (let st = remembered h;
             ports = state_ports st;
             (logs, w) =
               (if ports \<noteq> [] then
                  (case linux_firewall_remove tool_exists tool ''node'' ports (fh_world h) of
                     (None, w) \<Rightarrow> ([CleanedUp], w)
                   | (Some e, w) \<Rightarrow> ([CleanupFailed e], w))
                else ([], fh_world h))
         in (logs, \<lparr>fh_file = None, fh_world = w\<rparr>)))"

section \<open>Ports\<close>

definition port_set :: "u16 list \<Rightarrow> u16 list \<Rightarrow> FwPort set" where
  "port_set udp tcp = (\<lambda>p. (p, ''udp'')) ` (set udp - {0}) \<union> (\<lambda>p. (p, ''tcp'')) ` (set tcp - {0})"

lemma distinct_remdups_adj: "sorted xs \<Longrightarrow> distinct (remdups_adj xs)" for xs :: "'a::linorder list"
  by (induction xs rule: remdups_adj.induct) auto

lemma dedup_ports [simp]: "set (dedup_ports ps) = set ps - {0}" "distinct (dedup_ports ps)"
  by (auto simp: dedup_ports_def distinct_remdups_adj)

lemma state_ports_distinct: "distinct (fs_udp st) \<Longrightarrow> distinct (fs_tcp st) \<Longrightarrow> distinct (state_ports st)"
  by (auto simp: state_ports_def distinct_map inj_on_def)

lemma stale_ports: "set (stale_ports old new) = set (state_ports old) - set (state_ports new)"
  by (auto simp: stale_ports_def state_ports_def)

lemma stale_ports_distinct: "distinct (fs_udp old) \<Longrightarrow> distinct (fs_tcp old) \<Longrightarrow> distinct (stale_ports old new)"
  by (auto simp: stale_ports_def distinct_map inj_on_def)

section \<open>The firewall over a run\<close>

datatype FwEvent = EnsureFw "u16 list" "u16 list" | CleanupFw

definition fw_step :: "'w Tool \<Rightarrow> 'w FwHost \<Rightarrow> FwEvent \<Rightarrow> FwLog list \<times> 'w FwHost" where
  "fw_step tool h e =
     (case e of
        EnsureFw udp tcp \<Rightarrow> ensure_runtime_firewall only_iptables tool True True udp tcp h
      | CleanupFw \<Rightarrow> cleanup_runtime_firewall only_iptables tool True h)"

definition fw_consistent :: "('w \<Rightarrow> string list multiset) \<Rightarrow> string list multiset \<Rightarrow> 'w FwHost \<Rightarrow> bool" where
  "fw_consistent chain base h =
     (opens chain base ''node'' (set (state_ports (remembered h))) (fh_world h)
      \<and> distinct (fs_udp (remembered h)) \<and> distinct (fs_tcp (remembered h)))"

lemma firewall_remove_consistent:
  assumes "iptables_ok tool chain" "foreign base ''node''" "opens chain base ''node'' P w"
    and "distinct ps" "set ps \<subseteq> P"
  shows "\<exists>w'. linux_firewall_remove only_iptables tool ''node'' ps w = (None, w') \<and> opens chain base ''node'' (P - set ps) w'"
  using for_ports_remove [OF assms(1,2,3,4,5)]
  by (cases "for_ports (iptables_port tool ''node'' False) ps w")
     (auto simp: linux_firewall_remove_def linux_firewall_iptables)

lemma firewall_add_consistent:
  assumes "iptables_ok tool chain" "foreign base ''node''" "opens chain base ''node'' P w"
  shows "\<exists>w'. linux_firewall_add only_iptables tool ''node'' ps w = (None, w') \<and> opens chain base ''node'' (P \<union> set ps) w'"
  using for_ports_add [OF assms]
  by (cases "for_ports (iptables_port tool ''node'' True) ps w")
     (auto simp: linux_firewall_add_def linux_firewall_iptables)

lemma ensure_consistent:
  assumes ok: "iptables_ok tool chain" "foreign base ''node''" and h: "fw_consistent chain base h"
    and e: "ensure_runtime_firewall only_iptables tool True True udp tcp h = (logs, h')"
  shows "fh_file h' = Some \<lparr>fs_udp = dedup_ports udp, fs_tcp = dedup_ports tcp\<rparr>
       \<and> fw_consistent chain base h' \<and> (\<forall>err. SyncFailed err \<notin> set logs)"
proof -
  define new where "new = \<lparr>fs_udp = dedup_ports udp, fs_tcp = dedup_ports tcp\<rparr>"
  define stale where "stale = stale_ports (remembered h) new"
  define w1 where "w1 = (if stale \<noteq> [] then snd (linux_firewall_remove only_iptables tool ''node'' stale (fh_world h)) else fh_world h)"
  have d: "distinct stale" "set stale \<subseteq> set (state_ports (remembered h))"
    using h by (auto simp: stale_def stale_ports fw_consistent_def intro: stale_ports_distinct)
  have P: "opens chain base ''node'' (set (state_ports (remembered h))) (fh_world h)"
    using h by (simp add: fw_consistent_def)
  have w1: "opens chain base ''node'' (set (state_ports (remembered h)) - set stale) w1"
    using firewall_remove_consistent [OF ok P d] P by (auto simp: w1_def)
  obtain w2 where w2: "linux_firewall_add only_iptables tool ''node'' (state_ports new) w1 = (None, w2)"
    "opens chain base ''node'' (set (state_ports (remembered h)) - set stale \<union> set (state_ports new)) w2"
    using firewall_add_consistent [OF ok w1] by blast
  have "set (state_ports (remembered h)) - set stale \<union> set (state_ports new) = set (state_ports new)"
    by (auto simp: stale_def stale_ports)
  then have o2: "opens chain base ''node'' (set (state_ports new)) w2" using w2(2) by simp
  note e' = e [unfolded ensure_runtime_firewall_def Let_def, folded new_def, folded stale_def, folded w1_def]
  have dn: "distinct (fs_udp new)" "distinct (fs_tcp new)" by (simp_all add: new_def)
  show ?thesis
  proof (cases "state_ports new = []")
    case True
    then have "w2 = w1"
      using w2(1) by (simp add: linux_firewall_add_def linux_firewall_iptables)
    then have "h' = \<lparr>fh_file = Some new, fh_world = w2\<rparr>" "logs = []" using e' True by simp_all
    then show ?thesis using o2 dn by (simp add: fw_consistent_def remembered_def new_def)
  next
    case False
    then have "h' = \<lparr>fh_file = Some new, fh_world = w2\<rparr>" "logs = [Synced new]" using e' w2(1) by simp_all
    then show ?thesis using o2 dn by (simp add: fw_consistent_def remembered_def new_def)
  qed
qed

lemma cleanup_consistent:
  assumes ok: "iptables_ok tool chain" "foreign base ''node''" and h: "fw_consistent chain base h"
    and e: "cleanup_runtime_firewall only_iptables tool True h = (logs, h')"
  shows "fh_file h' = None \<and> fw_consistent chain base h' \<and> chain (fh_world h') = base"
proof -
  define ps where "ps = state_ports (remembered h)"
  have P: "opens chain base ''node'' (set ps) (fh_world h)" "distinct ps"
    using h by (auto simp: fw_consistent_def ps_def intro: state_ports_distinct)
  obtain w1 where w1: "linux_firewall_remove only_iptables tool ''node'' ps (fh_world h) = (None, w1)"
    "opens chain base ''node'' {} w1"
    using firewall_remove_consistent [OF ok P] by auto
  have "h' = \<lparr>fh_file = None, fh_world = w1\<rparr>"
  proof (cases "ps = []")
    case True
    then have "w1 = fh_world h" using w1(1) by (simp add: linux_firewall_remove_def linux_firewall_iptables)
    then show ?thesis using e True by (simp add: cleanup_runtime_firewall_def Let_def flip: ps_def)
  next
    case False
    then show ?thesis using e w1(1) by (simp add: cleanup_runtime_firewall_def Let_def flip: ps_def)
  qed
  then show ?thesis
    using w1(2) by (simp add: fw_consistent_def remembered_def firewall_state_default_def state_ports_def opens_def)
qed

interpretation firewall: machine "fw_step tool"
  "\<lambda>h. iptables_ok tool chain \<and> foreign base ''node'' \<longrightarrow> fw_consistent chain base h" for tool chain base
proof
  fix h e r h'
  assume "iptables_ok tool chain \<and> foreign base ''node'' \<longrightarrow> fw_consistent chain base h" "fw_step tool h e = (r, h')"
  then show "iptables_ok tool chain \<and> foreign base ''node'' \<longrightarrow> fw_consistent chain base h'"
    using ensure_consistent [of tool chain base h _ _ r h'] cleanup_consistent [of tool chain base h r h']
    by (cases e) (auto simp: fw_step_def)
qed

lemma firewall_run_consistent:
  assumes "iptables_ok tool chain" "foreign base ''node''" "fw_consistent chain base h"
  shows "fw_consistent chain base (snd (run (fw_step tool) h es))"
  using firewall.run_snd_inv [of tool chain base h es] assms by blast

text \<open>
  C23 (safety). On a host with iptables where only the node changes its own rules, after any sequence of
  starts with any ports and of clean-ups, the next start leaves exactly the rules of the ports
  it listens on beside the foreign ones, each once, and the next clean-up leaves none.
\<close>
theorem firewall_tracks_ports:
  assumes "iptables_ok tool chain" and "foreign (chain w) ''node''"
    and "snd (run (fw_step tool) \<lparr>fh_file = None, fh_world = w\<rparr> es) = h"
  shows "(\<forall>logs h'. ensure_runtime_firewall only_iptables tool True True udp tcp h = (logs, h') \<longrightarrow>
            opens chain (chain w) ''node'' (port_set udp tcp) (fh_world h'))
       \<and> (\<forall>logs h'. cleanup_runtime_firewall only_iptables tool True h = (logs, h') \<longrightarrow>
            chain (fh_world h') = chain w)"
proof -
  have "fw_consistent chain (chain w) \<lparr>fh_file = None, fh_world = w\<rparr>"
    by (simp add: fw_consistent_def remembered_def firewall_state_default_def state_ports_def opens_def)
  then have h: "fw_consistent chain (chain w) h"
    using firewall_run_consistent [OF assms(1,2)] assms(3) by blast
  have "set (state_ports \<lparr>fs_udp = dedup_ports udp, fs_tcp = dedup_ports tcp\<rparr>) = port_set udp tcp"
    by (auto simp: state_ports_def port_set_def)
  then show ?thesis
    using ensure_consistent [OF assms(1,2) h] cleanup_consistent [OF assms(1,2) h]
    by (auto simp: fw_consistent_def remembered_def) (metis option.simps(5))
qed

theorem firewall_tracks_ports_witness:
  "\<exists>h. h = snd (run (fw_step demo_iptables) \<lparr>fh_file = None, fh_world = []\<rparr> [EnsureFw [1, 0, 2, 1] [3]])
     \<and> mset (fh_world (snd (ensure_runtime_firewall only_iptables demo_iptables True True [24933] [] h)))
         = {#iptables_rule ''node'' (24933, ''udp'')#}
     \<and> mset (fh_world (snd (cleanup_runtime_firewall only_iptables demo_iptables True h))) = {#}"
proof -
  define h where "h = snd (run (fw_step demo_iptables) \<lparr>fh_file = None, fh_world = []\<rparr> [EnsureFw [1, 0, 2, 1] [3]])"
  obtain l1 h1 where 1: "ensure_runtime_firewall only_iptables demo_iptables True True [24933] [] h = (l1, h1)"
    by (metis surj_pair)
  obtain l2 h2 where 2: "cleanup_runtime_firewall only_iptables demo_iptables True h = (l2, h2)"
    by (metis surj_pair)
  have "foreign (mset []) ''node''" by (simp add: foreign_def)
  from firewall_tracks_ports [OF demo_iptables_ok this h_def [symmetric], of "[24933]" "[]"]
  have "opens mset {#} ''node'' (port_set [24933] []) (fh_world h1)" "mset (fh_world h2) = {#}"
    using 1 2 by auto
  then show ?thesis using 1 2 by (intro exI [of _ h]) (simp add: h_def opens_def port_set_def)
qed

section \<open>A rule that went missing\<close>

text \<open>
  The removal of what is no longer wanted ends at the first rule that is not in the chain: when
  one rule of the node has gone (removed by hand), a start with other ports forgets the
  stale ports after it without closing them, and no later clean-up does.
\<close>
theorem firewall_leaves_port_open:
  assumes "iptables_ok tool chain"
    and "fh_file h = Some \<lparr>fs_udp = [a, b], fs_tcp = []\<rparr>"
    and "chain (fh_world h) = {#iptables_rule ''node'' (b, ''udp'')#}"
    and "distinct [a, b, c]" and "c \<noteq> 0"
    and "ensure_runtime_firewall only_iptables tool True True [c] [] h = (logs, h1)"
    and "cleanup_runtime_firewall only_iptables tool True h1 = (logs', h2)"
  shows "logs = [Synced \<lparr>fs_udp = [c], fs_tcp = []\<rparr>] \<and> logs' = [CleanedUp] \<and> fh_file h2 = None
       \<and> iptables_rule ''node'' (b, ''udp'') \<in># chain (fh_world h2)"
proof -
  let ?rb = "iptables_rule ''node'' (b, ''udp'')" and ?rc = "iptables_rule ''node'' (c, ''udp'')"
  define new where "new = \<lparr>fs_udp = [c], fs_tcp = []\<rparr>"
  have new: "\<lparr>fs_udp = dedup_ports [c], fs_tcp = dedup_ports []\<rparr> = new"
    using assms(5) by (simp add: dedup_ports_def new_def)
  have stale: "stale_ports (remembered h) new = [(a, ''udp''), (b, ''udp'')]"
    using assms(2,4) by (auto simp: stale_ports_def remembered_def new_def)
  obtain ok w1 where r: "for_ports (iptables_port tool ''node'' False) [(a, ''udp''), (b, ''udp'')] (fh_world h) = (ok, w1)"
    by (metis surj_pair)
  then have w1: "chain w1 = {#?rb#}" and rm: "linux_firewall_remove only_iptables tool ''node'' [(a, ''udp''), (b, ''udp'')] (fh_world h) = (Some IptablesFailed, w1)"
    using for_ports_remove_missing [OF assms(1), of "''node''" "(a, ''udp'')" "fh_world h" "[(b, ''udp'')]" ok w1] assms(3,4)
    by (auto simp: linux_firewall_remove_def linux_firewall_iptables)
  obtain w2 where add: "iptables_port tool ''node'' True (c, ''udp'') w1 = (True, w2)"
    using iptables_add(1) [OF assms(1), of "''node''" "(c, ''udp'')" w1] by (metis prod.collapse)
  then have w2: "chain w2 = add_mset ?rc {#?rb#}"
    using iptables_add(2) [OF assms(1), of "''node''" "(c, ''udp'')" w1] w1 assms(4) by auto
  have sp: "state_ports new = [(c, ''udp'')]" by (simp add: state_ports_def new_def)
  have h1: "h1 = \<lparr>fh_file = Some new, fh_world = w2\<rparr>" "logs = [Synced new]"
    using assms(6) rm add unfolding ensure_runtime_firewall_def Let_def new stale sp
    by (simp_all add: linux_firewall_add_def linux_firewall_iptables)
  obtain w3 where del: "iptables_port tool ''node'' False (c, ''udp'') w2 = (True, w3)" and w3: "chain w3 = {#?rb#}"
    using iptables_remove [OF assms(1), of "''node''" "(c, ''udp'')" w2] w2 by (cases "iptables_port tool ''node'' False (c, ''udp'') w2") auto
  have "h2 = \<lparr>fh_file = None, fh_world = w3\<rparr>" "logs' = [CleanedUp]"
    using assms(7) del unfolding h1(1)
    by (simp_all add: cleanup_runtime_firewall_def Let_def remembered_def sp linux_firewall_remove_def linux_firewall_iptables)
  then show ?thesis using w3 h1(2) by (simp add: new_def)
qed

theorem firewall_leaves_port_open_witness:
  "\<exists>logs h1 logs' h2.
     ensure_runtime_firewall only_iptables demo_iptables True True [7] []
       \<lparr>fh_file = Some \<lparr>fs_udp = [5, 6], fs_tcp = []\<rparr>, fh_world = [iptables_rule ''node'' (6, ''udp'')]\<rparr> = (logs, h1)
   \<and> cleanup_runtime_firewall only_iptables demo_iptables True h1 = (logs', h2)
   \<and> logs' = [CleanedUp] \<and> iptables_rule ''node'' (6, ''udp'') \<in># mset (fh_world h2)"
proof -
  let ?h = "\<lparr>fh_file = Some \<lparr>fs_udp = [5, 6], fs_tcp = []\<rparr>, fh_world = [iptables_rule ''node'' (6, ''udp'')]\<rparr>"
  obtain logs h1 where 1: "ensure_runtime_firewall only_iptables demo_iptables True True [7] [] ?h = (logs, h1)"
    by (metis surj_pair)
  obtain logs' h2 where 2: "cleanup_runtime_firewall only_iptables demo_iptables True h1 = (logs', h2)"
    by (metis surj_pair)
  show ?thesis using firewall_leaves_port_open [OF demo_iptables_ok _ _ _ _ 1 2, of 5 6] 1 2 by auto
qed

end
