(* ===== verification/ServiceInstall.thy ===== *)
theory ServiceInstall
  imports RuntimeFirewall
begin

text \<open>
  The service commands on Linux: crates/skiff-node/src/service_install.rs and the service part of
  crates/skiff-server/src/main.rs. systemctl is run by the same parameter as the firewall tools;
  the unit files are a table from paths to texts. What a command prints is left out.
\<close>

section \<open>Text\<close>

definition NEWLINE :: char where "NEWLINE = CHR 0x0A"
definition CARRIAGE_RETURN :: char where "CARRIAGE_RETURN = CHR 0x0D"

definition text_of_lines :: "string list \<Rightarrow> string" where
  "text_of_lines ls = concat (map (\<lambda>l. l @ [NEWLINE]) ls)"

text \<open>str::lines, str::split\_whitespace and str::find with what follows the match.\<close>

definition strip_cr :: "string \<Rightarrow> string" where
  "strip_cr l = (if l \<noteq> [] \<and> last l = CARRIAGE_RETURN then butlast l else l)"

definition str_lines :: "string \<Rightarrow> string list" where
  "str_lines s =
     (let ls = split_on NEWLINE s in map strip_cr (if last ls = [] then butlast ls else ls))"

fun split_spaces :: "bytes list \<Rightarrow> bytes list" where
  "split_spaces [] = [[]]"
| "split_spaces (c # cs) =
     (if is_whitespace c then [] # split_spaces cs
      else (case split_spaces cs of [] \<Rightarrow> [c] | w # ws \<Rightarrow> (c @ w) # ws))"

definition split_whitespace :: "string \<Rightarrow> string list" where
  "split_whitespace s = filter (\<lambda>w. w \<noteq> []) (map chars_of (split_spaces (utf8_chars (as_bytes s))))"

fun after_find :: "string \<Rightarrow> string \<Rightarrow> string option" where
  "after_find p [] = (if p = [] then Some [] else None)"
| "after_find p (c # s) =
     (case strip_prefix p (c # s) of Some r \<Rightarrow> Some r | None \<Rightarrow> after_find p s)"

fun find_map :: "('a \<Rightarrow> 'b option) \<Rightarrow> 'a list \<Rightarrow> 'b option" where
  "find_map f [] = None"
| "find_map f (x # xs) = (case f x of Some y \<Rightarrow> Some y | None \<Rightarrow> find_map f xs)"

section \<open>The node's service\<close>

definition DEFAULT_SERVICE_NAME :: string where "DEFAULT_SERVICE_NAME = ''starskiff''"

definition service_name :: "string option \<Rightarrow> string" where
  "service_name explicit = (case explicit of Some n \<Rightarrow> n | None \<Rightarrow> DEFAULT_SERVICE_NAME)"

definition unit_path :: "string \<Rightarrow> string" where
  "unit_path name = ''/etc/systemd/system/'' @ name @ ''.service''"

definition unit_text :: "string \<Rightarrow> string \<Rightarrow> string \<Rightarrow> string" where
  "unit_text description exec_start restart = text_of_lines
     [''[Unit]'', ''Description='' @ description, ''After=network-online.target'',
      ''Wants=network-online.target'', [], ''[Service]'', ''Type=simple'',
      ''ExecStart='' @ exec_start, ''Restart='' @ restart, ''RestartSec=5'', [],
      ''[Install]'', ''WantedBy=multi-user.target'']"

definition node_exec :: "string \<Rightarrow> string \<Rightarrow> string option \<Rightarrow> string" where
  "node_exec exe config log_file =
     exe @ '' service run -c '' @ config
     @ (case log_file of None \<Rightarrow> [] | Some lf \<Rightarrow> '' --log-file '' @ lf)"

datatype InstallError = BadConfig | NeedsRoot | UnitExists string | WriteFailed | ToolFailed
  | DatabaseCheckFailed | NotInstalled

record 'w ServiceHost =
  sv_units :: "(string, string) table"
  sv_world :: 'w

text \<open>write, daemon-reload and enable, each error ending the command.\<close>

definition enable_unit ::
    "'w Tool \<Rightarrow> bool \<Rightarrow> string \<Rightarrow> string \<Rightarrow> 'w ServiceHost \<Rightarrow> (InstallError + unit) \<times> 'w ServiceHost" where
  "enable_unit tool writes name text h =
     (if \<not> writes then (Inl WriteFailed, h)
      else
        (let h = h\<lparr>sv_units := tput (unit_path name) text (sv_units h)\<rparr>
         in case tool ''systemctl'' [''daemon-reload''] (sv_world h) of
              (False, w) \<Rightarrow> (Inl ToolFailed, h\<lparr>sv_world := w\<rparr>)
            | (True, w) \<Rightarrow>
                (case tool ''systemctl'' [''enable'', name] w of
                   (False, w) \<Rightarrow> (Inl ToolFailed, h\<lparr>sv_world := w\<rparr>)
                 | (True, w) \<Rightarrow> (Inr (), h\<lparr>sv_world := w\<rparr>))))"

definition node_install ::
    "'w Tool \<Rightarrow> bool \<Rightarrow> bool \<Rightarrow> bool \<Rightarrow> string \<Rightarrow> string option \<Rightarrow> string \<Rightarrow> bool \<Rightarrow> string option
      \<Rightarrow> 'w ServiceHost \<Rightarrow> (InstallError + unit) \<times> 'w ServiceHost" where
  "node_install tool config_loads root writes exe name config no_restart log_file h =
     (let name = service_name name in
      if \<not> config_loads then (Inl BadConfig, h)
      else if \<not> root then (Inl NeedsRoot, h)
      else if thas (sv_units h) (unit_path name) then (Inl (UnitExists (unit_path name)), h)
      else enable_unit tool writes name
             (unit_text ''Starskiff mesh VPN node'' (node_exec exe config log_file)
                (if no_restart then ''no'' else ''always'')) h)"

text \<open>The configuration that the unit names.\<close>

definition config_of_unit :: "string \<Rightarrow> string option" where
  "config_of_unit text =
     (case find_map (strip_prefix ''ExecStart='') (str_lines text) of
        None \<Rightarrow> None
      | Some exec \<Rightarrow>
          Option.bind (position (\<lambda>t. t = ''-c'') (split_whitespace exec))
            (\<lambda>i. idx (split_whitespace exec) (i + 1)))"

text \<open>
  The configuration whose runtime firewall is cleaned up, and the host afterwards. The clean-up
  (cleanup\_runtime\_firewall in the data directory of that configuration) is an argument.
\<close>

definition node_remove ::
    "'w Tool \<Rightarrow> bool \<Rightarrow> (string \<Rightarrow> 'w \<Rightarrow> 'w) \<Rightarrow> string option \<Rightarrow> string option \<Rightarrow> 'w ServiceHost
      \<Rightarrow> (InstallError + string option) \<times> 'w ServiceHost" where
  "node_remove tool root cleanup name config h =
     (let name = service_name name in
      if \<not> root then (Inl NeedsRoot, h)
      else
        (let w = snd (tool ''systemctl'' [''disable'', ''--now'', name] (sv_world h));
             text = (case tget (sv_units h) (unit_path name) of None \<Rightarrow> [] | Some t \<Rightarrow> t);
             config_path = (case config of Some c \<Rightarrow> Some c | None \<Rightarrow> config_of_unit text);
             w = (case config_path of None \<Rightarrow> w | Some c \<Rightarrow> cleanup c w);
             units = tdel (unit_path name) (sv_units h);
             w = snd (tool ''systemctl'' [''daemon-reload''] w)
         in (Inr config_path, \<lparr>sv_units = units, sv_world = w\<rparr>)))"

definition service_ctl :: "'w Tool \<Rightarrow> string \<Rightarrow> string option \<Rightarrow> 'w \<Rightarrow> (InstallError + unit) \<times> 'w" where
  "service_ctl tool verb name w =
     (case tool ''systemctl'' [verb, service_name name] w of
        (ok, w) \<Rightarrow> (if ok then Inr () else Inl ToolFailed, w))"

definition service_status :: "'w Tool \<Rightarrow> string option \<Rightarrow> 'w \<Rightarrow> (InstallError + unit) \<times> 'w" where
  "service_status tool name w =
     (case tool ''systemctl'' [''status'', service_name name, ''--no-pager''] w of
        (ok, w) \<Rightarrow> (if ok then Inr () else Inl NotInstalled, w))"

section \<open>The server's service\<close>

definition SERVICE_NAME :: string where "SERVICE_NAME = ''starskiff-server''"

text \<open>The value after an argument that is exactly the flag.\<close>

definition arg_value :: "string list \<Rightarrow> string \<Rightarrow> string option" where
  "arg_value args flag = Option.bind (position (\<lambda>a. a = flag) args) (\<lambda>i. idx args (i + 1))"

definition arg_or :: "string list \<Rightarrow> string \<Rightarrow> string \<Rightarrow> string" where
  "arg_or args flag d = (case arg_value args flag of Some v \<Rightarrow> v | None \<Rightarrow> d)"

definition port_or :: "u16 \<Rightarrow> string \<Rightarrow> u16" where
  "port_or d s = (case parse_u16 s of Some p \<Rightarrow> p | None \<Rightarrow> d)"

definition install_ports :: "string list \<Rightarrow> FwPort list" where
  "install_ports args =
     [(port_or 24930 (arg_or args ''--api-port'' ''24930''), ''tcp''),
      (port_or 24931 (arg_or args ''--relay-udp'' ''24931''), ''udp''),
      (port_or 24932 (arg_or args ''--relay-tcp'' ''24932''), ''tcp'')]"

definition server_exec :: "string \<Rightarrow> string list \<Rightarrow> string" where
  "server_exec exe args = exe @ '' serve'' @ concat (map (\<lambda>a. '' '' @ a) args)"

definition server_install ::
    "(string \<Rightarrow> bool) \<Rightarrow> 'w Tool \<Rightarrow> bool \<Rightarrow> (string \<Rightarrow> bool) \<Rightarrow> bool \<Rightarrow> string \<Rightarrow> string list
      \<Rightarrow> 'w ServiceHost \<Rightarrow> (InstallError + unit) \<times> 'w ServiceHost" where
  "server_install tool_exists tool root db_opens writes exe args h =
     (if \<not> root then (Inl NeedsRoot, h)
      else if \<not> db_opens (arg_or args ''--db'' ''starskiff.sqlite'') then (Inl DatabaseCheckFailed, h)
      else if thas (sv_units h) (unit_path SERVICE_NAME) then (Inl (UnitExists (unit_path SERVICE_NAME)), h)
      else
        (case enable_unit tool writes SERVICE_NAME
                (unit_text ''Starskiff mesh VPN control plane and relay'' (server_exec exe args) ''always'') h of
           (Inl e, h) \<Rightarrow> (Inl e, h)
         | (Inr _, h) \<Rightarrow>
             (Inr (), h\<lparr>sv_world := snd (linux_firewall_add tool_exists tool SERVICE_NAME (install_ports args) (sv_world h))\<rparr>)))"

definition extract_flag_value :: "string \<Rightarrow> string \<Rightarrow> string option" where
  "extract_flag_value line flag =
     (case after_find flag line of
        None \<Rightarrow> None
      | Some rest \<Rightarrow> (case split_whitespace rest of [] \<Rightarrow> None | w # _ \<Rightarrow> Some w))"

definition unit_line_ports :: "string \<Rightarrow> FwPort list" where
  "unit_line_ports line =
     (case strip_prefix ''ExecStart='' (str_trim line) of
        None \<Rightarrow> []
      | Some rest \<Rightarrow>
          concat (map (\<lambda>proto.
            case Option.bind (extract_flag_value rest (''--'' @ proto)) parse_u16 of
              None \<Rightarrow> []
            | Some v \<Rightarrow> [(v, if proto = ''relay-udp'' then ''udp'' else ''tcp'')])
            [''api-port'', ''relay-udp'', ''relay-tcp'']))"

definition removal_ports :: "string \<Rightarrow> FwPort list" where
  "removal_ports text = concat (map unit_line_ports (str_lines text))"

definition server_remove ::
    "(string \<Rightarrow> bool) \<Rightarrow> 'w Tool \<Rightarrow> bool \<Rightarrow> 'w ServiceHost \<Rightarrow> (InstallError + unit) \<times> 'w ServiceHost" where
  "server_remove tool_exists tool root h =
     (if \<not> root then (Inl NeedsRoot, h)
      else
        (let w = snd (tool ''systemctl'' [''disable'', ''--now'', SERVICE_NAME] (sv_world h));
             text = (case tget (sv_units h) (unit_path SERVICE_NAME) of None \<Rightarrow> [] | Some t \<Rightarrow> t);
             ports = removal_ports text;
             units = tdel (unit_path SERVICE_NAME) (sv_units h);
             w = snd (tool ''systemctl'' [''daemon-reload''] w);
             w = (if ports \<noteq> [] then snd (linux_firewall_remove tool_exists tool SERVICE_NAME ports w) else w)
         in (Inr (), \<lparr>sv_units = units, sv_world = w\<rparr>)))"

end
