(* ===== verification/ServiceProps.thy ===== *)
theory ServiceProps
  imports ServiceInstall
begin

text \<open>
  What the service commands guarantee: the removal finds the configuration the installation wrote
  into the unit, and which ports of the server are closed again.
\<close>

section \<open>ASCII text\<close>

definition ascii_text :: "string \<Rightarrow> bool" where
  "ascii_text s = list_all (\<lambda>c. 32 \<le> (of_char c :: nat) \<and> (of_char c :: nat) < 127) s"

definition ascii_word :: "string \<Rightarrow> bool" where
  "ascii_word s = (s \<noteq> [] \<and> list_all (\<lambda>c. 32 < (of_char c :: nat) \<and> (of_char c :: nat) < 127) s)"

lemma ascii_word_text: "ascii_word s \<Longrightarrow> ascii_text s"
  by (auto simp: ascii_word_def ascii_text_def list_all_iff)

lemma ascii_text_simps [simp]:
  "ascii_text []" "ascii_text (s @ t) \<longleftrightarrow> ascii_text s \<and> ascii_text t"
  "ascii_text (c # s) \<longleftrightarrow> 32 \<le> (of_char c :: nat) \<and> (of_char c :: nat) < 127 \<and> ascii_text s"
  by (auto simp: ascii_text_def)

lemma byte_of_ascii:
  assumes "(of_char c :: nat) < 127"
  shows "(of_nat (of_char c) :: u8) < 0x80" "unat (of_nat (of_char c) :: u8) = of_char c"
  using assms by (simp_all add: word_less_nat_alt unat_of_nat)

lemma utf8_chars_ascii:
  "ascii_text s \<Longrightarrow> utf8_chars (as_bytes s @ b) = map (\<lambda>c. as_bytes [c]) s @ utf8_chars b"
proof (induction s)
  case (Cons c s)
  then show ?case using byte_of_ascii [of c] by (simp add: as_bytes_def utf8_next_ascii Let_def)
qed simp

lemma is_whitespace_ascii:
  assumes "32 < (of_char c :: nat)" "(of_char c :: nat) < 127"
  shows "\<not> is_whitespace (as_bytes [c])"
proof -
  have "(of_nat (of_char c) :: u8) \<noteq> of_nat k" if "k \<le> 32" for k :: nat
  proof
    assume "(of_nat (of_char c) :: u8) = of_nat k"
    then have "(of_char c :: nat) = unat (of_nat k :: u8)" using byte_of_ascii(2) [OF assms(2)] by simp
    also have "\<dots> = k" using that by (simp add: unat_of_nat)
    finally show False using assms(1) that by simp
  qed
  from this [of 9] this [of 10] this [of 11] this [of 12] this [of 13] this [of 32]
  show ?thesis by (simp add: is_whitespace_def as_bytes_def)
qed

section \<open>Tokens\<close>

lemma split_spaces_neq_Nil [simp]: "split_spaces cs \<noteq> []"
  by (induction cs) (auto split: list.split)

lemma split_spaces_word:
  "\<forall>c\<in>set cs. \<not> is_whitespace c \<Longrightarrow>
   split_spaces (cs @ rest) = (concat cs @ hd (split_spaces rest)) # tl (split_spaces rest)"
  by (induction cs) (auto split: list.split)

lemma word_chars: "ascii_word w \<Longrightarrow> \<forall>c\<in>set (map (\<lambda>c. as_bytes [c]) w). \<not> is_whitespace c"
  by (auto simp: ascii_word_def list_all_iff is_whitespace_ascii)

lemma concat_as_bytes: "concat (map (\<lambda>c. as_bytes [c]) w) = as_bytes w"
  by (induction w) (simp_all add: as_bytes_def)

lemma split_spaces_word_space:
  assumes "ascii_word w"
  shows "split_spaces (utf8_chars (as_bytes (w @ '' '' @ s))) = as_bytes w # split_spaces (utf8_chars (as_bytes s))"
proof -
  have "ascii_text (w @ '' '')" using ascii_word_text [OF assms] by simp
  from utf8_chars_ascii [OF this, of "as_bytes s"]
  have u: "utf8_chars (as_bytes (w @ '' '' @ s)) = map (\<lambda>c. as_bytes [c]) w @ [[32]] @ utf8_chars (as_bytes s)"
    by (simp add: as_bytes_def)
  have "is_whitespace [32]" by (simp add: is_whitespace_def)
  then show ?thesis
    unfolding u by (simp add: split_spaces_word [OF word_chars [OF assms]] concat_as_bytes)
qed

lemma split_whitespace_word:
  assumes "ascii_word w"
  shows "split_whitespace (w @ '' '' @ s) = w # split_whitespace s" "split_whitespace w = [w]"
proof -
  have w: "w \<noteq> []" using assms by (simp add: ascii_word_def)
  then show "split_whitespace (w @ '' '' @ s) = w # split_whitespace s"
    unfolding split_whitespace_def split_spaces_word_space [OF assms] by simp
  have "utf8_chars (as_bytes w) = map (\<lambda>c. as_bytes [c]) w"
    using utf8_chars_ascii [OF ascii_word_text [OF assms], of "[]"] by simp
  then show "split_whitespace w = [w]"
    using split_spaces_word [OF word_chars [OF assms], of "[]"] w by (simp add: split_whitespace_def concat_as_bytes)
qed

lemma split_whitespace_space: "split_whitespace (CHR '' '' # s) = split_whitespace s"
proof -
  have "utf8_chars (as_bytes (CHR '' '' # s)) = [32] # utf8_chars (as_bytes s)"
    using utf8_chars_ascii [of "'' ''" "as_bytes s"] by (simp add: as_bytes_def)
  then show ?thesis by (simp add: split_whitespace_def is_whitespace_def chars_of_def)
qed

section \<open>Lines\<close>

definition line_ok :: "string \<Rightarrow> bool" where
  "line_ok l = (NEWLINE \<notin> set l \<and> CARRIAGE_RETURN \<notin> set l)"

lemma ascii_line_ok: "ascii_text l \<Longrightarrow> line_ok l"
  by (auto simp: ascii_text_def list_all_iff line_ok_def NEWLINE_def CARRIAGE_RETURN_def)

lemma split_on_lines: "\<forall>l\<in>set ls. line_ok l \<Longrightarrow> split_on NEWLINE (text_of_lines ls) = ls @ [[]]"
proof (induction ls)
  case (Cons l ls)
  then show ?case
    using split_on_append [of NEWLINE l "text_of_lines ls"] by (simp add: text_of_lines_def line_ok_def)
qed (simp add: text_of_lines_def)

lemma strip_cr_ok: "line_ok l \<Longrightarrow> strip_cr l = l"
  by (auto simp: line_ok_def strip_cr_def dest: last_in_set)

lemma str_lines_text: "\<forall>l\<in>set ls. line_ok l \<Longrightarrow> str_lines (text_of_lines ls) = ls"
  by (simp add: str_lines_def split_on_lines butlast_append map_idI strip_cr_ok)

lemma unit_text_lines:
  assumes "ascii_text d" "ascii_text e" "ascii_text r"
  shows "str_lines (unit_text d e r) =
     [''[Unit]'', ''Description='' @ d, ''After=network-online.target'',
      ''Wants=network-online.target'', [], ''[Service]'', ''Type=simple'',
      ''ExecStart='' @ e, ''Restart='' @ r, ''RestartSec=5'', [],
      ''[Install]'', ''WantedBy=multi-user.target'']"
  unfolding unit_text_def using assms
  by (intro str_lines_text) (auto intro!: ascii_line_ok)

lemma find_exec:
  assumes "ascii_text d" "ascii_text e" "ascii_text r"
  shows "find_map (strip_prefix ''ExecStart='') (str_lines (unit_text d e r)) = Some e"
  unfolding unit_text_lines [OF assms] by (simp add: strip_prefix_def)

section \<open>The node finds its configuration again\<close>

text \<open>
  The unit that the installation of a node writes names its configuration: the removal
  without an explicit configuration finds it in the unit, whatever the log file and the name,
  if the paths of the program and the configuration are printable ASCII without spaces.
\<close>
theorem unit_config_recovered:
  assumes "ascii_word exe" and "exe \<noteq> ''-c''" and "ascii_word config"
    and "\<forall>lf. log_file = Some lf \<longrightarrow> ascii_text lf"
    and "node_install tool True True True exe name config no_restart log_file h = (Inr (), h1)"
  shows "fst (node_remove tool True cleanup name None h1) = Inr (Some config)"
proof -
  let ?e = "node_exec exe config log_file"
  have e: "ascii_text ?e"
    using ascii_word_text assms(1,3,4) by (auto simp: node_exec_def split: option.split)
  have "config_of_unit (unit_text d ?e r) = Some config" if "ascii_text d" "ascii_text r" for d r
  proof -
    obtain ts where "split_whitespace (config @ (case log_file of None \<Rightarrow> [] | Some lf \<Rightarrow> '' --log-file '' @ lf)) = config # ts"
      using split_whitespace_word(1) [OF assms(3), of "''--log-file '' @ _"] split_whitespace_word(2) [OF assms(3)]
      by (cases log_file) auto
    moreover have w: "ascii_word ''service''" "ascii_word ''run''" "ascii_word ''-c''" by code_simp+
    ultimately have "split_whitespace ?e = [exe, ''service'', ''run'', ''-c'', config] @ ts"
      using split_whitespace_word(1) [OF assms(1)] split_whitespace_word(1) [OF w(1)]
        split_whitespace_word(1) [OF w(2)] split_whitespace_word(1) [OF w(3)]
      by (simp add: node_exec_def)
    then show ?thesis
      using find_exec [OF that(1) e that(2)] assms(2) by (simp add: config_of_unit_def idx_def)
  qed
  moreover have "\<exists>r. ascii_text r \<and> tget (sv_units h1) (unit_path (service_name name))
      = Some (unit_text ''Starskiff mesh VPN node'' ?e r)"
    using assms(5)
    by (intro exI [of _ "if no_restart then ''no'' else ''always''"])
       (auto simp: node_install_def enable_unit_def Let_def tget_tput split: if_splits prod.splits bool.splits)
  ultimately show ?thesis by (auto simp: node_remove_def Let_def)
qed

theorem unit_config_recovered_witness:
  "fst (node_remove (\<lambda>_ _ w. (True, w)) True (\<lambda>_ w. w) None None
     (snd (node_install (\<lambda>_ _ w. (True, w)) True True True ''/usr/bin/starskiff'' None ''/etc/starskiff.json'' False
        (Some ''/var/log/starskiff'') \<lparr>sv_units = [], sv_world = ()\<rparr>))) = Inr (Some ''/etc/starskiff.json'')"
proof -
  let ?i = "node_install (\<lambda>_ _ w. (True, w)) True True True ''/usr/bin/starskiff'' None ''/etc/starskiff.json'' False
        (Some ''/var/log/starskiff'') \<lparr>sv_units = [], sv_world = ()\<rparr>"
  have "?i = (Inr (), snd ?i)" by (simp add: node_install_def enable_unit_def thas_def Let_def)
  moreover have "ascii_word ''/usr/bin/starskiff''" "ascii_word ''/etc/starskiff.json''" "ascii_text ''/var/log/starskiff''"
    by code_simp+
  ultimately show ?thesis
    using unit_config_recovered [of "''/usr/bin/starskiff''" "''/etc/starskiff.json''" "Some ''/var/log/starskiff''"
        "\<lambda>_ _ w. (True, w)" None False "\<lparr>sv_units = [], sv_world = ()\<rparr>" "snd ?i"] by simp
qed

section \<open>The ports of the server\<close>

lemma after_find_no_start: "c \<notin> set s \<Longrightarrow> after_find (c # p) s = None"
  by (induction s) (auto simp: strip_prefix_def)

lemma strip_prefix_over_space:
  assumes "CHR '' '' \<notin> set p"
  shows "strip_prefix p (s @ '' '' @ t) = map_option (\<lambda>r. r @ '' '' @ t) (strip_prefix p s)"
proof (cases "length p \<le> length s")
  case False
  have "take (length p) (s @ '' '' @ t) \<noteq> p"
  proof
    assume e: "take (length p) (s @ '' '' @ t) = p"
    then have "p ! length s = CHR '' ''" using False by (metis append_Cons not_le nth_append_length nth_take)
    then show False using assms False by (metis not_le nth_mem)
  qed
  moreover have "take (length p) s \<noteq> p" using False by auto
  ultimately show ?thesis by (simp add: strip_prefix_def)
qed (auto simp: strip_prefix_def)

lemma after_find_space:
  assumes "CHR '' '' \<notin> set p" "p \<noteq> []"
  shows "after_find p (s @ '' '' @ t) =
     (case after_find p s of Some r \<Rightarrow> Some (r @ '' '' @ t) | None \<Rightarrow> after_find p t)"
proof (induction s)
  case Nil
  have "strip_prefix p (CHR '' '' # t) = None" using assms by (cases p) (auto simp: strip_prefix_def)
  then show ?case using assms by simp
next
  case (Cons c s)
  then show ?case using strip_prefix_over_space [OF assms(1), of "c # s" t] by (auto split: option.splits)
qed

lemma after_find_prefix: "after_find p s = None \<Longrightarrow> p \<noteq> [] \<Longrightarrow> after_find (p @ q) s = None"
proof (induction s)
  case (Cons c s)
  then have "strip_prefix p (c # s) = None" by (auto split: option.splits)
  then have "strip_prefix (p @ q) (c # s) = None"
    using strip_prefix_Some [of "p @ q" "c # s"] strip_prefix_Some [of p "c # s"] by (cases "strip_prefix (p @ q) (c # s)") auto
  then show ?case using Cons by (auto split: option.splits)
qed auto

lemma str_trim_ascii:
  assumes "ascii_text s" "s \<noteq> []" "32 < (of_char (hd s) :: nat)" "32 < (of_char (last s) :: nat)"
  shows "str_trim s = s"
proof -
  have u: "utf8_chars (as_bytes s) = map (\<lambda>c. as_bytes [c]) s" using utf8_chars_ascii [OF assms(1), of "[]"] by simp
  have "\<not> is_whitespace (as_bytes [hd s])" "\<not> is_whitespace (as_bytes [last s])"
    using is_whitespace_ascii [of "hd s"] is_whitespace_ascii [of "last s"] assms
      hd_in_set [OF assms(2)] last_in_set [OF assms(2)]
    by (auto simp: ascii_text_def list_all_iff)
  then have "dropWhile is_whitespace (map (\<lambda>c. as_bytes [c]) s) = map (\<lambda>c. as_bytes [c]) s"
    "dropWhile is_whitespace (rev (map (\<lambda>c. as_bytes [c]) s)) = rev (map (\<lambda>c. as_bytes [c]) s)"
    using assms(2) by (auto intro!: dropWhile_eq_self_iff [THEN iffD2] simp: hd_map hd_rev last_map)
  then show ?thesis by (simp add: str_trim_def u concat_as_bytes)
qed

abbreviation server_description :: string where
  "server_description \<equiv> ''Starskiff mesh VPN control plane and relay''"

definition trimmed :: "string \<Rightarrow> bool" where
  "trimmed l = (ascii_text l \<and> (l = [] \<or> 32 < (of_char (hd l) :: nat) \<and> 32 < (of_char (last l) :: nat)))"

lemma trimmed: "trimmed l \<Longrightarrow> str_trim l = l"
proof (cases "l = []")
  case True
  then show ?thesis by (simp add: str_trim_def chars_of_def)
qed (simp add: trimmed_def str_trim_ascii)

lemma other_line: "trimmed l \<Longrightarrow> strip_prefix ''ExecStart='' l = None \<Longrightarrow> unit_line_ports l = []"
  by (simp add: unit_line_ports_def trimmed)

lemma other_lines_no_ports:
  "concat (map unit_line_ports [''[Unit]'', ''Description=Starskiff mesh VPN control plane and relay'',
     ''After=network-online.target'', ''Wants=network-online.target'', [], ''[Service]'', ''Type=simple'']) = []"
  "concat (map unit_line_ports [''Restart=always'', ''RestartSec=5'', [], ''[Install]'', ''WantedBy=multi-user.target'']) = []"
  by (simp_all add: other_line trimmed_def strip_prefix_def)

lemma removal_ports_exec:
  assumes "ascii_text e" "e \<noteq> []" "32 < (of_char (last e) :: nat)"
  shows "removal_ports (unit_text server_description e ''always'') = unit_line_ports (''ExecStart='' @ e)"
  using other_lines_no_ports unit_text_lines [of server_description e "''always''"] assms(1)
  by (simp add: removal_ports_def)

definition flag_ports :: "string \<Rightarrow> FwPort list" where
  "flag_ports e = concat (map (\<lambda>proto.
     case Option.bind (extract_flag_value e (''--'' @ proto)) parse_u16 of
       None \<Rightarrow> [] | Some v \<Rightarrow> [(v, if proto = ''relay-udp'' then ''udp'' else ''tcp'')])
     [''api-port'', ''relay-udp'', ''relay-tcp''])"

lemma unit_line_ports_exec:
  assumes "ascii_text e" "e \<noteq> []" "32 < (of_char (last e) :: nat)"
  shows "unit_line_ports (''ExecStart='' @ e) = flag_ports e"
proof -
  have "str_trim (''ExecStart='' @ e) = ''ExecStart='' @ e"
    using assms by (intro str_trim_ascii) auto
  then show ?thesis by (simp only: unit_line_ports_def flag_ports_def strip_prefix_append option.case)
qed

text \<open>A flag among words: found in the first word that holds it.\<close>

lemma flag_no_space:
  "CHR '' '' \<notin> set ''--api-port''" "CHR '' '' \<notin> set ''--relay-udp''" "CHR '' '' \<notin> set ''--relay-tcp''"
  by simp_all

lemma after_find_word:
  assumes "CHR '' '' \<notin> set p" "p \<noteq> []" "after_find p w = None"
  shows "after_find p (w @ '' '' @ t) = after_find p t"
  using after_find_space [OF assms(1,2), of w t] assms(3) by simp

lemma after_find_self: "p \<noteq> [] \<Longrightarrow> after_find p (p @ s) = Some s"
  by (cases p) (auto simp: strip_prefix_def)

lemma dec_no_flag: "after_find (CHR ''-'' # p) (dec_of_nat n) = None"
proof (rule after_find_no_start)
  show "CHR ''-'' \<notin> set (dec_of_nat n)"
  proof
    assume "CHR ''-'' \<in> set (dec_of_nat n)"
    then obtain d where "d < 10" "CHR ''-'' = digit_char d" using dec_of_nat_digits by blast
    then have "of_char CHR ''-'' = 48 + d" using of_char_digit_char [of d] by simp
    then show False by simp
  qed
qed

lemma ascii_word_dec: "ascii_word (dec_of_nat n)"
  using dec_of_nat_digits [of _ n] of_char_digit_char by (fastforce simp: ascii_word_def list_all_iff)

lemma exe_no_flag:
  assumes "after_find ''--'' exe = None"
  shows "after_find ''--api-port'' exe = None" "after_find ''--relay-udp'' exe = None" "after_find ''--relay-tcp'' exe = None"
  using after_find_prefix [OF assms, of "''api-port''"] after_find_prefix [OF assms, of "''relay-udp''"]
    after_find_prefix [OF assms, of "''relay-tcp''"] by simp_all

lemma flag_ports_none:
  assumes "after_find ''--'' exe = None"
  shows "flag_ports (server_exec exe []) = []"
proof -
  have e: "server_exec exe [] = exe @ '' '' @ ''serve''" by (simp add: server_exec_def)
  have n: "CHR ''-'' \<notin> set ''serve''" by simp
  note f = exe_no_flag [OF assms]
  have "after_find ''--api-port'' (server_exec exe []) = None"
    "after_find ''--relay-udp'' (server_exec exe []) = None"
    "after_find ''--relay-tcp'' (server_exec exe []) = None"
    unfolding e
    using after_find_word [OF flag_no_space(1) _ f(1)] after_find_word [OF flag_no_space(2) _ f(2)]
      after_find_word [OF flag_no_space(3) _ f(3)] after_find_no_start [OF n]
    by simp_all
  then show ?thesis by (simp add: flag_ports_def extract_flag_value_def)
qed

definition explicit_args :: "u16 \<Rightarrow> u16 \<Rightarrow> u16 \<Rightarrow> string list" where
  "explicit_args a b c = [''--api-port'', dec_of_nat (unat a), ''--relay-udp'', dec_of_nat (unat b),
     ''--relay-tcp'', dec_of_nat (unat c)]"

lemma parse_u16_dec: "parse_u16 (dec_of_nat (unat (a :: u16))) = Some a"
  using parse_unsigned_dec [of "unat a" 65535] unsigned_less [of a, where ?'a = nat] by (simp add: parse_u16_def)

lemma install_ports_explicit: "install_ports (explicit_args a b c) = [(a, ''tcp''), (b, ''udp''), (c, ''tcp'')]"
proof -
  have "dec_of_nat n \<noteq> CHR ''-'' # x" for n x
    using dec_no_flag [of "[]" n] by (auto simp: strip_prefix_def)
  then show ?thesis
    by (simp add: install_ports_def arg_or_def arg_value_def explicit_args_def idx_def port_or_def parse_u16_dec)
qed

lemma install_ports_default: "install_ports [] = [(24930, ''tcp''), (24931, ''udp''), (24932, ''tcp'')]"
  by (simp add: install_ports_def arg_or_def arg_value_def port_or_def parse_u16_def parse_unsigned_def
      digit_val_def)

lemma flag_value_word:
  assumes "ascii_word v" "after_find f line = Some ('' '' @ v @ rest)" "rest = [] \<or> (\<exists>t. rest = '' '' @ t)"
  shows "extract_flag_value line f = Some v"
  using assms(2,3) split_whitespace_word [OF assms(1)]
  by (auto simp: extract_flag_value_def split_whitespace_space)

lemma flag_ports_explicit:
  assumes "after_find ''--'' exe = None"
  shows "flag_ports (server_exec exe (explicit_args a b c)) = [(a, ''tcp''), (b, ''udp''), (c, ''tcp'')]"
proof -
  let ?a = "dec_of_nat (unat a)" and ?b = "dec_of_nat (unat b)" and ?c = "dec_of_nat (unat c)"
  let ?tc = "''--relay-tcp'' @ '' '' @ ?c"
  let ?tb = "''--relay-udp'' @ '' '' @ ?b @ '' '' @ ?tc"
  let ?ta = "''--api-port'' @ '' '' @ ?a @ '' '' @ ?tb"
  have e: "server_exec exe (explicit_args a b c) = exe @ '' '' @ ''serve'' @ '' '' @ ?ta"
    by (simp add: server_exec_def explicit_args_def)
  have serve: "after_find (CHR ''-'' # p) ''serve'' = None" for p by (rule after_find_no_start) simp
  note f = exe_no_flag [OF assms]
  have other: "after_find ''--relay-udp'' ''--api-port'' = None" "after_find ''--relay-tcp'' ''--api-port'' = None"
    "after_find ''--relay-tcp'' ''--relay-udp'' = None" by (simp_all add: strip_prefix_def)
  have "after_find ''--api-port'' (server_exec exe (explicit_args a b c)) = Some ('' '' @ ?a @ '' '' @ ?tb)"
    unfolding e after_find_word [OF flag_no_space(1) list.distinct(2) f(1)]
      after_find_word [OF flag_no_space(1) list.distinct(2) serve] by (rule after_find_self) simp
  then have 1: "extract_flag_value (server_exec exe (explicit_args a b c)) ''--api-port'' = Some ?a"
    by (rule flag_value_word [OF ascii_word_dec]) blast
  have "after_find ''--relay-udp'' (server_exec exe (explicit_args a b c)) = Some ('' '' @ ?b @ '' '' @ ?tc)"
    unfolding e after_find_word [OF flag_no_space(2) list.distinct(2) f(2)]
      after_find_word [OF flag_no_space(2) list.distinct(2) serve]
      after_find_word [OF flag_no_space(2) list.distinct(2) other(1)]
      after_find_word [OF flag_no_space(2) list.distinct(2) dec_no_flag] by (rule after_find_self) simp
  then have 2: "extract_flag_value (server_exec exe (explicit_args a b c)) ''--relay-udp'' = Some ?b"
    by (rule flag_value_word [OF ascii_word_dec]) blast
  have "after_find ''--relay-tcp'' (server_exec exe (explicit_args a b c)) = Some ('' '' @ ?c)"
    unfolding e after_find_word [OF flag_no_space(3) list.distinct(2) f(3)]
      after_find_word [OF flag_no_space(3) list.distinct(2) serve]
      after_find_word [OF flag_no_space(3) list.distinct(2) other(2)]
      after_find_word [OF flag_no_space(3) list.distinct(2) other(3)]
      after_find_word [OF flag_no_space(3) list.distinct(2) dec_no_flag] by (rule after_find_self) simp
  then have 3: "extract_flag_value (server_exec exe (explicit_args a b c)) ''--relay-tcp'' = Some ?c"
    using flag_value_word [OF ascii_word_dec, of "''--relay-tcp''" _ "unat c" "[]"] by simp
  show ?thesis using 1 2 3 by (simp add: flag_ports_def parse_u16_dec)
qed

section \<open>Installation and removal of the server\<close>

definition systemctl_neutral :: "'w Tool \<Rightarrow> ('w \<Rightarrow> string list multiset) \<Rightarrow> bool" where
  "systemctl_neutral tool chain = (\<forall>args w. chain (snd (tool ''systemctl'' args w)) = chain w)"

lemma opens_empty: "opens chain (chain w) unit {} w' \<longleftrightarrow> chain w' = chain w"
  by (simp add: opens_def)

lemma opens_chain: "chain w' = chain w \<Longrightarrow> opens chain base unit P w' = opens chain base unit P w"
  by (simp add: opens_def)

lemma server_install_opens:
  assumes ok: "iptables_ok tool chain" "foreign base SERVICE_NAME" and n: "systemctl_neutral tool chain"
    and b: "chain (sv_world h) = base"
    and "server_install only_iptables tool True db writes exe args h = (Inr (), h1)"
  shows "opens chain base SERVICE_NAME (set (install_ports args)) (sv_world h1)"
    "tget (sv_units h1) (unit_path SERVICE_NAME) = Some (unit_text server_description (server_exec exe args) ''always'')"
proof -
  obtain h' where e: "enable_unit tool writes SERVICE_NAME
      (unit_text server_description (server_exec exe args) ''always'') h = (Inr (), h')"
    and h1: "h1 = h'\<lparr>sv_world := snd (linux_firewall_add only_iptables tool SERVICE_NAME (install_ports args) (sv_world h'))\<rparr>"
    using assms(5) by (auto simp: server_install_def split: if_splits prod.splits sum.splits)
  have h': "chain (sv_world h') = base"
    "tget (sv_units h') (unit_path SERVICE_NAME) = Some (unit_text server_description (server_exec exe args) ''always'')"
    using e b n
    by (auto simp: enable_unit_def Let_def tget_tput systemctl_neutral_def split: if_splits prod.splits bool.splits)
       (metis snd_conv)
  have "opens chain base SERVICE_NAME {} (sv_world h')" using h'(1) by (simp add: opens_def)
  from for_ports_add [OF ok this, of "install_ports args"]
  show "opens chain base SERVICE_NAME (set (install_ports args)) (sv_world h1)"
    by (cases "for_ports (iptables_port tool SERVICE_NAME True) (install_ports args) (sv_world h')")
       (simp add: h1 linux_firewall_add_def linux_firewall_iptables)
  show "tget (sv_units h1) (unit_path SERVICE_NAME) = Some (unit_text server_description (server_exec exe args) ''always'')"
    using h'(2) by (simp add: h1)
qed

lemma server_remove_closes:
  assumes ok: "iptables_ok tool chain" "foreign base SERVICE_NAME" and n: "systemctl_neutral tool chain"
    and P: "opens chain base SERVICE_NAME P (sv_world h)"
    and t: "tget (sv_units h) (unit_path SERVICE_NAME) = Some text"
    and ps: "distinct (removal_ports text)" "set (removal_ports text) \<subseteq> P"
    and "server_remove only_iptables tool True h = (r, h2)"
  shows "opens chain base SERVICE_NAME (P - set (removal_ports text)) (sv_world h2)"
proof -
  define w where "w = snd (tool ''systemctl'' [''daemon-reload'']
     (snd (tool ''systemctl'' [''disable'', ''--now'', SERVICE_NAME] (sv_world h))))"
  have w: "opens chain base SERVICE_NAME P w"
    using P n opens_chain [of chain w "sv_world h"] by (simp add: w_def systemctl_neutral_def)
  have "sv_world h2 = (if removal_ports text \<noteq> []
      then snd (linux_firewall_remove only_iptables tool SERVICE_NAME (removal_ports text) w) else w)"
    using assms(8) t by (auto simp: server_remove_def Let_def w_def)
  then show ?thesis
    using for_ports_remove [OF ok w ps] w
    by (cases "for_ports (iptables_port tool SERVICE_NAME False) (removal_ports text) w")
       (auto simp: linux_firewall_remove_def linux_firewall_iptables)
qed

lemma server_exec_ascii:
  assumes "ascii_word exe" "args = [] \<or> args = explicit_args a b c"
  shows "ascii_text (server_exec exe args)" "server_exec exe args \<noteq> []"
    "32 < (of_char (last (server_exec exe args)) :: nat)"
proof -
  have d: "ascii_text (dec_of_nat n)" "32 < (of_char (last (dec_of_nat n)) :: nat)" for n
    using ascii_word_dec [of n] by (auto simp: ascii_word_text ascii_word_def list_all_iff)
  show "ascii_text (server_exec exe args)" "server_exec exe args \<noteq> []"
    "32 < (of_char (last (server_exec exe args)) :: nat)"
    using assms d ascii_word_text [OF assms(1)] by (auto simp: server_exec_def explicit_args_def)
qed

text \<open>
  The removal of the server's service closes the firewall ports that its unit names by flags:
  with explicit ports, everything the installation opened is closed; with the default ports,
  all three ports stay open, for the unit does not name them.
\<close>
theorem server_ports_after_removal:
  assumes "iptables_ok tool chain" and "systemctl_neutral tool chain" and "foreign (chain w) SERVICE_NAME"
    and "ascii_word exe" and "after_find ''--'' exe = None" and "a \<noteq> c"
    and "args = [] \<or> args = explicit_args a b c"
    and "server_install only_iptables tool True db writes exe args \<lparr>sv_units = [], sv_world = w\<rparr> = (Inr (), h1)"
    and "server_remove only_iptables tool True h1 = (r, h2)"
  shows "opens chain (chain w) SERVICE_NAME
     (if args = [] then {(24930, ''tcp''), (24931, ''udp''), (24932, ''tcp'')} else {}) (sv_world h2)"
proof -
  let ?text = "unit_text server_description (server_exec exe args) ''always''"
  note i = server_install_opens [OF assms(1,3,2) _ assms(8), simplified]
  note x = server_exec_ascii [OF assms(4,7)]
  have rp: "removal_ports ?text = (if args = [] then [] else [(a, ''tcp''), (b, ''udp''), (c, ''tcp'')])"
    using removal_ports_exec [OF x] unit_line_ports_exec [OF x] assms(7)
      flag_ports_none [OF assms(5)] flag_ports_explicit [OF assms(5)]
    by (auto simp: explicit_args_def)
  have ip: "set (install_ports args) = (if args = [] then {(24930, ''tcp''), (24931, ''udp''), (24932, ''tcp'')}
      else {(a, ''tcp''), (b, ''udp''), (c, ''tcp'')})"
    using assms(7) by (auto simp: install_ports_default install_ports_explicit)
  have "distinct (removal_ports ?text)" "set (removal_ports ?text) \<subseteq> set (install_ports args)"
    using assms(6) by (auto simp: rp ip)
  from server_remove_closes [OF assms(1,3,2) i this assms(9)]
  show ?thesis by (simp add: rp ip split: if_splits)
qed

definition demo_tool :: "string list list Tool" where
  "demo_tool program args w = (if program = ''systemctl'' then (True, w) else demo_iptables program args w)"

lemma demo_tool_ok: "iptables_ok demo_tool mset" "systemctl_neutral demo_tool mset"
  using demo_iptables_ok by (simp_all add: iptables_ok_def systemctl_neutral_def demo_tool_def)

theorem server_ports_after_removal_witness:
  "\<exists>h1 r h2.
     server_install only_iptables demo_tool True (\<lambda>_. True) True ''/opt/skiff'' [] \<lparr>sv_units = [], sv_world = []\<rparr> = (Inr (), h1)
   \<and> server_remove only_iptables demo_tool True h1 = (r, h2)
   \<and> iptables_rule SERVICE_NAME (24930, ''tcp'') \<in># mset (sv_world h2)"
proof -
  let ?i = "server_install only_iptables demo_tool True (\<lambda>_. True) True ''/opt/skiff'' [] \<lparr>sv_units = [], sv_world = []\<rparr>"
  have 1: "?i = (Inr (), snd ?i)"
    by (simp add: server_install_def enable_unit_def thas_def demo_tool_def Let_def)
  obtain r h2 where 2: "server_remove only_iptables demo_tool True (snd ?i) = (r, h2)" by (metis surj_pair)
  have "ascii_word ''/opt/skiff''" "after_find ''--'' ''/opt/skiff'' = None" by code_simp+
  moreover have f: "foreign (mset []) SERVICE_NAME" by (simp add: foreign_def)
  ultimately have "opens mset (mset []) SERVICE_NAME {(24930, ''tcp''), (24931, ''udp''), (24932, ''tcp'')} (sv_world h2)"
    using server_ports_after_removal [OF demo_tool_ok _ _ _ _ _ 1 2, of 0 1] by simp
  then have "iptables_rule SERVICE_NAME (24930, ''tcp'') \<in># mset (sv_world h2)"
    by (subst opens_member [OF _ f]) auto
  then show ?thesis by (intro exI [of _ "snd ?i"] exI [of _ r] exI [of _ h2] conjI 1 2)
qed

end
