(* ===== verification/NodeFile.thy ===== *)
theory NodeFile
  imports Tokens
begin

text \<open>
  The node's own file, starskiff.json: crates/skiff-core/src/models.rs (Identity, NodeConfig),
  crates/skiff-node/src/node\_config.rs and the keys of crates/skiff-core/src/crypto/node\_keys.rs.
  The serde derives are written out over JSON values; the text form of JSON (serde\_json), the
  encoding of a sealed secret and the file system are parameters. A struct is read from a JSON
  object; the positional form serde also accepts is not modelled.
\<close>

section \<open>JSON values\<close>

datatype Json =
    JNull
  | JBool bool
  | JNum int
  | JStr string
  | JArr "Json list"
  | JObj "(string \<times> Json) list"

text \<open>
  How a derived struct reads its fields: a missing one and a repeated one are told apart, members
  of other names are ignored.
\<close>

datatype Field = Missing | Repeated | Given Json

definition field :: "string \<Rightarrow> (string \<times> Json) list \<Rightarrow> Field" where
  "field k members =
     (case filter (\<lambda>m. fst m = k) members of
        [] \<Rightarrow> Missing | [m] \<Rightarrow> Given (snd m) | _ \<Rightarrow> Repeated)"

fun as_string :: "Json \<Rightarrow> string option" where
  "as_string (JStr s) = Some s"
| "as_string _ = None"

fun json_u64 :: "Json \<Rightarrow> u64 option" where
  "json_u64 (JNum n) = (if 0 \<le> n \<and> n < 2 ^ 64 then Some (of_int n) else None)"
| "json_u64 _ = None"

fun as_optional_string :: "Json \<Rightarrow> string option option" where
  "as_optional_string JNull = Some None"
| "as_optional_string j = map_option Some (as_string j)"

definition required :: "(Json \<Rightarrow> 'a option) \<Rightarrow> Field \<Rightarrow> 'a option" where
  "required read f = (case f of Given j \<Rightarrow> read j | _ \<Rightarrow> None)"

definition with_default :: "'a \<Rightarrow> (Json \<Rightarrow> 'a option) \<Rightarrow> Field \<Rightarrow> 'a option" where
  "with_default d read f = (case f of Missing \<Rightarrow> Some d | Given j \<Rightarrow> read j | Repeated \<Rightarrow> None)"

text \<open>serde\_json::Value indexed by a name; of a repeated one the last counts.\<close>

fun json_at :: "string \<Rightarrow> Json \<Rightarrow> Json" where
  "json_at k (JObj m) = (case filter (\<lambda>p. fst p = k) m of [] \<Rightarrow> JNull | ps \<Rightarrow> snd (last ps))"
| "json_at k _ = JNull"

section \<open>The file's data\<close>

record Identity =
  id_device_id :: u64
  id_name :: string
  id_device_token :: string
  id_sign_public_key :: string
  id_sign_private_key :: string
  id_dh_public_key :: string
  id_dh_private_key :: string
  id_server_cert_pin :: "string option"

record NodeConfig =
  nf_server :: string
  nf_data_dir :: string
  nf_log_file :: "string option"
  nf_identity :: Identity

text \<open>A secret is read from a string through the decoding of secret.rs.\<close>

definition as_secret :: "(string \<Rightarrow> SecretError + string) \<Rightarrow> Json \<Rightarrow> string option" where
  "as_secret sdec j =
     (case as_string j of
        None \<Rightarrow> None
      | Some t \<Rightarrow> (case sdec t of Inl _ \<Rightarrow> None | Inr s \<Rightarrow> Some s))"

fun read_identity :: "(string \<Rightarrow> SecretError + string) \<Rightarrow> Json \<Rightarrow> Identity option" where
  "read_identity sdec (JObj m) = do {
     i \<leftarrow> required json_u64 (field ''deviceId'' m);
     name \<leftarrow> required as_string (field ''name'' m);
     token \<leftarrow> required (as_secret sdec) (field ''deviceToken'' m);
     spub \<leftarrow> required as_string (field ''signPublicKey'' m);
     spriv \<leftarrow> required (as_secret sdec) (field ''signPrivateKey'' m);
     dpub \<leftarrow> required as_string (field ''dhPublicKey'' m);
     dpriv \<leftarrow> required (as_secret sdec) (field ''dhPrivateKey'' m);
     pin \<leftarrow> with_default None as_optional_string (field ''serverCertPin'' m);
     Some \<lparr>id_device_id = i, id_name = name, id_device_token = token, id_sign_public_key = spub,
           id_sign_private_key = spriv, id_dh_public_key = dpub, id_dh_private_key = dpriv,
           id_server_cert_pin = pin\<rparr> }"
| "read_identity sdec _ = None"

fun read_config :: "(string \<Rightarrow> SecretError + string) \<Rightarrow> Json \<Rightarrow> NodeConfig option" where
  "read_config sdec (JObj m) = do {
     server \<leftarrow> with_default [] as_string (field ''server'' m);
     dir \<leftarrow> with_default [] as_string (field ''dataDir'' m);
     log \<leftarrow> with_default None as_optional_string (field ''logFile'' m);
     identity \<leftarrow> required (read_identity sdec) (field ''identity'' m);
     Some \<lparr>nf_server = server, nf_data_dir = dir, nf_log_file = log, nf_identity = identity\<rparr> }"
| "read_config sdec _ = None"

text \<open>Writing; an absent option is skipped, a secret that cannot be sealed is an error.\<close>

definition optional_member :: "string \<Rightarrow> string option \<Rightarrow> (string \<times> Json) list" where
  "optional_member k v = (case v of None \<Rightarrow> [] | Some s \<Rightarrow> [(k, JStr s)])"

definition write_identity :: "(string \<Rightarrow> SecretError + string) \<Rightarrow> Identity \<Rightarrow> SecretError + Json" where
  "write_identity senc i =
     (case senc (id_device_token i) of Inl e \<Rightarrow> Inl e | Inr token \<Rightarrow>
     (case senc (id_sign_private_key i) of Inl e \<Rightarrow> Inl e | Inr spriv \<Rightarrow>
     (case senc (id_dh_private_key i) of Inl e \<Rightarrow> Inl e | Inr dpriv \<Rightarrow>
        Inr (JObj
          ([(''deviceId'', JNum (uint (id_device_id i))), (''name'', JStr (id_name i)),
            (''deviceToken'', JStr token), (''signPublicKey'', JStr (id_sign_public_key i)),
            (''signPrivateKey'', JStr spriv), (''dhPublicKey'', JStr (id_dh_public_key i)),
            (''dhPrivateKey'', JStr dpriv)]
           @ optional_member ''serverCertPin'' (id_server_cert_pin i))))))"

definition write_config :: "(string \<Rightarrow> SecretError + string) \<Rightarrow> NodeConfig \<Rightarrow> SecretError + Json" where
  "write_config senc c =
     (case write_identity senc (nf_identity c) of
        Inl e \<Rightarrow> Inl e
      | Inr i \<Rightarrow>
          Inr (JObj
            ([(''server'', JStr (nf_server c)), (''dataDir'', JStr (nf_data_dir c))]
             @ optional_member ''logFile'' (nf_log_file c) @ [(''identity'', i)])))"

text \<open>Off Windows a secret is written as it is.\<close>

definition plain_secret :: "string \<Rightarrow> SecretError + string" where
  "plain_secret s = Inr s"

section \<open>Loading and saving\<close>

datatype FileError = CannotRead | BadFormat | NoServer | NoDirectory | NotSealed SecretError | CannotWrite

definition config_validate :: "NodeConfig \<Rightarrow> FileError option" where
  "config_validate c = (if str_trim (nf_server c) = [] then Some NoServer else None)"

type_synonym files = "string \<Rightarrow> string option"

definition config_load ::
  "(string \<Rightarrow> Json option) \<Rightarrow> (string \<Rightarrow> SecretError + string) \<Rightarrow> string \<Rightarrow> files \<Rightarrow> FileError + NodeConfig" where
  "config_load from_str sdec path fs =
     (case fs path of
        None \<Rightarrow> Inl CannotRead
      | Some txt \<Rightarrow>
          (case Option.bind (from_str txt) (read_config sdec) of
             None \<Rightarrow> Inl BadFormat
           | Some c \<Rightarrow> (case config_validate c of Some e \<Rightarrow> Inl e | None \<Rightarrow> Inr c)))"

text \<open>What the file system answers: whether the directory could be made and the file written.\<close>

record SaveEnv =
  sv_mkdir :: bool
  sv_write :: bool

definition config_save ::
  "(Json \<Rightarrow> string) \<Rightarrow> (string \<Rightarrow> SecretError + string) \<Rightarrow> SaveEnv \<Rightarrow> string \<Rightarrow> NodeConfig \<Rightarrow> files
     \<Rightarrow> FileError + files" where
  "config_save to_text senc env path c fs =
     (if \<not> sv_mkdir env then Inl NoDirectory
      else (case write_config senc c of
              Inl e \<Rightarrow> Inl (NotSealed e)
            | Inr j \<Rightarrow> if sv_write env then Inr (fs(path \<mapsto> to_text j)) else Inl CannotWrite))"

section \<open>Keys\<close>

record NodeKeys =
  nk_sign_secret :: bytes
  nk_sign_public :: bytes
  nk_dh_secret :: bytes
  nk_dh_public :: bytes

definition sign_public_hex :: "(bytes \<Rightarrow> string) \<Rightarrow> NodeKeys \<Rightarrow> string" where
  "sign_public_hex hexenc k = hexenc (nk_sign_public k)"

definition dh_public_hex :: "(bytes \<Rightarrow> string) \<Rightarrow> NodeKeys \<Rightarrow> string" where
  "dh_public_hex hexenc k = hexenc (nk_dh_public k)"

section \<open>A saved file loads again\<close>

named_theorems field_simps_of_json \<open>reading a written object\<close>

lemma field_Nil [field_simps_of_json]: "field k [] = Missing"
  by (simp add: field_def)

lemma field_here [field_simps_of_json]:
  "k \<notin> fst ` set m \<Longrightarrow> field k ((k, v) # m) = Given v"
proof -
  assume "k \<notin> fst ` set m"
  then have "filter (\<lambda>p. fst p = k) m = []" by (auto simp: filter_empty_conv)
  then show ?thesis by (simp add: field_def)
qed

lemma field_later [field_simps_of_json]: "k \<noteq> k' \<Longrightarrow> field k ((k', v) # m) = field k m"
  by (simp add: field_def)

lemma optional_member_keys [field_simps_of_json]:
  "fst ` set (optional_member k v) = (if v = None then {} else {k})"
  by (auto simp: optional_member_def split: option.split)

lemma uint_u64 [field_simps_of_json]: "uint (w :: u64) < 18446744073709551616"
  using uint_lt2p [of w] by simp

lemma with_default_member [field_simps_of_json]:
  "with_default None as_optional_string (field k (optional_member k v)) = Some v"
  by (cases v) (simp_all add: with_default_def optional_member_def field_simps_of_json)

lemma read_write_identity:
  assumes "write_identity senc i = Inr j"
    and "\<And>s t. s \<in> {id_device_token i, id_sign_private_key i, id_dh_private_key i}
          \<Longrightarrow> senc s = Inr t \<Longrightarrow> sdec t = Inr s"
  shows "read_identity sdec j = Some i"
proof -
  obtain a b d where s: "senc (id_device_token i) = Inr a" "senc (id_sign_private_key i) = Inr b"
      "senc (id_dh_private_key i) = Inr d"
    using assms(1) by (auto simp: write_identity_def split: sum.splits)
  then have "sdec a = Inr (id_device_token i)" "sdec b = Inr (id_sign_private_key i)"
    "sdec d = Inr (id_dh_private_key i)" using assms(2) by blast+
  then show ?thesis
    using assms(1) s
    by (auto simp: write_identity_def field_simps_of_json required_def as_secret_def)
qed

lemma read_write_config:
  assumes "write_config senc c = Inr j"
    and "\<And>s t. s \<in> {id_device_token (nf_identity c), id_sign_private_key (nf_identity c),
                     id_dh_private_key (nf_identity c)} \<Longrightarrow> senc s = Inr t \<Longrightarrow> sdec t = Inr s"
  shows "read_config sdec j = Some c"
proof -
  obtain i where i: "write_identity senc (nf_identity c) = Inr i"
    using assms(1) by (auto simp: write_config_def split: sum.splits)
  have "read_identity sdec i = Some (nf_identity c)"
    using read_write_identity [OF i] assms(2) by blast
  moreover have "with_default None as_optional_string
      (field ''logFile'' (optional_member ''logFile'' l @ [(''identity'', i)])) = Some l" for l
    by (cases l) (simp_all add: with_default_def optional_member_def field_simps_of_json)
  moreover have "field ''identity'' (optional_member ''logFile'' l @ [(''identity'', i)]) = Given i" for l
    by (cases l) (simp_all add: optional_member_def field_simps_of_json)
  ultimately show ?thesis
    using assms(1) i
    by (auto simp: write_config_def field_simps_of_json required_def with_default_def [of "[]"])
qed

text \<open>
  A configuration that is saved loads again as it was, and no other file changes: given that
  JSON parses what it prints and that its three secrets unseal to what was sealed. The
  validation of load is the only condition on the configuration itself.
\<close>
theorem config_save_load:
  assumes "\<forall>j. write_config senc c = Inr j \<longrightarrow> from_str (to_text j) = Some j"
    and "\<forall>s t. s \<in> {id_device_token (nf_identity c), id_sign_private_key (nf_identity c),
                     id_dh_private_key (nf_identity c)} \<longrightarrow> senc s = Inr t \<longrightarrow> sdec t = Inr s"
    and "config_save to_text senc env path c fs = Inr fs'"
  shows "config_load from_str sdec path fs' = (case config_validate c of Some e \<Rightarrow> Inl e | None \<Rightarrow> Inr c)
    \<and> (\<forall>p. p \<noteq> path \<longrightarrow> fs' p = fs p)"
proof -
  obtain j where j: "write_config senc c = Inr j" and fs: "fs' = fs(path \<mapsto> to_text j)"
    using assms(3) by (auto simp: config_save_def split: if_splits sum.splits)
  have "read_config sdec j = Some c" using read_write_config [OF j] assms(2) by blast
  then show ?thesis using j assms(1) fs by (simp add: config_load_def)
qed

text \<open>A configuration as the witnesses use it.\<close>

definition demo_config :: NodeConfig where
  "demo_config =
     \<lparr>nf_server = ''https://s'', nf_data_dir = [], nf_log_file = None,
      nf_identity = \<lparr>id_device_id = 7, id_name = ''n'', id_device_token = ''skd_t'', id_sign_public_key = ''aa'',
        id_sign_private_key = ''bb'', id_dh_public_key = ''cc'', id_dh_private_key = ''dd'',
        id_server_cert_pin = Some ''ee''\<rparr>\<rparr>"

theorem config_save_load_witness:
  "config_load (\<lambda>_. Some (projr (write_config plain_secret demo_config))) (secret_decode other_unseal (\<lambda>_. None))
     ''c'' [''c'' \<mapsto> ''text''] = (case config_validate demo_config of Some e \<Rightarrow> Inl e | None \<Rightarrow> Inr demo_config)
   \<and> (\<forall>p. p \<noteq> ''c'' \<longrightarrow> [''c'' \<mapsto> ''text''] p = Map.empty p)"
  by (rule config_save_load [of plain_secret demo_config _ "\<lambda>_. ''text''" _ "\<lparr>sv_mkdir = True, sv_write = True\<rparr>"])
     (auto simp: config_save_def write_config_def write_identity_def plain_secret_def demo_config_def
        secret_decode_def SEALED_PREFIX_def strip_prefix_def optional_member_def)

lemma plain_secret_decodes:
  "strip_prefix SEALED_PREFIX s = None \<Longrightarrow> secret_decode other_unseal b64dec s = Inr s"
  by (simp add: secret_decode_def)

end
