(* ===== verification/NodeStart.thy ===== *)
theory NodeStart
  imports EngineControl UdpMesh NodeFile Transports
begin

text \<open>
  How a node starts: crates/skiff-node/src/engine.rs, start\_with\_settings up to the spawning of
  its tasks, resolve\_relay\_host and bootstrap\_settings, and crates/skiff-node/src/lib.rs,
  start\_engine and tun\_first\_network. The sockets, the resolver, the TUN driver and the answers
  of the control plane are arguments.
\<close>

section \<open>The relay host\<close>

text \<open>str::trim\_start\_matches with a text pattern: it is taken off as often as it occurs.\<close>

function trim_start_matches :: "string \<Rightarrow> string \<Rightarrow> string" where
  "trim_start_matches p s =
     (case strip_prefix p s of
        Some r \<Rightarrow> if p = [] then s else trim_start_matches p r
      | None \<Rightarrow> s)"
  by pat_completeness auto
termination
  by (relation "measure (\<lambda>(p, s). length s)") (auto simp: strip_prefix_Some)

declare trim_start_matches.simps [simp del]

datatype IpAddr = V4 u32 | V6 "u16 list"

definition parse_ip :: "string \<Rightarrow> IpAddr option" where
  "parse_ip s =
     (case parse_ipv4 s of
        Some a \<Rightarrow> Some (V4 a)
      | None \<Rightarrow> (case read_ipv6_addr s of Some (g, []) \<Rightarrow> Some (V6 g) | _ \<Rightarrow> None))"

definition LOCALHOST :: u32 where "LOCALHOST = 0x7F000001"

definition relay_host_name :: "string \<Rightarrow> string" where
  "relay_host_name server_url =
     hd (split_on CHR '':''
       (hd (split_on CHR ''/'' (trim_start_matches ''http://'' (trim_start_matches ''https://'' server_url)))))"

datatype RelayHostError = LookupFailed string | NoIpv4 string

fun first_v4 :: "SocketAddr list \<Rightarrow> u32 option" where
  "first_v4 [] = None"
| "first_v4 (SocketAddrV4 a _ # _) = Some a"
| "first_v4 (SocketAddrV6 _ _ _ # rest) = first_v4 rest"

definition resolve_relay_host :: "(string \<Rightarrow> SocketAddr list option) \<Rightarrow> string \<Rightarrow> RelayHostError + u32" where
  "resolve_relay_host lookup server_url =
     (let host = relay_host_name server_url in
      case parse_ip host of
        Some ip \<Rightarrow> (let v4 = (case ip of V4 a \<Rightarrow> a | V6 _ \<Rightarrow> LOCALHOST)
                    in Inr (if v4 = 0 then LOCALHOST else v4))
      | None \<Rightarrow>
          (case lookup host of
             None \<Rightarrow> Inl (LookupFailed host)
           | Some addrs \<Rightarrow> (case first_v4 addrs of Some a \<Rightarrow> Inr a | None \<Rightarrow> Inl (NoIpv4 host))))"

section \<open>The TCP listeners\<close>

datatype TcpBind = Bound u16 | BoundUnnamed | NotBound

datatype StartError =
    BadConfig FileError
  | DhPrivateInvalid
  | DhPrivateLength
  | DhPublicInvalid
  | DhPublicLength
  | ListenRejected ListenFailure
  | UdpNotBound BindError
  | NoNetworks
  | TunMultiNetwork nat
  | NoRelayHost RelayHostError
  | TcpNotBound SocketAddr
  | TcpUnnamed SocketAddr
  | BadTunAddress string string
  | TunDevice

text \<open>One after the other; a wildcard address that cannot be bound is skipped.\<close>

fun bind_tcp :: "(nat \<Rightarrow> SocketAddr \<Rightarrow> TcpBind) \<Rightarrow> nat \<Rightarrow> SocketAddr list \<Rightarrow> u16 list \<Rightarrow> StartError + u16 list" where
  "bind_tcp os k [] ports = Inr ports"
| "bind_tcp os k (addr # rest) ports =
     (case os k addr of
        Bound port \<Rightarrow> bind_tcp os (k + 1) rest (ports @ [port])
      | BoundUnnamed \<Rightarrow> Inl (TcpUnnamed addr)
      | NotBound \<Rightarrow>
          if is_unspecified addr then bind_tcp os (k + 1) rest ports else Inl (TcpNotBound addr))"

section \<open>Starting\<close>

text \<open>What the start asks of its surroundings.\<close>

record StartEnv =
  sx_ext :: Ext
  sx_hmac :: hmac
  sx_sha256 :: "bytes \<Rightarrow> bytes"
  sx_nonce :: bytes
  sx_boot :: "nat \<Rightarrow> bytes"
  sx_udp_bind :: "nat \<Rightarrow> SocketAddr \<Rightarrow> SocketAddr option"
  sx_tcp_bind :: "nat \<Rightarrow> SocketAddr \<Rightarrow> TcpBind"
  sx_lookup :: "string \<Rightarrow> SocketAddr list option"
  sx_memberships :: "MembershipInfo list option list"
  sx_configs :: "(string \<Rightarrow> ConfigResponse option) list"
  sx_peers :: "string \<Rightarrow> PeerInfo list option"
  sx_now :: millis
  sx_local_addrs :: "string list"
  sx_node_version :: string
  sx_heartbeat :: "HeartbeatRequest \<Rightarrow> HeartbeatResponse option"

record StartedNode =
  sn_engine :: Engine
  sn_udp :: UdpMesh
  sn_relay :: RelayTcpClient
  sn_tcp_ports :: "u16 list"
  sn_socks :: "string option"
  sn_forwards :: "ForwardRule list"

text \<open>
  How a start ends: it may still be trying when the given answers are used up, the process may
  abort in a panic, and else it fails or yields a node.
\<close>

datatype 'a Start = Retrying | Panicked | Failed StartError | Started 'a

definition hex32 :: "(string \<Rightarrow> bytes option) \<Rightarrow> StartError \<Rightarrow> StartError \<Rightarrow> string \<Rightarrow> StartError + bytes" where
  "hex32 hexdec invalid wrong_length s =
     (case hexdec s of
        None \<Rightarrow> Inl invalid
      | Some b \<Rightarrow> if length b = 32 then Inr b else Inl wrong_length)"

text \<open>heartbeat\_tick\<close>

definition heartbeat_now :: "StartEnv \<Rightarrow> Engine \<Rightarrow> Engine" where
  "heartbeat_now env s =
     (let (req, s1) = heartbeat_request (sx_now env) (sx_local_addrs env) (sx_node_version env) s
      in heartbeat_answer (sx_now env) (sx_heartbeat env req) s1)"

text \<open>
  The listeners a proxy node then opens: SOCKS and the forwarders. The heartbeat before reads
  none of the fields of the engine that are set after it.
\<close>

definition finish_start ::
  "StartEnv \<Rightarrow> DeviceSettings \<Rightarrow> UdpMesh \<Rightarrow> RelayTcpClient \<Rightarrow> u16 list \<Rightarrow> Engine \<Rightarrow> StartedNode" where
  "finish_start env settings udp relay tcp_ports s =
     (let s1 = heartbeat_now env (start_settings settings s);
          proxy = (effective_mode_of settings = Proxy)
      in \<lparr>sn_engine = s1, sn_udp = udp, sn_relay = relay, sn_tcp_ports = tcp_ports,
          sn_socks = (if proxy then en_runtime_socks s1 else None),
          sn_forwards = (if proxy then en_runtime_forwards s1 else [])\<rparr>)"

text \<open>From the configurations of the networks on.\<close>

definition start_on_networks ::
  "StartEnv \<Rightarrow> NodeConfig \<Rightarrow> DeviceSettings \<Rightarrow> EffectiveListen \<Rightarrow> UdpMesh \<Rightarrow> ConfigResponse list \<Rightarrow> Engine
     \<Rightarrow> StartedNode Start" where
  "start_on_networks env cfg settings listen udp configs s =
     (case configs of
        [] \<Rightarrow> Failed NoNetworks
      | first # _ \<Rightarrow>
          if effective_mode_of settings = Tun \<and> 1 < length configs
          then Failed (TunMultiNetwork (length configs))
          else
            (case resolve_relay_host (sx_lookup env) (nf_server cfg) of
               Inl e \<Rightarrow> Failed (NoRelayHost e)
             | Inr host \<Rightarrow>
                 (let device_id = id_device_id (nf_identity cfg);
                      key = relay_key_from_token (sx_sha256 env) (id_device_token (nf_identity cfg));
                      udp1 = send_register (sx_hmac env) (sx_nonce env)
                               (configure_relay (SocketAddrV4 host (cr_relay_udp_port first)) device_id key udp);
                      relay = client_configure (SocketAddrV4 host (cr_relay_tcp_port first))
                                (relay_tcp_client_new device_id key);
                      s1 = warn_overlapping_cidrs s
                  in case bind_tcp (sx_tcp_bind env) 0 (el_tcp listen) [] of
                       Inl e \<Rightarrow> Failed e
                     | Inr ports \<Rightarrow>
                         (case refresh_peers_for (sx_ext env) (sx_boot env) (sx_peers env) None
                                 (s1\<lparr>en_tcp_listen_port := (case ports of [] \<Rightarrow> 0 | p # _ \<Rightarrow> p)\<rparr>) of
                            None \<Rightarrow> Panicked
                          | Some s2 \<Rightarrow> Started (finish_start env settings udp1 relay ports s2)))))"

definition start_with_settings ::
  "StartEnv \<Rightarrow> NodeConfig \<Rightarrow> DeviceSettings \<Rightarrow> StartedNode Start" where
  "start_with_settings env cfg settings =
     (let identity = nf_identity cfg; hexdec = ex_hexdec (sx_ext env) in
      case config_validate cfg of Some e \<Rightarrow> Failed (BadConfig e) | None \<Rightarrow>
     (case hex32 hexdec DhPrivateInvalid DhPrivateLength (id_dh_private_key identity) of
        Inl e \<Rightarrow> Failed e | Inr dh_priv \<Rightarrow>
     (case hex32 hexdec DhPublicInvalid DhPublicLength (id_dh_public_key identity) of
        Inl e \<Rightarrow> Failed e | Inr dh_pub \<Rightarrow>
     (case effective_listen_addrs settings of
        Inl e \<Rightarrow> Failed (ListenRejected e) | Inr listen \<Rightarrow>
     (case mesh_bind (sx_udp_bind env) (el_udp listen) of
        Inl e \<Rightarrow> Failed (UdpNotBound e) | Inr udp \<Rightarrow>
        (let s0 = engine_new (id_device_id identity) dh_priv dh_pub (effective_mode_of settings)
                    (el_raw listen) (um_local_port udp)
         in case fetch_memberships_or_fail (sx_memberships env) 0 s0 of
              (None, _) \<Rightarrow> Retrying
            | (Some roster, s1) \<Rightarrow>
                (case fetch_configs_for_roster roster (sx_configs env) 0 s1 of
                   (None, _) \<Rightarrow> Retrying
                 | (Some configs, s2) \<Rightarrow> start_on_networks env cfg settings listen udp configs s2)))))))"

section \<open>The worker's start\<close>

text \<open>bootstrap\_settings: the first answer that is one.\<close>

fun bootstrap_settings :: "DeviceSettings option list \<Rightarrow> DeviceSettings option" where
  "bootstrap_settings [] = None"
| "bootstrap_settings (answer # later) =
     (case answer of Some s \<Rightarrow> Some s | None \<Rightarrow> bootstrap_settings later)"

text \<open>
  The address of the TUN device. An empty list is asked for again, like a failed request; None
  when the given answers are not enough.
\<close>

fun tun_first_network :: "MembershipInfo list option list \<Rightarrow> (StartError + u32 \<times> Cidr) option" where
  "tun_first_network [] = None"
| "tun_first_network (answer # later) =
     (case answer of
        Some (first # _) \<Rightarrow>
          Some (case (parse_ipv4 (mi_ip first), cidr_parse (mi_cidr first)) of
                  (Some ip, Inr cidr) \<Rightarrow> Inr (ip, cidr)
                | _ \<Rightarrow> Inl (BadTunAddress (mi_network_name first) (mi_ip first)))
      | _ \<Rightarrow> tun_first_network later)"

text \<open>
  start\_engine: the settings, the TUN device where the mode asks for one, and the engine. The
  parameter says whether the device of that address, network and MTU could be made.
\<close>

definition start_engine ::
  "DeviceSettings option list \<Rightarrow> MembershipInfo list option list \<Rightarrow> (u32 \<Rightarrow> Cidr \<Rightarrow> u32 \<Rightarrow> bool) \<Rightarrow> StartEnv
     \<Rightarrow> NodeConfig \<Rightarrow> StartedNode Start" where
  "start_engine settings_answers tun_answers tun_device env cfg =
     (case bootstrap_settings settings_answers of
        None \<Rightarrow> Retrying
      | Some settings \<Rightarrow>
          if effective_mode_of settings = Tun then
            (case tun_first_network tun_answers of
               None \<Rightarrow> Retrying
             | Some (Inl e) \<Rightarrow> Failed e
             | Some (Inr (ip, cidr)) \<Rightarrow>
                 if tun_device ip cidr (case ds_mtu settings of Some m \<Rightarrow> m | None \<Rightarrow> DEFAULT_MTU)
                 then start_with_settings env cfg settings
                 else Failed TunDevice)
          else start_with_settings env cfg settings)"

end
