(* ===== verification/NodeMain.thy ===== *)
theory NodeMain
  imports NodeStart Control
begin

text \<open>
  The commands of the node: crates/skiff-node/src/main.rs, and the choice of its log file,
  crates/skiff-node/src/lib.rs. The control plane is a function from requests to answers, the
  certificate a server presents, the file system and the environment are arguments; what is
  printed is left out. Paths are those of Linux.
\<close>

section \<open>Paths and logs\<close>

text \<open>Path::join\<close>

definition path_join :: "string \<Rightarrow> string \<Rightarrow> string" where
  "path_join dir name =
     (if starts_with ''/'' name \<or> dir = [] then name
      else if last dir = CHR ''/'' then dir @ name else dir @ ''/'' @ name)"

definition default_data_dir :: "(string \<Rightarrow> string option) \<Rightarrow> string" where
  "default_data_dir env =
     path_join (case env ''HOME'' of Some h \<Rightarrow> h | None \<Rightarrow> ''.'') ''.config/starskiff''"

definition config_data_dir :: "(string \<Rightarrow> string option) \<Rightarrow> NodeConfig \<Rightarrow> string" where
  "config_data_dir env c = (if nf_data_dir c = [] then default_data_dir env else nf_data_dir c)"

datatype LogTarget = FileAndConsole string | StampedConsole

definition make_logger :: "(string \<Rightarrow> string option) \<Rightarrow> string option \<Rightarrow> NodeConfig \<Rightarrow> bool \<Rightarrow> LogTarget" where
  "make_logger env explicit c as_service =
     (case explicit of
        Some p \<Rightarrow> FileAndConsole p
      | None \<Rightarrow>
          (case nf_log_file c of
             Some p \<Rightarrow> FileAndConsole p
           | None \<Rightarrow> if as_service then FileAndConsole (path_join (config_data_dir env c) ''service.log'')
                     else StampedConsole))"

text \<open>as\_str with the filter for the empty text.\<close>

definition nonempty_str :: "Json \<Rightarrow> string option" where
  "nonempty_str j = (case as_string j of Some s \<Rightarrow> if s \<noteq> [] then Some s else None | None \<Rightarrow> None)"

definition make_logger_from_config_file ::
  "(string \<Rightarrow> string option) \<Rightarrow> (string \<Rightarrow> Json option) \<Rightarrow> string option \<Rightarrow> string \<Rightarrow> bool \<Rightarrow> files \<Rightarrow> LogTarget" where
  "make_logger_from_config_file env from_str explicit path as_service fs =
     (case explicit of
        Some p \<Rightarrow> FileAndConsole p
      | None \<Rightarrow>
          (let txt = (case fs path of Some t \<Rightarrow> t | None \<Rightarrow> []);
               v = (case from_str txt of Some j \<Rightarrow> j | None \<Rightarrow> JNull)
           in case nonempty_str (json_at ''logFile'' v) of
                Some p \<Rightarrow> FileAndConsole p
              | None \<Rightarrow>
                  if as_service
                  then FileAndConsole (path_join (case nonempty_str (json_at ''dataDir'' v) of
                                                    Some d \<Rightarrow> d | None \<Rightarrow> default_data_dir env) ''service.log'')
                  else StampedConsole))"

section \<open>Enrolling\<close>

text \<open>The libraries the commands use.\<close>

record Libs =
  lb_from_str :: "string \<Rightarrow> Json option"
  lb_to_text :: "Json \<Rightarrow> string"
  lb_sdec :: "string \<Rightarrow> SecretError + string"
  lb_senc :: "string \<Rightarrow> SecretError + string"
  lb_hexenc :: "bytes \<Rightarrow> string"
  lb_fp :: "bytes \<Rightarrow> string"
  lb_ca_ok :: "bytes \<Rightarrow> bool"

text \<open>
  A TLS connection: rustls calls the verifier of client\_config with the certificate the server
  presents and fails the request when it refuses; the two cells of the trust state are
  shared with the client.
\<close>

definition connect :: "Libs \<Rightarrow> bytes \<Rightarrow> ControlClient \<Rightarrow> bool \<times> ControlClient" where
  "connect lb cert c =
     (case cc_trust c of
        None \<Rightarrow> (True, c)
      | Some t \<Rightarrow>
          (let (ok, t') = verify_server_cert (lb_fp lb) (lb_ca_ok lb) t cert
           in (ok, c\<lparr>cc_trust := Some t', cc_server_cert_pin := ts_pin t',
                     cc_tofu_fingerprint := ts_tofu_fingerprint t'\<rparr>)))"

record EnrollArgs =
  ga_config :: string
  ga_server :: string
  ga_token :: string
  ga_name :: "string option"
  ga_ip :: "string option"

datatype EnrollEnd =
    AlreadyEnrolled u64
  | ConfigUnusable FileError
  | EnrollRefused ControlError
  | NotSaved FileError
  | EnrolledAs NodeConfig

definition hostname :: "(string \<Rightarrow> string option) \<Rightarrow> string" where
  "hostname env =
     (case env ''COMPUTERNAME'' of
        Some h \<Rightarrow> h
      | None \<Rightarrow> (case env ''HOSTNAME'' of Some h \<Rightarrow> h | None \<Rightarrow> ''starskiff-node''))"

definition enroll_blocked :: "Libs \<Rightarrow> string \<Rightarrow> files \<Rightarrow> EnrollEnd option" where
  "enroll_blocked lb path fs =
     (case fs path of
        None \<Rightarrow> None
      | Some _ \<Rightarrow>
          (case config_load (lb_from_str lb) (lb_sdec lb) path fs of
             Inl e \<Rightarrow> Some (ConfigUnusable e)
           | Inr c \<Rightarrow> if id_device_id (nf_identity c) \<noteq> 0
                      then Some (AlreadyEnrolled (id_device_id (nf_identity c))) else None))"

definition enroll_request :: "Libs \<Rightarrow> (string \<Rightarrow> string option) \<Rightarrow> NodeKeys \<Rightarrow> EnrollArgs \<Rightarrow> EnrollRequest" where
  "enroll_request lb env keys a =
     \<lparr>eq_token = ga_token a, eq_name = (case ga_name a of Some n \<Rightarrow> n | None \<Rightarrow> hostname env),
      eq_sign_pubkey = sign_public_hex (lb_hexenc lb) keys, eq_dh_pubkey = dh_public_hex (lb_hexenc lb) keys,
      eq_requested_ip = ga_ip a, eq_proto_version = Some PROTOCOL_VERSION\<rparr>"

definition enrolled_config ::
  "Libs \<Rightarrow> (string \<Rightarrow> string option) \<Rightarrow> NodeKeys \<Rightarrow> EnrollArgs \<Rightarrow> ControlClient \<Rightarrow> EnrollResponse \<Rightarrow> NodeConfig" where
  "enrolled_config lb env keys a control answer =
     (let (_, token_fingerprint) = split_token (ga_token a);
          pin = (case token_fingerprint of
                   Some fp \<Rightarrow> Some (map ascii_lower fp)
                 | None \<Rightarrow> cc_tofu_fingerprint control)
      in \<lparr>nf_server = trim_end_slash (ga_server a), nf_data_dir = [], nf_log_file = None,
          nf_identity =
            \<lparr>id_device_id = es_device_id answer,
             id_name = (case ga_name a of Some n \<Rightarrow> n | None \<Rightarrow> hostname env),
             id_device_token = es_device_token answer,
             id_sign_public_key = sign_public_hex (lb_hexenc lb) keys,
             id_sign_private_key = lb_hexenc lb (nk_sign_secret keys),
             id_dh_public_key = dh_public_hex (lb_hexenc lb) keys,
             id_dh_private_key = lb_hexenc lb (nk_dh_secret keys),
             id_server_cert_pin = pin\<rparr>\<rparr>)"

text \<open>
  cmd\_enroll: the requests that went out, how it ended and the files. \<open>http\<close> answers the
  requests on a connection that was accepted.
\<close>

definition cmd_enroll ::
  "Libs \<Rightarrow> (string \<Rightarrow> string option) \<Rightarrow> SaveEnv \<Rightarrow> NodeKeys \<Rightarrow> bytes
     \<Rightarrow> (HttpRequest \<Rightarrow> EnrollResponse HttpResult) \<Rightarrow> EnrollArgs \<Rightarrow> files
     \<Rightarrow> HttpRequest list \<times> EnrollEnd \<times> files" where
  "cmd_enroll lb env senv keys cert http a fs =
     (case enroll_blocked lb (ga_config a) fs of
        Some e \<Rightarrow> ([], e, fs)
      | None \<Rightarrow>
          (let req = enroll_request lb env keys a;
               (ok, control) = connect lb cert (control_new (ga_server a) ''pending'' None);
               q = (http_post control ''/api/enroll'' (EnrollJson req))\<lparr>hq_bearer := None\<rparr>;
               sent = (if ok then [q] else [])
           in case client_enroll (if ok then http else (\<lambda>_. None)) req control of
                Inl e \<Rightarrow> (sent, EnrollRefused e, fs)
              | Inr answer \<Rightarrow>
                  (let cfg = enrolled_config lb env keys a control answer in
                   case config_save (lb_to_text lb) (lb_senc lb) senv (ga_config a) cfg fs of
                     Inl e \<Rightarrow> (sent, NotSaved e, fs)
                   | Inr fs' \<Rightarrow> (sent, EnrolledAs cfg, fs'))))"

section \<open>Joining and leaving\<close>

datatype CommandEnd = Done | NotEnrolledYet | ConfigFailed FileError | ControlFailed ControlError

text \<open>The client of an enrolled node.\<close>

definition control_of_config :: "NodeConfig \<Rightarrow> ControlClient" where
  "control_of_config c =
     control_new (nf_server c) (id_device_token (nf_identity c)) (id_server_cert_pin (nf_identity c))"

definition with_identity ::
  "Libs \<Rightarrow> string \<Rightarrow> files \<Rightarrow> (ControlClient \<Rightarrow> CommandEnd) \<Rightarrow> CommandEnd" where
  "with_identity lb path fs act =
     (case config_load (lb_from_str lb) (lb_sdec lb) path fs of
        Inl e \<Rightarrow> ConfigFailed e
      | Inr c \<Rightarrow> if id_device_id (nf_identity c) = 0 then NotEnrolledYet else act (control_of_config c))"

definition cmd_join ::
  "Libs \<Rightarrow> (HttpRequest \<Rightarrow> JoinResponse HttpResult) \<Rightarrow> string \<Rightarrow> string \<Rightarrow> string option \<Rightarrow> files \<Rightarrow> CommandEnd" where
  "cmd_join lb http path token ip fs = with_identity lb path fs
     (\<lambda>control. case client_join http token ip control of Inl e \<Rightarrow> ControlFailed e | Inr _ \<Rightarrow> Done)"

definition cmd_leave ::
  "Libs \<Rightarrow> (HttpRequest \<Rightarrow> unit HttpResult) \<Rightarrow> string \<Rightarrow> string \<Rightarrow> files \<Rightarrow> CommandEnd" where
  "cmd_leave lb http path network fs = with_identity lb path fs
     (\<lambda>control. case client_leave http network control of Inl e \<Rightarrow> ControlFailed e | Inr _ \<Rightarrow> Done)"

section \<open>The example file and the stop flag\<close>

definition text_lines :: "string list \<Rightarrow> string" where
  "text_lines ls = concat (map (\<lambda>l. l @ [CHR 0x0A]) ls)"

definition init_sample :: string where
  \<open>init_sample = text_lines
     [''{'', ''  "server": "http://your-server:24930",'', ''  "dataDir": "",'', ''  "logFile": null,'',
      ''  "identity": null'', ''}'']\<close>

definition cmd_init_config :: "string \<Rightarrow> bool \<Rightarrow> files \<Rightarrow> files option" where
  "cmd_init_config out force fs =
     (if fs out \<noteq> None \<and> \<not> force then None else Some (fs(out \<mapsto> init_sample)))"

definition cmd_down :: "(string \<Rightarrow> string option) \<Rightarrow> string option \<Rightarrow> files \<Rightarrow> files" where
  "cmd_down env data_dir fs =
     (let dir = (case data_dir of Some d \<Rightarrow> d | None \<Rightarrow> default_data_dir env)
      in fs(path_join dir ''stop.flag'' \<mapsto> []))"

section \<open>The worker\<close>

text \<open>
  \<open>begin_engine\<close> is start\_engine with, for a node that started, its exit code when it stops; \<open>err_text\<close> the
  text of an error. On a failed start the settings are fetched once more and their revision reported.
\<close>

definition worker_report ::
  "(HttpRequest \<Rightarrow> DeviceSettings HttpResult) \<Rightarrow> ControlClient \<Rightarrow> string \<Rightarrow> HttpRequest list" where
  "worker_report http control error =
     (case get_settings http control of
        Some s \<Rightarrow> [settings_fail_request (ds_revision s) error control]
      | None \<Rightarrow> [])"

datatype WorkerEnd = StillStarting | Aborted | Exit int "HttpRequest list"

definition cmd_worker ::
  "Libs \<Rightarrow> (HttpRequest \<Rightarrow> DeviceSettings HttpResult) \<Rightarrow> (StartError \<Rightarrow> string) \<Rightarrow> (NodeConfig \<Rightarrow> int Start)
     \<Rightarrow> string \<Rightarrow> files \<Rightarrow> WorkerEnd" where
  "cmd_worker lb http err_text begin_engine path fs =
     (case config_load (lb_from_str lb) (lb_sdec lb) path fs of
        Inl _ \<Rightarrow> Exit EXIT_ERROR []
      | Inr c \<Rightarrow>
          (case begin_engine c of
             Started code \<Rightarrow> Exit code []
           | Failed e \<Rightarrow> Exit EXIT_ERROR (worker_report http (control_of_config c) (err_text e))
           | Retrying \<Rightarrow> StillStarting
           | Panicked \<Rightarrow> Aborted))"

text \<open>
  The whole worker: its engine runs from the start to the exit code of its end.
\<close>

definition worker_run ::
  "DeviceSettings option list \<Rightarrow> MembershipInfo list option list \<Rightarrow> (u32 \<Rightarrow> Cidr \<Rightarrow> u32 \<Rightarrow> bool) \<Rightarrow> StartEnv
     \<Rightarrow> (StartedNode \<Rightarrow> Engine) \<Rightarrow> NodeConfig \<Rightarrow> int Start" where
  "worker_run settings_answers tun_answers tun_device env live c =
     (case start_engine settings_answers tun_answers tun_device env c of
        Started n \<Rightarrow> Started (exit_code (live n))
      | Failed e \<Rightarrow> Failed e
      | Retrying \<Rightarrow> Retrying
      | Panicked \<Rightarrow> Panicked)"

end
