(* ===== verification/NodeStartProps.thy ===== *)
theory NodeStartProps
  imports NodeStart EngineControlProps
begin

text \<open>
  What a start establishes: the settings it was made with are the ones in effect, the peers are those
  listed for the networks of the node, the specific addresses are bound; which later
  settings make the node restart; what is acknowledged without being in effect.
\<close>

section \<open>What the steps of a start leave alone\<close>

text \<open>What a restart-class setting is compared with, and the roster.\<close>

definition in_force :: "Engine \<Rightarrow> u32 \<times> string option \<times> ForwardRule list \<times> ClientMode \<times> string list \<times> NetId set" where
  "in_force s = (en_runtime_mtu s, en_runtime_socks s, en_runtime_forwards s, en_runtime_mode s,
             en_runtime_listen s, en_roster s)"

named_theorems keeps \<open>operations that leave the settings in effect alone\<close>

lemma kept_emit [keeps]: "in_force (emit e s) = in_force s" by (simp add: in_force_def emit_def)

lemma kept_upd_sess [keeps]: "in_force (upd_sess h f s) = in_force s" by (simp add: in_force_def upd_sess_def)

lemma kept_updates [keeps]:
  "in_force (s\<lparr>en_peers := ps\<rparr>) = in_force s" "in_force (s\<lparr>en_networks := ns\<rparr>) = in_force s"
  "in_force (s\<lparr>en_sessions := ss, en_next_session := h, en_peers := ps\<rparr>) = in_force s"
  "in_force (s\<lparr>en_networks := ns, en_name_to_id := nm\<rparr>) = in_force s"
  "in_force (s\<lparr>en_sessions := ss, en_next_session := h\<rparr>) = in_force s"
  "in_force (s\<lparr>en_tcp_listen_port := p\<rparr>) = in_force s"
  "in_force (s\<lparr>en_hb_rate_baseline := b\<rparr>) = in_force s"
  by (simp_all add: in_force_def)

lemma kept_fold [keeps]: "(\<And>x s. in_force (f x s) = in_force s) \<Longrightarrow> in_force (fold f xs s) = in_force s"
  by (induction xs arbitrary: s) simp_all

lemma kept_register [keeps]: "in_force (register_config c s) = in_force s"
  by (simp add: register_config_def Let_def keeps)

lemma kept_fetch_round: "in_force (snd (fetch_round g ms s)) = in_force s"
  by (induction ms arbitrary: s) (simp_all add: keeps case_prod_beta Let_def split: option.split)

lemma fetch_round_length: "fst (fetch_round g ms s) = Some cs \<Longrightarrow> length cs = length ms"
  by (induction ms arbitrary: s cs) (auto simp: case_prod_beta Let_def split: option.splits)

lemma fetch_configs_result:
  assumes "fetch_configs_for_roster roster answers k s = (Some cs, t)"
  shows "length cs = length roster \<and> en_roster t = set (map mi_network_id roster)
    \<and> in_force t = in_force (s\<lparr>en_roster := en_roster t\<rparr>)"
  using assms
proof (induction answers arbitrary: k s)
  case (Cons g later)
  obtain r s1 where r: "fetch_round g roster s = (r, s1)" by fastforce
  have k: "in_force s1 = in_force s" using kept_fetch_round [of g roster s] r by simp
  show ?case
  proof (cases r)
    case None
    have "fetch_configs_for_roster roster later (k + 1) (emit (Log (ControlUnreachable (k + 1))) s1) = (Some cs, t)"
      using Cons.prems r None by simp
    from Cons.IH [OF this] k show ?thesis by (simp add: in_force_def emit_def)
  next
    case (Some out)
    then show ?thesis using Cons.prems r k fetch_round_length [of g roster s out] by (auto simp: in_force_def)
  qed
qed simp

lemma memberships_result:
  assumes "fetch_memberships_or_fail answers k s = (Some roster, t)"
  shows "roster \<noteq> [] \<and> Some roster \<in> set answers \<and> in_force t = in_force s"
  using assms
proof (induction answers arbitrary: k s)
  case (Cons a later)
  then show ?case by (cases a) (auto simp: keeps split: if_splits)
qed simp

lemma kept_warn [keeps]: "in_force (warn_overlapping_cidrs s) = in_force s"
proof -
  have "in_force ((case p of (a, b) \<Rightarrow>
      if cidr_contains (snd a) (ci_network (snd b)) \<or> cidr_contains (snd b) (ci_network (snd a))
      then emit (Log (OverlappingCidrs a b)) else (\<lambda>s. s)) s) = in_force s" for p s
    by (cases p) (simp add: keeps)
  then show ?thesis unfolding warn_overlapping_cidrs_def Let_def by (rule kept_fold)
qed

lemma kept_drop_peer [keeps]: "in_force (drop_peer n d s) = in_force s"
  by (simp add: drop_peer_def keeps split: option.split)

lemma kept_peer_left [keeps]: "in_force (peer_left n name d s) = in_force s"
  by (simp add: peer_left_def keeps split: option.split)

lemma kept_leave_stale [keeps]: "in_force (leave_stale hexenc i s) = in_force s"
  by (simp add: leave_stale_def Let_def keeps)

lemma kept_join: "join_peer ext boot n name info vip pub s = Some t \<Longrightarrow> in_force t = in_force s"
  by (auto simp: join_peer_def Let_def keeps split: sum.splits)

lemma kept_infos: "refresh_infos ext boot n name infos (m, seen, s) = Some (m', seen', t) \<Longrightarrow> in_force t = in_force s"
proof (induction infos arbitrary: m seen s)
  case (Cons info rest)
  show ?case
  proof (cases "usable ext info")
    case False
    show ?thesis using Cons.IH Cons.prems False unfolding refresh_infos_step by simp
  next
    case True
    from Cons.prems [unfolded refresh_infos_step] True obtain s1 where
      s1: "(case tget (en_peers s) (n, pi_device_id info) of
               Some h \<Rightarrow> Some (upd_sess h (refresh_session info (vip_of info)) s)
             | None \<Rightarrow> join_peer ext boot n name info (vip_of info) (dh_of ext info) s) = Some s1"
      and r: "refresh_infos ext boot n name rest
              (tput (vip_of info) (pi_device_id info) m, insert (pi_device_id info) seen, s1) = Some (m', seen', t)"
      by (auto simp del: refresh_infos.simps split: bind_splits)
    have "in_force s1 = in_force s" using s1 kept_join by (auto simp: keeps split: option.splits)
    then show ?thesis using Cons.IH [OF r] by simp
  qed
qed simp

lemma kept_refresh_one: "refresh_one_network ext boot n name answer s = Some t \<Longrightarrow> in_force t = in_force s"
  by (auto simp: refresh_one_network_def Let_def keeps dest!: kept_infos split: option.splits bind_splits)

lemma kept_refresh_networks: "refresh_networks ext boot gp names s = Some t \<Longrightarrow> in_force t = in_force s"
proof (induction names arbitrary: s)
  case (Cons a names)
  obtain i name where a: "a = (i, name)" by fastforce
  with Cons.prems obtain s1 where s1: "refresh_one_network ext boot i name (gp name) s = Some s1"
    and r: "refresh_networks ext boot gp names s1 = Some t" by (auto split: bind_splits)
  show ?case using Cons.IH [OF r] kept_refresh_one [OF s1] by simp
qed simp

lemma kept_refresh: "refresh_peers_for ext boot gp net s = Some t \<Longrightarrow> in_force t = in_force s"
  by (auto simp: refresh_peers_for_def keeps dest!: kept_refresh_networks split: bind_splits if_splits)

section \<open>The peers of a node that starts\<close>

text \<open>An engine without peers, as it is until the first refresh.\<close>

definition fresh :: "Engine \<Rightarrow> bool" where
  "fresh s = (en_peers s = [] \<and> engine_inv s)"

lemma fresh_intro:
  "fresh s \<Longrightarrow> en_peers t = [] \<Longrightarrow> tinv (en_networks t) \<Longrightarrow> (\<forall>e\<in>set (en_out t). no_fallback e) \<Longrightarrow> fresh t"
  by (simp add: fresh_def engine_inv_def)

lemma fresh_emit: "fresh s \<Longrightarrow> no_fallback e \<Longrightarrow> fresh (emit e s)"
  by (auto simp: fresh_def emit_def engine_inv_def)

lemma fresh_updates:
  "fresh s \<Longrightarrow> fresh (register_config c s)" "fresh s \<Longrightarrow> fresh (s\<lparr>en_roster := r\<rparr>)"
  "fresh s \<Longrightarrow> fresh (s\<lparr>en_tcp_listen_port := q\<rparr>)"
  by (auto simp: fresh_def engine_inv_def register_config_def Let_def)

lemma fresh_round: "fresh s \<Longrightarrow> fresh (snd (fetch_round g ms s))"
  by (induction ms arbitrary: s) (simp_all add: fresh_updates case_prod_beta Let_def split: option.split)

lemma fresh_configs: "fetch_configs_for_roster roster answers k s = (Some cs, t) \<Longrightarrow> fresh s \<Longrightarrow> fresh t"
proof (induction answers arbitrary: k s)
  case (Cons g later)
  obtain r s1 where r: "fetch_round g roster s = (r, s1)" by fastforce
  have "fresh s1" using fresh_round [OF Cons.prems(2), of g roster] r by simp
  then show ?case
    using Cons.IH [of "k + 1" "emit (Log (ControlUnreachable (k + 1))) s1"] Cons.prems(1) r
    by (cases r) (auto simp: fresh_emit fresh_updates)
qed simp

lemma fresh_memberships: "fetch_memberships_or_fail answers k s = (Some roster, t) \<Longrightarrow> fresh s \<Longrightarrow> fresh t"
proof (induction answers arbitrary: k s)
  case (Cons a later)
  then show ?case by (cases a) (auto simp: fresh_emit split: if_splits)
qed simp

lemma fresh_fold: "(\<And>x s. fresh s \<Longrightarrow> fresh (f x s)) \<Longrightarrow> fresh s \<Longrightarrow> fresh (fold f xs s)"
  by (induction xs arbitrary: s) simp_all

lemma fresh_warn: "fresh s \<Longrightarrow> fresh (warn_overlapping_cidrs s)"
  unfolding warn_overlapping_cidrs_def Let_def
  by (rule fresh_fold) (auto simp: fresh_emit split: prod.split)

text \<open>The list the server gave for a network has a usable entry of the device.\<close>

definition listed :: "Ext \<Rightarrow> (string \<Rightarrow> PeerInfo list option) \<Rightarrow> string \<Rightarrow> u64 \<Rightarrow> bool" where
  "listed ext gp name d = (\<exists>info\<in>set (opt_default [] (gp name)). usable ext info \<and> pi_device_id info = d)"

lemma refresh_networks_peers:
  assumes "refresh_networks ext boot gp names s = Some t" and "engine_inv s" and "distinct (map fst names)"
    and "\<forall>a\<in>set names. \<forall>d. tget (en_peers s) (fst a, d) = None"
  shows "engine_inv t \<and> (\<forall>k. map_option nc_name (tget (en_networks t) k) = map_option nc_name (tget (en_networks s) k))
    \<and> (\<forall>i d. tget (en_peers t) (i, d) \<noteq> None
         \<longleftrightarrow> tget (en_peers s) (i, d) \<noteq> None \<or> (\<exists>name. (i, name) \<in> set names \<and> listed ext gp name d))"
  using assms
proof (induction names arbitrary: s)
  case (Cons a names)
  obtain i name where a: "a = (i, name)" by fastforce
  with Cons.prems(1) obtain s1 where s1: "refresh_one_network ext boot i name (gp name) s = Some s1"
    and r: "refresh_networks ext boot gp names s1 = Some t" by (auto split: bind_splits)
  have none: "tget (en_peers s) (i, d) = None" for d using Cons.prems(4) a by simp
  have one: "(\<forall>d. tget (en_peers s1) (i, d) \<noteq> None \<longleftrightarrow> listed ext gp name d)
      \<and> (\<forall>k d. k \<noteq> i \<longrightarrow> tget (en_peers s1) (k, d) = tget (en_peers s) (k, d))
      \<and> (\<forall>k. map_option nc_name (tget (en_networks s1) k) = map_option nc_name (tget (en_networks s) k))"
  proof (cases "gp name")
    case None
    then show ?thesis using s1 none by (simp add: refresh_one_network_def listed_def opt_default_def)
  next
    case (Some infos)
    note S = refresh_one_spec [OF Cons.prems(2) s1 [unfolded Some]]
    show ?thesis using S(1,3,5) Some by (auto simp: listed_def opt_default_def)
  qed
  have d: "i \<notin> fst ` set names" "distinct (map fst names)" using Cons.prems(3) a by auto
  then have "\<forall>b\<in>set names. \<forall>d. tget (en_peers s1) (fst b, d) = None"
    using one Cons.prems(4) by (metis image_eqI list.set_intros(2))
  note IH = Cons.IH [OF r refresh_one_network_inv [OF Cons.prems(2) s1] d(2) this]
  have "tget (en_peers t) (k, d) \<noteq> None \<longleftrightarrow> tget (en_peers s) (k, d) \<noteq> None
      \<or> (\<exists>name. (k, name) \<in> set (a # names) \<and> listed ext gp name d)" for k d
    using IH one none \<open>i \<notin> fst ` set names\<close> a by (cases "k = i") (force, auto)
  then show ?case using IH one by simp
qed simp

lemma drop_peers_spec:
  "tget (en_peers (fold (drop_peer n) ds s)) k = (if fst k = n \<and> snd k \<in> set ds then None else tget (en_peers s) k)
   \<and> en_networks (fold (drop_peer n) ds s) = en_networks s"
proof (induction ds arbitrary: s)
  case (Cons d ds)
  have "tget (en_peers (drop_peer n d s)) k = (if k = (n, d) then None else tget (en_peers s) k)"
    "en_networks (drop_peer n d s) = en_networks s"
    by (auto simp: drop_peer_def table_simps upd_sess_def emit_def split: option.split)
  then show ?case using Cons.IH [of "drop_peer n d s"] by (cases k) auto
qed simp

lemma leave_stale_spec:
  "tget (en_peers (leave_stale hexenc i s)) (k, d) = (if k = i then None else tget (en_peers s) (k, d))"
  "en_networks (leave_stale hexenc i s) = tdel i (en_networks s)"
proof -
  let ?s = "s\<lparr>en_networks := tdel i (en_networks s)\<rparr>"
  let ?v = "[d. ((n, d), _) \<leftarrow> en_peers ?s, n = i]"
  note D = drop_peers_spec [of i ?v ?s]
  have "tget (en_peers s) (i, d) = None" if "d \<notin> set ?v"
  proof (rule ccontr)
    assume "tget (en_peers s) (i, d) \<noteq> None"
    then obtain h where "((i, d), h) \<in> set (en_peers s)" by (auto dest: map_of_SomeD)
    then show False using that by auto
  qed
  then show "tget (en_peers (leave_stale hexenc i s)) (k, d) = (if k = i then None else tget (en_peers s) (k, d))"
    using D [of "(k, d)"] by (auto simp: leave_stale_def Let_def emit_def)
  show "en_networks (leave_stale hexenc i s) = tdel i (en_networks s)"
    using D by (simp add: leave_stale_def Let_def emit_def)
qed

lemma leave_stale_all:
  "tget (en_peers (fold (leave_stale hexenc) l s)) (k, d) = (if k \<in> set l then None else tget (en_peers s) (k, d))"
  "tget (en_networks (fold (leave_stale hexenc) l s)) k = (if k \<in> set l then None else tget (en_networks s) k)"
  by (induction l arbitrary: s) (auto simp: leave_stale_spec table_simps)

text \<open>
  The peers of the engine are the usable entries of the lists that the server gave for its networks; a
  network without an answer has none.
\<close>

definition peers_as_listed :: "Ext \<Rightarrow> (string \<Rightarrow> PeerInfo list option) \<Rightarrow> Engine \<Rightarrow> bool" where
  "peers_as_listed ext gp s =
     (\<forall>i d. tget (en_peers s) (i, d) \<noteq> None
        \<longleftrightarrow> (\<exists>ctx. tget (en_networks s) i = Some ctx \<and> listed ext gp (nc_name ctx) d))"

lemma first_refresh:
  assumes "refresh_peers_for ext boot gp None s = Some t" and "fresh s"
  shows "peers_as_listed ext gp t \<and> (\<forall>i. tget (en_networks t) i \<noteq> None \<longrightarrow> i \<in> en_roster t)"
proof -
  let ?names = "[(i, nc_name c). (i, c) \<leftarrow> en_networks s, (None :: NetId option) = None \<or> None = Some i]"
  obtain s1 where r: "refresh_networks ext boot gp ?names s = Some s1"
    and t: "t = fold (leave_stale (ex_hexenc ext)) [i. (i, _) \<leftarrow> en_networks s1, i \<notin> en_roster s1] s1"
    using assms(1) by (auto simp: refresh_peers_for_def split: bind_splits)
  have i: "engine_inv s" "en_peers s = []" "tinv (en_networks s)" using assms(2) by (simp_all add: fresh_def engine_inv_def)
  have n: "?names = map (\<lambda>(i, c). (i, nc_name c)) (en_networks s)"
  proof -
    have "concat (map (\<lambda>(i, c). [(i, nc_name c)]) l) = map (\<lambda>(i, c). (i, nc_name c)) l" for l :: "(NetId \<times> NetworkCtx) list"
      by (induction l) auto
    then show ?thesis by simp
  qed
  have d: "distinct (map fst ?names)"
    using i(3) unfolding n by (simp add: tinv_def comp_def case_prod_beta)
  have names: "(k, name) \<in> set ?names \<longleftrightarrow> map_option nc_name (tget (en_networks s) k) = Some name" for k name
  proof -
    have "(k, name) \<in> set ?names \<longleftrightarrow> (\<exists>c. (k, c) \<in> set (en_networks s) \<and> name = nc_name c)"
      unfolding n by force
    also have "\<dots> \<longleftrightarrow> (\<exists>c. tget (en_networks s) k = Some c \<and> name = nc_name c)"
      by (simp only: tget_in_set [OF i(3)])
    finally show ?thesis by auto
  qed
  note R = refresh_networks_peers [OF r i(1) d]
  have s1: "tget (en_peers s1) (k, dv) \<noteq> None
      \<longleftrightarrow> (\<exists>ctx. tget (en_networks s1) k = Some ctx \<and> listed ext gp (nc_name ctx) dv)" for k dv
  proof -
    have "tget (en_peers s1) (k, dv) \<noteq> None
        \<longleftrightarrow> (\<exists>name. map_option nc_name (tget (en_networks s1) k) = Some name \<and> listed ext gp name dv)"
      using R names i(2) by simp
    then show ?thesis by auto
  qed
  have roster: "en_roster t = en_roster s1"
    using kept_fold [of "leave_stale (ex_hexenc ext)", OF kept_leave_stale] unfolding t in_force_def by blast
  have k: "k \<in> set [i. (i, _) \<leftarrow> en_networks s1, i \<notin> en_roster s1]
      \<longleftrightarrow> tget (en_networks s1) k \<noteq> None \<and> k \<notin> en_roster s1" for k
  proof -
    have "k \<in> set [i. (i, _) \<leftarrow> en_networks s1, i \<notin> en_roster s1]
        \<longleftrightarrow> (\<exists>c. (k, c) \<in> set (en_networks s1)) \<and> k \<notin> en_roster s1" by auto
    also have "(\<exists>c. (k, c) \<in> set (en_networks s1)) \<longleftrightarrow> tget (en_networks s1) k \<noteq> None"
      unfolding map_of_eq_None_iff by force
    finally show ?thesis .
  qed
  show ?thesis
    unfolding peers_as_listed_def roster unfolding t leave_stale_all k using s1 by auto
qed

section \<open>A started node\<close>

lemma kept_exposes: "in_force (apply_exposes (ds_exposes (st :: DeviceSettings)) s) = in_force s"
  by (simp add: apply_exposes_eq in_force_def)

lemma kept_policies: "in_force (apply_policies st s) = in_force s"
proof -
  obtain fs where "apply_policies st s = (with_policies st s)\<lparr>en_sessions := pinned_sessions (with_policies st s),
      en_out := en_out (with_policies st s) @ fs\<rparr>" using apply_policies_eq by blast
  then show ?thesis by (simp add: in_force_def with_policies_def Let_def)
qed

lemma start_settings_in_force:
  "in_force (start_settings st s) =
     ((case ds_mtu st of Some m \<Rightarrow> m | None \<Rightarrow> DEFAULT_MTU),
      (case ds_socks_listen st of Some a \<Rightarrow> if a = [] then None else Some a | None \<Rightarrow> Some ''127.0.0.1:1080''),
      (case ds_forwards st of Some f \<Rightarrow> f | None \<Rightarrow> []),
      en_runtime_mode s, effective_listen_raw st, en_roster s)"
proof -
  have "in_force (apply_exposes (ds_exposes st) (apply_policies st s)) = in_force s"
    by (simp add: kept_exposes kept_policies)
  then show ?thesis by (simp add: start_settings_def apply_runtime_settings_def Let_def in_force_def)
qed

lemma kept_heartbeat [keeps]:
  "in_force (heartbeat_now env s) = in_force s"
  "en_applied_settings_revision (heartbeat_now env s) = en_applied_settings_revision s"
  by (simp_all add: heartbeat_now_def heartbeat_request_def heartbeat_answer_def case_prod_beta Let_def
      in_force_def emit_def split: option.split)

text \<open>What the heartbeat at the end of a start leaves alone.\<close>

lemma heartbeat_frame:
  "en_peers (heartbeat_now env s) = en_peers s" "en_networks (heartbeat_now env s) = en_networks s"
  "policy_for (heartbeat_now env s) = policy_for s"
  "\<exists>after. en_out (heartbeat_now env s) = en_out s @ after \<and> filter sets_exposes after = []"
proof -
  show "en_peers (heartbeat_now env s) = en_peers s" "en_networks (heartbeat_now env s) = en_networks s"
    by (simp_all add: heartbeat_now_def heartbeat_request_def heartbeat_answer_def case_prod_beta Let_def emit_def
        split: option.split)
  show "policy_for (heartbeat_now env s) = policy_for s"
    by (rule policy_for_cong)
       (simp_all add: heartbeat_now_def heartbeat_request_def heartbeat_answer_def case_prod_beta Let_def emit_def
        split: option.split)
  show "\<exists>after. en_out (heartbeat_now env s) = en_out s @ after \<and> filter sets_exposes after = []"
    by (simp add: heartbeat_now_def heartbeat_request_def heartbeat_answer_def case_prod_beta Let_def emit_def
        split: option.split)
qed

text \<open>The policies and exposes of the settings at the start.\<close>

lemma start_settings_frame:
  "en_peers (start_settings st s) = en_peers s" "en_networks (start_settings st s) = en_networks s"
  "policy_for (start_settings st s) = intended_policy st"
  "\<exists>before. en_out (start_settings st s) = before @ exposes_of st s"
proof -
  let ?r = "apply_exposes (ds_exposes st) (apply_policies st s)"
  note f = runtime_frame [where st = st and s = s]
  show "en_peers (start_settings st s) = en_peers s" "en_networks (start_settings st s) = en_networks s"
    using f(9,10) by (simp_all add: start_settings_def apply_runtime_settings_def Let_def)
  have "policy_for (start_settings st s) = policy_for ?r"
    by (rule policy_for_cong) (simp_all add: start_settings_def apply_runtime_settings_def Let_def)
  then show "policy_for (start_settings st s) = intended_policy st" using f(2) by simp
  have "en_out (start_settings st s) = en_out (apply_policies st s) @ exposes_of st (apply_policies st s)"
    by (simp add: start_settings_def apply_runtime_settings_def apply_exposes_eq Let_def)
  moreover have "exposes_of st (apply_policies st s) = exposes_of st s"
    using f(9) by (simp add: apply_exposes_eq exposes_of_def)
  ultimately show "\<exists>before. en_out (start_settings st s) = before @ exposes_of st s" by simp
qed

lemma restart_class_from_start:
  assumes "in_force s = in_force (start_settings st s0)" and "en_runtime_mode s0 = effective_mode_of st"
  shows "restart_class_change (st\<lparr>ds_revision := r\<rparr>) s \<longleftrightarrow> ds_listen st = Some []"
proof -
  have d: "default_listen \<noteq> []" by (simp add: default_listen_def Let_def)
  show ?thesis
    using assms d unfolding start_settings_in_force
    by (auto simp: in_force_def restart_class_change_def effective_listen_raw_def effective_mode_of_def
        split: option.splits if_splits)
qed

lemma bind_tcp_bound:
  assumes "bind_tcp os k addrs ports = Inr out"
  shows "set ports \<subseteq> set out \<and> (\<forall>a\<in>set addrs. is_unspecified a \<or> (\<exists>j p. os j a = Bound p \<and> p \<in> set out))"
  using assms
proof (induction addrs arbitrary: k ports)
  case (Cons a rest)
  show ?case
  proof (cases "os k a")
    case (Bound p)
    with Cons.prems have "bind_tcp os (k + 1) rest (ports @ [p]) = Inr out" by simp
    from Cons.IH [OF this] Bound show ?thesis by auto
  next
    case NotBound
    with Cons.prems have "is_unspecified a" "bind_tcp os (k + 1) rest ports = Inr out" by (auto split: if_splits)
    then show ?thesis using Cons.IH by auto
  qed (use Cons.prems in simp)
qed simp

lemma bind_loop_bound:
  assumes "bind_loop os k addrs binds fb = Inr (out, fb')"
  shows "set binds \<subseteq> set out
    \<and> (\<forall>a\<in>set addrs. is_unspecified a \<or> a \<in> set out \<or> (\<exists>j l. os j a = Some l \<and> l \<in> set out))"
  using assms
proof (induction addrs arbitrary: k binds fb)
  case (Cons a rest)
  show ?case
  proof (cases "a \<in> set binds")
    case True
    then show ?thesis using Cons.IH [of k binds fb] Cons.prems by auto
  next
    case new: False
    show ?thesis
    proof (cases "os k a")
      case (Some l)
      then show ?thesis using Cons.IH [of "k + 1" "binds @ [l]" fb] Cons.prems new by auto
    next
      case None
      then have "is_unspecified a" and "\<exists>k' more fb''. bind_loop os k' rest (binds @ more) fb'' = Inr (out, fb')"
        using Cons.prems new by (auto split: if_splits option.splits) (metis append_Nil2)+
      then show ?thesis using Cons.IH by fastforce
    qed
  qed
qed simp

lemma mesh_bind_bound:
  assumes "mesh_bind os addrs = Inr m"
  shows "um_binds m \<noteq> [] \<and> (\<forall>a\<in>set addrs. is_unspecified a \<or> a \<in> set (um_binds m)
           \<or> (\<exists>j l. os j a = Some l \<and> l \<in> set (um_binds m)))"
proof -
  obtain bs fb where "bind_loop os 0 addrs [] False = Inr (bs, fb)" "um_binds m = bs" "bs \<noteq> []"
    using assms by (auto simp: mesh_bind_def split: if_splits sum.splits)
  with bind_loop_bound show ?thesis by metis
qed

lemma started_on_networks:
  assumes "start_on_networks env cfg st listen udp configs s = Started n"
  obtains s0 where "refresh_peers_for (sx_ext env) (sx_boot env) (sx_peers env) None
        ((warn_overlapping_cidrs s)\<lparr>en_tcp_listen_port := (case sn_tcp_ports n of [] \<Rightarrow> 0 | p # _ \<Rightarrow> p)\<rparr>) = Some s0"
    and "sn_engine n = heartbeat_now env (start_settings st s0)"
    and "effective_mode_of st = Tun \<longrightarrow> length configs = 1"
    and "bind_tcp (sx_tcp_bind env) 0 (el_tcp listen) [] = Inr (sn_tcp_ports n)"
    and "um_binds (sn_udp n) = um_binds udp"
    and "sn_socks n = (if effective_mode_of st = Proxy then en_runtime_socks (sn_engine n) else None)"
    and "sn_forwards n = (if effective_mode_of st = Proxy then en_runtime_forwards (sn_engine n) else [])"
proof -
  obtain c rest where c: "configs = c # rest" using assms by (cases configs) (simp_all add: start_on_networks_def)
  obtain ports s2 host relay where p: "bind_tcp (sx_tcp_bind env) 0 (el_tcp listen) [] = Inr ports"
    and r: "refresh_peers_for (sx_ext env) (sx_boot env) (sx_peers env) None
              ((warn_overlapping_cidrs s)\<lparr>en_tcp_listen_port := (case ports of [] \<Rightarrow> 0 | p # _ \<Rightarrow> p)\<rparr>) = Some s2"
    and n: "n = finish_start env st (send_register (sx_hmac env) (sx_nonce env)
              (configure_relay (SocketAddrV4 host (cr_relay_udp_port c)) (id_device_id (nf_identity cfg))
                 (relay_key_from_token (sx_sha256 env) (id_device_token (nf_identity cfg))) udp)) relay ports s2"
    and tun: "effective_mode_of st = Tun \<longrightarrow> length configs = 1"
    using assms by (auto simp: start_on_networks_def c Let_def split: if_splits sum.splits option.splits)
  have "um_binds (sn_udp n) = um_binds udp"
    by (simp add: n finish_start_def Let_def send_register_def configure_relay_def enqueue_def split: option.split)
  then show ?thesis using that [of s2] p r tun by (simp add: n finish_start_def Let_def)
qed

lemma startedE:
  assumes "start_engine sa ta dev env cfg = Started n"
  obtains st listen roster configs udp s where "bootstrap_settings sa = Some st"
    and "effective_listen_addrs st = Inr listen" and "roster \<noteq> []" and "Some roster \<in> set (sx_memberships env)"
    and "length configs = length roster" and "en_roster s = set (map mi_network_id roster)"
    and "en_runtime_mode s = effective_mode_of st" and "mesh_bind (sx_udp_bind env) (el_udp listen) = Inr udp" and "fresh s"
    and "start_on_networks env cfg st listen udp configs s = Started n"
proof -
  obtain st where st: "bootstrap_settings sa = Some st" and w: "start_with_settings env cfg st = Started n"
    using assms by (auto simp: start_engine_def split: option.splits if_splits sum.splits)
  obtain pr pu listen udp roster s1 configs s2 where
    l: "effective_listen_addrs st = Inr listen" and u: "mesh_bind (sx_udp_bind env) (el_udp listen) = Inr udp"
    and m: "fetch_memberships_or_fail (sx_memberships env) 0
              (engine_new (id_device_id (nf_identity cfg)) pr pu (effective_mode_of st) (el_raw listen) (um_local_port udp))
            = (Some roster, s1)"
    and f: "fetch_configs_for_roster roster (sx_configs env) 0 s1 = (Some configs, s2)"
    and n: "start_on_networks env cfg st listen udp configs s2 = Started n"
    using w by (auto simp: start_with_settings_def Let_def split: option.splits sum.splits prod.splits)
  note m' = memberships_result [OF m] and f' = fetch_configs_result [OF f]
  have "en_runtime_mode s2 = effective_mode_of st" using m' f' by (simp add: in_force_def engine_new_def)
  moreover have "fresh (engine_new (id_device_id (nf_identity cfg)) pr pu (effective_mode_of st) (el_raw listen) (um_local_port udp))"
    by (simp add: fresh_def engine_inv_new) (simp add: engine_new_def)
  then have "fresh s2" using fresh_configs [OF f] fresh_memberships [OF m] by blast
  ultimately show ?thesis using that st l u n m' f' by blast
qed


definition demo_env :: StartEnv where
  "demo_env =
     \<lparr>sx_ext = demo_ext\<lparr>ex_hexdec := (\<lambda>_. Some (replicate 32 0))\<rparr>, sx_hmac = (\<lambda>_ _. []), sx_sha256 = (\<lambda>_. []),
      sx_nonce = [], sx_boot = (\<lambda>_. []), sx_udp_bind = (\<lambda>_. Some),
      sx_tcp_bind = (\<lambda>_ a. if is_unspecified a then NotBound else Bound 7),
      sx_lookup = (\<lambda>_. Some [SocketAddrV4 0x01020304 80]),
      sx_memberships = [None, Some [\<lparr>mi_network_id = [1], mi_network_name = ''a'', mi_cidr = ''10.0.0.0/24'', mi_ip = ''10.0.0.2''\<rparr>]],
      sx_configs = [\<lambda>n. Some \<lparr>cr_device_id = 7, cr_name = ''n'', cr_network_id = [1], cr_network_name = n, cr_cidr = [],
                       cr_ip = [], cr_mtu = 1300, cr_relay_udp_port = 1, cr_relay_tcp_port = 2\<rparr>],
      sx_peers = (\<lambda>_. None), sx_now = 0, sx_local_addrs = [], sx_node_version = [], sx_heartbeat = (\<lambda>_. None)\<rparr>"

definition demo_settings :: DeviceSettings where
  "demo_settings = default_settings\<lparr>ds_revision := 3, ds_mode := Some Tun,
     ds_listen := Some [''udp://0.0.0.0:9'', ''tcp://1.1.1.1:9'']\<rparr>"

definition demo_node :: NodeConfig where
  "demo_node = demo_config\<lparr>nf_server := ''http://1.2.3.4''\<rparr>"

lemma demo_listen: "effective_listen_addrs demo_settings =
    Inr \<lparr>el_udp = [SocketAddrV4 0 9], el_tcp = [SocketAddrV4 0x01010101 9],
         el_raw = [''udp://0.0.0.0:9'', ''tcp://1.1.1.1:9'']\<rparr>"
  by (simp add: effective_listen_addrs_def effective_listen_raw_def demo_settings_def parse_listen_url_def
      split_once_str.simps strip_prefix_def Let_def
      parse_socket_addr_def read_socket_addr_v4_def read_ipv4_addr_def read_octet_def read_number_def
      read_given_char_def read_port_def ipv4_of_octets_def digit_val_def)

lemma demo_valid: "config_validate demo_node = None"
  by code_simp

lemma demo_host: "resolve_relay_host f ''http://1.2.3.4'' = Inr 0x01020304"
proof -
  have "relay_host_name ''http://1.2.3.4'' = ''1.2.3.4''" by code_simp
  then show ?thesis
    by (simp add: resolve_relay_host_def parse_ip_def parse_ipv4_def parse_octet_def digit_val_def ipv4_of_octets_def Let_def)
qed

lemma refresh_unanswered: "\<exists>t. refresh_peers_for ext boot (\<lambda>_. None) net s = Some t"
proof -
  have "refresh_networks ext boot (\<lambda>_. None) names s = Some s" for names
  proof (induction names)
    case (Cons a names)
    then show ?case by (cases a) (simp add: refresh_one_network_def)
  qed simp
  then show ?thesis by (simp add: refresh_peers_for_def)
qed

lemma demo_starts: "\<exists>n. start_engine [None, Some demo_settings]
    (sx_memberships demo_env) (\<lambda>_ _ _. True) demo_env demo_node = Started n"
proof -
  let ?l = "\<lparr>el_udp = [SocketAddrV4 0 9], el_tcp = [SocketAddrV4 0x01010101 9],
         el_raw = [''udp://0.0.0.0:9'', ''tcp://1.1.1.1:9'']\<rparr>"
  have b: "sx_tcp_bind demo_env = (\<lambda>_ a. if is_unspecified a then NotBound else Bound 7)"
    by (simp add: demo_env_def)
  have n: "\<exists>n. start_on_networks demo_env demo_node demo_settings ?l udp [c] s = Started n" for udp c s
  proof -
    have "sx_peers demo_env = (\<lambda>_. None)" by (simp add: demo_env_def)
    with refresh_unanswered obtain t where
      "refresh_peers_for (sx_ext demo_env) (sx_boot demo_env) (sx_peers demo_env) None
         ((warn_overlapping_cidrs s)\<lparr>en_tcp_listen_port := 7\<rparr>) = Some t" by metis
    then show ?thesis by (simp add: start_on_networks_def Let_def b demo_node_def demo_host)
  qed
  have r: "\<exists>s2 c. fetch_configs_for_roster [m] (sx_configs demo_env) 0 s1 = (Some [c], s2)" for m s1
    by (simp add: demo_env_def)
  have m: "\<exists>m s1. fetch_memberships_or_fail (sx_memberships demo_env) 0 s0 = (Some [m], s1)" for s0
    by (simp add: demo_env_def)
  have h: "ex_hexdec (sx_ext demo_env) = (\<lambda>_. Some (replicate 32 0))" "sx_udp_bind demo_env = (\<lambda>_. Some)"
    by (simp_all add: demo_env_def)
  let ?s0 = "engine_new 7 (replicate 32 0) (replicate 32 0) Tun [''udp://0.0.0.0:9'', ''tcp://1.1.1.1:9''] 9"
  obtain m1 s1 where m1: "fetch_memberships_or_fail (sx_memberships demo_env) 0 ?s0 = (Some [m1], s1)"
    using m by blast
  obtain c s2 where c: "fetch_configs_for_roster [m1] (sx_configs demo_env) 0 s1 = (Some [c], s2)"
    using r by blast
  obtain n1 where n1: "start_on_networks demo_env demo_node demo_settings ?l
      \<lparr>um_binds = [SocketAddrV4 0 9], um_local_port = 9, um_used_fallback_port = False,
       um_relay_addr = None, um_register_creds = None, um_sent = []\<rparr> [c] s2 = Started n1"
    using n by blast
  have mb: "mesh_bind (\<lambda>_. Some) [SocketAddrV4 0 9] =
      Inr \<lparr>um_binds = [SocketAddrV4 0 9], um_local_port = 9, um_used_fallback_port = False,
           um_relay_addr = None, um_register_creds = None, um_sent = []\<rparr>"
    by (simp add: mesh_bind_def)
  have i: "id_device_id (nf_identity demo_node) = 7" by (simp add: demo_node_def demo_config_def)
  have "effective_mode_of demo_settings = Tun" by (simp add: effective_mode_of_def demo_settings_def)
  then have v: "\<exists>n. start_with_settings demo_env demo_node demo_settings = Started n"
    unfolding start_with_settings_def demo_listen demo_valid
    by (simp add: hex32_def h mb i m1 c n1 Let_def del: fetch_memberships_or_fail.simps
        fetch_configs_for_roster.simps)
  have t: "effective_mode_of demo_settings = Tun" by (simp add: effective_mode_of_def demo_settings_def)
  have "parse_ipv4 ''10.0.0.2'' = Some 0x0A000002"
    by (simp add: parse_ipv4_def parse_octet_def digit_val_def ipv4_of_octets_def)
  moreover have "cidr_parse ''10.0.0.0/24'' = Inr (cidr_new 0x0A000000 24)"
    by (simp add: cidr_parse_def parse_ipv4_def parse_octet_def digit_val_def ipv4_of_octets_def parse_u32_def parse_unsigned_def)
  ultimately show ?thesis using v t
    by (auto simp: start_engine_def demo_env_def)
qed


section \<open>Withdrawn settings\<close>

text \<open>
  C34 (error). Settings that no longer manage anything are acknowledged at once and nothing of what was managed
  is undone: the MTU, SOCKS, the forwards, the mode and the listen addresses stay as they
  were, no service that was exposed is closed, and no restart is announced, although
  a node started with them would have the defaults.
\<close>
theorem withdrawn_settings_acknowledged:
  assumes "apply_settings (Some st) s = (hb, t)" and "en_applied_settings_revision s < of_int (ds_revision st)"
    and "ds_mtu st = None" and "ds_socks_listen st = None" and "ds_forwards st = None" and "ds_mode st = None"
    and "ds_listen st = None" and "ds_exposes st = None"
  shows "hb \<and> en_applied_settings_revision t = of_int (ds_revision st)
    \<and> en_stopping t = en_stopping s \<and> en_restart_pending t = en_restart_pending s \<and> in_force t = in_force s
    \<and> (\<exists>es. en_out t = en_out s @ es \<and> (\<forall>n rs. FlowSetExposes n rs \<notin> set es))
    \<and> in_force (start_settings st s)
        = (DEFAULT_MTU, Some ''127.0.0.1:1080'', [], en_runtime_mode s, default_listen, en_roster s)
    \<and> effective_mode_of st = Proxy"
proof -
  have rc: "\<not> restart_class_change st x" for x using assms(3-7) by (simp add: restart_class_change_def)
  have e: "apply_exposes (ds_exposes st) x = x" for x using assms(8) by (simp add: apply_exposes_def)
  have t: "hb" "t = (apply_policies st s)\<lparr>en_restart_pending := en_restart_pending (apply_policies st s),
      en_applied_settings_revision := of_int (ds_revision st)\<rparr>"
    using assms(1) linorder_not_le [THEN iffD2, OF assms(2)] rc
    by (simp_all add: apply_settings_def apply_runtime_settings_def Let_def e)
  obtain es where a: "apply_policies st s = (with_policies st s)\<lparr>en_sessions := pinned_sessions (with_policies st s),
      en_out := en_out (with_policies st s) @ es\<rparr>" and es: "es = [] \<or> es = [EnsureRelayTcp]"
    using apply_policies_eq by blast
  have o: "en_out t = en_out s @ (bad_policies (case ds_peer_policies st of Some l \<Rightarrow> l | None \<Rightarrow> []) @ es)"
    by (simp add: t(2) a with_policies_def Let_def)
  have f: "en_stopping t = en_stopping s" "en_restart_pending t = en_restart_pending s" "in_force t = in_force s"
    "en_applied_settings_revision t = of_int (ds_revision st)"
    by (simp_all add: t(2) a in_force_def with_policies_def Let_def)
  have "\<forall>n rs. FlowSetExposes n rs \<notin> set (bad_policies l @ es)" for l
    using es by (auto simp: bad_policies_def)
  then show ?thesis
    using t(1) o f assms(3-7) unfolding start_settings_in_force
    by (simp add: effective_listen_raw_def effective_mode_of_def)
qed

theorem withdrawn_settings_acknowledged_witness:
  "\<exists>hb t. apply_settings (Some (default_settings\<lparr>ds_revision := 4\<rparr>))
       (engine_new 5 [] [] Tun [''udp://0.0.0.0:1''] 1\<lparr>en_runtime_mtu := 9000\<rparr>) = (hb, t)
     \<and> hb \<and> en_applied_settings_revision t = 4 \<and> en_runtime_mode t = Tun \<and> en_runtime_mtu t = 9000"
proof -
  let ?s = "engine_new 5 [] [] Tun [''udp://0.0.0.0:1''] 1\<lparr>en_runtime_mtu := 9000\<rparr>"
  let ?st = "default_settings\<lparr>ds_revision := 4\<rparr>"
  obtain hb t where r: "apply_settings (Some ?st) ?s = (hb, t)" by fastforce
  have "en_applied_settings_revision ?s < of_int (ds_revision ?st)" by (simp add: engine_new_def)
  from withdrawn_settings_acknowledged [OF r this] r show ?thesis
    by (auto simp: default_settings_def in_force_def engine_new_def)
qed

end
