(* ===== verification/NodeMainProps.thy ===== *)
theory NodeMainProps
  imports NodeMain NodeStartProps
begin

text \<open>
  What the commands of the node guarantee, and what they do not: the first connection of an
  enrolment, the example file, the report of a failed start, the two choices of a log file.
\<close>

section \<open>The first connection\<close>

lemma connect_unpinned:
  assumes "starts_with ''https://'' (trim_end_slash server)"
  shows "fst (connect lb cert (control_new server tok None))"
    and "cc_server (snd (connect lb cert (control_new server tok None))) = trim_end_slash server"
  using assms
  by (simp_all add: connect_def control_new_def verify_server_cert_def verify_pinned_def verify_unpinned_def
      Let_def case_prod_beta)

lemma connect_pinned:
  assumes "starts_with ''https://'' (trim_end_slash server)"
  shows "fst (connect lb cert (control_new server tok (Some pin))) \<longleftrightarrow> eq_ignore_ascii_case (lb_fp lb cert) pin"
  using assms
  by (simp add: connect_def control_new_def verify_server_cert_def verify_pinned_def fingerprint_of_def Let_def
      case_prod_beta)

lemma split_token_unique: "is_hex64 f \<Longrightarrow> split_token (with_fingerprint b f) = (b, Some f)"
  using dot_notin_hex64 [of f] by (simp add: split_token_def with_fingerprint_def rsplit_once_append)

lemma config_save_ok:
  assumes "sv_mkdir env" and "sv_write env" and "\<forall>s. \<exists>t. senc s = Inr t"
  shows "\<exists>fs'. config_save to_text senc env path c fs = Inr fs'"
proof -
  obtain f where "senc = (\<lambda>s. Inr (f s))" using assms(3) by metis
  then show ?thesis using assms by (simp add: config_save_def write_config_def write_identity_def)
qed

text \<open>
  C14 (safety). An enrolment over https whose token carries the fingerprint f of the server's certificate sends
  this token to whatever server answers, its certificate unchecked, and takes that
  server's answer for the identity of the node. The file it saves pins f: only the
  connections made with it later accept nothing but the certificate of the token.
\<close>
theorem enroll_first_connection_unverified:
  assumes "fs (ga_config a) = None" and "starts_with ''https://'' (trim_end_slash (ga_server a))"
    and "split_token (ga_token a) = (bare, Some f)" and "http = (\<lambda>_. Some (200, Some answer, None))"
    and "sv_mkdir senv" and "sv_write senv" and "\<forall>s. \<exists>t. lb_senc lb s = Inr t"
  shows "\<exists>q r cfg fs'. cmd_enroll lb env senv keys cert http a fs = ([q], EnrolledAs cfg, fs')
    \<and> hq_body q = EnrollJson r \<and> eq_token r = ga_token a
    \<and> id_device_token (nf_identity cfg) = es_device_token answer
    \<and> (\<forall>cert'. fst (connect lb cert' (control_of_config cfg)) \<longleftrightarrow> eq_ignore_ascii_case (lb_fp lb cert') f)"
proof -
  obtain c where c: "connect lb cert (control_new (ga_server a) ''pending'' None) = (True, c)"
    using connect_unpinned(1) [OF assms(2), of lb cert "''pending''"] by (metis prod.collapse)
  let ?q = "(http_post c ''/api/enroll'' (EnrollJson (enroll_request lb env keys a)))\<lparr>hq_bearer := None\<rparr>"
  let ?cfg = "enrolled_config lb env keys a c answer"
  obtain fs' where fs: "config_save (lb_to_text lb) (lb_senc lb) senv (ga_config a) ?cfg fs = Inr fs'"
    using config_save_ok [OF assms(5,6,7)] by blast
  have "client_enroll http (enroll_request lb env keys a) c = Inr answer"
    by (simp add: assms(4) client_enroll_def read_post_def status_ok_def)
  then have "cmd_enroll lb env senv keys cert http a fs = ([?q], EnrolledAs ?cfg, fs')"
    unfolding cmd_enroll_def Let_def c by (simp add: enroll_blocked_def assms(1) fs)
  moreover have "control_of_config ?cfg =
      control_new (trim_end_slash (ga_server a)) (es_device_token answer) (Some (map ascii_lower f))"
    by (simp add: control_of_config_def enrolled_config_def assms(3))
  then have "fst (connect lb cert' (control_of_config ?cfg)) \<longleftrightarrow> eq_ignore_ascii_case (lb_fp lb cert') f" for cert'
    using connect_pinned [of "trim_end_slash (ga_server a)"] assms(2) by simp
  moreover have "hq_body ?q = EnrollJson (enroll_request lb env keys a)"
    "eq_token (enroll_request lb env keys a) = ga_token a"
    "id_device_token (nf_identity ?cfg) = es_device_token answer"
    by (simp_all add: http_post_def enroll_request_def enrolled_config_def case_prod_beta Let_def)
  ultimately show ?thesis by blast
qed

text \<open>Libraries as the witnesses use them: one file, plain secrets, one fingerprint.\<close>

definition demo_libs :: "Json option \<Rightarrow> Libs" where
  "demo_libs j = \<lparr>lb_from_str = (\<lambda>_. j), lb_to_text = (\<lambda>_. ''t''), lb_sdec = plain_secret, lb_senc = plain_secret,
     lb_hexenc = (\<lambda>_. []), lb_fp = (\<lambda>c. if c = [] then replicate 64 CHR ''b'' else replicate 64 CHR ''a''),
     lb_ca_ok = (\<lambda>_. False)\<rparr>"

definition demo_keys :: NodeKeys where
  "demo_keys = \<lparr>nk_sign_secret = [], nk_sign_public = [], nk_dh_secret = [], nk_dh_public = []\<rparr>"

definition demo_args :: EnrollArgs where
  "demo_args = \<lparr>ga_config = ''c'', ga_server = ''https://s'', ga_token = ''skk_x.'' @ replicate 64 CHR ''a'',
     ga_name = None, ga_ip = None\<rparr>"

theorem enroll_first_connection_unverified_witness:
  "\<exists>q r cfg fs'. cmd_enroll (demo_libs None) (\<lambda>_. None) \<lparr>sv_mkdir = True, sv_write = True\<rparr> demo_keys []
        (\<lambda>_. Some (200, Some \<lparr>es_device_id = 7, es_device_token = ''skd_x'', es_network_id = [1], es_network_name = ''n'',
           es_cidr = [], es_ip = [], es_mtu = 1300\<rparr>, None)) demo_args Map.empty = ([q], EnrolledAs cfg, fs')
    \<and> hq_body q = EnrollJson r \<and> eq_token r = ga_token demo_args
    \<and> \<not> fst (connect (demo_libs None) [] (control_of_config cfg))
    \<and> fst (connect (demo_libs None) [1] (control_of_config cfg))"
proof -
  have "''skk_x.'' @ replicate 64 CHR ''a'' = with_fingerprint ''skk_x'' (replicate 64 CHR ''a'')"
    by (simp add: with_fingerprint_def)
  moreover have "is_hex64 (replicate 64 CHR ''a'')"
    by (simp add: is_hex64_def list_all_iff is_ascii_hexdigit_def hex_val_def)
  ultimately have t: "split_token (ga_token demo_args) = (''skk_x'', Some (replicate 64 CHR ''a''))"
    unfolding demo_args_def EnrollArgs.select_convs
    by (simp only: split_token_unique)
  have f: "\<not> eq_ignore_ascii_case (lb_fp (demo_libs None) []) (replicate 64 CHR ''a'')"
    "eq_ignore_ascii_case (lb_fp (demo_libs None) [1]) (replicate 64 CHR ''a'')"
    by (simp_all add: demo_libs_def eq_ignore_ascii_case_def ascii_lower_def Let_def)
  have s: "starts_with ''https://'' (trim_end_slash (ga_server demo_args))" by code_simp
  have l: "\<forall>s. \<exists>t. lb_senc (demo_libs None) s = Inr t" by (simp add: demo_libs_def plain_secret_def)
  let ?senv = "\<lparr>sv_mkdir = True, sv_write = True\<rparr>"
  have e: "Map.empty (ga_config demo_args) = None" "sv_mkdir ?senv" "sv_write ?senv" by simp_all
  show ?thesis
    using enroll_first_connection_unverified [OF e(1) s t refl e(2,3) l] f by blast
qed

section \<open>The example file\<close>

text \<open>
  The file that init-config writes is not a configuration: enrolling into it fails before
  anything is sent, and a worker that is started with it exits with an error.
\<close>
theorem init_config_blocks_enroll:
  assumes "lb_from_str lb init_sample =
      Some (JObj [(''server'', JStr ''http://your-server:24930''), (''dataDir'', JStr []),
                  (''logFile'', JNull), (''identity'', JNull)])"
    and "cmd_init_config (ga_config a) force fs = Some fs'"
  shows "cmd_enroll lb env senv keys cert http a fs' = ([], ConfigUnusable BadFormat, fs')
    \<and> cmd_worker lb http' err_text begin_engine (ga_config a) fs' = Exit EXIT_ERROR []"
proof -
  have f: "fs' (ga_config a) = Some init_sample" using assms(2) by (auto simp: cmd_init_config_def split: if_splits)
  have "config_load (lb_from_str lb) (lb_sdec lb) (ga_config a) fs' = Inl BadFormat"
    by (simp add: config_load_def f assms(1) field_def with_default_def required_def)
  then show ?thesis by (simp add: cmd_enroll_def enroll_blocked_def f cmd_worker_def)
qed

theorem init_config_blocks_enroll_witness:
  "cmd_enroll (demo_libs (Some (JObj [(''server'', JStr ''http://your-server:24930''), (''dataDir'', JStr []),
       (''logFile'', JNull), (''identity'', JNull)]))) (\<lambda>_. None) \<lparr>sv_mkdir = True, sv_write = True\<rparr> demo_keys []
     (\<lambda>_. None) demo_args [''c'' \<mapsto> init_sample] = ([], ConfigUnusable BadFormat, [''c'' \<mapsto> init_sample])
   \<and> cmd_worker (demo_libs (Some (JObj [(''server'', JStr ''http://your-server:24930''), (''dataDir'', JStr []),
       (''logFile'', JNull), (''identity'', JNull)]))) (\<lambda>_. None) (\<lambda>_. []) (\<lambda>_. Retrying) (ga_config demo_args)
       [''c'' \<mapsto> init_sample] = Exit EXIT_ERROR []"
  by (rule init_config_blocks_enroll [where force = False and fs = Map.empty])
     (simp_all add: demo_libs_def demo_args_def cmd_init_config_def)

section \<open>The report of a failed start\<close>

text \<open>
  The server as the worker meets it: reqwest sends the token as a bearer header, and serde reads
  the answer back.
\<close>

definition bearer_req :: "HttpRequest \<Rightarrow> Req" where
  "bearer_req q =
     \<lparr>rq_authorization = map_option (\<lambda>t. ''Bearer '' @ t) (hq_bearer q), rq_admin_token = None,
      rq_query = None, rq_network = None, rq_token = None\<rparr>"

definition settings_from :: "Coders \<Rightarrow> AppState \<Rightarrow> HttpRequest \<Rightarrow> DeviceSettings HttpResult" where
  "settings_from cd s q =
     (let r = api_get_settings cd (bearer_req q) s
      in Some (rs_status r, (case rs_body r of SettingsBody d \<Rightarrow> Some d | _ \<Rightarrow> None), None))"

definition deliver_report :: "Coders \<Rightarrow> millis \<Rightarrow> AppState \<Rightarrow> HttpRequest \<Rightarrow> AppState" where
  "deliver_report cd now s q =
     (case hq_body q of
        SettingsFailJson rv msg \<Rightarrow> snd (api_settings_fail cd now (bearer_req q) (Some (Some rv, Some msg)) s)
      | _ \<Rightarrow> s)"

definition rolled_back :: "Coders \<Rightarrow> millis \<Rightarrow> string \<Rightarrow> SettingsRow \<Rightarrow> SettingsRow" where
  "rolled_back cd now msg row =
     row\<lparr>sr_json := (case sr_last_good_json row of Some g \<Rightarrow> g | None \<Rightarrow> cd_json cd default_settings),
         sr_revision := sr_revision row + 1, sr_last_error := Some (take_chars 500 msg),
         sr_failed_revision := Some (sr_revision row), sr_updated_at := now\<rparr>"

lemma fail_current_rolls_back:
  assumes "tget (rp_device_settings s) dev = Some row"
  shows "tget (rp_device_settings (snd (report_settings_fail enc dec now dev (sr_revision row) msg s))) dev
    = Some (row\<lparr>sr_json := (case sr_last_good_json row of Some g \<Rightarrow> g | None \<Rightarrow> enc default_settings),
         sr_revision := sr_revision row + 1, sr_last_error := Some (take_chars 500 msg),
         sr_failed_revision := Some (sr_revision row), sr_updated_at := now\<rparr>)"
  using assms by (simp add: report_settings_fail_def report_fail_tx_def with_tx_def Let_def table_simps
      split: option.split)

text \<open>
  C15 (error). A worker whose start fails with the settings it tried has the server roll back the settings that
  are current when it reports, whatever they are: the revision it reports is the one it
  fetches after the failure, so the server, which ignores reports of an old revision,
  takes it for current. Settings that were put in the meantime, and that nobody has tried, are replaced
  and recorded as failed.
\<close>
theorem failed_start_rolls_back_current:
  assumes "config_load (lb_from_str lb) (lb_sdec lb) path fs = Inr c"
    and "worker_run (Some tried # later) tun dev env live c = Failed e"
    and "auth_device cd (bearer_req (http_get (control_of_config c) ''/api/settings'')) s = Some device"
    and "tget (rp_device_settings (ap_repo s)) (dr_id device) = Some row"
    and "cd_unjson cd (sr_json row) = Some newer"
  shows "\<exists>q. cmd_worker lb (settings_from cd s) err_text (worker_run (Some tried # later) tun dev env live) path fs
        = Exit EXIT_ERROR [q]
      \<and> tget (rp_device_settings (ap_repo (deliver_report cd now s q))) (dr_id device)
        = Some (rolled_back cd now (err_text e) row)"
proof -
  let ?q = "settings_fail_request (sr_revision row) (err_text e) (control_of_config c)"
  have "get_settings (settings_from cd s) (control_of_config c) = Some (newer\<lparr>ds_revision := sr_revision row\<rparr>)"
    using assms(3-5) by (simp add: get_settings_def settings_from_def read_get_def api_get_settings_def settings_answer_def
        get_device_settings_def get_device_settings_full_def ok_json_def resp_def status_ok_def Let_def)
  then have w: "cmd_worker lb (settings_from cd s) err_text (worker_run (Some tried # later) tun dev env live) path fs
      = Exit EXIT_ERROR [?q]"
    using assms(1,2) by (simp add: cmd_worker_def worker_report_def)
  have "bearer_req ?q = bearer_req (http_get (control_of_config c) ''/api/settings'')"
    by (simp add: bearer_req_def settings_fail_request_def http_post_def http_get_def)
  then have "ap_repo (deliver_report cd now s ?q) = snd (report_settings_fail (cd_json cd) (cd_unjson cd) now
      (dr_id device) (sr_revision row) (err_text e) (ap_repo s))"
    using assms(3) by (auto simp: deliver_report_def settings_fail_request_def http_post_def api_settings_fail_def
        on_hub_def case_prod_beta Let_def split: sum.split option.split)
  then show ?thesis
    using w fail_current_rolls_back [OF assms(4)] by (simp add: rolled_back_def)
qed

definition demo_bad :: DeviceSettings where
  "demo_bad = default_settings\<lparr>ds_revision := 1, ds_listen := Some [''x'']\<rparr>"

definition demo_json :: Json where
  "demo_json = projr (write_config plain_secret demo_node)"

definition demo_report_coders :: Coders where
  "demo_report_coders = \<lparr>cd_hash = (\<lambda>_. ''t''), cd_hexenc = chars_of, cd_hexdec = (\<lambda>x. Some (as_bytes x)),
     cd_json = (\<lambda>_. []), cd_unjson = (\<lambda>_. Some default_settings)\<rparr>"

text \<open>The server has moved on to revision 2.\<close>

definition demo_moved_on :: AppState where
  "demo_moved_on = demo_server\<lparr>ap_repo := (ap_repo demo_server)
     \<lparr>rp_devices := [demo_row 7],
      rp_device_settings := [(7, \<lparr>sr_revision = 2, sr_json = ''new'', sr_updated_at = 0, sr_last_good_json = Some ''old'',
                                  sr_last_error = None, sr_failed_revision = None\<rparr>)]\<rparr>\<rparr>"

theorem failed_start_rolls_back_current_witness:
  "\<exists>q. cmd_worker (demo_libs (Some demo_json)) (settings_from demo_report_coders demo_moved_on) (\<lambda>_. ''e'')
        (worker_run [Some demo_bad] [] (\<lambda>_ _ _. True) demo_env sn_engine) ''c'' [''c'' \<mapsto> ''t''] = Exit EXIT_ERROR [q]
      \<and> tget (rp_device_settings (ap_repo (deliver_report demo_report_coders 9 demo_moved_on q))) (dr_id (demo_row 7))
        = Some (rolled_back demo_report_coders 9 ''e'' \<lparr>sr_revision = 2, sr_json = ''new'', sr_updated_at = 0,
                  sr_last_good_json = Some ''old'', sr_last_error = None, sr_failed_revision = None\<rparr>)"
proof -
  have w: "write_config plain_secret demo_node = Inr demo_json"
    by (simp add: demo_json_def write_config_def write_identity_def plain_secret_def)
  have "read_config plain_secret demo_json = Some demo_node"
    using read_write_config [OF w, of plain_secret] by (simp add: plain_secret_def)
  then have l: "config_load (lb_from_str (demo_libs (Some demo_json))) (lb_sdec (demo_libs (Some demo_json))) ''c''
      [''c'' \<mapsto> ''t''] = Inr demo_node"
    using demo_valid by (simp add: config_load_def demo_libs_def)
  have b: "effective_listen_addrs demo_bad = Inl (BadListen MissingScheme)"
    by (simp add: effective_listen_addrs_def effective_listen_raw_def demo_bad_def parse_listen_url_def strip_prefix_def Let_def)
  have h: "ex_hexdec (sx_ext demo_env) = (\<lambda>_. Some (replicate 32 0))" by (simp add: demo_env_def)
  have m: "effective_mode_of demo_bad = Proxy" by (simp add: demo_bad_def effective_mode_of_def default_settings_def)
  have f: "worker_run [Some demo_bad] [] (\<lambda>_ _ _. True) demo_env sn_engine demo_node
      = Failed (ListenRejected (BadListen MissingScheme))"
    by (simp add: worker_run_def start_engine_def m start_with_settings_def demo_valid hex32_def h b Let_def)
  have a: "auth_device demo_report_coders (bearer_req (http_get (control_of_config demo_node) ''/api/settings'')) demo_moved_on
      = Some (demo_row 7)"
    by (simp add: auth_device_def extract_token_def bearer_req_def http_get_def bearer_of_def demo_report_coders_def
        find_device_by_token_hash_def demo_moved_on_def demo_row_def strip_prefix_def)
  show ?thesis
    by (rule failed_start_rolls_back_current [OF l f a, where newer = default_settings])
       (simp_all add: demo_moved_on_def demo_row_def demo_report_coders_def)
qed

section \<open>The log files of the master and the worker\<close>

lemma json_at_field:
  "json_at k (JObj m) = (case field k m of Missing \<Rightarrow> JNull | Given j \<Rightarrow> j | Repeated \<Rightarrow> json_at k (JObj m))"
proof (cases "filter (\<lambda>p. fst p = k) m")
  case (Cons a list)
  then show ?thesis by (cases list) (simp_all add: field_def)
qed (simp add: field_def)

lemma optional_str_nonempty:
  "with_default None as_optional_string f = Some v \<Longrightarrow> v \<noteq> Some [] \<Longrightarrow>
   nonempty_str (case f of Missing \<Rightarrow> JNull | Given j \<Rightarrow> j | Repeated \<Rightarrow> x) = v"
proof -
  assume "with_default None as_optional_string f = Some v" "v \<noteq> Some []"
  then show ?thesis
  proof (cases f)
    case (Given j)
    then show ?thesis using \<open>with_default _ _ f = _\<close> \<open>v \<noteq> Some []\<close>
      by (cases j) (auto simp: with_default_def nonempty_str_def split: if_splits)
  qed (auto simp: with_default_def nonempty_str_def)
qed

lemma default_str_nonempty:
  "with_default [] as_string f = Some d \<Longrightarrow>
   nonempty_str (case f of Missing \<Rightarrow> JNull | Given j \<Rightarrow> j | Repeated \<Rightarrow> x) = (if d = [] then None else Some d)"
  by (cases f) (auto simp: with_default_def nonempty_str_def)

lemma loose_members:
  assumes "read_config sdec j = Some c"
  shows "nf_log_file c \<noteq> Some [] \<Longrightarrow> nonempty_str (json_at ''logFile'' j) = nf_log_file c"
    and "nonempty_str (json_at ''dataDir'' j) = (if nf_data_dir c = [] then None else Some (nf_data_dir c))"
proof -
  obtain m where m: "j = JObj m" using assms by (cases j) simp_all
  have c: "with_default None as_optional_string (field ''logFile'' m) = Some (nf_log_file c)"
    "with_default [] as_string (field ''dataDir'' m) = Some (nf_data_dir c)"
    using assms by (auto simp: m split: bind_splits)
  show "nonempty_str (json_at ''logFile'' j) = nf_log_file c" if "nf_log_file c \<noteq> Some []"
    unfolding m by (subst json_at_field) (rule optional_str_nonempty [OF c(1) that])
  show "nonempty_str (json_at ''dataDir'' j) = (if nf_data_dir c = [] then None else Some (nf_data_dir c))"
    unfolding m by (subst json_at_field) (rule default_str_nonempty [OF c(2)])
qed

text \<open>
  The master reads its log file loosely and the worker through the configuration: for a file that
  loads they choose the same one, unless it names an empty path, which only the worker takes for a path.
\<close>
theorem loggers_agree:
  assumes "fs path = Some txt" and "from_str txt = Some j" and "read_config sdec j = Some c"
    and "nf_log_file c \<noteq> Some []"
  shows "make_logger_from_config_file env from_str explicit path as_service fs = make_logger env explicit c as_service"
  using loose_members [OF assms(3)] assms(4)
  by (simp add: make_logger_from_config_file_def make_logger_def config_data_dir_def assms(1,2) split: option.split)

end
