(* ===== verification/NodeStatus.thy ===== *)
theory NodeStatus
  imports NodeMainProps
begin

text \<open>
  What a running node writes to its files: crates/skiff-node/src/engine.rs, the first-use pin put
  into the configuration, the stop flag, status.json (write\_status) and the statistics in the log
  (log\_stats), with the records of crates/skiff-core/src/models.rs; and the filter of
  crates/skiff-node/src/net\_if.rs. The display of a socket address is a parameter.
\<close>

section \<open>The pin of the first use\<close>

text \<open>
  One round of the task that waits for a first-use fingerprint: None while there is none, else
  the configuration in memory and the files. A failed save is ignored.
\<close>

definition tofu_tick ::
  "Libs \<Rightarrow> SaveEnv \<Rightarrow> string \<Rightarrow> string option \<Rightarrow> NodeConfig \<Rightarrow> files \<Rightarrow> (NodeConfig \<times> files) option" where
  "tofu_tick lb senv path fingerprint cfg fs =
     (case fingerprint of
        None \<Rightarrow> None
      | Some fp \<Rightarrow>
          (if id_server_cert_pin (nf_identity cfg) = None then
             (let cfg' = cfg\<lparr>nf_identity := (nf_identity cfg)\<lparr>id_server_cert_pin := Some fp\<rparr>\<rparr> in
              Some (cfg', (case config_save (lb_to_text lb) (lb_senc lb) senv path cfg' fs of
                             Inr fs' \<Rightarrow> fs' | Inl _ \<Rightarrow> fs)))
           else Some (cfg, fs)))"

text \<open>The task: it does not start when the configuration has a pin; it ends with its first effect.\<close>

fun tofu_task ::
  "Libs \<Rightarrow> SaveEnv \<Rightarrow> string \<Rightarrow> string option list \<Rightarrow> NodeConfig \<Rightarrow> files \<Rightarrow> NodeConfig \<times> files" where
  "tofu_task lb senv path [] cfg fs = (cfg, fs)"
| "tofu_task lb senv path (seen # later) cfg fs =
     (if id_server_cert_pin (nf_identity cfg) \<noteq> None then (cfg, fs)
      else (case tofu_tick lb senv path seen cfg fs of
              Some r \<Rightarrow> r
            | None \<Rightarrow> tofu_task lb senv path later cfg fs))"

section \<open>The stop flag\<close>

definition stop_flag :: "(string \<Rightarrow> string option) \<Rightarrow> NodeConfig \<Rightarrow> string" where
  "stop_flag env c = path_join (config_data_dir env c) ''stop.flag''"

definition clear_stop_flag :: "(string \<Rightarrow> string option) \<Rightarrow> NodeConfig \<Rightarrow> files \<Rightarrow> files" where
  "clear_stop_flag env c fs = fs(stop_flag env c := None)"

text \<open>One round of the watcher: whether it stopped the engine.\<close>

definition stop_flag_tick :: "(string \<Rightarrow> string option) \<Rightarrow> NodeConfig \<Rightarrow> files \<Rightarrow> Engine \<Rightarrow> bool \<times> files \<times> Engine" where
  "stop_flag_tick env c fs s =
     (if fs (stop_flag env c) \<noteq> None
      then (True, clear_stop_flag env c fs, request_stop StopReason.Stopped s)
      else (False, fs, s))"

text \<open>
  supervisor.rs data\_dir\_of, the master's loose reading of the same directory, and the flag it
  writes to stop its worker.
\<close>

definition data_dir_of :: "(string \<Rightarrow> string option) \<Rightarrow> (string \<Rightarrow> Json option) \<Rightarrow> string \<Rightarrow> files \<Rightarrow> string" where
  "data_dir_of env from_str path fs =
     (case Option.bind (from_str (case fs path of Some t \<Rightarrow> t | None \<Rightarrow> []))
             (\<lambda>v. nonempty_str (json_at ''dataDir'' v)) of
        Some d \<Rightarrow> d | None \<Rightarrow> default_data_dir env)"

definition write_stop_flag :: "(string \<Rightarrow> string option) \<Rightarrow> (string \<Rightarrow> Json option) \<Rightarrow> string \<Rightarrow> files \<Rightarrow> files" where
  "write_stop_flag env from_str path fs = fs(path_join (data_dir_of env from_str path fs) ''stop.flag'' \<mapsto> [])"

text \<open>
  The flag a master writes is the one its worker looks for: the next round of the watcher stops
  the engine and takes the flag away.
\<close>
theorem master_stops_worker:
  assumes "fs path = Some txt" and "from_str txt = Some j" and "read_config sdec j = Some c"
  shows "stop_flag_tick env c (write_stop_flag env from_str path fs) s
       = (True, clear_stop_flag env c fs, request_stop StopReason.Stopped s)"
proof -
  have "data_dir_of env from_str path fs = config_data_dir env c"
    using loose_members(2) [OF assms(3)] by (simp add: data_dir_of_def config_data_dir_def assms(1,2))
  then show ?thesis
    by (simp add: write_stop_flag_def stop_flag_tick_def stop_flag_def clear_stop_flag_def)
qed

section \<open>status.json\<close>

record NetworkStatus =
  ns_network :: string
  ns_ip :: string
  ns_cidr :: string

record PeerStatus =
  ps_network :: string
  ps_name :: string
  ps_ip :: string
  ps_online :: bool
  ps_path :: string
  ps_endpoint :: string
  ps_rtt_ms :: int
  ps_tx_bytes :: u64
  ps_rx_bytes :: u64
  ps_tx_packets :: u64
  ps_rx_packets :: u64

record StatusReport =
  sp_running :: bool
  sp_pid :: u32
  sp_started_at :: millis
  sp_uptime_sec :: int
  sp_server :: string
  sp_networks :: "NetworkStatus list"
  sp_mode :: string
  sp_udp_port :: u16
  sp_observed_endpoint :: "string option"
  sp_socks :: "string option"
  sp_forwards :: "string list"
  sp_peers :: "PeerStatus list"

definition network_status :: "NetworkCtx \<Rightarrow> NetworkStatus" where
  "network_status c =
     \<lparr>ns_network = nc_name c,
      ns_ip = (case nc_self_ip c of Some i \<Rightarrow> show_ipv4 i | None \<Rightarrow> []),
      ns_cidr = (case nc_cidr c of Some d \<Rightarrow> cidr_display d | None \<Rightarrow> [])\<rparr>"

definition endpoint_text :: "(SocketAddr \<Rightarrow> string) \<Rightarrow> PeerSession \<Rightarrow> string" where
  "endpoint_text show_addr p =
     (case se_direct_endpoint p of Some (e, _) \<Rightarrow> show_addr e | None \<Rightarrow> ''relay'')"

definition peer_status :: "(bytes \<Rightarrow> string) \<Rightarrow> (SocketAddr \<Rightarrow> string) \<Rightarrow> Engine \<Rightarrow> PeerSession \<Rightarrow> PeerStatus" where
  "peer_status hexenc show_addr s p =
     \<lparr>ps_network = network_name hexenc s (se_network_id_hint p), ps_name = se_name p,
      ps_ip = show_ipv4 (se_virtual_ip p), ps_online = se_online p, ps_path = path_kind_str (se_current_path p),
      ps_endpoint = endpoint_text show_addr p, ps_rtt_ms = se_rtt_ms p, ps_tx_bytes = se_tx_bytes p,
      ps_rx_bytes = se_rx_bytes p, ps_tx_packets = se_tx_packets p, ps_rx_packets = se_rx_packets p\<rparr>"

definition forward_text :: "ForwardRule \<Rightarrow> string" where
  "forward_text f = proto_kind_str (fr_proto f) @ '' '' @ fr_listen f @ ''->'' @ fr_dest f"

definition uptime_secs :: "millis \<Rightarrow> millis \<Rightarrow> int" where
  "uptime_secs started now =
     (if started \<le> now then (now - started) div 1000 else - ((started - now) div 1000))"

definition status_report ::
  "(bytes \<Rightarrow> string) \<Rightarrow> (SocketAddr \<Rightarrow> string) \<Rightarrow> u32 \<Rightarrow> millis \<Rightarrow> millis \<Rightarrow> NodeConfig \<Rightarrow> u16 \<Rightarrow> Engine \<Rightarrow> StatusReport" where
  "status_report hexenc show_addr pid started now cfg socks_port s =
     \<lparr>sp_running = True, sp_pid = pid, sp_started_at = started, sp_uptime_sec = uptime_secs started now,
      sp_server = nf_server cfg, sp_networks = map (network_status \<circ> snd) (en_networks s),
      sp_mode = client_mode_str (en_runtime_mode s), sp_udp_port = en_udp_local_port s,
      sp_observed_endpoint = en_observed_endpoint s,
      sp_socks = (if 0 < socks_port then Some (''127.0.0.1:'' @ dec_of_nat (unat socks_port)) else None),
      sp_forwards = map forward_text (en_runtime_forwards s),
      sp_peers = map (\<lambda>(_, h). peer_status hexenc show_addr s (sess s h)) (en_peers s)\<rparr>"

section \<open>Statistics in the log\<close>

datatype StatLine = NoPeers int | PeerLine PeerStatus int

definition log_stats ::
  "(bytes \<Rightarrow> string) \<Rightarrow> (SocketAddr \<Rightarrow> string) \<Rightarrow> millis \<Rightarrow> millis \<Rightarrow> Engine \<Rightarrow> StatLine list" where
  "log_stats hexenc show_addr started now s =
     (let uptime = uptime_secs started now in
      if en_peers s = [] then [NoPeers uptime]
      else map (\<lambda>((net_id, _), h).
             PeerLine ((peer_status hexenc show_addr s (sess s h))\<lparr>ps_network := network_name hexenc s net_id\<rparr>) uptime)
           (en_peers s))"

section \<open>Addresses of the interfaces\<close>

definition is_link_local :: "u32 \<Rightarrow> bool" where
  "is_link_local ip = (octet ip 3 = 169 \<and> octet ip 2 = 254)"

definition announced_address :: "u32 \<Rightarrow> bool" where
  "announced_address ip = (\<not> is_link_local ip \<and> octet ip 3 \<noteq> 127 \<and> ip \<noteq> 0)"

text \<open>The address family of an entry and its address; sort and dedup are by the text.\<close>

definition local_ipv4_addrs :: "(nat \<times> u32) option list \<Rightarrow> string list" where
  "local_ipv4_addrs entries =
     remdups_adj (sort_key (\<lambda>t. map of_char t :: nat list)
       (map show_ipv4 (filter announced_address
         (List.map_filter (\<lambda>e. case e of Some (family, ip) \<Rightarrow> if family = 2 then Some ip else None | None \<Rightarrow> None)
            entries))))"

section \<open>What a first use leads to\<close>

text \<open>
  After a node without a pin has met a server whose certificate no public chain vouches for, its
  file holds the fingerprint of that certificate, and a node started from the file connects
  to this certificate and no other.
\<close>
theorem tofu_pin_persists:
  assumes "id_server_cert_pin (nf_identity cfg) = None" and "starts_with ''https://'' (trim_end_slash (nf_server cfg))"
    and "\<not> lb_ca_ok lb c0" and "connect lb c0 (control_of_config cfg) = (ok, control)"
    and "tofu_task lb senv path [cc_tofu_fingerprint control] cfg fs = (cfg', fs')"
    and "sv_mkdir senv" and "sv_write senv" and "config_validate cfg = None"
    and "\<forall>s. \<exists>t. lb_senc lb s = Inr t \<and> lb_sdec lb t = Inr s"
    and "\<forall>j. write_config (lb_senc lb) cfg' = Inr j \<longrightarrow> lb_from_str lb (lb_to_text lb j) = Some j"
  shows "ok \<and> config_load (lb_from_str lb) (lb_sdec lb) path fs' = Inr cfg'
    \<and> (\<forall>cert. fst (connect lb cert (control_of_config cfg')) \<longleftrightarrow> eq_ignore_ascii_case (lb_fp lb cert) (lb_fp lb c0))"
proof -
  have c: "ok" "cc_tofu_fingerprint control = Some (lb_fp lb c0)"
    using assms(1-4) by (auto simp: connect_def control_of_config_def control_new_def verify_server_cert_def
        verify_pinned_def verify_unpinned_def fingerprint_of_def Let_def)
  let ?cfg = "cfg\<lparr>nf_identity := (nf_identity cfg)\<lparr>id_server_cert_pin := Some (lb_fp lb c0)\<rparr>\<rparr>"
  have s: "\<forall>s. \<exists>t. lb_senc lb s = Inr t" using assms(9) by blast
  obtain fs1 where fs1: "config_save (lb_to_text lb) (lb_senc lb) senv path ?cfg fs = Inr fs1"
    using config_save_ok [OF assms(6,7) s] by blast
  have r: "cfg' = ?cfg" "fs' = fs1"
    using assms(1,5) by (simp_all add: c(2) tofu_tick_def Let_def fs1)
  obtain j where j: "write_config (lb_senc lb) ?cfg = Inr j" "fs1 = fs(path \<mapsto> lb_to_text lb j)"
    using fs1 by (auto simp: config_save_def split: if_splits sum.splits)
  have "read_config (lb_sdec lb) j = Some ?cfg"
    by (rule read_write_config [OF j(1)]) (metis assms(9) sum.inject(2))
  moreover have "config_validate ?cfg = None" using assms(8) by (simp add: config_validate_def)
  ultimately have "config_load (lb_from_str lb) (lb_sdec lb) path fs' = Inr cfg'"
    using assms(10) j by (simp add: r config_load_def)
  moreover have "fst (connect lb cert (control_of_config cfg')) \<longleftrightarrow> eq_ignore_ascii_case (lb_fp lb cert) (lb_fp lb c0)" for cert
    using connect_pinned [OF assms(2)] by (simp add: r control_of_config_def)
  ultimately show ?thesis using c(1) by simp
qed

text \<open>
  The status file names exactly the networks and peers of the engine, and none is left once the
  engine was told to stop.
\<close>

lemma status_lists_peers:
  "length (sp_peers (status_report h a pid t0 t cfg port s)) = length (en_peers s)"
  "map ns_network (sp_networks (status_report h a pid t0 t cfg port s)) = map (nc_name \<circ> snd) (en_networks s)"
  by (simp_all add: status_report_def network_status_def comp_def)

lemma stop_flag_consumed:
  assumes "stop_flag_tick env c fs s = (stopped, fs', t)" and "\<not> en_stopping s"
  shows "stopped \<longleftrightarrow> en_stopping t" and "fs' (stop_flag env c) = None"
    and "stopped \<Longrightarrow> en_out t = en_out s @ [Log EngineStopping, RemoveStatusFile, BroadcastStopped]"
  using assms by (auto simp: stop_flag_tick_def clear_stop_flag_def request_stop_def emit_def split: if_splits)

lemma announced_not_local: "t \<in> set (local_ipv4_addrs es) \<Longrightarrow> \<exists>ip. t = show_ipv4 ip \<and> announced_address ip"
  by (auto simp: local_ipv4_addrs_def)

end
