(* ===== verification/AdminClient.thy ===== *)
theory AdminClient
  imports NodeFile AppSecurity
begin

text \<open>
  The administrator's command line: crates/skiff-server/src/admin\_cli.rs, the REST client of the
  admin API with its certificate rules, and cmd\_admin of crates/skiff-server/src/main.rs. The
  HTTP library is a function from a request to its answer; what is printed on success is left out
  but for the values taken from the answer.
\<close>

section \<open>The client\<close>

datatype CliTrust = PinOnly string | AcceptAll | SystemTrust

record AdminCli =
  ac_server :: string
  ac_token :: string
  ac_trust :: CliTrust

definition admin_cli_new :: "string \<Rightarrow> string \<Rightarrow> AdminCli" where
  "admin_cli_new server token =
     (let server = trim_end_slash server; (bare, fingerprint) = split_token token in
      \<lparr>ac_server = server, ac_token = bare,
       ac_trust = (if starts_with ''https://'' server
                   then (case fingerprint of Some fp \<Rightarrow> PinOnly (map ascii_lower fp) | None \<Rightarrow> AcceptAll)
                   else SystemTrust)\<rparr>)"

text \<open>The two verifiers; a client without TLS of its own has none.\<close>

definition cli_verify :: "(bytes \<Rightarrow> string) \<Rightarrow> CliTrust \<Rightarrow> bytes \<Rightarrow> bool" where
  "cli_verify fp trust cert =
     (case trust of
        PinOnly pin \<Rightarrow> eq_ignore_ascii_case (fp cert) pin
      | AcceptAll \<Rightarrow> True
      | SystemTrust \<Rightarrow> True)"

datatype Method = GET | POST | PUT | DELETE

record CliRequest =
  cq_method :: Method
  cq_url :: string
  cq_admin_token :: string
  cq_body :: "Json option"

definition cli_request :: "AdminCli \<Rightarrow> Method \<Rightarrow> string \<Rightarrow> Json option \<Rightarrow> CliRequest" where
  "cli_request c meth path body =
     \<lparr>cq_method = meth, cq_url = ac_server c @ path, cq_admin_token = ac_token c, cq_body = body\<rparr>"

text \<open>An answer: its status and the body as JSON where it is that.\<close>

record CliAnswer =
  ca_status :: nat
  ca_json :: "Json option"

datatype CliError =
    RequestNotSent
  | AnsweredStatus nat
  | AnswerNotJson
  | NoSuchNetwork string
  | NoTokenField
  | SettingsNotJson

definition cli_success :: "nat \<Rightarrow> bool" where
  "cli_success st = (200 \<le> st \<and> st < 300)"

type_synonym http = "CliRequest \<Rightarrow> CliAnswer option"

definition expect_ok :: "http \<Rightarrow> CliRequest \<Rightarrow> CliError option" where
  "expect_ok http q =
     (case http q of
        None \<Rightarrow> Some RequestNotSent
      | Some a \<Rightarrow> if cli_success (ca_status a) then None else Some (AnsweredStatus (ca_status a)))"

text \<open>get\_json, get\_json\_by\_method and post\_json: the answer must be JSON, whatever its status.\<close>

definition ask_json :: "http \<Rightarrow> CliRequest \<Rightarrow> CliError + Json" where
  "ask_json http q =
     (case http q of
        None \<Rightarrow> Inl RequestNotSent
      | Some a \<Rightarrow>
          (case ca_json a of
             None \<Rightarrow> Inl AnswerNotJson
           | Some v \<Rightarrow> if \<not> cli_success (ca_status a) then Inl (AnsweredStatus (ca_status a)) else Inr v))"

definition only_error :: "CliError + 'a \<Rightarrow> CliError option" where
  "only_error r = (case r of Inl e \<Rightarrow> Some e | Inr _ \<Rightarrow> None)"

section \<open>Commands\<close>

fun as_array :: "Json \<Rightarrow> Json list option" where
  "as_array (JArr l) = Some l"
| "as_array _ = None"

text \<open>The id of a network given by name: that of the first one of that name in the list.\<close>

definition network_named :: "string \<Rightarrow> Json \<Rightarrow> string option" where
  "network_named name v =
     Option.bind (as_array v) (\<lambda>ns.
       Option.bind (List.find (\<lambda>n. as_string (json_at ''name'' n) = Some name) ns)
         (\<lambda>n. as_string (json_at ''id'' n)))"

definition look_up_network :: "http \<Rightarrow> string \<Rightarrow> AdminCli \<Rightarrow> CliError + string" where
  "look_up_network http name c =
     (case ask_json http (cli_request c GET ''/admin/networks'' None) of
        Inl e \<Rightarrow> Inl e
      | Inr v \<Rightarrow> (case network_named name v of
                    Some i \<Rightarrow> Inr i | None \<Rightarrow> Inl (NoSuchNetwork name)))"

definition cli_network_id :: "http \<Rightarrow> string \<Rightarrow> AdminCli \<Rightarrow> CliError + string" where
  "cli_network_id http network c =
     (if looks_like_netid network then Inr (map ascii_lower network) else look_up_network http network c)"

text \<open>network\_remove and device\_set\_ip keep the case of an id they are given.\<close>

definition network_id_as_given :: "http \<Rightarrow> string \<Rightarrow> AdminCli \<Rightarrow> CliError + string" where
  "network_id_as_given http network c =
     (if looks_like_netid network then Inr network else look_up_network http network c)"

definition network_list :: "http \<Rightarrow> AdminCli \<Rightarrow> CliError option" where
  "network_list http c = only_error (ask_json http (cli_request c GET ''/admin/networks'' None))"

definition network_create :: "http \<Rightarrow> string \<Rightarrow> string \<Rightarrow> AdminCli \<Rightarrow> CliError option" where
  "network_create http name cidr c =
     only_error (ask_json http (cli_request c POST ''/admin/networks''
       (Some (JObj [(''name'', JStr name), (''cidr'', JStr cidr)]))))"

definition network_remove :: "http \<Rightarrow> string \<Rightarrow> AdminCli \<Rightarrow> CliError option" where
  "network_remove http name_or_id c =
     (case network_id_as_given http name_or_id c of
        Inl e \<Rightarrow> Some e
      | Inr i \<Rightarrow> expect_ok http (cli_request c DELETE (''/admin/networks/'' @ i) None))"

definition token_list :: "http \<Rightarrow> AdminCli \<Rightarrow> CliError option" where
  "token_list http c = only_error (ask_json http (cli_request c GET ''/admin/tokens'' None))"

definition token_create :: "http \<Rightarrow> string \<Rightarrow> int \<Rightarrow> int \<Rightarrow> string option \<Rightarrow> AdminCli \<Rightarrow> CliError option" where
  "token_create http network uses hours ip c =
     only_error (ask_json http (cli_request c POST ''/admin/tokens''
       (Some (JObj ([(''network'', JStr network), (''uses'', JNum uses), (''expiresInHours'', JNum hours)]
                    @ optional_member ''requestedIp'' ip)))))"

definition token_revoke :: "http \<Rightarrow> string \<Rightarrow> AdminCli \<Rightarrow> CliError option" where
  "token_revoke http token c = expect_ok http (cli_request c DELETE (''/admin/tokens/'' @ token) None)"

definition device_path :: "u64 \<Rightarrow> string \<Rightarrow> string" where
  "device_path i rest = ''/admin/devices/'' @ dec_of_nat (unat i) @ rest"

definition device_list :: "http \<Rightarrow> AdminCli \<Rightarrow> CliError option" where
  "device_list http c = only_error (ask_json http (cli_request c GET ''/admin/devices'' None))"

definition device_remove :: "http \<Rightarrow> u64 \<Rightarrow> AdminCli \<Rightarrow> CliError option" where
  "device_remove http i c = expect_ok http (cli_request c DELETE (device_path i []) None)"

definition device_set_ip :: "http \<Rightarrow> string \<Rightarrow> string \<Rightarrow> string \<Rightarrow> AdminCli \<Rightarrow> CliError option" where
  "device_set_ip http device network ip c =
     (case network_id_as_given http network c of
        Inl e \<Rightarrow> Some e
      | Inr i \<Rightarrow> expect_ok http (cli_request c POST (''/admin/networks/'' @ i @ ''/devices/'' @ device @ ''/ip'')
                   (Some (JObj [(''ip'', JStr ip)]))))"

definition device_settings_get :: "http \<Rightarrow> u64 \<Rightarrow> AdminCli \<Rightarrow> CliError option" where
  "device_settings_get http i c = only_error (ask_json http (cli_request c GET (device_path i ''/settings'') None))"

definition device_settings_set ::
  "(string \<Rightarrow> Json option) \<Rightarrow> http \<Rightarrow> u64 \<Rightarrow> string \<Rightarrow> AdminCli \<Rightarrow> CliError option" where
  "device_settings_set from_str http i json c =
     (case from_str json of
        None \<Rightarrow> Some SettingsNotJson
      | Some v \<Rightarrow> expect_ok http (cli_request c PUT (device_path i ''/settings'') (Some v)))"

definition device_restart :: "http \<Rightarrow> u64 \<Rightarrow> AdminCli \<Rightarrow> CliError option" where
  "device_restart http i c = expect_ok http (cli_request c POST (device_path i ''/restart'') None)"

definition device_rename :: "http \<Rightarrow> u64 \<Rightarrow> string \<Rightarrow> AdminCli \<Rightarrow> CliError option" where
  "device_rename http i name c =
     expect_ok http (cli_request c PUT (device_path i ''/name'') (Some (JObj [(''name'', JStr name)])))"

definition rotate_token :: "http \<Rightarrow> AdminCli \<Rightarrow> CliError + string" where
  "rotate_token http c =
     (case ask_json http (cli_request c POST ''/admin/rotate-token'' None) of
        Inl e \<Rightarrow> Inl e
      | Inr v \<Rightarrow>
          (case as_string (json_at ''token'' v) of
             Some t \<Rightarrow> Inr t | None \<Rightarrow> Inl NoTokenField))"

definition device_network_add :: "http \<Rightarrow> u64 \<Rightarrow> string \<Rightarrow> string option \<Rightarrow> AdminCli \<Rightarrow> CliError option" where
  "device_network_add http i network ip c =
     (case cli_network_id http network c of
        Inl e \<Rightarrow> Some e
      | Inr net_id \<Rightarrow>
          expect_ok http (cli_request c POST (device_path i ''/networks'')
            (Some (JObj [(''network'', JStr net_id),
                         (''requestedIp'', (case ip of Some a \<Rightarrow> JStr a | None \<Rightarrow> JNull))]))))"

definition device_network_remove :: "http \<Rightarrow> u64 \<Rightarrow> string \<Rightarrow> AdminCli \<Rightarrow> CliError option" where
  "device_network_remove http i network c =
     (case cli_network_id http network c of
        Inl e \<Rightarrow> Some e
      | Inr net_id \<Rightarrow> expect_ok http (cli_request c DELETE (device_path i (''/networks/'' @ net_id)) None))"

definition device_reconnect :: "http \<Rightarrow> u64 \<Rightarrow> AdminCli \<Rightarrow> CliError option" where
  "device_reconnect http i c = expect_ok http (cli_request c POST (device_path i ''/reconnect'') None)"

section \<open>The command line\<close>

datatype AdminCmd =
    NetworkList | NetworkCreate string string | NetworkRemove string
  | TokenList | TokenCreate string int int "string option" | TokenRevoke string
  | DeviceList | DeviceRemove u64 | DeviceSetIp string string string
  | DeviceSettingsGet u64 | DeviceSettingsSet u64 string
  | DeviceNetworkAdd u64 string "string option" | DeviceNetworkRemove u64 string
  | DeviceRestart u64 | DeviceReconnect u64 | DeviceRename u64 string
  | RotateToken

datatype AdminEnd = CmdOk | CmdFailed CliError | SettingsFileUnreadable | NewToken string

definition plain_end :: "CliError option \<Rightarrow> AdminEnd" where
  "plain_end r = (case r of None \<Rightarrow> CmdOk | Some e \<Rightarrow> CmdFailed e)"

text \<open>A text of settings that begins with @ names a file.\<close>

definition settings_text :: "files \<Rightarrow> string \<Rightarrow> string option" where
  "settings_text fs json =
     (case strip_prefix ''@'' json of
        Some path \<Rightarrow> map_option str_trim (fs path)
      | None \<Rightarrow> Some json)"

fun admin_command ::
  "(string \<Rightarrow> Json option) \<Rightarrow> files \<Rightarrow> http \<Rightarrow> AdminCli \<Rightarrow> AdminCmd \<Rightarrow> AdminEnd" where
  "admin_command from_str fs http c NetworkList = plain_end (network_list http c)"
| "admin_command from_str fs http c (NetworkCreate name cidr) = plain_end (network_create http name cidr c)"
| "admin_command from_str fs http c (NetworkRemove n) = plain_end (network_remove http n c)"
| "admin_command from_str fs http c TokenList = plain_end (token_list http c)"
| "admin_command from_str fs http c (TokenCreate n u h ip) = plain_end (token_create http n u h ip c)"
| "admin_command from_str fs http c (TokenRevoke t) = plain_end (token_revoke http t c)"
| "admin_command from_str fs http c DeviceList = plain_end (device_list http c)"
| "admin_command from_str fs http c (DeviceRemove i) = plain_end (device_remove http i c)"
| "admin_command from_str fs http c (DeviceSetIp d n ip) = plain_end (device_set_ip http d n ip c)"
| "admin_command from_str fs http c (DeviceSettingsGet i) = plain_end (device_settings_get http i c)"
| "admin_command from_str fs http c (DeviceSettingsSet i json) =
     (case settings_text fs json of
        None \<Rightarrow> SettingsFileUnreadable
      | Some txt \<Rightarrow> plain_end (device_settings_set from_str http i txt c))"
| "admin_command from_str fs http c (DeviceNetworkAdd i n ip) = plain_end (device_network_add http i n ip c)"
| "admin_command from_str fs http c (DeviceNetworkRemove i n) = plain_end (device_network_remove http i n c)"
| "admin_command from_str fs http c (DeviceRestart i) = plain_end (device_restart http i c)"
| "admin_command from_str fs http c (DeviceReconnect i) = plain_end (device_reconnect http i c)"
| "admin_command from_str fs http c (DeviceRename i name) = plain_end (device_rename http i name c)"
| "admin_command from_str fs http c RotateToken =
     (case rotate_token http c of Inl e \<Rightarrow> CmdFailed e | Inr t \<Rightarrow> NewToken t)"

definition cmd_admin ::
  "(string \<Rightarrow> Json option) \<Rightarrow> files \<Rightarrow> http \<Rightarrow> string \<Rightarrow> string \<Rightarrow> AdminCmd \<Rightarrow> AdminEnd" where
  "cmd_admin from_str fs http server token cmd = admin_command from_str fs http (admin_cli_new server token) cmd"

section \<open>Trust\<close>

text \<open>
  The administrator's client takes the certificate its token names and no other, also on its first
  connection, and sends the token without the fingerprint.
\<close>

lemma cli_pins_first_connection:
  assumes "starts_with ''https://'' (trim_end_slash server)" and "split_token token = (bare, Some f)"
  shows "cli_verify fp (ac_trust (admin_cli_new server token)) cert = eq_ignore_ascii_case (fp cert) f"
    and "ac_token (admin_cli_new server token) = bare"
  using assms by (simp_all add: admin_cli_new_def cli_verify_def Let_def)

section \<open>Removing a network by its name\<close>

text \<open>What the server makes of a request of the client, and the list it answers with.\<close>

definition admin_req :: "AdminCli \<Rightarrow> Req" where
  "admin_req c = \<lparr>rq_authorization = None, rq_admin_token = Some (ac_token c), rq_query = None,
                  rq_network = None, rq_token = None\<rparr>"

text \<open>The list in JSON: of its members the client reads the name and the id.\<close>

definition network_json :: "Coders \<Rightarrow> AdminNetwork \<Rightarrow> Json" where
  "network_json cd n = JObj [(''id'', JStr (cd_hexenc cd (an_id n))), (''name'', JStr (an_name n))]"

definition listed_networks :: "Coders \<Rightarrow> Response \<Rightarrow> Json option" where
  "listed_networks cd r =
     (case rs_body r of NetworksBody l \<Rightarrow> Some (JArr (map (network_json cd) l)) | _ \<Rightarrow> None)"

lemma find_distinct:
  assumes "distinct (map f xs)" and "x \<in> set xs"
  shows "List.find (\<lambda>y. f y = f x) xs = Some x"
proof -
  obtain y where y: "List.find (\<lambda>y. f y = f x) xs = Some y"
    using assms(2) by (cases "List.find (\<lambda>y. f y = f x) xs") (auto simp: find_None_iff)
  then have "y \<in> set xs" "f y = f x" by (auto simp: find_Some_iff)
  then show ?thesis using y assms by (metis distinct_map inj_on_eq_iff)
qed

lemma find_mapped: "List.find P (map f xs) = map_option f (List.find (P \<circ> f) xs)"
  by (induction xs) auto

text \<open>
  A network removed by name on the command line is the network of that name: the request the
  client ends with makes the server delete it with its memberships and tokens and nothing else.
  A name of 32 hexadecimal digits, which a network may have, is taken for an id instead, and
  the network that has this id is the one deleted.
\<close>
theorem cli_removes_named_network:
  assumes "auth_admin (admin_req c) s" and "distinct (map nr_name (rp_networks (ap_repo s)))"
    and "net \<in> set (rp_networks (ap_repo s))" and "nr_name net = name"
    and "length (nr_id net) = 16" and "cd_hexdec cd (cd_hexenc cd (nr_id net)) = Some (nr_id net)"
    and "http (cli_request c GET ''/admin/networks'' None) =
           Some \<lparr>ca_status = 200, ca_json = listed_networks cd (admin_list_networks (admin_req c) s)\<rparr>"
  shows "network_remove http name c = expect_ok http (cli_request c DELETE (''/admin/networks/'' @
           (if looks_like_netid name then name else cd_hexenc cd (nr_id net))) None)
    \<and> fst (admin_delete_network cd (admin_req c) (cd_hexenc cd (nr_id net)) s) = ok_json OkText
    \<and> ap_repo (snd (admin_delete_network cd (admin_req c) (cd_hexenc cd (nr_id net)) s))
        = (ap_repo s)\<lparr>rp_memberships := filter (\<lambda>m. mb_network_id m \<noteq> nr_id net) (rp_memberships (ap_repo s)),
            rp_tokens := filter (\<lambda>t. tk_network_id t \<noteq> nr_id net) (rp_tokens (ap_repo s)),
            rp_networks := filter (\<lambda>n. nr_id n \<noteq> nr_id net) (rp_networks (ap_repo s))\<rparr>"
proof -
  let ?l = "list_networks (ap_repo s)"
  have d: "distinct (map nr_name ?l)" "net \<in> set ?l"
    using assms(2,3) by (simp_all add: list_networks_def distinct_map)
  have "List.find (\<lambda>n. nr_name n = name) ?l = Some net"
    using find_distinct [OF d] assms(4) by simp
  then obtain v where "listed_networks cd (admin_list_networks (admin_req c) s) = Some v"
      "network_named name v = Some (cd_hexenc cd (nr_id net))"
    using assms(1) by (simp add: network_named_def listed_networks_def admin_list_networks_def ok_json_def resp_def
        find_mapped network_to_admin_def network_json_def comp_def)
  then have "network_id_as_given http name c = Inr (if looks_like_netid name then name else cd_hexenc cd (nr_id net))"
    by (simp add: network_id_as_given_def look_up_network_def ask_json_def assms(7) cli_success_def)
  moreover have "filter (\<lambda>n. nr_id n = nr_id net) (rp_networks (ap_repo s)) \<noteq> []"
    using assms(3) by (auto simp: filter_empty_conv)
  ultimately show ?thesis
    using assms(1,5,6) by (simp add: network_remove_def admin_delete_network_def netid_from_hex_def delete_network_def
        on_hub_def Let_def)
qed

definition demo_cli_coders :: Coders where
  "demo_cli_coders = \<lparr>cd_hash = id, cd_hexenc = (\<lambda>_. ''h''), cd_hexdec = (\<lambda>_. Some (replicate 16 1)),
                      cd_json = (\<lambda>_. []), cd_unjson = (\<lambda>_. None)\<rparr>"

definition demo_net :: NetworkRow where
  "demo_net = \<lparr>nr_id = replicate 16 1, nr_name = ''a'', nr_cidr = [], nr_created_at = 0\<rparr>"

definition demo_networked :: AppState where
  "demo_networked = demo_server\<lparr>ap_repo := (ap_repo demo_server)\<lparr>rp_networks := [demo_net]\<rparr>\<rparr>"

theorem cli_removes_named_network_witness:
  "let c = admin_cli_new ''https://s'' ''ska_a'';
       http = (\<lambda>_. Some \<lparr>ca_status = 200,
                ca_json = listed_networks demo_cli_coders (admin_list_networks (admin_req c) demo_networked)\<rparr>)
   in network_remove http ''a'' c = expect_ok http (cli_request c DELETE ''/admin/networks/h'' None)
      \<and> rp_networks (ap_repo (snd (admin_delete_network demo_cli_coders (admin_req c) ''h'' demo_networked))) = []"
proof -
  let ?c = "admin_cli_new ''https://s'' ''ska_a''"
  have "ac_token ?c = ''ska_a''" by (simp add: admin_cli_new_def Let_def)
  then have a: "auth_admin (admin_req ?c) demo_networked"
    by (simp add: auth_admin_iff admin_req_def demo_networked_def)
  have l: "\<not> looks_like_netid ''a''" by (simp add: looks_like_netid_def as_bytes_def)
  show ?thesis
    using cli_removes_named_network [OF a, of demo_net "''a''" demo_cli_coders,
        of "\<lambda>_. Some \<lparr>ca_status = 200,
             ca_json = listed_networks demo_cli_coders (admin_list_networks (admin_req ?c) demo_networked)\<rparr>"] l
    by (simp add: demo_networked_def demo_net_def demo_cli_coders_def Let_def)
qed

end
