(* ===== verification/ServerTls.thy ===== *)
theory ServerTls
  imports Repo
begin

text \<open>
  crates/skiff-server/src/tls.rs: where the server's certificate comes from. Reading files,
  generating a certificate, decoding PEM, building the rustls configuration and SHA-256 with hex
  coding are parameters.
\<close>

text \<open>str::find with a text pattern, as a byte index.\<close>

fun find_str :: "string \<Rightarrow> string \<Rightarrow> nat option" where
  "find_str p [] = (if p = [] then Some 0 else None)"
| "find_str p (c # s) = (if starts_with p (c # s) then Some 0 else map_option Suc (find_str p s))"

definition TLS_SETTING_KEY :: string where "TLS_SETTING_KEY = ''tls_pem''"
definition END_CERTIFICATE :: string where "END_CERTIFICATE = ''-----END CERTIFICATE-----''"
definition PEM_BEGIN :: string where "PEM_BEGIN = ''-----BEGIN''"

definition split_pem_bundle :: "string \<Rightarrow> (string \<times> string) option" where
  "split_pem_bundle blob = do {
     cert_end \<leftarrow> find_str END_CERTIFICATE blob;
     off \<leftarrow> find_str PEM_BEGIN (drop (cert_end + 1) blob);
     let key_begin = off + cert_end + 1;
     Some (take (cert_end + length END_CERTIFICATE) blob @ [CHR 0x0A], drop key_begin blob) }"

datatype CertError = CertIo | CertParse | CertGenerate

record TlsLib =
  tl_read :: "string \<Rightarrow> string option"
  tl_generate :: "(string \<times> string) option"
  tl_build :: "string \<Rightarrow> string \<Rightarrow> bool"
  tl_der :: "string \<Rightarrow> bytes option"
  tl_fp :: "bytes \<Rightarrow> string"

text \<open>The texts of certificate and key, and whether they are to be stored.\<close>

definition cert_source :: "TlsLib \<Rightarrow> string option \<Rightarrow> string option \<Rightarrow> Repo \<Rightarrow> CertError + string \<times> string \<times> bool" where
  "cert_source lib cert_file key_file repo =
     (case (cert_file, key_file) of
        (Some cf, Some kf) \<Rightarrow>
          (case (tl_read lib cf, tl_read lib kf) of
             (Some cert, Some key) \<Rightarrow> Inr (cert, key, False) | _ \<Rightarrow> Inl CertIo)
      | _ \<Rightarrow>
          (case get_setting TLS_SETTING_KEY repo of
             Some stored \<Rightarrow>
               (case split_pem_bundle stored of
                  Some (cert, key) \<Rightarrow> Inr (cert, key, False) | None \<Rightarrow> Inl CertParse)
           | None \<Rightarrow>
               (case tl_generate lib of
                  Some (cert, key) \<Rightarrow> Inr (cert, key, True) | None \<Rightarrow> Inl CertGenerate)))"

definition load_or_generate ::
  "TlsLib \<Rightarrow> string option \<Rightarrow> string option \<Rightarrow> Repo \<Rightarrow> (CertError + string) \<times> Repo" where
  "load_or_generate lib cert_file key_file repo =
     (case cert_source lib cert_file key_file repo of
        Inl e \<Rightarrow> (Inl e, repo)
      | Inr (cert, key, persist) \<Rightarrow>
          if \<not> tl_build lib cert key then (Inl CertParse, repo)
          else (case tl_der lib cert of
                  None \<Rightarrow> (Inl CertParse, repo)
                | Some der \<Rightarrow>
                    (Inr (tl_fp lib der),
                     if persist then set_setting TLS_SETTING_KEY (cert @ key) repo else repo)))"

section \<open>The identity survives a restart\<close>

lemma find_str_prefix: "starts_with p s \<Longrightarrow> find_str p s = Some 0"
  by (cases s) (auto simp: starts_with_take)

lemma find_key:
  "find_str PEM_BEGIN (drop 1 (END_CERTIFICATE @ [CHR 0x0A] @ PEM_BEGIN @ rest)) = Some 25"
  by (simp add: PEM_BEGIN_def END_CERTIFICATE_def starts_with_take)

text \<open>What a generated certificate looks like: one block that ends the text.\<close>

definition single_cert :: "string \<Rightarrow> bool" where
  "single_cert cert =
     (\<exists>body. cert = body @ END_CERTIFICATE @ [CHR 0x0A] \<and> find_str END_CERTIFICATE cert = Some (length body))"

lemma find_str_append: "find_str p s = Some n \<Longrightarrow> find_str p (s @ t) = Some n"
proof (induction s arbitrary: n)
  case Nil
  then have "p = []" "n = 0" by (auto split: if_splits)
  then show ?case by (cases t) (simp_all add: starts_with_take)
next
  case (Cons c s)
  show ?case
  proof (cases "starts_with p (c # s)")
    case True
    then have "starts_with p (c # s @ t)"
      by (metis append_Cons starts_with_def strip_prefix_Some not_None_eq append.assoc)
    then show ?thesis using Cons.prems True by simp
  next
    case False
    then obtain m where m: "find_str p s = Some m" "n = Suc m" using Cons.prems by auto
    have "length p \<le> length s"
      using m(1)
    proof (induction s arbitrary: m)
      case (Cons d s)
      then show ?case by (auto simp: starts_with_take split: if_splits dest: arg_cong [of _ _ length])
    qed (simp split: if_splits)
    then have "\<not> starts_with p (c # s @ t)" using False by (auto simp: starts_with_take take_Cons split: nat.splits)
    then show ?thesis using Cons.IH [OF m(1)] m(2) by simp
  qed
qed

lemma split_stored:
  assumes "single_cert cert" and "key = PEM_BEGIN @ rest"
  shows "split_pem_bundle (cert @ key) = Some (cert, key)"
proof -
  obtain body where c: "cert = body @ END_CERTIFICATE @ [CHR 0x0A]"
    and f: "find_str END_CERTIFICATE cert = Some (length body)" using assms(1) by (auto simp: single_cert_def)
  have d: "drop (length body + 1) (cert @ key) = drop 1 (END_CERTIFICATE @ [CHR 0x0A] @ PEM_BEGIN @ rest)"
    by (simp add: c assms(2))
  have l: "length END_CERTIFICATE = 25" by (simp add: END_CERTIFICATE_def)
  have k: "find_str PEM_BEGIN (drop (length body + 1) (cert @ key)) = Some 25"
    unfolding d by (rule find_key)
  show ?thesis
    unfolding split_pem_bundle_def find_str_append [OF f] Option.bind.bind_lunit k Let_def
    by (simp add: c l)
qed

text \<open>
  C22 (roundtrip). A server without certificate files generates its certificate once: the first start stores it,
  and every later start, whatever it would generate then, reads the same certificate and
  key back, has the same fingerprint and leaves the store as it is. Tokens that carry
  the fingerprint stay good.
\<close>
theorem certificate_survives_restart:
  assumes "get_setting TLS_SETTING_KEY repo = None" and "tl_generate lib = Some (cert, key)"
    and "single_cert cert" and "key = PEM_BEGIN @ rest"
    and "tl_build lib cert key" and "tl_der lib cert = Some der"
    and "load_or_generate lib None None repo = (r, repo')"
  shows "r = Inr (tl_fp lib der)
    \<and> load_or_generate (lib\<lparr>tl_generate := other\<rparr>) None None repo' = (Inr (tl_fp lib der), repo')"
proof -
  have "r = Inr (tl_fp lib der)" "repo' = set_setting TLS_SETTING_KEY (cert @ key) repo"
    using assms(1,2,5-7) by (simp_all add: load_or_generate_def cert_source_def)
  moreover have "get_setting TLS_SETTING_KEY (set_setting TLS_SETTING_KEY (cert @ key) repo) = Some (cert @ key)"
    by (simp add: get_setting_def set_setting_def table_simps)
  ultimately show ?thesis
    using assms(5,6) split_stored [OF assms(3,4)] by (simp add: load_or_generate_def cert_source_def)
qed

definition demo_tls :: TlsLib where
  "demo_tls = \<lparr>tl_read = (\<lambda>_. None), tl_generate = Some (''C'' @ END_CERTIFICATE @ [CHR 0x0A], PEM_BEGIN @ ''k''),
              tl_build = (\<lambda>_ _. True), tl_der = (\<lambda>_. Some [7]), tl_fp = (\<lambda>_. ''f'')\<rparr>"

theorem certificate_survives_restart_witness:
  "load_or_generate (demo_tls\<lparr>tl_generate := None\<rparr>) None None (snd (load_or_generate demo_tls None None repo_empty))
      = (Inr ''f'', snd (load_or_generate demo_tls None None repo_empty))"
proof -
  have s: "single_cert (''C'' @ END_CERTIFICATE @ [CHR 0x0A])"
    by (simp add: single_cert_def END_CERTIFICATE_def starts_with_take)
  have g: "get_setting TLS_SETTING_KEY repo_empty = None" by (simp add: get_setting_def repo_empty_def)
  have t: "tl_generate demo_tls = Some (''C'' @ END_CERTIFICATE @ [CHR 0x0A], PEM_BEGIN @ ''k'')"
    "tl_build demo_tls c k" "tl_der demo_tls c = Some [7]" "tl_fp demo_tls [7] = ''f''" for c k
    by (simp_all add: demo_tls_def)
  show ?thesis
    using certificate_survives_restart [OF g t(1) s refl t(2,3) surjective_pairing, of None] t(4) by simp
qed

end
