(* ===== verification/ServerStart.thy ===== *)
theory ServerStart
  imports AppProps ServerTls
begin

text \<open>
  The start of the server: crates/skiff-server/src/app.rs, start and its two listeners, and
  crates/skiff-server/src/main.rs, cmd\_init and cmd\_serve, with what they print of the
  administrator's token. Opening the database, the sockets, the random token and the TLS library
  are arguments; signals and log files are outside.
\<close>

section \<open>Starting\<close>

record ServerOptions =
  so_api_port :: u16
  so_relay_udp_port :: u16
  so_relay_tcp_port :: u16
  so_no_tls :: bool
  so_cert_file :: "string option"
  so_key_file :: "string option"

text \<open>
  What a start meets: whether the database opens, a random token, and for each port asked for the
  port that was bound.
\<close>

record ServerHost =
  hs_opens :: bool
  hs_fresh :: string
  hs_tls :: TlsLib
  hs_udp :: "u16 \<Rightarrow> u16 option"
  hs_tcp :: "u16 \<Rightarrow> u16 option"
  hs_api :: "u16 \<Rightarrow> u16 option"

datatype ServeError =
    DatabaseNotOpened | NoCertificate CertError | RelayUdpNotBound | RelayTcpNotBound | ApiNotBound

record RunningServer =
  rv_api_port :: u16
  rv_relay_udp_port :: u16
  rv_relay_tcp_port :: u16
  rv_base_url :: string
  rv_cert_fingerprint :: "string option"
  rv_admin_token :: string
  rv_admin_token_fresh :: bool
  rv_state :: AppState

definition server_cert :: "ServerOptions \<Rightarrow> ServerHost \<Rightarrow> Repo \<Rightarrow> (CertError + string option) \<times> Repo" where
  "server_cert opts h repo =
     (if so_no_tls opts then (Inr None, repo)
      else (case load_or_generate (hs_tls h) (so_cert_file opts) (so_key_file opts) repo of
              (Inl e, repo') \<Rightarrow> (Inl e, repo')
            | (Inr fp, repo') \<Rightarrow> (Inr (Some fp), repo')))"

definition url_scheme :: "ServerOptions \<Rightarrow> string" where
  "url_scheme opts = (if so_no_tls opts then ''http'' else ''https'')"

text \<open>
  start, in its order: the token is stored before the certificate is looked for and before any
  socket is bound.
\<close>

definition start_with_options ::
  "ServerOptions \<Rightarrow> ServerHost \<Rightarrow> Repo \<Rightarrow> (ServeError + RunningServer) \<times> Repo" where
  "start_with_options opts h repo =
     (if \<not> hs_opens h then (Inl DatabaseNotOpened, repo)
      else
        (case get_or_create_admin_token (hs_fresh h) repo of ((token, token_fresh), repo1) \<Rightarrow>
        (case server_cert opts h repo1 of
           (Inl e, repo2) \<Rightarrow> (Inl (NoCertificate e), repo2)
         | (Inr fp, repo2) \<Rightarrow>
             (case hs_udp h (so_relay_udp_port opts) of None \<Rightarrow> (Inl RelayUdpNotBound, repo2) | Some up \<Rightarrow>
             (case hs_tcp h (so_relay_tcp_port opts) of None \<Rightarrow> (Inl RelayTcpNotBound, repo2) | Some tp \<Rightarrow>
             (case hs_api h (so_api_port opts) of None \<Rightarrow> (Inl ApiNotBound, repo2) | Some ap \<Rightarrow>
                (Inr \<lparr>rv_api_port = ap, rv_relay_udp_port = up, rv_relay_tcp_port = tp,
                      rv_base_url = url_scheme opts @ ''://127.0.0.1:'' @ dec_of_nat (unat ap),
                      rv_cert_fingerprint = fp, rv_admin_token = token, rv_admin_token_fresh = token_fresh,
                      rv_state = server_start token up tp fp repo2\<rparr>, repo2)))))))"

section \<open>The commands\<close>

text \<open>The lines a command prints, by what they hold.\<close>

datatype Line =
    ServerUp string u16
  | RelayPorts u16 u16
  | TokenOnce string
  | TokenWithFingerprint string string
  | TokenPlaintext string
  | TokenElsewhere "string option"
  | DatabaseInitialised

definition cmd_init :: "ServerHost \<Rightarrow> Repo \<Rightarrow> (ServeError + Line list) \<times> Repo" where
  "cmd_init h repo =
     (if \<not> hs_opens h then (Inl DatabaseNotOpened, repo)
      else (case admin_token repo of
              Some _ \<Rightarrow> (Inr [DatabaseInitialised], repo)
            | None \<Rightarrow> (Inr [TokenOnce (hs_fresh h)], set_setting ''admin_token'' (hs_fresh h) repo)))"

definition token_lines :: "RunningServer \<Rightarrow> Line list" where
  "token_lines r =
     (if rv_admin_token_fresh r then
        (case rv_cert_fingerprint r of
           Some fp \<Rightarrow> [TokenOnce (rv_admin_token r), TokenWithFingerprint (rv_admin_token r) fp]
         | None \<Rightarrow> [TokenPlaintext (rv_admin_token r)])
      else [TokenElsewhere (rv_cert_fingerprint r)])"

definition cmd_serve :: "ServerOptions \<Rightarrow> ServerHost \<Rightarrow> Repo \<Rightarrow> (ServeError + Line list) \<times> Repo" where
  "cmd_serve opts h repo =
     (case start_with_options opts h repo of
        (Inl e, repo') \<Rightarrow> (Inl e, repo')
      | (Inr r, repo') \<Rightarrow>
          (Inr ([ServerUp (url_scheme opts) (rv_api_port r),
                 RelayPorts (rv_relay_udp_port r) (rv_relay_tcp_port r)] @ token_lines r), repo'))"

section \<open>The listeners\<close>

text \<open>
  What accept gives the HTTP server over time. The plain listener never returns from an accept that
  failed; the accept loop behind the TLS listener ends with it and closes the channel, after which the
  listener waits forever. Connections whose handshake fails are dropped.
\<close>

datatype 'c Accept = Accepted 'c | AcceptFailed

fun plain_accept :: "'c Accept list \<Rightarrow> 'c list" where
  "plain_accept [] = []"
| "plain_accept (AcceptFailed # _) = []"
| "plain_accept (Accepted c # later) = c # plain_accept later"

fun tls_accept :: "('c \<Rightarrow> 's option) \<Rightarrow> 'c Accept list \<Rightarrow> 's list" where
  "tls_accept handshake [] = []"
| "tls_accept handshake (AcceptFailed # _) = []"
| "tls_accept handshake (Accepted c # later) =
     (case handshake c of Some s \<Rightarrow> s # tls_accept handshake later | None \<Rightarrow> tls_accept handshake later)"

text \<open>One failed accept, as when the process is out of file descriptors, and the server answers nobody again.\<close>

lemma accept_failure_is_final:
  "plain_accept (before @ AcceptFailed # later) = plain_accept before"
  "tls_accept handshake (before @ AcceptFailed # later) = tls_accept handshake before"
proof -
  show "plain_accept (before @ AcceptFailed # later) = plain_accept before"
    by (induction before rule: plain_accept.induct) simp_all
  show "tls_accept handshake (before @ AcceptFailed # later) = tls_accept handshake before"
    by (induction handshake before rule: tls_accept.induct) (simp_all split: option.split)
qed

section \<open>The administrator's token is shown once\<close>

text \<open>
  The life of a database: the two commands run over it in any order, and between them whatever a
  running server does to it.
\<close>

datatype HostEvent = InitCmd ServerHost | ServeCmd ServerOptions ServerHost | Operate RepoOp

fun host_step :: "Coders \<Rightarrow> Repo \<Rightarrow> HostEvent \<Rightarrow> (ServeError + Line list) \<times> Repo" where
  "host_step cd repo (InitCmd h) = cmd_init h repo"
| "host_step cd repo (ServeCmd opts h) = cmd_serve opts h repo"
| "host_step cd repo (Operate op) = (Inr [], snd (repo_step cd repo op))"

fun shown_by :: "Line \<Rightarrow> string set" where
  "shown_by (TokenOnce t) = {t}"
| "shown_by (TokenWithFingerprint t fp) = {t}"
| "shown_by (TokenPlaintext t) = {t}"
| "shown_by _ = {}"

definition tokens_shown :: "ServeError + Line list \<Rightarrow> string set" where
  "tokens_shown out = (case out of Inl _ \<Rightarrow> {} | Inr ls \<Rightarrow> \<Union> (shown_by ` set ls))"

fun opened_by :: "HostEvent \<Rightarrow> ServerHost option" where
  "opened_by (InitCmd h) = (if hs_opens h then Some h else None)"
| "opened_by (ServeCmd _ h) = (if hs_opens h then Some h else None)"
| "opened_by (Operate _) = None"

lemma admin_token_set [simp]:
  "admin_token (set_setting k v s) = (if k = ''admin_token'' then Some v else admin_token s)"
  by (simp add: admin_token_def get_setting_def set_setting_def table_simps)

lemma load_keeps_token: "admin_token (snd (load_or_generate lib cf kf s)) = admin_token s"
  by (auto simp: load_or_generate_def TLS_SETTING_KEY_def split: sum.split prod.split option.split)

lemma cert_keeps_token: "admin_token (snd (server_cert opts h s)) = admin_token s"
  using load_keeps_token [of "hs_tls h" "so_cert_file opts" "so_key_file opts" s]
  by (auto simp: server_cert_def split: prod.splits sum.splits)

lemma start_token:
  assumes "start_with_options opts h s = (r, t)" and "hs_opens h"
  shows "admin_token t = Some (case admin_token s of Some a \<Rightarrow> a | None \<Rightarrow> hs_fresh h)"
    and "r = Inr v \<Longrightarrow> rv_admin_token_fresh v = (admin_token s = None)
          \<and> rv_admin_token v = (case admin_token s of Some a \<Rightarrow> a | None \<Rightarrow> hs_fresh h)"
proof -
  obtain a f s1 where g: "get_or_create_admin_token (hs_fresh h) s = ((a, f), s1)"
    by (metis surj_pair)
  then have a: "admin_token s1 = Some a" "f = (admin_token s = None)"
      "a = (case admin_token s of Some a \<Rightarrow> a | None \<Rightarrow> hs_fresh h)"
    by (auto simp: get_or_create_admin_token_def admin_token_def [symmetric] split: option.splits)
  obtain c s2 where c: "server_cert opts h s1 = (c, s2)" by fastforce
  then have "admin_token s2 = Some a" using cert_keeps_token [of opts h s1] a(1) by simp
  then show "admin_token t = Some (case admin_token s of Some a \<Rightarrow> a | None \<Rightarrow> hs_fresh h)"
    and "r = Inr v \<Longrightarrow> rv_admin_token_fresh v = (admin_token s = None)
          \<and> rv_admin_token v = (case admin_token s of Some a \<Rightarrow> a | None \<Rightarrow> hs_fresh h)"
    using assms a(2,3) by (auto simp: start_with_options_def g c split: sum.splits option.splits)
qed

lemma operate_keeps_token:
  assumes "admin_token s = Some a"
  shows "\<exists>b. admin_token (snd (repo_step cd s op)) = Some b \<and> ((\<forall>t. op \<noteq> OpRotateAdmin t) \<longrightarrow> b = a)"
proof (cases "\<exists>t. op = OpRotateAdmin t")
  case True
  then show ?thesis by (auto simp: rotate_admin_token_def)
next
  case False
  then have "\<exists>i. repo_op_ok i op" by (cases op) auto
  then obtain i where "repo_op_ok i op" by blast
  then have "rp_settings (snd (repo_step cd s op)) = rp_settings s"
    using repo_step_ids [of i op s cd] by (simp add: ids_settings_def)
  then show ?thesis using assms by (simp add: admin_token_def get_setting_def)
qed

text \<open>Once there is a token, no command shows one, and only a rotation replaces it.\<close>

lemma host_step_hides:
  assumes "admin_token s = Some a"
  shows "tokens_shown (fst (host_step cd s e)) = {}
    \<and> (\<exists>b. admin_token (snd (host_step cd s e)) = Some b \<and> ((\<forall>t. e \<noteq> Operate (OpRotateAdmin t)) \<longrightarrow> b = a))"
proof (cases e)
  case (InitCmd h)
  then show ?thesis using assms by (simp add: cmd_init_def tokens_shown_def)
next
  case (ServeCmd opts h)
  obtain r t where st: "start_with_options opts h s = (r, t)" by fastforce
  show ?thesis
  proof (cases "hs_opens h")
    case True
    show ?thesis
      using start_token [OF st True] ServeCmd st assms
      by (cases r) (auto simp: cmd_serve_def tokens_shown_def token_lines_def)
  next
    case False
    then show ?thesis using ServeCmd assms by (simp add: cmd_serve_def start_with_options_def tokens_shown_def)
  qed
next
  case (Operate op)
  then show ?thesis using operate_keeps_token [OF assms, of cd op] by (auto simp: tokens_shown_def)
qed

lemma run_hides:
  assumes "admin_token s = Some a" and "run (host_step cd) s es = (outs, t)"
  shows "(\<forall>out\<in>set outs. tokens_shown out = {})
    \<and> (\<exists>b. admin_token t = Some b \<and> ((\<forall>u. Operate (OpRotateAdmin u) \<notin> set es) \<longrightarrow> b = a))"
  using assms
proof (induction es arbitrary: s a outs)
  case (Cons e es)
  obtain o1 s1 where s1: "host_step cd s e = (o1, s1)" by fastforce
  obtain os where r: "run (host_step cd) s1 es = (os, t)" "outs = o1 # os"
    using Cons.prems(2) s1 by (auto simp: Let_def split: prod.splits)
  from host_step_hides [OF Cons.prems(1), of cd e] s1 obtain b
    where b: "tokens_shown o1 = {}" "admin_token s1 = Some b" "(\<forall>t. e \<noteq> Operate (OpRotateAdmin t)) \<longrightarrow> b = a"
    by auto
  show ?case using Cons.IH [OF b(2) r(1)] b(1,3) r(2) by auto
qed simp

lemma first_command:
  assumes "admin_token s = None" and "opened_by e = Some h" and "host_step cd s e = (out, t)"
  shows "tokens_shown out = (if isl out then {} else {hs_fresh h}) \<and> admin_token t = Some (hs_fresh h)"
proof (cases e)
  case (InitCmd k)
  then show ?thesis using assms by (auto simp: cmd_init_def tokens_shown_def split: if_splits)
next
  case (ServeCmd opts k)
  then have k: "k = h" "hs_opens h" using assms(2) by (auto split: if_splits)
  obtain r t' where st: "start_with_options opts h s = (r, t')" by fastforce
  show ?thesis
    using start_token [OF st k(2)] ServeCmd k st assms(1,3)
    by (cases r) (auto simp: cmd_serve_def tokens_shown_def token_lines_def split: option.splits)
next
  case (Operate op)
  then show ?thesis using assms(2) by simp
qed

text \<open>
  C21 (safety). The administrator's token of a new database is made and stored by the first command that opens
  it and printed by that command alone, and only if the command succeeds: if it is a serve that
  finds no certificate or cannot bind a port, no later command and no operation of the server
  ever prints the token, which is in force all the same and stays so until it is rotated. (The
  installation of the service also opens the database, but makes no token and prints none.)
\<close>
theorem admin_token_shown_once:
  assumes "admin_token repo = None" and "opened_by e = Some h"
    and "run (host_step cd) repo (e # es) = (out # outs, repo')"
  shows "tokens_shown out = (if isl out then {} else {hs_fresh h})
    \<and> (\<forall>later\<in>set outs. tokens_shown later = {})
    \<and> ((\<forall>t. Operate (OpRotateAdmin t) \<notin> set es) \<longrightarrow> admin_token repo' = Some (hs_fresh h))"
proof -
  obtain s1 where s1: "host_step cd repo e = (out, s1)" "run (host_step cd) s1 es = (outs, repo')"
    using assms(3) by (auto simp: Let_def split: prod.splits)
  note f = first_command [OF assms(1,2) s1(1)]
  show ?thesis using f run_hides [OF _ s1(2)] by (metis (full_types))
qed

definition demo_host :: ServerHost where
  "demo_host = \<lparr>hs_opens = True, hs_fresh = ''ska_1'', hs_tls = demo_tls, hs_udp = Some, hs_tcp = Some, hs_api = Some\<rparr>"

definition demo_opts :: ServerOptions where
  "demo_opts = \<lparr>so_api_port = 1, so_relay_udp_port = 2, so_relay_tcp_port = 3, so_no_tls = True,
                so_cert_file = None, so_key_file = None\<rparr>"

definition demo_host_coders :: Coders where
  "demo_host_coders = \<lparr>cd_hash = id, cd_hexenc = (\<lambda>_. []), cd_hexdec = (\<lambda>_. None),
                       cd_json = (\<lambda>_. []), cd_unjson = (\<lambda>_. None)\<rparr>"

text \<open>A first serve whose API port is taken, a second one that starts, and an init: the token is never shown.\<close>

definition demo_life :: "(ServeError + Line list) list \<times> Repo" where
  "demo_life = run (host_step demo_host_coders) repo_empty
     [ServeCmd demo_opts (demo_host\<lparr>hs_api := \<lambda>_. None\<rparr>), ServeCmd demo_opts demo_host, InitCmd demo_host]"

theorem admin_token_shown_once_witness:
  "map tokens_shown (fst demo_life) = [{}, {}, {}] \<and> map isl (fst demo_life) = [True, False, False]
   \<and> admin_token (snd demo_life) = Some ''ska_1''"
proof -
  have n: "admin_token repo_empty = None" by (simp add: admin_token_def get_setting_def repo_empty_def)
  obtain o1 o2 o3 t where r: "demo_life = ([o1, o2, o3], t)"
    by (cases demo_life) (auto simp: demo_life_def Let_def split: prod.splits)
  have i: "map isl (fst demo_life) = [True, False, False]"
    by (simp add: demo_life_def demo_host_def demo_opts_def cmd_serve_def cmd_init_def start_with_options_def
        get_or_create_admin_token_def admin_token_def [symmetric] n server_cert_def)
  show ?thesis
    using admin_token_shown_once [OF n _ r [unfolded demo_life_def], of "demo_host\<lparr>hs_api := \<lambda>_. None\<rparr>"] i
    by (simp add: r demo_host_def)
qed

end
