(* ===== verification/Broadcast.thy ===== *)
theory Broadcast
  imports EventsHub Repo Presence
begin

text \<open>
  From presence to the hub: the task of crates/skiff-server/src/presence.rs
  (spawn\_online\_broadcaster) that turns the transitions a PresenceStore reports into broadcasts,
  with the lookup of networks that app.rs start gives it.
\<close>

definition status_event :: "string \<Rightarrow> NetId \<Rightarrow> u64 \<Rightarrow> WsEvent" where
  "status_event t network_id device_id =
     \<lparr>ev_type = t, ev_network_id = Some network_id, ev_device_id = Some device_id, ev_message = None\<rparr>"

text \<open>One transition: for each network of the device, the change and then PEERS\_CHANGED.\<close>

definition broadcast_status :: "(u64 \<Rightarrow> NetId list) \<Rightarrow> u64 \<times> bool \<Rightarrow> EventsHub \<Rightarrow> EventsHub" where
  "broadcast_status networks_of change hub =
     (let (device_id, online) = change;
          t = (if online then DEVICE_ONLINE else DEVICE_OFFLINE)
      in fold (\<lambda>n h. broadcast_network n (status_event PEERS_CHANGED n device_id)
                 (broadcast_network n (status_event t n device_id) h))
           (networks_of device_id) hub)"

definition online_broadcaster :: "(u64 \<Rightarrow> NetId list) \<Rightarrow> (u64 \<times> bool) list \<Rightarrow> EventsHub \<Rightarrow> EventsHub" where
  "online_broadcaster networks_of changes hub = fold (broadcast_status networks_of) changes hub"

definition networks_of_device :: "Repo \<Rightarrow> u64 \<Rightarrow> NetId list" where
  "networks_of_device repo device_id = map mb_network_id (memberships_of_device device_id repo)"

section \<open>Who is told\<close>

lemma broadcast_map [simp]:
  "eh_map (broadcast_network n e h) = eh_map h" "eh_next (broadcast_network n e h) = eh_next h"
  by (simp_all add: broadcast_network_def hub_send_where_def)

lemma broadcast_inv [simp]: "hub_inv (broadcast_network n e h) = hub_inv h"
  by (simp add: hub_inv_def)

lemma broadcast_log:
  assumes "hub_inv h" and "tget (eh_map h) (p, m) = Some ch"
  shows "eh_log (broadcast_network n e h) ch = eh_log h ch @ (if n = m then [Ws e] else [])"
proof -
  have "(\<exists>k. tget (eh_map h) k = Some ch \<and> snd k = n) \<longleftrightarrow> n = m"
  proof
    assume "\<exists>k. tget (eh_map h) k = Some ch \<and> snd k = n"
    then obtain k where "tget (eh_map h) k = Some ch" "snd k = n" by blast
    moreover have "inj_on (tget (eh_map h)) (dom (tget (eh_map h)))" using assms(1) by (simp add: hub_inv_def)
    ultimately have "k = (p, m)" using assms(2) by (metis domI inj_onD)
    then show "n = m" using \<open>snd k = n\<close> by simp
  qed (use assms(2) in force)
  then show ?thesis
    using hub_send_where_log [OF assms(1), of "\<lambda>k. snd k = n" e ch] by (simp add: broadcast_network_def)
qed

lemma broadcast_fold_log:
  assumes "hub_inv h" and "tget (eh_map h) (p, m) = Some ch" and "distinct ns"
  shows "eh_log (fold (\<lambda>n h. broadcast_network n (b n) (broadcast_network n (a n) h)) ns h) ch
       = eh_log h ch @ (if m \<in> set ns then [Ws (a m), Ws (b m)] else [])"
  using assms
proof (induction ns arbitrary: h)
  case (Cons n ns)
  let ?h = "broadcast_network n (b n) (broadcast_network n (a n) h)"
  have "eh_log ?h ch = eh_log h ch @ (if n = m then [Ws (a m), Ws (b m)] else [])"
    using Cons.prems by (simp add: broadcast_log [where p = p and m = m])
  then show ?case using Cons.IH [of ?h] Cons.prems by auto
qed simp

lemma distinct_filtered_networks:
  "distinct (map (\<lambda>m. (mb_network_id m, mb_device_id m)) ms) \<Longrightarrow>
   distinct (map mb_network_id (filter (\<lambda>m. mb_device_id m = d) ms))"
  by (induction ms) auto

lemma networks_of_device_distinct: "book_inv repo \<Longrightarrow> distinct (networks_of_device repo d)"
  using distinct_filtered_networks [of "rp_memberships repo" d]
  by (simp add: networks_of_device_def memberships_of_device_def distinct_map book_inv_def)

text \<open>
  A device that comes online or goes offline is announced on every socket of every network it is
  a member of, by the change and then PEERS\_CHANGED, each once and for that network, and on no
  other socket; the sockets of a network are those of the last registrations, after any history of the hub.
\<close>
theorem status_change_announced:
  assumes "book_inv repo" and "h = snd (run hub_step hub_new ops)" and "tget (eh_map h) (peer, net) = Some ch"
  shows "eh_log (broadcast_status (networks_of_device repo) (dev, online) h) ch
       = eh_log h ch @
         (if \<exists>m\<in>set (rp_memberships repo). mb_device_id m = dev \<and> mb_network_id m = net
          then [Ws (status_event (if online then DEVICE_ONLINE else DEVICE_OFFLINE) net dev),
                Ws (status_event PEERS_CHANGED net dev)]
          else [])"
proof -
  have h: "hub_inv h" unfolding assms(2) by (rule hub.run_snd_inv [OF hub_inv_new])
  have "net \<in> set (networks_of_device repo dev)
      \<longleftrightarrow> (\<exists>m\<in>set (rp_memberships repo). mb_device_id m = dev \<and> mb_network_id m = net)"
    by (auto simp: networks_of_device_def memberships_of_device_def)
  then show ?thesis
    using broadcast_fold_log [OF h assms(3) networks_of_device_distinct [OF assms(1), of dev]]
    by (simp add: broadcast_status_def)
qed

end
