(* ===== verification/UdpTasks.thy ===== *)
theory UdpTasks
  imports EngineEvents UdpMesh
begin

text \<open>
  The tasks around the sockets of crates/skiff-node/src/transport/udp\_mesh.rs (spawn\_writer,
  spawn\_reader and handle), one turn each, between the mesh and the event queue of the engine.
\<close>

text \<open>handle: the event a received packet becomes; None on a panic of the parser.\<close>

definition mesh_handle :: "SocketAddr \<Rightarrow> SocketAddr \<Rightarrow> bytes \<Rightarrow> SocketAddr option \<Rightarrow> EngineEvent list option" where
  "mesh_handle src local_bind packet relay =
     (case classify src relay packet of
        None \<Rightarrow> None
      | Some (ObservedEndpoint ep) \<Rightarrow> Some [EvObservedEndpoint ep]
      | Some (RelayFrame frame) \<Rightarrow> Some [EvFrame ArrRelayUdp frame]
      | Some (Direct frame) \<Rightarrow> Some [EvFrame (ArrDirectUdp src local_bind) frame]
      | Some Ignore \<Rightarrow> Some [])"

text \<open>One turn of the reader; a failed receive is only waited out.\<close>

definition mesh_read :: "UdpMesh \<Rightarrow> SocketAddr \<Rightarrow> (SocketAddr \<times> bytes) option \<Rightarrow> EngineEvent list option" where
  "mesh_read m local_bind received =
     (case received of
        Some (src, packet) \<Rightarrow> mesh_handle src local_bind packet (um_relay_addr m)
      | None \<Rightarrow> Some [])"

text \<open>
  The writer of one socket: the packets in order, and for the failures a counter, which all
  sockets share, and a line at most once a minute.
\<close>

record UdpWriter =
  uw_last_log_ms :: millis
  uw_errors :: u64

definition writer_turn :: "UdpWriter \<Rightarrow> millis \<times> bool \<Rightarrow> u64 option \<times> UdpWriter" where
  "writer_turn w turn =
     (let (now, sent) = turn in
      if sent then (None, w)
      else
        (let total = uw_errors w + 1; w1 = w\<lparr>uw_errors := total\<rparr> in
         if 60000 < now - uw_last_log_ms w then (Some total, w1\<lparr>uw_last_log_ms := now\<rparr>) else (None, w1)))"

section \<open>Properties\<close>

text \<open>
  What a socket receives never brings the reader down, and only packets whose source is the relay
  become frames of the relay; a peer that sends a packet of the relay protocol is ignored.
\<close>

lemma mesh_handle_arrivals:
  assumes "mesh_handle src local_bind packet relay = Some evs" and "EvFrame arrival frame \<in> set evs"
  shows "(arrival = ArrRelayUdp \<and> relay = Some src)
       \<or> (arrival = ArrDirectUdp src local_bind \<and> relay \<noteq> Some src \<and> frame = packet)"
proof -
  obtain r where "relay_udp_parse packet = Some r" using relay_udp_parse_total by blast
  then show ?thesis
    using assms
    by (auto simp: mesh_handle_def classify_def split: option.splits UdpInbound.splits RelayPacket.splits if_splits)
qed

lemma mesh_handle_total: "mesh_handle src local_bind packet relay \<noteq> None"
  using relay_udp_parse_total [of packet]
  by (auto simp: mesh_handle_def classify_def split: UdpInbound.split)

lemma writer_turn_cases:
  assumes "writer_turn w (now, sent) = (line, w')"
  shows "uw_errors w' = uw_errors w + (if sent then 0 else 1)"
    and "line \<noteq> None \<Longrightarrow> uw_last_log_ms w + 60000 < now \<and> uw_last_log_ms w' = now"
    and "line = None \<Longrightarrow> uw_last_log_ms w' = uw_last_log_ms w"
  using assms by (auto simp: writer_turn_def Let_def split: if_splits)

definition log_times :: "millis \<Rightarrow> (millis \<times> bool) list \<Rightarrow> u64 \<Rightarrow> millis list" where
  "log_times t0 turns k =
     [now. ((now, _), Some _) \<leftarrow> zip turns (fst (run writer_turn \<lparr>uw_last_log_ms = t0, uw_errors = k\<rparr> turns))]"

lemma log_times_Cons:
  "log_times t0 ((now, sent) # turns) k =
     (if sent then log_times t0 turns k
      else if 60000 < now - t0 then now # log_times now turns (k + 1)
      else log_times t0 turns (k + 1))"
  by (simp add: log_times_def writer_turn_def Let_def case_prod_beta)

text \<open>Every two lines of a writer are more than a minute apart, whatever fails and when.\<close>

theorem writer_lines_a_minute_apart:
  "sorted_wrt (\<lambda>s t. s + 60000 < t) (t0 # log_times t0 turns k)"
proof (induction turns arbitrary: t0 k)
  case (Cons a turns)
  obtain now sent where a: "a = (now, sent)" by (cases a)
  have "t0 + 60000 < now \<Longrightarrow> sorted_wrt (\<lambda>s t. s + 60000 < t) (t0 # now # log_times now turns (k + 1))"
    using Cons.IH [of now "k + 1"] by fastforce
  then show ?case using Cons.IH by (simp add: a log_times_Cons)
qed (simp add: log_times_def)

end
