(* ===== verification/Spec2Isabelle.thy ===== *)
theory Spec2Isabelle
  imports Wire FlowProto Ipam Models Presence UdpRelay TcpRelay EventsHub Session SessionKeys TlsVerifier Supervisor Tokens RepoProps AppViews Control FlowEndToEnd TransportProps ProxyProps
    RefreshFlight Logging ServiceProps NodeStatus AdminClient ServerStart Broadcast UdpTasks
begin

text \<open>
  A verification development for starskiff, a mesh VPN in Rust: a control server with a
  database and two relays (crates/skiff-server), a node that carries the packets of a TUN
  device, SOCKS clients and port forwarders to its peers (crates/skiff-node), and what both
  share (crates/skiff-core).

  How the program works. A device enrols at the server with a token and gets an address in a
  network. A node fetches the peers of its networks over HTTPS, derives a session key with each,
  and sends sealed frames to them: directly over UDP or TCP where a probe has shown the way,
  otherwise through the UDP or the TCP relay of the server. Streams and datagrams of local
  programs travel inside such frames as flows. The server pushes changes over a WebSocket;
  the node then fetches settings, peers and memberships again. A master process restarts the
  worker that runs the engine.

  Which theory models which file.

  \<^item> Shared vocabulary: Prelude (machine integers, reads that may panic, tables, runs of a step
    function, the interface locales machine, once\_filter and codec), Rust\_Std (text and address
    parsing of the standard library), Consts.
  \<^item> skiff-core: Endec (endec.rs), Replay (crypto/replay.rs), SessionKeys
    (crypto/session\_keys.rs), Wire (protocol/wire.rs), FlowProto, RelayUdpProto, RelayTcpProto
    (the other files of protocol), Tokens (crypto/tokens.rs, secret.rs, secretbox.rs), Ipam
    (ipam.rs), Models (models.rs).
  \<^item> skiff-server: Repo and RepoProps (repo.rs over the schema of db.rs), RegisterGuard,
    UdpRelay, TcpRelay (relay), Presence, EventsHub, and app.rs in App (state, throttle,
    authentication), AppNode (what nodes call), AppAdmin (what administrators call), AppServer
    (the router, the sockets and the relays as one machine); Broadcast (the task of presence.rs
    between presence and the hub), ServerTls (tls.rs) and ServerStart (start of app.rs, cmd\_init
    and cmd\_serve of main.rs). AppProps, AppSecurity, AppThrottle,
    AppRevoke and AppViews hold what is proved of that machine.
  \<^item> skiff-node: Session (session.rs); engine.rs in Engine (state), EngineRoute (routing,
    received frames, probing), EngineControl (settings, peers, roster, heartbeat), EngineEvents
    (the events of all tasks as one machine), with EngineRouteProps and EngineControlProps; Flow
    (flow.rs) with FlowProps, FlowStreams and FlowPeers; Transports (transport/relay\_tcp.rs,
    peer\_tcp.rs) with TransportProps; UdpMesh and UdpTasks (transport/udp\_mesh.rs); Proxy (proxy) with
    ProxyProps; Control (control.rs); TlsVerifier (tls\_verifier.rs); Supervisor (supervisor.rs).
  \<^item> Around the engine: NodeFile (node\_config.rs, crypto/node\_keys.rs and the config file of
    models.rs, member by member as serde reads it), NodeStart with NodeStartProps (how engine.rs
    brings a node up from its files, settings and network list, and the lib.rs functions around
    it), NodeStatus (status report, statistics log, TOFU and stop files of engine.rs, net\_if.rs),
    RefreshFlight (the single-flight lock of refresh\_peers), NodeMain with NodeMainProps (the
    commands of skiff-node/src/main.rs, the worker round included).
  \<^item> Hosts and operators: Calendar and Logging (logging.rs), Platform (the Linux firewall of
    platform.rs), RuntimeFirewall and ServiceInstall with ServiceProps (service\_install.rs and the
    service commands of skiff-server/src/main.rs), AdminClient (admin\_cli.rs and cmd\_admin).
  \<^item> Across components: EndToEnd (node, relay, node) and FlowEndToEnd (a stream between the
    programs at its two ends).

  How code and model correspond. A struct with its mutexes and atomics is a record; an enum is a
  datatype; a DashMap, HashMap or SQL table is an association list with distinct keys; machine
  integers are words. A method is a function from its arguments and the state to its result and
  the new state; one that runs in a task over time is split into its steps, each with the outcome
  of the call it waited for as an argument. A read of a slice or an unwrap that may panic is an
  option whose None is the panic; the release profile aborts on a panic, so a machine that panics
  takes no further step. Errors are values: an option where the code gives an Option, a sum where
  it gives a Result. What a handler sends is returned or appended to a list of effects.

  What the lemmas show. Each component has its invariant and the preservation of it by every
  operation, stated once by an interpretation of the locale machine (address book, server,
  presence, hub, admission of TCP connections, engine, flow manager); encoders and parsers are
  interpretations of codec; the replay window, the packet codec and the registration guard are
  interpretations of once\_filter, the contract that nothing is admitted twice. The replay window
  refines the set of the counters seen. The properties of the manifest rest on these: what
  crosses the relay arrives unchanged, streams deliver prefixes, credentials are checked exactly,
  what a deletion revokes stays revoked, policies are kept by outgoing traffic, budgets and
  throttles hold over all sequences of requests. The calendar of the log files is compared with
  a day-by-day definition of the Gregorian calendar, the node's file round-trips, the state file
  of the runtime firewall covers the rules that are open (an interpretation of machine over the
  life of a service), the certificate of the server survives its
  restarts, the administrator's token is printed at most once in the life of a database, a started engine
  has the settings in effect that it acknowledges and the peers listed for its networks, a roll-back
  returns to the content acknowledged last, and what the TCP relay has queued was asked for by an
  authenticated session. Some theorems state what the code should not
  allow and does; they are named in the findings of the manifest.

  Bounds and fuel. Recursion is structural or has a measure; the loop of the frame reassembler
  consumes its buffer; the loop of the supervisor runs over the sequence of the worker's rounds.
  Nothing is cut off by fuel. Sequences of events are lists of any length.

  Modelling assumptions. A handler runs to completion before the next one and reads the clock
  once; where the code has a race between two critical sections that matters, the sections are
  separate steps or the race is a finding. The iteration order of a hash table is the order of the
  model's list. Sockets are IPv4. Random values, the clock, the answers of the network and of the
  operating system are arguments. Third-party code is a parameter: X25519, HKDF, HMAC, SHA-256, the
  AEAD, hex and base64, JSON, certificate verification, the Windows calls; what is relied on is a
  hypothesis of the theorem that needs it, and its witness gives an instance.

  Not modelled: the argument parsing (clap) and the wording of what the executables
  print, the Windows branches (service host, netsh,
  sealed files of the system account), the TUN device itself, the SQL text and the migration of
  old databases, log lines that carry no state, and the scheduling of the engine's tasks, whose
  turns are the events of EngineEvents. The JSON forms that serde derives are modelled for the
  files of the node and for the answers that admin\_cli reads, and otherwise exchanged as values.
\<close>

end
